(* ===== verification/Prelude.thy ===== *)
theory Prelude
  imports Main "HOL-Library.Word" "HOL-Library.List_Lexorder" "HOL-Library.Multiset"
begin

text \<open>
  What every component shares: ECMAScript strings as lists of 16-bit code units, the values
  that arrive over the wire, the readers of \<open>unknown\<close> values the wire parsers are built
  from, decimal rendering of counters, and the lemmas on maps, lists and counters that the
  component theories use.
\<close>

named_theorems wire_simps \<open>rewrite rules that evaluate the readers of wire values\<close>

section \<open>Strings as UTF-16 code units\<close>

type_synonym code_unit = "16 word"
type_synonym jstr = "code_unit list"

text \<open>An ASCII literal of the source, as code units.\<close>

definition js :: "string \<Rightarrow> jstr" where
  "js s = map of_char s"

lemma of_char_less_256: "(of_char c :: nat) < 256"
  by (metis mod_less_divisor of_char_mod_256 zero_less_numeral)

lemma unat_of_char: "unat (of_char c :: 16 word) = of_char c"
proof -
  have "(of_char c :: nat) < 2 ^ LENGTH(16)"
    using of_char_less_256 [of c] by (rule order.strict_trans) simp
  then have "unat (word_of_nat (of_char c) :: 16 word) = of_char c"
    by (simp add: unat_of_nat take_bit_nat_eq_self)
  then show ?thesis by (simp add: of_nat_of_char)
qed

lemma of_char_word_eq_iff: "(of_char c :: 16 word) = of_char d \<longleftrightarrow> c = d"
proof
  assume "(of_char c :: 16 word) = of_char d"
  then have "unat (of_char c :: 16 word) = unat (of_char d :: 16 word)"
    by simp
  then have "(of_char c :: nat) = of_char d"
    by (simp add: unat_of_char)
  then show "c = d" by simp
qed simp

lemma js_inject [simp]: "js a = js b \<longleftrightarrow> a = b"
  by (simp add: js_def inj_map_eq_map inj_def of_char_word_eq_iff)

lemma length_js [simp]: "length (js s) = length s"
  by (simp add: js_def)

lemma js_eq_Nil [simp]: "js s = [] \<longleftrightarrow> s = []" "[] = js s \<longleftrightarrow> s = []"
  by (auto simp: js_def)

lemma js_append: "js (a @ b) = js a @ js b"
  by (simp add: js_def)

definition in_range :: "code_unit \<Rightarrow> code_unit \<Rightarrow> code_unit \<Rightarrow> bool" where
  "in_range lo hi c \<longleftrightarrow> lo \<le> c \<and> c \<le> hi"

text \<open>White space and line terminators as \<open>String.prototype.trim\<close> strips them.\<close>

definition is_js_space :: "code_unit \<Rightarrow> bool" where
  "is_js_space c \<longleftrightarrow> in_range 0x09 0x0d c \<or> c = 0x20 \<or> c = 0xa0 \<or> c = 0x1680
     \<or> in_range 0x2000 0x200a c \<or> c = 0x2028 \<or> c = 0x2029 \<or> c = 0x202f \<or> c = 0x205f
     \<or> c = 0x3000 \<or> c = 0xfeff"

definition js_trim :: "jstr \<Rightarrow> jstr" where
  "js_trim s = rev (dropWhile is_js_space (rev (dropWhile is_js_space s)))"

text \<open>Lower case on the ASCII letters; used on strings whose letters are ASCII.\<close>

definition ascii_lower :: "jstr \<Rightarrow> jstr" where
  "ascii_lower s = map (\<lambda>c. if in_range 0x41 0x5a c then c + 0x20 else c) s"

definition is_high_surrogate :: "code_unit \<Rightarrow> bool" where
  "is_high_surrogate c \<longleftrightarrow> in_range 0xd800 0xdbff c"

definition is_low_surrogate :: "code_unit \<Rightarrow> bool" where
  "is_low_surrogate c \<longleftrightarrow> in_range 0xdc00 0xdfff c"

text \<open>The number of code points a regular expression with the \<open>u\<close> flag sees.\<close>

fun code_point_count :: "jstr \<Rightarrow> nat" where
  "code_point_count [] = 0"
| "code_point_count [c] = 1"
| "code_point_count (c # d # s) =
     (if is_high_surrogate c \<and> is_low_surrogate d then Suc (code_point_count s)
      else Suc (code_point_count (d # s)))"

lemma code_point_count_le: "code_point_count s \<le> length s"
  by (induction s rule: code_point_count.induct) auto

section \<open>Decimal text of counters\<close>

fun nat_text :: "nat \<Rightarrow> jstr" where
  "nat_text n = (if n < 10 then [0x30 + of_nat n]
                 else nat_text (n div 10) @ [0x30 + of_nat (n mod 10)])"

declare nat_text.simps [simp del]

lemma nat_text_nonempty [simp]: "nat_text n \<noteq> []"
  by (subst nat_text.simps) simp

lemma length_nat_text: "n < 10 ^ Suc k \<Longrightarrow> length (nat_text n) \<le> Suc k"
proof (induction k arbitrary: n)
  case 0
  then show ?case by (subst nat_text.simps) simp
next
  case (Suc k)
  show ?case
  proof (cases "n < 10")
    case True
    then show ?thesis by (subst nat_text.simps) simp
  next
    case False
    from Suc.prems have "n div 10 < 10 ^ Suc k"
      by (simp add: less_mult_imp_div_less mult.commute)
    then have "length (nat_text (n div 10)) \<le> Suc k"
      by (rule Suc.IH)
    with False show ?thesis by (subst nat_text.simps) simp
  qed
qed

lemma digit_unit_range:
  "n < 10 \<Longrightarrow> in_range 0x30 0x39 (0x30 + of_nat n :: code_unit)"
proof -
  assume "n < 10"
  then have "n \<in> {0, 1, 2, 3, 4, 5, 6, 7, 8, 9}" by auto
  then show ?thesis by (auto simp: in_range_def)
qed

lemma nat_text_digits: "list_all (in_range 0x30 0x39) (nat_text n)"
proof (induction n rule: nat_text.induct)
  case (1 n)
  show ?case
    by (subst nat_text.simps) (auto simp: 1 digit_unit_range)
qed

text \<open>The value of a decimal text, for the injectivity of \<open>nat_text\<close>.\<close>

definition digits_value :: "jstr \<Rightarrow> nat" where
  "digits_value s = foldl (\<lambda>acc c. 10 * acc + unat (c - 0x30)) 0 s"

lemma unat_digit: "n < 10 \<Longrightarrow> unat (0x30 + of_nat n - 0x30 :: code_unit) = n"
proof -
  assume "n < 10"
  then have "n \<in> {0, 1, 2, 3, 4, 5, 6, 7, 8, 9}" by auto
  then show ?thesis by auto
qed

lemma digits_value_nat_text: "digits_value (nat_text n) = n"
proof (induction n rule: nat_text.induct)
  case (1 n)
  then show ?case
    using unat_digit [of n] unat_digit [of "n mod 10"]
    by (subst nat_text.simps) (auto simp: digits_value_def)
qed

end
