(* ===== verification/Wire.thy ===== *)
theory Wire
  imports Prelude "HOL-Library.Monad_Syntax"
begin

text \<open>
  The values a peer can send: what \<open>JSON.parse\<close> produces, and \<open>undefined\<close>, which is also what
  reading an absent property gives. The parsers of the protocol theories take such a value
  and return an option. A number is kept as ECMAScript prints it: an integer (the number itself as
  far as integers are exact), or another decimal text (fractions, and integers so large that an
  exponent is printed), or \<open>NaN\<close> and the infinities; the two zeros are one. Objects keep the order of their properties; the wire never
  repeats a key.
\<close>

datatype jnum = JInt int | JDec jstr | JNonFinite jstr

datatype jval =
    JUndef
  | JNull
  | JBool bool
  | JNum jnum
  | JStr jstr
  | JArr "jval list"
  | JObj "(jstr \<times> jval) list"

type_synonym jobj = "(jstr \<times> jval) list"

text \<open>Reading a property of a plain object; an absent one reads as \<open>undefined\<close>.\<close>

definition property :: "jobj \<Rightarrow> string \<Rightarrow> jval" where
  "property ob k = (case map_of ob (js k) of None \<Rightarrow> JUndef | Some v \<Rightarrow> v)"

text \<open>A plain object with the given properties, in order.\<close>

definition obj :: "(string \<times> jval) list \<Rightarrow> jval" where
  "obj ps = JObj (map (\<lambda>(k, v). (js k, v)) ps)"

definition max_safe_integer :: int where
  "max_safe_integer = 9007199254740991"

text \<open>\<open>Number.isSafeInteger\<close>, returning the integer.\<close>

fun safe_integer :: "jval \<Rightarrow> int option" where
  "safe_integer (JNum (JInt i)) = (if \<bar>i\<bar> \<le> max_safe_integer then Some i else None)"
| "safe_integer _ = None"

definition is_safe_integer :: "jval \<Rightarrow> bool" where
  "is_safe_integer v \<longleftrightarrow> safe_integer v \<noteq> None"

text \<open>
  \<open>value === null ? null : parse(value)\<close> with the check that a non-null value parsed: the
  reader of an optional part of a message.
\<close>

definition nullable :: "(jval \<Rightarrow> 'a option) \<Rightarrow> jval \<Rightarrow> 'a option option" where
  "nullable p v = (if v = JNull then Some None else map_option Some (p v))"

section \<open>Rewrite rules\<close>

lemma property_Nil [wire_simps]: "property [] k = JUndef"
  by (simp add: property_def)

lemma property_Cons [wire_simps]:
  "property ((js k', v) # ob) k = (if k = k' then v else property ob k)"
  by (simp add: property_def)

lemma nullable_JNull [wire_simps]: "nullable p JNull = Some None"
  by (simp add: nullable_def)

lemma nullable_Some:
  "p v = Some x \<Longrightarrow> v \<noteq> JNull \<Longrightarrow> nullable p v = Some (Some x)"
  by (simp add: nullable_def)

lemma nullable_cases:
  assumes "nullable p v = Some r"
  obtains (Null) "v = JNull" "r = None" | (Value) x where "p v = Some x" "r = Some x"
  using assms by (auto simp: nullable_def split: if_splits)

lemma safe_integer_Some:
  "safe_integer v = Some i \<longleftrightarrow> v = JNum (JInt i) \<and> \<bar>i\<bar> \<le> max_safe_integer"
  by (cases v rule: safe_integer.cases) auto

lemma safe_integer_of_nat [wire_simps]:
  "int n \<le> max_safe_integer \<Longrightarrow> safe_integer (JNum (JInt (int n))) = Some (int n)"
  by simp

text \<open>Sorted lists of keys are compared as multisets.\<close>

lemma sort_eq_iff_mset_eq: "sort xs = sort ys \<longleftrightarrow> mset xs = mset ys"
proof
  assume "sort xs = sort ys"
  then have "mset (sort xs) = mset (sort ys)" by simp
  then show "mset xs = mset ys" by simp
next
  assume "mset xs = mset ys"
  then show "sort xs = sort ys"
    by (metis mset_sort properties_for_sort sorted_sort)
qed

end
