(* ===== verification/Terminal_Types.thy ===== *)
theory Terminal_Types
  imports Wire
begin

text \<open>
  The data of the shared terminal (\<open>src/code/terminal/stateMachine.ts\<close>): participants, runs,
  actions, effects, acknowledgements, deltas, the public snapshot, and the lexical checks
  (identifiers, colours, workspace paths) and sanitisers both ends of the protocol share.
\<close>

section \<open>Limits and lexical checks\<close>

definition maxTranscriptCodeUnits :: nat where "maxTranscriptCodeUnits = 256 * 1024"
definition maxOutputChunkCodeUnits :: nat where "maxOutputChunkCodeUnits = 64 * 1024"
definition maxInputCodeUnits :: nat where "maxInputCodeUnits = 1024"
definition maxCommandCodeUnits :: nat where "maxCommandCodeUnits = 1024"
definition maxIdentifierCodeUnits :: nat where "maxIdentifierCodeUnits = 128"
definition maxRememberedActions :: nat where "maxRememberedActions = 4096"

lemmas terminal_limits =
  maxTranscriptCodeUnits_def maxOutputChunkCodeUnits_def maxInputCodeUnits_def
  maxCommandCodeUnits_def maxIdentifierCodeUnits_def maxRememberedActions_def

text \<open>\<open>IDENTIFIER = /^[A-Za-z0-9_-]{1,128}$/u\<close>\<close>

definition ident_unit :: "code_unit \<Rightarrow> bool" where
  "ident_unit c \<longleftrightarrow> in_range 0x41 0x5a c \<or> in_range 0x61 0x7a c \<or> in_range 0x30 0x39 c
     \<or> c = 0x5f \<or> c = 0x2d"

definition safeIdentifier :: "jstr \<Rightarrow> bool" where
  "safeIdentifier s \<longleftrightarrow> 1 \<le> length s \<and> length s \<le> maxIdentifierCodeUnits
     \<and> list_all ident_unit s"

text \<open>\<open>COLOR = /^#[0-9a-f]{6}$/iu\<close>\<close>

definition hex_unit :: "code_unit \<Rightarrow> bool" where
  "hex_unit c \<longleftrightarrow> in_range 0x30 0x39 c \<or> in_range 0x61 0x66 c \<or> in_range 0x41 0x46 c"

definition color_ok :: "jstr \<Rightarrow> bool" where
  "color_ok s \<longleftrightarrow> (case s of [] \<Rightarrow> False
     | c # cs \<Rightarrow> c = 0x23 \<and> length cs = 6 \<and> list_all hex_unit cs)"

text \<open>
  \<open>SAFE_WORKSPACE_PATH\<close>, lookahead by lookahead. \<open>.\<close> stops at the four line terminators, so
  the two \<open>(?!.*...)\<close> lookaheads only see the text before the first of them.
\<close>

definition is_line_terminator :: "code_unit \<Rightarrow> bool" where
  "is_line_terminator c \<longleftrightarrow> c = 0x0a \<or> c = 0x0d \<or> c = 0x2028 \<or> c = 0x2029"

fun at_segment_end :: "jstr \<Rightarrow> bool" where
  "at_segment_end [] = True"
| "at_segment_end (c # _) = (c = 0x2f)"

definition dot_segment :: "jstr \<Rightarrow> bool" where
  "dot_segment s \<longleftrightarrow> (take 1 s = [0x2e] \<and> at_segment_end (drop 1 s))
     \<or> (take 2 s = [0x2e, 0x2e] \<and> at_segment_end (drop 2 s))"

fun dot_segment_after_slash :: "jstr \<Rightarrow> bool" where
  "dot_segment_after_slash [] = False"
| "dot_segment_after_slash (c # s) =
     ((c = 0x2f \<and> dot_segment s) \<or> (\<not> is_line_terminator c \<and> dot_segment_after_slash s))"

fun forbidden_path_unit :: "jstr \<Rightarrow> bool" where
  "forbidden_path_unit [] = False"
| "forbidden_path_unit (c # s) =
     ((c = 0x5c \<or> c \<le> 0x1f \<or> c = 0x7f) \<or> (\<not> is_line_terminator c \<and> forbidden_path_unit s))"

definition safe_workspace_path :: "jstr \<Rightarrow> bool" where
  "safe_workspace_path s \<longleftrightarrow> take 1 s \<noteq> [0x2f]
     \<and> \<not> (dot_segment s \<or> dot_segment_after_slash s)
     \<and> \<not> forbidden_path_unit s
     \<and> list_all (\<lambda>c. c \<noteq> 0x0d \<and> c \<noteq> 0x0a) s
     \<and> 1 \<le> code_point_count s \<and> code_point_count s \<le> 1024"

section \<open>Sanitisers\<close>

text \<open>
  \<open>ANSI_ESCAPE\<close>: the length of the match at the head of the text, or \<open>None\<close>. The first
  alternative is a control sequence (its three character classes are disjoint, so the greedy
  match never backtracks), the second an operating system command with an optional
  terminator, the third a two-unit escape, tried when the first alternative fails.
\<close>

definition csi_length :: "jstr \<Rightarrow> nat option" where
  "csi_length s =
     (let ps = takeWhile (in_range 0x30 0x3f) s;
          is = takeWhile (in_range 0x20 0x2f) (drop (length ps) s);
          rest = drop (length ps + length is) s
      in case rest of [] \<Rightarrow> None
         | c # _ \<Rightarrow> if in_range 0x40 0x7e c then Some (length ps + length is + 1) else None)"

definition osc_length :: "jstr \<Rightarrow> nat" where
  "osc_length s =
     (let body = takeWhile (\<lambda>c. c \<noteq> 0x07 \<and> c \<noteq> 0x1b) s;
          rest = drop (length body) s
      in length body + (if take 1 rest = [0x07] then 1
                        else if take 2 rest = [0x1b, 0x5c] then 2 else 0))"

fun ansi_match :: "jstr \<Rightarrow> nat option" where
  "ansi_match (e # c # s) =
     (if e \<noteq> 0x1b then None
      else if c = 0x5b \<and> csi_length s \<noteq> None then map_option (\<lambda>n. n + 2) (csi_length s)
      else if c = 0x5d then Some (osc_length s + 2)
      else if in_range 0x40 0x5f c then Some 2
      else None)"
| "ansi_match _ = None"

function strip_ansi :: "jstr \<Rightarrow> jstr" where
  "strip_ansi [] = []"
| "strip_ansi (c # s) =
     (case ansi_match (c # s) of
        None \<Rightarrow> c # strip_ansi s
      | Some n \<Rightarrow> strip_ansi (drop (n - 1) s))"
  by pat_completeness auto
termination
  by (relation "measure length") auto

text \<open>\<open>.replace(/\r\n|\r/gu, "\n")\<close>\<close>

fun normalize_newlines :: "jstr \<Rightarrow> jstr" where
  "normalize_newlines [] = []"
| "normalize_newlines [c] = [if c = 0x0d then 0x0a else c]"
| "normalize_newlines (c # d # s) =
     (if c = 0x0d \<and> d = 0x0a then 0x0a # normalize_newlines s
      else (if c = 0x0d then 0x0a else c) # normalize_newlines (d # s))"

text \<open>\<open>UNSAFE_CONTROL\<close>\<close>

definition unsafe_control :: "code_unit \<Rightarrow> bool" where
  "unsafe_control c \<longleftrightarrow> c \<le> 0x08 \<or> c = 0x0b \<or> c = 0x0c \<or> in_range 0x0e 0x1f c
     \<or> in_range 0x7f 0x9f c"

definition sanitizeSharedTerminalOutput :: "jstr \<Rightarrow> jstr" where
  "sanitizeSharedTerminalOutput v =
     filter (\<lambda>c. \<not> unsafe_control c)
       (normalize_newlines (strip_ansi (take maxOutputChunkCodeUnits v)))"

definition safeInput :: "jstr \<Rightarrow> jstr" where
  "safeInput v = take maxInputCodeUnits
     (filter (\<lambda>c. \<not> unsafe_control c) (filter (\<lambda>c. c \<noteq> 0x0d \<and> c \<noteq> 0x0a) v))"

section \<open>Participants, runs and snapshots\<close>

datatype terminal_mode = Shell | Busy | Python | ProgramInput

record participant =
  participantId :: jstr
  displayName :: jstr
  color :: jstr

record actor = participant +
  socketId :: jstr

record input_state =
  i_value :: jstr
  i_cursor :: nat
  i_owner :: "participant option"

record run =
  runId :: jstr
  entryId :: "jstr option"
  entrypoint :: "jstr option"
  testId :: "jstr option"

datatype test_status = Passed | Failed

record test_result =
  tr_testId :: jstr
  tr_status :: test_status

text \<open>The complete public snapshot (\<open>SharedTerminalState\<close>).\<close>

record terminal_state =
  s_generation :: nat
  s_seq :: nat
  s_mode :: terminal_mode
  s_prompt :: jstr
  s_transcript :: jstr
  s_input :: input_state
  s_host :: "participant option"
  s_activeRun :: "run option"
  s_inputRequestId :: "jstr option"
  s_lastTest :: "test_result option"

section \<open>Actions, effects, acknowledgements, deltas\<close>

text \<open>The two prompts of the Python loop a host may announce, and the modes it may return to.\<close>

datatype repl_prompt = PrimaryPrompt | ContinuationPrompt

fun repl_prompt_text :: "repl_prompt \<Rightarrow> jstr" where
  "repl_prompt_text PrimaryPrompt = js ''>>> ''"
| "repl_prompt_text ContinuationPrompt = js ''... ''"

datatype ready_mode = ToShell | ToPython

datatype action_body =
    Sync
  | Claim
  | Release
  | EditInput jstr jnum
  | SubmitLine jstr
  | StartRun jstr jstr "jstr option"
  | Interrupt
  | Eof
  | HostOutput jstr jstr
  | HostInputRequest jstr jstr
  | HostReady jstr ready_mode "repl_prompt option" "test_result option"
  | HostFailed jstr jstr

record action =
  actionId :: jstr
  body :: action_body

datatype effect =
    ExecuteLineEffect jstr jstr jstr bool
  | StartRunEffect jstr jstr jstr jstr "jstr option"
  | InterruptEffect jstr jstr bool
  | EofEffect jstr jstr
  | SubmitInputEffect jstr jstr jstr jstr

fun targetSocketId :: "effect \<Rightarrow> jstr" where
  "targetSocketId (ExecuteLineEffect t _ _ _) = t"
| "targetSocketId (StartRunEffect t _ _ _ _) = t"
| "targetSocketId (InterruptEffect t _ _) = t"
| "targetSocketId (EofEffect t _) = t"
| "targetSocketId (SubmitInputEffect t _ _ _) = t"

fun effect_runId :: "effect \<Rightarrow> jstr" where
  "effect_runId (ExecuteLineEffect _ r _ _) = r"
| "effect_runId (StartRunEffect _ r _ _ _) = r"
| "effect_runId (InterruptEffect _ r _) = r"
| "effect_runId (EofEffect _ r) = r"
| "effect_runId (SubmitInputEffect _ r _ _) = r"

datatype terminal_error =
    ErrBusy | ErrInputOwned | ErrInvalidAction | ErrInvalidCursor | ErrInvalidRun
  | ErrInvalidState | ErrInvalidTestResult | ErrNotHost | ErrNotRunning
  | ErrIdempotencyConflict | ErrRateLimited | ErrUnauthorized

datatype ack_status = Applied | Unchanged | Duplicate | Rejected

record ack =
  a_actionId :: jstr
  a_generation :: nat
  a_seq :: nat
  a_status :: ack_status
  a_error :: "terminal_error option"

datatype delta_op =
    TranscriptAppend nat jstr
  | TranscriptReplace jstr
  | InputOp input_state
  | RuntimeOp terminal_mode jstr "participant option" "run option" "jstr option"
      "test_result option"

record delta =
  d_generation :: nat
  d_baseSeq :: nat
  d_seq :: nat
  d_operations :: "delta_op list"

text \<open>\<open>participant(actor)\<close>: the public part of an actor.\<close>

definition participant :: "actor \<Rightarrow> participant" where
  "participant a = \<lparr> participantId = participantId a, displayName = displayName a,
     color = ascii_lower (color a) \<rparr>"

definition safeActor :: "actor \<Rightarrow> bool" where
  "safeActor a \<longleftrightarrow> safeIdentifier (socketId a) \<and> safeIdentifier (participantId a)
     \<and> 0 < length (displayName a) \<and> length (displayName a) \<le> 128 \<and> color_ok (color a)"

definition createSharedTerminalAck ::
  "jstr \<Rightarrow> terminal_state \<Rightarrow> ack_status \<Rightarrow> terminal_error option \<Rightarrow> ack" where
  "createSharedTerminalAck aid s status err =
     \<lparr> a_actionId = aid, a_generation = s_generation s, a_seq = s_seq s,
       a_status = status, a_error = err \<rparr>"

end
