(* ===== verification/Json_Text.thy ===== *)
theory Json_Text
  imports Wire
begin

text \<open>
  The text \<open>JSON.stringify\<close> gives a string, a number or a tree of values, and its length in
  UTF-8: what the action fingerprint of the terminal is computed from and what the packet
  accounting of the socket server measures.
\<close>

section \<open>JSON text\<close>

definition hex_digit :: "nat \<Rightarrow> code_unit" where
  "hex_digit n = (if n < 10 then 0x30 + of_nat n else 0x57 + of_nat n)"

text \<open>\<open>\uXXXX\<close> with four lower-case hexadecimal digits.\<close>

definition unicode_escape :: "code_unit \<Rightarrow> jstr" where
  "unicode_escape c = [0x5c, 0x75, hex_digit (unat c div 4096), hex_digit (unat c div 256 mod 16),
     hex_digit (unat c div 16 mod 16), hex_digit (unat c mod 16)]"

definition quote_unit :: "code_unit \<Rightarrow> jstr" where
  "quote_unit c =
     (if c = 0x22 then [0x5c, 0x22] else if c = 0x5c then [0x5c, 0x5c]
      else if c = 0x08 then [0x5c, 0x62] else if c = 0x09 then [0x5c, 0x74]
      else if c = 0x0a then [0x5c, 0x6e] else if c = 0x0c then [0x5c, 0x66]
      else if c = 0x0d then [0x5c, 0x72]
      else if c < 0x20 then unicode_escape c else [c])"

text \<open>Paired surrogates are copied, lone ones are escaped.\<close>

fun quote_units :: "jstr \<Rightarrow> jstr" where
  "quote_units [] = []"
| "quote_units [c] =
     (if is_high_surrogate c \<or> is_low_surrogate c then unicode_escape c else quote_unit c)"
| "quote_units (c # d # s) =
     (if is_high_surrogate c \<and> is_low_surrogate d then c # d # quote_units s
      else if is_high_surrogate c \<or> is_low_surrogate c then unicode_escape c @ quote_units (d # s)
      else quote_unit c @ quote_units (d # s))"

definition json_string :: "jstr \<Rightarrow> jstr" where
  "json_string s = [0x22] @ quote_units s @ [0x22]"

definition int_text :: "int \<Rightarrow> jstr" where
  "int_text i = (if i < 0 then 0x2d # nat_text (nat (- i)) else nat_text (nat i))"

fun json_number :: "jnum \<Rightarrow> jstr" where
  "json_number (JInt i) = int_text i"
| "json_number (JDec t) = t"
| "json_number (JNonFinite _) = js ''null''"

definition joined :: "jstr list \<Rightarrow> jstr" where
  "joined ts = (case ts of [] \<Rightarrow> [] | t # us \<Rightarrow> t @ concat (map (\<lambda>u. 0x2c # u) us))"

text \<open>\<open>JSON.stringify\<close> of a value; \<open>undefined\<close> is only meant inside an array.\<close>

fun json_text :: "jval \<Rightarrow> jstr" where
  "json_text (JArr vs) = js ''['' @ joined (map json_text vs) @ js '']''"
| "json_text (JObj ps) =
     js ''{'' @ joined (map (\<lambda>(k, v). json_string k @ js '':'' @ json_text v) ps) @ js ''}''"
| "json_text JUndef = js ''null''"
| "json_text JNull = js ''null''"
| "json_text (JBool b) = (if b then js ''true'' else js ''false'')"
| "json_text (JNum n) = json_number n"
| "json_text (JStr s) = json_string s"

section \<open>Length in UTF-8\<close>

text \<open>
  \<open>Buffer.byteLength\<close>: a lone surrogate is written as the replacement character, three bytes.
\<close>

definition unit_bytes :: "code_unit \<Rightarrow> nat" where
  "unit_bytes c = (if c < 0x80 then 1 else if c < 0x800 then 2 else 3)"

fun utf8_length :: "jstr \<Rightarrow> nat" where
  "utf8_length [] = 0"
| "utf8_length [c] = unit_bytes c"
| "utf8_length (c # d # s) =
     (if is_high_surrogate c \<and> is_low_surrogate d then 4 + utf8_length s
      else unit_bytes c + utf8_length (d # s))"

section \<open>ASCII text\<close>

lemma ascii_unit: "c < 0x80 \<Longrightarrow> unit_bytes c = 1 \<and> \<not> is_high_surrogate c \<and> \<not> is_low_surrogate c"
  by (auto simp: is_high_surrogate_def is_low_surrogate_def in_range_def unit_bytes_def
        word_le_nat_alt word_less_nat_alt)

lemma hex_digit_ascii: "n < 16 \<Longrightarrow> hex_digit n < 0x80"
proof -
  have "list_all (\<lambda>k. hex_digit k < 0x80) [0..<16]"
    by (simp add: hex_digit_def upt_rec)
  then show "n < 16 \<Longrightarrow> ?thesis" by (simp add: list_all_iff)
qed

lemma unicode_escape_ascii: "list_all (\<lambda>c. c < 0x80) (unicode_escape u) \<and> length (unicode_escape u) = 6"
proof -
  have "unat u < 65536" using unsigned_less [of u, where 'a = nat] by simp
  then have "unat u div 4096 < 16" by simp
  then show ?thesis by (simp add: unicode_escape_def hex_digit_ascii)
qed

lemma int_text_ascii: "list_all (\<lambda>c. c < 0x80) (int_text i)"
proof -
  have "list_all (\<lambda>c. c < 0x80) (nat_text n)" for n
    using nat_text_digits [of n]
    by (auto simp: list_all_iff in_range_def word_le_nat_alt word_less_nat_alt)
  then show ?thesis by (simp add: int_text_def)
qed

section \<open>Lengths of texts put together\<close>

lemma utf8_length_Cons: "\<not> is_high_surrogate c \<Longrightarrow> utf8_length (c # s) = unit_bytes c + utf8_length s"
  by (cases s) auto

lemma utf8_length_append:
  "\<not> is_low_surrogate c \<Longrightarrow> utf8_length (s @ c # t) = utf8_length s + utf8_length (c # t)"
  by (induction s rule: utf8_length.induct) auto

lemma utf8_length_ascii: "list_all (\<lambda>c. c < 0x80) s \<Longrightarrow> utf8_length (s @ t) = length s + utf8_length t"
  by (induction s) (auto simp: utf8_length_Cons ascii_unit)

lemma utf8_length_ascii_only: "list_all (\<lambda>c. c < 0x80) s \<Longrightarrow> utf8_length s = length s"
  using utf8_length_ascii [of s "[]"] by simp

end
