(* ===== verification/Terminal_Fingerprint.thy ===== *)
theory Terminal_Fingerprint
  imports Terminal_Types Json_Text
begin

text \<open>
  The wire form of an action and the canonical text that identifies it: \<open>stableFingerprint\<close> and
  \<open>sharedTerminalActionFingerprint\<close> of \<open>src/code/terminal/stateMachine.ts\<close>.
\<close>

section \<open>The canonical text\<close>

fun stableFingerprint :: "jval \<Rightarrow> jstr" where
  "stableFingerprint (JArr vs) = js ''['' @ joined (map stableFingerprint vs) @ js '']''"
| "stableFingerprint (JObj ps) =
     js ''{'' @ joined (map (\<lambda>(k, t). json_string k @ js '':'' @ t)
        (sort_key fst (map (\<lambda>(k, v). (k, stableFingerprint v)) ps))) @ js ''}''"
| "stableFingerprint JUndef = js ''undefined''"
| "stableFingerprint JNull = js ''null''"
| "stableFingerprint (JBool b) = (if b then js ''true'' else js ''false'')"
| "stableFingerprint (JNum n) = json_number n"
| "stableFingerprint (JStr s) = json_string s"

section \<open>Actions on the wire\<close>

fun test_status_json :: "test_status \<Rightarrow> jval" where
  "test_status_json Passed = JStr (js ''passed'')"
| "test_status_json Failed = JStr (js ''failed'')"

definition test_result_json :: "test_result \<Rightarrow> jval" where
  "test_result_json t = obj [(''testId'', JStr (tr_testId t)), (''status'', test_status_json (tr_status t))]"

fun ready_mode_json :: "ready_mode \<Rightarrow> jval" where
  "ready_mode_json ToShell = JStr (js ''shell'')"
| "ready_mode_json ToPython = JStr (js ''python'')"

definition optional_prop :: "string \<Rightarrow> jval option \<Rightarrow> (string \<times> jval) list" where
  "optional_prop k v = (case v of None \<Rightarrow> [] | Some w \<Rightarrow> [(k, w)])"

fun body_props :: "action_body \<Rightarrow> (string \<times> jval) list" where
  "body_props Sync = [(''type'', JStr (js ''sync''))]"
| "body_props Claim = [(''type'', JStr (js ''claim''))]"
| "body_props Release = [(''type'', JStr (js ''release''))]"
| "body_props (EditInput v c) =
     [(''type'', JStr (js ''edit-input'')), (''value'', JStr v), (''cursor'', JNum c)]"
| "body_props (SubmitLine v) = [(''type'', JStr (js ''submit-line'')), (''value'', JStr v)]"
| "body_props (StartRun e p t) =
     [(''type'', JStr (js ''start-run'')), (''entryId'', JStr e), (''entrypoint'', JStr p)]
       @ optional_prop ''testId'' (map_option JStr t)"
| "body_props Interrupt = [(''type'', JStr (js ''interrupt''))]"
| "body_props Eof = [(''type'', JStr (js ''eof''))]"
| "body_props (HostOutput r c) =
     [(''type'', JStr (js ''host-output'')), (''runId'', JStr r), (''chunk'', JStr c)]"
| "body_props (HostInputRequest r q) =
     [(''type'', JStr (js ''host-input-request'')), (''runId'', JStr r), (''requestId'', JStr q)]"
| "body_props (HostReady r n p t) =
     [(''type'', JStr (js ''host-ready'')), (''runId'', JStr r), (''nextMode'', ready_mode_json n)]
       @ optional_prop ''prompt'' (map_option (JStr \<circ> repl_prompt_text) p)
       @ optional_prop ''testResult'' (map_option test_result_json t)"
| "body_props (HostFailed r msg) =
     [(''type'', JStr (js ''host-failed'')), (''runId'', JStr r), (''message'', JStr msg)]"

definition action_json :: "action \<Rightarrow> jval" where
  "action_json a = obj ((''actionId'', JStr (actionId a)) # body_props (body a))"

text \<open>\<open>digest\<close> is the hexadecimal SHA-256 of the UTF-8 encoding of its argument (\<open>lib0\<close>).\<close>

definition sharedTerminalActionFingerprint :: "(jstr \<Rightarrow> jstr) \<Rightarrow> action \<Rightarrow> jstr" where
  "sharedTerminalActionFingerprint digest a = digest (stableFingerprint (action_json a))"

end
