(* ===== verification/Terminal_Machine.thy ===== *)
theory Terminal_Machine
  imports Terminal_Fingerprint
begin

text \<open>
  The authoritative shared terminal of a workspace: class \<open>SharedTerminalStateMachine\<close> of
  \<open>src/code/terminal/stateMachine.ts\<close>, one definition per method. A method that mutates takes
  the machine and returns it updated. The digest of the action fingerprint (SHA-256 of the
  UTF-8 text, from \<open>lib0\<close>) is a parameter; the run epoch (\<open>crypto.randomUUID\<close>) is a
  field of the machine.
\<close>

section \<open>State\<close>

record internal_state =
  generation :: nat
  seq :: nat
  mode :: terminal_mode
  prompt :: jstr
  transcript :: jstr
  inputValue :: jstr
  inputCursor :: nat
  inputOwner :: "actor option"
  host :: "actor option"
  activeRun :: "run option"
  inputRequestId :: "jstr option"
  lastTest :: "test_result option"
  activeRunPythonMode :: bool

record machine =
  state :: internal_state
  remembered :: "jstr \<rightharpoonup> jstr"
  rememberedQueue :: "jstr list"
  transcriptOperations :: "delta_op list"
  nextRun :: nat
  runEpoch :: jstr

text \<open>The first transcript, in Russian: \<open>help\<close> followed by "for the list of commands".\<close>

definition initial_transcript :: jstr where
  "initial_transcript = js ''help '' @ [0x434, 0x43b, 0x44f, 0x20, 0x441, 0x43f, 0x438, 0x441, 0x43a, 0x430,
     0x20, 0x43a, 0x43e, 0x43c, 0x430, 0x43d, 0x434, 0x0a]"

definition new_machine :: "jstr \<Rightarrow> machine" where
  "new_machine epoch = \<lparr> state = \<lparr> generation = 1, seq = 0, mode = Shell, prompt = js ''$ '',
       transcript = initial_transcript, inputValue = [], inputCursor = 0, inputOwner = None,
       host = None, activeRun = None, inputRequestId = None, lastTest = None,
       activeRunPythonMode = False \<rparr>,
     remembered = Map.empty, rememberedQueue = [], transcriptOperations = [], nextRun = 1,
     runEpoch = epoch \<rparr>"

definition publicState :: "internal_state \<Rightarrow> terminal_state" where
  "publicState s = \<lparr> s_generation = generation s, s_seq = seq s, s_mode = mode s,
     s_prompt = prompt s, s_transcript = transcript s,
     s_input = \<lparr> i_value = inputValue s, i_cursor = inputCursor s,
                 i_owner = map_option participant (inputOwner s) \<rparr>,
     s_host = map_option participant (host s), s_activeRun = activeRun s,
     s_inputRequestId = inputRequestId s, s_lastTest = lastTest s \<rparr>"

definition snapshot :: "machine \<Rightarrow> terminal_state" where
  "snapshot m = publicState (state m)"

definition connect :: "machine \<Rightarrow> terminal_state" where
  "connect m = snapshot m"

definition recover :: "nat \<Rightarrow> nat \<Rightarrow> machine \<Rightarrow> terminal_state" where
  "recover gen sq m = snapshot m"

text \<open>Writing one field group of the internal state.\<close>

definition update_state :: "(internal_state \<Rightarrow> internal_state) \<Rightarrow> machine \<Rightarrow> machine" where
  "update_state f m = m\<lparr> state := f (state m) \<rparr>"

section \<open>Outcomes, results, deltas\<close>

record outcome =
  changed :: bool
  o_effect :: "effect option"
  o_error :: "terminal_error option"

definition unchanged_outcome :: "terminal_error option \<Rightarrow> outcome" where
  "unchanged_outcome err = \<lparr> changed = False, o_effect = None, o_error = err \<rparr>"

definition changed_outcome :: "effect option \<Rightarrow> outcome" where
  "changed_outcome eff = \<lparr> changed = True, o_effect = eff, o_error = None \<rparr>"

definition failed_outcome :: "terminal_error \<Rightarrow> outcome" where
  "failed_outcome err = \<lparr> changed = True, o_effect = None, o_error = Some err \<rparr>"

record dispatch_result =
  r_state :: terminal_state
  r_changed :: bool
  r_ack :: ack
  r_delta :: "delta option"
  r_snapshot :: "terminal_state option"
  r_effect :: "effect option"
  r_error :: "terminal_error option"

text \<open>
  The comparisons go through \<open>JSON.stringify\<close> of objects that are always built with the same
  key order, so they are equality of the fields.
\<close>

definition sameParticipant :: "participant option \<Rightarrow> participant option \<Rightarrow> bool" where
  "sameParticipant l r \<longleftrightarrow> l = r"

definition sameInput :: "input_state \<Rightarrow> input_state \<Rightarrow> bool" where
  "sameInput l r \<longleftrightarrow> i_value l = i_value r \<and> i_cursor l = i_cursor r
     \<and> sameParticipant (i_owner l) (i_owner r)"

definition sameRuntime :: "terminal_state \<Rightarrow> terminal_state \<Rightarrow> bool" where
  "sameRuntime l r \<longleftrightarrow> s_mode l = s_mode r \<and> s_prompt l = s_prompt r
     \<and> sameParticipant (s_host l) (s_host r) \<and> s_activeRun l = s_activeRun r
     \<and> s_inputRequestId l = s_inputRequestId r \<and> s_lastTest l = s_lastTest r"

definition buildDelta :: "terminal_state \<Rightarrow> terminal_state \<Rightarrow> delta_op list \<Rightarrow> delta" where
  "buildDelta before after transcript_ops =
     \<lparr> d_generation = s_generation after, d_baseSeq = s_seq before, d_seq = s_seq after,
       d_operations = transcript_ops
         @ (if sameInput (s_input before) (s_input after) then [] else [InputOp (s_input after)])
         @ (if sameRuntime before after then []
            else [RuntimeOp (s_mode after) (s_prompt after) (s_host after) (s_activeRun after)
                    (s_inputRequestId after) (s_lastTest after)]) \<rparr>"

definition packageResult ::
  "jstr \<Rightarrow> terminal_state \<Rightarrow> outcome \<Rightarrow> machine \<Rightarrow> machine \<times> dispatch_result" where
  "packageResult aid before out m =
     (let m' = (if changed out then update_state (\<lambda>s. s\<lparr> seq := seq s + 1 \<rparr>) m else m);
          st = snapshot m';
          status = (if o_error out \<noteq> None then Rejected
                    else if changed out then Applied else Unchanged);
          fresh = changed out \<and> s_generation before \<noteq> s_generation st
      in (m', \<lparr> r_state = st, r_changed = changed out,
                r_ack = createSharedTerminalAck aid st status (o_error out),
                r_delta = (if fresh then None
                           else if changed out then Some (buildDelta before st (transcriptOperations m'))
                           else None),
                r_snapshot = (if fresh then Some st else None),
                r_effect = o_effect out, r_error = o_error out \<rparr>))"

section \<open>Primitive mutations\<close>

definition clearInput :: "machine \<Rightarrow> machine" where
  "clearInput = update_state (\<lambda>s. s\<lparr> inputValue := [], inputCursor := 0, inputOwner := None \<rparr>)"

definition append_text :: "jstr \<Rightarrow> machine \<Rightarrow> machine" where
  "append_text v m =
     (let beforeLength = length (transcript (state m));
          full = transcript (state m) @ v;
          trimStart = length full - maxTranscriptCodeUnits
      in m\<lparr> state := (state m)\<lparr> transcript := (if 0 < trimStart then drop trimStart full else full) \<rparr>,
            transcriptOperations := transcriptOperations m
              @ [TranscriptAppend (min trimStart beforeLength)
                   (if beforeLength < trimStart then drop (trimStart - beforeLength) v else v)] \<rparr>)"

definition ends_with_newline :: "jstr \<Rightarrow> bool" where
  "ends_with_newline s \<longleftrightarrow> s \<noteq> [] \<and> last s = 0x0a"

definition finish_line :: "machine \<Rightarrow> machine" where
  "finish_line m = (if transcript (state m) \<noteq> [] \<and> \<not> ends_with_newline (transcript (state m))
     then append_text [0x0a] m else m)"

definition toShell :: "machine \<Rightarrow> machine" where
  "toShell m =
     update_state (\<lambda>s. s\<lparr> host := None, activeRun := None, activeRunPythonMode := False,
       inputRequestId := None \<rparr>)
       (clearInput (update_state (\<lambda>s. s\<lparr> mode := Shell, prompt := js ''$ '' \<rparr>) (finish_line m)))"

definition run_id_text :: "jstr \<Rightarrow> nat \<Rightarrow> nat \<Rightarrow> jstr" where
  "run_id_text epoch gen n = js ''run-'' @ epoch @ js ''-'' @ nat_text gen @ js ''-'' @ nat_text n"

definition createRunId :: "machine \<Rightarrow> jstr \<times> machine" where
  "createRunId m = (run_id_text (runEpoch m) (generation (state m)) (nextRun m),
     m\<lparr> nextRun := nextRun m + 1 \<rparr>)"

definition isCurrentHost :: "actor \<Rightarrow> jstr \<Rightarrow> machine \<Rightarrow> bool" where
  "isCurrentHost a rid m \<longleftrightarrow> safeIdentifier rid
     \<and> map_option socketId (host (state m)) = Some (socketId a)
     \<and> map_option runId (activeRun (state m)) = Some rid"

definition bare_run :: "jstr \<Rightarrow> run" where
  "bare_run rid = \<lparr> runId = rid, entryId = None, entrypoint = None, testId = None \<rparr>"

text \<open>The line is owned by a socket other than the actor's.\<close>

definition owned_by_other :: "actor \<Rightarrow> machine \<Rightarrow> bool" where
  "owned_by_other a m \<longleftrightarrow> (case inputOwner (state m) of None \<Rightarrow> False
     | Some ow \<Rightarrow> socketId ow \<noteq> socketId a)"

definition owned_by :: "actor \<Rightarrow> machine \<Rightarrow> bool" where
  "owned_by a m \<longleftrightarrow> map_option socketId (inputOwner (state m)) = Some (socketId a)"

section \<open>Handlers\<close>

definition claim :: "actor \<Rightarrow> machine \<Rightarrow> machine \<times> outcome" where
  "claim a m =
     (if mode (state m) = Busy then (m, unchanged_outcome (Some ErrBusy))
      else if owned_by_other a m then (m, unchanged_outcome (Some ErrInputOwned))
      else if owned_by a m then (m, unchanged_outcome None)
      else (update_state (\<lambda>s. s\<lparr> inputOwner := Some a \<rparr>) m, changed_outcome None))"

definition release :: "actor \<Rightarrow> machine \<Rightarrow> machine \<times> outcome" where
  "release a m =
     (if \<not> owned_by a m then (m, unchanged_outcome None)
      else (update_state (\<lambda>s. s\<lparr> inputOwner := None \<rparr>) m, changed_outcome None))"

text \<open>\<open>Math.max(0, Math.min(value.length, cursor))\<close>\<close>

definition clamp_cursor :: "jstr \<Rightarrow> int \<Rightarrow> nat" where
  "clamp_cursor v c = nat (max 0 (min (int (length v)) c))"

definition editInput :: "actor \<Rightarrow> jstr \<Rightarrow> jnum \<Rightarrow> machine \<Rightarrow> machine \<times> outcome" where
  "editInput a raw cur m =
     (if mode (state m) = Busy then (m, unchanged_outcome (Some ErrBusy))
      else if owned_by_other a m then (m, unchanged_outcome (Some ErrInputOwned))
      else case safe_integer (JNum cur) of
        None \<Rightarrow> (m, unchanged_outcome (Some ErrInvalidCursor))
      | Some c \<Rightarrow>
          (let v = safeInput raw; cursor = clamp_cursor v c
           in if inputValue (state m) = v \<and> inputCursor (state m) = cursor \<and> owned_by a m
              then (m, unchanged_outcome None)
              else (update_state (\<lambda>s. s\<lparr> inputOwner := Some a, inputValue := v,
                      inputCursor := cursor \<rparr>) m, changed_outcome None)))"

text \<open>
  \<open>/^(?:clear|cls)$/iu\<close> on the trimmed line. Case folding under the \<open>u\<close> flag also lets the
  long s (U+017F) stand for \<open>s\<close>; no other non-ASCII unit folds to a letter of these words.
\<close>

definition folds_to :: "code_unit \<Rightarrow> char \<Rightarrow> bool" where
  "folds_to c ch \<longleftrightarrow> c = of_char ch \<or> c = of_char ch - 0x20 \<or> (ch = CHR ''s'' \<and> c = 0x17f)"

definition is_clear_command :: "jstr \<Rightarrow> bool" where
  "is_clear_command v \<longleftrightarrow> list_all2 folds_to v ''clear'' \<or> list_all2 folds_to v ''cls''"

text \<open>The last part of \<open>submitLine\<close>: a line handed to the host for execution.\<close>

definition execute_line :: "actor \<Rightarrow> bool \<Rightarrow> jstr \<Rightarrow> machine \<Rightarrow> machine \<times> outcome" where
  "execute_line h pythonMode v m =
     (let (rid, m1) = createRunId m
      in (update_state (\<lambda>s. s\<lparr> mode := Busy, prompt := [], host := Some h,
             activeRun := Some (bare_run rid), activeRunPythonMode := pythonMode,
             inputRequestId := None \<rparr>) m1,
          changed_outcome (Some (ExecuteLineEffect (socketId h) rid v pythonMode))))"

definition submit_program_input :: "jstr \<Rightarrow> machine \<Rightarrow> machine \<times> outcome" where
  "submit_program_input v m =
     (case (host (state m), activeRun (state m), inputRequestId (state m)) of
        (Some h, Some r, Some req) \<Rightarrow>
          (update_state (\<lambda>s. s\<lparr> mode := Busy, prompt := [], inputRequestId := None \<rparr>) m,
           changed_outcome (Some (SubmitInputEffect (socketId h) (runId r) req v)))
      | _ \<Rightarrow> (toShell m, failed_outcome ErrInvalidState))"

definition submitLine :: "actor \<Rightarrow> jstr \<Rightarrow> machine \<Rightarrow> machine \<times> outcome" where
  "submitLine a raw m =
     (if mode (state m) = Busy then (m, unchanged_outcome (Some ErrBusy))
      else if owned_by_other a m then (m, unchanged_outcome (Some ErrInputOwned))
      else let v = safeInput raw; md = mode (state m) in
        if md = Shell \<and> is_clear_command (js_trim v) then
          (clearInput ((update_state (\<lambda>s. s\<lparr> generation := generation s + 1, transcript := [] \<rparr>) m)
             \<lparr> transcriptOperations := transcriptOperations m @ [TranscriptReplace []] \<rparr>),
           changed_outcome None)
        else
          let pr = (if md = ProgramInput then [] else prompt (state m));
              m1 = clearInput (append_text (pr @ v @ [0x0a]) m)
          in if md = ProgramInput then submit_program_input v m1
             else if md = Shell \<and> js_trim v = [] then (m1, changed_outcome None)
             else case (if md = Python then host (state m1) else Some a) of
                 None \<Rightarrow> (toShell m1, failed_outcome ErrInvalidState)
               | Some h \<Rightarrow> execute_line h (md = Python) v m1)"

definition startRun ::
  "actor \<Rightarrow> jstr \<Rightarrow> jstr \<Rightarrow> jstr option \<Rightarrow> machine \<Rightarrow> machine \<times> outcome" where
  "startRun a entry path test m =
     (if mode (state m) \<noteq> Shell then (m, unchanged_outcome (Some ErrBusy))
      else if owned_by_other a m then (m, unchanged_outcome (Some ErrInputOwned))
      else if \<not> safeIdentifier entry \<or> path = [] \<or> \<not> safe_workspace_path path
           \<or> maxCommandCodeUnits < length path
           \<or> (case test of None \<Rightarrow> False | Some t \<Rightarrow> \<not> safeIdentifier t)
      then (m, unchanged_outcome (Some ErrInvalidRun))
      else let (rid, m1) = createRunId m;
               m2 = append_text (prompt (state m1) @ js ''py '' @ path @ [0x0a]) m1;
               m3 = clearInput (update_state (\<lambda>s. s\<lparr> mode := Busy, prompt := [] \<rparr>) m2);
               m4 = update_state (\<lambda>s. s\<lparr> host := Some a,
                      activeRun := Some \<lparr> runId = rid, entryId = Some entry,
                        entrypoint = Some path, testId = test \<rparr>,
                      activeRunPythonMode := False, inputRequestId := None, lastTest := None \<rparr>) m3
           in (m4, changed_outcome (Some (StartRunEffect (socketId a) rid entry path test))))"

datatype signal_kind = SigInterrupt | SigEof

text \<open>\<open>^C\<close> and the interrupt report of the Python loop.\<close>

definition keyboard_interrupt_text :: jstr where
  "keyboard_interrupt_text = js ''^C'' @ [0x0a] @ js ''KeyboardInterrupt'' @ [0x0a]"

definition interrupt_repl :: "actor \<Rightarrow> machine \<Rightarrow> machine \<times> outcome" where
  "interrupt_repl h m =
     (let (rid, m1) = createRunId m;
          m2 = append_text keyboard_interrupt_text m1;
          m3 = clearInput (update_state (\<lambda>s. s\<lparr> mode := Busy, prompt := [] \<rparr>) m2);
          m4 = update_state (\<lambda>s. s\<lparr> activeRun := Some (bare_run rid), activeRunPythonMode := True,
                 inputRequestId := None \<rparr>) m3
      in (m4, changed_outcome (Some (InterruptEffect (socketId h) rid True))))"

definition eof_repl :: "actor \<Rightarrow> machine \<Rightarrow> machine \<times> outcome" where
  "eof_repl h m =
     (let (rid, m1) = createRunId m
      in (update_state (\<lambda>s. s\<lparr> mode := Busy, prompt := [], activeRun := Some (bare_run rid),
             activeRunPythonMode := True \<rparr>) m1,
          changed_outcome (Some (EofEffect (socketId h) rid))))"

definition signal_run :: "signal_kind \<Rightarrow> actor \<Rightarrow> run \<Rightarrow> machine \<Rightarrow> machine \<times> outcome" where
  "signal_run k h r m =
     (let pythonMode = activeRunPythonMode (state m);
          m1 = clearInput (update_state (\<lambda>s. s\<lparr> mode := Busy, prompt := [],
                 inputRequestId := None \<rparr>) m);
          m2 = (if k = SigInterrupt \<and> pythonMode then append_text keyboard_interrupt_text m1 else m1)
      in (m2, changed_outcome (Some
            (if k = SigInterrupt then InterruptEffect (socketId h) (runId r) pythonMode
             else EofEffect (socketId h) (runId r)))))"

definition signal :: "signal_kind \<Rightarrow> machine \<Rightarrow> machine \<times> outcome" where
  "signal k m =
     (case (mode (state m) = Python, k, host (state m)) of
        (True, SigInterrupt, Some h) \<Rightarrow> interrupt_repl h m
      | (True, SigEof, Some h) \<Rightarrow> eof_repl h m
      | _ \<Rightarrow>
          (case (host (state m), activeRun (state m)) of
             (Some h, Some r) \<Rightarrow>
               if mode (state m) = Shell \<or> mode (state m) = Python
               then (m, unchanged_outcome (Some ErrNotRunning))
               else signal_run k h r m
           | _ \<Rightarrow> (m, unchanged_outcome (Some ErrNotRunning))))"

definition hostOutput :: "actor \<Rightarrow> jstr \<Rightarrow> jstr \<Rightarrow> machine \<Rightarrow> machine \<times> outcome" where
  "hostOutput a rid raw m =
     (if \<not> isCurrentHost a rid m then (m, unchanged_outcome (Some ErrNotHost))
      else let chunk = sanitizeSharedTerminalOutput raw
           in if chunk = [] then (m, unchanged_outcome None)
              else (append_text chunk m, changed_outcome None))"

definition hostInputRequest :: "actor \<Rightarrow> jstr \<Rightarrow> jstr \<Rightarrow> machine \<Rightarrow> machine \<times> outcome" where
  "hostInputRequest a rid req m =
     (if \<not> isCurrentHost a rid m then (m, unchanged_outcome (Some ErrNotHost))
      else if \<not> safeIdentifier req \<or> mode (state m) \<noteq> Busy
      then (m, unchanged_outcome (Some ErrInvalidState))
      else (clearInput (update_state (\<lambda>s. s\<lparr> mode := ProgramInput, prompt := [],
              inputRequestId := Some req \<rparr>) m), changed_outcome None))"

definition hostReady ::
  "actor \<Rightarrow> jstr \<Rightarrow> ready_mode \<Rightarrow> repl_prompt option \<Rightarrow> test_result option \<Rightarrow> machine
     \<Rightarrow> machine \<times> outcome" where
  "hostReady a rid next pr res m =
     (if \<not> isCurrentHost a rid m then (m, unchanged_outcome (Some ErrNotHost))
      else if (case res of None \<Rightarrow> False
               | Some t \<Rightarrow> Some (tr_testId t) \<noteq> Option.bind (activeRun (state m)) testId)
      then (m, unchanged_outcome (Some ErrInvalidTestResult))
      else let m1 = (case res of None \<Rightarrow> m
                     | Some t \<Rightarrow> update_state (\<lambda>s. s\<lparr> lastTest := Some t \<rparr>) m);
               m2 = clearInput (update_state (\<lambda>s. s\<lparr> activeRun := None,
                      activeRunPythonMode := False, inputRequestId := None \<rparr>) m1);
               m3 = finish_line m2
           in (case next of
                 ToPython \<Rightarrow> update_state (\<lambda>s. s\<lparr> mode := Python,
                    prompt := (case pr of None \<Rightarrow> js ''>>> '' | Some q \<Rightarrow> repl_prompt_text q) \<rparr>) m3
               | ToShell \<Rightarrow> update_state (\<lambda>s. s\<lparr> mode := Shell, prompt := js ''$ '', host := None \<rparr>) m3,
               changed_outcome None))"

definition hostFailed :: "actor \<Rightarrow> jstr \<Rightarrow> jstr \<Rightarrow> machine \<Rightarrow> machine \<times> outcome" where
  "hostFailed a rid raw m =
     (if \<not> isCurrentHost a rid m then (m, unchanged_outcome (Some ErrNotHost))
      else let message = take 2048 (sanitizeSharedTerminalOutput raw);
               m1 = (if message = [] then m
                     else append_text (message @ (if ends_with_newline message then [] else [0x0a])) m)
           in (toShell m1, changed_outcome None))"

fun apply_body :: "actor \<Rightarrow> action_body \<Rightarrow> machine \<Rightarrow> machine \<times> outcome" where
  "apply_body a Sync m = (m, unchanged_outcome None)"
| "apply_body a Claim m = claim a m"
| "apply_body a Release m = release a m"
| "apply_body a (EditInput v c) m = editInput a v c m"
| "apply_body a (SubmitLine v) m = submitLine a v m"
| "apply_body a (StartRun e p t) m = startRun a e p t m"
| "apply_body a Interrupt m = signal SigInterrupt m"
| "apply_body a Eof m = signal SigEof m"
| "apply_body a (HostOutput r c) m = hostOutput a r c m"
| "apply_body a (HostInputRequest r q) m = hostInputRequest a r q m"
| "apply_body a (HostReady r n p t) m = hostReady a r n p t m"
| "apply_body a (HostFailed r msg) m = hostFailed a r msg m"

section \<open>Dispatch, disconnection, profile updates\<close>

text \<open>
  The queue is shifted while it is too long; it grows by one per call, so the loop drops at
  most the surplus from its head.
\<close>

fun evict :: "jstr list \<Rightarrow> (jstr \<rightharpoonup> jstr) \<Rightarrow> jstr list \<times> (jstr \<rightharpoonup> jstr)" where
  "evict [] mem = ([], mem)"
| "evict (q # qs) mem =
     (if maxRememberedActions < length (q # qs)
      then evict qs (if q \<noteq> [] then mem(q := None) else mem)
      else (q # qs, mem))"

definition remember :: "jstr \<Rightarrow> jstr \<Rightarrow> machine \<Rightarrow> machine" where
  "remember key fp m =
     (let (queue, mem) = evict (rememberedQueue m @ [key]) ((remembered m)(key \<mapsto> fp))
      in m\<lparr> remembered := mem, rememberedQueue := queue \<rparr>)"

definition still_result :: "terminal_state \<Rightarrow> ack \<Rightarrow> terminal_state option \<Rightarrow> terminal_error option
     \<Rightarrow> dispatch_result" where
  "still_result st ak snap err = \<lparr> r_state = st, r_changed = False, r_ack = ak, r_delta = None,
     r_snapshot = snap, r_effect = None, r_error = err \<rparr>"

definition dispatch ::
  "(jstr \<Rightarrow> jstr) \<Rightarrow> actor \<Rightarrow> action \<Rightarrow> machine \<Rightarrow> machine \<times> dispatch_result" where
  "dispatch digest a act m =
     (if \<not> safeActor a \<or> \<not> safeIdentifier (actionId act) then
        packageResult (actionId act) (snapshot m) (unchanged_outcome (Some ErrInvalidAction)) m
      else
        let fp = sharedTerminalActionFingerprint digest act; st = snapshot m
        in case remembered m (actionId act) of
          Some previous \<Rightarrow>
            (if previous \<noteq> fp then
               (m, still_result st (createSharedTerminalAck (actionId act) st Rejected
                      (Some ErrIdempotencyConflict)) None (Some ErrIdempotencyConflict))
             else
               (m, still_result st (createSharedTerminalAck (actionId act) st Duplicate None)
                      (if body act = Sync then Some st else None) None))
        | None \<Rightarrow>
            (let m1 = remember (actionId act) fp m
             in if body act = Sync then
                  (m1, still_result (snapshot m1)
                     (createSharedTerminalAck (actionId act) (snapshot m1) Unchanged None)
                     (Some (snapshot m1)) None)
                else
                  let m2 = m1\<lparr> transcriptOperations := [] \<rparr>;
                      before = snapshot m2;
                      (m3, out) = apply_body a (body act) m2
                  in packageResult (actionId act) before out m3))"

text \<open>The notice appended when the executing host leaves, in Russian.\<close>

definition disconnect_notice :: jstr where
  "disconnect_notice = [0x0a, 0x5b, 0x41f, 0x440, 0x43e, 0x446, 0x435, 0x441, 0x441, 0x20, 0x43e, 0x441,
     0x442, 0x430, 0x43d, 0x43e, 0x432, 0x43b, 0x435, 0x43d, 0x3a, 0x20, 0x438, 0x441, 0x43f, 0x43e,
     0x43b, 0x43d, 0x438, 0x442, 0x435, 0x43b, 0x44c, 0x20, 0x43e, 0x442, 0x43a, 0x43b, 0x44e, 0x447,
     0x438, 0x43b, 0x441, 0x44f, 0x5d, 0x0a]"

definition disconnect :: "jstr \<Rightarrow> machine \<Rightarrow> machine \<times> dispatch_result" where
  "disconnect sid m =
     (let before = snapshot m;
          m1 = m\<lparr> transcriptOperations := [] \<rparr>;
          owns = map_option socketId (inputOwner (state m1)) = Some sid;
          m2 = (if owns then update_state (\<lambda>s. s\<lparr> inputOwner := None \<rparr>) m1 else m1);
          hosts = map_option socketId (host (state m2)) = Some sid;
          m3 = (if hosts then toShell (append_text disconnect_notice m2) else m2)
      in packageResult (js ''disconnect'') before
           (if owns \<or> hosts then changed_outcome None else unchanged_outcome None) m3)"

text \<open>A stored actor of the same socket whose public profile differs.\<close>

definition stale_profile :: "actor option \<Rightarrow> actor \<Rightarrow> bool" where
  "stale_profile stored a \<longleftrightarrow> (case stored of None \<Rightarrow> False
     | Some old \<Rightarrow> socketId old = socketId a
         \<and> \<not> sameParticipant (Some (participant old)) (Some (participant a)))"

definition updateActor :: "actor \<Rightarrow> machine \<Rightarrow> machine \<times> dispatch_result" where
  "updateActor a m =
     (let before = snapshot m; m1 = m\<lparr> transcriptOperations := [] \<rparr>
      in if \<not> safeActor a
         then packageResult (js ''profile-update'') before
                (unchanged_outcome (Some ErrInvalidAction)) m1
         else let ow = stale_profile (inputOwner (state m1)) a;
                  m2 = (if ow then update_state (\<lambda>s. s\<lparr> inputOwner := Some a \<rparr>) m1 else m1);
                  ho = stale_profile (host (state m2)) a;
                  m3 = (if ho then update_state (\<lambda>s. s\<lparr> host := Some a \<rparr>) m2 else m2)
              in packageResult (js ''profile-update'') before
                   (if ow \<or> ho then changed_outcome None else unchanged_outcome None) m3)"

section \<open>Runs of the machine\<close>

datatype event = Dispatched actor action | Disconnected jstr | ProfileUpdated actor

fun step :: "(jstr \<Rightarrow> jstr) \<Rightarrow> event \<Rightarrow> machine \<Rightarrow> machine \<times> dispatch_result" where
  "step digest (Dispatched a act) m = dispatch digest a act m"
| "step digest (Disconnected sid) m = disconnect sid m"
| "step digest (ProfileUpdated a) m = updateActor a m"

inductive reachable :: "(jstr \<Rightarrow> jstr) \<Rightarrow> machine \<Rightarrow> bool" for digest where
  created: "safeIdentifier epoch \<Longrightarrow> length epoch \<le> 36 \<Longrightarrow> reachable digest (new_machine epoch)"
| stepped: "reachable digest m \<Longrightarrow> reachable digest (fst (step digest e m))"

end
