(* ===== verification/Terminal_Protocol.thy ===== *)
theory Terminal_Protocol
  imports Terminal_Fingerprint
begin

text \<open>
  The wire protocol of the shared terminal, \<open>src/code/terminal/protocol.ts\<close>: parsers of
  untrusted action envelopes, effects, snapshots, deltas and acknowledgements, and the
  client's application of a delta. A parser returns \<open>None\<close> where the code returns \<open>null\<close>.
\<close>

section \<open>Readers\<close>

fun record_of :: "jval \<Rightarrow> jobj option" where
  "record_of (JObj ob) = Some ob"
| "record_of _ = None"

definition exact :: "jobj \<Rightarrow> string list \<Rightarrow> bool" where
  "exact ob ks \<longleftrightarrow> sort (map fst ob) = sort (map js ks)"

fun identifier_of :: "jval \<Rightarrow> jstr option" where
  "identifier_of (JStr s) = (if safeIdentifier s then Some s else None)"
| "identifier_of _ = None"

fun boundedString :: "nat \<Rightarrow> jval \<Rightarrow> jstr option" where
  "boundedString n (JStr s) = (if length s \<le> n then Some s else None)"
| "boundedString n _ = None"

fun color_string :: "jval \<Rightarrow> jstr option" where
  "color_string (JStr s) = (if color_ok s then Some (ascii_lower s) else None)"
| "color_string _ = None"

text \<open>A rejected check of a parser.\<close>

definition guard :: "bool \<Rightarrow> unit option" where
  "guard b = (if b then Some () else None)"

definition parse_participant :: "jval \<Rightarrow> participant option" where
  "parse_participant v = do {
     ob \<leftarrow> record_of v;
     _ \<leftarrow> guard (exact ob [''participantId'', ''displayName'', ''color'']);
     pid \<leftarrow> identifier_of (property ob ''participantId'');
     name \<leftarrow> boundedString 128 (property ob ''displayName'');
     col \<leftarrow> color_string (property ob ''color'');
     _ \<leftarrow> guard (name \<noteq> []);
     Some \<lparr> participantId = pid, displayName = name, color = col \<rparr> }"

definition parse_input_state :: "jval \<Rightarrow> input_state option" where
  "parse_input_state v = do {
     ob \<leftarrow> record_of v;
     _ \<leftarrow> guard (exact ob [''value'', ''cursor'', ''owner'']);
     txt \<leftarrow> boundedString maxInputCodeUnits (property ob ''value'');
     ow \<leftarrow> nullable parse_participant (property ob ''owner'');
     c \<leftarrow> safe_integer (property ob ''cursor'');
     _ \<leftarrow> guard (0 \<le> c \<and> c \<le> int (length txt));
     Some \<lparr> i_value = txt, i_cursor = nat c, i_owner = ow \<rparr> }"

definition parse_run :: "jval \<Rightarrow> run option" where
  "parse_run v = do {
     ob \<leftarrow> record_of v;
     _ \<leftarrow> guard (exact ob [''runId'', ''entryId'', ''entrypoint'', ''testId'']);
     rid \<leftarrow> identifier_of (property ob ''runId'');
     eid \<leftarrow> nullable identifier_of (property ob ''entryId'');
     ep \<leftarrow> nullable (boundedString maxCommandCodeUnits) (property ob ''entrypoint'');
     tid \<leftarrow> nullable identifier_of (property ob ''testId'');
     Some \<lparr> runId = rid, entryId = eid, entrypoint = ep, testId = tid \<rparr> }"

definition parse_test_status :: "jval \<Rightarrow> test_status option" where
  "parse_test_status v =
     (if v = JStr (js ''passed'') then Some Passed
      else if v = JStr (js ''failed'') then Some Failed else None)"

definition parse_test_result :: "jval \<Rightarrow> test_result option" where
  "parse_test_result v = do {
     ob \<leftarrow> record_of v;
     _ \<leftarrow> guard (exact ob [''testId'', ''status'']);
     tid \<leftarrow> identifier_of (property ob ''testId'');
     st \<leftarrow> parse_test_status (property ob ''status'');
     Some \<lparr> tr_testId = tid, tr_status = st \<rparr> }"

definition protocol_version :: jval where
  "protocol_version = JNum (JInt 1)"

definition readSharedTerminalActionId :: "jval \<Rightarrow> jstr option" where
  "readSharedTerminalActionId v = do {
     env \<leftarrow> record_of v;
     _ \<leftarrow> guard (property env ''protocolVersion'' = protocol_version);
     inner \<leftarrow> record_of (property env ''action'');
     identifier_of (property inner ''actionId'') }"

section \<open>Action envelopes\<close>

definition simple_body :: "jstr \<Rightarrow> action_body option" where
  "simple_body t =
     (if t = js ''sync'' then Some Sync
      else if t = js ''claim'' then Some Claim
      else if t = js ''release'' then Some Release
      else if t = js ''interrupt'' then Some Interrupt
      else if t = js ''eof'' then Some Eof else None)"

definition parse_edit_input :: "jobj \<Rightarrow> action_body option" where
  "parse_edit_input ob = do {
     txt \<leftarrow> boundedString maxInputCodeUnits (property ob ''value'');
     _ \<leftarrow> guard (exact ob [''type'', ''actionId'', ''value'', ''cursor'']);
     c \<leftarrow> safe_integer (property ob ''cursor'');
     Some (EditInput txt (JInt c)) }"

definition parse_submit_line :: "jobj \<Rightarrow> action_body option" where
  "parse_submit_line ob = do {
     txt \<leftarrow> boundedString maxInputCodeUnits (property ob ''value'');
     _ \<leftarrow> guard (exact ob [''type'', ''actionId'', ''value'']);
     Some (SubmitLine txt) }"

definition parse_start_run :: "jobj \<Rightarrow> action_body option" where
  "parse_start_run ob =
     (let hasTest = property ob ''testId'' \<noteq> JUndef in do {
       eid \<leftarrow> identifier_of (property ob ''entryId'');
       ep \<leftarrow> boundedString maxCommandCodeUnits (property ob ''entrypoint'');
       tid \<leftarrow> (if hasTest then map_option Some (identifier_of (property ob ''testId'')) else Some None);
       _ \<leftarrow> guard (exact ob (if hasTest
              then [''type'', ''actionId'', ''entryId'', ''entrypoint'', ''testId'']
              else [''type'', ''actionId'', ''entryId'', ''entrypoint'']));
       _ \<leftarrow> guard (0 < length ep);
       Some (StartRun eid ep tid) })"

definition parse_host_output :: "jobj \<Rightarrow> action_body option" where
  "parse_host_output ob = do {
     rid \<leftarrow> identifier_of (property ob ''runId'');
     chunk \<leftarrow> boundedString maxOutputChunkCodeUnits (property ob ''chunk'');
     _ \<leftarrow> guard (exact ob [''type'', ''actionId'', ''runId'', ''chunk'']);
     Some (HostOutput rid chunk) }"

definition parse_host_input_request :: "jobj \<Rightarrow> action_body option" where
  "parse_host_input_request ob = do {
     rid \<leftarrow> identifier_of (property ob ''runId'');
     req \<leftarrow> identifier_of (property ob ''requestId'');
     _ \<leftarrow> guard (exact ob [''type'', ''actionId'', ''runId'', ''requestId'']);
     Some (HostInputRequest rid req) }"

definition parse_next_mode :: "jval \<Rightarrow> ready_mode option" where
  "parse_next_mode v =
     (if v = JStr (js ''shell'') then Some ToShell
      else if v = JStr (js ''python'') then Some ToPython else None)"

definition parse_repl_prompt :: "jval \<Rightarrow> repl_prompt option" where
  "parse_repl_prompt v =
     (if v = JStr (js ''>>> '') then Some PrimaryPrompt
      else if v = JStr (js ''... '') then Some ContinuationPrompt else None)"

definition parse_host_ready :: "jobj \<Rightarrow> action_body option" where
  "parse_host_ready ob =
     (let hasPrompt = property ob ''prompt'' \<noteq> JUndef;
          hasTest = property ob ''testResult'' \<noteq> JUndef;
          keys = [''type'', ''actionId'', ''runId'', ''nextMode'']
                   @ (if hasPrompt then [''prompt''] else [])
                   @ (if hasTest then [''testResult''] else []) in do {
       _ \<leftarrow> guard (exact ob keys);
       rid \<leftarrow> identifier_of (property ob ''runId'');
       next \<leftarrow> parse_next_mode (property ob ''nextMode'');
       pr \<leftarrow> (if hasPrompt then map_option Some (parse_repl_prompt (property ob ''prompt''))
              else Some None);
       _ \<leftarrow> guard (\<not> hasPrompt \<or> next = ToPython);
       res \<leftarrow> (if hasTest then map_option Some (parse_test_result (property ob ''testResult''))
               else Some None);
       Some (HostReady rid next pr res) })"

definition parse_host_failed :: "jobj \<Rightarrow> action_body option" where
  "parse_host_failed ob = do {
     rid \<leftarrow> identifier_of (property ob ''runId'');
     msg \<leftarrow> boundedString 2048 (property ob ''message'');
     _ \<leftarrow> guard (exact ob [''type'', ''actionId'', ''runId'', ''message'']);
     Some (HostFailed rid msg) }"

definition parse_body :: "jobj \<Rightarrow> jstr \<Rightarrow> action_body option" where
  "parse_body ob t =
     (case simple_body t of
        Some b \<Rightarrow> if exact ob [''type'', ''actionId''] then Some b else None
      | None \<Rightarrow>
         if t = js ''edit-input'' then parse_edit_input ob
         else if t = js ''submit-line'' then parse_submit_line ob
         else if t = js ''start-run'' then parse_start_run ob
         else if t = js ''host-output'' then parse_host_output ob
         else if t = js ''host-input-request'' then parse_host_input_request ob
         else if t = js ''host-ready'' then parse_host_ready ob
         else if t = js ''host-failed'' then parse_host_failed ob
         else None)"

fun as_string :: "jval \<Rightarrow> jstr option" where
  "as_string (JStr s) = Some s"
| "as_string _ = None"

definition parseSharedTerminalActionEnvelope :: "jval \<Rightarrow> action option" where
  "parseSharedTerminalActionEnvelope v = do {
     env \<leftarrow> record_of v;
     _ \<leftarrow> guard (exact env [''protocolVersion'', ''action'']
            \<and> property env ''protocolVersion'' = protocol_version);
     ob \<leftarrow> record_of (property env ''action'');
     t \<leftarrow> as_string (property ob ''type'');
     aid \<leftarrow> identifier_of (property ob ''actionId'');
     b \<leftarrow> parse_body ob t;
     Some \<lparr> actionId = aid, body = b \<rparr> }"

definition envelope_json :: "action \<Rightarrow> jval" where
  "envelope_json a = obj [(''protocolVersion'', protocol_version), (''action'', action_json a)]"

end
