(* ===== verification/Terminal_Replica.thy ===== *)
theory Terminal_Replica
  imports Terminal_Protocol
begin

text \<open>
  The server-to-client half of \<open>src/code/terminal/protocol.ts\<close>: effects, snapshots, deltas and
  acknowledgements as wire values, their parsers, and \<open>applySharedTerminalDelta\<close>, by which a
  client replica follows the machine.
\<close>

section \<open>Wire values\<close>

fun option_json :: "('a \<Rightarrow> jval) \<Rightarrow> 'a option \<Rightarrow> jval" where
  "option_json f None = JNull"
| "option_json f (Some x) = f x"

definition nat_json :: "nat \<Rightarrow> jval" where
  "nat_json n = JNum (JInt (int n))"

definition participant_json :: "participant \<Rightarrow> jval" where
  "participant_json p = obj [(''participantId'', JStr (participantId p)),
     (''displayName'', JStr (displayName p)), (''color'', JStr (color p))]"

definition input_json :: "input_state \<Rightarrow> jval" where
  "input_json i = obj [(''value'', JStr (i_value i)), (''cursor'', nat_json (i_cursor i)),
     (''owner'', option_json participant_json (i_owner i))]"

definition run_json :: "run \<Rightarrow> jval" where
  "run_json r = obj [(''runId'', JStr (runId r)), (''entryId'', option_json JStr (entryId r)),
     (''entrypoint'', option_json JStr (entrypoint r)), (''testId'', option_json JStr (testId r))]"

fun mode_json :: "terminal_mode \<Rightarrow> jval" where
  "mode_json Shell = JStr (js ''shell'')"
| "mode_json Busy = JStr (js ''busy'')"
| "mode_json Python = JStr (js ''python'')"
| "mode_json ProgramInput = JStr (js ''program-input'')"

definition state_json :: "terminal_state \<Rightarrow> jval" where
  "state_json s = obj [(''protocolVersion'', protocol_version),
     (''generation'', nat_json (s_generation s)), (''seq'', nat_json (s_seq s)),
     (''mode'', mode_json (s_mode s)), (''prompt'', JStr (s_prompt s)),
     (''transcript'', JStr (s_transcript s)), (''input'', input_json (s_input s)),
     (''host'', option_json participant_json (s_host s)),
     (''activeRun'', option_json run_json (s_activeRun s)),
     (''inputRequestId'', option_json JStr (s_inputRequestId s)),
     (''lastTest'', option_json test_result_json (s_lastTest s))]"

fun operation_json :: "delta_op \<Rightarrow> jval" where
  "operation_json (TranscriptAppend n v) =
     obj [(''type'', JStr (js ''transcript-append'')), (''trimStart'', nat_json n), (''value'', JStr v)]"
| "operation_json (TranscriptReplace v) =
     obj [(''type'', JStr (js ''transcript-replace'')), (''value'', JStr v)]"
| "operation_json (InputOp i) = obj [(''type'', JStr (js ''input'')), (''input'', input_json i)]"
| "operation_json (RuntimeOp md pr ho ru req t) =
     obj [(''type'', JStr (js ''runtime'')), (''mode'', mode_json md), (''prompt'', JStr pr),
       (''host'', option_json participant_json ho), (''activeRun'', option_json run_json ru),
       (''inputRequestId'', option_json JStr req), (''lastTest'', option_json test_result_json t)]"

definition delta_json :: "delta \<Rightarrow> jval" where
  "delta_json d = obj [(''protocolVersion'', protocol_version),
     (''generation'', nat_json (d_generation d)), (''baseSeq'', nat_json (d_baseSeq d)),
     (''seq'', nat_json (d_seq d)), (''operations'', JArr (map operation_json (d_operations d)))]"

section \<open>Snapshots\<close>

definition parse_mode :: "jval \<Rightarrow> terminal_mode option" where
  "parse_mode v =
     (if v = JStr (js ''shell'') then Some Shell
      else if v = JStr (js ''busy'') then Some Busy
      else if v = JStr (js ''python'') then Some Python
      else if v = JStr (js ''program-input'') then Some ProgramInput else None)"

definition maxPromptCodeUnits :: nat where "maxPromptCodeUnits = 32"

definition bounded_counter :: "int \<Rightarrow> jval \<Rightarrow> nat option" where
  "bounded_counter lo v = do {
     n \<leftarrow> safe_integer v;
     _ \<leftarrow> guard (lo \<le> n);
     Some (nat n) }"

definition parseSharedTerminalState :: "jval \<Rightarrow> terminal_state option" where
  "parseSharedTerminalState v = do {
     ob \<leftarrow> record_of v;
     _ \<leftarrow> guard (exact ob [''protocolVersion'', ''generation'', ''seq'', ''mode'', ''prompt'',
            ''transcript'', ''input'', ''host'', ''activeRun'', ''inputRequestId'', ''lastTest'']);
     _ \<leftarrow> guard (property ob ''protocolVersion'' = protocol_version);
     gen \<leftarrow> bounded_counter 1 (property ob ''generation'');
     sq \<leftarrow> bounded_counter 0 (property ob ''seq'');
     md \<leftarrow> parse_mode (property ob ''mode'');
     pr \<leftarrow> boundedString maxPromptCodeUnits (property ob ''prompt'');
     tr \<leftarrow> boundedString maxTranscriptCodeUnits (property ob ''transcript'');
     inp \<leftarrow> parse_input_state (property ob ''input'');
     ho \<leftarrow> nullable parse_participant (property ob ''host'');
     ru \<leftarrow> nullable parse_run (property ob ''activeRun'');
     req \<leftarrow> nullable identifier_of (property ob ''inputRequestId'');
     te \<leftarrow> nullable parse_test_result (property ob ''lastTest'');
     Some \<lparr> s_generation = gen, s_seq = sq, s_mode = md, s_prompt = pr, s_transcript = tr,
       s_input = inp, s_host = ho, s_activeRun = ru, s_inputRequestId = req, s_lastTest = te \<rparr> }"

section \<open>Deltas\<close>

definition parse_runtime_operation :: "jobj \<Rightarrow> delta_op option" where
  "parse_runtime_operation ob = do {
     _ \<leftarrow> guard (exact ob [''type'', ''mode'', ''prompt'', ''host'', ''activeRun'',
            ''inputRequestId'', ''lastTest'']);
     md \<leftarrow> parse_mode (property ob ''mode'');
     pr \<leftarrow> boundedString maxPromptCodeUnits (property ob ''prompt'');
     ho \<leftarrow> nullable parse_participant (property ob ''host'');
     ru \<leftarrow> nullable parse_run (property ob ''activeRun'');
     req \<leftarrow> nullable identifier_of (property ob ''inputRequestId'');
     te \<leftarrow> nullable parse_test_result (property ob ''lastTest'');
     Some (RuntimeOp md pr ho ru req te) }"

definition parse_transcript_append :: "jobj \<Rightarrow> delta_op option" where
  "parse_transcript_append ob = do {
     txt \<leftarrow> boundedString maxOutputChunkCodeUnits (property ob ''value'');
     _ \<leftarrow> guard (exact ob [''type'', ''trimStart'', ''value'']);
     n \<leftarrow> bounded_counter 0 (property ob ''trimStart'');
     _ \<leftarrow> guard (n \<le> maxTranscriptCodeUnits);
     Some (TranscriptAppend n txt) }"

definition parse_transcript_replace :: "jobj \<Rightarrow> delta_op option" where
  "parse_transcript_replace ob = do {
     txt \<leftarrow> boundedString maxTranscriptCodeUnits (property ob ''value'');
     _ \<leftarrow> guard (exact ob [''type'', ''value'']);
     Some (TranscriptReplace txt) }"

definition parse_input_operation :: "jobj \<Rightarrow> delta_op option" where
  "parse_input_operation ob = do {
     inp \<leftarrow> parse_input_state (property ob ''input'');
     _ \<leftarrow> guard (exact ob [''type'', ''input'']);
     Some (InputOp inp) }"

definition parse_delta_operation :: "jval \<Rightarrow> delta_op option" where
  "parse_delta_operation v = do {
     ob \<leftarrow> record_of v;
     t \<leftarrow> as_string (property ob ''type'');
     (if t = js ''transcript-append'' then parse_transcript_append ob
      else if t = js ''transcript-replace'' then parse_transcript_replace ob
      else if t = js ''input'' then parse_input_operation ob
      else if t = js ''runtime'' then parse_runtime_operation ob
      else None) }"

fun as_array :: "jval \<Rightarrow> jval list option" where
  "as_array (JArr vs) = Some vs"
| "as_array _ = None"

definition maxDeltaOperations :: nat where "maxDeltaOperations = 8"

definition parseSharedTerminalDelta :: "jval \<Rightarrow> delta option" where
  "parseSharedTerminalDelta v = do {
     ob \<leftarrow> record_of v;
     _ \<leftarrow> guard (exact ob [''protocolVersion'', ''generation'', ''baseSeq'', ''seq'', ''operations'']);
     _ \<leftarrow> guard (property ob ''protocolVersion'' = protocol_version);
     gen \<leftarrow> bounded_counter 1 (property ob ''generation'');
     base \<leftarrow> bounded_counter 0 (property ob ''baseSeq'');
     sq \<leftarrow> safe_integer (property ob ''seq'');
     _ \<leftarrow> guard (sq = int base + 1);
     vs \<leftarrow> as_array (property ob ''operations'');
     _ \<leftarrow> guard (1 \<le> length vs \<and> length vs \<le> maxDeltaOperations);
     ops \<leftarrow> those (map parse_delta_operation vs);
     Some \<lparr> d_generation = gen, d_baseSeq = base, d_seq = nat sq, d_operations = ops \<rparr> }"

fun apply_operation :: "delta_op \<Rightarrow> terminal_state \<Rightarrow> terminal_state option" where
  "apply_operation (TranscriptAppend n v) s =
     (if length (s_transcript s) < n then None
      else let tr = drop n (s_transcript s) @ v
           in if maxTranscriptCodeUnits < length tr then None else Some (s\<lparr> s_transcript := tr \<rparr>))"
| "apply_operation (TranscriptReplace v) s = Some (s\<lparr> s_transcript := v \<rparr>)"
| "apply_operation (InputOp i) s = Some (s\<lparr> s_input := i \<rparr>)"
| "apply_operation (RuntimeOp md pr ho ru req te) s =
     Some (s\<lparr> s_mode := md, s_prompt := pr, s_host := ho, s_activeRun := ru,
       s_inputRequestId := req, s_lastTest := te \<rparr>)"

fun apply_operations :: "delta_op list \<Rightarrow> terminal_state \<Rightarrow> terminal_state option" where
  "apply_operations [] s = Some s"
| "apply_operations (p # ps) s =
     (case apply_operation p s of None \<Rightarrow> None | Some s' \<Rightarrow> apply_operations ps s')"

text \<open>\<open>None\<close> asks for a snapshot.\<close>

definition applySharedTerminalDelta :: "terminal_state \<Rightarrow> jval \<Rightarrow> terminal_state option" where
  "applySharedTerminalDelta current wire = do {
     d \<leftarrow> parseSharedTerminalDelta wire;
     _ \<leftarrow> guard (s_generation current = d_generation d \<and> s_seq current = d_baseSeq d);
     next \<leftarrow> apply_operations (d_operations d) current;
     parseSharedTerminalState (state_json (next\<lparr> s_seq := d_seq d \<rparr>)) }"

section \<open>Effects\<close>

text \<open>The effect without its target socket, with the protocol version.\<close>

fun toSharedTerminalClientEffect :: "effect \<Rightarrow> jval" where
  "toSharedTerminalClientEffect (ExecuteLineEffect t r l p) =
     obj [(''protocolVersion'', protocol_version), (''type'', JStr (js ''execute-line'')),
       (''runId'', JStr r), (''line'', JStr l), (''pythonMode'', JBool p)]"
| "toSharedTerminalClientEffect (StartRunEffect t r e ep te) =
     obj [(''protocolVersion'', protocol_version), (''type'', JStr (js ''start-run'')),
       (''runId'', JStr r), (''entryId'', JStr e), (''entrypoint'', JStr ep),
       (''testId'', option_json JStr te)]"
| "toSharedTerminalClientEffect (InterruptEffect t r p) =
     obj [(''protocolVersion'', protocol_version), (''type'', JStr (js ''interrupt'')),
       (''runId'', JStr r), (''pythonMode'', JBool p)]"
| "toSharedTerminalClientEffect (EofEffect t r) =
     obj [(''protocolVersion'', protocol_version), (''type'', JStr (js ''eof'')), (''runId'', JStr r)]"
| "toSharedTerminalClientEffect (SubmitInputEffect t r q v) =
     obj [(''protocolVersion'', protocol_version), (''type'', JStr (js ''submit-input'')),
       (''runId'', JStr r), (''requestId'', JStr q), (''value'', JStr v)]"

fun is_boolean :: "jval \<Rightarrow> bool" where
  "is_boolean (JBool _) = True"
| "is_boolean _ = False"

text \<open>The check of \<open>parseSharedTerminalClientEffect\<close>, which returns the value itself.\<close>

definition effect_fields_ok :: "jobj \<Rightarrow> bool" where
  "effect_fields_ok ob =
     (let ty = property ob ''type'' in
      if ty = JStr (js ''execute-line'') then
        exact ob [''protocolVersion'', ''type'', ''runId'', ''line'', ''pythonMode'']
        \<and> boundedString maxCommandCodeUnits (property ob ''line'') \<noteq> None
        \<and> is_boolean (property ob ''pythonMode'')
      else if ty = JStr (js ''start-run'') then
        exact ob [''protocolVersion'', ''type'', ''runId'', ''entryId'', ''entrypoint'', ''testId'']
        \<and> identifier_of (property ob ''entryId'') \<noteq> None
        \<and> boundedString maxCommandCodeUnits (property ob ''entrypoint'') \<noteq> None
        \<and> (property ob ''testId'' = JNull \<or> identifier_of (property ob ''testId'') \<noteq> None)
      else if ty = JStr (js ''interrupt'') then
        exact ob [''protocolVersion'', ''type'', ''runId'', ''pythonMode'']
        \<and> is_boolean (property ob ''pythonMode'')
      else if ty = JStr (js ''eof'') then exact ob [''protocolVersion'', ''type'', ''runId'']
      else if ty = JStr (js ''submit-input'') then
        exact ob [''protocolVersion'', ''type'', ''runId'', ''requestId'', ''value'']
        \<and> identifier_of (property ob ''requestId'') \<noteq> None
        \<and> boundedString maxInputCodeUnits (property ob ''value'') \<noteq> None
      else False)"

definition parseSharedTerminalClientEffect :: "jval \<Rightarrow> jval option" where
  "parseSharedTerminalClientEffect v = do {
     ob \<leftarrow> record_of v;
     _ \<leftarrow> guard (property ob ''protocolVersion'' = protocol_version);
     _ \<leftarrow> identifier_of (property ob ''runId'');
     _ \<leftarrow> guard (effect_fields_ok ob);
     Some v }"

section \<open>Acknowledgements\<close>

fun status_text :: "ack_status \<Rightarrow> string" where
  "status_text Applied = ''applied''"
| "status_text Unchanged = ''unchanged''"
| "status_text Duplicate = ''duplicate''"
| "status_text Rejected = ''rejected''"

fun error_text :: "terminal_error \<Rightarrow> string" where
  "error_text ErrBusy = ''busy''"
| "error_text ErrInputOwned = ''input-owned''"
| "error_text ErrInvalidAction = ''invalid-action''"
| "error_text ErrInvalidCursor = ''invalid-cursor''"
| "error_text ErrInvalidRun = ''invalid-run''"
| "error_text ErrInvalidState = ''invalid-state''"
| "error_text ErrInvalidTestResult = ''invalid-test-result''"
| "error_text ErrNotHost = ''not-host''"
| "error_text ErrNotRunning = ''not-running''"
| "error_text ErrIdempotencyConflict = ''idempotency-conflict''"
| "error_text ErrRateLimited = ''rate-limited''"
| "error_text ErrUnauthorized = ''unauthorized''"

definition ack_json :: "ack \<Rightarrow> jval" where
  "ack_json a = obj [(''protocolVersion'', protocol_version), (''actionId'', JStr (a_actionId a)),
     (''generation'', nat_json (a_generation a)), (''seq'', nat_json (a_seq a)),
     (''status'', JStr (js (status_text (a_status a)))),
     (''error'', option_json (\<lambda>e. JStr (js (error_text e))) (a_error a))]"

definition ack_statuses :: "string list" where
  "ack_statuses = [''applied'', ''unchanged'', ''duplicate'', ''rejected'']"

definition ack_errors :: "string list" where
  "ack_errors = [''busy'', ''input-owned'', ''invalid-action'', ''invalid-cursor'', ''invalid-run'',
     ''invalid-state'', ''invalid-test-result'', ''not-host'', ''not-running'',
     ''idempotency-conflict'', ''rate-limited'', ''unauthorized'']"

definition one_of :: "string list \<Rightarrow> jval \<Rightarrow> bool" where
  "one_of ks v \<longleftrightarrow> v \<in> set (map (JStr \<circ> js) ks)"

definition parseSharedTerminalAck :: "jval \<Rightarrow> jval option" where
  "parseSharedTerminalAck v = do {
     ob \<leftarrow> record_of v;
     _ \<leftarrow> guard (exact ob [''protocolVersion'', ''actionId'', ''generation'', ''seq'', ''status'', ''error'']);
     _ \<leftarrow> guard (property ob ''protocolVersion'' = protocol_version);
     _ \<leftarrow> identifier_of (property ob ''actionId'');
     _ \<leftarrow> bounded_counter 1 (property ob ''generation'');
     _ \<leftarrow> bounded_counter 0 (property ob ''seq'');
     _ \<leftarrow> guard (one_of ack_statuses (property ob ''status''));
     _ \<leftarrow> guard (property ob ''error'' = JNull \<or> one_of ack_errors (property ob ''error''));
     _ \<leftarrow> guard ((property ob ''status'' = JStr (js ''rejected'')) = (property ob ''error'' \<noteq> JNull));
     Some v }"

end
