(* ===== verification/Terminal_Roundtrip.thy ===== *)
theory Terminal_Roundtrip
  imports Terminal_Replica
begin

text \<open>
  The parsers of the terminal protocol against its printers: what a well-formed message
  prints as parses back to it, and what parses is well formed. \<open>..._wf\<close> are the bounds a
  receiver may rely on.
\<close>

section \<open>Objects with literal keys\<close>

definition keyed :: "(string \<times> jval) list \<Rightarrow> jobj" where
  "keyed ps = map (\<lambda>(k, v). (js k, v)) ps"

lemma record_of_obj [wire_simps]: "record_of (obj ps) = Some (keyed ps)"
  by (simp add: obj_def keyed_def)

lemma property_keyed [wire_simps]:
  "property (keyed ps) k = (case map_of ps k of None \<Rightarrow> JUndef | Some v \<Rightarrow> v)"
proof -
  have "map_of (keyed ps) (js k) = map_of ps k"
    by (induction ps) (auto simp: keyed_def)
  then show ?thesis by (simp add: property_def)
qed

lemma exact_keyed [wire_simps]: "exact (keyed ps) ks \<longleftrightarrow> mset (map fst ps) = mset ks"
proof -
  have keys: "map fst (keyed ps) = map js (map fst ps)"
    by (simp add: keyed_def comp_def case_prod_beta)
  have "inj js" by (simp add: inj_def)
  then have "image_mset js (mset (map fst ps)) = image_mset js (mset ks)
      \<longleftrightarrow> mset (map fst ps) = mset ks"
    by (metis multiset.inj_map injD)
  then show ?thesis
    by (simp only: exact_def sort_eq_iff_mset_eq keys mset_map)
qed

lemma obj_neq [wire_simps]: "obj ps \<noteq> JNull" "obj ps \<noteq> JUndef"
  by (simp_all add: obj_def)

lemma json_neq_JNull [wire_simps]:
  "participant_json p \<noteq> JNull" "run_json r \<noteq> JNull" "test_result_json t \<noteq> JNull"
  by (simp_all add: participant_json_def run_json_def test_result_json_def obj_neq)

lemma guard_bind [wire_simps]: "(guard b \<bind> (\<lambda>_. x)) = (if b then x else None)"
  by (simp add: guard_def)

lemma guard_Some: "guard b = Some u \<longleftrightarrow> b"
  by (simp add: guard_def)

lemmas reader_simps = record_of.simps boundedString.simps identifier_of.simps color_string.simps
  as_string.simps as_array.simps safe_integer.simps

section \<open>Well-formed parts\<close>

definition participant_wf :: "participant \<Rightarrow> bool" where
  "participant_wf p \<longleftrightarrow> safeIdentifier (participantId p) \<and> displayName p \<noteq> []
     \<and> length (displayName p) \<le> 128 \<and> color_ok (color p) \<and> ascii_lower (color p) = color p"

definition input_wf :: "input_state \<Rightarrow> bool" where
  "input_wf i \<longleftrightarrow> length (i_value i) \<le> maxInputCodeUnits \<and> i_cursor i \<le> length (i_value i)
     \<and> pred_option participant_wf (i_owner i)"

definition run_wf :: "run \<Rightarrow> bool" where
  "run_wf r \<longleftrightarrow> safeIdentifier (runId r) \<and> pred_option safeIdentifier (entryId r)
     \<and> pred_option (\<lambda>s. length s \<le> maxCommandCodeUnits) (entrypoint r)
     \<and> pred_option safeIdentifier (testId r)"

definition test_result_wf :: "test_result \<Rightarrow> bool" where
  "test_result_wf t \<longleftrightarrow> safeIdentifier (tr_testId t)"

definition state_wf :: "terminal_state \<Rightarrow> bool" where
  "state_wf s \<longleftrightarrow> 1 \<le> s_generation s \<and> int (s_generation s) \<le> max_safe_integer
     \<and> int (s_seq s) \<le> max_safe_integer \<and> length (s_prompt s) \<le> maxPromptCodeUnits
     \<and> length (s_transcript s) \<le> maxTranscriptCodeUnits \<and> input_wf (s_input s)
     \<and> pred_option participant_wf (s_host s) \<and> pred_option run_wf (s_activeRun s)
     \<and> pred_option safeIdentifier (s_inputRequestId s)
     \<and> pred_option test_result_wf (s_lastTest s)"

fun operation_wf :: "delta_op \<Rightarrow> bool" where
  "operation_wf (TranscriptAppend n v) =
     (n \<le> maxTranscriptCodeUnits \<and> length v \<le> maxOutputChunkCodeUnits)"
| "operation_wf (TranscriptReplace v) = (length v \<le> maxTranscriptCodeUnits)"
| "operation_wf (InputOp i) = input_wf i"
| "operation_wf (RuntimeOp md pr ho ru req te) =
     (length pr \<le> maxPromptCodeUnits \<and> pred_option participant_wf ho \<and> pred_option run_wf ru
      \<and> pred_option safeIdentifier req \<and> pred_option test_result_wf te)"

definition delta_wf :: "delta \<Rightarrow> bool" where
  "delta_wf d \<longleftrightarrow> 1 \<le> d_generation d \<and> int (d_generation d) \<le> max_safe_integer
     \<and> d_seq d = d_baseSeq d + 1 \<and> int (d_seq d) \<le> max_safe_integer
     \<and> d_operations d \<noteq> [] \<and> length (d_operations d) \<le> maxDeltaOperations
     \<and> list_all operation_wf (d_operations d)"

section \<open>Parts: printing then parsing\<close>

lemma ascii_lower_idem_unit:
  "(if in_range 0x41 0x5a c then c + 0x20 else c :: code_unit) = c \<longleftrightarrow> \<not> in_range 0x41 0x5a c"
  by auto

lemma ascii_lower_length [simp]: "length (ascii_lower s) = length s"
  by (simp add: ascii_lower_def)

lemma participant_roundtrip:
  "participant_wf p \<Longrightarrow> parse_participant (participant_json p) = Some p"
  by (simp add: participant_wf_def parse_participant_def participant_json_def wire_simps
        add_mset_commute)

lemma nullable_option_json:
  "(\<And>x. P x \<Longrightarrow> p (f x) = Some x \<and> f x \<noteq> JNull) \<Longrightarrow> pred_option P ox
     \<Longrightarrow> nullable p (option_json f ox) = Some ox"
  by (cases ox) (auto simp: nullable_def)

lemma nullable_participant:
  "pred_option participant_wf ox \<Longrightarrow>
     nullable parse_participant (option_json participant_json ox) = Some ox"
  by (rule nullable_option_json [of participant_wf])
     (simp_all add: participant_roundtrip json_neq_JNull)

lemma nullable_identifier:
  "pred_option safeIdentifier ox \<Longrightarrow> nullable identifier_of (option_json JStr ox) = Some ox"
  by (rule nullable_option_json [of safeIdentifier]) simp_all

lemma nullable_bounded:
  "pred_option (\<lambda>s. length s \<le> n) ox \<Longrightarrow> nullable (boundedString n) (option_json JStr ox) = Some ox"
  by (rule nullable_option_json [of "\<lambda>s. length s \<le> n"]) simp_all

lemma run_roundtrip: "run_wf r \<Longrightarrow> parse_run (run_json r) = Some r"
  by (simp add: run_wf_def parse_run_def run_json_def wire_simps nullable_identifier
        nullable_bounded)

lemma parse_test_status_json: "parse_test_status (test_status_json s) = Some s"
  by (cases s) (simp_all add: parse_test_status_def)

lemma test_result_roundtrip: "test_result_wf t \<Longrightarrow> parse_test_result (test_result_json t) = Some t"
  by (simp add: test_result_wf_def parse_test_result_def test_result_json_def wire_simps
        parse_test_status_json)

lemma nullable_run:
  "pred_option run_wf ox \<Longrightarrow> nullable parse_run (option_json run_json ox) = Some ox"
  by (rule nullable_option_json [of run_wf]) (simp_all add: run_roundtrip json_neq_JNull)

lemma nullable_test_result:
  "pred_option test_result_wf ox \<Longrightarrow>
     nullable parse_test_result (option_json test_result_json ox) = Some ox"
  by (rule nullable_option_json [of test_result_wf])
     (simp_all add: test_result_roundtrip json_neq_JNull)

lemma input_roundtrip: "input_wf i \<Longrightarrow> parse_input_state (input_json i) = Some i"
  by (simp add: input_wf_def parse_input_state_def input_json_def wire_simps nullable_participant
        nat_json_def max_safe_integer_def maxInputCodeUnits_def)

lemma parse_mode_json: "parse_mode (mode_json m) = Some m"
  by (cases m) (simp_all add: parse_mode_def)

lemma bounded_counter_nat_json:
  "int n \<le> max_safe_integer \<Longrightarrow> lo \<le> int n \<Longrightarrow> bounded_counter lo (nat_json n) = Some n"
  by (simp add: bounded_counter_def nat_json_def wire_simps)

lemmas part_roundtrips = nullable_participant nullable_identifier nullable_bounded nullable_run
  nullable_test_result input_roundtrip parse_mode_json bounded_counter_nat_json

lemma state_roundtrip: "state_wf s \<Longrightarrow> parseSharedTerminalState (state_json s) = Some s"
  by (simp add: state_wf_def parseSharedTerminalState_def state_json_def wire_simps part_roundtrips)

lemma operation_roundtrip:
  "operation_wf p \<Longrightarrow> parse_delta_operation (operation_json p) = Some p"
  by (cases p)
     (simp_all add: parse_delta_operation_def wire_simps part_roundtrips parse_transcript_append_def
        parse_transcript_replace_def parse_input_operation_def parse_runtime_operation_def
        max_safe_integer_def maxTranscriptCodeUnits_def)

lemma those_operations:
  "list_all operation_wf ps \<Longrightarrow> those (map (parse_delta_operation \<circ> operation_json) ps) = Some ps"
  by (induction ps) (simp_all add: operation_roundtrip)

lemma delta_roundtrip: "delta_wf d \<Longrightarrow> parseSharedTerminalDelta (delta_json d) = Some d"
  by (auto simp: delta_wf_def parseSharedTerminalDelta_def delta_json_def wire_simps
        part_roundtrips those_operations nat_json_def bounded_counter_def Suc_le_eq)

end
