(* ===== verification/Terminal_Soundness.thy ===== *)
theory Terminal_Soundness
  imports Terminal_Roundtrip
begin

text \<open>
  What the terminal parsers accept: the bounds every accepted action, snapshot and delta obeys,
  and the round trip of actions.
\<close>

section \<open>Actions\<close>

fun safe_cursor :: "jnum \<Rightarrow> bool" where
  "safe_cursor (JInt i) = (\<bar>i\<bar> \<le> max_safe_integer)"
| "safe_cursor _ = False"

fun body_wf :: "action_body \<Rightarrow> bool" where
  "body_wf (EditInput v c) = (length v \<le> maxInputCodeUnits \<and> safe_cursor c)"
| "body_wf (SubmitLine v) = (length v \<le> maxInputCodeUnits)"
| "body_wf (StartRun e p t) = (safeIdentifier e \<and> p \<noteq> [] \<and> length p \<le> maxCommandCodeUnits
     \<and> pred_option safeIdentifier t)"
| "body_wf (HostOutput r c) = (safeIdentifier r \<and> length c \<le> maxOutputChunkCodeUnits)"
| "body_wf (HostInputRequest r q) = (safeIdentifier r \<and> safeIdentifier q)"
| "body_wf (HostReady r n p t) = (safeIdentifier r \<and> (p \<noteq> None \<longrightarrow> n = ToPython)
     \<and> pred_option test_result_wf t)"
| "body_wf (HostFailed r msg) = (safeIdentifier r \<and> length msg \<le> 2048)"
| "body_wf _ = True"

definition action_wf :: "action \<Rightarrow> bool" where
  "action_wf a \<longleftrightarrow> safeIdentifier (actionId a) \<and> body_wf (body a)"

lemma safe_cursor_iff: "safe_cursor c \<longleftrightarrow> (\<exists>i. c = JInt i \<and> \<bar>i\<bar> \<le> max_safe_integer)"
  by (cases c) auto

lemma parse_repl_prompt_text: "parse_repl_prompt (JStr (repl_prompt_text p)) = Some p"
  by (cases p) (simp_all add: parse_repl_prompt_def)

lemma parse_next_mode_json: "parse_next_mode (ready_mode_json n) = Some n"
  by (cases n) (simp_all add: parse_next_mode_def)

lemma test_result_json_neq_JUndef: "test_result_json t \<noteq> JUndef"
  by (simp add: test_result_json_def obj_def)

lemmas body_parsers = parse_edit_input_def parse_submit_line_def parse_start_run_def
  parse_host_output_def parse_host_input_request_def parse_host_ready_def parse_host_failed_def

lemma parse_host_ready_props:
  assumes "body_wf (HostReady r n p t)"
  shows "parse_host_ready (keyed ((''actionId'', aid) # body_props (HostReady r n p t)))
    = Some (HostReady r n p t)"
  using assms
  by (cases p; cases t; cases n)
     (simp_all add: parse_host_ready_def wire_simps optional_prop_def Let_def
        parse_repl_prompt_text parse_next_mode_def test_result_roundtrip
        test_result_json_neq_JUndef add_mset_commute)

lemma parse_start_run_props:
  assumes "body_wf (StartRun e p t)"
  shows "parse_start_run (keyed ((''actionId'', aid) # body_props (StartRun e p t)))
    = Some (StartRun e p t)"
  using assms
  by (cases t)
     (simp_all add: parse_start_run_def wire_simps optional_prop_def Let_def add_mset_commute)

text \<open>The type property of every body, and its dispatch.\<close>

lemma parse_body_props:
  assumes "body_wf b"
  shows "\<exists>t. map_of (body_props b) ''type'' = Some (JStr t)
    \<and> parse_body (keyed ((''actionId'', aid) # body_props b)) t = Some b"
proof (cases b)
  case (StartRun e p t)
  with assms show ?thesis
    using parse_start_run_props [of e p t aid] by (simp add: parse_body_def simple_body_def)
next
  case (HostReady r n p t)
  with assms show ?thesis
    using parse_host_ready_props [of r n p t aid] by (simp add: parse_body_def simple_body_def)
qed (use assms in \<open>auto simp: parse_body_def simple_body_def body_parsers wire_simps safe_cursor_iff
        add_mset_commute\<close>)

lemma action_roundtrip:
  assumes "action_wf a"
  shows "parseSharedTerminalActionEnvelope (envelope_json a) = Some a"
proof -
  from assms have ident: "safeIdentifier (actionId a)" and wf: "body_wf (body a)"
    by (simp_all add: action_wf_def)
  obtain t where "map_of (body_props (body a)) ''type'' = Some (JStr t)"
    and "parse_body (keyed ((''actionId'', JStr (actionId a)) # body_props (body a))) t = Some (body a)"
    using parse_body_props [OF wf] by blast
  with ident show ?thesis
    by (simp add: parseSharedTerminalActionEnvelope_def envelope_json_def action_json_def wire_simps)
qed

section \<open>Accepted values are well formed\<close>

lemma identifier_of_Some [simp]: "identifier_of v = Some s \<longleftrightarrow> v = JStr s \<and> safeIdentifier s"
  by (cases v) auto

lemma boundedString_Some [simp]: "boundedString n v = Some s \<longleftrightarrow> v = JStr s \<and> length s \<le> n"
  by (cases v) auto

lemma color_unit_lower:
  "hex_unit c \<Longrightarrow> hex_unit (if in_range 0x41 0x5a c then c + 0x20 else c)
     \<and> \<not> in_range 0x41 0x5a (if in_range 0x41 0x5a c then c + 0x20 else c)"
proof -
  assume h: "hex_unit c"
  consider "in_range 0x41 0x46 c" | "\<not> in_range 0x41 0x5a c"
    using h by (fastforce simp: hex_unit_def in_range_def word_le_nat_alt)
  then show ?thesis
  proof cases
    case 1
    then have "c \<in> {0x41, 0x42, 0x43, 0x44, 0x45, 0x46}"
      unfolding in_range_def by (simp add: word_le_nat_alt word_unat_eq_iff) arith
    then show ?thesis by (auto simp: in_range_def hex_unit_def)
  qed (use h in auto)
qed

lemma color_ok_lower:
  assumes "color_ok s"
  shows "color_ok (ascii_lower s) \<and> ascii_lower (ascii_lower s) = ascii_lower s"
proof -
  from assms obtain cs where s: "s = 0x23 # cs" and "length cs = 6" and hex: "list_all hex_unit cs"
    by (auto simp: color_ok_def split: list.splits)
  have "list_all hex_unit (ascii_lower cs) \<and> ascii_lower (ascii_lower cs) = ascii_lower cs"
    using hex by (induction cs) (use color_unit_lower in \<open>auto simp: ascii_lower_def\<close>)
  then show ?thesis
    using s \<open>length cs = 6\<close> by (simp add: color_ok_def ascii_lower_def in_range_def)
qed

lemma color_string_Some:
  "color_string v = Some c \<Longrightarrow> color_ok c \<and> ascii_lower c = c"
  by (cases v) (auto simp: color_ok_lower split: if_splits)

lemma participant_sound: "parse_participant v = Some p \<Longrightarrow> participant_wf p"
  by (auto simp: parse_participant_def participant_wf_def guard_Some bind_eq_Some_conv
        dest!: color_string_Some)

lemma nullable_sound:
  "nullable p v = Some ox \<Longrightarrow> (\<And>w x. p w = Some x \<Longrightarrow> P x) \<Longrightarrow> pred_option P ox"
  by (auto simp: nullable_def split: if_splits)

lemma input_sound: "parse_input_state v = Some i \<Longrightarrow> input_wf i"
  by (auto simp: parse_input_state_def input_wf_def guard_Some bind_eq_Some_conv nat_le_iff
        intro: nullable_sound [where P = participant_wf] dest: participant_sound)

lemma run_sound: "parse_run v = Some r \<Longrightarrow> run_wf r"
  by (auto simp: parse_run_def run_wf_def guard_Some bind_eq_Some_conv
        elim!: nullable_sound)

lemma test_result_sound: "parse_test_result v = Some t \<Longrightarrow> test_result_wf t"
  by (auto simp: parse_test_result_def test_result_wf_def guard_Some bind_eq_Some_conv)

lemma bounded_counter_sound:
  "bounded_counter lo v = Some n \<Longrightarrow> lo \<le> int n \<and> int n \<le> max_safe_integer \<or> lo < 0"
  by (auto simp: bounded_counter_def guard_Some bind_eq_Some_conv safe_integer_Some)

lemma state_sound: "parseSharedTerminalState v = Some s \<Longrightarrow> state_wf s"
  by (auto simp: parseSharedTerminalState_def state_wf_def guard_Some bind_eq_Some_conv
        dest: bounded_counter_sound input_sound
        intro!: nullable_sound [where P = participant_wf] participant_sound
          nullable_sound [where P = run_wf] run_sound
          nullable_sound [where P = test_result_wf] test_result_sound
        elim!: nullable_sound)

end
