(* ===== verification/Terminal_Invariant.thy ===== *)
theory Terminal_Invariant
  imports Terminal_Machine Terminal_Soundness
begin

text \<open>
  The invariant of the shared terminal and its preservation by every handler. \<open>control_ok\<close>
  says which of host, run, input request and prompt go with each mode; \<open>data_ok\<close> bounds the
  data; \<open>core_ok\<close> adds the numbering of run identifiers. \<open>handled\<close> is what every handler
  guarantees of the machine it returns.
\<close>

named_theorems handler_simps \<open>definitions the proofs about single handlers unfold\<close>

section \<open>Appending to the transcript\<close>

definition appended :: "jstr \<Rightarrow> jstr \<Rightarrow> jstr" where
  "appended v t = drop (length t + length v - maxTranscriptCodeUnits) (t @ v)"

definition append_op :: "jstr \<Rightarrow> jstr \<Rightarrow> delta_op" where
  "append_op v t = TranscriptAppend (min (length t + length v - maxTranscriptCodeUnits) (length t))
     (drop (length v - maxTranscriptCodeUnits) v)"

lemma append_text_eq [handler_simps]:
  "append_text v m = m\<lparr> state := (state m)\<lparr> transcript := appended v (transcript (state m)) \<rparr>,
     transcriptOperations := transcriptOperations m @ [append_op v (transcript (state m))] \<rparr>"
proof -
  have "length t + length v - maxTranscriptCodeUnits - length t = length v - maxTranscriptCodeUnits"
    for t :: jstr
    by simp
  then show ?thesis
    by (cases m)
       (auto simp: append_text_def appended_def append_op_def Let_def not_less)
qed

lemma length_appended: "length (appended v t) \<le> maxTranscriptCodeUnits"
  by (simp add: appended_def)

lemma append_op_wf:
  assumes "length t \<le> maxTranscriptCodeUnits" "length v \<le> maxOutputChunkCodeUnits"
  shows "operation_wf (append_op v t)"
  using assms by (simp add: append_op_def min_def terminal_limits)

lemma apply_append_op:
  assumes "length (s_transcript s) \<le> maxTranscriptCodeUnits"
  shows "apply_operation (append_op v (s_transcript s)) s
    = Some (s\<lparr> s_transcript := appended v (s_transcript s) \<rparr>)"
  using assms by (auto simp: append_op_def appended_def min_def Let_def)

lemma finish_line_eq [handler_simps]:
  "finish_line m = (if transcript (state m) \<noteq> [] \<and> \<not> ends_with_newline (transcript (state m))
     then m\<lparr> state := (state m)\<lparr> transcript := appended [0x0a] (transcript (state m)) \<rparr>,
            transcriptOperations := transcriptOperations m @ [append_op [0x0a] (transcript (state m))] \<rparr>
     else m)"
  by (simp add: finish_line_def append_text_eq)

lemma ends_with_newline_appended:
  "v \<noteq> [] \<Longrightarrow> last v = 0x0a \<Longrightarrow> ends_with_newline (appended v t)"
proof -
  assume v: "v \<noteq> []" and nl: "last v = 0x0a"
  from v have lt: "length v - maxTranscriptCodeUnits < length v"
    by (simp add: maxTranscriptCodeUnits_def)
  have eq: "appended v t = drop (length t + length v - maxTranscriptCodeUnits) t
      @ drop (length v - maxTranscriptCodeUnits) v"
    by (simp add: appended_def)
  from lt have "drop (length v - maxTranscriptCodeUnits) v \<noteq> []"
    and "last (drop (length v - maxTranscriptCodeUnits) v) = last v"
    by (simp_all add: last_drop)
  with nl show ?thesis by (simp add: ends_with_newline_def eq)
qed

section \<open>The invariant\<close>

definition control_ok :: "internal_state \<Rightarrow> bool" where
  "control_ok s \<longleftrightarrow> (case mode s of
      Shell \<Rightarrow> host s = None \<and> activeRun s = None \<and> inputRequestId s = None \<and> prompt s = js ''$ ''
    | Busy \<Rightarrow> host s \<noteq> None \<and> activeRun s \<noteq> None \<and> inputRequestId s = None \<and> prompt s = []
    | Python \<Rightarrow> host s \<noteq> None \<and> activeRun s = None \<and> inputRequestId s = None
        \<and> (prompt s = js ''>>> '' \<or> prompt s = js ''... '')
    | ProgramInput \<Rightarrow> host s \<noteq> None \<and> activeRun s \<noteq> None \<and> inputRequestId s \<noteq> None
        \<and> prompt s = [])"

definition run_data_ok :: "run \<Rightarrow> bool" where
  "run_data_ok r \<longleftrightarrow> pred_option safeIdentifier (entryId r)
     \<and> pred_option (\<lambda>s. length s \<le> maxCommandCodeUnits) (entrypoint r)
     \<and> pred_option safeIdentifier (testId r)"

definition data_ok :: "internal_state \<Rightarrow> bool" where
  "data_ok s \<longleftrightarrow> 1 \<le> generation s \<and> length (transcript s) \<le> maxTranscriptCodeUnits
     \<and> length (inputValue s) \<le> maxInputCodeUnits \<and> inputCursor s \<le> length (inputValue s)
     \<and> pred_option safeActor (inputOwner s) \<and> pred_option safeActor (host s)
     \<and> pred_option run_data_ok (activeRun s) \<and> pred_option safeIdentifier (inputRequestId s)
     \<and> pred_option test_result_wf (lastTest s)"

text \<open>The run carries an identifier this machine issued.\<close>

definition issued_run :: "jstr \<Rightarrow> nat \<Rightarrow> nat \<Rightarrow> run \<Rightarrow> bool" where
  "issued_run epoch g n r \<longleftrightarrow> (\<exists>g' n'. runId r = run_id_text epoch g' n' \<and> g' \<le> g \<and> n' < n)"

definition core_ok :: "machine \<Rightarrow> bool" where
  "core_ok m \<longleftrightarrow> control_ok (state m) \<and> data_ok (state m)
     \<and> safeIdentifier (runEpoch m) \<and> length (runEpoch m) \<le> 36
     \<and> pred_option (issued_run (runEpoch m) (generation (state m)) (nextRun m)) (activeRun (state m))"

lemma issued_run_mono:
  "issued_run epoch g n r \<Longrightarrow> g \<le> g' \<Longrightarrow> n \<le> n' \<Longrightarrow> issued_run epoch g' n' r"
  unfolding issued_run_def by (meson le_trans order_less_le_trans)

lemma issued_run_fresh [simp]:
  "runId r = run_id_text epoch g n \<Longrightarrow> g \<le> g' \<Longrightarrow> n < n' \<Longrightarrow> issued_run epoch g' n' r"
  unfolding issued_run_def by blast

text \<open>The transcript operations a handler adds replay its change of the transcript.\<close>

definition replays :: "delta_op list \<Rightarrow> jstr \<Rightarrow> jstr \<Rightarrow> bool" where
  "replays ops t t' \<longleftrightarrow> list_all operation_wf ops
     \<and> (\<forall>s. s_transcript s = t \<longrightarrow> apply_operations ops s = Some (s\<lparr> s_transcript := t' \<rparr>))"

lemma replays_Nil [simp]: "replays [] t t"
  by (simp add: replays_def)

lemma replays_one:
  "length t \<le> maxTranscriptCodeUnits \<Longrightarrow> length v \<le> maxOutputChunkCodeUnits
     \<Longrightarrow> replays [append_op v t] t (appended v t)"
  using apply_append_op by (auto simp: replays_def append_op_wf)

lemma replays_two:
  assumes "length t \<le> maxTranscriptCodeUnits" "length v \<le> maxOutputChunkCodeUnits"
    and "length w \<le> maxOutputChunkCodeUnits"
  shows "replays [append_op v t, append_op w (appended v t)] t (appended w (appended v t))"
proof -
  have "apply_operation (append_op w (appended v t)) (s\<lparr> s_transcript := appended v t \<rparr>)
      = Some (s\<lparr> s_transcript := appended w (appended v t) \<rparr>)" for s :: terminal_state
    using apply_append_op [of "s\<lparr> s_transcript := appended v t \<rparr>" w] by (simp add: length_appended)
  then show ?thesis
    using assms apply_append_op by (auto simp: replays_def append_op_wf length_appended)
qed

definition same_memory :: "machine \<Rightarrow> machine \<Rightarrow> bool" where
  "same_memory m m' \<longleftrightarrow> runEpoch m' = runEpoch m \<and> remembered m' = remembered m
     \<and> rememberedQueue m' = rememberedQueue m \<and> seq (state m') = seq (state m)"

definition counters_step :: "bool \<Rightarrow> machine \<Rightarrow> machine \<Rightarrow> bool" where
  "counters_step ch m m' \<longleftrightarrow> generation (state m) \<le> generation (state m')
     \<and> nextRun m \<le> nextRun m'
     \<and> generation (state m') \<le> generation (state m) + of_bool ch
     \<and> nextRun m' \<le> nextRun m + of_bool ch"

text \<open>An effect is addressed to the current host and names the current run.\<close>

definition effect_addressed :: "effect \<Rightarrow> machine \<Rightarrow> bool" where
  "effect_addressed e m \<longleftrightarrow> map_option socketId (host (state m)) = Some (targetSocketId e)
     \<and> map_option runId (activeRun (state m)) = Some (effect_runId e)"

fun effect_data_ok :: "effect \<Rightarrow> bool" where
  "effect_data_ok (ExecuteLineEffect t r l p) = (length l \<le> maxCommandCodeUnits)"
| "effect_data_ok (StartRunEffect t r e ep te) = (safeIdentifier e
     \<and> length ep \<le> maxCommandCodeUnits \<and> pred_option safeIdentifier te)"
| "effect_data_ok (InterruptEffect t r p) = True"
| "effect_data_ok (EofEffect t r) = True"
| "effect_data_ok (SubmitInputEffect t r q v) = (safeIdentifier q \<and> length v \<le> maxInputCodeUnits)"

definition logged :: "machine \<Rightarrow> machine \<Rightarrow> bool" where
  "logged m m' \<longleftrightarrow> generation (state m') = generation (state m) \<longrightarrow>
     (\<exists>ops. transcriptOperations m' = transcriptOperations m @ ops \<and> length ops \<le> 2
        \<and> replays ops (transcript (state m)) (transcript (state m')))"

definition handled :: "machine \<Rightarrow> machine \<times> outcome \<Rightarrow> bool" where
  "handled m r \<longleftrightarrow> (let (m', out) = r in
     core_ok m' \<and> same_memory m m' \<and> counters_step (changed out) m m'
     \<and> (\<not> changed out \<longrightarrow> m' = m) \<and> (o_error out \<noteq> None \<longrightarrow> \<not> changed out)
     \<and> (\<forall>e. o_effect out = Some e \<longrightarrow> changed out \<and> effect_addressed e m' \<and> effect_data_ok e) \<and> logged m m')"

lemma handled_still:
  "core_ok m \<Longrightarrow> handled m (m, unchanged_outcome err)"
  by (simp add: handled_def unchanged_outcome_def same_memory_def counters_step_def logged_def)

lemma handledI:
  assumes "core_ok m'" "same_memory m m'" "counters_step True m m'"
    and "\<And>e. eff = Some e \<Longrightarrow> effect_addressed e m' \<and> effect_data_ok e" and "logged m m'"
  shows "handled m (m', changed_outcome eff)"
  using assms by (simp add: handled_def changed_outcome_def)

lemma loggedI:
  "transcriptOperations m' = transcriptOperations m @ ops \<Longrightarrow> length ops \<le> 2
     \<Longrightarrow> replays ops (transcript (state m)) (transcript (state m')) \<Longrightarrow> logged m m'"
  by (auto simp: logged_def)

lemma length_safeInput: "length (safeInput v) \<le> maxInputCodeUnits"
  by (simp add: safeInput_def)

lemma length_strip_ansi: "length (strip_ansi s) \<le> length s"
proof (induction s rule: strip_ansi.induct)
  case (2 c s)
  then show ?case
    by (auto split: option.splits intro: le_SucI order_trans)
qed simp

lemma length_normalize_newlines: "length (normalize_newlines s) \<le> length s"
  by (induction s rule: normalize_newlines.induct) auto

lemma length_sanitize: "length (sanitizeSharedTerminalOutput v) \<le> maxOutputChunkCodeUnits"
proof -
  have "length (sanitizeSharedTerminalOutput v)
      \<le> length (normalize_newlines (strip_ansi (take maxOutputChunkCodeUnits v)))"
    by (simp add: sanitizeSharedTerminalOutput_def)
  also have "\<dots> \<le> length (strip_ansi (take maxOutputChunkCodeUnits v))"
    by (rule length_normalize_newlines)
  also have "\<dots> \<le> length (take maxOutputChunkCodeUnits v)"
    by (rule length_strip_ansi)
  finally show ?thesis by simp
qed

end
