(* ===== verification/Terminal_Handlers.thy ===== *)
theory Terminal_Handlers
  imports Terminal_Invariant
begin

text \<open>
  Every handler of the shared terminal keeps the invariant, one lemma per handler, and so does
  the dispatch of an action body.
\<close>

lemmas core_defs = core_ok_def control_ok_def data_ok_def run_data_ok_def

lemmas frame_defs = same_memory_def counters_step_def update_state_def

lemma claim_handled: "core_ok m \<Longrightarrow> safeActor a \<Longrightarrow> handled m (claim a m)"
  unfolding claim_def
  by (auto intro!: handled_still handledI loggedI [where ops = "[]"]
        simp: core_defs frame_defs split: terminal_mode.splits)

lemma release_handled: "core_ok m \<Longrightarrow> handled m (release a m)"
  unfolding release_def
  by (auto intro!: handled_still handledI loggedI [where ops = "[]"]
        simp: core_defs frame_defs split: terminal_mode.splits)

lemma clamp_cursor_le: "clamp_cursor v c \<le> length v"
  by (simp add: clamp_cursor_def)

lemma editInput_handled: "core_ok m \<Longrightarrow> safeActor a \<Longrightarrow> handled m (editInput a v c m)"
  unfolding editInput_def
  by (auto intro!: handled_still handledI loggedI [where ops = "[]"]
        simp: core_defs frame_defs Let_def length_safeInput clamp_cursor_le
        split: terminal_mode.splits option.splits)

lemmas mutation_defs = frame_defs clearInput_def append_text_eq createRunId_def bare_run_def
  effect_addressed_def Let_def

lemma mode_prompt_short:
  "control_ok s \<Longrightarrow> length (prompt s) \<le> 4"
  by (auto simp: control_ok_def split: terminal_mode.splits)

lemma input_line_short:
  "control_ok s \<Longrightarrow> length (prompt s @ safeInput v @ [0x0a]) \<le> maxOutputChunkCodeUnits"
  using mode_prompt_short [of s] length_safeInput [of v]
  by (simp add: terminal_limits)

lemma length_safeInput_command: "length (safeInput v) \<le> maxCommandCodeUnits"
  using length_safeInput [of v] by (simp add: terminal_limits)

lemma replays_input_line:
  assumes "core_ok m"
  shows "replays [append_op (prompt (state m) @ safeInput v @ [0x0a]) (transcript (state m))]
    (transcript (state m)) (appended (prompt (state m) @ safeInput v @ [0x0a]) (transcript (state m)))"
    and "replays [append_op (safeInput v @ [0x0a]) (transcript (state m))]
    (transcript (state m)) (appended (safeInput v @ [0x0a]) (transcript (state m)))"
  using assms input_line_short [of "state m" v] length_safeInput [of v]
  by (auto intro!: replays_one simp: core_ok_def data_ok_def terminal_limits)

lemma clear_handled:
  assumes "core_ok m" "mode (state m) = Shell"
  shows "handled m
    (clearInput ((update_state (\<lambda>s. s\<lparr> generation := generation s + 1, transcript := [] \<rparr>) m)
       \<lparr> transcriptOperations := transcriptOperations m @ [TranscriptReplace []] \<rparr>),
     changed_outcome None)"
  using assms
  by (intro handledI) (auto simp: core_defs mutation_defs logged_def)

lemma blank_line_handled:
  assumes "core_ok m" "mode (state m) = Shell"
  shows "handled m (clearInput (append_text (prompt (state m) @ safeInput v @ [0x0a]) m),
    changed_outcome None)"
  using assms replays_input_line(1) [OF assms(1), of v]
  by (intro handledI)
     (auto simp: core_defs mutation_defs length_appended intro!: loggedI)

lemma program_input_handled:
  assumes "core_ok m" "mode (state m) = ProgramInput"
  shows "handled m (submit_program_input (safeInput v)
    (clearInput (append_text (safeInput v @ [0x0a]) m)))"
  using assms replays_input_line(2) [OF assms(1), of v]
  unfolding submit_program_input_def
  by (auto intro!: handledI loggedI simp: core_defs mutation_defs length_appended length_safeInput
        split: option.splits)

lemma execute_line_handled:
  assumes "core_ok m" "safeActor h" "mode (state m) = Shell \<or> mode (state m) = Python"
  shows "handled m (execute_line h py (safeInput v)
    (clearInput (append_text (prompt (state m) @ safeInput v @ [0x0a]) m)))"
  using assms replays_input_line(1) [OF assms(1), of v]
  unfolding execute_line_def
  by (auto intro!: handledI loggedI
        simp: core_defs mutation_defs length_appended length_safeInput_command)

lemma submitLine_handled:
  assumes "core_ok m" "safeActor a"
  shows "handled m (submitLine a v m)"
proof -
  from assms(1) have host: "mode (state m) = Python \<Longrightarrow> \<exists>h. host (state m) = Some h \<and> safeActor h"
    by (auto simp: core_defs)
  have keep: "host (state (clearInput (append_text w m))) = host (state m)" for w
    by (simp add: mutation_defs)
  show ?thesis
    unfolding submitLine_def
    using assms clear_handled [of m] blank_line_handled [of m v] program_input_handled [of m v]
      execute_line_handled [of m a False v] host execute_line_handled [of m _ True v]
    by (cases "mode (state m)")
       (auto simp: Let_def keep intro: handled_still)
qed

lemma startRun_handled:
  assumes "core_ok m" "safeActor a"
  shows "handled m (startRun a e p t m)"
proof (cases "mode (state m) = Shell \<and> length p \<le> maxCommandCodeUnits")
  case True
  with assms(1) have "length (prompt (state m) @ js ''py '' @ p @ [0x0a]) \<le> maxOutputChunkCodeUnits"
    using mode_prompt_short [of "state m"] by (simp add: core_ok_def terminal_limits)
  with assms(1) have "replays [append_op (prompt (state m) @ js ''py '' @ p @ [0x0a]) (transcript (state m))]
      (transcript (state m)) (appended (prompt (state m) @ js ''py '' @ p @ [0x0a]) (transcript (state m)))"
    by (intro replays_one) (auto simp: core_defs)
  with assms True show ?thesis
    unfolding startRun_def
    by (auto intro!: handled_still handledI loggedI
          simp: core_defs mutation_defs length_appended split: option.splits)
next
  case False
  with assms show ?thesis
    unfolding startRun_def by (auto intro: handled_still)
qed

lemma replays_keyboard_interrupt:
  "length t \<le> maxTranscriptCodeUnits \<Longrightarrow>
     replays [append_op keyboard_interrupt_text t] t (appended keyboard_interrupt_text t)"
  by (rule replays_one) (simp_all add: keyboard_interrupt_text_def terminal_limits)

lemma interrupt_repl_handled:
  assumes "core_ok m" "mode (state m) = Python" "host (state m) = Some h"
  shows "handled m (interrupt_repl h m)"
  using assms replays_keyboard_interrupt [of "transcript (state m)"]
  unfolding interrupt_repl_def
  by (auto intro!: handledI loggedI simp: core_defs mutation_defs length_appended)

lemma eof_repl_handled:
  assumes "core_ok m" "mode (state m) = Python" "host (state m) = Some h"
  shows "handled m (eof_repl h m)"
  using assms unfolding eof_repl_def
  by (auto intro!: handledI loggedI [where ops = "[]"] simp: core_defs mutation_defs)

lemma signal_run_handled:
  assumes "core_ok m" "mode (state m) = Busy \<or> mode (state m) = ProgramInput"
    and "host (state m) = Some h" "activeRun (state m) = Some r"
  shows "handled m (signal_run k h r m)"
  using assms replays_keyboard_interrupt [of "transcript (state m)"]
  unfolding signal_run_def
  by (auto intro!: handledI loggedI simp: core_defs mutation_defs length_appended)

lemma signal_handled:
  assumes "core_ok m"
  shows "handled m (signal k m)"
proof (cases "mode (state m) = Python")
  case True
  with assms obtain h where "host (state m) = Some h" by (auto simp: core_defs)
  with True assms show ?thesis
    by (cases k) (simp_all add: signal_def interrupt_repl_handled eof_repl_handled)
next
  case False
  with assms show ?thesis
    unfolding signal_def
    by (cases "mode (state m)")
       (auto intro: handled_still signal_run_handled split: option.splits signal_kind.splits)
qed

lemma hostOutput_handled:
  assumes "core_ok m"
  shows "handled m (hostOutput a rid raw m)"
proof -
  have "replays [append_op (sanitizeSharedTerminalOutput raw) (transcript (state m))]
      (transcript (state m)) (appended (sanitizeSharedTerminalOutput raw) (transcript (state m)))"
    using assms by (intro replays_one length_sanitize) (simp add: core_defs)
  with assms show ?thesis
    unfolding hostOutput_def
    by (auto intro!: handled_still handledI loggedI simp: core_defs mutation_defs length_appended
          split: terminal_mode.splits)
qed

lemma isCurrentHost_cases:
  "isCurrentHost a rid m \<Longrightarrow> core_ok m \<Longrightarrow>
     \<exists>h r. host (state m) = Some h \<and> activeRun (state m) = Some r \<and> runId r = rid
       \<and> (mode (state m) = Busy \<or> mode (state m) = ProgramInput)"
  by (cases "mode (state m)") (auto simp: isCurrentHost_def core_defs)

lemma hostInputRequest_handled:
  assumes "core_ok m"
  shows "handled m (hostInputRequest a rid req m)"
  using assms unfolding hostInputRequest_def
  by (auto intro!: handled_still handledI loggedI [where ops = "[]"] simp: core_defs mutation_defs)

lemma replays_newline:
  "length t \<le> maxTranscriptCodeUnits \<Longrightarrow> replays [append_op [0x0a] t] t (appended [0x0a] t)"
  by (rule replays_one) (simp_all add: terminal_limits)

lemma hostReady_handled:
  assumes "core_ok m"
  shows "handled m (hostReady a rid next pr res m)"
proof (cases "isCurrentHost a rid m")
  case True
  then obtain h r where hr: "host (state m) = Some h" "activeRun (state m) = Some r"
    using isCurrentHost_cases [OF True assms] by blast
  have nl: "replays [append_op [0x0a] (transcript (state m))] (transcript (state m))
      (appended [0x0a] (transcript (state m)))"
    using assms by (intro replays_newline) (simp add: core_defs)
  have prompts: "(case pr of None \<Rightarrow> js ''>>> '' | Some q \<Rightarrow> repl_prompt_text q) = js ''>>> ''
      \<or> (case pr of None \<Rightarrow> js ''>>> '' | Some q \<Rightarrow> repl_prompt_text q) = js ''... ''"
    by (cases "the pr") (auto split: option.splits)
  have tr: "pred_option test_result_wf res"
    if "\<not> (case res of None \<Rightarrow> False
               | Some t \<Rightarrow> Some (tr_testId t) \<noteq> Option.bind (activeRun (state m)) testId)"
    using that assms hr
    by (cases "testId r") (auto simp: core_defs test_result_wf_def split: option.splits)
  show ?thesis
    using assms True hr nl prompts tr unfolding hostReady_def
    by (auto intro!: handled_still handledI loggedI
          simp: core_defs mutation_defs finish_line_eq length_appended
          split: option.splits ready_mode.splits)
next
  case False
  with assms show ?thesis unfolding hostReady_def by (simp add: handled_still)
qed

text \<open>Ending in the shell after a line that is already terminated adds no further newline.\<close>

lemma toShell_eq:
  "toShell m =
    (let t = transcript (state m); fin = t \<noteq> [] \<and> \<not> ends_with_newline t in
     m\<lparr> state := (state m)\<lparr> transcript := (if fin then appended [0x0a] t else t), mode := Shell,
          prompt := js ''$ '', inputValue := [], inputCursor := 0, inputOwner := None, host := None,
          activeRun := None, activeRunPythonMode := False, inputRequestId := None \<rparr>,
        transcriptOperations := transcriptOperations m @ (if fin then [append_op [0x0a] t] else []) \<rparr>)"
  by (simp add: toShell_def finish_line_eq mutation_defs)

lemma toShell_core:
  "core_ok m \<Longrightarrow> core_ok (toShell m)"
  by (auto simp: core_defs toShell_eq Let_def length_appended)

lemma toShell_after_line:
  assumes "v \<noteq> []" "last v = 0x0a"
  shows "transcriptOperations (toShell (append_text v m))
      = transcriptOperations m @ [append_op v (transcript (state m))]"
    and "transcript (state (toShell (append_text v m))) = appended v (transcript (state m))"
  using ends_with_newline_appended [OF assms, of "transcript (state m)"]
  by (simp_all add: toShell_eq append_text_eq Let_def)

definition terminated_line :: "jstr \<Rightarrow> jstr" where
  "terminated_line msg = msg @ (if ends_with_newline msg then [] else [0x0a])"

lemma last_terminated_line: "terminated_line msg \<noteq> [] \<and> last (terminated_line msg) = 0x0a"
  by (auto simp: terminated_line_def ends_with_newline_def)

lemma core_append_text: "core_ok m \<Longrightarrow> core_ok (append_text v m)"
  by (auto simp: core_defs append_text_eq length_appended split: terminal_mode.splits)

lemma hostFailed_handled:
  assumes "core_ok m"
  shows "handled m (hostFailed a rid raw m)"
proof (cases "isCurrentHost a rid m")
  case True
  define msg where "msg = take 2048 (sanitizeSharedTerminalOutput raw)"
  have len: "length (transcript (state m)) \<le> maxTranscriptCodeUnits"
    using assms by (simp add: core_defs)
  have "length (terminated_line msg) \<le> maxOutputChunkCodeUnits"
    by (auto simp: terminated_line_def msg_def terminal_limits)
  with len have line: "replays [append_op (terminated_line msg) (transcript (state m))]
      (transcript (state m)) (appended (terminated_line msg) (transcript (state m)))"
    by (rule replays_one)
  have result: "hostFailed a rid raw m =
      (toShell (if msg = [] then m else append_text (terminated_line msg) m), changed_outcome None)"
    using True by (simp add: hostFailed_def msg_def terminated_line_def Let_def)
  have core: "core_ok (toShell (if msg = [] then m else append_text (terminated_line msg) m))"
    using assms by (simp add: toShell_core core_append_text)
  have "logged m (toShell (if msg = [] then m else append_text (terminated_line msg) m))"
  proof (cases "msg = []")
    case True
    show ?thesis
      using replays_newline [OF len] True
      by (intro loggedI [where ops = "if transcript (state m) \<noteq> []
            \<and> \<not> ends_with_newline (transcript (state m))
            then [append_op [0x0a] (transcript (state m))] else []"])
         (simp_all add: toShell_eq Let_def)
  next
    case False
    then show ?thesis
      using line toShell_after_line [of "terminated_line msg" m] last_terminated_line [of msg]
      by (auto intro!: loggedI)
  qed
  with core show ?thesis
    unfolding result
    by (intro handledI) (auto simp: toShell_eq mutation_defs)
next
  case False
  with assms show ?thesis unfolding hostFailed_def by (simp add: handled_still)
qed

lemma apply_body_handled:
  assumes "core_ok m" "safeActor a"
  shows "handled m (apply_body a b m)"
  using assms
  by (cases b)
     (simp_all add: handled_still claim_handled release_handled editInput_handled submitLine_handled
        startRun_handled signal_handled hostOutput_handled hostInputRequest_handled
        hostReady_handled hostFailed_handled)

end
