(* ===== verification/Terminal_Safety.thy ===== *)
theory Terminal_Safety
  imports Terminal_Handlers
begin

text \<open>
  The shared terminal as a whole: the invariant of every reachable machine, lifted from the
  handlers through dispatch, disconnection and profile updates, and the properties that follow
  from it: errors change nothing, effects go to the current host, retries are idempotent.
\<close>

section \<open>The memory of handled actions\<close>

definition memory_ok :: "machine \<Rightarrow> bool" where
  "memory_ok m \<longleftrightarrow> dom (remembered m) = set (rememberedQueue m) \<and> distinct (rememberedQueue m)
     \<and> length (rememberedQueue m) \<le> maxRememberedActions \<and> [] \<notin> set (rememberedQueue m)"

lemma evict_short: "length qs \<le> maxRememberedActions \<Longrightarrow> evict qs mem = (qs, mem)"
  by (cases qs) auto

lemma remember_eq:
  assumes "memory_ok m" "key \<noteq> []"
  shows "remember key fp m =
    (if length (rememberedQueue m) < maxRememberedActions
     then m\<lparr> remembered := (remembered m)(key \<mapsto> fp), rememberedQueue := rememberedQueue m @ [key] \<rparr>
     else m\<lparr> remembered := ((remembered m)(key \<mapsto> fp))(hd (rememberedQueue m) := None),
            rememberedQueue := tl (rememberedQueue m) @ [key] \<rparr>)"
proof (cases "length (rememberedQueue m) < maxRememberedActions")
  case True
  then show ?thesis by (simp add: remember_def evict_short)
next
  case False
  with assms(1) have len: "length (rememberedQueue m) = maxRememberedActions"
    by (simp add: memory_ok_def)
  then obtain q qs where q: "rememberedQueue m = q # qs"
    by (cases "rememberedQueue m") (auto simp: maxRememberedActions_def)
  with assms(1) len have "q \<noteq> []" "length (qs @ [key]) \<le> maxRememberedActions"
    by (auto simp: memory_ok_def)
  with q len show ?thesis
    by (simp add: remember_def evict_short)
qed

lemma remember_frame [simp]:
  "state (remember key fp m) = state m" "nextRun (remember key fp m) = nextRun m"
  "runEpoch (remember key fp m) = runEpoch m"
  "transcriptOperations (remember key fp m) = transcriptOperations m"
  by (simp_all add: remember_def case_prod_beta)

lemma remember_memory_ok:
  assumes m: "memory_ok m" and key: "remembered m key = None" "key \<noteq> []"
  shows "memory_ok (remember key fp m)"
proof -
  from key(1) m have fresh: "key \<notin> set (rememberedQueue m)"
    by (auto simp: memory_ok_def)
  show ?thesis
  proof (cases "length (rememberedQueue m) < maxRememberedActions")
    case True
    with m key fresh show ?thesis
      by (auto simp: remember_eq memory_ok_def)
  next
    case False
    with m obtain q qs where "rememberedQueue m = q # qs"
      by (cases "rememberedQueue m") (auto simp: memory_ok_def maxRememberedActions_def)
    with False m key fresh show ?thesis
      by (auto simp: remember_eq memory_ok_def)
  qed
qed

lemma remembered_remember:
  assumes "memory_ok m" "remembered m key = None" "key \<noteq> []"
  shows "remembered (remember key fp m) key = Some fp"
proof -
  from assms have "key \<notin> set (rememberedQueue m)" by (auto simp: memory_ok_def)
  then have "rememberedQueue m = [] \<or> hd (rememberedQueue m) \<noteq> key"
    by (cases "rememberedQueue m") auto
  with assms(1,3) show ?thesis
    by (auto simp: remember_eq maxRememberedActions_def memory_ok_def)
qed

section \<open>The machine invariant\<close>

definition machine_ok :: "machine \<Rightarrow> bool" where
  "machine_ok m \<longleftrightarrow> core_ok m \<and> memory_ok m
     \<and> generation (state m) \<le> seq (state m) + 1 \<and> nextRun m \<le> seq (state m) + 1"

lemma new_machine_ok: "safeIdentifier epoch \<Longrightarrow> length epoch \<le> 36 \<Longrightarrow> machine_ok (new_machine epoch)"
  by (simp add: machine_ok_def core_defs memory_ok_def new_machine_def initial_transcript_def
        terminal_limits)

lemma core_ok_cong:
  "state m' = state m \<Longrightarrow> runEpoch m' = runEpoch m \<Longrightarrow> nextRun m' = nextRun m \<Longrightarrow> core_ok m' = core_ok m"
  by (simp add: core_ok_def)

lemma packageResult_fst:
  "fst (packageResult aid before out m)
     = (if changed out then update_state (\<lambda>s. s\<lparr> seq := seq s + 1 \<rparr>) m else m)"
  by (simp add: packageResult_def Let_def)

lemma core_ok_seq: "core_ok (update_state (\<lambda>s. s\<lparr> seq := n s \<rparr>) m) = core_ok m"
  by (cases "mode (state m)") (simp_all add: core_defs update_state_def)

text \<open>A handled outcome, packaged, keeps the invariant.\<close>

lemma package_handled:
  assumes h: "handled m (m', out)" and m: "memory_ok m"
    and g: "generation (state m) \<le> seq (state m) + 1" and n: "nextRun m \<le> seq (state m) + 1"
  shows "machine_ok (fst (packageResult aid before out m'))"
proof -
  from h m have core: "core_ok m'" and mem: "memory_ok m'"
    and cs: "counters_step (changed out) m m'" and sq: "seq (state m') = seq (state m)"
    by (auto simp: handled_def same_memory_def memory_ok_def)
  have "memory_ok (update_state f m') = memory_ok m'" for f
    by (simp add: memory_ok_def update_state_def)
  with core mem cs sq g n show ?thesis
    by (auto simp: machine_ok_def packageResult_fst core_ok_seq counters_step_def)
       (auto simp: update_state_def)
qed

section \<open>Dispatch, disconnection, profile updates\<close>

lemma safeIdentifier_nonempty: "safeIdentifier s \<Longrightarrow> s \<noteq> []"
  by (auto simp: safeIdentifier_def)

text \<open>The three ways a dispatch can go: refused, answered from memory, or handled.\<close>

lemma dispatch_refused:
  "\<not> safeActor a \<or> \<not> safeIdentifier (actionId act) \<Longrightarrow>
     dispatch digest a act m =
       packageResult (actionId act) (snapshot m) (unchanged_outcome (Some ErrInvalidAction)) m"
  by (simp add: dispatch_def)

definition prepared :: "(jstr \<Rightarrow> jstr) \<Rightarrow> action \<Rightarrow> machine \<Rightarrow> machine" where
  "prepared digest act m =
     (remember (actionId act) (sharedTerminalActionFingerprint digest act) m)
       \<lparr> transcriptOperations := [] \<rparr>"

lemma dispatch_fresh:
  assumes "safeActor a" "safeIdentifier (actionId act)" "remembered m (actionId act) = None"
    and "body act \<noteq> Sync"
  shows "dispatch digest a act m =
    packageResult (actionId act) (snapshot m)
      (snd (apply_body a (body act) (prepared digest act m)))
      (fst (apply_body a (body act) (prepared digest act m)))"
  using assms
  by (simp add: dispatch_def prepared_def snapshot_def Let_def case_prod_beta)

lemma prepared_ok:
  assumes "machine_ok m" "safeIdentifier (actionId act)" "remembered m (actionId act) = None"
  shows "core_ok (prepared digest act m)" "memory_ok (prepared digest act m)"
    and "state (prepared digest act m) = state m" "nextRun (prepared digest act m) = nextRun m"
    and "transcriptOperations (prepared digest act m) = []"
  using assms remember_memory_ok [of m "actionId act"]
  by (auto simp: machine_ok_def prepared_def safeIdentifier_nonempty memory_ok_def
        cong: core_ok_cong)

lemma prepared_handled:
  assumes "machine_ok m" "safeActor a" "safeIdentifier (actionId act)"
    and "remembered m (actionId act) = None"
  shows "handled (prepared digest act m) (apply_body a (body act) (prepared digest act m))"
  using assms by (intro apply_body_handled prepared_ok(1))

section \<open>What one step does\<close>

text \<open>
  The relation between the machine before a step, the machine after it and the published
  result: the sequence number counts the changes, an unchanged step publishes nothing and keeps
  the snapshot, an error changes nothing, a delta carries operations that replay the change of
  the transcript, a new generation is published as a snapshot.
\<close>

definition transition :: "machine \<Rightarrow> machine \<times> dispatch_result \<Rightarrow> bool" where
  "transition m p \<longleftrightarrow> (let (m', r) = p in
     r_state r = snapshot m'
     \<and> s_seq (snapshot m') = s_seq (snapshot m) + of_bool (r_changed r)
     \<and> s_generation (snapshot m) \<le> s_generation (snapshot m')
     \<and> (\<not> r_changed r \<longrightarrow> snapshot m' = snapshot m \<and> r_delta r = None \<and> r_effect r = None
          \<and> (r_snapshot r = None \<or> r_snapshot r = Some (snapshot m')))
     \<and> (r_error r \<noteq> None \<longrightarrow> \<not> r_changed r)
     \<and> (\<forall>e. r_effect r = Some e \<longrightarrow> effect_addressed e m' \<and> effect_data_ok e)
     \<and> (r_changed r \<longrightarrow>
          (if s_generation (snapshot m') = s_generation (snapshot m)
           then r_snapshot r = None
             \<and> (\<exists>ops. r_delta r = Some (buildDelta (snapshot m) (snapshot m') ops) \<and> length ops \<le> 2
                  \<and> replays ops (s_transcript (snapshot m)) (s_transcript (snapshot m')))
           else r_delta r = None \<and> r_snapshot r = Some (snapshot m')))
     \<and> a_generation (r_ack r) = s_generation (snapshot m') \<and> a_seq (r_ack r) = s_seq (snapshot m')
     \<and> a_error (r_ack r) = r_error r
     \<and> (a_status (r_ack r) = Rejected \<longleftrightarrow> r_error r \<noteq> None))"

lemma snapshot_fields [simp]:
  "s_seq (snapshot m) = seq (state m)" "s_generation (snapshot m) = generation (state m)"
  "s_transcript (snapshot m) = transcript (state m)"
  by (simp_all add: snapshot_def publicState_def)

lemma package_transition:
  assumes h: "handled m (m', out)" and empty: "transcriptOperations m = []"
  shows "transition m (packageResult aid (snapshot m) out m')"
proof -
  from h empty obtain ops where
    "changed out \<Longrightarrow> generation (state m') = generation (state m) \<Longrightarrow>
       transcriptOperations m' = ops \<and> length ops \<le> 2
       \<and> replays ops (transcript (state m)) (transcript (state m'))"
    by (auto simp: handled_def logged_def)
  with h show ?thesis
    by (auto simp: transition_def packageResult_def Let_def handled_def same_memory_def
          counters_step_def createSharedTerminalAck_def update_state_def snapshot_def publicState_def
          unchanged_outcome_def effect_addressed_def)
qed

lemma still_transition:
  assumes "snapshot m' = snapshot m" "snap = None \<or> snap = Some (snapshot m')"
    and "status = Rejected \<longleftrightarrow> err \<noteq> None"
  shows "transition m (m', still_result (snapshot m')
    (createSharedTerminalAck aid (snapshot m') status err) snap err)"
proof -
  from assms(1) have "seq (state m') = seq (state m)" "generation (state m') = generation (state m)"
    using snapshot_fields(1,2) by metis+
  with assms show ?thesis
    by (auto simp: transition_def still_result_def createSharedTerminalAck_def)
qed

lemma refused_transition:
  "snapshot m' = snapshot m \<Longrightarrow>
     transition m (packageResult aid (snapshot m) (unchanged_outcome err) m')"
  using snapshot_fields(1,2) [of m] snapshot_fields(1,2) [of m']
  by (simp add: transition_def packageResult_def Let_def unchanged_outcome_def
        createSharedTerminalAck_def del: snapshot_fields)

lemma transition_cong:
  "snapshot m = snapshot n \<Longrightarrow> transition m p = transition n p"
  by (simp add: transition_def)

lemma dispatch_ok:
  assumes ok: "machine_ok m"
  shows "machine_ok (fst (dispatch digest a act m)) \<and> transition m (dispatch digest a act m)"
proof (cases "safeActor a \<and> safeIdentifier (actionId act)")
  case False
  have "transition m (packageResult (actionId act) (snapshot m)
      (unchanged_outcome (Some ErrInvalidAction)) m)"
    by (rule refused_transition) simp
  moreover have "fst (packageResult (actionId act) (snapshot m)
      (unchanged_outcome (Some ErrInvalidAction)) m) = m"
    by (simp add: packageResult_fst unchanged_outcome_def)
  ultimately show ?thesis
    using False ok by (simp add: dispatch_refused)
next
  case safe: True
  show ?thesis
  proof (cases "remembered m (actionId act)")
    case (Some fp)
    with safe ok show ?thesis
      by (auto simp: dispatch_def Let_def intro!: still_transition)
  next
    case fresh: None
    from safe have nonempty: "actionId act \<noteq> []" by (simp add: safeIdentifier_nonempty)
    show ?thesis
    proof (cases "body act = Sync")
      case True
      from ok have "memory_ok m" by (simp add: machine_ok_def)
      from remember_memory_ok [OF this fresh nonempty] ok have
        "machine_ok (remember (actionId act) (sharedTerminalActionFingerprint digest act) m)"
        by (simp add: machine_ok_def cong: core_ok_cong)
      moreover have "transition m (remember (actionId act) (sharedTerminalActionFingerprint digest act) m,
          still_result (snapshot m) (createSharedTerminalAck (actionId act) (snapshot m) Unchanged None)
            (Some (snapshot m)) None)"
        using still_transition [of "remember (actionId act) (sharedTerminalActionFingerprint digest act) m" m]
        by (simp add: snapshot_def)
      ultimately show ?thesis
        using True safe fresh by (simp add: dispatch_def Let_def snapshot_def)
    next
      case False
      define out where "out = apply_body a (body act) (prepared digest act m)"
      have h: "handled (prepared digest act m) (fst out, snd out)"
        unfolding out_def using prepared_handled [OF ok] safe fresh by simp
      from safe have ident: "safeIdentifier (actionId act)" by simp
      note prep = prepared_ok [OF ok ident fresh, of digest]
      from prep(3) have snap: "snapshot (prepared digest act m) = snapshot m"
        by (simp add: snapshot_def)
      have "machine_ok (fst (packageResult (actionId act) (snapshot m) (snd out) (fst out)))"
        using ok prep by (intro package_handled [OF h]) (auto simp: machine_ok_def)
      moreover have "transition m (packageResult (actionId act) (snapshot m) (snd out) (fst out))"
        using package_transition [OF h prep(5)] by (simp add: snap transition_cong [OF snap])
      ultimately show ?thesis
        using safe fresh False by (simp add: dispatch_fresh out_def)
    qed
  qed
qed

lemma cleared_log_ok:
  "machine_ok m \<Longrightarrow> machine_ok (m\<lparr> transcriptOperations := [] \<rparr>)"
  by (simp add: machine_ok_def memory_ok_def cong: core_ok_cong)

text \<open>Packaging a handled outcome of the machine with an emptied log.\<close>

lemma cleared_package:
  assumes ok: "machine_ok m"
    and h: "handled (m\<lparr> transcriptOperations := [] \<rparr>) (m', out)"
  shows "machine_ok (fst (packageResult aid (snapshot m) out m'))
    \<and> transition m (packageResult aid (snapshot m) out m')"
proof -
  have snap: "snapshot (m\<lparr> transcriptOperations := [] \<rparr>) = snapshot m"
    by (simp add: snapshot_def)
  have "machine_ok (fst (packageResult aid (snapshot m) out m'))"
    using ok by (intro package_handled [OF h]) (auto simp: machine_ok_def memory_ok_def)
  moreover have "transition m (packageResult aid (snapshot m) out m')"
    using package_transition [OF h] by (simp add: snap transition_cong [OF snap])
  ultimately show ?thesis by simp
qed

lemma length_disconnect_notice: "length disconnect_notice \<le> maxOutputChunkCodeUnits"
  by (simp add: disconnect_notice_def terminal_limits)

lemma disconnect_notice_line: "disconnect_notice \<noteq> []" "last disconnect_notice = 0x0a"
  by (simp_all add: disconnect_notice_def)

lemma host_leaves_handled:
  assumes "core_ok m"
  shows "handled m (toShell (append_text disconnect_notice m), changed_outcome None)"
proof -
  have "replays [append_op disconnect_notice (transcript (state m))] (transcript (state m))
      (appended disconnect_notice (transcript (state m)))"
    using assms by (intro replays_one length_disconnect_notice) (simp add: core_defs)
  then have "logged m (toShell (append_text disconnect_notice m))"
    using toShell_after_line [OF disconnect_notice_line, of m] by (intro loggedI) simp_all
  with assms show ?thesis
    by (intro handledI)
       (simp_all add: toShell_core core_append_text,
        simp_all add: toShell_eq append_text_eq same_memory_def counters_step_def Let_def)
qed

lemma handled_owner_left:
  assumes "core_ok m"
  shows "core_ok (update_state (\<lambda>s. s\<lparr> inputOwner := None \<rparr>) m)"
    and "handled m (update_state (\<lambda>s. s\<lparr> inputOwner := None \<rparr>) m, changed_outcome None)"
  using assms
  by (auto intro!: handledI loggedI [where ops = "[]"] simp: core_defs frame_defs
        split: terminal_mode.splits)

text \<open>A change of the input owner only, before a handled step, is part of that step.\<close>

lemma handled_after_owner:
  assumes "handled (update_state (\<lambda>s. s\<lparr> inputOwner := ow \<rparr>) m) (m', changed_outcome eff)"
  shows "handled m (m', changed_outcome eff)"
  using assms
  by (auto simp: handled_def changed_outcome_def same_memory_def counters_step_def logged_def
        update_state_def)

lemma disconnect_ok:
  assumes ok: "machine_ok m"
  shows "machine_ok (fst (disconnect sid m)) \<and> transition m (disconnect sid m)"
proof -
  define m1 where "m1 = m\<lparr> transcriptOperations := [] \<rparr>"
  have core: "core_ok m1"
    using cleared_log_ok [OF ok] by (simp add: m1_def machine_ok_def)
  define owns where "owns = (map_option socketId (inputOwner (state m1)) = Some sid)"
  define m2 where "m2 = (if owns then update_state (\<lambda>s. s\<lparr> inputOwner := None \<rparr>) m1 else m1)"
  define hosts where "hosts = (map_option socketId (host (state m2)) = Some sid)"
  have "core_ok m2" using core by (simp add: m2_def handled_owner_left)
  have "handled m1 (if hosts then toShell (append_text disconnect_notice m2) else m2,
      if owns \<or> hosts then changed_outcome None else unchanged_outcome None)"
    by (cases owns; cases hosts)
       (use core host_leaves_handled [OF \<open>core_ok m2\<close>] handled_owner_left(2) [OF core]
         handled_after_owner [of None m1] in \<open>simp_all add: m2_def handled_still\<close>)
  note packaged = cleared_package [OF ok this [unfolded m1_def], of "js ''disconnect''"]
  have "disconnect sid m = packageResult (js ''disconnect'') (snapshot m)
      (if owns \<or> hosts then changed_outcome None else unchanged_outcome None)
      (if hosts then toShell (append_text disconnect_notice m2) else m2)"
    unfolding disconnect_def Let_def m1_def owns_def m2_def hosts_def by (rule refl)
  with packaged show ?thesis by (simp only: )
qed

lemma stored_actor_handled:
  assumes "core_ok m" "safeActor a"
  shows "handled m (update_state (\<lambda>s. s\<lparr> inputOwner := Some a \<rparr>) m, changed_outcome None)"
    and "host (state m) \<noteq> None \<Longrightarrow>
      handled m (update_state (\<lambda>s. s\<lparr> host := Some a \<rparr>) m, changed_outcome None)"
    and "core_ok (update_state (\<lambda>s. s\<lparr> inputOwner := Some a \<rparr>) m)"
  using assms
  by (auto intro!: handledI loggedI [where ops = "[]"] simp: core_defs frame_defs
        split: terminal_mode.splits)

lemma updateActor_ok:
  assumes ok: "machine_ok m"
  shows "machine_ok (fst (updateActor a m)) \<and> transition m (updateActor a m)"
proof (cases "safeActor a")
  case False
  with ok cleared_log_ok [OF ok] show ?thesis
    by (simp add: updateActor_def Let_def packageResult_fst unchanged_outcome_def
          refused_transition [unfolded unchanged_outcome_def] snapshot_def
          refused_transition [unfolded unchanged_outcome_def snapshot_def])
next
  case True
  define m1 where "m1 = m\<lparr> transcriptOperations := [] \<rparr>"
  have core: "core_ok m1"
    using cleared_log_ok [OF ok] by (simp add: m1_def machine_ok_def)
  define ow where "ow = stale_profile (inputOwner (state m1)) a"
  define m2 where "m2 = (if ow then update_state (\<lambda>s. s\<lparr> inputOwner := Some a \<rparr>) m1 else m1)"
  define ho where "ho = stale_profile (host (state m2)) a"
  have core2: "core_ok m2" using core True by (simp add: m2_def stored_actor_handled)
  have host: "ho \<Longrightarrow> host (state m2) \<noteq> None"
    by (auto simp: ho_def stale_profile_def split: option.splits)
  have "handled m1 (if ho then update_state (\<lambda>s. s\<lparr> host := Some a \<rparr>) m2 else m2,
      if ow \<or> ho then changed_outcome None else unchanged_outcome None)"
    by (cases ow; cases ho)
       (use core True stored_actor_handled(1) [OF core True] host
         stored_actor_handled(2) [OF core2 True] handled_after_owner [of "Some a" m1]
         in \<open>simp_all add: m2_def handled_still\<close>)
  note packaged = cleared_package [OF ok this [unfolded m1_def], of "js ''profile-update''"]
  have "updateActor a m = packageResult (js ''profile-update'') (snapshot m)
      (if ow \<or> ho then changed_outcome None else unchanged_outcome None)
      (if ho then update_state (\<lambda>s. s\<lparr> host := Some a \<rparr>) m2 else m2)"
    unfolding updateActor_def Let_def m1_def ow_def m2_def ho_def using True by simp
  with packaged show ?thesis by (simp only: )
qed

lemma step_ok:
  "machine_ok m \<Longrightarrow> machine_ok (fst (step digest e m)) \<and> transition m (step digest e m)"
  by (cases e) (simp_all add: dispatch_ok disconnect_ok updateActor_ok)

lemma reachable_ok: "reachable digest m \<Longrightarrow> machine_ok m"
  by (induction rule: reachable.induct) (simp_all add: new_machine_ok step_ok)

end
