(* ===== verification/Terminal_Client.thy ===== *)
theory Terminal_Client
  imports Terminal_Safety
begin

text \<open>
  A client of the shared terminal and the messages the server sends it: the terminal handlers
  of \<open>src/client/code/guestCodeProvider.ts\<close>, the deliveries of
  \<open>src/server/code-sync/terminalTransport.ts\<close>, and the refinement between the two: a delta
  takes the client from the snapshot before a step to the snapshot after it.
\<close>

section \<open>Snapshots of reachable machines are well formed\<close>

text \<open>Counters within the range the parsers accept.\<close>

definition in_counter_range :: "machine \<Rightarrow> bool" where
  "in_counter_range m \<longleftrightarrow> int (seq (state m)) < max_safe_integer"

lemma participant_of_safe_actor: "safeActor a \<Longrightarrow> participant_wf (participant a)"
  by (auto simp: safeActor_def participant_wf_def participant_def color_ok_lower)

lemma digits_ident: "list_all (in_range 0x30 0x39) s \<Longrightarrow> list_all ident_unit s"
  by (auto simp: list_all_iff ident_unit_def)

lemma run_id_text_identifier:
  assumes epoch: "safeIdentifier epoch" "length epoch \<le> 36"
    and g: "g < 10 ^ 16" and n: "n < 10 ^ 16"
  shows "safeIdentifier (run_id_text epoch g n)"
proof -
  have "length (nat_text g) \<le> 16" "length (nat_text n) \<le> 16"
    using length_nat_text [of g 15] length_nat_text [of n 15] g n by simp_all
  moreover have "list_all ident_unit (nat_text g)" "list_all ident_unit (nat_text n)"
    by (simp_all add: digits_ident nat_text_digits)
  ultimately show ?thesis
    using epoch by (auto simp: safeIdentifier_def run_id_text_def js_def ident_unit_def in_range_def
        maxIdentifierCodeUnits_def)
qed

lemma issued_run_identifier:
  assumes ok: "machine_ok m" and range: "in_counter_range m" and run: "activeRun (state m) = Some r"
  shows "safeIdentifier (runId r)"
proof -
  from ok run obtain g n where rid: "runId r = run_id_text (runEpoch m) g n"
    and "g \<le> generation (state m)" "n < nextRun m"
    by (auto simp: machine_ok_def core_ok_def issued_run_def)
  with ok range have "g < 10 ^ 16" "n < 10 ^ 16"
    by (auto simp: machine_ok_def in_counter_range_def max_safe_integer_def)
  with rid ok show ?thesis
    by (simp add: run_id_text_identifier machine_ok_def core_ok_def)
qed

lemma snapshot_wf:
  assumes ok: "machine_ok m" and range: "in_counter_range m"
  shows "state_wf (snapshot m)"
proof -
  from ok have control: "control_ok (state m)" and data: "data_ok (state m)"
    and gen: "generation (state m) \<le> seq (state m) + 1"
    by (simp_all add: machine_ok_def core_ok_def)
  have "pred_option run_wf (activeRun (state m))"
    using data issued_run_identifier [OF ok range]
    by (cases "activeRun (state m)") (simp_all add: run_wf_def data_ok_def run_data_ok_def)
  with data gen range show ?thesis
    using mode_prompt_short [OF control]
    by (auto simp: state_wf_def snapshot_def publicState_def in_counter_range_def data_ok_def
          input_wf_def maxPromptCodeUnits_def participant_of_safe_actor option.pred_map
          pred_option_def max_safe_integer_def)
qed

section \<open>A delta takes one snapshot to the next\<close>

lemma apply_operations_append:
  "apply_operations (ps @ qs) s =
    (case apply_operations ps s of None \<Rightarrow> None | Some s' \<Rightarrow> apply_operations qs s')"
  by (induction ps arbitrary: s) (auto split: option.splits)

lemma build_delta_operations:
  assumes rep: "replays ops (s_transcript before) (s_transcript after)"
    and gen: "s_generation after = s_generation before"
  shows "apply_operations (d_operations (buildDelta before after ops)) before
    = Some (after\<lparr> s_seq := s_seq before \<rparr>)"
proof -
  from rep have "apply_operations ops before = Some (before\<lparr> s_transcript := s_transcript after \<rparr>)"
    by (simp add: replays_def)
  with gen show ?thesis
    by (auto simp: buildDelta_def apply_operations_append sameInput_def sameRuntime_def
          sameParticipant_def)
qed

lemma build_delta_wf:
  assumes rep: "replays ops t t'" "length ops \<le> 2"
    and wf: "state_wf after" and sq: "s_seq after = s_seq before + 1"
    and ne: "d_operations (buildDelta before after ops) \<noteq> []"
  shows "delta_wf (buildDelta before after ops)"
  using assms
  by (auto simp: delta_wf_def buildDelta_def state_wf_def replays_def maxDeltaOperations_def)

lemma delta_refines:
  assumes ok: "machine_ok m" "machine_ok m'" and range: "in_counter_range m'"
    and tr: "transition m (m', r)" and d: "r_delta r = Some d"
    and ne: "d_operations d \<noteq> []"
  shows "applySharedTerminalDelta (snapshot m) (delta_json d) = Some (snapshot m')"
proof -
  from tr d obtain ops where gen: "generation (state m') = generation (state m)"
    and b: "d = buildDelta (snapshot m) (snapshot m') ops" "length ops \<le> 2"
    and rep: "replays ops (s_transcript (snapshot m)) (s_transcript (snapshot m'))"
    and sq: "s_seq (snapshot m') = s_seq (snapshot m) + 1"
    by (auto simp: transition_def split: if_splits)
  have wf: "state_wf (snapshot m')" using ok(2) range by (rule snapshot_wf)
  have parse: "parseSharedTerminalDelta (delta_json d) = Some d"
    using build_delta_wf [OF rep b(2) wf sq] ne b(1) by (simp add: delta_roundtrip)
  have ops: "apply_operations (d_operations d) (snapshot m)
      = Some ((snapshot m')\<lparr> s_seq := s_seq (snapshot m) \<rparr>)"
    unfolding b(1) using rep gen by (intro build_delta_operations) simp_all
  have heads: "d_generation d = s_generation (snapshot m)" "d_baseSeq d = s_seq (snapshot m)"
    "d_seq d = s_seq (snapshot m')"
    using gen by (simp_all add: b(1) buildDelta_def)
  have "(snapshot m')\<lparr> s_seq := s_seq (snapshot m') \<rparr> = snapshot m'"
    by (simp add: snapshot_def publicState_def)
  with parse ops heads show ?thesis
    using state_roundtrip [OF wf]
    by (simp add: applySharedTerminalDelta_def wire_simps del: snapshot_fields)
qed

section \<open>The client\<close>

record client =
  terminalState :: "terminal_state option"
  terminalSyncPending :: bool
  terminalInitialSnapshotPending :: bool
  stopped :: bool

definition new_client :: client where
  "new_client = \<lparr> terminalState = None, terminalSyncPending = False,
     terminalInitialSnapshotPending = False, stopped = False \<rparr>"

text \<open>A snapshot older than the one the client holds.\<close>

definition older_snapshot :: "terminal_state \<Rightarrow> terminal_state \<Rightarrow> bool" where
  "older_snapshot st current \<longleftrightarrow> s_generation st < s_generation current
     \<or> (s_generation st = s_generation current \<and> s_seq st < s_seq current)"

definition handleTerminalState :: "jval \<Rightarrow> client \<Rightarrow> client" where
  "handleTerminalState raw c =
     (case parseSharedTerminalState raw of
        None \<Rightarrow> c
      | Some st \<Rightarrow>
          if stopped c then c
          else if \<not> terminalInitialSnapshotPending c
               \<and> (case terminalState c of None \<Rightarrow> False | Some current \<Rightarrow> older_snapshot st current)
          then c
          else c\<lparr> terminalInitialSnapshotPending := False, terminalSyncPending := False,
                  terminalState := Some st \<rparr>)"

text \<open>
  A delta that does not apply asks for a snapshot, once until it arrives: the flag set here
  goes with the dispatch of a \<open>sync\<close> action.
\<close>

definition handleTerminalDelta :: "jval \<Rightarrow> client \<Rightarrow> client" where
  "handleTerminalDelta raw c =
     (if stopped c then c
      else case Option.bind (terminalState c) (\<lambda>current. applySharedTerminalDelta current raw) of
        None \<Rightarrow> c\<lparr> terminalSyncPending := True \<rparr>
      | Some next \<Rightarrow> c\<lparr> terminalState := Some next \<rparr>)"

definition handleConnect :: "client \<Rightarrow> client" where
  "handleConnect c = c\<lparr> terminalSyncPending := False, terminalInitialSnapshotPending := True \<rparr>"

datatype wire_message = StateMessage jval | DeltaMessage jval

fun receive :: "wire_message \<Rightarrow> client \<Rightarrow> client" where
  "receive (StateMessage raw) c = handleTerminalState raw c"
| "receive (DeltaMessage raw) c = handleTerminalDelta raw c"

section \<open>Deliveries of the server\<close>

text \<open>
  What the socket \<open>sid\<close> receives of one event: a delta is broadcast (a disconnection not to the
  socket that left), a snapshot of a changed machine too, a snapshot of an unchanged machine
  (the answer to \<open>sync\<close>) goes to the acting socket only. The handlers of disconnection and of
  profile updates send deltas only.
\<close>

definition deliveries :: "jstr \<Rightarrow> event \<Rightarrow> dispatch_result \<Rightarrow> wire_message list" where
  "deliveries sid e r =
     (case r_delta r of None \<Rightarrow> []
      | Some d \<Rightarrow> if e = Disconnected sid then [] else [DeltaMessage (delta_json d)])
     @ (case e of
          Dispatched a act \<Rightarrow>
            (case r_snapshot r of None \<Rightarrow> []
             | Some st \<Rightarrow> if r_changed r \<or> socketId a = sid then [StateMessage (state_json st)] else [])
        | _ \<Rightarrow> [])"

text \<open>A run of the server with one client that receives every message in order.\<close>

fun follow :: "('e \<Rightarrow> 'm \<Rightarrow> 'm) \<Rightarrow> ('e \<Rightarrow> 'm \<Rightarrow> wire_message list) \<Rightarrow> 'e list \<Rightarrow> 'm \<Rightarrow> client
     \<Rightarrow> 'm \<times> client" where
  "follow next sent [] m c = (m, c)"
| "follow next sent (e # es) m c = follow next sent es (next e m) (fold receive (sent e m) c)"

section \<open>The interface between a server and its replicas\<close>

text \<open>
  A client that is not up to date is behind and has asked for a snapshot.
\<close>

definition follows :: "client \<Rightarrow> terminal_state \<Rightarrow> bool" where
  "follows c v \<longleftrightarrow> \<not> stopped c \<and> (\<exists>s. terminalState c = Some s \<and>
     (s = v \<or> (s_seq s < s_seq v \<and> s_generation s \<le> s_generation v \<and> terminalSyncPending c)))"

text \<open>
  The laws a server owes its replicas, over the messages one observer receives: at most one
  message per step; no message only when the view is unchanged; a delta numbers its base, is
  refused by any replica that is behind it, and takes the view before the step to the view
  after it unless it is refused; a state message is the view after the step.
\<close>

locale delta_source =
  fixes view :: "'m \<Rightarrow> terminal_state"
    and next_machine :: "'e \<Rightarrow> 'm \<Rightarrow> 'm"
    and sent :: "'e \<Rightarrow> 'm \<Rightarrow> wire_message list"
    and valid :: "'m \<Rightarrow> bool"
    and fits :: "'m \<Rightarrow> bool"
    and observed :: "'e \<Rightarrow> bool"
  assumes valid_next: "valid m \<Longrightarrow> valid (next_machine e m)"
    and fits_back: "valid m \<Longrightarrow> fits (next_machine e m) \<Longrightarrow> fits m"
    and one_message: "valid m \<Longrightarrow> observed e \<Longrightarrow>
      sent e m = [] \<or> (\<exists>w. sent e m = [DeltaMessage w]) \<or> (\<exists>w. sent e m = [StateMessage w])"
    and quiet: "valid m \<Longrightarrow> observed e \<Longrightarrow> sent e m = [] \<Longrightarrow> view (next_machine e m) = view m"
    and delta_step: "valid m \<Longrightarrow> observed e \<Longrightarrow> fits (next_machine e m) \<Longrightarrow> sent e m = [DeltaMessage w]
      \<Longrightarrow> applySharedTerminalDelta (view m) w \<in> {None, Some (view (next_machine e m))}
        \<and> s_seq (view m) < s_seq (view (next_machine e m))
        \<and> s_generation (view m) \<le> s_generation (view (next_machine e m))"
    and delta_base: "valid m \<Longrightarrow> observed e \<Longrightarrow> sent e m = [DeltaMessage w] \<Longrightarrow> s_seq s < s_seq (view m)
      \<Longrightarrow> applySharedTerminalDelta s w = None"
    and state_step: "valid m \<Longrightarrow> observed e \<Longrightarrow> fits (next_machine e m) \<Longrightarrow> sent e m = [StateMessage w]
      \<Longrightarrow> parseSharedTerminalState w = Some (view (next_machine e m))
        \<and> s_seq (view m) \<le> s_seq (view (next_machine e m))
        \<and> s_generation (view m) \<le> s_generation (view (next_machine e m))"
begin

lemma follows_step:
  assumes "valid m" "observed e" "fits (next_machine e m)" "follows c (view m)"
  shows "follows (fold receive (sent e m) c) (view (next_machine e m))"
  using one_message [OF assms(1,2)]
proof (elim disjE exE)
  assume "sent e m = []"
  with quiet [OF assms(1,2)] assms(4) show ?thesis by simp
next
  fix w assume w: "sent e m = [DeltaMessage w]"
  note d = delta_step [OF assms(1-3) w] delta_base [OF assms(1,2) w]
  from assms(4) obtain s where s: "terminalState c = Some s" "\<not> stopped c"
    and "s = view m \<or> (s_seq s < s_seq (view m) \<and> s_generation s \<le> s_generation (view m)
      \<and> terminalSyncPending c)"
    by (auto simp: follows_def)
  then show ?thesis
    using d w by (auto simp: handleTerminalDelta_def follows_def)
next
  fix w assume w: "sent e m = [StateMessage w]"
  note st = state_step [OF assms(1-3) w]
  with assms(4) w show ?thesis
    by (auto simp: handleTerminalState_def follows_def older_snapshot_def)
qed

lemma fits_run:
  "valid m \<Longrightarrow> fits (fst (follow next_machine sent es m c)) \<Longrightarrow> fits m"
proof (induction es arbitrary: m c)
  case (Cons e es)
  then have "fits (next_machine e m)" using valid_next by simp
  with Cons.prems(1) show ?case by (rule fits_back)
qed simp

lemma follows_run:
  assumes "valid m" "list_all observed es" "follows c (view m)"
    and "fits (fst (follow next_machine sent es m c))"
  shows "follows (snd (follow next_machine sent es m c)) (view (fst (follow next_machine sent es m c)))"
  using assms
proof (induction es arbitrary: m c)
  case (Cons e es)
  then have "fits (next_machine e m)"
    using fits_run valid_next by simp
  with Cons show ?case
    using follows_step valid_next by simp
qed simp

end

section \<open>The terminal is such a server\<close>

lemma generation_frame:
  "generation (state (append_text v m)) = generation (state m)"
  "generation (state (finish_line m)) = generation (state m)"
  "generation (state (toShell m)) = generation (state m)"
  by (simp_all add: append_text_def finish_line_def toShell_def clearInput_def update_state_def
        Let_def)

lemma generation_update:
  "(\<And>s. generation (f s) = generation s) \<Longrightarrow> generation (state (update_state f m)) = generation (state m)"
  by (simp add: update_state_def)

lemma generation_package:
  "generation (state (fst (packageResult aid before out m))) = generation (state m)"
  by (simp add: packageResult_fst generation_update)

lemma generation_if:
  "generation (state m) = g \<Longrightarrow> generation (state n) = g \<Longrightarrow> generation (state (if b then m else n)) = g"
  by simp

lemma disconnect_generation:
  "generation (state (fst (disconnect sid m))) = generation (state m)"
  unfolding disconnect_def Let_def generation_package
  by (intro generation_if; (simp only: generation_frame)?; (intro generation_if)?;
      simp add: update_state_def)

lemma updateActor_generation:
  "generation (state (fst (updateActor a m))) = generation (state m)"
proof (cases "safeActor a")
  case True
  then show ?thesis
    unfolding updateActor_def Let_def
    by (simp only: generation_package not_True_eq_False if_False)
       (intro generation_if; (simp only: generation_update)?; (intro generation_if)?;
        simp add: update_state_def)
qed (simp add: updateActor_def Let_def generation_package)

text \<open>The three shapes of what one observer receives of a step.\<close>

lemma deliveries_shape:
  fixes digest :: "jstr \<Rightarrow> jstr" and e :: event and m :: machine and sid :: jstr
  assumes ok: "machine_ok m" and other: "e \<noteq> Disconnected sid"
  defines "r \<equiv> snd (step digest e m)"
  shows "deliveries sid e r = [] \<and> \<not> r_changed r
    \<or> (\<exists>d. deliveries sid e r = [DeltaMessage (delta_json d)] \<and> r_delta r = Some d)
    \<or> (deliveries sid e r = [StateMessage (state_json (r_state r))]
        \<and> r_snapshot r = Some (r_state r))"
proof -
  have tr: "transition m (fst (step digest e m), r)"
    using step_ok [OF ok, of digest e] by (simp add: r_def)
  have gen: "e = Disconnected s \<or> e = ProfileUpdated a \<Longrightarrow>
      generation (state (fst (step digest e m))) = generation (state m)" for s a
    by (auto simp: disconnect_generation updateActor_generation)
  from tr other gen show ?thesis
    by (cases e; cases "r_changed r"; cases "r_delta r"; cases "r_snapshot r")
       (auto simp: deliveries_def transition_def split: if_splits)
qed

lemma delta_wire_base:
  assumes "applySharedTerminalDelta s (delta_json d) = Some s'"
  shows "s_seq s = d_baseSeq d" "d_operations d \<noteq> []"
  using assms
  by (auto simp: applySharedTerminalDelta_def parseSharedTerminalDelta_def delta_json_def wire_simps
        bind_eq_Some_conv guard_Some bounded_counter_def nat_json_def split: if_splits)

lemma delta_wire_empty:
  "d_operations d = [] \<Longrightarrow> applySharedTerminalDelta s (delta_json d) = None"
  using delta_wire_base(2) by (cases "applySharedTerminalDelta s (delta_json d)") auto

text \<open>The machine after an event, and what the socket \<open>sid\<close> is sent.\<close>

definition advance :: "(jstr \<Rightarrow> jstr) \<Rightarrow> event \<Rightarrow> machine \<Rightarrow> machine" where
  "advance digest e m = fst (step digest e m)"

definition sent_to :: "(jstr \<Rightarrow> jstr) \<Rightarrow> jstr \<Rightarrow> event \<Rightarrow> machine \<Rightarrow> wire_message list" where
  "sent_to digest sid e m = deliveries sid e (snd (step digest e m))"

lemma step_transition:
  "machine_ok m \<Longrightarrow> machine_ok (advance digest e m)
     \<and> transition m (advance digest e m, snd (step digest e m))"
  using step_ok [of m digest e] by (simp add: advance_def)

lemma advance_seq:
  assumes "machine_ok m"
  shows "seq (state m) \<le> seq (state (advance digest e m))"
    and "generation (state m) \<le> generation (state (advance digest e m))"
  using step_transition [OF assms, of digest e] by (auto simp: transition_def)

lemma sent_delta:
  assumes ok: "machine_ok m" and e: "e \<noteq> Disconnected sid"
    and sent: "sent_to digest sid e m = [DeltaMessage w]"
  obtains d where "w = delta_json d" "r_delta (snd (step digest e m)) = Some d"
    "d_baseSeq d = seq (state m)" "r_changed (snd (step digest e m))"
proof -
  from deliveries_shape [OF ok e, of digest] sent obtain d
    where w: "w = delta_json d" and d: "r_delta (snd (step digest e m)) = Some d"
    by (auto simp: sent_to_def)
  with step_transition [OF ok, of digest e] have "r_changed (snd (step digest e m))"
    "d_baseSeq d = seq (state m)"
    by (auto simp: transition_def buildDelta_def split: if_splits)
  with w d that show ?thesis by blast
qed

interpretation terminal: delta_source snapshot "advance digest" "sent_to digest sid" machine_ok
  in_counter_range "\<lambda>e. e \<noteq> Disconnected sid" for digest sid
proof
  fix m e
  assume ok: "machine_ok m"
  note st = step_transition [OF ok, of digest e]
  note shape = deliveries_shape [OF ok, of e sid digest, folded sent_to_def]
  show "machine_ok (advance digest e m)" using st by simp
  show "in_counter_range m" if "in_counter_range (advance digest e m)"
    using that advance_seq(1) [OF ok, of digest e] by (simp add: in_counter_range_def)
  show "sent_to digest sid e m = [] \<or> (\<exists>w. sent_to digest sid e m = [DeltaMessage w])
      \<or> (\<exists>w. sent_to digest sid e m = [StateMessage w])" if "e \<noteq> Disconnected sid"
    using shape [OF that] by blast
  show "snapshot (advance digest e m) = snapshot m"
    if "e \<noteq> Disconnected sid" "sent_to digest sid e m = []"
    using shape [OF that(1)] that(2) st by (auto simp: transition_def)
  fix w
  show "applySharedTerminalDelta (snapshot m) w \<in> {None, Some (snapshot (advance digest e m))}
      \<and> s_seq (snapshot m) < s_seq (snapshot (advance digest e m))
      \<and> s_generation (snapshot m) \<le> s_generation (snapshot (advance digest e m))"
    if e: "e \<noteq> Disconnected sid" and r: "in_counter_range (advance digest e m)"
      and w: "sent_to digest sid e m = [DeltaMessage w]"
  proof -
    obtain d where d: "w = delta_json d" "r_delta (snd (step digest e m)) = Some d"
      "r_changed (snd (step digest e m))"
      using ok e w by (rule sent_delta)
    have "applySharedTerminalDelta (snapshot m) w \<in> {None, Some (snapshot (advance digest e m))}"
      using delta_wire_empty [of d] delta_refines [OF ok _ r _ d(2)] st d(1)
      by (cases "d_operations d = []") auto
    with st d(3) show ?thesis by (auto simp: transition_def)
  qed
  show "applySharedTerminalDelta s w = None"
    if e: "e \<noteq> Disconnected sid" and w: "sent_to digest sid e m = [DeltaMessage w]"
      and behind: "s_seq s < s_seq (snapshot m)" for s
  proof -
    obtain d where "w = delta_json d" "d_baseSeq d = seq (state m)"
      using ok e w by (rule sent_delta)
    with behind show ?thesis
      using delta_wire_base(1) [of s d] by (cases "applySharedTerminalDelta s w") auto
  qed
  show "parseSharedTerminalState w = Some (snapshot (advance digest e m))
      \<and> s_seq (snapshot m) \<le> s_seq (snapshot (advance digest e m))
      \<and> s_generation (snapshot m) \<le> s_generation (snapshot (advance digest e m))"
    if e: "e \<noteq> Disconnected sid" and r: "in_counter_range (advance digest e m)"
      and w: "sent_to digest sid e m = [StateMessage w]"
  proof -
    have "w = state_json (snapshot (advance digest e m))"
      using shape [OF e] w st by (auto simp: transition_def)
    then show ?thesis
      using st snapshot_wf [OF _ r] advance_seq [OF ok, of digest e]
      by (simp add: state_roundtrip)
  qed
qed

end
