(* ===== verification/Terminal_Runs.thy ===== *)
theory Terminal_Runs
  imports Terminal_Client
begin

text \<open>
  The numbering of runs: the text of a run identifier determines its number, every step keeps
  the current run, ends it, or starts the run of the next number, and an identifier that is no
  longer current stays retired. The last lemmas describe the terminal after its host has left.
\<close>

section \<open>Run identifiers\<close>

lemma nat_text_no_dash: "0x2d \<notin> set (nat_text n)"
  using nat_text_digits [of n] by (auto simp: list_all_iff in_range_def)

lemma after_last_dash:
  "run_id_text epoch g n = pre @ 0x2d # nat_text n"
  if "pre = js ''run-'' @ epoch @ js ''-'' @ nat_text g"
  using that by (simp add: run_id_text_def js_def)

lemma last_separator:
  "xs @ d # ys = xs' @ d # ys' \<Longrightarrow> d \<notin> set ys \<Longrightarrow> d \<notin> set ys' \<Longrightarrow> ys = ys'"
proof -
  assume eq: "xs @ d # ys = xs' @ d # ys'" and "d \<notin> set ys" "d \<notin> set ys'"
  moreover have "takeWhile (\<lambda>x. x \<noteq> d) (rev zs @ d # ws) = rev zs" if "d \<notin> set zs" for zs ws
    using that by (subst takeWhile_append2) auto
  moreover from eq have "rev ys @ d # rev xs = rev ys' @ d # rev xs'"
    by (metis append.assoc append_Cons append_Nil rev.simps(2) rev_append)
  ultimately show ?thesis by (metis rev_rev_ident)
qed

lemma run_id_text_inject:
  "run_id_text epoch g n = run_id_text epoch' g' n' \<Longrightarrow> n = n'"
proof -
  assume "run_id_text epoch g n = run_id_text epoch' g' n'"
  then have "nat_text n = nat_text n'"
    unfolding after_last_dash [OF refl] by (rule last_separator) (rule nat_text_no_dash)+
  then have "digits_value (nat_text n) = digits_value (nat_text n')" by simp
  then show ?thesis by (simp only: digits_value_nat_text)
qed

text \<open>A step keeps the current run, ends it, or starts the run of the next number.\<close>

definition run_step :: "machine \<Rightarrow> machine \<Rightarrow> bool" where
  "run_step m m' \<longleftrightarrow> runEpoch m' = runEpoch m \<and> nextRun m \<le> nextRun m'
     \<and> (activeRun (state m') = activeRun (state m) \<or> activeRun (state m') = None
        \<or> (\<exists>r g. activeRun (state m') = Some r \<and> runId r = run_id_text (runEpoch m) g (nextRun m)
             \<and> nextRun m' = nextRun m + 1))"

lemma run_step_refl [simp]: "run_step m m"
  by (simp add: run_step_def)

lemma run_step_same:
  "runEpoch m' = runEpoch m \<Longrightarrow> nextRun m' = nextRun m
     \<Longrightarrow> activeRun (state m') = activeRun (state m) \<or> activeRun (state m') = None \<Longrightarrow> run_step m m'"
  by (simp add: run_step_def)

lemma run_step_fresh:
  "runEpoch m' = runEpoch m \<Longrightarrow> nextRun m' = nextRun m + 1 \<Longrightarrow> activeRun (state m') = Some r
     \<Longrightarrow> runId r = run_id_text (runEpoch m) g (nextRun m) \<Longrightarrow> run_step m m'"
  by (auto simp: run_step_def)

lemma run_frame:
  "runEpoch (append_text v m) = runEpoch m" "nextRun (append_text v m) = nextRun m"
  "activeRun (state (append_text v m)) = activeRun (state m)"
  "runEpoch (finish_line m) = runEpoch m" "nextRun (finish_line m) = nextRun m"
  "activeRun (state (finish_line m)) = activeRun (state m)"
  "runEpoch (clearInput m) = runEpoch m" "nextRun (clearInput m) = nextRun m"
  "activeRun (state (clearInput m)) = activeRun (state m)"
  "runEpoch (update_state f m) = runEpoch m" "nextRun (update_state f m) = nextRun m"
  "state (update_state f m) = f (state m)"
  by (simp_all add: append_text_def finish_line_def clearInput_def update_state_def Let_def)

lemma run_toShell:
  "runEpoch (toShell m) = runEpoch m" "nextRun (toShell m) = nextRun m"
  "activeRun (state (toShell m)) = None"
  by (simp_all add: toShell_def run_frame)

lemma execute_line_run: "run_step m (fst (execute_line h p v m))"
  by (rule run_step_fresh [where g = "generation (state m)"
        and r = "bare_run (run_id_text (runEpoch m) (generation (state m)) (nextRun m))"])
     (simp_all add: execute_line_def createRunId_def bare_run_def run_frame)

lemma signal_parts_run:
  "run_step m (fst (interrupt_repl h m))" "run_step m (fst (eof_repl h m))"
  "run_step m (fst (signal_run k h r m))"
proof -
  note fresh = run_step_fresh [where g = "generation (state m)"
      and r = "bare_run (run_id_text (runEpoch m) (generation (state m)) (nextRun m))"]
  show "run_step m (fst (interrupt_repl h m))"
    by (rule fresh) (simp_all add: interrupt_repl_def createRunId_def bare_run_def run_frame)
  show "run_step m (fst (eof_repl h m))"
    by (rule fresh) (simp_all add: eof_repl_def createRunId_def bare_run_def run_frame)
  show "run_step m (fst (signal_run k h r m))"
    by (rule run_step_same) (simp_all add: signal_run_def Let_def run_frame)
qed

lemma signal_run_step: "run_step m (fst (signal k m))"
  by (cases k; cases "mode (state m) = Python"; cases "host (state m)"; cases "activeRun (state m)")
     (simp_all add: signal_def signal_parts_run)

lemma apply_body_run: "run_step m (fst (apply_body a b m))"
proof (cases b)
  case (SubmitLine v)
  have "run_step m (fst (submitLine a v m))"
  proof -
    have prog: "run_step m (fst (submit_program_input w n))"
      if "runEpoch n = runEpoch m" "nextRun n = nextRun m" "activeRun (state n) = activeRun (state m)" for w n
      using that by (auto simp: submit_program_input_def run_toShell run_frame intro!: run_step_same
          split: option.splits)
    have exec: "run_step m (fst (execute_line h p w n))"
      if "runEpoch n = runEpoch m" "nextRun n = nextRun m" "activeRun (state n) = activeRun (state m)" for h p w n
      using execute_line_run [of n h p w] that by (simp add: run_step_def)
    show ?thesis
      by (auto simp: submitLine_def Let_def run_frame run_toShell intro!: run_step_same prog exec
          split: option.splits)
  qed
  then show ?thesis by (simp add: SubmitLine)
next
  case (StartRun e p t)
  have "run_step m (fst (startRun a e p t m))"
    by (auto simp: startRun_def createRunId_def Let_def run_frame
        intro!: run_step_fresh [where g = "generation (state m)"])
  then show ?thesis by (simp add: StartRun)
next
  case (HostReady r n p t)
  have "run_step m (fst (hostReady a r n p t m))"
    by (auto simp: hostReady_def Let_def run_frame intro!: run_step_same split: ready_mode.splits option.splits)
  then show ?thesis by (simp add: HostReady)
next
  case (HostFailed r msg)
  have "run_step m (fst (hostFailed a r msg m))"
    by (auto simp: hostFailed_def Let_def run_frame run_toShell intro!: run_step_same)
  then show ?thesis by (simp add: HostFailed)
qed (auto simp: claim_def release_def editInput_def hostOutput_def hostInputRequest_def Let_def run_frame
      signal_run_step intro!: run_step_same split: option.splits)

lemma package_run:
  "runEpoch (fst (packageResult aid before out m)) = runEpoch m"
  "nextRun (fst (packageResult aid before out m)) = nextRun m"
  "activeRun (state (fst (packageResult aid before out m))) = activeRun (state m)"
  by (simp_all add: packageResult_fst update_state_def)

lemma run_step_from:
  "run_step n m' \<Longrightarrow> runEpoch n = runEpoch m \<Longrightarrow> nextRun n = nextRun m
     \<Longrightarrow> activeRun (state n) = activeRun (state m) \<Longrightarrow> run_step m m'"
  by (simp add: run_step_def)

lemma run_step_package:
  "run_step m m' \<Longrightarrow> run_step m (fst (packageResult aid before out m'))"
  by (simp add: run_step_def package_run)

lemma dispatch_run: "run_step m (fst (dispatch digest a act m))"
proof (cases "safeActor a \<and> safeIdentifier (actionId act) \<and> remembered m (actionId act) = None \<and> body act \<noteq> Sync")
  case True
  have "run_step m (fst (apply_body a (body act) (prepared digest act m)))"
    by (rule run_step_from [OF apply_body_run]) (simp_all add: prepared_def)
  with True show ?thesis by (simp add: dispatch_fresh run_step_package)
next
  case False
  then show ?thesis
    by (auto simp: dispatch_def Let_def package_run intro!: run_step_same split: option.splits)
qed

lemma run_step_if: "run_step m n \<Longrightarrow> run_step m n' \<Longrightarrow> run_step m (if b then n else n')"
  by simp

lemma disconnect_run: "run_step m (fst (disconnect sid m))"
  unfolding disconnect_def Let_def
  by (intro run_step_package run_step_if run_step_same; simp add: run_toShell run_frame)

lemma updateActor_run: "run_step m (fst (updateActor a m))"
  unfolding updateActor_def Let_def
  by (cases "safeActor a") (auto simp: run_frame intro!: run_step_package run_step_same)

lemma advance_run: "run_step m (advance digest e m)"
  by (cases e) (simp_all add: advance_def dispatch_run disconnect_run updateActor_run)

text \<open>The identifier has been issued and is not that of the current run.\<close>

definition retired :: "jstr \<Rightarrow> machine \<Rightarrow> bool" where
  "retired rid m \<longleftrightarrow> (\<exists>g n. rid = run_id_text (runEpoch m) g n \<and> n < nextRun m)
     \<and> map_option runId (activeRun (state m)) \<noteq> Some rid"

lemma retired_advance:
  assumes "retired rid m"
  shows "retired rid (advance digest e m)"
proof -
  from assms obtain g n where rid: "rid = run_id_text (runEpoch m) g n" "n < nextRun m"
    and other: "map_option runId (activeRun (state m)) \<noteq> Some rid"
    by (auto simp: retired_def)
  have "run_id_text (runEpoch m) g' (nextRun m) \<noteq> rid" for g'
    using rid run_id_text_inject by fastforce
  with advance_run [of m digest e] rid other show ?thesis
    by (auto simp: retired_def run_step_def intro: less_le_trans)
qed

lemma retired_run: "retired rid m \<Longrightarrow> retired rid (fold (advance digest) es m)"
  by (induction es arbitrary: m) (simp_all add: retired_advance)

lemma issued_or_retired:
  assumes "map_option runId (activeRun (state m)) = Some rid"
    and "pred_option (issued_run (runEpoch m) (generation (state m)) (nextRun m)) (activeRun (state m))"
    and "map_option runId (activeRun (state (fold (advance digest) es m))) \<noteq> Some rid"
  shows "retired rid (fold (advance digest) es m)"
proof -
  have issued: "(\<exists>g n. rid = run_id_text (runEpoch m) g n \<and> n < nextRun m)"
    using assms(1,2) by (cases "activeRun (state m)") (auto simp: issued_run_def)
  have "runEpoch (fold (advance digest) es k) = runEpoch k \<and> nextRun k \<le> nextRun (fold (advance digest) es k)" for k
  proof (induction es arbitrary: k)
    case (Cons e es)
    then show ?case
      using advance_run [of k digest e] by (auto simp: run_step_def intro: order_trans)
  qed simp
  with issued assms(3) show ?thesis
    unfolding retired_def by (metis less_le_trans)
qed

section \<open>The shell the terminal returns to\<close>

lemma toShell_fields:
  "mode (state (toShell m)) = Shell" "prompt (state (toShell m)) = js ''$ ''"
  "host (state (toShell m)) = None" "activeRun (state (toShell m)) = None"
  "inputRequestId (state (toShell m)) = None" "inputOwner (state (toShell m)) = None"
  "inputValue (state (toShell m)) = []"
  by (simp_all add: toShell_eq Let_def)

end
