(* ===== verification/Terminal_Properties.thy ===== *)
theory Terminal_Properties
  imports Terminal_Runs
begin

text \<open>
  The properties of the shared terminal, over the definitions of the terminal theories, and the
  concrete machine their witnesses use: a terminal on which one participant has started a run.
\<close>

section \<open>A concrete terminal\<close>

definition demo_actor :: actor where
  "demo_actor = \<lparr> participantId = js ''p1'', displayName = js ''Ann'', color = js ''#aabbcc'',
     socketId = js ''s1'' \<rparr>"

definition demo_guest :: actor where
  "demo_guest = demo_actor\<lparr> socketId := js ''s2'' \<rparr>"

definition demo_action :: "string \<Rightarrow> action_body \<Rightarrow> action" where
  "demo_action k b = \<lparr> actionId = js k, body = b \<rparr>"

definition demo_new :: machine where
  "demo_new = new_machine (js ''e'')"

definition demo_run :: action where
  "demo_run = demo_action ''a1'' (StartRun (js ''main'') (js ''m.py'') None)"

definition demo_busy :: machine where
  "demo_busy = advance id (Dispatched demo_actor demo_run) demo_new"

lemma demo_safe:
  "safeActor demo_actor" "safeActor demo_guest"
  "safeIdentifier (js ''a1'')" "safeIdentifier (js ''a2'')" "safeIdentifier (js ''e'')"
  "safeIdentifier (js ''main'')" "safe_workspace_path (js ''m.py'')"
  by (simp_all add: demo_actor_def demo_guest_def safeActor_def safeIdentifier_def js_def
        ident_unit_def in_range_def hex_unit_def color_ok_def maxIdentifierCodeUnits_def
        safe_workspace_path_def dot_segment_def is_line_terminator_def)

lemma demo_new_reachable: "reachable id demo_new"
  by (simp add: demo_new_def demo_safe reachable.created)

lemma demo_new_fields:
  "remembered demo_new = Map.empty" "rememberedQueue demo_new = []"
  "mode (state demo_new) = Shell" "inputOwner (state demo_new) = None" "host (state demo_new) = None"
  "seq (state demo_new) = 0" "generation (state demo_new) = 1" "nextRun demo_new = 1"
  "inputValue (state demo_new) = []" "inputCursor (state demo_new) = 0" "activeRun (state demo_new) = None"
  by (simp_all add: demo_new_def new_machine_def)

lemma demo_busy_reachable: "reachable id demo_busy"
  using demo_new_reachable by (simp add: demo_busy_def advance_def reachable.stepped del: step.simps)

lemma demo_action_fields [simp]: "actionId (demo_action k b) = js k" "body (demo_action k b) = b"
  by (simp_all add: demo_action_def)

lemma demo_busy_eq:
  "demo_busy = fst (packageResult (js ''a1'') (snapshot demo_new)
      (snd (startRun demo_actor (js ''main'') (js ''m.py'') None (prepared id demo_run demo_new)))
      (fst (startRun demo_actor (js ''main'') (js ''m.py'') None (prepared id demo_run demo_new))))"
  using dispatch_fresh [of demo_actor demo_run demo_new id]
  by (simp add: demo_busy_def advance_def demo_run_def demo_safe demo_new_fields)

lemma demo_memory:
  "remembered (prepared id demo_run demo_new) = Map.empty(js ''a1'' \<mapsto> sharedTerminalActionFingerprint id demo_run)"
  by (simp add: prepared_def remember_def demo_new_fields evict_short demo_run_def
        maxRememberedActions_def)

lemma demo_prepared_state: "state (prepared id demo_run demo_new) = state demo_new"
  "nextRun (prepared id demo_run demo_new) = 1"
  "runEpoch (prepared id demo_run demo_new) = js ''e''"
  by (simp_all add: prepared_def demo_new_def new_machine_def)

lemma demo_busy_fields:
  "mode (state demo_busy) = Busy" "host (state demo_busy) = Some demo_actor"
  "inputValue (state demo_busy) = []" "inputCursor (state demo_busy) = 0"
  "inputOwner (state demo_busy) = None" "activeRunPythonMode (state demo_busy) = False"
  "inputRequestId (state demo_busy) = None" "seq (state demo_busy) = 1"
  "activeRun (state demo_busy) = Some \<lparr> runId = run_id_text (js ''e'') 1 1,
     entryId = Some (js ''main''), entrypoint = Some (js ''m.py''), testId = None \<rparr>"
  "remembered demo_busy = Map.empty(js ''a1'' \<mapsto> sharedTerminalActionFingerprint id demo_run)"
  "prompt (state demo_busy) = []"
  unfolding demo_busy_eq
  by (simp_all add: demo_safe demo_new_fields demo_prepared_state startRun_def owned_by_other_def
        createRunId_def mutation_defs packageResult_fst changed_outcome_def demo_memory
        maxCommandCodeUnits_def)

section \<open>The invariant\<close>

text \<open>
  C16. Every terminal the server can reach, whatever participants, disconnections and profile
  updates do, has the host, run, input request and prompt of its mode (\<open>control_ok\<close>), bounded
  data (\<open>data_ok\<close>), a run identifier it issued, and a memory of at most 4096 action
  identifiers whose map and eviction queue agree.
\<close>

theorem reachable_terminal_invariant:
  assumes "reachable digest m"
  shows "control_ok (state m) \<and> data_ok (state m)
    \<and> pred_option (issued_run (runEpoch m) (generation (state m)) (nextRun m)) (activeRun (state m))
    \<and> dom (remembered m) = set (rememberedQueue m) \<and> distinct (rememberedQueue m)
    \<and> length (rememberedQueue m) \<le> maxRememberedActions"
  using reachable_ok [OF assms] by (simp add: machine_ok_def core_ok_def memory_ok_def)

theorem reachable_terminal_invariant_witness:
  "mode (state demo_busy) = Busy \<and> control_ok (state demo_busy)"
  using reachable_terminal_invariant [OF demo_busy_reachable] demo_busy_fields(1) by simp

section \<open>What one event does\<close>

lemma reachable_step:
  assumes "reachable digest m"
  shows "machine_ok m" "machine_ok (advance digest e m)"
    and "transition m (advance digest e m, snd (step digest e m))"
  using reachable_ok [OF assms] step_transition [of m digest e] by simp_all

text \<open>
  C17. Whatever the event, an answer with an error code leaves the public state untouched and
  publishes no delta, no snapshot and no effect; in particular the two recovery branches of
  \<open>submitLine\<close>, which reset the terminal and report \<open>invalid-state\<close>, are never taken.
\<close>

theorem terminal_error_changes_nothing:
  assumes "reachable digest m" "r_error (snd (step digest e m)) \<noteq> None"
  shows "snapshot (fst (step digest e m)) = snapshot m \<and> \<not> r_changed (snd (step digest e m))
    \<and> r_delta (snd (step digest e m)) = None \<and> r_effect (snd (step digest e m)) = None
    \<and> a_status (r_ack (snd (step digest e m))) = Rejected"
  using reachable_step(3) [OF assms(1), of e] assms(2)
  by (auto simp: transition_def advance_def)

text \<open>
  C18. The sequence number counts the changes of the public state: a step that reports a change
  adds one, any other step leaves the whole public state as it was; and a change is published
  exactly once, as a delta when the generation stays and as a snapshot when it moves.
\<close>

theorem terminal_sequence_counts_changes:
  assumes "reachable digest m"
  shows "seq (state (fst (step digest e m)))
      = seq (state m) + of_bool (r_changed (snd (step digest e m)))
    \<and> (r_changed (snd (step digest e m)) \<or> snapshot (fst (step digest e m)) = snapshot m)
    \<and> (r_delta (snd (step digest e m)) \<noteq> None \<longleftrightarrow> r_changed (snd (step digest e m))
         \<and> generation (state (fst (step digest e m))) = generation (state m))
    \<and> (r_changed (snd (step digest e m)) \<and> r_snapshot (snd (step digest e m)) \<noteq> None \<longleftrightarrow>
         generation (state (fst (step digest e m))) \<noteq> generation (state m))"
proof -
  define m' where "m' = advance digest e m"
  have "generation (state m') = generation (state m)" if "snapshot m' = snapshot m"
    using that snapshot_fields(2) by metis
  moreover have "transition m (m', snd (step digest e m))"
    unfolding m'_def by (rule reachable_step(3) [OF assms])
  ultimately show ?thesis
    unfolding advance_def [symmetric] m'_def [symmetric]
    by (auto simp: transition_def split: if_splits)
qed

theorem terminal_error_changes_nothing_witness:
  "snapshot (fst (step id (Dispatched demo_guest (demo_action ''a2'' Claim)) demo_busy))
     = snapshot demo_busy"
proof -
  have "r_error (snd (step id (Dispatched demo_guest (demo_action ''a2'' Claim)) demo_busy)) = Some ErrBusy"
    using demo_busy_fields(1,10)
    by (simp add: dispatch_fresh demo_safe claim_def packageResult_def unchanged_outcome_def
          prepared_def Let_def)
  with terminal_error_changes_nothing [OF demo_busy_reachable] show ?thesis by blast
qed

theorem terminal_sequence_counts_changes_witness:
  "seq (state demo_busy) = seq (state demo_new)
     + of_bool (r_changed (snd (step id (Dispatched demo_actor demo_run) demo_new)))"
  using terminal_sequence_counts_changes
    [where e = "Dispatched demo_actor demo_run", OF demo_new_reachable]
  by (simp add: demo_busy_def advance_def del: step.simps)

section \<open>Replicas\<close>

text \<open>
  C19. The machine refines the wire protocol's delta application: a published delta that has
  operations, serialised, parsed and applied by a client that holds the snapshot before the
  event, gives exactly the snapshot after it; one without operations is refused.
\<close>

theorem terminal_delta_refines:
  assumes "reachable digest m" "in_counter_range (advance digest e m)"
    and "r_delta (snd (step digest e m)) = Some d"
  shows "applySharedTerminalDelta (snapshot m) (delta_json d)
    = (if d_operations d = [] then None else Some (snapshot (advance digest e m)))"
  using delta_refines [OF reachable_step(1,2) [OF assms(1)] assms(2) reachable_step(3) [OF assms(1)] assms(3)]
  by (simp add: delta_wire_empty)

lemma demo_claim:
  defines "e \<equiv> Dispatched demo_actor (demo_action ''a2'' Claim)"
  shows "r_delta (snd (step id e demo_new)) = Some \<lparr> d_generation = 1, d_baseSeq = 0, d_seq = 1,
      d_operations = [InputOp \<lparr> i_value = [], i_cursor = 0, i_owner = Some (participant demo_actor) \<rparr>] \<rparr>"
    and "seq (state (advance id e demo_new)) = 1"
  unfolding e_def
  by (simp_all add: dispatch_fresh demo_safe demo_new_fields claim_def owned_by_other_def owned_by_def
        packageResult_def changed_outcome_def update_state_def prepared_def Let_def buildDelta_def
        snapshot_def publicState_def sameInput_def sameParticipant_def sameRuntime_def advance_def)

theorem terminal_delta_refines_witness:
  "\<exists>d. r_delta (snd (step id (Dispatched demo_actor (demo_action ''a2'' Claim)) demo_new)) = Some d
     \<and> applySharedTerminalDelta (snapshot demo_new) (delta_json d)
     = Some (snapshot (advance id (Dispatched demo_actor (demo_action ''a2'' Claim)) demo_new))"
proof -
  have "in_counter_range (advance id (Dispatched demo_actor (demo_action ''a2'' Claim)) demo_new)"
    by (simp add: demo_claim(2) in_counter_range_def max_safe_integer_def)
  from demo_claim(1) terminal_delta_refines [OF demo_new_reachable this demo_claim(1)] show ?thesis by auto
qed

text \<open>
  C20. A client that starts from the current snapshot and receives every message the server
  sends it, in order, over any sequence of events of any participants, never diverges: it holds
  the current snapshot, or an older one and has asked for a new snapshot.
\<close>

theorem terminal_replica_never_diverges:
  assumes "reachable digest m" "terminalState c = Some (snapshot m)" "\<not> stopped c"
    and "list_all (\<lambda>e. e \<noteq> Disconnected sid) es"
    and "in_counter_range (fst (follow (advance digest) (sent_to digest sid) es m c))"
  shows "\<exists>s. terminalState (snd (follow (advance digest) (sent_to digest sid) es m c)) = Some s
    \<and> (s = snapshot (fst (follow (advance digest) (sent_to digest sid) es m c))
       \<or> (s_seq s < s_seq (snapshot (fst (follow (advance digest) (sent_to digest sid) es m c)))
          \<and> terminalSyncPending (snd (follow (advance digest) (sent_to digest sid) es m c))))"
proof -
  have "follows c (snapshot m)" using assms(2,3) by (simp add: follows_def)
  from terminal.follows_run [OF reachable_ok [OF assms(1)] assms(4) this assms(5)]
  show ?thesis unfolding follows_def by blast
qed

theorem terminal_replica_never_diverges_witness:
  "\<exists>s. terminalState (snd (follow (advance id) (sent_to id (js ''s2''))
      [Dispatched demo_actor (demo_action ''a2'' Claim)] demo_new
      (handleTerminalState (state_json (snapshot demo_new)) new_client))) = Some s"
proof -
  have "parseSharedTerminalState (state_json (snapshot demo_new)) = Some (snapshot demo_new)"
    using snapshot_wf [OF reachable_ok [OF demo_new_reachable]]
    by (simp add: state_roundtrip in_counter_range_def demo_new_fields max_safe_integer_def)
  then show ?thesis
    using terminal_replica_never_diverges [OF demo_new_reachable, of
        "handleTerminalState (state_json (snapshot demo_new)) new_client" "js ''s2''"
        "[Dispatched demo_actor (demo_action ''a2'' Claim)]"] demo_claim(2)
    by (auto simp: handleTerminalState_def new_client_def in_counter_range_def max_safe_integer_def)
qed

text \<open>
  C21. Recovery: a client in any state the server's messages can leave it in that sends a
  \<open>sync\<close> action the server has not seen is answered with the current snapshot and holds it,
  with no request pending.
\<close>

theorem terminal_sync_recovers:
  assumes "reachable digest m" "in_counter_range m" "safeActor a" "safeIdentifier k"
    and "remembered m k = None" "follows c (snapshot m)"
  shows "terminalState (fold receive (sent_to digest (socketId a)
        (Dispatched a \<lparr> actionId = k, body = Sync \<rparr>) m) c) = Some (snapshot m)
    \<and> \<not> terminalSyncPending (fold receive (sent_to digest (socketId a)
        (Dispatched a \<lparr> actionId = k, body = Sync \<rparr>) m) c)"
proof -
  have "parseSharedTerminalState (state_json (snapshot m)) = Some (snapshot m)"
    using snapshot_wf [OF reachable_ok [OF assms(1)] assms(2)] by (rule state_roundtrip)
  moreover have "sent_to digest (socketId a) (Dispatched a \<lparr> actionId = k, body = Sync \<rparr>) m
      = [StateMessage (state_json (snapshot m))]"
    using assms(3-5) remember_frame(1) [of k _ m]
    by (simp add: sent_to_def deliveries_def dispatch_def Let_def still_result_def snapshot_def)
  ultimately show ?thesis
    using assms(6) by (auto simp: handleTerminalState_def follows_def older_snapshot_def)
qed

theorem terminal_sync_recovers_witness:
  "terminalState (fold receive (sent_to id (js ''s1'')
      (Dispatched demo_actor \<lparr> actionId = js ''a2'', body = Sync \<rparr>) demo_busy)
      \<lparr> terminalState = Some (snapshot demo_busy), terminalSyncPending = True,
        terminalInitialSnapshotPending = False, stopped = False \<rparr>) = Some (snapshot demo_busy)"
proof -
  have sid: "socketId demo_actor = js ''s1''" by (simp add: demo_actor_def)
  show ?thesis
    using terminal_sync_recovers [OF demo_busy_reachable _ demo_safe(1,4), of
        "\<lparr> terminalState = Some (snapshot demo_busy), terminalSyncPending = True,
           terminalInitialSnapshotPending = False, stopped = False \<rparr>"]
    by (simp add: in_counter_range_def max_safe_integer_def demo_busy_fields follows_def sid)
qed

text \<open>
  Interrupting a running program whose input line is empty changes nothing a client can
  see, yet counts as a change: the machine publishes a delta with no operation, which every
  client refuses to apply and answers by asking for a full snapshot.
\<close>

theorem terminal_interrupt_delta_is_refused:
  assumes "safeActor a" "safeIdentifier k" "remembered m k = None"
    and "mode (state m) = Busy" "host (state m) = Some h" "activeRun (state m) = Some r"
    and "\<not> activeRunPythonMode (state m)" "inputValue (state m) = []" "inputCursor (state m) = 0"
    and "inputOwner (state m) = None" "prompt (state m) = []" "inputRequestId (state m) = None"
  shows "\<exists>d. r_delta (snd (dispatch digest a \<lparr> actionId = k, body = Interrupt \<rparr> m)) = Some d
    \<and> d_operations d = []
    \<and> (\<forall>s. applySharedTerminalDelta s (delta_json d) = None)
    \<and> seq (state (fst (dispatch digest a \<lparr> actionId = k, body = Interrupt \<rparr> m))) = seq (state m) + 1"
  using assms
  by (simp add: dispatch_fresh signal_def signal_run_def Let_def prepared_def packageResult_def
        changed_outcome_def update_state_def clearInput_def buildDelta_def snapshot_def
        publicState_def sameInput_def sameRuntime_def sameParticipant_def delta_wire_empty)

theorem terminal_interrupt_delta_is_refused_witness:
  "\<exists>d. r_delta (snd (dispatch id demo_guest (demo_action ''a2'' Interrupt) demo_busy)) = Some d
     \<and> d_operations d = []"
  using terminal_interrupt_delta_is_refused [OF demo_safe(2,4) _ demo_busy_fields(1,2,9), of id]
  by (auto simp: demo_busy_fields demo_action_def)

section \<open>Retries\<close>

lemma apply_body_memory:
  assumes "machine_ok m" "safeActor a" "safeIdentifier (actionId act)" "remembered m (actionId act) = None"
    and "body act \<noteq> Sync"
  shows "remembered (fst (dispatch digest a act m))
      = remembered (remember (actionId act) (sharedTerminalActionFingerprint digest act) m)
    \<and> rememberedQueue (fst (dispatch digest a act m))
      = rememberedQueue (remember (actionId act) (sharedTerminalActionFingerprint digest act) m)"
proof -
  have "same_memory (prepared digest act m) (fst (apply_body a (body act) (prepared digest act m)))"
    using prepared_handled [OF assms(1-4), of digest] by (auto simp: handled_def)
  then show ?thesis
    using assms by (simp add: dispatch_fresh packageResult_fst update_state_def same_memory_def prepared_def)
qed

text \<open>A step leaves the memory alone or remembers one new action.\<close>

lemma toShell_memory:
  "remembered (toShell m) = remembered m" "rememberedQueue (toShell m) = rememberedQueue m"
  "remembered (append_text v m) = remembered m" "rememberedQueue (append_text v m) = rememberedQueue m"
  by (simp_all add: toShell_def clearInput_def update_state_def finish_line_def append_text_def Let_def)

lemma memory_if:
  "remembered m = g \<Longrightarrow> remembered n = g \<Longrightarrow> remembered (if b then m else n) = g"
  "rememberedQueue m = q \<Longrightarrow> rememberedQueue n = q \<Longrightarrow> rememberedQueue (if b then m else n) = q"
  by simp_all

lemma package_memory:
  "remembered (fst (packageResult aid before out m)) = remembered m"
  "rememberedQueue (fst (packageResult aid before out m)) = rememberedQueue m"
  by (simp_all add: packageResult_fst update_state_def)

lemma disconnect_memory:
  "remembered (fst (disconnect sid m)) = remembered m"
  "rememberedQueue (fst (disconnect sid m)) = rememberedQueue m"
  unfolding disconnect_def Let_def package_memory
  by (intro memory_if; (simp only: toShell_memory)?; (intro memory_if)?; simp add: update_state_def)+

lemma updateActor_memory:
  "remembered (fst (updateActor a m)) = remembered m"
  "rememberedQueue (fst (updateActor a m)) = rememberedQueue m"
  unfolding updateActor_def Let_def
  by (simp_all add: package_memory update_state_def)

definition same_memories :: "machine \<Rightarrow> machine \<Rightarrow> bool" where
  "same_memories m m' \<longleftrightarrow> remembered m' = remembered m \<and> rememberedQueue m' = rememberedQueue m"

lemma memory_step:
  assumes ok: "machine_ok m"
  shows "same_memories m (advance digest e m)
    \<or> (\<exists>k fp. k \<noteq> [] \<and> remembered m k = None \<and> same_memories (remember k fp m) (advance digest e m))"
proof (cases e)
  case (Dispatched a act)
  show ?thesis
  proof (cases "safeActor a \<and> safeIdentifier (actionId act) \<and> remembered m (actionId act) = None")
    case True
    moreover have "same_memories (remember (actionId act) (sharedTerminalActionFingerprint digest act) m)
        (advance digest e m)"
      using True apply_body_memory [OF ok, of a act digest]
      by (cases "body act = Sync")
         (simp_all add: advance_def Dispatched same_memories_def dispatch_def Let_def)
    ultimately show ?thesis using safeIdentifier_nonempty by blast
  next
    case False
    then have "same_memories m (advance digest e m)"
      by (auto simp: advance_def Dispatched same_memories_def dispatch_def Let_def package_memory
            split: option.splits)
    then show ?thesis ..
  qed
qed (simp_all add: advance_def same_memories_def disconnect_memory updateActor_memory)

text \<open>The action is remembered, with at most \<open>n\<close> younger ones.\<close>

definition remembers :: "jstr \<Rightarrow> jstr \<Rightarrow> nat \<Rightarrow> machine \<Rightarrow> bool" where
  "remembers k fp n m \<longleftrightarrow> remembered m k = Some fp
     \<and> (\<exists>older younger. rememberedQueue m = older @ k # younger \<and> length younger \<le> n)"

lemma remembersI:
  "remembered m k = Some fp \<Longrightarrow> rememberedQueue m = older @ k # younger \<Longrightarrow> length younger \<le> n
     \<Longrightarrow> remembers k fp n m"
  unfolding remembers_def by blast

lemma remembers_remember:
  assumes ok: "memory_ok m" and r: "remembers k fp n m" and n: "Suc n < maxRememberedActions"
    and new: "k' \<noteq> []" "remembered m k' = None"
  shows "remembers k fp (Suc n) (remember k' fp' m)"
proof -
  from r obtain older younger where mem: "remembered m k = Some fp"
    and q: "rememberedQueue m = older @ k # younger" and len: "length younger \<le> n"
    by (auto simp: remembers_def)
  from mem new have "k' \<noteq> k" by auto
  show ?thesis
  proof (cases "length (rememberedQueue m) < maxRememberedActions")
    case True
    with ok new(1) mem q len \<open>k' \<noteq> k\<close> show ?thesis
      by (intro remembersI [of _ _ _ older "younger @ [k']"]) (simp_all add: remember_eq)
  next
    case False
    with q len n have "older \<noteq> []" by auto
    then obtain x xs where older: "older = x # xs" by (cases older) auto
    with ok q have "x \<noteq> k" by (auto simp: memory_ok_def)
    with False ok new(1) mem q len older \<open>k' \<noteq> k\<close> show ?thesis
      by (intro remembersI [of _ _ _ xs "younger @ [k']"]) (simp_all add: remember_eq)
  qed
qed

lemma remembers_advance:
  assumes "machine_ok m" "remembers k fp n m" "Suc n < maxRememberedActions"
  shows "remembers k fp (Suc n) (advance digest e m)"
  using memory_step [OF assms(1), of digest e]
proof (elim disjE exE conjE)
  assume "same_memories m (advance digest e m)"
  with assms(2) show ?thesis
    unfolding same_memories_def remembers_def by (metis le_SucI)
next
  fix k' fp'
  assume "k' \<noteq> []" "remembered m k' = None" "same_memories (remember k' fp' m) (advance digest e m)"
  with assms remembers_remember [of m k fp n k' fp'] show ?thesis
    by (simp add: same_memories_def remembers_def machine_ok_def)
qed

lemma remembers_run:
  "machine_ok m \<Longrightarrow> remembers k fp n m \<Longrightarrow> n + length es < maxRememberedActions
     \<Longrightarrow> machine_ok (fold (advance digest) es m)
       \<and> remembers k fp (n + length es) (fold (advance digest) es m)"
proof (induction es arbitrary: m n)
  case (Cons e es)
  then have "remembers k fp (Suc n) (advance digest e m)" "machine_ok (advance digest e m)"
    using remembers_advance step_transition by auto
  from Cons.IH [OF this(2,1)] Cons.prems(3) show ?case by simp
qed simp

lemma dispatch_remembers:
  assumes "machine_ok m" "safeActor a" "safeIdentifier (actionId act)" "remembered m (actionId act) = None"
  shows "remembers (actionId act) (sharedTerminalActionFingerprint digest act) 0 (fst (dispatch digest a act m))"
proof -
  from assms have mem: "memory_ok m" and ne: "actionId act \<noteq> []"
    by (simp_all add: machine_ok_def safeIdentifier_nonempty)
  have "remembers (actionId act) (sharedTerminalActionFingerprint digest act) 0
      (remember (actionId act) (sharedTerminalActionFingerprint digest act) m)"
    using remembered_remember [OF mem assms(4) ne] remember_eq [OF mem ne]
    by (auto simp: remembers_def)
  with assms apply_body_memory [OF assms] show ?thesis
    by (cases "body act = Sync") (simp_all add: remembers_def dispatch_def Let_def)
qed

text \<open>
  C22. Delivery is at most once: after an action of a valid actor has been handled, any further
  action with its identifier, from whomever, within the next 4095 events leaves the machine
  exactly as it is and is answered \<open>duplicate\<close> when its fingerprint is the same and rejected
  with \<open>idempotency-conflict\<close> when it is not.
\<close>

theorem terminal_action_applied_at_most_once:
  assumes "reachable digest m" "safeActor a" "safeIdentifier (actionId act)"
    and "remembered m (actionId act) = None" "length es < maxRememberedActions"
    and "safeActor b" "actionId retry = actionId act"
  shows "\<exists>r. dispatch digest b retry (fold (advance digest) es (fst (dispatch digest a act m)))
      = (fold (advance digest) es (fst (dispatch digest a act m)), r)
    \<and> \<not> r_changed r \<and> r_effect r = None
    \<and> a_status (r_ack r) = (if sharedTerminalActionFingerprint digest retry
          = sharedTerminalActionFingerprint digest act then Duplicate else Rejected)
    \<and> r_error r = (if sharedTerminalActionFingerprint digest retry
          = sharedTerminalActionFingerprint digest act then None else Some ErrIdempotencyConflict)"
proof -
  note ok = reachable_ok [OF assms(1)]
  have "remembers (actionId act) (sharedTerminalActionFingerprint digest act) (0 + length es)
      (fold (advance digest) es (fst (dispatch digest a act m)))"
    using remembers_run [OF _ dispatch_remembers [OF ok assms(2-4)]] dispatch_ok [OF ok] assms(5)
    by simp
  with assms(3,6,7) show ?thesis
    by (simp add: remembers_def dispatch_def Let_def still_result_def createSharedTerminalAck_def)
qed

lemma demo_run_id: "actionId demo_run = js ''a1''"
  by (simp add: demo_run_def)

theorem terminal_action_applied_at_most_once_witness:
  "\<exists>r. dispatch id demo_actor demo_run (advance id (Disconnected (js ''s2'')) demo_busy)
      = (advance id (Disconnected (js ''s2'')) demo_busy, r) \<and> a_status (r_ack r) = Duplicate"
  using terminal_action_applied_at_most_once [OF demo_new_reachable demo_safe(1), of demo_run
      "[Disconnected (js ''s2'')]" demo_actor demo_run]
  by (auto simp: demo_safe demo_run_id
        demo_new_fields maxRememberedActions_def demo_busy_def advance_def)

section \<open>Who may do what\<close>

lemma demo_sockets: "socketId demo_actor = js ''s1''" "socketId demo_guest = js ''s2''"
  by (simp_all add: demo_actor_def demo_guest_def)

text \<open>The run a host report is about.\<close>

fun reported_run :: "action_body \<Rightarrow> jstr option" where
  "reported_run (HostOutput r c) = Some r"
| "reported_run (HostInputRequest r q) = Some r"
| "reported_run (HostReady r n p t) = Some r"
| "reported_run (HostFailed r msg) = Some r"
| "reported_run _ = None"

lemma report_by_stranger:
  assumes "reported_run b = Some rid" "\<not> isCurrentHost a rid m"
  shows "apply_body a b m = (m, unchanged_outcome (Some ErrNotHost))"
  using assms
  by (cases b)
     (simp_all add: hostOutput_def hostInputRequest_def hostReady_def hostFailed_def)

text \<open>
  C23. Output, input requests, completion and failure of a program are accepted only from the
  socket that executes it and for the current run: a report from another socket, or about
  another run, is rejected with \<open>not-host\<close> and changes nothing.
\<close>

theorem terminal_reports_only_from_host:
  assumes "safeActor a" "safeIdentifier (actionId act)" "remembered m (actionId act) = None"
    and "reported_run (body act) = Some rid"
    and "map_option socketId (host (state m)) \<noteq> Some (socketId a)
      \<or> map_option runId (activeRun (state m)) \<noteq> Some rid"
  shows "snapshot (fst (dispatch digest a act m)) = snapshot m
    \<and> r_error (snd (dispatch digest a act m)) = Some ErrNotHost
    \<and> a_status (r_ack (snd (dispatch digest a act m))) = Rejected"
proof -
  have "body act \<noteq> Sync" using assms(4) by (cases "body act") simp_all
  moreover have "\<not> isCurrentHost a rid (prepared digest act m)"
    using assms(5) by (auto simp: isCurrentHost_def prepared_def)
  ultimately show ?thesis
    using assms
    by (simp add: dispatch_fresh report_by_stranger packageResult_def unchanged_outcome_def Let_def
          createSharedTerminalAck_def snapshot_def prepared_def)
qed

theorem terminal_reports_only_from_host_witness:
  "r_error (snd (dispatch id demo_guest
     (demo_action ''a2'' (HostOutput (run_id_text (js ''e'') 1 1) (js ''x''))) demo_busy)) = Some ErrNotHost"
  using terminal_reports_only_from_host [of demo_guest
      "demo_action ''a2'' (HostOutput (run_id_text (js ''e'') 1 1) (js ''x''))" demo_busy
      "run_id_text (js ''e'') 1 1" id]
  by (simp add: demo_safe demo_busy_fields demo_sockets)

lemma busy_bodies:
  assumes "mode (state m) = Busy"
  shows "transcript (state (fst (apply_body a b m))) = transcript (state m)
    \<or> b = Interrupt \<or> (\<exists>rid. reported_run b = Some rid \<and> isCurrentHost a rid m)"
proof (cases "reported_run b")
  case None
  have "transcript (state (fst (signal SigEof m))) = transcript (state m)"
    using assms
    by (auto simp: signal_def signal_run_def Let_def clearInput_def update_state_def
          split: option.splits)
  with None show ?thesis
    by (cases b) (simp_all add: assms claim_def release_def editInput_def submitLine_def startRun_def
        update_state_def)
next
  case (Some rid)
  then show ?thesis
    using report_by_stranger [OF Some, of a m] by (cases "isCurrentHost a rid m") auto
qed

lemma transcript_frame:
  "transcript (state (fst (packageResult aid before out m))) = transcript (state m)"
  by (simp add: packageResult_fst update_state_def)

lemma transcript_if:
  "transcript (state (if b then m else n)) = (if b then transcript (state m) else transcript (state n))"
  by simp

lemma owner_left_frame:
  "host (state (if b then update_state (\<lambda>s. s\<lparr> inputOwner := None \<rparr>) (m\<lparr> transcriptOperations := [] \<rparr>)
     else m\<lparr> transcriptOperations := [] \<rparr>)) = host (state m)"
  "transcript (state (if b then update_state (\<lambda>s. s\<lparr> inputOwner := None \<rparr>) (m\<lparr> transcriptOperations := [] \<rparr>)
     else m\<lparr> transcriptOperations := [] \<rparr>)) = transcript (state m)"
  by (simp_all add: update_state_def)

lemma disconnect_other_transcript:
  "map_option socketId (host (state m)) \<noteq> Some sid \<Longrightarrow>
     transcript (state (fst (disconnect sid m))) = transcript (state m)"
  unfolding disconnect_def Let_def transcript_frame owner_left_frame
  by (simp only: if_False owner_left_frame split: if_split)

lemma updateActor_transcript:
  "transcript (state (fst (updateActor a m))) = transcript (state m)"
  unfolding updateActor_def Let_def
  by (simp add: transcript_frame update_state_def)

text \<open>
  While a program runs, the transcript changes only by a report of its host about its run,
  by an interrupt, or by the host's disconnection: no other participant, action or profile
  update can write to it.
\<close>

theorem terminal_transcript_of_a_run:
  assumes "reachable digest m" "mode (state m) = Busy"
    and "transcript (state (fst (step digest e m))) \<noteq> transcript (state m)"
  shows "(\<exists>a act rid. e = Dispatched a act \<and> reported_run (body act) = Some rid \<and> isCurrentHost a rid m)
    \<or> (\<exists>a act. e = Dispatched a act \<and> body act = Interrupt)
    \<or> (\<exists>h. host (state m) = Some h \<and> e = Disconnected (socketId h))"
proof (cases e)
  case (Dispatched a act)
  have fresh: "safeActor a" "safeIdentifier (actionId act)" "remembered m (actionId act) = None" "body act \<noteq> Sync"
    using assms(3) Dispatched
    by (auto simp: dispatch_def Let_def transcript_frame split: option.splits if_splits)
  have st: "state (prepared digest act m) = state m" by (simp add: prepared_def)
  have "isCurrentHost a rid (prepared digest act m) = isCurrentHost a rid m" for rid
    by (simp add: isCurrentHost_def st)
  with busy_bodies [of "prepared digest act m" a "body act"] fresh assms(2,3) Dispatched
  show ?thesis by (auto simp: dispatch_fresh transcript_frame st)
next
  case (Disconnected sid)
  with assms(3) disconnect_other_transcript [of m sid] show ?thesis by auto
next
  case (ProfileUpdated a)
  with assms(3) show ?thesis by (simp add: updateActor_transcript)
qed

theorem terminal_transcript_of_a_run_witness:
  "transcript (state (fst (step id (Dispatched demo_guest (demo_action ''a2'' (SubmitLine (js ''x'')))) demo_busy)))
     = transcript (state demo_busy)"
  using terminal_transcript_of_a_run [OF demo_busy_reachable demo_busy_fields(1), of
      "Dispatched demo_guest (demo_action ''a2'' (SubmitLine (js ''x'')))"]
  by auto

text \<open>The actions that write to the shared input line or take it.\<close>

fun wants_input :: "action_body \<Rightarrow> bool" where
  "wants_input Claim = True"
| "wants_input (EditInput v c) = True"
| "wants_input (SubmitLine v) = True"
| "wants_input (StartRun e p t) = True"
| "wants_input _ = False"

lemma owned_input_refused:
  assumes "wants_input b" "owned_by_other a m"
  shows "\<exists>err. apply_body a b m = (m, unchanged_outcome (Some err)) \<and> (err = ErrBusy \<or> err = ErrInputOwned)"
  using assms
  by (cases b) (auto simp: claim_def editInput_def submitLine_def startRun_def)

text \<open>
  C24. The input line belongs to the socket that claimed it: while it does, no other socket
  can claim it, type into it, submit it or start a run over it; such an action is rejected and
  changes nothing.
\<close>

theorem terminal_input_is_exclusive:
  assumes "safeActor a" "safeIdentifier (actionId act)" "remembered m (actionId act) = None"
    and "wants_input (body act)" "inputOwner (state m) = Some ow" "socketId ow \<noteq> socketId a"
  shows "snapshot (fst (dispatch digest a act m)) = snapshot m
    \<and> (r_error (snd (dispatch digest a act m)) = Some ErrBusy
       \<or> r_error (snd (dispatch digest a act m)) = Some ErrInputOwned)"
proof -
  have "body act \<noteq> Sync" using assms(4) by (cases "body act") simp_all
  moreover have "owned_by_other a (prepared digest act m)"
    using assms(5,6) by (simp add: owned_by_other_def prepared_def)
  from owned_input_refused [OF assms(4) this] obtain err
    where "apply_body a (body act) (prepared digest act m)
        = (prepared digest act m, unchanged_outcome (Some err))"
      and "err = ErrBusy \<or> err = ErrInputOwned" by blast
  ultimately show ?thesis
    using assms
    by (auto simp: dispatch_fresh packageResult_def unchanged_outcome_def Let_def snapshot_def
          prepared_def)
qed

lemma demo_claimed:
  "inputOwner (state (advance id (Dispatched demo_actor (demo_action ''a2'' Claim)) demo_new)) = Some demo_actor"
  "remembered (advance id (Dispatched demo_actor (demo_action ''a2'' Claim)) demo_new) (js ''a1'') = None"
  by (simp_all add: dispatch_fresh demo_safe demo_new_fields claim_def owned_by_other_def owned_by_def
        packageResult_fst changed_outcome_def update_state_def prepared_def advance_def
        remember_def evict_short maxRememberedActions_def)

theorem terminal_input_is_exclusive_witness:
  "snapshot (fst (dispatch id demo_guest (demo_action ''a1'' (SubmitLine (js ''ls'')))
     (advance id (Dispatched demo_actor (demo_action ''a2'' Claim)) demo_new)))
   = snapshot (advance id (Dispatched demo_actor (demo_action ''a2'' Claim)) demo_new)"
  using terminal_input_is_exclusive [of demo_guest "demo_action ''a1'' (SubmitLine (js ''ls''))"
      "advance id (Dispatched demo_actor (demo_action ''a2'' Claim)) demo_new" demo_actor id]
  by (simp add: demo_safe demo_claimed demo_sockets)

section \<open>Effects and runs\<close>

lemma accepted_effect:
  assumes "safeIdentifier (effect_runId eff)" "effect_data_ok eff"
  shows "parseSharedTerminalClientEffect (toSharedTerminalClientEffect eff)
    = Some (toSharedTerminalClientEffect eff)"
  using assms
proof (cases eff)
  case (StartRunEffect t r e ep te)
  with assms show ?thesis
    by (cases te)
       (auto simp: parseSharedTerminalClientEffect_def effect_fields_ok_def wire_simps Let_def)
qed (auto simp: parseSharedTerminalClientEffect_def effect_fields_ok_def wire_simps Let_def)

text \<open>
  An effect the machine emits is addressed to the socket that is the host after the step
  and names the run that is current after it, and the client parser accepts its wire form.
\<close>

theorem terminal_effects_reach_their_host:
  assumes "reachable digest m" "in_counter_range (advance digest e m)"
    and "r_effect (snd (step digest e m)) = Some eff"
  shows "map_option socketId (host (state (advance digest e m))) = Some (targetSocketId eff)
    \<and> map_option runId (activeRun (state (advance digest e m))) = Some (effect_runId eff)
    \<and> parseSharedTerminalClientEffect (toSharedTerminalClientEffect eff)
        = Some (toSharedTerminalClientEffect eff)"
proof -
  note ok = reachable_step(2) [OF assms(1), of e]
  have eff: "effect_addressed eff (advance digest e m)" "effect_data_ok eff"
    using reachable_step(3) [OF assms(1), of e] assms(3) by (auto simp: transition_def)
  then obtain r where "activeRun (state (advance digest e m)) = Some r" "runId r = effect_runId eff"
    by (auto simp: effect_addressed_def)
  with issued_run_identifier [OF ok assms(2)] eff show ?thesis
    by (auto simp: effect_addressed_def accepted_effect)
qed

lemma demo_run_effect:
  "r_effect (snd (step id (Dispatched demo_actor demo_run) demo_new))
     = Some (StartRunEffect (js ''s1'') (run_id_text (js ''e'') 1 1) (js ''main'') (js ''m.py'') None)"
  using dispatch_fresh [of demo_actor demo_run demo_new id]
  by (simp add: demo_run_def demo_safe demo_new_fields demo_prepared_state [unfolded demo_run_def]
        startRun_def owned_by_other_def createRunId_def mutation_defs packageResult_def
        changed_outcome_def Let_def maxCommandCodeUnits_def demo_sockets)

theorem terminal_effects_reach_their_host_witness:
  "map_option socketId (host (state demo_busy)) = Some (js ''s1'')"
  using terminal_effects_reach_their_host [OF demo_new_reachable _ demo_run_effect]
    demo_busy_fields(8)
  by (simp add: in_counter_range_def max_safe_integer_def demo_busy_def)

text \<open>
  A run identifier never comes back: once the run that is current in some reachable state
  is no longer current, no later state has a run with its identifier, so a late report about it
  is never taken for a report about another run.
\<close>

theorem terminal_run_ids_are_not_reused:
  assumes "reachable digest m" "activeRun (state m) = Some r"
    and "map_option runId (activeRun (state (fold (advance digest) es m))) \<noteq> Some (runId r)"
  shows "map_option runId (activeRun (state
      (fold (advance digest) es' (fold (advance digest) es m)))) \<noteq> Some (runId r)"
proof -
  have "retired (runId r) (fold (advance digest) es m)"
    using reachable_ok [OF assms(1)] assms
    by (intro issued_or_retired) (simp_all add: machine_ok_def core_ok_def)
  from retired_run [OF this, of digest es'] show ?thesis by (simp add: retired_def)
qed

lemma demo_gone: "activeRun (state (fst (disconnect (js ''s1'') demo_busy))) = None"
  unfolding disconnect_def Let_def package_run
  by (simp add: demo_busy_fields demo_sockets run_toShell)

theorem terminal_run_ids_are_not_reused_witness:
  "map_option runId (activeRun (state (fold (advance id) [ProfileUpdated demo_actor]
     (fold (advance id) [Disconnected (js ''s1'')] demo_busy)))) \<noteq> Some (run_id_text (js ''e'') 1 1)"
proof -
  have "activeRun (state (fold (advance id) [Disconnected (js ''s1'')] demo_busy)) = None"
    using demo_gone by (simp add: advance_def)
  then show ?thesis
    using terminal_run_ids_are_not_reused [OF demo_busy_reachable demo_busy_fields(9)]
    by (metis option.map_disc_iff option.simps(3) run.select_convs(1))
qed

text \<open>
  When the socket that executes a run disconnects, whatever the mode, the terminal is a
  free shell again: no host, no run, no pending input request, the shell prompt, an empty input
  line, and the notice at the end of the transcript.
\<close>

theorem terminal_survives_its_host:
  assumes "host (state m) = Some h"
  shows "mode (state (fst (disconnect (socketId h) m))) = Shell
    \<and> prompt (state (fst (disconnect (socketId h) m))) = js ''$ ''
    \<and> host (state (fst (disconnect (socketId h) m))) = None
    \<and> activeRun (state (fst (disconnect (socketId h) m))) = None
    \<and> inputRequestId (state (fst (disconnect (socketId h) m))) = None
    \<and> inputOwner (state (fst (disconnect (socketId h) m))) = None
    \<and> inputValue (state (fst (disconnect (socketId h) m))) = []
    \<and> transcript (state (fst (disconnect (socketId h) m)))
        = appended disconnect_notice (transcript (state m))"
proof -
  define n where "n = (if map_option socketId (inputOwner (state m)) = Some (socketId h)
    then update_state (\<lambda>s. s\<lparr> inputOwner := None \<rparr>) (m\<lparr> transcriptOperations := [] \<rparr>)
    else m\<lparr> transcriptOperations := [] \<rparr>)"
  have n: "host (state n) = Some h" "transcript (state n) = transcript (state m)"
    using assms by (simp_all add: n_def update_state_def)
  have "fst (disconnect (socketId h) m)
      = update_state (\<lambda>s. s\<lparr> seq := seq s + 1 \<rparr>) (toShell (append_text disconnect_notice n))"
    unfolding disconnect_def Let_def packageResult_fst
    using assms n(1) by (simp add: n_def update_state_def changed_outcome_def)
  then show ?thesis
    using toShell_after_line(2) [OF disconnect_notice_line, of n] n(2)
    by (simp add: update_state_def toShell_fields)
qed

theorem terminal_survives_its_host_witness:
  "mode (state (fst (disconnect (js ''s1'') demo_busy))) = Shell"
  using terminal_survives_its_host [OF demo_busy_fields(2)] by (simp add: demo_sockets)

section \<open>The wire\<close>

lemma body_sound: "parse_body ob t = Some b \<Longrightarrow> body_wf b"
  by (auto simp: parse_body_def simple_body_def body_parsers Let_def bind_eq_Some_conv guard_Some
        safe_integer_Some split: if_splits dest: test_result_sound)

lemma action_sound: "parseSharedTerminalActionEnvelope v = Some act \<Longrightarrow> action_wf act"
  by (auto simp: parseSharedTerminalActionEnvelope_def bind_eq_Some_conv guard_Some action_wf_def
        dest: body_sound)

text \<open>
  C25. Exactly the well-formed actions are accepted: an action has an envelope the server's
  parser accepts and reads as that action if and only if its identifiers, texts, cursor, path
  and test result are within the bounds of the protocol; its own serialisation is such an
  envelope.
\<close>

theorem terminal_accepts_exactly_wellformed_actions:
  "((\<exists>v. parseSharedTerminalActionEnvelope v = Some act) \<longleftrightarrow> action_wf act)
    \<and> (action_wf act \<longleftrightarrow> parseSharedTerminalActionEnvelope (envelope_json act) = Some act)"
  using action_roundtrip action_sound by blast

text \<open>
  Exactly the well-formed snapshots are accepted by a client, and a snapshot survives the
  wire unchanged.
\<close>

theorem terminal_snapshot_survives_the_wire:
  "((\<exists>v. parseSharedTerminalState v = Some st) \<longleftrightarrow> state_wf st)
    \<and> (state_wf st \<longleftrightarrow> parseSharedTerminalState (state_json st) = Some st)"
  using state_roundtrip state_sound by blast

lemma ack_accepted:
  assumes "safeIdentifier (a_actionId k)" "1 \<le> a_generation k" "int (a_generation k) \<le> max_safe_integer"
    and "int (a_seq k) \<le> max_safe_integer" "a_status k = Rejected \<longleftrightarrow> a_error k \<noteq> None"
  shows "parseSharedTerminalAck (ack_json k) = Some (ack_json k)"
proof -
  have status: "one_of ack_statuses (JStr (js (status_text st)))" for st
    by (cases st) (simp_all add: one_of_def ack_statuses_def)
  have rejected: "js (status_text st) = js ''rejected'' \<longleftrightarrow> st = Rejected" for st
    by (cases st) simp_all
  have err: "one_of ack_errors (JStr (js (error_text e)))" for e
    by (cases e) (simp_all add: one_of_def ack_errors_def)
  show ?thesis
    using assms status status [of Rejected] rejected err
    by (cases "a_error k")
       (simp_all add: parseSharedTerminalAck_def ack_json_def wire_simps bounded_counter_nat_json)
qed

lemma dispatch_ack_id: "a_actionId (r_ack (snd (dispatch digest a act m))) = actionId act"
  by (simp add: dispatch_def packageResult_def createSharedTerminalAck_def still_result_def Let_def
        case_prod_beta split: option.splits)

text \<open>
  C26. Everything a client receives back for an accepted action parses: the acknowledgement,
  with the error code exactly when the action was rejected, and the snapshot of any reachable
  terminal.
\<close>

theorem terminal_answers_are_accepted:
  assumes "reachable digest m" "in_counter_range (advance digest (Dispatched a act) m)"
    and "safeIdentifier (actionId act)"
  shows "parseSharedTerminalAck (ack_json (r_ack (snd (dispatch digest a act m))))
      = Some (ack_json (r_ack (snd (dispatch digest a act m))))
    \<and> parseSharedTerminalState (state_json (r_state (snd (dispatch digest a act m))))
      = Some (snapshot (advance digest (Dispatched a act) m))"
proof -
  let ?e = "Dispatched a act"
  note ok = reachable_step(2) [OF assms(1), of ?e]
  have tr: "transition m (advance digest ?e m, snd (dispatch digest a act m))"
    using reachable_step(3) [OF assms(1), of ?e] by simp
  have wf: "state_wf (snapshot (advance digest ?e m))" using ok assms(2) by (rule snapshot_wf)
  then have "1 \<le> s_generation (snapshot (advance digest ?e m))"
    "int (s_generation (snapshot (advance digest ?e m))) \<le> max_safe_integer"
    "int (s_seq (snapshot (advance digest ?e m))) \<le> max_safe_integer"
    by (simp_all only: state_wf_def)
  with tr have "parseSharedTerminalAck (ack_json (r_ack (snd (dispatch digest a act m))))
      = Some (ack_json (r_ack (snd (dispatch digest a act m))))"
    by (intro ack_accepted) (simp_all add: transition_def dispatch_ack_id assms(3))
  with tr wf show ?thesis
    by (simp add: transition_def state_roundtrip)
qed

theorem terminal_answers_are_accepted_witness:
  "parseSharedTerminalState (state_json (r_state (snd (dispatch id demo_actor demo_run demo_new))))
     = Some (snapshot demo_busy)"
  using terminal_answers_are_accepted [OF demo_new_reachable, of demo_actor demo_run]
    demo_busy_fields(8)
  by (simp add: demo_busy_def in_counter_range_def max_safe_integer_def demo_run_id demo_safe)

section \<open>Sanitised text\<close>

lemma set_normalize_newlines: "0x0d \<notin> set (normalize_newlines s)"
  by (induction s rule: normalize_newlines.induct) auto

lemma normalize_id: "0x0d \<notin> set s \<Longrightarrow> normalize_newlines s = s"
  by (induction s rule: normalize_newlines.induct) auto

lemma strip_id: "0x1b \<notin> set s \<Longrightarrow> strip_ansi s = s"
proof (induction s)
  case (Cons c s)
  then have "ansi_match (c # s) = None" by (cases s) auto
  with Cons show ?case by simp
qed simp

lemma sanitized_units:
  "c \<in> set (sanitizeSharedTerminalOutput v) \<Longrightarrow> \<not> unsafe_control c \<and> c \<noteq> 0x0d"
  using set_normalize_newlines by (auto simp: sanitizeSharedTerminalOutput_def)

lemma escape_unsafe: "unsafe_control 0x1b"
  by (simp add: unsafe_control_def in_range_def)

text \<open>
  What a program writes is shown without control characters: sanitised output is at most
  65536 code units long, holds no carriage return, escape or other control character but tab
  and newline, and sanitising it again changes nothing.
\<close>

theorem terminal_output_is_clean:
  "length (sanitizeSharedTerminalOutput v) \<le> maxOutputChunkCodeUnits
    \<and> list_all (\<lambda>c. \<not> unsafe_control c \<and> c \<noteq> 0x0d \<and> c \<noteq> 0x1b) (sanitizeSharedTerminalOutput v)
    \<and> sanitizeSharedTerminalOutput (sanitizeSharedTerminalOutput v) = sanitizeSharedTerminalOutput v"
proof -
  let ?w = "sanitizeSharedTerminalOutput v"
  have len: "length ?w \<le> maxOutputChunkCodeUnits" by (rule length_sanitize)
  have clean: "\<not> unsafe_control c \<and> c \<noteq> 0x0d \<and> c \<noteq> 0x1b" if "c \<in> set ?w" for c
    using sanitized_units [OF that] escape_unsafe by auto
  then have "0x1b \<notin> set ?w" "0x0d \<notin> set ?w" by blast+
  then have "sanitizeSharedTerminalOutput ?w = filter (\<lambda>c. \<not> unsafe_control c) ?w"
    using len by (simp add: sanitizeSharedTerminalOutput_def [of ?w] strip_id normalize_id)
  moreover have "filter (\<lambda>c. \<not> unsafe_control c) ?w = ?w"
    using clean by (auto intro: filter_True)
  ultimately show ?thesis
    using len clean by (simp add: list_all_iff)
qed

text \<open>
  A line a participant types reaches the transcript and the host as one line: it has no
  line break and no control character and is at most 1024 code units long, and cleaning it
  again changes nothing.
\<close>

theorem terminal_input_is_one_line:
  "length (safeInput v) \<le> maxInputCodeUnits
    \<and> list_all (\<lambda>c. \<not> unsafe_control c \<and> c \<noteq> 0x0d \<and> c \<noteq> 0x0a) (safeInput v)
    \<and> safeInput (safeInput v) = safeInput v"
proof -
  have clean: "\<not> unsafe_control c \<and> c \<noteq> 0x0d \<and> c \<noteq> 0x0a" if "c \<in> set (safeInput v)" for c
    using that by (auto simp: safeInput_def dest: in_set_takeD)
  then have "safeInput (safeInput v) = safeInput v"
    using length_safeInput [of v]
    by (subst (1) safeInput_def) (simp add: filter_id_conv [THEN iffD2])
  with clean length_safeInput show ?thesis by (simp add: list_all_iff)
qed

section \<open>Workspace paths\<close>

fun slash_segments :: "jstr \<Rightarrow> jstr list" where
  "slash_segments [] = [[]]"
| "slash_segments (c # s) = (if c = 0x2f then [] # slash_segments s
     else (case slash_segments s of [] \<Rightarrow> [[c]] | g # gs \<Rightarrow> (c # g) # gs))"

text \<open>
  The path check of \<open>startRun\<close> does not see past a Unicode line or paragraph separator
  (\<open>.\<close> in its lookaheads stops there): a path that climbs out of the workspace and a path with
  a null character are accepted when U+2028 comes first.
\<close>

theorem terminal_path_check_is_blind_after_separator:
  "safe_workspace_path ([0x61, 0x2028] @ js ''/../../b'')
    \<and> js ''..'' \<in> set (slash_segments ([0x61, 0x2028] @ js ''/../../b''))
    \<and> safe_workspace_path [0x2028, 0x00]"
  by (simp add: safe_workspace_path_def js_def dot_segment_def is_line_terminator_def in_range_def
        is_high_surrogate_def)

lemma slash_segments_Cons:
  "hd (slash_segments (c # s)) = (if c = 0x2f then [] else c # hd (slash_segments s))"
  "set (tl (slash_segments (c # s))) =
     (if c = 0x2f then insert (hd (slash_segments s)) (set (tl (slash_segments s)))
      else set (tl (slash_segments s)))"
  "set (slash_segments s) = insert (hd (slash_segments s)) (set (tl (slash_segments s)))"
proof -
  have "slash_segments s \<noteq> []" for s by (cases s) (auto split: list.splits)
  then show "hd (slash_segments (c # s)) = (if c = 0x2f then [] else c # hd (slash_segments s))"
    and "set (tl (slash_segments (c # s))) =
     (if c = 0x2f then insert (hd (slash_segments s)) (set (tl (slash_segments s)))
      else set (tl (slash_segments s)))"
    and "set (slash_segments s) = insert (hd (slash_segments s)) (set (tl (slash_segments s)))"
    by (auto split: list.splits) (metis list.set_intros list.collapse list.set_cases set_ConsD)+
qed

definition dots :: "jstr \<Rightarrow> bool" where
  "dots g \<longleftrightarrow> g = [0x2e] \<or> g = [0x2e, 0x2e]"

lemma first_segment_empty: "at_segment_end s \<longleftrightarrow> hd (slash_segments s) = []"
  by (cases s) (auto simp: slash_segments_Cons simp del: slash_segments.simps(2))

lemma dot_segment_iff: "dot_segment s \<longleftrightarrow> dots (hd (slash_segments s))"
proof (cases s)
  case (Cons c t)
  then show ?thesis
    by (cases t)
       (auto simp: dot_segment_def dots_def first_segment_empty slash_segments_Cons
          simp del: slash_segments.simps(2))
qed (simp add: dot_segment_def dots_def)

lemma dot_segment_after_slash_iff:
  "list_all (\<lambda>c. \<not> is_line_terminator c) s \<Longrightarrow>
     dot_segment_after_slash s \<longleftrightarrow> (\<exists>g \<in> set (tl (slash_segments s)). dots g)"
proof (induction s)
  case (Cons c s)
  then show ?case
    by (auto simp: slash_segments_Cons dot_segment_iff simp del: slash_segments.simps(2))
qed simp

lemma forbidden_path_unit_iff:
  "list_all (\<lambda>c. \<not> is_line_terminator c) s \<Longrightarrow>
     forbidden_path_unit s \<longleftrightarrow> (\<exists>c \<in> set s. c = 0x5c \<or> c \<le> 0x1f \<or> c = 0x7f)"
  by (induction s) auto

text \<open>
  Without the two Unicode separators the path check keeps a path inside the workspace: an
  accepted path is relative, none of its segments is \<open>.\<close> or \<open>..\<close>, and it holds no backslash
  and no control character.
\<close>

theorem terminal_path_stays_in_workspace:
  assumes "safe_workspace_path s" "0x2028 \<notin> set s" "0x2029 \<notin> set s"
  shows "list_all (\<lambda>g. g \<noteq> js ''.'' \<and> g \<noteq> js ''..'') (slash_segments s)
    \<and> list_all (\<lambda>c. c \<noteq> 0x5c \<and> 0x1f < c \<and> c \<noteq> 0x7f) s \<and> s \<noteq> [] \<and> hd s \<noteq> 0x2f"
proof -
  have lines: "list_all (\<lambda>c. \<not> is_line_terminator c) s"
    using assms by (auto simp: safe_workspace_path_def is_line_terminator_def list_all_iff)
  have "js ''.'' = [0x2e]" "js ''..'' = [0x2e, 0x2e]" by (simp_all add: js_def)
  moreover have "\<not> dots g" if "g \<in> set (slash_segments s)" for g
    using that assms(1) slash_segments_Cons(3) [of s] dot_segment_after_slash_iff [OF lines]
    by (auto simp: safe_workspace_path_def dot_segment_iff)
  moreover have "c \<noteq> 0x5c \<and> 0x1f < c \<and> c \<noteq> 0x7f" if "c \<in> set s" for c
  proof -
    have "\<not> (c = 0x5c \<or> c \<le> 0x1f \<or> c = 0x7f)"
      using that assms(1) forbidden_path_unit_iff [OF lines]
      unfolding safe_workspace_path_def by blast
    then show ?thesis by (simp add: not_le)
  qed
  moreover have "s \<noteq> [] \<and> hd s \<noteq> 0x2f"
    using assms(1) by (cases s) (auto simp: safe_workspace_path_def)
  ultimately show ?thesis
    by (auto simp: list_all_iff dots_def)
qed

theorem terminal_path_stays_in_workspace_witness:
  "list_all (\<lambda>g. g \<noteq> js ''.'' \<and> g \<noteq> js ''..'') (slash_segments (js ''m.py''))"
  using terminal_path_stays_in_workspace [OF demo_safe(7)] by (simp add: js_def)

end
