(* ===== verification/Packet_Size.thy ===== *)
theory Packet_Size
  imports Json_Text
begin

text \<open>
  The size a decoded Socket.IO packet is charged: \<open>jsonStringBytes\<close> and
  \<open>boundedSocketPacketBytes\<close> of \<open>src/server/socketAbuse.ts\<close>. Packets are graphs of values in
  a heap, because the code follows references and remembers the objects it has seen; a
  cyclic packet is therefore a value of the model.
\<close>

section \<open>Constants\<close>

definition packet_max_depth :: nat where "packet_max_depth = 64"
definition packet_max_nodes :: nat where "packet_max_nodes = 100000"
definition packet_envelope_overhead :: nat where "packet_envelope_overhead = 64"
definition binary_attachment_overhead :: nat where "binary_attachment_overhead = 64"
definition ack_callback_overhead :: nat where "ack_callback_overhead = 16"

section \<open>Strings\<close>

definition short_escape :: "code_unit \<Rightarrow> bool" where
  "short_escape c \<longleftrightarrow> c = 0x22 \<or> c = 0x5c \<or> c = 0x08 \<or> c = 0x09 \<or> c = 0x0a \<or> c = 0x0c \<or> c = 0x0d"

text \<open>What the loop adds to the length in UTF-8, unit by unit; a surrogate pair is skipped.\<close>

fun escape_bytes :: "jstr \<Rightarrow> nat" where
  "escape_bytes [] = 0"
| "escape_bytes (c # s) =
     (if short_escape c then 1 + escape_bytes s
      else if c < 0x20 then 5 + escape_bytes s
      else if is_high_surrogate c then
        (case s of
           d # t \<Rightarrow> if is_low_surrogate d then escape_bytes t else 3 + escape_bytes s
         | [] \<Rightarrow> 3)
      else if is_low_surrogate c then 3 + escape_bytes s
      else escape_bytes s)"

definition jsonStringBytes :: "jstr \<Rightarrow> nat" where
  "jsonStringBytes v = utf8_length v + escape_bytes v + 2"

section \<open>Packets\<close>

datatype pval =
    PNull
  | PString jstr
  | PNumber jnum
  | PBoolean bool
  | PUndefined
  | PFunction
  | PBigintOrSymbol
  | PBinary nat
  | PRef nat

text \<open>
  What an address holds: an array, a plain object (own enumerable keys in order, \<open>None\<close> for
  an accessor property), or an object of another prototype.
\<close>

datatype pobj = PArray "pval list" | PObject "(jstr \<times> pval option) list" | PForeign

type_synonym heap = "nat \<Rightarrow> pobj"

record traversal =
  stack :: "(pval \<times> nat) list"
  seen :: "nat list"
  bytes :: nat
  nodes :: nat

datatype visit = TooLarge | Visited traversal

definition add_bytes :: "nat \<Rightarrow> nat \<Rightarrow> traversal \<Rightarrow> visit" where
  "add_bytes cutoff amount t =
     (if cutoff < bytes t + amount then TooLarge else Visited (t\<lparr> bytes := bytes t + amount \<rparr>))"

text \<open>
  \<open>2 + Math.max(0, length - 1)\<close>: the brackets and the commas.
\<close>

definition bracket_bytes :: "nat \<Rightarrow> nat" where
  "bracket_bytes n = 2 + (n - 1)"

definition wide :: "nat \<Rightarrow> traversal \<Rightarrow> bool" where
  "wide n t \<longleftrightarrow> packet_max_nodes < n + nodes t + length (stack t)"

text \<open>The loop over the keys runs from the last to the first and pushes as it goes.\<close>

fun push_properties :: "nat \<Rightarrow> nat \<Rightarrow> (jstr \<times> pval option) list \<Rightarrow> traversal \<Rightarrow> visit" where
  "push_properties cutoff d [] t = Visited t"
| "push_properties cutoff d ((k, slot) # rest) t =
     (case slot of None \<Rightarrow> TooLarge
      | Some v \<Rightarrow>
         (case add_bytes cutoff (jsonStringBytes k + 1) t of TooLarge \<Rightarrow> TooLarge
          | Visited t' \<Rightarrow> push_properties cutoff d rest (t'\<lparr> stack := (v, d) # stack t' \<rparr>)))"

definition visit_object :: "heap \<Rightarrow> nat \<Rightarrow> nat \<Rightarrow> nat \<Rightarrow> traversal \<Rightarrow> visit" where
  "visit_object h cutoff d a t =
     (if a \<in> set (seen t) then TooLarge
      else let t1 = t\<lparr> seen := a # seen t \<rparr> in
        case h a of
          PArray vs \<Rightarrow>
            (if wide (length vs) t1 then TooLarge
             else case add_bytes cutoff (bracket_bytes (length vs)) t1 of TooLarge \<Rightarrow> TooLarge
               | Visited t2 \<Rightarrow> Visited (t2\<lparr> stack := map (\<lambda>v. (v, d + 1)) vs @ stack t2 \<rparr>))
        | PForeign \<Rightarrow> TooLarge
        | PObject ps \<Rightarrow>
            (if wide (length ps) t1 then TooLarge
             else case add_bytes cutoff (bracket_bytes (length ps)) t1 of TooLarge \<Rightarrow> TooLarge
               | Visited t2 \<Rightarrow> push_properties cutoff (d + 1) (rev ps) t2))"

definition number_bytes :: "jnum \<Rightarrow> nat" where
  "number_bytes n = length (json_number n)"

fun visit_value :: "heap \<Rightarrow> nat \<Rightarrow> nat \<Rightarrow> pval \<Rightarrow> traversal \<Rightarrow> visit" where
  "visit_value h cutoff d PNull t = add_bytes cutoff 4 t"
| "visit_value h cutoff d (PString s) t = add_bytes cutoff (jsonStringBytes s) t"
| "visit_value h cutoff d (PNumber n) t = add_bytes cutoff (number_bytes n) t"
| "visit_value h cutoff d (PBoolean b) t = add_bytes cutoff (if b then 4 else 5) t"
| "visit_value h cutoff d PUndefined t = add_bytes cutoff 4 t"
| "visit_value h cutoff d PFunction t = add_bytes cutoff ack_callback_overhead t"
| "visit_value h cutoff d PBigintOrSymbol t = TooLarge"
| "visit_value h cutoff d (PBinary n) t = add_bytes cutoff (n + binary_attachment_overhead) t"
| "visit_value h cutoff d (PRef a) t = visit_object h cutoff d a t"

text \<open>One turn of the loop, on a non-empty stack.\<close>

definition turn :: "heap \<Rightarrow> nat \<Rightarrow> pval \<Rightarrow> nat \<Rightarrow> traversal \<Rightarrow> visit" where
  "turn h cutoff v d t =
     (if packet_max_nodes < nodes t + 1 \<or> packet_max_depth < d then TooLarge
      else visit_value h cutoff d v (t\<lparr> nodes := nodes t + 1 \<rparr>))"

lemma add_bytes_Visited:
  "add_bytes cutoff n t = Visited t' \<longleftrightarrow> bytes t + n \<le> cutoff \<and> t' = t\<lparr> bytes := bytes t + n \<rparr>"
  by (auto simp: add_bytes_def)

lemma push_properties_nodes: "push_properties cutoff d ps t = Visited t' \<Longrightarrow> nodes t' = nodes t"
  by (induction ps arbitrary: t) (auto simp: add_bytes_Visited split: option.splits visit.splits)

lemma visit_value_nodes: "visit_value h cutoff d v t = Visited t' \<Longrightarrow> nodes t' = nodes t"
  by (cases v)
     (auto simp: add_bytes_Visited visit_object_def Let_def split: if_splits pobj.splits visit.splits
        dest: push_properties_nodes)

lemma turn_nodes:
  "turn h cutoff v d t = Visited t' \<Longrightarrow> nodes t' = nodes t + 1 \<and> nodes t' \<le> packet_max_nodes"
  by (auto simp: turn_def split: if_splits dest: visit_value_nodes)

text \<open>Every turn counts a node and the count is bounded, so the loop ends on every graph.\<close>

function traverse :: "heap \<Rightarrow> nat \<Rightarrow> traversal \<Rightarrow> nat" where
  "traverse h cutoff t =
     (case stack t of [] \<Rightarrow> bytes t
      | (v, d) # rest \<Rightarrow>
         (case turn h cutoff v d (t\<lparr> stack := rest \<rparr>) of
            TooLarge \<Rightarrow> cutoff + 1
          | Visited t' \<Rightarrow> traverse h cutoff t'))"
  by pat_completeness auto
termination
proof (relation "measure (\<lambda>(h, cutoff, t). packet_max_nodes - nodes t)")
  fix h cutoff t p rest v d t'
  assume "turn h cutoff v d (t\<lparr> stack := rest \<rparr>) = Visited t'"
  from turn_nodes [OF this] have "nodes t' = Suc (nodes t)" "nodes t < packet_max_nodes" by auto
  then show "((h, cutoff, t'), h, cutoff, t) \<in> measure (\<lambda>(h, cutoff, t). packet_max_nodes - nodes t)"
    by simp
qed simp

declare traverse.simps [simp del]

text \<open>\<open>None\<close> where the code throws: the cutoff is not a positive integer.\<close>

definition boundedSocketPacketBytes :: "heap \<Rightarrow> pval \<Rightarrow> nat \<Rightarrow> nat option" where
  "boundedSocketPacketBytes h packet cutoff =
     (if cutoff = 0 then None
      else Some (traverse h cutoff \<lparr> stack = [(packet, 0)], seen = [],
        bytes = packet_envelope_overhead, nodes = 0 \<rparr>))"


section \<open>Bounds\<close>

lemma push_grows:
  "push_properties cutoff e ps u = Visited u' \<Longrightarrow>
     bytes u \<le> bytes u' \<and> (bytes u \<le> cutoff \<longrightarrow> bytes u' \<le> cutoff)"
  by (induction ps arbitrary: u) (fastforce simp: add_bytes_Visited split: option.splits visit.splits)+

lemma turn_grows:
  "turn h cutoff v d t = Visited t' \<Longrightarrow>
     bytes t \<le> bytes t' \<and> (bytes t \<le> cutoff \<longrightarrow> bytes t' \<le> cutoff)"
  by (cases v)
     (auto simp: turn_def add_bytes_Visited visit_object_def Let_def
        split: if_splits pobj.splits visit.splits dest!: push_grows)

lemma traverse_pos: "0 < bytes t \<Longrightarrow> 0 < traverse h cutoff t"
proof (induction h cutoff t rule: traverse.induct)
  case (1 h cutoff t)
  then show ?case
    by (subst traverse.simps) (fastforce split: list.splits visit.splits dest: turn_grows)
qed

lemma traverse_bound:
  "bytes t \<le> cutoff \<Longrightarrow> traverse h cutoff t \<le> cutoff + 1
     \<and> (traverse h cutoff t \<le> cutoff \<longrightarrow> bytes t \<le> traverse h cutoff t)"
proof (induction h cutoff t rule: traverse.induct)
  case (1 h cutoff t)
  have grows: "bytes t \<le> bytes t' \<and> bytes t' \<le> cutoff"
    if "turn h cutoff v d (t\<lparr> stack := rest \<rparr>) = Visited t'" "bytes t \<le> cutoff" for v d rest t'
    using turn_grows [OF that(1)] that(2) by simp
  show ?case
  proof (cases "stack t")
    case Nil
    with 1(2) show ?thesis by (subst (1 2 3) traverse.simps) simp
  next
    case (Cons p rest)
    obtain v d where p: "p = (v, d)" by (cases p)
    show ?thesis
    proof (cases "turn h cutoff v d (t\<lparr> stack := rest \<rparr>)")
      case TooLarge
      with Cons p show ?thesis by (subst (1 2 3) traverse.simps) simp
    next
      case (Visited t')
      with grows [OF Visited 1(2)] 1(1) [OF Cons p [symmetric] Visited] Cons p
      have ih: "traverse h cutoff t' \<le> cutoff + 1
          \<and> (traverse h cutoff t' \<le> cutoff \<longrightarrow> bytes t' \<le> traverse h cutoff t')" by simp
      have "traverse h cutoff t = traverse h cutoff t'"
        using Cons p Visited by (subst traverse.simps) simp
      with ih grows [OF Visited 1(2)] show ?thesis by auto
    qed
  qed
qed

end
