(* ===== verification/Packet_Json.thy ===== *)
theory Packet_Json
  imports Packet_Size
begin

text \<open>
  The packet accounting against its reference: for a string, and for every tree of JSON values
  within the limits of the traversal, the charge is the length in UTF-8 of what
  \<open>JSON.stringify\<close> writes, plus the envelope.
\<close>

section \<open>Length in UTF-8 of concatenations\<close>

lemma surrogate_units:
  "is_high_surrogate c \<Longrightarrow> \<not> c < 0x20 \<and> \<not> short_escape c \<and> unit_bytes c = 3 \<and> \<not> is_low_surrogate c"
  "is_low_surrogate c \<Longrightarrow> \<not> c < 0x20 \<and> \<not> short_escape c \<and> unit_bytes c = 3 \<and> \<not> is_high_surrogate c"
  by (auto simp: is_high_surrogate_def is_low_surrogate_def in_range_def short_escape_def
        unit_bytes_def word_le_nat_alt word_less_nat_alt)

lemma utf8_unicode_escape: "utf8_length (unicode_escape u @ t) = 6 + utf8_length t"
  using unicode_escape_ascii [of u] by (simp add: utf8_length_ascii)

lemma quote_unit_bytes:
  "\<not> is_high_surrogate c \<Longrightarrow> utf8_length (quote_unit c @ t) = unit_bytes c
     + (if short_escape c then 1 else if c < 0x20 then 5 else 0) + utf8_length t"
  by (auto simp: quote_unit_def short_escape_def utf8_unicode_escape utf8_length_Cons
        is_high_surrogate_def in_range_def unit_bytes_def word_less_nat_alt)

lemma quote_units_bytes:
  "utf8_length (quote_units s @ [0x22]) = utf8_length s + escape_bytes s + 1"
proof (induction s rule: quote_units.induct)
  case 1
  show ?case by (simp add: unit_bytes_def)
next
  case (2 c)
  then show ?case
    using surrogate_units [of c]
    by (auto simp: utf8_unicode_escape quote_unit_bytes)
       (auto simp: unit_bytes_def)
next
  case (3 c d s)
  then show ?case
    using surrogate_units [of c] surrogate_units [of d]
    by (auto simp: utf8_unicode_escape quote_unit_bytes)
qed

lemma jsonStringBytes_exact: "jsonStringBytes s = utf8_length (json_string s)"
  using quote_units_bytes [of s]
  by (simp add: jsonStringBytes_def json_string_def utf8_length_Cons ascii_unit)


section \<open>Trees in the heap\<close>

text \<open>
  The value \<open>p\<close> stands for the tree \<open>v\<close>, whose objects are at the addresses \<open>as\<close>.
\<close>

inductive denotes :: "heap \<Rightarrow> pval \<Rightarrow> jval \<Rightarrow> nat list \<Rightarrow> bool"
  and denote_all :: "heap \<Rightarrow> pval list \<Rightarrow> jval list \<Rightarrow> nat list \<Rightarrow> bool"
  for h :: heap where
  null_value: "denotes h PNull JNull []"
| text_value: "denotes h (PString s) (JStr s) []"
| number_value: "denotes h (PNumber n) (JNum n) []"
| boolean_value: "denotes h (PBoolean b) (JBool b) []"
| array_value: "h a = PArray ps \<Longrightarrow> denote_all h ps vs as \<Longrightarrow> denotes h (PRef a) (JArr vs) (a # as)"
| object_value: "h a = PObject (zip ks (map Some ps)) \<Longrightarrow> length ks = length ps
     \<Longrightarrow> denote_all h ps vs as \<Longrightarrow> denotes h (PRef a) (JObj (zip ks vs)) (a # as)"
| no_values: "denote_all h [] [] []"
| more_values: "denotes h p v as \<Longrightarrow> denote_all h ps vs bs \<Longrightarrow> denote_all h (p # ps) (v # vs) (as @ bs)"

inductive_cases denote_all_ConsE: "denote_all h (p # ps) vs as"
inductive_cases denote_all_NilE: "denote_all h [] vs as"

fun value_nodes :: "jval \<Rightarrow> nat" where
  "value_nodes (JArr vs) = 1 + sum_list (map value_nodes vs)"
| "value_nodes (JObj ps) = 1 + sum_list (map (\<lambda>(k, v). value_nodes v) ps)"
| "value_nodes _ = 1"

text \<open>At most \<open>d\<close> containers enclose any value.\<close>

fun depth_within :: "nat \<Rightarrow> jval \<Rightarrow> bool" where
  "depth_within d (JArr vs) = list_all (\<lambda>v. 0 < d \<and> depth_within (d - 1) v) vs"
| "depth_within d (JObj ps) = list_all (\<lambda>(k, v). 0 < d \<and> depth_within (d - 1) v) ps"
| "depth_within d _ = True"

text \<open>Decimal texts of numbers are ASCII.\<close>

fun plain_json :: "jval \<Rightarrow> bool" where
  "plain_json (JArr vs) = list_all plain_json vs"
| "plain_json (JObj ps) = list_all (\<lambda>(k, v). plain_json v) ps"
| "plain_json (JNum (JDec t)) = list_all (\<lambda>c. c < 0x80) t"
| "plain_json _ = True"

definition text_bytes :: "jval \<Rightarrow> nat" where
  "text_bytes v = utf8_length (json_text v)"

lemma joined_bytes:
  "c < 0x80 \<Longrightarrow> utf8_length (joined ts @ [c]) = sum_list (map utf8_length ts) + (length ts - 1) + 1"
proof (cases ts)
  case (Cons t us)
  assume c: "c < 0x80"
  have tail: "utf8_length (concat (map (\<lambda>u. 0x2c # u) us) @ [c])
      = sum_list (map utf8_length us) + length us + 1" for us
    using c
  proof (induction us)
    case (Cons u us)
    obtain x xs where x: "concat (map (\<lambda>u. 0x2c # u) us) @ [c] = x # xs" "\<not> is_low_surrogate x"
      using c ascii_unit [of c] ascii_unit [of "0x2c"] by (cases us) auto
    have "utf8_length (u @ x # xs) = utf8_length u + utf8_length (x # xs)"
      using x(2) by (rule utf8_length_append)
    with Cons x show ?case
      using ascii_unit [of "0x2c"] by (simp add: utf8_length_Cons)
  qed (simp add: ascii_unit)
  obtain x xs where x: "concat (map (\<lambda>u. 0x2c # u) us) @ [c] = x # xs" "\<not> is_low_surrogate x"
    using c ascii_unit [of c] ascii_unit [of "0x2c"] by (cases us) auto
  have "utf8_length (t @ x # xs) = utf8_length t + utf8_length (x # xs)"
    using x(2) by (rule utf8_length_append)
  with Cons x tail [of us] show ?thesis by (simp add: joined_def)
qed (simp add: joined_def ascii_unit)

lemma text_bytes_array:
  "text_bytes (JArr vs) = bracket_bytes (length vs) + sum_list (map text_bytes vs)"
  using joined_bytes [of "0x5d" "map json_text vs"]
  by (simp add: text_bytes_def [abs_def] js_def utf8_length_Cons ascii_unit bracket_bytes_def comp_def)

lemma property_bytes:
  "utf8_length (json_string k @ js '':'' @ json_text v) = jsonStringBytes k + 1 + text_bytes v"
  by (simp add: js_def utf8_length_append ascii_unit utf8_length_Cons jsonStringBytes_exact text_bytes_def)

lemma text_bytes_object:
  "text_bytes (JObj ps) = bracket_bytes (length ps)
     + sum_list (map (\<lambda>(k, v). jsonStringBytes k + 1 + text_bytes v) ps)"
  using joined_bytes [of "0x7d" "map (\<lambda>(k, v). json_string k @ js '':'' @ json_text v) ps"]
  by (simp add: text_bytes_def [of "JObj ps"] js_def [of "''{''"] js_def [of "''}''"] utf8_length_Cons
        ascii_unit bracket_bytes_def comp_def case_prod_unfold property_bytes [simplified])

lemma text_bytes_scalar:
  "text_bytes JNull = 4" "text_bytes (JBool b) = (if b then 4 else 5)"
  "text_bytes (JStr s) = jsonStringBytes s"
  "plain_json (JNum n) \<Longrightarrow> text_bytes (JNum n) = number_bytes n"
proof -
  show "text_bytes JNull = 4" "text_bytes (JBool b) = (if b then 4 else 5)"
    by (simp_all add: text_bytes_def js_def utf8_length_Cons ascii_unit)
  show "text_bytes (JStr s) = jsonStringBytes s"
    by (simp add: text_bytes_def jsonStringBytes_exact)
  show "text_bytes (JNum n) = number_bytes n" if "plain_json (JNum n)"
  proof -
    have "list_all (\<lambda>c. c < 0x80) (js ''null'')" by (simp add: js_def)
    with that have "list_all (\<lambda>c. c < 0x80) (json_number n)"
      by (cases n) (simp_all add: int_text_ascii)
    then show ?thesis by (simp add: text_bytes_def number_bytes_def utf8_length_ascii_only)
  qed
qed


section \<open>The traversal of a tree\<close>

lemma value_nodes_pos: "0 < value_nodes v"
  by (cases v) auto

lemma length_le_nodes: "length vs \<le> sum_list (map value_nodes vs)"
  by (induction vs) (use value_nodes_pos in \<open>auto simp: Suc_le_eq add_strict_increasing\<close>)

lemma denote_all_length: "denote_all h ps vs as \<Longrightarrow> length ps = length vs"
  by (induction ps arbitrary: vs as) (auto elim: denote_all_ConsE denote_all_NilE)

lemma denote_all_append:
  "denote_all h ps vs as \<Longrightarrow> denote_all h qs ws bs \<Longrightarrow> denote_all h (ps @ qs) (vs @ ws) (as @ bs)"
proof (induction ps arbitrary: vs as)
  case (Cons p ps)
  from Cons.prems(1) obtain v vs' as1 as2 where v: "vs = v # vs'" "as = as1 @ as2"
    "denotes h p v as1" "denote_all h ps vs' as2"
    by (auto elim: denote_all_ConsE)
  from more_values [OF v(3) Cons.IH [OF v(4) Cons.prems(2)]] v(1,2) show ?case by simp
qed (auto elim: denote_all_NilE)

text \<open>The keys of an object whose properties are all data properties.\<close>

lemma push_all_properties:
  "length ks = length ps \<Longrightarrow> bytes t + sum_list (map (\<lambda>k. jsonStringBytes k + 1) ks) \<le> cutoff
     \<Longrightarrow> push_properties cutoff d (zip ks (map Some ps)) t
       = Visited (t\<lparr> stack := map (\<lambda>p. (p, d)) (rev ps) @ stack t,
           bytes := bytes t + sum_list (map (\<lambda>k. jsonStringBytes k + 1) ks) \<rparr>)"
proof (induction ks ps arbitrary: t rule: list_induct2)
  case (Cons k ks p ps)
  then show ?case
    by (simp add: add_bytes_def algebra_simps)
qed simp

lemma push_too_many:
  "length ks = length ps \<Longrightarrow> cutoff < bytes t + sum_list (map (\<lambda>k. jsonStringBytes k + 1) ks)
     \<Longrightarrow> bytes t \<le> cutoff \<Longrightarrow> push_properties cutoff d (zip ks (map Some ps)) t = TooLarge"
proof (induction ks ps arbitrary: t rule: list_induct2)
  case (Cons k ks p ps)
  then show ?case
    by (cases "cutoff < bytes t + (jsonStringBytes k + 1)") (simp_all add: add_bytes_def algebra_simps)
qed simp

definition total_bytes :: "traversal \<Rightarrow> jval list \<Rightarrow> nat" where
  "total_bytes t vs = bytes t + sum_list (map text_bytes vs)"

text \<open>What the traversal of a stack of disjoint trees relies on.\<close>

definition ready :: "heap \<Rightarrow> traversal \<Rightarrow> jval list \<Rightarrow> bool" where
  "ready h t vs \<longleftrightarrow> (\<exists>as. denote_all h (map fst (stack t)) vs as \<and> distinct as
      \<and> set as \<inter> set (seen t) = {})
     \<and> nodes t + sum_list (map value_nodes vs) \<le> packet_max_nodes
     \<and> list_all2 (\<lambda>(p, d) v. d \<le> packet_max_depth \<and> depth_within (packet_max_depth - d) v) (stack t) vs
     \<and> list_all plain_json vs"

definition outcome_of :: "heap \<Rightarrow> nat \<Rightarrow> visit \<Rightarrow> nat \<Rightarrow> nat \<Rightarrow> bool" where
  "outcome_of h cutoff r whole n \<longleftrightarrow> (case r of TooLarge \<Rightarrow> cutoff < whole
     | Visited t' \<Rightarrow> (\<exists>vs. ready h t' vs \<and> bytes t' \<le> cutoff \<and> total_bytes t' vs = whole
         \<and> sum_list (map value_nodes vs) < n))"

lemma scalar_outcome:
  assumes "ready h t vs" "whole = bytes t + amount + sum_list (map text_bytes vs)"
    and "sum_list (map value_nodes vs) < n"
  shows "outcome_of h cutoff (add_bytes cutoff amount t) whole n"
  using assms by (auto simp: outcome_of_def add_bytes_def ready_def total_bytes_def)

lemma children_depth:
  assumes "list_all (\<lambda>v. 0 < m - d \<and> depth_within (m - d - 1) v) ws" "length ps = length ws"
  shows "list_all2 (\<lambda>(p, e) v. e \<le> m \<and> depth_within (m - e) v) (map (\<lambda>p. (p, d + 1)) ps) ws"
  using assms(2,1)
  by (induction ps ws rule: list_induct2) (auto simp: Suc_le_eq)

text \<open>Opening a container: its address is new, its children replace it on the stack.\<close>

lemma opened_ready:
  assumes t: "denote_all h (map fst (stack t)) vs bs" "distinct (a # as @ bs)"
    "set (a # as @ bs) \<inter> set (seen t) = {}"
    "nodes t + (sum_list (map value_nodes ws) + sum_list (map value_nodes vs)) \<le> packet_max_nodes"
    "list_all2 (\<lambda>(p, e) v. e \<le> packet_max_depth \<and> depth_within (packet_max_depth - e) v) (stack t) vs"
    "list_all plain_json vs"
    and c: "denote_all h ps ws as" "list_all plain_json ws"
    "list_all (\<lambda>v. 0 < packet_max_depth - d \<and> depth_within (packet_max_depth - d - 1) v) ws"
    and t': "seen t' = a # seen t" "stack t' = map (\<lambda>p. (p, d + 1)) ps @ stack t" "nodes t' = nodes t"
  shows "ready h t' (ws @ vs)"
proof -
  have "denote_all h (ps @ map fst (stack t)) (ws @ vs) (as @ bs)"
    using c(1) t(1) by (rule denote_all_append)
  moreover have "list_all2 (\<lambda>(p, e) v. e \<le> packet_max_depth \<and> depth_within (packet_max_depth - e) v)
      (map (\<lambda>p. (p, d + 1)) ps) ws"
    using c(3) denote_all_length [OF c(1)] by (rule children_depth)
  ultimately show ?thesis
    unfolding ready_def t' using t c(2)
    by (intro conjI exI [of _ "as @ bs"])
       (auto simp: comp_def list_all2_appendI)
qed

lemma not_wide:
  assumes "length rest \<le> sum_list (map value_nodes vs)" "length ps \<le> sum_list (map value_nodes ws)"
    and "nodes t + (sum_list (map value_nodes ws) + sum_list (map value_nodes vs)) \<le> packet_max_nodes"
    and "stack t = rest"
  shows "\<not> wide (length ps) t"
  using assms by (simp add: wide_def)


lemma zip_sums:
  "length ks = length vs \<Longrightarrow> sum_list (map (\<lambda>(k, v). jsonStringBytes k + 1 + text_bytes v) (zip ks vs))
     = sum_list (map (\<lambda>k. jsonStringBytes k + 1) ks) + sum_list (map text_bytes vs)"
  by (induction ks vs rule: list_induct2) auto

lemma zip_nodes:
  "length ks = length vs \<Longrightarrow>
     sum_list (map (\<lambda>(k, v). value_nodes v) (zip ks vs)) = sum_list (map value_nodes vs)"
  by (induction ks vs rule: list_induct2) auto

lemma zip_all: "length ks = length vs \<Longrightarrow> list_all (\<lambda>(k, v). P v) (zip ks vs) = list_all P vs"
  by (induction ks vs rule: list_induct2) auto

lemma array_outcome:
  assumes h: "h a = PArray ps" "denote_all h ps ws as"
    and t: "denote_all h (map fst (stack t)) vs bs" "distinct (a # as @ bs)"
    "set (a # as @ bs) \<inter> set (seen t) = {}"
    "nodes t + (sum_list (map value_nodes ws) + sum_list (map value_nodes vs)) \<le> packet_max_nodes"
    "list_all2 (\<lambda>(p, e) v. e \<le> packet_max_depth \<and> depth_within (packet_max_depth - e) v) (stack t) vs"
    "list_all plain_json vs"
    and v: "plain_json (JArr ws)" "depth_within (packet_max_depth - d) (JArr ws)"
    and whole: "whole = bytes t + text_bytes (JArr ws) + sum_list (map text_bytes vs)"
    and n: "sum_list (map value_nodes ws) + sum_list (map value_nodes vs) < n"
  shows "outcome_of h cutoff (visit_object h cutoff d a t) whole n"
proof -
  note len = denote_all_length [OF h(2)] denote_all_length [OF t(1)]
  have narrow: "\<not> wide (length ps) (t\<lparr> seen := a # seen t \<rparr>)"
    using len t(4) length_le_nodes [of ws] length_le_nodes [of vs]
    by (intro not_wide [where vs = vs and ws = ws and rest = "stack t"]) auto
  have "ready h (t\<lparr> seen := a # seen t, bytes := bytes t + bracket_bytes (length ps),
      stack := map (\<lambda>p. (p, d + 1)) ps @ stack t \<rparr>) (ws @ vs)"
    using v by (intro opened_ready [OF t h(2), where d = d]) simp_all
  then show ?thesis
    using t(3) h(1) narrow whole n len
    by (auto simp: outcome_of_def visit_object_def Let_def add_bytes_def text_bytes_array
          total_bytes_def intro!: exI [of _ "ws @ vs"])
qed

lemma object_outcome:
  assumes h: "h a = PObject (zip ks (map Some ps))" "length ks = length ps" "denote_all h ps ws as"
    and t: "denote_all h (map fst (stack t)) vs bs" "distinct (a # as @ bs)"
    "set (a # as @ bs) \<inter> set (seen t) = {}"
    "nodes t + (sum_list (map value_nodes ws) + sum_list (map value_nodes vs)) \<le> packet_max_nodes"
    "list_all2 (\<lambda>(p, e) v. e \<le> packet_max_depth \<and> depth_within (packet_max_depth - e) v) (stack t) vs"
    "list_all plain_json vs"
    and v: "plain_json (JObj (zip ks ws))" "depth_within (packet_max_depth - d) (JObj (zip ks ws))"
    and whole: "whole = bytes t + text_bytes (JObj (zip ks ws)) + sum_list (map text_bytes vs)"
    and n: "sum_list (map value_nodes ws) + sum_list (map value_nodes vs) < n"
  shows "outcome_of h cutoff (visit_object h cutoff d a t) whole n"
proof -
  note len = denote_all_length [OF h(3)] denote_all_length [OF t(1)]
  define keys where "keys = sum_list (map (\<lambda>k. jsonStringBytes k + 1) ks)"
  have size: "text_bytes (JObj (zip ks ws)) = bracket_bytes (length ps) + keys + sum_list (map text_bytes ws)"
    using zip_sums [of ks ws] len h(2)
    by (simp only: text_bytes_object keys_def length_zip min.idem add.assoc)
  have narrow: "\<not> wide (length ps) (t\<lparr> seen := a # seen t \<rparr>)"
    using len t(4) length_le_nodes [of ws] length_le_nodes [of vs]
    by (intro not_wide [where vs = vs and ws = ws and rest = "stack t"]) auto
  have rdy: "ready h t' (ws @ vs)"
    if "seen t' = a # seen t" "stack t' = map (\<lambda>p. (p, d + 1)) ps @ stack t" "nodes t' = nodes t" for t'
    using v len h(2) zip_all [of ks ws plain_json]
      zip_all [of ks ws "\<lambda>v. 0 < packet_max_depth - d \<and> depth_within (packet_max_depth - d - 1) v"]
    by (intro opened_ready [OF t h(3) _ _ that]) simp_all
  define t2 where "t2 = t\<lparr> seen := a # seen t, bytes := bytes t + bracket_bytes (length ps) \<rparr>"
  have rev: "rev (zip ks (map Some ps)) = zip (rev ks) (map Some (rev ps))"
    using zip_rev [of ks "map Some ps"] h(2) by (simp add: rev_map)
  have keys_rev: "sum_list (map (\<lambda>k. jsonStringBytes k + 1) (rev ks)) = keys"
    by (simp add: keys_def rev_map [symmetric] sum_list_rev)
  have rlen: "length (rev ks) = length (rev ps)" using h(2) by simp
  note push = push_all_properties [OF rlen, where t = t2 and cutoff = cutoff and d = "d + 1"]
    push_too_many [OF rlen, where t = t2 and cutoff = cutoff and d = "d + 1"]
  show ?thesis
  proof (cases "bytes t2 + keys \<le> cutoff")
    case True
    then have "visit_object h cutoff d a t = Visited (t2\<lparr> stack := map (\<lambda>p. (p, d + 1)) ps @ stack t2,
        bytes := bytes t2 + keys \<rparr>)"
      using push(1) t(3) h(1,2) narrow rev keys_rev
      by (simp add: visit_object_def Let_def add_bytes_def t2_def)
    with rdy True whole size n show ?thesis
      by (auto simp: outcome_of_def t2_def total_bytes_def intro!: exI [of _ "ws @ vs"])
  next
    case False
    then have "visit_object h cutoff d a t = TooLarge"
      using push(2) t(3) h(1,2) narrow rev keys_rev
      by (auto simp: visit_object_def Let_def add_bytes_def t2_def)
    with False whole size show ?thesis by (simp add: outcome_of_def t2_def)
  qed
qed


lemma visit_outcome:
  assumes v: "denotes h p v as"
    and t: "denote_all h (map fst (stack t)) vs bs" "distinct (as @ bs)"
    "set (as @ bs) \<inter> set (seen t) = {}"
    "nodes t + (value_nodes v - 1 + sum_list (map value_nodes vs)) \<le> packet_max_nodes"
    "list_all2 (\<lambda>(p, e) v. e \<le> packet_max_depth \<and> depth_within (packet_max_depth - e) v) (stack t) vs"
    "list_all plain_json vs"
    and p: "plain_json v" "depth_within (packet_max_depth - d) v"
  shows "outcome_of h cutoff (visit_value h cutoff d p t)
    (bytes t + text_bytes v + sum_list (map text_bytes vs)) (value_nodes v + sum_list (map value_nodes vs))"
proof -
  have rest: "ready h t vs" if "as = []"
    using t that unfolding ready_def by auto
  note scalar = scalar_outcome [OF rest, where n = "Suc (sum_list (map value_nodes vs))"]
  from v show ?thesis
  proof (cases rule: denotes.cases)
    case (array_value a ps ws as')
    then show ?thesis
      using array_outcome [OF array_value(4,5), of t vs bs d _ _ cutoff] t p by simp
  next
    case (object_value a ks ps ws as')
    then show ?thesis
      using object_outcome [OF object_value(4,5,6), of t vs bs d _ _ cutoff] t p
        zip_nodes [of ks ws] denote_all_length [OF object_value(6)] by simp
  qed (use p in \<open>simp_all add: text_bytes_scalar scalar\<close>)
qed

lemma traverse_exact:
  assumes "ready h t vs" "bytes t \<le> cutoff \<or> stack t \<noteq> []"
  shows "traverse h cutoff t = (if total_bytes t vs \<le> cutoff then total_bytes t vs else cutoff + 1)"
  using assms
proof (induction "sum_list (map value_nodes vs)" arbitrary: t vs rule: less_induct)
  case less
  from less.prems(1) obtain cs where d: "denote_all h (map fst (stack t)) vs cs" "distinct cs"
    "set cs \<inter> set (seen t) = {}"
    and lim: "nodes t + sum_list (map value_nodes vs) \<le> packet_max_nodes"
    and dep: "list_all2 (\<lambda>(p, d) v. d \<le> packet_max_depth \<and> depth_within (packet_max_depth - d) v) (stack t) vs"
    and pl: "list_all plain_json vs"
    by (auto simp: ready_def)
  show ?case
  proof (cases "stack t")
    case Nil
    with d(1) less.prems(2) show ?thesis
      by (subst traverse.simps) (auto simp: total_bytes_def elim: denote_all_NilE)
  next
    case (Cons q rest)
    obtain p e where q: "q = (p, e)" by (cases q)
    from d(1) Cons q obtain v vs' as bs where vs: "vs = v # vs'" "cs = as @ bs"
      "denotes h p v as" "denote_all h (map fst rest) vs' bs"
      by (auto elim: denote_all_ConsE)
    let ?t = "t\<lparr> stack := rest, nodes := nodes t + 1 \<rparr>"
    have turn: "turn h cutoff p e (t\<lparr> stack := rest \<rparr>) = visit_value h cutoff e p ?t"
      using lim dep Cons q vs(1) value_nodes_pos [of v] by (auto simp: turn_def)
    have "outcome_of h cutoff (visit_value h cutoff e p ?t) (total_bytes t vs)
        (sum_list (map value_nodes vs))"
      using visit_outcome [OF vs(3), of ?t vs' bs e cutoff] d lim dep pl Cons q vs value_nodes_pos [of v]
      by (simp add: total_bytes_def add.assoc)
    then show ?thesis
      using Cons q turn less.hyps
      by (subst traverse.simps) (fastforce simp: outcome_of_def split: visit.splits)
  qed
qed

text \<open>
  C31. A packet of JSON values is charged exactly what it weighs: for every tree of at most
  100000 values nested at most 64 deep, laid out in the heap without sharing, the accounting
  returns 64 plus the length in UTF-8 of its \<open>JSON.stringify\<close> text, or one more than the cutoff
  when that exceeds the cutoff.
\<close>

theorem packet_charge_is_exact:
  assumes "denotes h (PRef a) v as" "distinct as" "value_nodes v \<le> packet_max_nodes"
    and "depth_within packet_max_depth v" "plain_json v" "0 < cutoff"
  shows "boundedSocketPacketBytes h (PRef a) cutoff =
    Some (let n = packet_envelope_overhead + utf8_length (json_text v) in if n \<le> cutoff then n else cutoff + 1)"
proof -
  let ?t = "\<lparr> stack = [(PRef a, 0)], seen = [], bytes = packet_envelope_overhead, nodes = 0 \<rparr>"
  have "denote_all h [PRef a] [v] as"
    using more_values [OF assms(1) no_values] by simp
  with assms have "ready h ?t [v]"
    by (auto simp: ready_def)
  from traverse_exact [OF this] assms(6) show ?thesis
    by (simp add: boundedSocketPacketBytes_def total_bytes_def text_bytes_def)
qed

definition demo_packet :: heap where
  "demo_packet a = (if a = 0 then PArray [PString (js ''m''), PRef 1]
     else if a = 1 then PObject [(js ''k'', Some (PBoolean True))] else PForeign)"

lemma demo_packet_denotes:
  "denotes demo_packet (PRef 0) (JArr [JStr (js ''m''), JObj [(js ''k'', JBool True)]]) [0, 1]"
proof -
  have "denotes demo_packet (PRef 1) (JObj (zip [js ''k''] [JBool True])) [1]"
    using object_value [of demo_packet 1 "[js ''k'']" "[PBoolean True]" "[JBool True]" "[]"]
      more_values [OF boolean_value no_values]
    by (simp add: demo_packet_def)
  then have "denote_all demo_packet [PString (js ''m''), PRef 1]
      [JStr (js ''m''), JObj [(js ''k'', JBool True)]] [1]"
    using more_values [OF text_value more_values [OF _ no_values]] by fastforce
  then show ?thesis
    using array_value [of demo_packet 0] by (simp add: demo_packet_def)
qed

theorem packet_charge_is_exact_witness:
  "boundedSocketPacketBytes demo_packet (PRef 0) 1000 = Some 80"
proof -
  have "utf8_length (json_text (JArr [JStr (js ''m''), JObj [(js ''k'', JBool True)]])) = 16"
    by (simp add: js_def joined_def json_string_def quote_unit_def is_high_surrogate_def
          is_low_surrogate_def in_range_def unit_bytes_def)
  then show ?thesis
    using packet_charge_is_exact [OF demo_packet_denotes, of 1000]
    by (simp add: packet_max_nodes_def packet_max_depth_def packet_envelope_overhead_def)
qed

text \<open>
  C32. The accounting ends on every packet, cyclic ones included, and its charge is either
  within the cutoff, and then at least the envelope, or exactly one more than the cutoff.
\<close>

theorem packet_charge_is_bounded:
  assumes "packet_envelope_overhead \<le> cutoff"
  shows "\<exists>n. boundedSocketPacketBytes h p cutoff = Some n
    \<and> (n = cutoff + 1 \<or> (packet_envelope_overhead \<le> n \<and> n \<le> cutoff))"
proof -
  let ?t = "\<lparr> stack = [(p, 0)], seen = [], bytes = packet_envelope_overhead, nodes = 0 \<rparr>"
  have "traverse h cutoff ?t \<le> cutoff + 1
      \<and> (traverse h cutoff ?t \<le> cutoff \<longrightarrow> packet_envelope_overhead \<le> traverse h cutoff ?t)"
    using traverse_bound [of ?t cutoff h] assms by simp
  moreover have "0 < cutoff" using assms by (simp add: packet_envelope_overhead_def)
  ultimately show ?thesis
    by (auto simp: boundedSocketPacketBytes_def)
qed

theorem packet_charge_is_bounded_witness:
  "\<exists>n. boundedSocketPacketBytes (\<lambda>a. PArray [PRef a]) (PRef 0) 100 = Some n \<and> n \<le> 101"
  using packet_charge_is_bounded [of 100 "\<lambda>a. PArray [PRef a]" "PRef 0"]
  by (fastforce simp: packet_envelope_overhead_def)

text \<open>
  The size computed for a string without building its JSON text is the length in UTF-8 of
  that text, lone surrogates and control characters included.
\<close>

theorem string_charge_is_exact: "jsonStringBytes v = utf8_length (json_string v)"
  by (rule jsonStringBytes_exact)

end
