(* ===== verification/Rate_Window.thy ===== *)
theory Rate_Window
  imports Prelude
begin

text \<open>
  The contract of a fixed-window rate limiter, as the limiters of the server implement it: a
  counter that is kept while the window that counts it is open, restarted by the first request
  charged after it, and never above its limit (a request that is not charged may leave a closed
  window closed). Under it, no interval of the length of a window admits more than twice the limit,
  whatever the requests. Where some requests forget the counter, each of them inside the interval
  admits the limit once more.
\<close>

section \<open>Requests over time\<close>

fun trace :: "('r \<Rightarrow> int \<Rightarrow> 's \<Rightarrow> 's) \<Rightarrow> ('s \<Rightarrow> int) \<Rightarrow> ('r \<Rightarrow> int \<Rightarrow> 's \<Rightarrow> int) \<Rightarrow> ('r \<times> int) list \<Rightarrow> 's
     \<Rightarrow> (int \<times> int \<times> int) list" where
  "trace serve window charge [] s = []"
| "trace serve window charge ((r, now) # q) s =
     (window (serve r now s), now, charge r now s) # trace serve window charge q (serve r now s)"

text \<open>What the requests with a time in \<open>[t, t + len)\<close> were charged.\<close>

fun charged_between :: "int \<Rightarrow> int \<Rightarrow> (int \<times> int \<times> int) list \<Rightarrow> int" where
  "charged_between t u [] = 0"
| "charged_between t u ((w, now, c) # es) = (if t \<le> now \<and> now < u then c else 0) + charged_between t u es"

definition window_sum :: "(int \<Rightarrow> bool) \<Rightarrow> (int \<times> int \<times> int) list \<Rightarrow> int" where
  "window_sum p es = sum_list (map (\<lambda>(w, now, c). if p w then c else 0) es)"

lemma window_sum_Nil [simp]: "window_sum p [] = 0"
  by (simp add: window_sum_def)

lemma window_sum_Cons [simp]:
  "window_sum p ((w, now, c) # es) = (if p w then c else 0) + window_sum p es"
  by (simp add: window_sum_def)

lemma window_sum_nonneg: "\<forall>(w, now, c) \<in> set es. 0 \<le> c \<Longrightarrow> 0 \<le> window_sum p es"
  by (induction es) auto

lemma window_sum_free: "\<forall>(w, now, c) \<in> set es. p w \<longrightarrow> c = 0 \<Longrightarrow> window_sum p es = 0"
  by (induction es) auto

text \<open>The requests with a time in \<open>[t, u)\<close> that satisfy \<open>p\<close>.\<close>

fun count_between :: "('r \<Rightarrow> bool) \<Rightarrow> int \<Rightarrow> int \<Rightarrow> ('r \<times> int) list \<Rightarrow> int" where
  "count_between p t u [] = 0"
| "count_between p t u ((r, now) # q) = (if p r \<and> t \<le> now \<and> now < u then 1 else 0) + count_between p t u q"

lemma count_between_nonneg: "0 \<le> count_between p t u q"
  by (induction q) auto

lemma count_between_append: "count_between p t u (a @ b) = count_between p t u a + count_between p t u b"
  by (induction a) auto

lemma count_between_none: "\<forall>x \<in> set q. \<not> p (fst x) \<Longrightarrow> count_between p t u q = 0"
  by (induction q) auto

lemma trace_append:
  "trace serve window charge (a @ b) s
     = trace serve window charge a s @ trace serve window charge b (fold (\<lambda>(r, now). serve r now) a s)"
  by (induction a arbitrary: s) auto

lemma charged_append: "charged_between t u (a @ b) = charged_between t u a + charged_between t u b"
  by (induction a) auto

lemma charged_outside:
  "\<forall>x \<in> set q. \<not> (t \<le> snd x \<and> snd x < u) \<Longrightarrow> charged_between t u (trace serve window charge q s) = 0"
  by (induction q arbitrary: s) auto

lemma trace_time: "(w, now, c) \<in> set (trace serve window charge q s) \<Longrightarrow> now \<in> snd ` set q"
proof (induction q arbitrary: s)
  case (Cons x q)
  then show ?case by (cases x) force
qed simp

section \<open>The contract\<close>

locale fixed_window =
  fixes window :: "'s \<Rightarrow> int"
    and used :: "'s \<Rightarrow> int"
    and serve :: "'r \<Rightarrow> int \<Rightarrow> 's \<Rightarrow> 's"
    and charge :: "'r \<Rightarrow> int \<Rightarrow> 's \<Rightarrow> int"
    and valid :: "'s \<Rightarrow> bool"
    and limit :: int
    and len :: int
  assumes len_pos: "0 < len"
    and kept: "valid s \<Longrightarrow> window s \<le> now \<Longrightarrow> now < window s + len
      \<Longrightarrow> window (serve r now s) = window s \<and> used s + charge r now s \<le> used (serve r now s)"
    and renewed: "valid s \<Longrightarrow> window s + len \<le> now
      \<Longrightarrow> window (serve r now s) = now \<and> charge r now s \<le> used (serve r now s)
        \<or> window (serve r now s) + len \<le> now \<and> charge r now s = 0"
    and valid_serve: "valid s \<Longrightarrow> window s \<le> now \<Longrightarrow> valid (serve r now s)"
    and within: "valid s \<Longrightarrow> 0 \<le> used s \<and> used s \<le> limit"
    and charge_nonneg: "valid s \<Longrightarrow> window s \<le> now \<Longrightarrow> 0 \<le> charge r now s"
begin

abbreviation log_of :: "('r \<times> int) list \<Rightarrow> 's \<Rightarrow> (int \<times> int \<times> int) list" where
  "log_of \<equiv> trace serve window charge"

lemma served:
  assumes "valid s" "window s \<le> now"
  shows "window (serve r now s) \<le> now"
    "0 < charge r now s \<Longrightarrow> now < window (serve r now s) + len"
    "now < window (serve r now s) + len
      \<Longrightarrow> window (serve r now s) = window s \<or> window (serve r now s) = now \<and> window s + len \<le> now"
  using kept [of s now r] renewed [of s now r] assms len_pos
  by (cases "now < window s + len"; auto)+

lemma log_windows:
  "valid s \<Longrightarrow> sorted (map snd q) \<Longrightarrow> \<forall>x \<in> set q. window s \<le> snd x \<and> t0 \<le> snd x
     \<Longrightarrow> \<forall>(w, now, c) \<in> set (log_of q s). 0 \<le> c \<and> (0 < c \<longrightarrow>
       (w = window s \<or> window s + len \<le> w \<and> t0 \<le> w) \<and> w \<le> now \<and> now < w + len \<and> t0 \<le> now)"
proof (induction q arbitrary: s t0)
  case (Cons x q)
  obtain r now where x: "x = (r, now)" by (cases x)
  from Cons.prems x have v: "valid s" "window s \<le> now" "t0 \<le> now" by auto
  note step = served [OF v(1,2), of r] charge_nonneg [OF v(1,2), of r]
  have later: "\<forall>x \<in> set q. window (serve r now s) \<le> snd x \<and> now \<le> snd x"
    using Cons.prems(2) x step(1) by force
  have tail: "\<forall>(w, m, c) \<in> set (log_of q (serve r now s)). 0 \<le> c \<and> (0 < c \<longrightarrow>
      (w = window (serve r now s) \<or> window (serve r now s) + len \<le> w \<and> now \<le> w)
      \<and> w \<le> m \<and> m < w + len \<and> now \<le> m)"
    using Cons.IH [OF valid_serve [OF v(1,2)] _ later] Cons.prems(2) by simp
  have "0 \<le> c \<and> (0 < c \<longrightarrow> (w = window s \<or> window s + len \<le> w \<and> t0 \<le> w)
      \<and> w \<le> m \<and> m < w + len \<and> t0 \<le> m)"
    if e: "(w, m, c) \<in> set (log_of q (serve r now s))" for w m c
  proof (cases "now < window s + len")
    case True
    with kept [OF v(1,2) True, of r] tail e v(3) show ?thesis by force
  next
    case False
    with renewed [OF v(1), of now r] tail e v len_pos show ?thesis by force
  qed
  moreover have "0 \<le> charge r now s \<and> (0 < charge r now s \<longrightarrow>
      (window (serve r now s) = window s \<or> window s + len \<le> window (serve r now s) \<and> t0 \<le> window (serve r now s))
      \<and> window (serve r now s) \<le> now \<and> now < window (serve r now s) + len \<and> t0 \<le> now)"
    using step v(3) by auto
  ultimately show ?case unfolding x by auto
qed simp

lemma log_spacing:
  "valid s \<Longrightarrow> sorted (map snd q) \<Longrightarrow> \<forall>x \<in> set q. window s \<le> snd x
     \<Longrightarrow> (w, m, c) \<in> set (log_of q s) \<Longrightarrow> 0 < c \<Longrightarrow> (w', m', c') \<in> set (log_of q s) \<Longrightarrow> 0 < c'
     \<Longrightarrow> w = w' \<or> w + len \<le> w' \<or> w' + len \<le> w"
proof (induction q arbitrary: s)
  case (Cons x q)
  obtain r now where x: "x = (r, now)" by (cases x)
  from Cons.prems x have v: "valid s" "window s \<le> now" by auto
  have later: "\<forall>x \<in> set q. window (serve r now s) \<le> snd x"
    using Cons.prems(2) x served(1) [OF v, of r] by force
  have "sorted (map snd q)" using Cons.prems(2) by simp
  note tail = Cons.IH [OF valid_serve [OF v] this later]
  have "\<forall>x \<in> set q. window (serve r now s) \<le> snd x \<and> window (serve r now s) \<le> snd x"
    using later by simp
  note first = log_windows [OF valid_serve [OF v] \<open>sorted (map snd q)\<close> this]
  from Cons.prems(4-7) x tail first show ?case
    by (auto simp: split_beta)
qed simp

lemma per_window:
  "valid s \<Longrightarrow> sorted (map snd q) \<Longrightarrow> \<forall>x \<in> set q. window s \<le> snd x
     \<Longrightarrow> window_sum (\<lambda>w. w = v) (log_of q s) \<le> limit - (if v = window s then used s else 0)"
proof (induction q arbitrary: s)
  case Nil
  then show ?case using within [of s] by simp
next
  case (Cons x q)
  obtain r now where x: "x = (r, now)" by (cases x)
  from Cons.prems x have s: "valid s" "window s \<le> now" by auto
  have later: "\<forall>x \<in> set q. window (serve r now s) \<le> snd x \<and> now \<le> snd x"
    using Cons.prems(2) x served(1) [OF s, of r] by force
  have sq: "sorted (map snd q)" using Cons.prems(2) by simp
  note vs = valid_serve [OF s, of r]
  have tail: "window_sum (\<lambda>w. w = v) (log_of q (serve r now s))
      \<le> limit - (if v = window (serve r now s) then used (serve r now s) else 0)"
    using Cons.IH [OF vs sq] later by simp
  show ?case
  proof (cases "now < window s + len")
    case True
    with kept [OF s True, of r] tail show ?thesis by (auto simp: x)
  next
    case False
    then have renew: "window (serve r now s) = now \<and> charge r now s \<le> used (serve r now s)
        \<or> window (serve r now s) + len \<le> now \<and> charge r now s = 0"
      using renewed [OF s(1), of now r] by auto
    have gone: "window_sum (\<lambda>w. w = v) (log_of q (serve r now s)) = 0" if "v = window s"
    proof (rule window_sum_free)
      show "\<forall>(w, m, c) \<in> set (log_of q (serve r now s)). w = v \<longrightarrow> c = 0"
        using log_windows [OF vs sq later] renew False len_pos that by fastforce
    qed
    show ?thesis
    proof (cases "v = window s")
      case True
      with gone renew False len_pos within [OF s(1)] show ?thesis by (auto simp: x)
    next
      case v: False
      with tail renew within [OF vs] show ?thesis by (auto simp: x split: if_splits)
    qed
  qed
qed

lemma at_most_one_window:
  assumes s: "valid s" "sorted (map snd q)" "\<forall>x \<in> set q. window s \<le> snd x"
    and p: "\<And>w w'. p w \<Longrightarrow> p w' \<Longrightarrow> w' < w + len"
  shows "window_sum p (log_of q s) \<le> limit"
proof (cases "\<exists>(w, m, c) \<in> set (log_of q s). p w \<and> 0 < c")
  case False
  have "\<forall>(w, m, c) \<in> set (log_of q s). 0 \<le> c"
    using log_windows [OF s(1,2), of "window s"] s(3) by fast
  with False have "window_sum p (log_of q s) = 0"
    by (intro window_sum_free) fastforce
  with within [OF s(1)] show ?thesis by simp
next
  case True
  then obtain w m c where e: "(w, m, c) \<in> set (log_of q s)" "p w" "0 < c" by blast
  have same: "w' = w" if "(w', m', c') \<in> set (log_of q s)" "p w'" "0 < c'" for w' m' c'
    using log_spacing [OF s e(1,3) that(1,3)] p [OF e(2) that(2)] p [OF that(2) e(2)] by auto
  have "window_sum p es \<le> window_sum (\<lambda>v. v = w) es" if "set es \<subseteq> set (log_of q s)" for es
    using that
  proof (induction es)
    case (Cons f es)
    obtain w' m' c' where f: "f = (w', m', c')" by (cases f)
    from Cons.prems f log_windows [OF s(1,2), of "window s"] s(3) have "0 \<le> c'" by force
    moreover have "p w' \<Longrightarrow> 0 < c' \<Longrightarrow> w' = w" using same [of w' m' c'] Cons.prems f by simp
    moreover have "window_sum p es \<le> window_sum (\<lambda>v. v = w) es" using Cons by simp
    ultimately show ?case unfolding f window_sum_Cons by (cases "p w'"; cases "c' = 0") simp_all
  qed simp
  from this [OF subset_refl] per_window [OF s, of w] within [OF s(1)] show ?thesis
    by (simp split: if_splits)
qed

lemma charged_split:
  "\<forall>(w, now, c) \<in> set es. 0 \<le> c \<and> (0 < c \<longrightarrow> w \<le> now \<and> now < w + len) \<Longrightarrow>
     charged_between t (t + len) es
       \<le> window_sum (\<lambda>w. t - len < w \<and> w \<le> t) es + window_sum (\<lambda>w. t < w \<and> w < t + len) es"
proof (induction es)
  case (Cons e es)
  obtain w now c where e: "e = (w, now, c)" by (cases e)
  from Cons.prems e have "(if t \<le> now \<and> now < t + len then c else 0)
      \<le> (if t - len < w \<and> w \<le> t then c else 0) + (if t < w \<and> w < t + len then c else 0)"
    by auto
  moreover from Cons.prems have "\<forall>(w, now, c) \<in> set es. 0 \<le> c \<and> (0 < c \<longrightarrow> w \<le> now \<and> now < w + len)"
    by simp
  note Cons.IH [OF this]
  ultimately show ?case unfolding e charged_between.simps window_sum_Cons by linarith
qed simp

lemma twice_the_limit:
  assumes "valid s" "sorted (map snd q)" "\<forall>x \<in> set q. window s \<le> snd x"
  shows "charged_between t (t + len) (log_of q s) \<le> 2 * limit"
proof -
  have "charged_between t (t + len) (log_of q s)
      \<le> window_sum (\<lambda>w. t - len < w \<and> w \<le> t) (log_of q s)
        + window_sum (\<lambda>w. t < w \<and> w < t + len) (log_of q s)"
    using log_windows [OF assms(1,2), of "window s"] assms(3) by (intro charged_split) fast
  also have "\<dots> \<le> limit + limit"
    by (intro add_mono at_most_one_window [OF assms]) auto
  finally show ?thesis by simp
qed

end

section \<open>Requests that forget\<close>

text \<open>
  A limiter some of whose requests clear the counter and are charged nothing: the contract is
  that of the others, and a cleared counter has a window that has been over since time \<open>0\<close>.
\<close>

locale forgetful_window =
  calm: fixed_window window used "\<lambda>r now s. if resets r then s else serve r now s"
    "\<lambda>r now s. if resets r then 0 else charge r now s" valid limit len
  for window :: "'s \<Rightarrow> int"
    and used :: "'s \<Rightarrow> int"
    and serve :: "'r \<Rightarrow> int \<Rightarrow> 's \<Rightarrow> 's"
    and charge :: "'r \<Rightarrow> int \<Rightarrow> 's \<Rightarrow> int"
    and valid :: "'s \<Rightarrow> bool"
    and limit :: int
    and len :: int
    and resets :: "'r \<Rightarrow> bool" +
  assumes cleared: "valid s \<Longrightarrow> resets r
    \<Longrightarrow> valid (serve r now s) \<and> window (serve r now s) + len \<le> 0 \<and> charge r now s = 0"
begin

abbreviation record_of :: "('r \<times> int) list \<Rightarrow> 's \<Rightarrow> (int \<times> int \<times> int) list" where
  "record_of \<equiv> trace serve window charge"

lemma quiet_trace: "\<forall>x \<in> set q. \<not> resets (fst x) \<Longrightarrow> record_of q s = calm.log_of q s"
  by (induction q arbitrary: s) auto

lemma quiet_valid:
  "valid s \<Longrightarrow> sorted (map snd q) \<Longrightarrow> \<forall>x \<in> set q. window s \<le> snd x \<and> \<not> resets (fst x)
     \<Longrightarrow> valid (fold (\<lambda>(r, now). serve r now) q s)"
proof (induction q arbitrary: s)
  case (Cons x q)
  obtain r now where x: "x = (r, now)" by (cases x)
  with Cons.prems have v: "valid s" "window s \<le> now" "\<not> resets r" by auto
  have "valid (serve r now s)" "window (serve r now s) \<le> now"
    using calm.valid_serve [OF v(1,2), of r] calm.served(1) [OF v(1,2), of r] v(3) by simp_all
  moreover have "\<forall>x \<in> set q. now \<le> snd x" using Cons.prems(2) x by simp
  ultimately have "\<forall>x \<in> set q. window (serve r now s) \<le> snd x \<and> \<not> resets (fst x)" using Cons.prems(3) by force
  with Cons.IH [OF \<open>valid (serve r now s)\<close>] Cons.prems(2) x show ?case by simp
qed simp

text \<open>After a cleared counter only windows that start in the interval are charged there.\<close>

lemma quiet_after:
  assumes "valid s" "sorted (map snd q)" "\<forall>x \<in> set q. window s + len \<le> snd x \<and> t \<le> snd x \<and> \<not> resets (fst x)"
  shows "charged_between t (t + len) (record_of q s) \<le> limit"
proof -
  have from_s: "\<forall>x \<in> set q. window s \<le> snd x \<and> t \<le> snd x" using assms(3) calm.len_pos by force
  have late: "window s + len \<le> now" if "(w, now, c) \<in> set (calm.log_of q s)" for w now c
    using trace_time [OF that] assms(3) by auto
  have "charged_between t (t + len) es \<le> window_sum (\<lambda>w. t \<le> w \<and> w < t + len) es"
    if "set es \<subseteq> set (calm.log_of q s)" for es
    using that
  proof (induction es)
    case (Cons e es)
    obtain w now c where e: "e = (w, now, c)" by (cases e)
    have "0 \<le> c \<and> (0 < c \<longrightarrow> (w = window s \<or> window s + len \<le> w \<and> t \<le> w) \<and> w \<le> now \<and> now < w + len)"
      using calm.log_windows [OF assms(1,2) from_s] Cons.prems e by fastforce
    moreover have "window s + len \<le> now" using late [of w now c] Cons.prems e by simp
    ultimately show ?case using Cons e by auto
  qed simp
  from this [OF subset_refl] calm.at_most_one_window [OF assms(1,2), of "\<lambda>w. t \<le> w \<and> w < t + len"] from_s
  show ?thesis using quiet_trace [of q s] assms(3) by force
qed

lemma split_at_reset:
  assumes "\<not> (\<forall>x \<in> set q. \<not> resets (fst x))"
  obtains a r now b where "q = a @ (r, now) # b" "resets r" "\<forall>x \<in> set a. \<not> resets (fst x)"
  using assms split_list_first_prop [of q "\<lambda>x. resets (fst x)"] by (metis prod.collapse)

lemma record_split:
  "charge r now (fold (\<lambda>(r, now). serve r now) a s) = 0 \<Longrightarrow>
     charged_between t u (record_of (a @ (r, now) # b) s) = charged_between t u (record_of a s)
       + charged_between t u (record_of b (serve r now (fold (\<lambda>(r, now). serve r now) a s)))"
  by (simp add: trace_append charged_append)

lemma bound_after:
  "valid s \<Longrightarrow> sorted (map snd q) \<Longrightarrow> \<forall>x \<in> set q. window s + len \<le> snd x \<and> t \<le> snd x \<and> 0 \<le> snd x
     \<Longrightarrow> charged_between t (t + len) (record_of q s) \<le> (1 + count_between resets t (t + len) q) * limit"
proof (induction q arbitrary: s rule: length_induct)
  case (1 q)
  show ?case
  proof (cases "\<forall>x \<in> set q. \<not> resets (fst x)")
    case True
    with quiet_after [OF 1(2,3)] 1(4) count_between_none [OF True] show ?thesis by auto
  next
    case False
    then obtain a r now b where q: "q = a @ (r, now) # b" "resets r" "\<forall>x \<in> set a. \<not> resets (fst x)"
      by (rule split_at_reset)
    define m where "m = fold (\<lambda>(r, now). serve r now) a s"
    have a: "sorted (map snd a)" "\<forall>x \<in> set a. window s + len \<le> snd x \<and> t \<le> snd x \<and> \<not> resets (fst x)"
      using 1(3,4) q by (auto simp: sorted_append)
    then have a': "\<forall>x \<in> set a. window s \<le> snd x \<and> \<not> resets (fst x)" using calm.len_pos by force
    have b: "sorted (map snd b)" "\<forall>x \<in> set b. now \<le> snd x \<and> t \<le> snd x \<and> 0 \<le> snd x"
      using 1(3,4) q by (auto simp: sorted_append)
    have m: "valid m" unfolding m_def by (rule quiet_valid [OF 1(2) a(1) a'])
    note clear = cleared [OF m q(2), of now]
    have first: "charged_between t (t + len) (record_of a s) \<le> limit"
      by (rule quiet_after [OF 1(2) a])
    have "0 \<le> limit" using calm.within [OF 1(2)] by simp
    have "charged_between t (t + len) (record_of b (serve r now m)) \<le> (if now < t + len then 1 else 0) * limit
        + count_between resets t (t + len) b * limit"
    proof (cases "now < t + len")
      case True
      have "charged_between t (t + len) (record_of b (serve r now m)) \<le> (1 + count_between resets t (t + len) b) * limit"
        using 1(1) q(1) clear b by force
      with True show ?thesis by (simp add: algebra_simps)
    next
      case False
      with b have "charged_between t (t + len) (record_of b (serve r now m)) = 0"
        by (intro charged_outside) force
      with False \<open>0 \<le> limit\<close> count_between_nonneg [of resets] show ?thesis by simp
    qed
    moreover have "count_between resets t (t + len) q = (if now < t + len then 1 else 0) + count_between resets t (t + len) b"
      using q 1(4) count_between_none [OF q(3)] by (simp add: count_between_append)
    ultimately show ?thesis
      using first clear record_split [of r now a s] q(1) by (auto simp: m_def [symmetric] algebra_simps)
  qed
qed

lemma twice_and_resets:
  "valid s \<Longrightarrow> sorted (map snd q) \<Longrightarrow> \<forall>x \<in> set q. window s \<le> snd x \<and> 0 \<le> snd x
     \<Longrightarrow> charged_between t (t + len) (record_of q s) \<le> (2 + count_between resets t (t + len) q) * limit"
proof (induction q arbitrary: s rule: length_induct)
  case (1 q)
  have pos: "0 \<le> limit" using calm.within [OF 1(2)] by simp
  show ?case
  proof (cases "\<forall>x \<in> set q. \<not> resets (fst x)")
    case True
    with calm.twice_the_limit [OF 1(2,3)] 1(4) count_between_none [OF True] quiet_trace [OF True]
    show ?thesis by auto
  next
    case False
    then obtain a r now b where q: "q = a @ (r, now) # b" "resets r" "\<forall>x \<in> set a. \<not> resets (fst x)"
      by (rule split_at_reset)
    define m where "m = fold (\<lambda>(r, now). serve r now) a s"
    have a: "sorted (map snd a)" "\<forall>x \<in> set a. window s \<le> snd x \<and> \<not> resets (fst x)" "\<forall>x \<in> set a. snd x \<le> now"
      using 1(3,4) q by (auto simp: sorted_append)
    have b: "sorted (map snd b)" "\<forall>x \<in> set b. now \<le> snd x \<and> 0 \<le> snd x"
      using 1(3,4) q by (auto simp: sorted_append)
    have m: "valid m" unfolding m_def by (rule quiet_valid [OF 1(2) a(1,2)])
    note clear = cleared [OF m q(2), of now]
    have late: "\<forall>x \<in> set b. window (serve r now m) + len \<le> snd x" using clear b(2) by force
    have sum: "charged_between t (t + len) (record_of q s) = charged_between t (t + len) (record_of a s)
        + charged_between t (t + len) (record_of b (serve r now m))"
      using clear record_split [of r now a s] q(1) by (simp add: m_def)
    have count: "count_between resets t (t + len) q
        = (if t \<le> now \<and> now < t + len then 1 else 0) + count_between resets t (t + len) b"
      using q count_between_none [OF q(3)] by (simp add: count_between_append)
    consider (before) "now < t" | (inside) "t \<le> now" "now < t + len" | (after) "t + len \<le> now" by linarith
    then show ?thesis
    proof cases
      case before
      have "charged_between t (t + len) (record_of a s) = 0"
        using before a(3) by (intro charged_outside) force
      moreover have "charged_between t (t + len) (record_of b (serve r now m))
          \<le> (2 + count_between resets t (t + len) b) * limit"
        using 1(1) q(1) clear b late calm.len_pos by force
      ultimately show ?thesis using before sum count by simp
    next
      case inside
      have "charged_between t (t + len) (record_of a s) \<le> 2 * limit"
        using calm.twice_the_limit [OF 1(2) a(1)] a(2) quiet_trace [OF q(3)] by simp
      moreover have "charged_between t (t + len) (record_of b (serve r now m))
          \<le> (1 + count_between resets t (t + len) b) * limit"
        using b late inside clear by (intro bound_after) auto
      ultimately show ?thesis using inside sum count by (simp add: algebra_simps)
    next
      case after
      have "charged_between t (t + len) (record_of a s) \<le> 2 * limit"
        using calm.twice_the_limit [OF 1(2) a(1)] a(2) quiet_trace [OF q(3)] by simp
      moreover have "charged_between t (t + len) (record_of b (serve r now m)) = 0"
        using after b(2) by (intro charged_outside) force
      moreover have "0 \<le> count_between resets t (t + len) b * limit"
        using pos count_between_nonneg [of resets] by simp
      ultimately show ?thesis using after sum count by (simp add: algebra_simps)
    qed
  qed
qed

end

end
