(* ===== verification/Traffic.thy ===== *)
theory Traffic
  imports Rate_Window "HOL-Library.AList"
begin

text \<open>
  The traffic limiters of \<open>src/server/socketAbuse.ts\<close>: \<open>TrafficBucket\<close>, a fixed window of events
  and bytes, and \<open>BoundedTrafficScopes\<close>, a bounded table of buckets that forgets idle ones. Times
  are milliseconds; a method that mutates returns the updated record with its decision.
\<close>

section \<open>Buckets\<close>

definition rate_window :: int where "rate_window = 60000"

record traffic_limits =
  eventsPerMinute :: int
  bytesPerMinute :: int

record rate_decision =
  allowed :: bool
  retryAfterMs :: int

record traffic_bucket =
  windowStartedAt :: int
  b_events :: int
  b_bytes :: int
  lastSeenAt :: int

definition new_bucket :: "int \<Rightarrow> traffic_bucket" where
  "new_bucket now = \<lparr> windowStartedAt = now, b_events = 0, b_bytes = 0, lastSeenAt = now \<rparr>"

definition reset_bucket :: "int \<Rightarrow> traffic_bucket \<Rightarrow> traffic_bucket" where
  "reset_bucket now b =
     (if now < windowStartedAt b \<or> rate_window \<le> now - windowStartedAt b
      then b\<lparr> windowStartedAt := now, b_events := 0, b_bytes := 0 \<rparr> else b)"

definition bucket_consume ::
  "traffic_limits \<Rightarrow> int \<Rightarrow> int \<Rightarrow> traffic_bucket \<Rightarrow> traffic_bucket \<times> rate_decision" where
  "bucket_consume l n now b =
     (let b1 = (reset_bucket now b)\<lparr> lastSeenAt := now \<rparr>;
          ok = (b_events b1 < eventsPerMinute l \<and> n \<le> bytesPerMinute l - b_bytes b1)
      in (b1\<lparr> b_events := min (eventsPerMinute l) (b_events b1 + 1),
              b_bytes := min (bytesPerMinute l) (b_bytes b1 + n) \<rparr>,
          \<lparr> allowed = ok, retryAfterMs = max 1 (windowStartedAt b1 + rate_window - now) \<rparr>))"

section \<open>Tables of buckets\<close>

record traffic_scopes =
  scopes :: "(jstr \<times> traffic_bucket) list"
  nextSweepAt :: int
  maximumScopes :: nat
  idleMs :: int

definition new_scopes :: "nat \<Rightarrow> int \<Rightarrow> int \<Rightarrow> traffic_scopes" where
  "new_scopes maximum idle now = \<lparr> scopes = [], nextSweepAt = now + rate_window,
     maximumScopes = maximum, idleMs = idle \<rparr>"

definition idle_scope :: "int \<Rightarrow> int \<Rightarrow> traffic_bucket \<Rightarrow> bool" where
  "idle_scope idle now b \<longleftrightarrow> now < lastSeenAt b \<or> idle \<le> now - lastSeenAt b"

definition sweep :: "int \<Rightarrow> bool \<Rightarrow> traffic_scopes \<Rightarrow> traffic_scopes" where
  "sweep now force s =
     (if \<not> force \<and> now < nextSweepAt s then s
      else s\<lparr> scopes := filter (\<lambda>(k, b). \<not> idle_scope (idleMs s) now b) (scopes s),
              nextSweepAt := now + rate_window \<rparr>)"

definition scopes_full :: "traffic_scopes \<Rightarrow> bool" where
  "scopes_full s \<longleftrightarrow> maximumScopes s \<le> length (scopes s)"

text \<open>The bucket found or created is charged in place.\<close>

definition charge_scope :: "jstr \<Rightarrow> traffic_limits \<Rightarrow> int \<Rightarrow> int \<Rightarrow> traffic_bucket \<Rightarrow> traffic_scopes
     \<Rightarrow> traffic_scopes \<times> rate_decision" where
  "charge_scope k l n now b s =
     (let (b', d) = bucket_consume l n now b in (s\<lparr> scopes := AList.update k b' (scopes s) \<rparr>, d))"

definition scopes_consume ::
  "jstr \<Rightarrow> traffic_limits \<Rightarrow> int \<Rightarrow> int \<Rightarrow> traffic_scopes \<Rightarrow> traffic_scopes \<times> rate_decision" where
  "scopes_consume k l n now s =
     (let s1 = sweep now False s
      in case map_of (scopes s1) k of
        Some b \<Rightarrow> charge_scope k l n now b s1
      | None \<Rightarrow>
          (let s2 = (if scopes_full s1 then sweep now True s1 else s1)
           in if scopes_full s2 then (s2, \<lparr> allowed = False, retryAfterMs = rate_window \<rparr>)
              else charge_scope k l n now (new_bucket now) s2))"

section \<open>A bucket is a fixed-window limiter\<close>

definition bucket_ok :: "traffic_limits \<Rightarrow> traffic_bucket \<Rightarrow> bool" where
  "bucket_ok l b \<longleftrightarrow> 0 \<le> b_events b \<and> b_events b \<le> eventsPerMinute l
     \<and> 0 \<le> b_bytes b \<and> b_bytes b \<le> bytesPerMinute l"

definition bucket_serve :: "traffic_limits \<Rightarrow> nat \<Rightarrow> int \<Rightarrow> traffic_bucket \<Rightarrow> traffic_bucket" where
  "bucket_serve l n now b = fst (bucket_consume l (int n) now b)"

definition admitted_events :: "traffic_limits \<Rightarrow> nat \<Rightarrow> int \<Rightarrow> traffic_bucket \<Rightarrow> int" where
  "admitted_events l n now b = (if allowed (snd (bucket_consume l (int n) now b)) then 1 else 0)"

definition admitted_bytes :: "traffic_limits \<Rightarrow> nat \<Rightarrow> int \<Rightarrow> traffic_bucket \<Rightarrow> int" where
  "admitted_bytes l n now b = (if allowed (snd (bucket_consume l (int n) now b)) then int n else 0)"

lemmas bucket_defs = bucket_serve_def admitted_events_def admitted_bytes_def bucket_consume_def
  reset_bucket_def bucket_ok_def rate_window_def Let_def

lemma bucket_serve_ok: "bucket_ok l b \<Longrightarrow> bucket_ok l (bucket_serve l n now b)"
  by (auto simp: bucket_defs)

interpretation events: fixed_window windowStartedAt b_events "bucket_serve l" "admitted_events l"
  "bucket_ok l" "eventsPerMinute l" rate_window for l
  by unfold_locales (auto simp: bucket_serve_ok, auto simp: bucket_defs)

interpretation bytes: fixed_window windowStartedAt b_bytes "bucket_serve l" "admitted_bytes l"
  "bucket_ok l" "bytesPerMinute l" rate_window for l
  by unfold_locales (auto simp: bucket_serve_ok, auto simp: bucket_defs)


text \<open>
  Whatever arrives and whenever, a bucket admits in any 60 seconds at most twice its event
  limit and at most twice its byte limit, as long as the clock does not run backwards.
\<close>

theorem traffic_bucket_bounds_any_minute:
  assumes "0 \<le> eventsPerMinute l" "0 \<le> bytesPerMinute l"
    and "sorted (map snd q)" "\<forall>x \<in> set q. started \<le> snd x"
  shows "charged_between t (t + rate_window)
      (trace (bucket_serve l) windowStartedAt (admitted_events l) q (new_bucket started))
      \<le> 2 * eventsPerMinute l
    \<and> charged_between t (t + rate_window)
      (trace (bucket_serve l) windowStartedAt (admitted_bytes l) q (new_bucket started))
      \<le> 2 * bytesPerMinute l"
proof -
  have "bucket_ok l (new_bucket started)" "\<forall>x \<in> set q. windowStartedAt (new_bucket started) \<le> snd x"
    using assms by (simp_all add: bucket_ok_def new_bucket_def)
  then show ?thesis
    using events.twice_the_limit bytes.twice_the_limit assms(3) by blast
qed

theorem traffic_bucket_bounds_any_minute_witness:
  "charged_between 0 rate_window (trace (bucket_serve \<lparr> eventsPerMinute = 1, bytesPerMinute = 8 \<rparr>)
     windowStartedAt (admitted_events \<lparr> eventsPerMinute = 1, bytesPerMinute = 8 \<rparr>)
     [(4, 0), (4, 10)] (new_bucket 0)) \<le> 2"
  using traffic_bucket_bounds_any_minute [of "\<lparr> eventsPerMinute = 1, bytesPerMinute = 8 \<rparr>"
      "[(4, 0), (4, 10)]" 0 0] by simp

section \<open>The table\<close>

definition scopes_ok :: "int \<Rightarrow> traffic_scopes \<Rightarrow> bool" where
  "scopes_ok now s \<longleftrightarrow> distinct (map fst (scopes s)) \<and> length (scopes s) \<le> maximumScopes s
     \<and> rate_window \<le> idleMs s
     \<and> (\<forall>(k, b) \<in> set (scopes s). windowStartedAt b \<le> lastSeenAt b \<and> lastSeenAt b \<le> now)"

lemma new_scopes_ok: "rate_window \<le> idle \<Longrightarrow> scopes_ok now (new_scopes maximum idle now)"
  by (simp add: scopes_ok_def new_scopes_def)

lemma scopes_ok_later: "scopes_ok now s \<Longrightarrow> now \<le> later \<Longrightarrow> scopes_ok later s"
  by (fastforce simp: scopes_ok_def)

lemma sweep_ok: "scopes_ok now s \<Longrightarrow> scopes_ok now (sweep t force s)"
  by (auto simp: scopes_ok_def sweep_def distinct_map_filter le_trans [OF length_filter_le])

lemma sweep_frame [simp]:
  "maximumScopes (sweep t force s) = maximumScopes s" "idleMs (sweep t force s) = idleMs s"
  by (simp_all add: sweep_def)

lemma map_of_filter_values:
  "distinct (map fst xs) \<Longrightarrow> map_of (filter (\<lambda>(k, b). P b) xs) k
     = (case map_of xs k of None \<Rightarrow> None | Some b \<Rightarrow> if P b then Some b else None)"
  by (induction xs) (auto simp: map_of_eq_None_iff split: option.splits)

text \<open>A sweep removes exactly idle buckets.\<close>

lemma sweep_lookup:
  assumes "scopes_ok now s"
  shows "map_of (scopes (sweep t force s)) k = map_of (scopes s) k
    \<or> (\<exists>b. map_of (scopes s) k = Some b \<and> idle_scope (idleMs s) t b
         \<and> map_of (scopes (sweep t force s)) k = None)"
  using assms
  by (auto simp: sweep_def scopes_ok_def map_of_filter_values split: option.splits)

text \<open>A bucket that has been idle for a window is charged like a new one.\<close>

lemma idle_is_new:
  assumes "scopes_ok now s" "map_of (scopes s) k = Some b" "idle_scope (idleMs s) t b" "now \<le> t"
  shows "bucket_consume l n t b = bucket_consume l n t (new_bucket t)"
proof -
  from assms(1,2) have "windowStartedAt b \<le> lastSeenAt b" "lastSeenAt b \<le> now" "rate_window \<le> idleMs s"
    by (auto simp: scopes_ok_def dest!: map_of_SomeD)
  with assms(3,4) show ?thesis
    by (cases b) (simp add: bucket_consume_def reset_bucket_def new_bucket_def idle_scope_def
        rate_window_def Let_def)
qed

definition scope_bucket :: "jstr \<Rightarrow> int \<Rightarrow> traffic_scopes \<Rightarrow> traffic_bucket" where
  "scope_bucket k now s = (case map_of (scopes s) k of None \<Rightarrow> new_bucket now | Some b \<Rightarrow> b)"

lemma charge_scope_lookup:
  "charge_scope k l n t b s = (s', d) \<Longrightarrow> d = snd (bucket_consume l n t b)
     \<and> map_of (scopes s') k = Some (fst (bucket_consume l n t b))
     \<and> (k' \<noteq> k \<longrightarrow> map_of (scopes s') k' = map_of (scopes s) k')"
  by (auto simp: charge_scope_def update_conv split_beta)

lemma not_full_after_removal:
  assumes "scopes_ok now s" "map_of (scopes s) k = Some b" "map_of (scopes (sweep t force s)) k = None"
  shows "\<not> scopes_full (sweep t force s)"
proof -
  from assms(2,3) have "(k, b) \<in> set (scopes s)"
    and swept: "scopes (sweep t force s) = filter (\<lambda>(k, b). \<not> idle_scope (idleMs s) t b) (scopes s)"
    by (auto simp: sweep_def dest: map_of_SomeD split: if_splits)
  moreover have "(k, b) \<notin> set (scopes (sweep t force s))"
    using assms(3) by (auto simp: map_of_eq_None_iff image_iff)
  ultimately have "length (scopes (sweep t force s)) < length (scopes s)"
    unfolding swept by (intro length_filter_less [of "(k, b)"]) auto
  with assms(1) show ?thesis by (simp add: scopes_full_def scopes_ok_def)
qed


lemma AList_update_length:
  "length (AList.update k b xs) = (if map_of xs k = None then Suc (length xs) else length xs)"
  by (induction xs) auto

lemma AList_update_set: "x \<in> set (AList.update k b xs) \<Longrightarrow> x = (k, b) \<or> x \<in> set xs"
  by (induction xs) (auto split: if_splits)

lemma AList_update_ok:
  assumes ok: "scopes_ok now s" and t: "now \<le> t" and b: "windowStartedAt b \<le> lastSeenAt b" "lastSeenAt b \<le> t"
    and room: "map_of (scopes s) k \<noteq> None \<or> \<not> scopes_full s"
  shows "scopes_ok t (s\<lparr> scopes := AList.update k b (scopes s) \<rparr>)"
proof -
  have "length (AList.update k b (scopes s)) \<le> maximumScopes s"
    using ok room by (auto simp: AList_update_length scopes_ok_def scopes_full_def)
  moreover have "windowStartedAt b' \<le> lastSeenAt b' \<and> lastSeenAt b' \<le> t"
    if "(k', b') \<in> set (AList.update k b (scopes s))" for k' b'
    using AList_update_set [OF that] ok t b by (auto simp: scopes_ok_def)
  moreover have "distinct (map fst (AList.update k b (scopes s)))"
    using ok by (simp add: scopes_ok_def distinct_update)
  ultimately show ?thesis
    using ok unfolding scopes_ok_def by auto
qed

lemma bucket_consume_times:
  "windowStartedAt b \<le> now \<Longrightarrow> windowStartedAt (fst (bucket_consume l n now b)) \<le> now
     \<and> lastSeenAt (fst (bucket_consume l n now b)) = now"
  by (simp add: bucket_consume_def reset_bucket_def Let_def)

lemma scope_bucket_started:
  assumes "scopes_ok now s" "now \<le> t"
  shows "windowStartedAt (scope_bucket k t s) \<le> t"
  using assms
  by (fastforce simp: scope_bucket_def scopes_ok_def new_bucket_def dest: map_of_SomeD split: option.splits)

text \<open>The four ways of a request: its scope is found, created, created after a sweep, or refused.\<close>

lemma scopes_consume_cases:
  assumes ok: "scopes_ok now s" and t: "now \<le> t" and c: "scopes_consume k l n t s = (s', d)"
  obtains (refused) force where "map_of (scopes s) k = None" "s' = sweep t force (sweep t False s)"
      "d = \<lparr> allowed = False, retryAfterMs = rate_window \<rparr>"
  | (served) s0 where "s0 = sweep t False s \<or> s0 = sweep t True (sweep t False s)"
      "charge_scope k l n t (scope_bucket k t s0) s0 = (s', d)"
      "map_of (scopes s0) k \<noteq> None \<or> \<not> scopes_full s0"
proof -
  let ?s1 = "sweep t False s" and ?s2 = "sweep t True (sweep t False s)"
  have ok1: "scopes_ok now ?s1" using ok by (rule sweep_ok)
  show thesis
  proof (cases "map_of (scopes ?s1) k")
    case (Some b)
    with c show thesis by (intro served [of ?s1]) (simp_all add: scopes_consume_def Let_def scope_bucket_def)
  next
    case None
    show thesis
    proof (cases "scopes_full ?s1")
      case False
      with None c show thesis
        by (intro served [of ?s1]) (simp_all add: scopes_consume_def Let_def scope_bucket_def)
    next
      case True
      show thesis
      proof (cases "scopes_full ?s2")
        case False
        have "map_of (scopes ?s2) k = None"
          using None sweep_lookup [OF ok1, of t True k] by auto
        with None True False c show thesis
          by (intro served [of ?s2]) (simp_all add: scopes_consume_def Let_def scope_bucket_def)
      next
        case full: True
        have "map_of (scopes s) k = None"
          using not_full_after_removal [OF ok _ None] True by (cases "map_of (scopes s) k") auto
        with None True full c show thesis
          by (intro refused [of True]) (simp_all add: scopes_consume_def Let_def)
      qed
    qed
  qed
qed

lemma scopes_consume_ok:
  assumes ok: "scopes_ok now s" and t: "now \<le> t"
  shows "scopes_ok t (fst (scopes_consume k l n t s))"
proof -
  obtain s' d where c: "scopes_consume k l n t s = (s', d)" by (cases "scopes_consume k l n t s")
  from ok t c show ?thesis
  proof (cases rule: scopes_consume_cases)
    case (refused force)
    with ok t c show ?thesis by (simp add: sweep_ok scopes_ok_later)
  next
    case (served s0)
    then have "scopes_ok now s0" using ok sweep_ok by auto
    with served(2,3) t c show ?thesis
      using bucket_consume_times [OF scope_bucket_started [OF \<open>scopes_ok now s0\<close> t, of k], of l n]
      by (auto simp: charge_scope_def split_beta intro!: AList_update_ok)
  qed
qed

lemma scopes_consume_kept:
  assumes "scopes_ok now s" "now \<le> t" "scopes_consume k l n t s = (s', d)"
  shows "(map_of (scopes s) k = None \<and> map_of (scopes s') k = None \<and> \<not> allowed d
        \<and> retryAfterMs d = rate_window)
    \<or> (d = snd (bucket_consume l n t (scope_bucket k t s))
       \<and> map_of (scopes s') k = Some (fst (bucket_consume l n t (scope_bucket k t s)))
       \<and> (\<forall>k'. k' = k \<or> map_of (scopes s') k' = map_of (scopes s) k'
            \<or> (map_of (scopes s') k' = None
               \<and> (\<exists>b. map_of (scopes s) k' = Some b \<and> idle_scope (idleMs s) t b))))"
  using assms
proof (cases rule: scopes_consume_cases)
  case (refused force)
  moreover have "map_of (scopes s') k = None"
    using refused sweep_lookup [OF assms(1), of t False k]
      sweep_lookup [OF sweep_ok [OF assms(1)], of t force t False k] by auto
  ultimately show ?thesis by simp
next
  case (served s0)
  have forgotten: "map_of (scopes s0) j = map_of (scopes s) j
      \<or> (\<exists>b. map_of (scopes s) j = Some b \<and> idle_scope (idleMs s) t b \<and> map_of (scopes s0) j = None)" for j
    using served(1) sweep_lookup [OF assms(1), of t False j]
      sweep_lookup [OF sweep_ok [OF assms(1)], of t True t False j]
    by auto
  have "bucket_consume l n t (scope_bucket k t s0) = bucket_consume l n t (scope_bucket k t s)"
    using forgotten [of k] idle_is_new [OF assms(1) _ _ assms(2)] by (auto simp: scope_bucket_def)
  with charge_scope_lookup [OF served(2)] forgotten show ?thesis by metis
qed

text \<open>
  The table of buckets answers as if it never forgot: a request is refused only when its
  scope is unknown and the table is full of scopes in use; otherwise it is charged to the
  bucket of its scope exactly as if idle scopes were kept for ever, and every other scope is
  left alone or is one that has been idle for the idle time.
\<close>

theorem traffic_scopes_forget_nothing:
  assumes "scopes_ok now s" "now \<le> t" "scopes_consume k l n t s = (s', d)"
  shows "(map_of (scopes s) k = None \<and> map_of (scopes s') k = None \<and> \<not> allowed d
        \<and> retryAfterMs d = rate_window)
    \<or> (d = snd (bucket_consume l n t (scope_bucket k t s))
       \<and> map_of (scopes s') k = Some (fst (bucket_consume l n t (scope_bucket k t s)))
       \<and> (\<forall>k'. k' = k \<or> map_of (scopes s') k' = map_of (scopes s) k'
            \<or> (map_of (scopes s') k' = None
               \<and> (\<exists>b. map_of (scopes s) k' = Some b \<and> idle_scope (idleMs s) t b))))"
  using assms by (rule scopes_consume_kept)

theorem traffic_scopes_forget_nothing_witness:
  "snd (scopes_consume (js ''a'') \<lparr> eventsPerMinute = 1, bytesPerMinute = 8 \<rparr> 4 10 (new_scopes 2 60000 0))
     = snd (bucket_consume \<lparr> eventsPerMinute = 1, bytesPerMinute = 8 \<rparr> 4 10 (new_bucket 10))"
proof -
  have "scopes_ok 0 (new_scopes 2 60000 0)"
    by (rule new_scopes_ok) (simp add: rate_window_def)
  from traffic_scopes_forget_nothing [OF this, of 10 "js ''a''"
      "\<lparr> eventsPerMinute = 1, bytesPerMinute = 8 \<rparr>" 4] show ?thesis
    by (simp add: scopes_consume_def new_scopes_def sweep_def rate_window_def Let_def scopes_full_def
        charge_scope_def bucket_consume_def reset_bucket_def new_bucket_def)
qed

fun scopes_run :: "(jstr \<times> traffic_limits \<times> int \<times> int) list \<Rightarrow> traffic_scopes \<Rightarrow> traffic_scopes" where
  "scopes_run [] s = s"
| "scopes_run ((k, l, n, now) # q) s = scopes_run q (fst (scopes_consume k l n now s))"

lemma scopes_run_ok:
  "scopes_ok now s \<Longrightarrow> sorted (now # map (\<lambda>(k, l, n, t). t) q) \<Longrightarrow> \<exists>t. scopes_ok t (scopes_run q s)
     \<and> maximumScopes (scopes_run q s) = maximumScopes s"
proof (induction q arbitrary: now s)
  case (Cons x q)
  obtain k l n t where x: "x = (k, l, n, t)" by (cases x)
  have "maximumScopes (fst (scopes_consume k l n t s)) = maximumScopes s"
    by (auto simp: scopes_consume_def charge_scope_def Let_def split_beta split: option.splits)
  with Cons.IH [OF scopes_consume_ok [OF Cons.prems(1), of t k l n]] Cons.prems(2) x show ?case
    by simp
qed auto

text \<open>
  The table never holds more buckets than its maximum and never two for one scope, however
  many scopes ask.
\<close>

theorem traffic_scopes_are_bounded:
  assumes "rate_window \<le> idle" "sorted (started # map (\<lambda>(k, l, n, t). t) q)"
  shows "length (scopes (scopes_run q (new_scopes maximum idle started))) \<le> maximum
    \<and> distinct (map fst (scopes (scopes_run q (new_scopes maximum idle started))))"
  using scopes_run_ok [OF new_scopes_ok [OF assms(1)] assms(2), of maximum]
  by (auto simp: scopes_ok_def new_scopes_def)

theorem traffic_scopes_are_bounded_witness:
  "length (scopes (scopes_run [(js ''a'', \<lparr> eventsPerMinute = 1, bytesPerMinute = 8 \<rparr>, 4, 10)]
     (new_scopes 2 60000 0))) \<le> 2"
  using traffic_scopes_are_bounded [of 60000 0
      "[(js ''a'', \<lparr> eventsPerMinute = 1, bytesPerMinute = 8 \<rparr>, 4, 10)]" 2]
  by (simp add: rate_window_def)

end
