(* ===== verification/Socket_Ingress.thy ===== *)
theory Socket_Ingress
  imports Traffic Packet_Json
begin

text \<open>
  Ingress accounting of the socket server, \<open>src/server/socketAbuse.ts\<close>: class
  \<open>SocketIngressGuard\<close>, the per-connection listener of \<open>attachSocketWireIngress\<close>, and the source
  address a connection is charged to. The clock is an argument; \<open>isIP\<close> of Node's \<open>net\<close> module is
  a parameter.
\<close>

section \<open>Options\<close>

text \<open>\<open>None\<close> where the code throws.\<close>

definition positiveInteger :: "jnum \<Rightarrow> int option" where
  "positiveInteger n = (case safe_integer (JNum n) of None \<Rightarrow> None
     | Some v \<Rightarrow> if v \<le> 0 then None else Some v)"

record raw_limits =
  raw_events :: jnum
  raw_bytes :: jnum

definition validatedLimits :: "raw_limits \<Rightarrow> traffic_limits option" where
  "validatedLimits r = do {
     e \<leftarrow> positiveInteger (raw_events r);
     b \<leftarrow> positiveInteger (raw_bytes r);
     Some \<lparr> eventsPerMinute = e, bytesPerMinute = b \<rparr> }"

record ingress_options =
  o_global :: raw_limits
  o_ip :: raw_limits
  o_maxIpScopes :: jnum
  o_maxPrincipalScopes :: jnum
  o_scopeIdleMs :: jnum

definition packet_hard_bytes :: int where "packet_hard_bytes = 5 * 1024 * 1024"
definition wire_hard_bytes :: int where
  "wire_hard_bytes = packet_hard_bytes + int packet_envelope_overhead"

record ingress_guard =
  globalLimits :: traffic_limits
  ipLimits :: traffic_limits
  globalBucket :: traffic_bucket
  ipScopes :: traffic_scopes
  principalScopes :: traffic_scopes

definition new_guard :: "ingress_options \<Rightarrow> int \<Rightarrow> ingress_guard option" where
  "new_guard opts now = do {
     gl \<leftarrow> validatedLimits (o_global opts);
     il \<leftarrow> validatedLimits (o_ip opts);
     idle \<leftarrow> positiveInteger (o_scopeIdleMs opts);
     ips \<leftarrow> positiveInteger (o_maxIpScopes opts);
     principals \<leftarrow> positiveInteger (o_maxPrincipalScopes opts);
     Some \<lparr> globalLimits = gl, ipLimits = il, globalBucket = new_bucket now,
       ipScopes = new_scopes (nat ips) (max rate_window idle) now,
       principalScopes = new_scopes (nat principals) (max rate_window idle) now \<rparr> }"

section \<open>Decisions\<close>

record ingress_decision =
  i_allowed :: bool
  i_retryAfterMs :: int
  packetBytes :: int

definition wait_of :: "rate_decision \<Rightarrow> int" where
  "wait_of d = (if allowed d then 0 else retryAfterMs d)"

text \<open>A packet with its heap, and its charge against an accounting cutoff (a positive one).\<close>

type_synonym packet = "heap \<times> pval"

definition packet_charge :: "packet \<Rightarrow> int \<Rightarrow> int" where
  "packet_charge p cutoff =
     (case boundedSocketPacketBytes (fst p) (snd p) (nat cutoff) of None \<Rightarrow> 0 | Some n \<Rightarrow> int n)"

definition charge_global :: "int \<Rightarrow> int \<Rightarrow> ingress_guard \<Rightarrow> ingress_guard \<times> rate_decision" where
  "charge_global n now g =
     (let (b, d) = bucket_consume (globalLimits g) n now (globalBucket g)
      in (g\<lparr> globalBucket := b \<rparr>, d))"

definition charge_ip :: "jstr \<Rightarrow> int \<Rightarrow> int \<Rightarrow> ingress_guard \<Rightarrow> ingress_guard \<times> rate_decision" where
  "charge_ip ip n now g =
     (let (s, d) = scopes_consume ip (ipLimits g) n now (ipScopes g) in (g\<lparr> ipScopes := s \<rparr>, d))"

definition charge_principal ::
  "jstr \<Rightarrow> traffic_limits \<Rightarrow> int \<Rightarrow> int \<Rightarrow> ingress_guard \<Rightarrow> ingress_guard \<times> rate_decision" where
  "charge_principal k l n now g =
     (let (s, d) = scopes_consume k l n now (principalScopes g) in (g\<lparr> principalScopes := s \<rparr>, d))"

definition consume_validated ::
  "jstr \<Rightarrow> jstr \<Rightarrow> traffic_limits \<Rightarrow> packet \<Rightarrow> int \<Rightarrow> ingress_guard \<Rightarrow> ingress_guard \<times> ingress_decision" where
  "consume_validated ip scope l p now g =
     (let cutoff = max (bytesPerMinute (globalLimits g)) (max (bytesPerMinute (ipLimits g)) (bytesPerMinute l));
          accounting = min cutoff packet_hard_bytes;
          n = packet_charge p accounting;
          hard = (accounting < n);
          aggregate = min n accounting;
          (g1, dg) = charge_global aggregate now g;
          (g2, di) = charge_ip ip aggregate now g1;
          (g3, dp) = charge_principal scope l (if hard then bytesPerMinute l else n) now g2
      in (g3, \<lparr> i_allowed = (\<not> hard \<and> allowed dg \<and> allowed di \<and> allowed dp),
          i_retryAfterMs = max (wait_of dg) (max (wait_of di) (max (wait_of dp)
            (max (if hard then retryAfterMs dp else 0) 1))),
          packetBytes = n \<rparr>))"

definition guard_consume ::
  "jstr \<Rightarrow> jstr \<Rightarrow> raw_limits \<Rightarrow> packet \<Rightarrow> int \<Rightarrow> ingress_guard \<Rightarrow> (ingress_guard \<times> ingress_decision) option" where
  "guard_consume ip scope raw p now g =
     map_option (\<lambda>l. consume_validated ip scope l p now g) (validatedLimits raw)"

definition consumeUnattributed ::
  "jstr \<Rightarrow> packet \<Rightarrow> int \<Rightarrow> ingress_guard \<Rightarrow> ingress_guard \<times> ingress_decision" where
  "consumeUnattributed ip p now g =
     (let cutoff = max (bytesPerMinute (globalLimits g)) (bytesPerMinute (ipLimits g));
          accounting = min cutoff packet_hard_bytes;
          n = packet_charge p accounting;
          hard = (accounting < n);
          (g1, dg) = charge_global (min n accounting) now g;
          (g2, di) = charge_ip ip (if hard then bytesPerMinute (ipLimits g) else n) now g1
      in (g2, \<lparr> i_allowed = (\<not> hard \<and> allowed dg \<and> allowed di),
          i_retryAfterMs = max (wait_of dg) (max (wait_of di)
            (max (if hard then retryAfterMs di else 0) 1)),
          packetBytes = n \<rparr>))"

definition consumePrincipal ::
  "jstr \<Rightarrow> raw_limits \<Rightarrow> packet \<Rightarrow> int \<Rightarrow> ingress_guard \<Rightarrow> (ingress_guard \<times> ingress_decision) option" where
  "consumePrincipal scope raw p now g = do {
     l \<leftarrow> validatedLimits raw;
     let accounting = min (bytesPerMinute l) packet_hard_bytes;
         n = packet_charge p accounting;
         hard = (accounting < n);
         (g1, dp) = charge_principal scope l (if hard then bytesPerMinute l else n) now g
     in Some (g1, \<lparr> i_allowed = (\<not> hard \<and> allowed dp),
         i_retryAfterMs = max (wait_of dp) (max (if hard then retryAfterMs dp else 0) 1),
         packetBytes = n \<rparr>) }"

text \<open>An Engine.IO message before decoding: text, binary of some length, or anything else.\<close>

datatype wire_data = WireText jstr | WireBinary nat | WireOther

fun payload_bytes :: "wire_data \<Rightarrow> int" where
  "payload_bytes (WireText s) = int (utf8_length s)"
| "payload_bytes (WireBinary n) = int n"
| "payload_bytes WireOther = wire_hard_bytes + 1"

definition consumeWire ::
  "jstr \<Rightarrow> wire_data \<Rightarrow> int \<Rightarrow> ingress_guard \<Rightarrow> ingress_guard \<times> ingress_decision" where
  "consumeWire ip w now g =
     (let measured = payload_bytes w + int packet_envelope_overhead;
          hard = (wire_hard_bytes < measured);
          n = (if hard then wire_hard_bytes + 1 else measured);
          (g1, dg) = charge_global (min n wire_hard_bytes) now g;
          (g2, di) = charge_ip ip (if hard then bytesPerMinute (ipLimits g) else n) now g1
      in (g2, \<lparr> i_allowed = (\<not> hard \<and> allowed dg \<and> allowed di),
          i_retryAfterMs = max (wait_of dg) (max (wait_of di)
            (max (if hard then retryAfterMs di else 0) 1)),
          packetBytes = n \<rparr>))"


section \<open>The listener of a connection\<close>

text \<open>
  \<open>WireClose\<close> closes at once, \<open>WireBlock\<close> marks the connection and closes it 25 ms later,
  \<open>WirePass\<close> leaves the message to the decoder.
\<close>

datatype wire_action = WirePass | WireBlock | WireClose

record wire_state =
  w_guard :: ingress_guard
  blocked :: "jstr list"

definition on_wire_data :: "jstr \<Rightarrow> jstr \<Rightarrow> wire_data \<Rightarrow> int \<Rightarrow> wire_state \<Rightarrow> wire_state \<times> wire_action" where
  "on_wire_data conn ip w now st =
     (if conn \<in> set (blocked st) then (st, WireClose)
      else let (g, d) = consumeWire ip w now (w_guard st)
           in if i_allowed d then (st\<lparr> w_guard := g \<rparr>, WirePass)
              else (st\<lparr> w_guard := g, blocked := conn # blocked st \<rparr>, WireBlock))"

section \<open>The source address\<close>

text \<open>A header is absent, a single value, or (for repeated headers) a list.\<close>

datatype header = NoHeader | OneHeader jstr | ManyHeaders "jstr list"

fun headerValue :: "header \<Rightarrow> jstr option" where
  "headerValue NoHeader = None"
| "headerValue (OneHeader v) = Some v"
| "headerValue (ManyHeaders vs) = (case vs of [] \<Rightarrow> None | v # _ \<Rightarrow> Some v)"

definition normalizedIp :: "(jstr \<Rightarrow> bool) \<Rightarrow> jstr option \<Rightarrow> jstr option" where
  "normalizedIp isIP v = (case v of None \<Rightarrow> None
     | Some raw \<Rightarrow>
         (let candidate = js_trim raw;
              address = (if take 7 (ascii_lower candidate) = js ''::ffff:'' then drop 7 candidate else candidate)
          in if candidate = [] then None
             else if isIP address then Some (ascii_lower address) else None))"

text \<open>Only a trusted proxy given as an address lets the \<open>x-real-ip\<close> header speak.\<close>

definition socketSourceIp :: "(jstr \<Rightarrow> bool) \<Rightarrow> jstr option \<Rightarrow> header \<Rightarrow> jstr option \<Rightarrow> jstr" where
  "socketSourceIp isIP remoteAddress realIp trustedProxy =
     (let remote = (case normalizedIp isIP remoteAddress of None \<Rightarrow> js ''unknown'' | Some r \<Rightarrow> r);
          trusted = normalizedIp isIP trustedProxy
      in if trusted = None \<or> trusted = Some [] \<or> trusted \<noteq> Some remote then remote
         else case normalizedIp isIP (headerValue realIp) of None \<Rightarrow> remote | Some r \<Rightarrow> r)"

section \<open>The global budget\<close>

text \<open>
  The four operations of the guard. A principal's limits are validated first; invalid ones are an
  exception that leaves the guard as it was.
\<close>

datatype ingress_request =
    Attributed jstr jstr raw_limits packet
  | Unattributed jstr packet
  | Principal jstr raw_limits packet
  | Wire jstr wire_data

fun ingress_result :: "ingress_request \<Rightarrow> int \<Rightarrow> ingress_guard \<Rightarrow> (ingress_guard \<times> ingress_decision) option" where
  "ingress_result (Attributed ip scope raw p) now g = guard_consume ip scope raw p now g"
| "ingress_result (Unattributed ip p) now g = Some (consumeUnattributed ip p now g)"
| "ingress_result (Principal scope raw p) now g = consumePrincipal scope raw p now g"
| "ingress_result (Wire ip w) now g = Some (consumeWire ip w now g)"

definition ingress_serve :: "ingress_request \<Rightarrow> int \<Rightarrow> ingress_guard \<Rightarrow> ingress_guard" where
  "ingress_serve r now g = (case ingress_result r now g of None \<Rightarrow> g | Some (g', d) \<Rightarrow> g')"

text \<open>\<open>consumePrincipal\<close> leaves the global budget alone; the others are charged to it.\<close>

fun charged_globally :: "ingress_request \<Rightarrow> bool" where
  "charged_globally (Principal scope raw p) = False"
| "charged_globally r = True"

text \<open>The bytes a request is admitted with on the global budget.\<close>

definition ingress_admitted :: "ingress_request \<Rightarrow> int \<Rightarrow> ingress_guard \<Rightarrow> int" where
  "ingress_admitted r now g =
     (case ingress_result r now g of None \<Rightarrow> 0
      | Some (g', d) \<Rightarrow> if charged_globally r \<and> i_allowed d then packetBytes d else 0)"

definition guard_window :: "ingress_guard \<Rightarrow> int" where
  "guard_window g = windowStartedAt (globalBucket g)"

definition guard_bytes :: "ingress_guard \<Rightarrow> int" where
  "guard_bytes g = b_bytes (globalBucket g)"

definition guard_ok :: "traffic_limits \<Rightarrow> ingress_guard \<Rightarrow> bool" where
  "guard_ok l g \<longleftrightarrow> globalLimits g = l \<and> 0 < bytesPerMinute l \<and> 0 < eventsPerMinute l
     \<and> bucket_ok l (globalBucket g)"

lemma packet_charge_nonneg: "0 \<le> packet_charge p c"
  by (simp add: packet_charge_def split: option.splits)

lemma payload_nonneg: "0 \<le> payload_bytes w"
  by (cases w) (simp_all add: wire_hard_bytes_def packet_hard_bytes_def)

lemma charge_ip_frame: "charge_ip ip n now g = (g', d) \<Longrightarrow>
    globalBucket g' = globalBucket g \<and> globalLimits g' = globalLimits g"
  by (auto simp: charge_ip_def split_beta)

lemma charge_principal_frame: "charge_principal k l n now g = (g', d) \<Longrightarrow>
    globalBucket g' = globalBucket g \<and> globalLimits g' = globalLimits g"
  by (auto simp: charge_principal_def split_beta)

lemma charge_global_bucket:
  assumes "charge_global a now g = (g', d)" "0 \<le> a"
  shows "globalBucket g' = bucket_serve (globalLimits g) (nat a) now (globalBucket g)"
    and "globalLimits g' = globalLimits g"
    and "admitted_bytes (globalLimits g) (nat a) now (globalBucket g) = (if allowed d then a else 0)"
  using assms by (auto simp: charge_global_def bucket_serve_def admitted_bytes_def split_beta)

text \<open>
  A request that charges the global bucket once, with no less than what it admits.
\<close>

definition charges_bucket :: "ingress_request \<Rightarrow> int \<Rightarrow> ingress_guard \<Rightarrow> bool" where
  "charges_bucket r now g \<longleftrightarrow>
     (\<exists>n. globalBucket (ingress_serve r now g) = bucket_serve (globalLimits g) n now (globalBucket g)
       \<and> globalLimits (ingress_serve r now g) = globalLimits g
       \<and> 0 \<le> ingress_admitted r now g
       \<and> ingress_admitted r now g \<le> admitted_bytes (globalLimits g) n now (globalBucket g))"

definition spares_bucket :: "ingress_request \<Rightarrow> int \<Rightarrow> ingress_guard \<Rightarrow> bool" where
  "spares_bucket r now g \<longleftrightarrow> globalBucket (ingress_serve r now g) = globalBucket g
     \<and> globalLimits (ingress_serve r now g) = globalLimits g \<and> ingress_admitted r now g = 0"

lemma one_charge:
  assumes "ingress_result r now g = Some (g', d)" "charged_globally r" "0 \<le> a"
    and "globalBucket g' = bucket_serve (globalLimits g) (nat a) now (globalBucket g)"
    and "globalLimits g' = globalLimits g"
    and "admitted_bytes (globalLimits g) (nat a) now (globalBucket g) = (if allowed dg then a else 0)"
    and "i_allowed d \<Longrightarrow> allowed dg \<and> packetBytes d = a"
  shows "charges_bucket r now g"
  unfolding charges_bucket_def
proof (intro exI conjI)
  show "globalBucket (ingress_serve r now g) = bucket_serve (globalLimits g) (nat a) now (globalBucket g)"
    and "globalLimits (ingress_serve r now g) = globalLimits g"
    using assms(1,4,5) by (simp_all add: ingress_serve_def)
  have "ingress_admitted r now g = (if i_allowed d then packetBytes d else 0)"
    by (simp add: ingress_admitted_def assms(1,2))
  with assms(3,6,7) show "0 \<le> ingress_admitted r now g"
    and "ingress_admitted r now g \<le> admitted_bytes (globalLimits g) (nat a) now (globalBucket g)"
    by (cases "i_allowed d"; simp)+
qed

lemma consume_validated_charges:
  assumes pos: "0 < bytesPerMinute (globalLimits g)" and v: "validatedLimits raw = Some l"
  shows "charges_bucket (Attributed ip scope raw p) now g"
proof -
  define c where "c = min (max (bytesPerMinute (globalLimits g)) (max (bytesPerMinute (ipLimits g))
    (bytesPerMinute l))) packet_hard_bytes"
  define n where "n = packet_charge p c"
  have n: "0 \<le> min n c"
    using pos by (simp add: n_def packet_charge_nonneg c_def packet_hard_bytes_def)
  obtain g1 dg where 1: "charge_global (min n c) now g = (g1, dg)" by fastforce
  obtain g2 di where 2: "charge_ip ip (min n c) now g1 = (g2, di)" by fastforce
  obtain g3 dp where 3: "charge_principal scope l (if c < n then bytesPerMinute l else n) now g2 = (g3, dp)"
    by fastforce
  have res: "ingress_result (Attributed ip scope raw p) now g
    = Some (g3, \<lparr> i_allowed = (\<not> c < n \<and> allowed dg \<and> allowed di \<and> allowed dp),
      i_retryAfterMs = max (wait_of dg) (max (wait_of di) (max (wait_of dp)
        (max (if c < n then retryAfterMs dp else 0) 1))), packetBytes = n \<rparr>)"
    by (simp only: ingress_result.simps guard_consume_def v option.map consume_validated_def Let_def
          c_def [symmetric] n_def [symmetric] 1 2 3 prod.case)
  show ?thesis
    using charge_global_bucket [OF 1 n] charge_ip_frame [OF 2] charge_principal_frame [OF 3]
    by (intro one_charge [OF res _ n, where dg = dg]) simp_all
qed

lemma consumeUnattributed_charges:
  assumes pos: "0 < bytesPerMinute (globalLimits g)"
  shows "charges_bucket (Unattributed ip p) now g"
proof -
  define c where "c = min (max (bytesPerMinute (globalLimits g)) (bytesPerMinute (ipLimits g))) packet_hard_bytes"
  define n where "n = packet_charge p c"
  have n: "0 \<le> min n c"
    using pos by (simp add: n_def packet_charge_nonneg c_def packet_hard_bytes_def)
  obtain g1 dg where 1: "charge_global (min n c) now g = (g1, dg)" by fastforce
  obtain g2 di where 2: "charge_ip ip (if c < n then bytesPerMinute (ipLimits g) else n) now g1 = (g2, di)"
    by fastforce
  have res: "ingress_result (Unattributed ip p) now g
    = Some (g2, \<lparr> i_allowed = (\<not> c < n \<and> allowed dg \<and> allowed di),
      i_retryAfterMs = max (wait_of dg) (max (wait_of di) (max (if c < n then retryAfterMs di else 0) 1)),
      packetBytes = n \<rparr>)"
    by (simp only: ingress_result.simps consumeUnattributed_def Let_def c_def [symmetric]
          n_def [symmetric] 1 2 prod.case)
  show ?thesis
    using charge_global_bucket [OF 1 n] charge_ip_frame [OF 2]
    by (intro one_charge [OF res _ n, where dg = dg]) simp_all
qed

lemma consumeWire_charges: "charges_bucket (Wire ip w) now g"
proof -
  define k where "k = payload_bytes w + int packet_envelope_overhead"
  define n where "n = (if wire_hard_bytes < k then wire_hard_bytes + 1 else k)"
  have n: "0 \<le> min n wire_hard_bytes" "\<not> wire_hard_bytes < k \<Longrightarrow> min n wire_hard_bytes = n"
    using payload_nonneg [of w] by (simp_all add: n_def k_def wire_hard_bytes_def packet_hard_bytes_def)
  obtain g1 dg where 1: "charge_global (min n wire_hard_bytes) now g = (g1, dg)" by fastforce
  obtain g2 di where 2: "charge_ip ip (if wire_hard_bytes < k then bytesPerMinute (ipLimits g) else n) now g1
      = (g2, di)" by fastforce
  have res: "ingress_result (Wire ip w) now g
    = Some (g2, \<lparr> i_allowed = (\<not> wire_hard_bytes < k \<and> allowed dg \<and> allowed di),
      i_retryAfterMs = max (wait_of dg) (max (wait_of di)
        (max (if wire_hard_bytes < k then retryAfterMs di else 0) 1)), packetBytes = n \<rparr>)"
    by (simp only: ingress_result.simps consumeWire_def Let_def k_def [symmetric] n_def [symmetric]
          1 2 prod.case)
  show ?thesis
    using charge_global_bucket [OF 1 n(1)] charge_ip_frame [OF 2] n(2)
    by (intro one_charge [OF res _ n(1), where dg = dg]) simp_all
qed

lemma consumePrincipal_frame:
  assumes "consumePrincipal scope raw p now g = Some (g', d)"
  shows "globalBucket g' = globalBucket g \<and> globalLimits g' = globalLimits g"
proof -
  have "globalBucket (fst (charge_principal k l n now g)) = globalBucket g"
    "globalLimits (fst (charge_principal k l n now g)) = globalLimits g" for k l n
    by (simp_all add: charge_principal_def split_beta)
  with assms show ?thesis by (auto simp: consumePrincipal_def bind_eq_Some_conv Let_def split_beta)
qed

text \<open>Every request charges the global bucket once or leaves it alone.\<close>

lemma ingress_charges_bucket:
  assumes pos: "0 < bytesPerMinute (globalLimits g)"
  shows "charges_bucket r now g \<or> spares_bucket r now g"
proof (cases r)
  case (Attributed ip scope raw p)
  then show ?thesis using consume_validated_charges [OF pos]
    by (cases "validatedLimits raw")
      (auto simp: spares_bucket_def ingress_serve_def ingress_admitted_def guard_consume_def)
next
  case (Principal scope raw p)
  show ?thesis
  proof (cases "consumePrincipal scope raw p now g")
    case None
    then show ?thesis by (simp add: Principal spares_bucket_def ingress_serve_def ingress_admitted_def)
  next
    case (Some x)
    then obtain g' d where x: "consumePrincipal scope raw p now g = Some (g', d)" by (cases x) auto
    with consumePrincipal_frame [OF x] show ?thesis
      by (simp add: Principal spares_bucket_def ingress_serve_def ingress_admitted_def)
  qed
qed (simp_all add: consumeUnattributed_charges [OF pos] consumeWire_charges)

interpretation ingress: fixed_window guard_window guard_bytes ingress_serve ingress_admitted
  "guard_ok l" "bytesPerMinute l" rate_window for l
proof
  show "0 < rate_window" by (rule bytes.len_pos)
next
  fix g now and r :: ingress_request
  assume "guard_ok l g"
  then have ok: "bucket_ok l (globalBucket g)" and lim: "globalLimits g = l" "0 < bytesPerMinute l"
    by (simp_all add: guard_ok_def)
  have served: "(\<exists>n. globalBucket (ingress_serve r now g) = bucket_serve l n now (globalBucket g)
        \<and> ingress_admitted r now g \<le> admitted_bytes l n now (globalBucket g))
      \<or> globalBucket (ingress_serve r now g) = globalBucket g \<and> ingress_admitted r now g = 0"
    and n: "0 \<le> ingress_admitted r now g" "globalLimits (ingress_serve r now g) = l"
    using ingress_charges_bucket [of g r now] lim by (auto simp: charges_bucket_def spares_bucket_def)
  note defs = guard_window_def guard_bytes_def
  show "guard_window (ingress_serve r now g) = guard_window g
      \<and> guard_bytes g + ingress_admitted r now g \<le> guard_bytes (ingress_serve r now g)"
    if "guard_window g \<le> now" "now < guard_window g + rate_window"
    using served
  proof
    assume "\<exists>n. globalBucket (ingress_serve r now g) = bucket_serve l n now (globalBucket g)
      \<and> ingress_admitted r now g \<le> admitted_bytes l n now (globalBucket g)"
    then obtain n where "globalBucket (ingress_serve r now g) = bucket_serve l n now (globalBucket g)"
      "ingress_admitted r now g \<le> admitted_bytes l n now (globalBucket g)" by blast
    with bytes.kept [OF ok, of now n] that show ?thesis by (simp add: defs)
  qed (simp add: defs)
  show "guard_window (ingress_serve r now g) = now
        \<and> ingress_admitted r now g \<le> guard_bytes (ingress_serve r now g)
      \<or> guard_window (ingress_serve r now g) + rate_window \<le> now \<and> ingress_admitted r now g = 0"
    if "guard_window g + rate_window \<le> now"
    using served
  proof
    assume "\<exists>n. globalBucket (ingress_serve r now g) = bucket_serve l n now (globalBucket g)
      \<and> ingress_admitted r now g \<le> admitted_bytes l n now (globalBucket g)"
    then obtain n where "globalBucket (ingress_serve r now g) = bucket_serve l n now (globalBucket g)"
      "ingress_admitted r now g \<le> admitted_bytes l n now (globalBucket g)" by blast
    with bytes.renewed [OF ok, of now n] that n(1) show ?thesis by (auto simp: defs)
  qed (use that in \<open>simp add: defs\<close>)
  show "guard_ok l (ingress_serve r now g)"
    using bucket_serve_ok [OF ok] \<open>guard_ok l g\<close> served n(2) by (auto simp: guard_ok_def)
  show "0 \<le> ingress_admitted r now g" by (rule n(1))
next
  fix g assume "guard_ok l g"
  then show "0 \<le> guard_bytes g \<and> guard_bytes g \<le> bytesPerMinute l"
    by (simp add: guard_ok_def guard_bytes_def bucket_ok_def)
qed


text \<open>
  C33. The global byte budget holds: over any mix of the guard's four operations, from whatever
  addresses and principals and with a clock that does not run backwards, the operations that are
  charged to the global budget (raw messages, attributed and unattributed packets) together admit
  at most twice that budget in any 60 seconds. \<open>consumePrincipal\<close> charges a principal alone and
  has no influence on it.
\<close>

theorem ingress_bounds_global_traffic:
  assumes "new_guard opts started = Some g"
    and "sorted (map snd q)" "\<forall>x \<in> set q. started \<le> snd x"
  shows "charged_between t (t + rate_window) (trace ingress_serve guard_window ingress_admitted q g)
    \<le> 2 * bytesPerMinute (globalLimits g)"
proof -
  have "guard_ok (globalLimits g) g" "guard_window g = started"
    using assms(1)
    by (auto simp: new_guard_def validatedLimits_def positiveInteger_def guard_ok_def guard_window_def
          bucket_ok_def new_bucket_def bind_eq_Some_conv split: option.splits if_splits)
  then show ?thesis
    using ingress.twice_the_limit assms(2,3) by blast
qed

definition demo_options :: ingress_options where
  "demo_options = \<lparr> o_global = \<lparr> raw_events = JInt 10, raw_bytes = JInt 1000 \<rparr>,
     o_ip = \<lparr> raw_events = JInt 5, raw_bytes = JInt 500 \<rparr>, o_maxIpScopes = JInt 4,
     o_maxPrincipalScopes = JInt 4, o_scopeIdleMs = JInt 60000 \<rparr>"

definition demo_guard :: ingress_guard where
  "demo_guard = \<lparr> globalLimits = \<lparr> eventsPerMinute = 10, bytesPerMinute = 1000 \<rparr>,
     ipLimits = \<lparr> eventsPerMinute = 5, bytesPerMinute = 500 \<rparr>, globalBucket = new_bucket 0,
     ipScopes = new_scopes 4 60000 0, principalScopes = new_scopes 4 60000 0 \<rparr>"

lemma demo_guard_new: "new_guard demo_options 0 = Some demo_guard"
  by (simp add: new_guard_def demo_options_def validatedLimits_def positiveInteger_def
        max_safe_integer_def demo_guard_def rate_window_def)

definition demo_raw :: raw_limits where
  "demo_raw = \<lparr> raw_events = JInt 5, raw_bytes = JInt 100 \<rparr>"

lemma demo_foreign_charge: "packet_charge (\<lambda>_. PForeign, PRef 0) 100 = 101"
proof -
  have "traverse (\<lambda>_. PForeign) 100 \<lparr> stack = [(PRef 0, 0)], seen = [], bytes = 64, nodes = 0 \<rparr> = 101"
    by (subst traverse.simps) (simp add: turn_def visit_object_def packet_max_nodes_def)
  then show ?thesis
    by (simp add: packet_charge_def boundedSocketPacketBytes_def packet_envelope_overhead_def)
qed

definition demo_spent :: ingress_guard where
  "demo_spent = demo_guard\<lparr> principalScopes := (new_scopes 4 60000 0)\<lparr> scopes := [(js ''u'',
     \<lparr> windowStartedAt = 0, b_events = 1, b_bytes = 100, lastSeenAt = 0 \<rparr>)] \<rparr> \<rparr>"

lemma demo_oversize:
  "consumePrincipal (js ''u'') demo_raw (\<lambda>_. PForeign, PRef 0) 0 demo_guard
     = Some (demo_spent, \<lparr> i_allowed = False, i_retryAfterMs = 60000, packetBytes = 101 \<rparr>)"
  by (simp add: consumePrincipal_def validatedLimits_def positiveInteger_def demo_raw_def
        max_safe_integer_def packet_hard_bytes_def demo_foreign_charge charge_principal_def
        demo_guard_def scopes_consume_def new_scopes_def sweep_def rate_window_def Let_def
        scopes_full_def charge_scope_def bucket_consume_def reset_bucket_def new_bucket_def
        wait_of_def demo_spent_def)

text \<open>An oversize packet of a principal, and three messages of which the last is refused.\<close>

definition demo_wire :: "(ingress_request \<times> int) list" where
  "demo_wire = [(Wire (js ''10.0.0.1'') (WireBinary 100), 5), (Wire (js ''10.0.0.2'') (WireBinary 400), 7),
     (Wire (js ''10.0.0.3'') (WireBinary 900), 8)]"

definition demo_traffic :: "(ingress_request \<times> int) list" where
  "demo_traffic = (Principal (js ''u'') demo_raw (\<lambda>_. PForeign, PRef 0), 0) # demo_wire"

lemma demo_wire_admitted:
  "charged_between 0 rate_window (trace ingress_serve guard_window ingress_admitted demo_wire demo_spent) = 628"
  by code_simp

lemma demo_traffic_admitted:
  "charged_between 0 rate_window (trace ingress_serve guard_window ingress_admitted demo_traffic demo_guard) = 628"
  using demo_wire_admitted by (simp add: demo_traffic_def ingress_serve_def ingress_admitted_def demo_oversize)

theorem ingress_bounds_global_traffic_witness:
  "charged_between 0 rate_window (trace ingress_serve guard_window ingress_admitted demo_traffic demo_guard) = 628
   \<and> (628 :: int) \<le> 2 * bytesPerMinute (globalLimits demo_guard)"
proof -
  have "sorted (map snd demo_traffic)" "\<forall>x \<in> set demo_traffic. 0 \<le> snd x"
    by (simp_all add: demo_traffic_def demo_wire_def)
  from ingress_bounds_global_traffic [OF demo_guard_new this, of 0] demo_traffic_admitted show ?thesis by simp
qed

section \<open>Oversize packets\<close>

lemma validatedLimits_pos:
  "validatedLimits raw = Some l \<Longrightarrow> 0 < eventsPerMinute l \<and> 0 < bytesPerMinute l"
  by (auto simp: validatedLimits_def positiveInteger_def bind_eq_Some_conv split: option.splits if_splits)

lemma packet_charge_pos: "0 < cutoff \<Longrightarrow> 0 < packet_charge p cutoff"
  by (auto simp: packet_charge_def boundedSocketPacketBytes_def packet_envelope_overhead_def
        intro!: traverse_pos)

text \<open>What one packet of a principal is charged.\<close>

lemma consumePrincipal_charge:
  assumes "validatedLimits raw = Some l" "consumePrincipal scope raw p t g = Some (g', d)"
  obtains n dp where "0 < n"
    "scopes_consume scope l n t (principalScopes g) = (principalScopes g', dp)"
    "i_allowed d \<longrightarrow> allowed dp"
    "min (bytesPerMinute l) packet_hard_bytes < packetBytes d \<longrightarrow> n = bytesPerMinute l \<and> \<not> i_allowed d"
proof -
  define c where "c = min (bytesPerMinute l) packet_hard_bytes"
  define n where "n = (if c < packet_charge p c then bytesPerMinute l else packet_charge p c)"
  have pos: "0 < bytesPerMinute l" using validatedLimits_pos [OF assms(1)] by simp
  then have "0 < c" by (simp add: c_def packet_hard_bytes_def)
  then have "0 < n" using packet_charge_pos [of c p] pos by (simp add: n_def)
  obtain s dp where s: "scopes_consume scope l n t (principalScopes g) = (s, dp)" by fastforce
  have "g' = g\<lparr> principalScopes := s \<rparr> \<and> d = \<lparr> i_allowed = (\<not> c < packet_charge p c \<and> allowed dp),
      i_retryAfterMs = max (wait_of dp) (max (if c < packet_charge p c then retryAfterMs dp else 0) 1),
      packetBytes = packet_charge p c \<rparr>"
    using assms s
    by (simp only: consumePrincipal_def bind.bind_lunit Let_def c_def [symmetric] n_def [symmetric]
          charge_principal_def prod.case option.inject prod.inject)
  with s \<open>0 < n\<close> show thesis by (intro that [of n dp]) (simp_all add: n_def c_def)
qed

text \<open>A bucket that has spent its byte budget admits nothing more in its window.\<close>

lemma spent_bucket_refuses:
  assumes "bytesPerMinute l \<le> b_bytes b" "windowStartedAt b \<le> t" "t < windowStartedAt b + rate_window" "0 < n"
  shows "\<not> allowed (snd (bucket_consume l n t b))"
  using assms by (simp add: bucket_consume_def reset_bucket_def Let_def)

text \<open>
  A packet too large to be accounted is refused and spends the whole byte budget of its
  principal: until the window of that principal ends, no packet of it is admitted.
\<close>

theorem oversize_packet_locks_out_principal:
  assumes "scopes_ok now (principalScopes g)" "now \<le> t" "t \<le> t'"
    and "\<forall>(k, b) \<in> set (scopes (principalScopes g)). 0 \<le> b_bytes b"
    and "validatedLimits raw = Some l" "consumePrincipal scope raw p t g = Some (g1, d1)"
    and "min (bytesPerMinute l) packet_hard_bytes < packetBytes d1"
    and "map_of (scopes (principalScopes g1)) scope = Some b" "t' < windowStartedAt b + rate_window"
    and "consumePrincipal scope raw p' t' g1 = Some (g2, d2)"
  shows "\<not> i_allowed d1 \<and> \<not> i_allowed d2"
proof -
  obtain dp where 1: "scopes_consume scope l (bytesPerMinute l) t (principalScopes g) = (principalScopes g1, dp)"
    and no: "\<not> i_allowed d1"
    using consumePrincipal_charge [OF assms(5,6)] assms(7) by metis
  obtain n dp' where n: "0 < n" "scopes_consume scope l n t' (principalScopes g1) = (principalScopes g2, dp')"
    "i_allowed d2 \<longrightarrow> allowed dp'"
    using consumePrincipal_charge [OF assms(5,10)] by metis
  define b0 where "b0 = scope_bucket scope t (principalScopes g)"
  have b: "b = fst (bucket_consume l (bytesPerMinute l) t b0)"
    using scopes_consume_kept [OF assms(1,2) 1] assms(8) by (auto simp: b0_def)
  have "0 \<le> b_bytes b0"
    using assms(4) by (fastforce simp: b0_def scope_bucket_def new_bucket_def dest: map_of_SomeD split: option.splits)
  then have spent: "bytesPerMinute l \<le> b_bytes b"
    by (auto simp: b bucket_consume_def reset_bucket_def Let_def)
  have started: "windowStartedAt b \<le> t'"
    using bucket_consume_times [OF scope_bucket_started [OF assms(1,2), of scope], of l "bytesPerMinute l"]
      assms(3) by (auto simp: b b0_def)
  have ok1: "scopes_ok t (principalScopes g1)"
    using scopes_consume_ok [OF assms(1,2), of scope l "bytesPerMinute l"] 1 by simp
  have "scope_bucket scope t' (principalScopes g1) = b"
    using assms(8) by (simp add: scope_bucket_def)
  with scopes_consume_kept [OF ok1 assms(3) n(2)] spent_bucket_refuses [OF spent started assms(9) n(1)]
  have "\<not> allowed dp'" by auto
  with n(3) no show ?thesis by blast
qed


theorem oversize_packet_locks_out_principal_witness:
  "\<exists>g2 d2. consumePrincipal (js ''u'') demo_raw (\<lambda>_. PForeign, PRef 0) 10 demo_spent = Some (g2, d2)
     \<and> \<not> i_allowed d2"
proof -
  have limits: "validatedLimits demo_raw = Some \<lparr> eventsPerMinute = 5, bytesPerMinute = 100 \<rparr>"
    by (simp add: validatedLimits_def positiveInteger_def demo_raw_def max_safe_integer_def)
  have ok: "scopes_ok 0 (principalScopes demo_guard)"
    by (simp add: demo_guard_def new_scopes_ok rate_window_def)
  obtain g2 d2 where second: "consumePrincipal (js ''u'') demo_raw (\<lambda>_. PForeign, PRef 0) 10 demo_spent = Some (g2, d2)"
    by (simp add: consumePrincipal_def limits split_beta Let_def)
  then show ?thesis
    using oversize_packet_locks_out_principal [OF ok _ _ _ limits demo_oversize _ _ _ second]
    by (simp add: demo_guard_def demo_spent_def new_scopes_def packet_hard_bytes_def rate_window_def)
qed

section \<open>Blocked connections\<close>

fun wire_run :: "(jstr \<times> jstr \<times> wire_data \<times> int) list \<Rightarrow> wire_state \<Rightarrow> (jstr \<times> wire_action) list" where
  "wire_run [] st = []"
| "wire_run ((conn, ip, w, now) # es) st =
     (let (st', act) = on_wire_data conn ip w now st in (conn, act) # wire_run es st')"

lemma blocked_stays: "conn \<in> set (blocked st) \<Longrightarrow> (conn, act) \<in> set (wire_run es st) \<Longrightarrow> act = WireClose"
proof (induction es arbitrary: st)
  case (Cons e es)
  obtain c ip w now where e: "e = (c, ip, w, now)" by (cases e)
  obtain st' a where step: "on_wire_data c ip w now st = (st', a)" by fastforce
  then have "conn \<in> set (blocked st')" "c = conn \<longrightarrow> a = WireClose"
    using Cons.prems(1) by (auto simp: on_wire_data_def split_beta split: if_splits)
  with Cons e step show ?case by auto
qed simp

text \<open>
  A connection that has exceeded its budget once is finished: none of its later messages is
  passed to the decoder, whatever other connections do in between.
\<close>

theorem blocked_connection_is_closed:
  assumes "on_wire_data conn ip w now st = (st', WireBlock)" "(conn, act) \<in> set (wire_run es st')"
  shows "act = WireClose"
proof (rule blocked_stays [OF _ assms(2)])
  show "conn \<in> set (blocked st')"
    using assms(1) by (auto simp: on_wire_data_def split_beta split: if_splits)
qed

theorem blocked_connection_is_closed_witness:
  "\<exists>st'. on_wire_data (js ''c'') (js ''10.0.0.1'') WireOther 0 \<lparr> w_guard = demo_guard, blocked = [] \<rparr> = (st', WireBlock)
     \<and> wire_run [(js ''c'', js ''10.0.0.1'', WireBinary 1, 70000)] st' = [(js ''c'', WireClose)]"
proof -
  have "\<not> i_allowed (snd (consumeWire (js ''10.0.0.1'') WireOther 0 demo_guard))"
    by (simp add: consumeWire_def wire_hard_bytes_def packet_envelope_overhead_def Let_def split_beta)
  then obtain st' where "on_wire_data (js ''c'') (js ''10.0.0.1'') WireOther 0
      \<lparr> w_guard = demo_guard, blocked = [] \<rparr> = (st', WireBlock)"
    by (simp add: on_wire_data_def split_beta)
  with blocked_connection_is_closed [OF this, where act = "snd (on_wire_data (js ''c'') (js ''10.0.0.1'') (WireBinary 1) 70000 st')"
      and es = "[(js ''c'', js ''10.0.0.1'', WireBinary 1, 70000)]"]
  show ?thesis by (simp add: split_beta)
qed

text \<open>
  The address a connection is charged to cannot be forged with a header: the \<open>x-real-ip\<close>
  header has an influence only when the peer itself is the trusted proxy.
\<close>

theorem source_address_is_not_forgeable:
  assumes "normalizedIp isIP remote \<noteq> normalizedIp isIP proxy \<or> normalizedIp isIP proxy = None"
    and "\<forall>a. isIP a \<longrightarrow> ascii_lower a \<noteq> js ''unknown''"
  shows "socketSourceIp isIP remote header proxy = socketSourceIp isIP remote NoHeader None"
proof -
  have "normalizedIp isIP proxy \<noteq> Some (js ''unknown'')"
    using assms(2) by (auto simp: normalizedIp_def Let_def split: option.splits)
  with assms(1) show ?thesis
    by (auto simp: socketSourceIp_def Let_def normalizedIp_def [of isIP None] split: option.splits)
qed

theorem source_address_is_not_forgeable_witness:
  "socketSourceIp (list_all (\<lambda>c. c = 0x2e \<or> in_range 0x30 0x39 c)) (Some (js ''10.0.0.2''))
     (OneHeader (js ''1.2.3.4'')) (Some (js ''10.0.0.1''))
   = socketSourceIp (list_all (\<lambda>c. c = 0x2e \<or> in_range 0x30 0x39 c)) (Some (js ''10.0.0.2'')) NoHeader None"
proof (rule source_address_is_not_forgeable)
  show "normalizedIp (list_all (\<lambda>c. c = 0x2e \<or> in_range 0x30 0x39 c)) (Some (js ''10.0.0.2''))
      \<noteq> normalizedIp (list_all (\<lambda>c. c = 0x2e \<or> in_range 0x30 0x39 c)) (Some (js ''10.0.0.1''))
    \<or> normalizedIp (list_all (\<lambda>c. c = 0x2e \<or> in_range 0x30 0x39 c)) (Some (js ''10.0.0.1'')) = None"
    by (simp add: normalizedIp_def js_trim_def js_def is_js_space_def in_range_def ascii_lower_def)
  show "\<forall>a. list_all (\<lambda>c. c = 0x2e \<or> in_range 0x30 0x39 c) a \<longrightarrow> ascii_lower a \<noteq> js ''unknown''"
  proof (intro allI impI)
    fix a :: jstr
    assume "list_all (\<lambda>c. c = 0x2e \<or> in_range 0x30 0x39 c) a"
    then show "ascii_lower a \<noteq> js ''unknown''"
      by (cases a) (auto simp: ascii_lower_def js_def in_range_def word_le_nat_alt split: if_splits)
  qed
qed

end
