(* ===== verification/Counted.thy ===== *)
theory Counted
  imports Prelude
begin

text \<open>
  Counters kept in a map from keys to positive numbers, as the admission controller and the
  ticket store keep them: an absent key counts zero, an incremented key is present, a key
  whose counter reaches zero is removed. Such a map stands for a multiset of keys.
\<close>

definition counter :: "('k \<rightharpoonup> int) \<Rightarrow> 'k \<Rightarrow> int" where
  "counter m k = (case m k of None \<Rightarrow> 0 | Some n \<Rightarrow> n)"

definition increment :: "'k \<Rightarrow> ('k \<rightharpoonup> int) \<Rightarrow> ('k \<rightharpoonup> int)" where
  "increment k m = m(k \<mapsto> counter m k + 1)"

text \<open>\<open>(get(k) ?? 1) - 1\<close>, deleting the key when nothing remains.\<close>

definition decrement :: "'k \<Rightarrow> ('k \<rightharpoonup> int) \<Rightarrow> ('k \<rightharpoonup> int)" where
  "decrement k m =
     (let remaining = (case m k of None \<Rightarrow> 1 | Some n \<Rightarrow> n) - 1
      in if remaining \<le> 0 then m(k := None) else m(k \<mapsto> remaining))"

definition counts :: "('k \<rightharpoonup> int) \<Rightarrow> 'k multiset \<Rightarrow> bool" where
  "counts m M \<longleftrightarrow> (\<forall>k. m k = (if k \<in># M then Some (int (count M k)) else None))"

lemma counts_empty [simp]: "counts Map.empty {#}"
  by (simp add: counts_def)

lemma counts_counter: "counts m M \<Longrightarrow> counter m k = int (count M k)"
  by (simp add: counts_def counter_def not_in_iff)

lemma counts_increment: "counts m M \<Longrightarrow> counts (increment k m) (add_mset k M)"
  by (auto simp: counts_def increment_def counter_def not_in_iff)

lemma counts_decrement:
  assumes m: "counts m M" and k: "k \<in># M"
  shows "counts (decrement k m) (M - {#k#})"
proof -
  have "m k = Some (int (count M k))" "1 \<le> count M k"
    using m k by (simp_all add: counts_def Suc_le_eq)
  with m show ?thesis
    by (auto simp: counts_def decrement_def Let_def in_diff_count of_nat_diff)
qed

text \<open>The multiset of a field over the entries of a finite map.\<close>

definition field_mset :: "('v \<Rightarrow> 'k) \<Rightarrow> ('a \<rightharpoonup> 'v) \<Rightarrow> 'k multiset" where
  "field_mset f m = image_mset (\<lambda>a. f (the (m a))) (mset_set (dom m))"

lemma field_mset_empty [simp]: "field_mset f Map.empty = {#}"
  by (simp add: field_mset_def)

lemma size_field_mset [simp]: "size (field_mset f m) = card (dom m)"
  by (simp add: field_mset_def)

lemma field_mset_cong:
  "dom m' = dom m \<Longrightarrow> (\<And>a. a \<in> dom m \<Longrightarrow> f (the (m' a)) = f (the (m a))) \<Longrightarrow> field_mset f m' = field_mset f m"
  by (cases "finite (dom m)") (auto simp: field_mset_def intro!: image_mset_cong)

lemma field_mset_insert:
  "finite (dom m) \<Longrightarrow> m a = None \<Longrightarrow> field_mset f (m(a \<mapsto> v)) = add_mset (f v) (field_mset f m)"
proof -
  assume fin: "finite (dom m)" and new: "m a = None"
  have "image_mset (\<lambda>b. f (the ((m(a \<mapsto> v)) b))) (mset_set (dom m))
      = image_mset (\<lambda>b. f (the (m b))) (mset_set (dom m))"
    using fin new by (intro image_mset_cong) auto
  with fin new show ?thesis
    by (simp add: field_mset_def domIff)
qed

lemma field_mset_remove:
  assumes "finite (dom m)" "m a = Some v"
  shows "field_mset f (m(a := None)) = field_mset f m - {#f v#}" "f v \<in># field_mset f m"
proof -
  have "m = (m(a := None))(a \<mapsto> v)" using assms(2) by auto
  then have "field_mset f m = add_mset (f v) (field_mset f (m(a := None)))"
    using field_mset_insert [of "m(a := None)" a f v] assms(1) by simp
  then show "field_mset f (m(a := None)) = field_mset f m - {#f v#}" "f v \<in># field_mset f m"
    by simp_all
qed

end
