(* ===== verification/Socket_Admission.thy ===== *)
theory Socket_Admission
  imports Socket_Ingress Counted
begin

text \<open>
  Admission of socket connections: class \<open>SocketAdmissionController\<close> of
  \<open>src/server/socketAbuse.ts\<close>. A request is named by a number; the source address is computed by
  \<open>socketSourceIp\<close>. The timer of a reservation is armed until the reservation is activated or
  released, and firing releases it.
\<close>

section \<open>State\<close>

record reservation =
  r_sourceIp :: jstr
  r_activated :: bool
  r_timerArmed :: bool

record admission =
  maximumConnections :: int
  maximumConnectionsPerIp :: int
  globalAttemptLimits :: traffic_limits
  ipAttemptLimits :: traffic_limits
  globalAttempts :: traffic_bucket
  ipAttempts :: traffic_scopes
  activeByIp :: "jstr \<rightharpoonup> int"
  reservations :: "nat \<rightharpoonup> reservation"
  reservationTtlMs :: int
  connections :: int

record admission_options =
  ao_maxConnections :: jnum
  ao_maxConnectionsPerIp :: jnum
  ao_attemptsPerMinute :: jnum
  ao_attemptsPerIpPerMinute :: jnum
  ao_maxIpScopes :: jnum
  ao_scopeIdleMs :: jnum
  ao_reservationTtlMs :: "jnum option"

definition new_admission :: "admission_options \<Rightarrow> int \<Rightarrow> admission option" where
  "new_admission opts now = do {
     total \<leftarrow> positiveInteger (ao_maxConnections opts);
     perIp \<leftarrow> positiveInteger (ao_maxConnectionsPerIp opts);
     attempts \<leftarrow> positiveInteger (ao_attemptsPerMinute opts);
     ipAttempt \<leftarrow> positiveInteger (ao_attemptsPerIpPerMinute opts);
     ips \<leftarrow> positiveInteger (ao_maxIpScopes opts);
     idle \<leftarrow> positiveInteger (ao_scopeIdleMs opts);
     ttl \<leftarrow> positiveInteger (case ao_reservationTtlMs opts of None \<Rightarrow> JInt 10000 | Some v \<Rightarrow> v);
     Some \<lparr> maximumConnections = total, maximumConnectionsPerIp = perIp,
       globalAttemptLimits = \<lparr> eventsPerMinute = attempts, bytesPerMinute = 1 \<rparr>,
       ipAttemptLimits = \<lparr> eventsPerMinute = ipAttempt, bytesPerMinute = 1 \<rparr>,
       globalAttempts = new_bucket now, ipAttempts = new_scopes (nat ips) (max rate_window idle) now,
       activeByIp = Map.empty, reservations = Map.empty, reservationTtlMs = ttl, connections = 0 \<rparr> }"

section \<open>Operations\<close>

text \<open>The part of \<open>reserve\<close> after the check that the request has no reservation.\<close>

definition reserve_new :: "nat \<Rightarrow> jstr \<Rightarrow> int \<Rightarrow> admission \<Rightarrow> admission \<times> bool" where
  "reserve_new req ip now a =
     (let (gb, dg) = bucket_consume (globalAttemptLimits a) 0 now (globalAttempts a);
          (sc, di) = scopes_consume ip (ipAttemptLimits a) 0 now (ipAttempts a);
          a1 = a\<lparr> globalAttempts := gb, ipAttempts := sc \<rparr>
      in if \<not> allowed dg \<or> \<not> allowed di then (a1, False)
         else if maximumConnections a1 \<le> connections a1
              \<or> maximumConnectionsPerIp a1 \<le> counter (activeByIp a1) ip then (a1, False)
         else (a1\<lparr> connections := connections a1 + 1, activeByIp := increment ip (activeByIp a1),
                 reservations := (reservations a1)(req \<mapsto> \<lparr> r_sourceIp = ip, r_activated = False,
                   r_timerArmed = True \<rparr>) \<rparr>, True))"

definition reserve :: "nat \<Rightarrow> jstr \<Rightarrow> int \<Rightarrow> admission \<Rightarrow> admission \<times> bool" where
  "reserve req ip now a =
     (if reservations a req \<noteq> None then (a, False) else reserve_new req ip now a)"

text \<open>The result says whether a release callback is handed out.\<close>

definition activate :: "nat \<Rightarrow> admission \<Rightarrow> admission \<times> bool" where
  "activate req a =
     (case reservations a req of
        None \<Rightarrow> (a, False)
      | Some r \<Rightarrow> if r_activated r then (a, False)
          else (a\<lparr> reservations := (reservations a)(req \<mapsto>
                  r\<lparr> r_activated := True, r_timerArmed := False \<rparr>) \<rparr>, True))"

definition release_slot :: "nat \<Rightarrow> admission \<Rightarrow> admission" where
  "release_slot req a =
     (case reservations a req of
        None \<Rightarrow> a
      | Some r \<Rightarrow> a\<lparr> reservations := (reservations a)(req := None),
                     connections := max 0 (connections a - 1),
                     activeByIp := decrement (r_sourceIp r) (activeByIp a) \<rparr>)"

text \<open>A cleared timer does not fire.\<close>

definition timer_fires :: "nat \<Rightarrow> admission \<Rightarrow> admission" where
  "timer_fires req a =
     (case reservations a req of
        None \<Rightarrow> a
      | Some r \<Rightarrow> if r_timerArmed r then release_slot req a else a)"

datatype admission_event = Reserve nat jstr int | Activate nat | Release nat | TimerFires nat

fun admission_step :: "admission_event \<Rightarrow> admission \<Rightarrow> admission" where
  "admission_step (Reserve req ip now) a = fst (reserve req ip now a)"
| "admission_step (Activate req) a = fst (activate req a)"
| "admission_step (Release req) a = release_slot req a"
| "admission_step (TimerFires req) a = timer_fires req a"

inductive admits :: "admission \<Rightarrow> admission \<Rightarrow> bool" for a0 where
  start: "admits a0 a0"
| event: "admits a0 a \<Longrightarrow> admits a0 (admission_step e a)"

section \<open>The counters count the reservations\<close>

definition admission_ok :: "admission \<Rightarrow> bool" where
  "admission_ok a \<longleftrightarrow> finite (dom (reservations a))
     \<and> connections a = int (card (dom (reservations a)))
     \<and> counts (activeByIp a) (field_mset r_sourceIp (reservations a))
     \<and> connections a \<le> maximumConnections a
     \<and> (\<forall>ip. counter (activeByIp a) ip \<le> maximumConnectionsPerIp a)
     \<and> (\<forall>req r. reservations a req = Some r \<longrightarrow> r_timerArmed r = (\<not> r_activated r))
     \<and> bucket_ok (globalAttemptLimits a) (globalAttempts a)"

lemma new_admission_ok: "new_admission opts now = Some a \<Longrightarrow> admission_ok a"
  by (auto simp: new_admission_def bind_eq_Some_conv positiveInteger_def admission_ok_def counter_def
        bucket_ok_def new_bucket_def split: option.splits if_splits)

lemma release_ok:
  assumes ok: "admission_ok a"
  shows "admission_ok (release_slot req a)"
proof (cases "reservations a req")
  case (Some r)
  let ?M = "field_mset r_sourceIp (reservations a)"
  from ok have fin: "finite (dom (reservations a))" by (simp add: admission_ok_def)
  note rest = field_mset_remove [of "reservations a" req r r_sourceIp, OF fin Some]
  from ok have c: "counts (activeByIp a) ?M" by (simp add: admission_ok_def)
  have c': "counts (decrement (r_sourceIp r) (activeByIp a)) (?M - {#r_sourceIp r#})"
    using c rest(2) by (rule counts_decrement)
  have "counter (decrement (r_sourceIp r) (activeByIp a)) ip \<le> maximumConnectionsPerIp a" for ip
  proof -
    have "counter (decrement (r_sourceIp r) (activeByIp a)) ip \<le> counter (activeByIp a) ip"
      using counts_counter [OF c, of ip] counts_counter [OF c', of ip] by (simp add: diff_le_self)
    with ok show ?thesis by (fastforce simp: admission_ok_def intro: order_trans)
  qed
  moreover have "card (dom (reservations a)) = Suc (card (dom (reservations a) - {req}))"
    using fin Some by (intro card.remove) auto
  ultimately show ?thesis
    using ok c' rest Some by (auto simp: admission_ok_def release_slot_def)
qed (use ok in \<open>simp add: release_slot_def\<close>)

lemma timer_ok: "admission_ok a \<Longrightarrow> admission_ok (timer_fires req a)"
  by (simp add: timer_fires_def release_ok split: option.splits)

lemma activate_ok:
  assumes "admission_ok a"
  shows "admission_ok (fst (activate req a))"
proof (cases "reservations a req")
  case (Some r)
  have "field_mset r_sourceIp ((reservations a)(req \<mapsto> r\<lparr> r_activated := True, r_timerArmed := False \<rparr>))
      = field_mset r_sourceIp (reservations a)"
    using Some by (intro field_mset_cong) auto
  moreover have "insert req (dom (reservations a)) = dom (reservations a)" using Some by auto
  ultimately show ?thesis
    using assms Some by (auto simp: admission_ok_def activate_def)
qed (use assms in \<open>simp add: activate_def\<close>)

lemma reserve_new_ok:
  assumes ok: "admission_ok a" and new: "reservations a req = None"
  shows "admission_ok (fst (reserve_new req ip now a))"
proof -
  obtain gb dg where g: "bucket_consume (globalAttemptLimits a) 0 now (globalAttempts a) = (gb, dg)" by fastforce
  obtain sc di where s: "scopes_consume ip (ipAttemptLimits a) 0 now (ipAttempts a) = (sc, di)" by fastforce
  have gb: "bucket_ok (globalAttemptLimits a) gb"
    using bucket_serve_ok [of "globalAttemptLimits a" "globalAttempts a" 0 now] ok g
    by (simp add: admission_ok_def bucket_serve_def)
  have fin: "finite (dom (reservations a))" using ok by (simp add: admission_ok_def)
  have "counts (increment ip (activeByIp a)) (add_mset ip (field_mset r_sourceIp (reservations a)))"
    using ok by (intro counts_increment) (simp add: admission_ok_def)
  moreover have "counter (increment ip (activeByIp a)) j
      = counter (activeByIp a) j + (if j = ip then 1 else 0)" for j
    by (simp add: increment_def counter_def)
  moreover have "card (insert req (dom (reservations a))) = Suc (card (dom (reservations a)))"
    using fin new by (intro card_insert_disjoint) auto
  moreover have "field_mset r_sourceIp ((reservations a)(req \<mapsto> \<lparr> r_sourceIp = ip, r_activated = False,
      r_timerArmed = True \<rparr>)) = add_mset ip (field_mset r_sourceIp (reservations a))"
    using field_mset_insert [OF fin new, where f = r_sourceIp] by simp
  ultimately show ?thesis
    using ok gb new
    by (auto simp: reserve_new_def Let_def g s admission_ok_def split: if_splits)
qed

lemma reserve_ok: "admission_ok a \<Longrightarrow> admission_ok (fst (reserve req ip now a))"
  by (simp add: reserve_def reserve_new_ok)

lemma admission_step_ok: "admission_ok a \<Longrightarrow> admission_ok (admission_step e a)"
  by (cases e) (simp_all add: reserve_ok activate_ok release_ok timer_ok)


lemma admits_ok: "admits a0 a \<Longrightarrow> admission_ok a0 \<Longrightarrow> admission_ok a
    \<and> maximumConnections a = maximumConnections a0 \<and> maximumConnectionsPerIp a = maximumConnectionsPerIp a0"
proof (induction rule: admits.induct)
  case (event a e)
  have "maximumConnections (admission_step e a) = maximumConnections a
      \<and> maximumConnectionsPerIp (admission_step e a) = maximumConnectionsPerIp a"
    by (cases e) (auto simp: reserve_def reserve_new_def activate_def release_slot_def timer_fires_def
        Let_def split_beta split: option.splits)
  with event show ?case using admission_step_ok by auto
qed simp

text \<open>
  C34. Whatever order reservations, activations, releases and timers come in, the controller's
  counters are exact: the total is the number of slots held, the counter of an address is the
  number of slots held from it, neither ever exceeds its maximum, and an address with no slot
  has no entry.
\<close>

theorem admission_counters_are_exact:
  assumes "new_admission opts started = Some a0" "admits a0 a"
  shows "connections a = int (card (dom (reservations a)))
    \<and> (\<forall>ip. counter (activeByIp a) ip = int (count (field_mset r_sourceIp (reservations a)) ip))
    \<and> (\<forall>ip. activeByIp a ip = None \<longleftrightarrow> ip \<notin># field_mset r_sourceIp (reservations a))
    \<and> connections a \<le> maximumConnections a0
    \<and> (\<forall>ip. counter (activeByIp a) ip \<le> maximumConnectionsPerIp a0)"
proof -
  have ok: "admission_ok a" "maximumConnections a = maximumConnections a0"
    "maximumConnectionsPerIp a = maximumConnectionsPerIp a0"
    using admits_ok [OF assms(2) new_admission_ok [OF assms(1)]] by simp_all
  then have "counts (activeByIp a) (field_mset r_sourceIp (reservations a))"
    by (simp add: admission_ok_def)
  then have "counter (activeByIp a) ip = int (count (field_mset r_sourceIp (reservations a)) ip)"
    "activeByIp a ip = None \<longleftrightarrow> ip \<notin># field_mset r_sourceIp (reservations a)" for ip
    by (simp_all add: counts_counter, simp add: counts_def)
  with ok show ?thesis by (simp add: admission_ok_def)
qed

definition demo_admission_options :: admission_options where
  "demo_admission_options = \<lparr> ao_maxConnections = JInt 2, ao_maxConnectionsPerIp = JInt 1,
     ao_attemptsPerMinute = JInt 10, ao_attemptsPerIpPerMinute = JInt 5, ao_maxIpScopes = JInt 4,
     ao_scopeIdleMs = JInt 60000, ao_reservationTtlMs = None \<rparr>"

definition demo_admission :: admission where
  "demo_admission = \<lparr> maximumConnections = 2, maximumConnectionsPerIp = 1,
     globalAttemptLimits = \<lparr> eventsPerMinute = 10, bytesPerMinute = 1 \<rparr>,
     ipAttemptLimits = \<lparr> eventsPerMinute = 5, bytesPerMinute = 1 \<rparr>,
     globalAttempts = new_bucket 0, ipAttempts = new_scopes 4 60000 0,
     activeByIp = Map.empty, reservations = Map.empty, reservationTtlMs = 10000, connections = 0 \<rparr>"

lemma demo_admission_new: "new_admission demo_admission_options 0 = Some demo_admission"
  by (simp add: new_admission_def demo_admission_options_def positiveInteger_def max_safe_integer_def
        demo_admission_def rate_window_def)

theorem admission_counters_are_exact_witness:
  "connections (admission_step (Reserve 7 (js ''10.0.0.1'') 5) demo_admission) \<le> 2"
  using admission_counters_are_exact [OF demo_admission_new
      admits.event [OF admits.start, where e = "Reserve 7 (js ''10.0.0.1'') 5"]]
  by (simp add: demo_admission_def)

text \<open>
  A slot is given back exactly once: releasing twice is releasing once, the timer of a
  reservation that was never activated gives back its slot and no other, and the timer of an
  activated one does nothing.
\<close>

theorem admission_slot_is_released_once:
  assumes "new_admission opts started = Some a0" "admits a0 a" "reserve req ip now a = (a1, True)"
  shows "release_slot req (release_slot req a1) = release_slot req a1
    \<and> timer_fires req a1 = release_slot req a1
    \<and> timer_fires req (fst (activate req a1)) = fst (activate req a1)
    \<and> connections (timer_fires req a1) = connections a
    \<and> reservations (timer_fires req a1) = reservations a
    \<and> activeByIp (timer_fires req a1) = activeByIp a"
proof -
  have ok: "admission_ok a" using admits_ok [OF assms(2) new_admission_ok [OF assms(1)]] by simp
  from assms(3) have none: "reservations a req = None"
    and r1: "reservations a1 = (reservations a)(req \<mapsto> \<lparr> r_sourceIp = ip, r_activated = False, r_timerArmed = True \<rparr>)"
    and c1: "connections a1 = connections a + 1" and i1: "activeByIp a1 = increment ip (activeByIp a)"
    by (auto simp: reserve_def reserve_new_def Let_def split_beta split: if_splits)
  have "0 \<le> connections a" using ok by (simp add: admission_ok_def)
  moreover have "decrement ip (increment ip (activeByIp a)) = activeByIp a"
  proof -
    have "counts (activeByIp a) (field_mset r_sourceIp (reservations a))"
      using ok by (simp add: admission_ok_def)
    then show ?thesis
      by (auto simp: decrement_def increment_def Let_def counter_def counts_def fun_eq_iff)
  qed
  moreover have "(reservations a)(req := None) = reservations a" using none by auto
  ultimately show ?thesis
    using none r1 c1 i1 by (simp add: release_slot_def timer_fires_def activate_def)
qed

theorem admission_slot_is_released_once_witness:
  "\<exists>a1. reserve 7 (js ''10.0.0.1'') 5 demo_admission = (a1, True) \<and> connections (timer_fires 7 a1) = 0"
proof -
  have "snd (reserve 7 (js ''10.0.0.1'') 5 demo_admission)"
    by (simp add: reserve_def reserve_new_def demo_admission_def bucket_consume_def reset_bucket_def
          new_bucket_def rate_window_def Let_def scopes_consume_def new_scopes_def sweep_def
          scopes_full_def charge_scope_def counter_def)
  then obtain a1 where r: "reserve 7 (js ''10.0.0.1'') 5 demo_admission = (a1, True)"
    by (metis prod.collapse)
  with admission_slot_is_released_once [OF demo_admission_new admits.start r] show ?thesis
    by (auto simp: demo_admission_def)
qed

section \<open>Attempts\<close>

text \<open>A new request and its address; it is charged one attempt.\<close>

definition attempt_serve :: "nat \<times> jstr \<Rightarrow> int \<Rightarrow> admission \<Rightarrow> admission" where
  "attempt_serve r now a = fst (reserve_new (fst r) (snd r) now a)"

definition attempt_admitted :: "nat \<times> jstr \<Rightarrow> int \<Rightarrow> admission \<Rightarrow> int" where
  "attempt_admitted r now a = (if snd (reserve_new (fst r) (snd r) now a) then 1 else 0)"

definition attempts_ok :: "traffic_limits \<Rightarrow> admission \<Rightarrow> bool" where
  "attempts_ok l a \<longleftrightarrow> globalAttemptLimits a = l \<and> bucket_ok l (globalAttempts a)"

lemma attempt_charges_bucket:
  "globalAttempts (attempt_serve r now a) = bucket_serve (globalAttemptLimits a) 0 now (globalAttempts a)
    \<and> globalAttemptLimits (attempt_serve r now a) = globalAttemptLimits a
    \<and> attempt_admitted r now a \<le> admitted_events (globalAttemptLimits a) 0 now (globalAttempts a)"
  by (auto simp: attempt_serve_def attempt_admitted_def reserve_new_def bucket_serve_def
        admitted_events_def Let_def split_beta)

lemma attempt_nonneg: "0 \<le> attempt_admitted r now a"
  by (simp add: attempt_admitted_def)

interpretation attempts: fixed_window "\<lambda>a. windowStartedAt (globalAttempts a)"
  "\<lambda>a. b_events (globalAttempts a)" attempt_serve attempt_admitted "attempts_ok l"
  "eventsPerMinute l" rate_window for l
proof
  show "0 < rate_window" by (rule bytes.len_pos)
next
  fix a now and r :: "nat \<times> jstr"
  assume ok: "attempts_ok l a"
  then have b: "bucket_ok l (globalAttempts a)" by (simp add: attempts_ok_def)
  note charge = attempt_charges_bucket [of r now a]
  show "windowStartedAt (globalAttempts (attempt_serve r now a)) = windowStartedAt (globalAttempts a)
      \<and> b_events (globalAttempts a) + attempt_admitted r now a \<le> b_events (globalAttempts (attempt_serve r now a))"
    if "windowStartedAt (globalAttempts a) \<le> now" "now < windowStartedAt (globalAttempts a) + rate_window"
    using events.kept [OF b that, of 0] charge ok by (simp add: attempts_ok_def)
  show "windowStartedAt (globalAttempts (attempt_serve r now a)) = now
        \<and> attempt_admitted r now a \<le> b_events (globalAttempts (attempt_serve r now a))
      \<or> windowStartedAt (globalAttempts (attempt_serve r now a)) + rate_window \<le> now
        \<and> attempt_admitted r now a = 0"
    if "windowStartedAt (globalAttempts a) + rate_window \<le> now"
    using events.renewed [OF b that, of 0] charge ok attempt_nonneg [of r now a]
    by (auto simp: attempts_ok_def)
  show "attempts_ok l (attempt_serve r now a)"
    using bucket_serve_ok [OF b, of 0 now] charge ok by (simp add: attempts_ok_def)
  show "0 \<le> attempt_admitted r now a" by (rule attempt_nonneg)
next
  fix a assume "attempts_ok l a"
  then show "0 \<le> b_events (globalAttempts a) \<and> b_events (globalAttempts a) \<le> eventsPerMinute l"
    by (simp add: attempts_ok_def bucket_ok_def)
qed


text \<open>
  However many handshakes arrive, the controller admits in any 60 seconds at most twice the
  configured number of connection attempts per minute.
\<close>

theorem admission_rate_is_bounded:
  assumes "new_admission opts started = Some a"
    and "sorted (map snd q)" "\<forall>x \<in> set q. started \<le> snd x"
  shows "charged_between t (t + rate_window)
      (trace attempt_serve (\<lambda>a. windowStartedAt (globalAttempts a)) attempt_admitted q a)
    \<le> 2 * eventsPerMinute (globalAttemptLimits a)"
proof -
  have "attempts_ok (globalAttemptLimits a) a" "windowStartedAt (globalAttempts a) = started"
    using assms(1)
    by (auto simp: new_admission_def positiveInteger_def attempts_ok_def bucket_ok_def new_bucket_def
          bind_eq_Some_conv split: option.splits if_splits)
  then show ?thesis
    using attempts.twice_the_limit assms(2,3) by blast
qed

theorem admission_rate_is_bounded_witness:
  "charged_between 0 rate_window (trace attempt_serve (\<lambda>a. windowStartedAt (globalAttempts a))
     attempt_admitted [((7, js ''10.0.0.1''), 5)] demo_admission) \<le> 20"
  using admission_rate_is_bounded [OF demo_admission_new, of "[((7, js ''10.0.0.1''), 5)]" 0]
  by (simp add: demo_admission_def)

end
