(* ===== verification/Auth_Rate_Limit.thy ===== *)
theory Auth_Rate_Limit
  imports Rate_Window Wire
begin

text \<open>
  The persistent limiter of login and activation attempts, \<open>src/server/authRateLimit.ts\<close>. The
  SQLite table is a list of rows in insertion order; the CHECK constraints of the schema are
  enforced on every write, and a violated one is an error of the operation. The HMAC that
  names a subject is a parameter.
\<close>

section \<open>Policies and rows\<close>

datatype auth_scope = LoginIp | LoginAccount | ActivationIp | ActivationToken

record policy =
  p_limit :: jnum
  p_windowMs :: jnum

definition minutes :: "int \<Rightarrow> int" where "minutes n = n * 60 * 1000"

definition loginIp :: policy where
  "loginIp = \<lparr> p_limit = JInt 30, p_windowMs = JInt (minutes 15) \<rparr>"
definition loginAccount :: policy where
  "loginAccount = \<lparr> p_limit = JInt 15, p_windowMs = JInt (minutes 15) \<rparr>"
definition activationIp :: policy where
  "activationIp = \<lparr> p_limit = JInt 30, p_windowMs = JInt (minutes 15) \<rparr>"
definition activationToken :: policy where
  "activationToken = \<lparr> p_limit = JInt 10, p_windowMs = JInt (minutes 15) \<rparr>"

definition max_buckets :: int where "max_buckets = 50000"
definition default_cleanup_batch :: int where "default_cleanup_batch = 512"
definition retention_windows :: int where "retention_windows = 2"
definition max_count :: int where "max_count = 1000000"

datatype auth_error = InvalidOption | InvalidPolicy | MissingSubject | InvalidClock | ConstraintFailed

definition positive_integer :: "jnum \<Rightarrow> int option" where
  "positive_integer n = (case safe_integer (JNum n) of None \<Rightarrow> None
     | Some v \<Rightarrow> if v \<le> 0 then None else Some v)"

text \<open>The limit and the window of a valid policy.\<close>

definition validatePolicy :: "policy \<Rightarrow> (int \<times> int) option" where
  "validatePolicy p = (case (positive_integer (p_limit p), positive_integer (p_windowMs p)) of
     (Some l, Some w) \<Rightarrow> if max_count \<le> l then None else Some (l, w)
   | _ \<Rightarrow> None)"

record auth_row =
  a_scope :: auth_scope
  a_subject :: jstr
  a_started :: int
  a_attempts :: int
  a_expires :: int
  a_updated :: int

definition row_key :: "auth_row \<Rightarrow> auth_scope \<times> jstr" where
  "row_key r = (a_scope r, a_subject r)"

definition lower_hex :: "code_unit \<Rightarrow> bool" where
  "lower_hex c \<longleftrightarrow> in_range 0x30 0x39 c \<or> in_range 0x61 0x66 c"

text \<open>The CHECK constraints of the table.\<close>

definition row_check :: "auth_row \<Rightarrow> bool" where
  "row_check r \<longleftrightarrow> length (a_subject r) = 64 \<and> list_all lower_hex (a_subject r)
     \<and> 0 \<le> a_started r \<and> 1 \<le> a_attempts r \<and> a_attempts r \<le> max_count
     \<and> a_started r < a_expires r \<and> a_started r \<le> a_updated r"

record auth_store =
  rows :: "auth_row list"
  maxBuckets :: int
  cleanupBatch :: int

definition new_store :: "jstr \<Rightarrow> jnum option \<Rightarrow> jnum option \<Rightarrow> auth_row list \<Rightarrow> auth_store option" where
  "new_store key buckets batch table =
     (if key = [] then None
      else case positive_integer (case buckets of None \<Rightarrow> JInt max_buckets | Some v \<Rightarrow> v) of
        None \<Rightarrow> None
      | Some b \<Rightarrow> if max_buckets < b then None
          else case positive_integer (case batch of None \<Rightarrow> JInt default_cleanup_batch | Some v \<Rightarrow> v) of
            None \<Rightarrow> None
          | Some c \<Rightarrow> Some \<lparr> rows = table, maxBuckets = b, cleanupBatch = c \<rparr>)"

section \<open>Statements\<close>

definition cleanupExpired :: "int \<Rightarrow> auth_store \<Rightarrow> auth_store" where
  "cleanupExpired now s =
     (let doomed = map row_key (take (nat (cleanupBatch s))
            (sort_key a_expires (filter (\<lambda>r. a_expires r \<le> now) (rows s))))
      in s\<lparr> rows := filter (\<lambda>r. row_key r \<notin> set doomed) (rows s) \<rparr>)"

definition find_row :: "auth_scope \<times> jstr \<Rightarrow> auth_row list \<Rightarrow> auth_row option" where
  "find_row k rs = find (\<lambda>r. row_key r = k) rs"

text \<open>\<open>INSERT ... ON CONFLICT DO UPDATE\<close> and \<open>UPDATE\<close>: a row with the key is replaced in place.\<close>

fun put_row :: "auth_row \<Rightarrow> auth_row list \<Rightarrow> auth_row list" where
  "put_row r [] = [r]"
| "put_row r (q # qs) = (if row_key q = row_key r then r # qs else q # put_row r qs)"

record auth_result =
  allow :: bool
  limit :: int
  remaining :: int
  retry :: int

definition denied :: "int \<Rightarrow> int \<Rightarrow> auth_result" where
  "denied l wait = \<lparr> allow = False, limit = l, remaining = 0, retry = wait \<rparr>"

text \<open>What an attempt does to the row of its key: the new row, if one is written, and the answer.\<close>

definition attempt :: "auth_scope \<times> jstr \<Rightarrow> int \<Rightarrow> int \<Rightarrow> int \<Rightarrow> auth_row option \<Rightarrow> auth_row \<times> auth_result" where
  "attempt k l w now row =
     (let fresh = (\<lparr> a_scope = fst k, a_subject = snd k, a_started = now, a_attempts = 1,
                     a_expires = now + w * retention_windows, a_updated = now \<rparr>,
                   \<lparr> allow = True, limit = l, remaining = l - 1, retry = w \<rparr>)
      in case row of None \<Rightarrow> fresh
       | Some r \<Rightarrow>
           if a_started r + w \<le> now then fresh
           else let n = min (a_attempts r + 1) (l + 1); wait = max 1 (a_started r + w - now)
                in (r\<lparr> a_attempts := n, a_updated := now \<rparr>,
                    if l < n then denied l wait
                    else \<lparr> allow = True, limit = l, remaining = l - n, retry = wait \<rparr>))"

definition write_row :: "auth_row \<Rightarrow> auth_store \<Rightarrow> auth_store option" where
  "write_row r s = (if row_check r then Some (s\<lparr> rows := put_row r (rows s) \<rparr>) else None)"

text \<open>
  One transaction: a violated constraint rolls it back. \<open>hash\<close> names the subject of a scope.
\<close>

definition auth_consume ::
  "(auth_scope \<Rightarrow> jstr \<Rightarrow> jstr) \<Rightarrow> auth_scope \<Rightarrow> jstr \<Rightarrow> policy \<Rightarrow> int \<Rightarrow> auth_store
     \<Rightarrow> auth_store \<times> (auth_error + auth_result)" where
  "auth_consume hash sc subject p now s =
     (case validatePolicy p of None \<Rightarrow> (s, Inl InvalidPolicy)
      | Some (l, w) \<Rightarrow>
         if subject = [] then (s, Inl MissingSubject)
         else if now < 0 \<or> max_safe_integer < now then (s, Inl InvalidClock)
         else let k = (sc, hash sc subject);
                  s1 = cleanupExpired now s;
                  row = find_row k (rows s1)
              in if row = None \<and> maxBuckets s1 \<le> int (length (rows s1)) then (s1, Inr (denied l w))
                 else let (r', res) = attempt k l w now row
                      in case write_row r' s1 of None \<Rightarrow> (s, Inl ConstraintFailed)
                         | Some s2 \<Rightarrow> (s2, Inr res))"

definition auth_reset :: "(auth_scope \<Rightarrow> jstr \<Rightarrow> jstr) \<Rightarrow> auth_scope \<Rightarrow> jstr \<Rightarrow> auth_store \<Rightarrow> auth_store" where
  "auth_reset hash sc subject s =
     (if subject = [] then s
      else s\<lparr> rows := filter (\<lambda>r. row_key r \<noteq> (sc, hash sc subject)) (rows s) \<rparr>)"

text \<open>\<open>Math.max(1, Math.ceil(retryAfterMs / 1000))\<close>, the \<open>Retry-After\<close> header.\<close>

definition retry_after_seconds :: "auth_result \<Rightarrow> int" where
  "retry_after_seconds r = max 1 ((retry r + 999) div 1000)"

definition authSourceIp :: "(jstr \<Rightarrow> bool) \<Rightarrow> jstr option \<Rightarrow> jstr option \<Rightarrow> jstr" where
  "authSourceIp isIP ip remote =
     (let pick = (case ip of Some v \<Rightarrow> if v \<noteq> [] then Some v else remote | None \<Rightarrow> remote);
          candidate = js_trim (case pick of Some v \<Rightarrow> if v \<noteq> [] then v else js ''unknown''
                               | None \<Rightarrow> js ''unknown'');
          address = (if take 7 (ascii_lower candidate) = js ''::ffff:'' then drop 7 candidate else candidate)
      in if isIP address then ascii_lower address else js ''unknown'')"

section \<open>The table\<close>

definition table_ok :: "auth_store \<Rightarrow> bool" where
  "table_ok s \<longleftrightarrow> distinct (map row_key (rows s)) \<and> int (length (rows s)) \<le> maxBuckets s
     \<and> list_all row_check (rows s)"

lemma find_row_Cons [simp]: "find_row k (r # rs) = (if row_key r = k then Some r else find_row k rs)"
  by (simp add: find_row_def)

lemma find_row_Nil [simp]: "find_row k [] = None"
  by (simp add: find_row_def)

lemma find_row_None: "find_row k rs = None \<longleftrightarrow> k \<notin> row_key ` set rs"
  by (induction rs) auto

lemma find_row_Some: "find_row k rs = Some r \<Longrightarrow> row_key r = k \<and> r \<in> set rs"
  by (induction rs) (auto split: if_splits)

lemma find_row_filter:
  "find_row k (filter (\<lambda>r. row_key r \<notin> D) rs) = (if k \<in> D then None else find_row k rs)"
  by (induction rs) auto

lemma find_put_row [simp]: "find_row k (put_row r rs) = (if row_key r = k then Some r else find_row k rs)"
  by (induction rs) auto

lemma keys_put_row:
  "map row_key (put_row r rs)
     = (if find_row (row_key r) rs = None then map row_key rs @ [row_key r] else map row_key rs)"
  by (induction rs) auto

lemma set_put_row: "set (put_row r rs) \<subseteq> insert r (set rs)"
  by (induction rs) auto

lemma put_row_ok:
  assumes "table_ok s" "row_check r" "find_row (row_key r) (rows s) = None \<Longrightarrow> int (length (rows s)) < maxBuckets s"
  shows "table_ok (s\<lparr> rows := put_row r (rows s) \<rparr>)"
proof -
  have "length (put_row r (rows s)) = length (map row_key (put_row r (rows s)))" by simp
  then have "int (length (put_row r (rows s))) \<le> maxBuckets s"
    using assms(1,3) unfolding keys_put_row by (auto simp: table_ok_def split: if_splits)
  with assms(1,2) set_put_row [of r "rows s"] show ?thesis
    by (auto simp: table_ok_def keys_put_row find_row_None list_all_iff)
qed

definition doomed_keys :: "int \<Rightarrow> auth_store \<Rightarrow> (auth_scope \<times> jstr) set" where
  "doomed_keys now s = set (map row_key (take (nat (cleanupBatch s))
     (sort_key a_expires (filter (\<lambda>r. a_expires r \<le> now) (rows s)))))"

lemma cleanup_rows: "rows (cleanupExpired now s) = filter (\<lambda>r. row_key r \<notin> doomed_keys now s) (rows s)"
  by (simp add: cleanupExpired_def doomed_keys_def)

lemma cleanup_frame [simp]: "maxBuckets (cleanupExpired now s) = maxBuckets s"
  "cleanupBatch (cleanupExpired now s) = cleanupBatch s"
  by (simp_all add: cleanupExpired_def)

lemma doomed_expired:
  assumes "table_ok s" "k \<in> doomed_keys now s"
  shows "\<exists>r. find_row k (rows s) = Some r \<and> a_expires r \<le> now"
proof -
  from assms(2) obtain r where r: "row_key r = k" "r \<in> set (rows s)" "a_expires r \<le> now"
    by (auto simp: doomed_keys_def dest!: in_set_takeD)
  have "find_row (row_key r) rs = Some r" if "distinct (map row_key rs)" "r \<in> set rs" for rs
    using that by (induction rs) force+
  from this [of "rows s"] assms(1) r show ?thesis by (auto simp: table_ok_def)
qed

text \<open>A cleanup drops an expired row or none.\<close>

lemma cleanup_find:
  assumes "table_ok s"
  shows "find_row k (rows (cleanupExpired now s)) = find_row k (rows s)
    \<or> find_row k (rows (cleanupExpired now s)) = None
      \<and> int (length (rows (cleanupExpired now s))) < maxBuckets s
      \<and> (\<exists>r. find_row k (rows s) = Some r \<and> a_expires r \<le> now)"
proof (cases "k \<in> doomed_keys now s")
  case True
  from doomed_expired [OF assms this] obtain r where r: "find_row k (rows s) = Some r" "a_expires r \<le> now"
    by blast
  then have "length (filter (\<lambda>r. row_key r \<notin> doomed_keys now s) (rows s)) < length (rows s)"
    using True find_row_Some [OF r(1)] by (intro length_filter_less [of r]) auto
  with True r assms show ?thesis by (auto simp: cleanup_rows find_row_filter table_ok_def)
qed (simp add: cleanup_rows find_row_filter)

lemma cleanup_ok: "table_ok s \<Longrightarrow> table_ok (cleanupExpired now s)"
  unfolding table_ok_def cleanup_rows cleanup_frame
  by (auto simp: distinct_map_filter list_all_iff
      intro: order_trans [OF of_nat_mono [OF length_filter_le]])

lemma attempt_key: "(\<And>q. row = Some q \<Longrightarrow> row_key q = k) \<Longrightarrow> row_key (fst (attempt k l w now row)) = k"
  by (auto simp: attempt_def row_key_def Let_def split: option.splits)

section \<open>One transaction\<close>

lemma consume_cases:
  fixes hash sc subject
  defines "k \<equiv> (sc, hash sc subject)"
  assumes pol: "validatePolicy p = Some (l, w)"
    and out: "auth_consume hash sc subject p now s = (s', answer)"
  obtains (failed) e where "s' = s" "answer = Inl e"
    | (full) "s' = cleanupExpired now s" "answer = Inr (denied l w)"
        "find_row k (rows (cleanupExpired now s)) = None"
        "maxBuckets s \<le> int (length (rows (cleanupExpired now s)))"
    | (written) r res where "attempt k l w now (find_row k (rows (cleanupExpired now s))) = (r, res)"
        "row_check r" "row_key r = k" "answer = Inr res" "0 \<le> now"
        "s' = (cleanupExpired now s)\<lparr> rows := put_row r (rows (cleanupExpired now s)) \<rparr>"
        "find_row k (rows (cleanupExpired now s)) = None
          \<Longrightarrow> int (length (rows (cleanupExpired now s))) < maxBuckets s"
proof (cases "subject = [] \<or> now < 0 \<or> max_safe_integer < now")
  case True
  with out pol show ?thesis by (auto simp: auth_consume_def split: if_splits intro: failed)
next
  case False
  let ?s = "cleanupExpired now s"
  let ?row = "find_row k (rows ?s)"
  obtain r res where a: "attempt k l w now ?row = (r, res)" by fastforce
  have key: "row_key r = k"
    using attempt_key [of ?row k l w now] find_row_Some [of k "rows ?s"] a by force
  show ?thesis
  proof (cases "?row = None \<and> maxBuckets s \<le> int (length (rows ?s))")
    case True
    with out pol False show ?thesis
      by (intro full) (simp_all add: auth_consume_def k_def)
  next
    case room: False
    with out pol False a show ?thesis
      using key by (cases "row_check r")
        (auto simp: auth_consume_def k_def write_row_def Let_def split: if_splits intro: failed written)
  qed
qed

lemma consume_ok:
  assumes "table_ok s"
  shows "table_ok (fst (auth_consume hash sc subject p now s))"
proof (cases "validatePolicy p")
  case (Some lw)
  obtain l w where lw: "lw = (l, w)" by fastforce
  obtain s' answer where out: "auth_consume hash sc subject p now s = (s', answer)" by fastforce
  from Some lw have "validatePolicy p = Some (l, w)" by simp
  from this out show ?thesis
  proof (cases rule: consume_cases)
    case (written r res)
    have "find_row (row_key r) (rows (cleanupExpired now s)) = None
        \<Longrightarrow> int (length (rows (cleanupExpired now s))) < maxBuckets (cleanupExpired now s)"
      using written(3,7) by simp
    from put_row_ok [OF cleanup_ok [OF assms] written(2) this] written out show ?thesis by simp
  qed (use assms out cleanup_ok in auto)
qed (use assms in \<open>simp add: auth_consume_def\<close>)

section \<open>The handlers' policies\<close>

fun policy_of :: "auth_scope \<Rightarrow> policy" where
  "policy_of LoginIp = loginIp"
| "policy_of LoginAccount = loginAccount"
| "policy_of ActivationIp = activationIp"
| "policy_of ActivationToken = activationToken"

fun attempts_allowed :: "auth_scope \<Rightarrow> int" where
  "attempts_allowed LoginIp = 30"
| "attempts_allowed LoginAccount = 15"
| "attempts_allowed ActivationIp = 30"
| "attempts_allowed ActivationToken = 10"

datatype family = Login | Activation

datatype http_answer = Next | TooManyRequests int | Failed auth_error

definition authIpRateLimit ::
  "(auth_scope \<Rightarrow> jstr \<Rightarrow> jstr) \<Rightarrow> (jstr \<Rightarrow> bool) \<Rightarrow> family \<Rightarrow> jstr option \<Rightarrow> jstr option \<Rightarrow> int
     \<Rightarrow> auth_store \<Rightarrow> auth_store \<times> http_answer" where
  "authIpRateLimit hash isIP fam ip remote now s =
     (let sc = (case fam of Login \<Rightarrow> LoginIp | Activation \<Rightarrow> ActivationIp);
          (s', answer) = auth_consume hash sc (authSourceIp isIP ip remote) (policy_of sc) now s
      in (s', case answer of Inl e \<Rightarrow> Failed e
              | Inr r \<Rightarrow> if allow r then Next else TooManyRequests (retry_after_seconds r)))"

lemma policy_valid: "validatePolicy (policy_of sc) = Some (attempts_allowed sc, minutes 15)"
  by (cases sc)
     (simp_all add: validatePolicy_def positive_integer_def loginIp_def loginAccount_def activationIp_def
        activationToken_def minutes_def max_safe_integer_def max_count_def)

lemma attempts_allowed_pos: "0 < attempts_allowed sc" "attempts_allowed sc < max_count"
  by (cases sc; simp add: max_count_def)+

lemma minutes_15 [simp]: "minutes 15 = 900000"
  by (simp add: minutes_def)

section \<open>The row of one subject over time\<close>

definition row_good :: "auth_scope \<Rightarrow> auth_row \<Rightarrow> bool" where
  "row_good sc r \<longleftrightarrow> a_expires r = a_started r + 2 * minutes 15
     \<and> 0 \<le> a_started r \<and> 1 \<le> a_attempts r \<and> a_attempts r \<le> attempts_allowed sc + 1"

definition window_of :: "auth_scope \<times> jstr \<Rightarrow> auth_store \<Rightarrow> int" where
  "window_of k s = (case find_row k (rows s) of None \<Rightarrow> - minutes 15 | Some r \<Rightarrow> a_started r)"

definition used_of :: "auth_scope \<times> jstr \<Rightarrow> auth_store \<Rightarrow> int" where
  "used_of k s = (case find_row k (rows s) of None \<Rightarrow> 0
     | Some r \<Rightarrow> min (a_attempts r) (attempts_allowed (fst k)))"

text \<open>
  What the handlers ask of the store: they consume an attempt before they check a secret, and they
  reset a subject that has proved itself (\<open>src/server/routes/auth.ts\<close>).
\<close>

datatype auth_request = Consume auth_scope jstr | Reset auth_scope jstr

fun auth_serve :: "(auth_scope \<Rightarrow> jstr \<Rightarrow> jstr) \<Rightarrow> auth_request \<Rightarrow> int \<Rightarrow> auth_store \<Rightarrow> auth_store" where
  "auth_serve hash (Consume sc subject) now s = fst (auth_consume hash sc subject (policy_of sc) now s)"
| "auth_serve hash (Reset sc subject) now s = auth_reset hash sc subject s"

text \<open>\<open>1\<close> for an allowed attempt of the subject \<open>k\<close>.\<close>

fun auth_allowed ::
  "(auth_scope \<Rightarrow> jstr \<Rightarrow> jstr) \<Rightarrow> auth_scope \<times> jstr \<Rightarrow> auth_request \<Rightarrow> int \<Rightarrow> auth_store \<Rightarrow> int" where
  "auth_allowed hash k (Consume sc subject) now s =
     (case snd (auth_consume hash sc subject (policy_of sc) now s) of
        Inl e \<Rightarrow> 0
      | Inr r \<Rightarrow> if allow r \<and> (sc, hash sc subject) = k then 1 else 0)"
| "auth_allowed hash k (Reset sc subject) now s = 0"

fun resets_subject :: "(auth_scope \<Rightarrow> jstr \<Rightarrow> jstr) \<Rightarrow> auth_scope \<times> jstr \<Rightarrow> auth_request \<Rightarrow> bool" where
  "resets_subject hash k (Reset sc subject) = (subject \<noteq> [] \<and> (sc, hash sc subject) = k)"
| "resets_subject hash k (Consume sc subject) = False"

definition auth_valid :: "auth_scope \<times> jstr \<Rightarrow> auth_store \<Rightarrow> bool" where
  "auth_valid k s \<longleftrightarrow> table_ok s \<and> (\<forall>r. find_row k (rows s) = Some r \<longrightarrow> row_good (fst k) r)"

lemma attempt_row:
  assumes "attempt k (attempts_allowed (fst k)) (minutes 15) now row = (r, res)" "0 \<le> now"
    "\<And>q. row = Some q \<Longrightarrow> row_good (fst k) q"
  shows "row_good (fst k) r"
    "row = Some q \<Longrightarrow> now < a_started q + minutes 15 \<Longrightarrow> a_started r = a_started q
      \<and> min (a_attempts q) (attempts_allowed (fst k)) + (if allow res then 1 else 0)
        \<le> min (a_attempts r) (attempts_allowed (fst k))"
    "(\<And>q. row = Some q \<Longrightarrow> a_started q + minutes 15 \<le> now) \<Longrightarrow> a_started r = now \<and> a_attempts r = 1 \<and> allow res"
  using assms attempts_allowed_pos [of "fst k"]
  by (auto simp: attempt_def row_good_def denied_def Let_def retention_windows_def split: option.splits if_splits)

lemma reset_row:
  "find_row k (rows (auth_reset hash sc subject s))
     = (if resets_subject hash k (Reset sc subject) then None else find_row k (rows s))"
  using find_row_filter [of k "{(sc, hash sc subject)}" "rows s"] by (auto simp: auth_reset_def)

lemma reset_ok: "table_ok s \<Longrightarrow> table_ok (auth_reset hash sc subject s)"
  by (auto simp: table_ok_def auth_reset_def distinct_map_filter list_all_iff
      intro: order_trans [OF of_nat_mono [OF length_filter_le]])

text \<open>
  What a request that does not reset \<open>k\<close> does to the row of \<open>k\<close>: nothing, a cleanup of the
  expired row, or an attempt.
\<close>

lemma serve_cases:
  assumes v: "auth_valid k s" and free: "\<not> resets_subject hash k q"
  obtains (same) "find_row k (rows (auth_serve hash q now s)) = find_row k (rows s)" "auth_allowed hash k q now s = 0"
    | (gone) "find_row k (rows (auth_serve hash q now s)) = None" "auth_allowed hash k q now s = 0"
        "window_of k s + 2 * minutes 15 \<le> now"
    | (attempt) row r res where "attempt k (attempts_allowed (fst k)) (minutes 15) now row = (r, res)"
        "row = find_row k (rows s) \<or> row = None \<and> window_of k s + 2 * minutes 15 \<le> now" "0 \<le> now"
        "find_row k (rows (auth_serve hash q now s)) = Some r"
        "auth_allowed hash k q now s = (if allow res then 1 else 0)"
proof (cases q)
  case (Reset sc subject)
  with free reset_row [of k hash sc subject s] show ?thesis by (intro same) auto
next
  case (Consume sc subject)
  from v have t: "table_ok s" by (simp add: auth_valid_def)
  have clean: "find_row k (rows (cleanupExpired now s)) = find_row k (rows s)
      \<or> find_row k (rows (cleanupExpired now s)) = None \<and> window_of k s + 2 * minutes 15 \<le> now"
    using cleanup_find [OF t, of k now] v by (auto simp: auth_valid_def row_good_def window_of_def)
  obtain s' answer where out: "auth_consume hash sc subject (policy_of sc) now s = (s', answer)"
    by fastforce
  have serve: "auth_serve hash q now s = s'"
    "auth_allowed hash k q now s = (case answer of Inl e \<Rightarrow> 0
       | Inr r \<Rightarrow> if allow r \<and> (sc, hash sc subject) = k then 1 else 0)"
    by (simp_all add: Consume out)
  from policy_valid [of sc] out show thesis
  proof (cases rule: consume_cases)
    case (failed e)
    then show ?thesis by (intro same) (simp_all add: serve)
  next
    case full
    with clean show ?thesis
      by (auto simp: serve denied_def intro: same gone)
  next
    case (written r res)
    show ?thesis
    proof (cases "(sc, hash sc subject) = k")
      case True
      then have "sc = fst k" by auto
      with True written clean show ?thesis
        by (intro attempt [of "find_row k (rows (cleanupExpired now s))" r res]) (auto simp: serve)
    next
      case False
      with written clean show ?thesis by (auto simp: serve intro: same gone)
    qed
  qed
qed

lemma serve_ok: "table_ok s \<Longrightarrow> table_ok (auth_serve hash q now s)"
  by (cases q) (simp_all add: consume_ok reset_ok)

lemma serve_valid:
  assumes v: "auth_valid k s"
  shows "auth_valid k (auth_serve hash q now s)"
proof (cases "resets_subject hash k q")
  case True
  then obtain sc subject where "q = Reset sc subject" by (cases q) simp_all
  with True reset_row [of k hash sc subject s] v serve_ok [of s hash q now] show ?thesis
    by (simp add: auth_valid_def)
next
  case False
  from v this show ?thesis
  proof (cases rule: serve_cases [where q = q and now = now and hash = hash])
    case (attempt row r res)
    have "\<And>q. row = Some q \<Longrightarrow> row_good (fst k) q"
      using v attempt(2) by (auto simp: auth_valid_def)
    with attempt_row(1) [OF attempt(1,3)] attempt(4) v show ?thesis
      by (simp add: auth_valid_def serve_ok)
  qed (use v serve_ok in \<open>simp_all add: auth_valid_def\<close>)
qed

lemmas row_window = window_of_def used_of_def

lemma serve_kept:
  assumes v: "auth_valid k s" and free: "\<not> resets_subject hash k q"
    and inside: "window_of k s \<le> now" "now < window_of k s + minutes 15"
  shows "window_of k (auth_serve hash q now s) = window_of k s
    \<and> used_of k s + auth_allowed hash k q now s \<le> used_of k (auth_serve hash q now s)"
  using v free
proof (cases rule: serve_cases [where q = q and now = now and hash = hash])
  case (attempt row r res)
  from inside attempt(2) have row: "row = find_row k (rows s)" by simp
  have "row \<noteq> None" using inside attempt(3) row by (auto simp: row_window split: option.splits)
  then obtain p where p: "row = Some p" by blast
  moreover have "\<And>q. row = Some q \<Longrightarrow> row_good (fst k) q" using v row by (simp add: auth_valid_def)
  ultimately show ?thesis
    using attempt_row(2) [OF attempt(1,3) _ p] attempt(4,5) inside row by (simp add: row_window)
qed (use inside in \<open>simp_all add: row_window\<close>)

lemma serve_renewed:
  assumes v: "auth_valid k s" and free: "\<not> resets_subject hash k q" and late: "window_of k s + minutes 15 \<le> now"
  shows "window_of k (auth_serve hash q now s) = now \<and> auth_allowed hash k q now s \<le> used_of k (auth_serve hash q now s)
    \<or> window_of k (auth_serve hash q now s) + minutes 15 \<le> now \<and> auth_allowed hash k q now s = 0"
  using v free
proof (cases rule: serve_cases [where q = q and now = now and hash = hash])
  case (attempt row r res)
  have "\<And>q. row = Some q \<Longrightarrow> row_good (fst k) q \<and> a_started q + minutes 15 \<le> now"
    using v attempt(2) late by (auto simp: auth_valid_def row_window split: option.splits)
  with attempt_row(3) [OF attempt(1,3)] attempt(4,5) attempts_allowed_pos [of "fst k"]
  show ?thesis by (simp add: row_window)
next
  case gone
  then have "0 \<le> now" using v
    by (auto simp: auth_valid_def row_good_def row_window split: option.splits)
  with gone show ?thesis by (simp add: row_window)
qed (use late in \<open>simp_all add: row_window\<close>)

lemma serve_reset:
  assumes "auth_valid k s" "resets_subject hash k q"
  shows "window_of k (auth_serve hash q now s) + minutes 15 \<le> 0 \<and> auth_allowed hash k q now s = 0"
  using assms reset_row [of k hash] by (cases q) (auto simp: row_window)

lemma auth_allowed_nonneg: "0 \<le> auth_allowed hash k q now s"
  by (cases q) (simp_all split: sum.splits)

interpretation auth: forgetful_window "window_of k" "used_of k" "auth_serve hash" "auth_allowed hash k"
  "auth_valid k" "attempts_allowed (fst k)" "minutes 15" "resets_subject hash k" for hash k
proof
  show "0 < minutes 15" by simp
next
  fix s assume "auth_valid k s"
  then show "0 \<le> used_of k s \<and> used_of k s \<le> attempts_allowed (fst k)"
    using attempts_allowed_pos [of "fst k"]
    by (auto simp: auth_valid_def row_good_def used_of_def split: option.splits)
qed (use serve_kept serve_renewed serve_valid serve_reset auth_allowed_nonneg in auto)

section \<open>Properties\<close>

text \<open>
  C29. The attempts of a subject are bounded: while the clock does not run backwards, whoever else
  asks or is reset, and however the table is cleaned up or filled by others, no subject is allowed
  more than twice its scope's limit of attempts in any 15 minutes, and the limit once more for each
  time it is reset in them (a successful login resets the account, an activation the token).
\<close>

theorem auth_attempts_are_bounded:
  assumes "new_store key buckets batch [] = Some s0"
    and "sorted (map snd q)" "\<forall>x \<in> set q. 0 \<le> snd x"
  shows "charged_between t (t + minutes 15)
      (trace (auth_serve hash) (window_of k) (auth_allowed hash k) q s0)
    \<le> (2 + count_between (resets_subject hash k) t (t + minutes 15) q) * attempts_allowed (fst k)"
proof (rule auth.twice_and_resets)
  from assms(1) have "rows s0 = []" "0 < maxBuckets s0"
    by (auto simp: new_store_def positive_integer_def split: option.splits if_splits)
  then show "auth_valid k s0" "\<forall>x \<in> set q. window_of k s0 \<le> snd x \<and> 0 \<le> snd x"
    using assms(3) by (auto simp: auth_valid_def table_ok_def window_of_def)
qed (rule assms(2))

definition demo_hash :: "auth_scope \<Rightarrow> jstr \<Rightarrow> jstr" where
  "demo_hash sc subject = replicate 64 (if subject = js ''alice'' then 0x61 else 0x62)"

definition demo_store :: auth_store where
  "demo_store = \<lparr> rows = [], maxBuckets = 50000, cleanupBatch = 512 \<rparr>"

lemma demo_store_new: "new_store (js ''key'') None None [] = Some demo_store"
  by (simp add: new_store_def positive_integer_def max_buckets_def default_cleanup_batch_def
        max_safe_integer_def demo_store_def)

text \<open>Twelve attempts with a token of which ten are allowed, a reset, and one more.\<close>

definition demo_requests :: "(auth_request \<times> int) list" where
  "demo_requests = replicate 12 (Consume ActivationToken (js ''alice''), 5)
     @ [(Reset ActivationToken (js ''alice''), 6), (Consume ActivationToken (js ''alice''), 7)]"

definition demo_token :: "auth_scope \<times> jstr" where
  "demo_token = (ActivationToken, demo_hash ActivationToken (js ''alice''))"

lemma demo_requests_allowed:
  "charged_between 0 900000
     (trace (auth_serve demo_hash) (window_of demo_token) (auth_allowed demo_hash demo_token) demo_requests demo_store) = 11"
  by code_simp

theorem auth_attempts_are_bounded_witness:
  "charged_between 0 900000
     (trace (auth_serve demo_hash) (window_of demo_token) (auth_allowed demo_hash demo_token) demo_requests demo_store) = 11
   \<and> 11 \<le> (2 + 1) * attempts_allowed ActivationToken"
proof -
  have "sorted (map snd demo_requests)" "\<forall>x \<in> set demo_requests. 0 \<le> snd x"
    "count_between (resets_subject demo_hash demo_token) 0 900000 demo_requests = 1"
    by code_simp+
  with auth_attempts_are_bounded [OF demo_store_new, of demo_requests 0 demo_hash demo_token] demo_requests_allowed
  show ?thesis by (simp add: demo_token_def)
qed

lemma refused_attempt:
  assumes "attempt k l w now row = (r, res)" "\<not> allow res"
  shows "\<exists>p. row = Some p \<and> a_started r = a_started p \<and> l < a_attempts r \<and> a_updated r = now
    \<and> retry res = a_started p + w - now \<and> now < a_started p + w"
  using assms by (auto simp: attempt_def denied_def Let_def split: if_splits option.splits)

lemma attempt_check:
  assumes "row_check p" "row_key p = k" "row = Some p \<or> row = None" "a_started p \<le> now" "0 \<le> now"
    "0 < l" "l < max_count" "0 < w"
  shows "row_check (fst (attempt k l w now row))"
  using assms
  by (auto simp: attempt_def row_check_def row_key_def Let_def retention_windows_def max_count_def
      split: option.splits)

text \<open>An attempt of a subject that has a row is answered from that row, or afresh when it has expired.\<close>

lemma consume_known:
  fixes sc subject hash
  defines "k \<equiv> (sc, hash sc subject)"
  assumes v: "auth_valid k s" and p: "find_row k (rows s) = Some p" "a_started p \<le> now"
    and t: "0 \<le> now" "now \<le> max_safe_integer" and subject: "subject \<noteq> []"
  obtains row where "row = Some p \<or> row = None \<and> a_started p + 2 * minutes 15 \<le> now"
    "snd (auth_consume hash sc subject (policy_of sc) now s)
      = Inr (snd (attempt k (attempts_allowed sc) (minutes 15) now row))"
proof
  let ?s = "cleanupExpired now s"
  let ?row = "find_row k (rows ?s)"
  from v p have tab: "table_ok s" and good: "row_good sc p" by (auto simp: auth_valid_def k_def)
  note clean = cleanup_find [OF tab, of k now]
  show "?row = Some p \<or> ?row = None \<and> a_started p + 2 * minutes 15 \<le> now"
    using clean p good by (auto simp: row_good_def)
  have "row_check p" "row_key p = k"
    using find_row_Some [OF p(1)] tab by (auto simp: table_ok_def list_all_iff)
  then have "row_check (fst (attempt k (attempts_allowed sc) (minutes 15) now ?row))"
    using clean p t attempts_allowed_pos [of sc] by (intro attempt_check) auto
  moreover have "\<not> (?row = None \<and> maxBuckets s \<le> int (length (rows ?s)))"
    using clean p by auto
  ultimately show "snd (auth_consume hash sc subject (policy_of sc) now s)
      = Inr (snd (attempt k (attempts_allowed sc) (minutes 15) now ?row))"
    using t subject policy_valid [of sc]
    by (auto simp: auth_consume_def k_def [symmetric] Let_def write_row_def split_beta)
qed

text \<open>
  The waiting time of a refused attempt is exact: when the limit refuses an attempt of a subject,
  the next attempt of the subject is refused as long as the waiting time has not passed, and
  allowed from then on, even when its row is cleaned up by then.
\<close>

theorem auth_waiting_time_is_exact:
  assumes "auth_valid (sc, hash sc subject) s"
    and "auth_consume hash sc subject (policy_of sc) now s = (s1, Inr res)" "\<not> allow res"
    and "find_row (sc, hash sc subject) (rows s1) \<noteq> None"
    and "now \<le> later" "later \<le> max_safe_integer"
  shows "\<exists>r. snd (auth_consume hash sc subject (policy_of sc) later s1) = Inr r
    \<and> (allow r \<longleftrightarrow> now + retry res \<le> later)"
proof -
  let ?k = "(sc, hash sc subject)" and ?l = "attempts_allowed sc"
  from policy_valid [of sc] assms(2) obtain row r where
    w: "attempt ?k ?l (minutes 15) now row = (r, res)" "0 \<le> now" "find_row ?k (rows s1) = Some r"
      "row_check r"
  proof (cases rule: consume_cases)
    case (written r res')
    with that show thesis by auto
  qed (use assms(4) in auto)
  have subject: "subject \<noteq> []" using assms(2) policy_valid [of sc] by (auto simp: auth_consume_def)
  from refused_attempt [OF w(1) assms(3)] have r: "?l < a_attempts r" "a_started r \<le> now + retry res"
    "now + retry res = a_started r + minutes 15" by auto
  have v1: "auth_valid ?k s1"
    using serve_valid [OF assms(1), of hash "Consume sc subject" now] assms(2) by simp
  have "a_started r \<le> later"
    using w(4) refused_attempt [OF w(1) assms(3)] assms(5) by (auto simp: row_check_def)
  from consume_known [where hash = hash and sc = sc and subject = subject, OF v1 w(3) this _ assms(6) subject] w(2) assms(5) obtain row' where
    row: "row' = Some r \<or> row' = None \<and> a_started r + 2 * minutes 15 \<le> later"
    and out: "snd (auth_consume hash sc subject (policy_of sc) later s1)
      = Inr (snd (attempt ?k ?l (minutes 15) later row'))" by auto
  from row r(1) have "allow (snd (attempt ?k ?l (minutes 15) later row')) \<longleftrightarrow> a_started r + minutes 15 \<le> later"
    by (auto simp: attempt_def denied_def Let_def split: if_splits)
  with out r(3) show ?thesis by simp
qed

definition demo_row :: auth_row where
  "demo_row = \<lparr> a_scope = LoginAccount, a_subject = replicate 64 0x61, a_started = 1000,
     a_attempts = 15, a_expires = 1801000, a_updated = 2000 \<rparr>"

definition demo_busy :: auth_store where
  "demo_busy = demo_store\<lparr> rows := [demo_row] \<rparr>"

lemmas demo_auth = demo_busy_def demo_store_def demo_row_def demo_hash_def row_key_def row_check_def

lemma demo_busy_valid: "auth_valid (LoginAccount, demo_hash LoginAccount (js ''alice'')) demo_busy"
  by (simp add: auth_valid_def table_ok_def demo_auth row_good_def list_all_length lower_hex_def
        in_range_def max_count_def)

lemma demo_busy_refused:
  "auth_consume demo_hash LoginAccount (js ''alice'') (policy_of LoginAccount) 3000 demo_busy
     = (demo_busy\<lparr> rows := [demo_row\<lparr> a_attempts := 16, a_updated := 3000 \<rparr>] \<rparr>, Inr (denied 15 898000))"
  using policy_valid [of LoginAccount]
  by (simp add: auth_consume_def demo_auth cleanupExpired_def attempt_def write_row_def
        max_safe_integer_def list_all_length lower_hex_def in_range_def max_count_def del: policy_of.simps)

theorem auth_waiting_time_is_exact_witness:
  "\<exists>r. snd (auth_consume demo_hash LoginAccount (js ''alice'') (policy_of LoginAccount) 901000
      (demo_busy\<lparr> rows := [demo_row\<lparr> a_attempts := 16, a_updated := 3000 \<rparr>] \<rparr>)) = Inr r \<and> allow r"
  using auth_waiting_time_is_exact [where hash = demo_hash and sc = LoginAccount and subject = "js ''alice''",
      OF demo_busy_valid demo_busy_refused, of 901000]
  by (simp add: denied_def demo_auth max_safe_integer_def)

text \<open>
  C30. A clock that steps back locks a subject out: while the clock is before the start of the
  subject's window, every attempt fails on the table's constraint
  \<open>updated_at >= window_started_at\<close>, an error instead of an answer, and nothing is recorded.
\<close>

theorem auth_clock_step_back_fails:
  assumes "auth_valid (sc, hash sc subject) s" "find_row (sc, hash sc subject) (rows s) = Some r"
    and "now < a_started r" "0 \<le> now" "now \<le> max_safe_integer" "subject \<noteq> []"
  shows "auth_consume hash sc subject (policy_of sc) now s = (s, Inl ConstraintFailed)"
proof -
  let ?k = "(sc, hash sc subject)"
  from assms(1,2) have "table_ok s" "a_expires r = a_started r + 2 * minutes 15"
    by (auto simp: auth_valid_def row_good_def)
  with cleanup_find [of s ?k now] assms(2,3)
  have row: "find_row ?k (rows (cleanupExpired now s)) = Some r" by auto
  have "\<not> row_check (fst (attempt ?k (attempts_allowed sc) (minutes 15) now (Some r)))"
    using assms(3) by (simp add: attempt_def Let_def row_check_def)
  with row assms(4-) policy_valid [of sc] show ?thesis
    by (auto simp: auth_consume_def Let_def write_row_def split_beta)
qed

theorem auth_clock_step_back_fails_witness:
  "snd (auth_consume demo_hash LoginAccount (js ''alice'') (policy_of LoginAccount) 500 demo_busy)
     = Inl ConstraintFailed"
  using auth_clock_step_back_fails [where hash = demo_hash and sc = LoginAccount and subject = "js ''alice''",
      OF demo_busy_valid, of demo_row 500]
  by (simp add: demo_auth max_safe_integer_def)

end
