(* ===== verification/Sync_Ticket.thy ===== *)
theory Sync_Ticket
  imports Counted Wire
begin

text \<open>
  The one-use tickets of the board synchronisation, \<open>src/server/board-v2/sync-ticket.ts\<close>. The
  tickets of the map are listed in insertion order. The HMAC of a nonce and the digest that
  keys the map are parameters, the random nonce and the clock readings are arguments.
\<close>

section \<open>Scopes and tickets\<close>

record ticket_scope =
  boardId :: jstr
  lessonId :: jstr
  userId :: jstr
  sessionHash :: jstr
  generation :: int
  minSchemaVersion :: int
  maxSchemaVersion :: int
  capabilities :: int
  scope_profile :: "jval option"

record stored_ticket =
  t_scope :: ticket_scope
  t_expiresAtMs :: int

definition ticket_ttl :: int where "ticket_ttl = 60000"
definition max_active_tickets :: int where "max_active_tickets = 10000"
definition max_session_tickets :: int where "max_session_tickets = 32"
definition max_user_tickets :: int where "max_user_tickets = 64"

datatype ticket_error = InvalidTicket | TooManyTickets | TooManySessionTickets | TooManyUserTickets

record ticket_store =
  tickets :: "(jstr \<times> stored_ticket) list"
  activeBySession :: "jstr \<rightharpoonup> int"
  activeByUser :: "jstr \<rightharpoonup> int"

definition empty_store :: ticket_store where
  "empty_store = \<lparr> tickets = [], activeBySession = Map.empty, activeByUser = Map.empty \<rparr>"

section \<open>Tokens\<close>

definition base64url_unit :: "code_unit \<Rightarrow> bool" where
  "base64url_unit c \<longleftrightarrow> in_range 0x41 0x5a c \<or> in_range 0x61 0x7a c \<or> in_range 0x30 0x39 c
     \<or> c = 0x2d \<or> c = 0x5f"

definition token_half :: "jstr \<Rightarrow> bool" where
  "token_half s \<longleftrightarrow> length s = 43 \<and> list_all base64url_unit s"

definition token_pattern :: "jstr \<Rightarrow> bool" where
  "token_pattern s \<longleftrightarrow> length s = 87 \<and> token_half (take 43 s) \<and> s ! 43 = 0x2e \<and> token_half (drop 44 s)"

text \<open>The value of a base64url character, and \<open>Buffer.from(s, "base64url")\<close> as its whole bytes' bits.\<close>

definition sextet :: "code_unit \<Rightarrow> nat" where
  "sextet c = (if in_range 0x41 0x5a c then unat c - 0x41
     else if in_range 0x61 0x7a c then unat c - 0x61 + 26
     else if in_range 0x30 0x39 c then unat c - 0x30 + 52
     else if c = 0x2d then 62 else 63)"

definition sextet_bits :: "code_unit \<Rightarrow> bool list" where
  "sextet_bits c = map (\<lambda>i. bit (sextet c) i) [5, 4, 3, 2, 1, 0]"

definition decoded_bits :: "jstr \<Rightarrow> bool list" where
  "decoded_bits s = (let b = concat (map sextet_bits s) in take (8 * (length b div 8)) b)"

definition token_of :: "(jstr \<Rightarrow> jstr) \<Rightarrow> jstr \<Rightarrow> jstr" where
  "token_of sign nonce = nonce @ [0x2e] @ sign nonce"

section \<open>Operations\<close>

text \<open>\<open>Map.set\<close>: an entry of the key is replaced in place.\<close>

fun set_ticket :: "jstr \<Rightarrow> stored_ticket \<Rightarrow> (jstr \<times> stored_ticket) list \<Rightarrow> (jstr \<times> stored_ticket) list" where
  "set_ticket k v [] = [(k, v)]"
| "set_ticket k v ((j, u) # es) = (if j = k then (k, v) # es else (j, u) # set_ticket k v es)"

definition delete_ticket :: "jstr \<Rightarrow> (jstr \<times> stored_ticket) list \<Rightarrow> (jstr \<times> stored_ticket) list" where
  "delete_ticket k es = filter (\<lambda>e. fst e \<noteq> k) es"

definition ticket_decrement :: "jstr \<Rightarrow> (jstr \<rightharpoonup> int) \<Rightarrow> (jstr \<rightharpoonup> int)" where
  "ticket_decrement k c =
     (let next = (case c k of None \<Rightarrow> 0 | Some n \<Rightarrow> n) - 1
      in if 0 < next then c(k \<mapsto> next) else c(k := None))"

definition decrementScope :: "ticket_scope \<Rightarrow> ticket_store \<Rightarrow> ticket_store" where
  "decrementScope sc s =
     s\<lparr> activeBySession := ticket_decrement (sessionHash sc) (activeBySession s),
        activeByUser := ticket_decrement (userId sc) (activeByUser s) \<rparr>"

definition remove_ticket :: "jstr \<times> stored_ticket \<Rightarrow> ticket_store \<Rightarrow> ticket_store" where
  "remove_ticket e s = decrementScope (t_scope (snd e)) (s\<lparr> tickets := delete_ticket (fst e) (tickets s) \<rparr>)"

definition removeExpired :: "int \<Rightarrow> ticket_store \<Rightarrow> ticket_store" where
  "removeExpired now s = fold (\<lambda>e s. if t_expiresAtMs (snd e) \<le> now then remove_ticket e s else s) (tickets s) s"

text \<open>The first clock reading removes expired tickets, the second dates the new one.\<close>

definition issue ::
  "(jstr \<Rightarrow> jstr) \<Rightarrow> (jstr \<Rightarrow> jstr) \<Rightarrow> ticket_scope \<Rightarrow> jstr \<Rightarrow> int \<Rightarrow> int \<Rightarrow> ticket_store
     \<Rightarrow> ticket_store \<times> (ticket_error + jstr \<times> int \<times> ticket_scope)" where
  "issue sign ticketKey sc nonce now later s =
     (let s1 = removeExpired now s
      in if max_active_tickets \<le> int (length (tickets s1)) then (s1, Inl TooManyTickets)
         else if max_session_tickets \<le> counter (activeBySession s1) (sessionHash sc) then (s1, Inl TooManySessionTickets)
         else if max_user_tickets \<le> counter (activeByUser s1) (userId sc) then (s1, Inl TooManyUserTickets)
         else let ticket = token_of sign nonce; expires = later + ticket_ttl
              in (s1\<lparr> tickets := set_ticket (ticketKey ticket) \<lparr> t_scope = sc, t_expiresAtMs = expires \<rparr> (tickets s1),
                      activeBySession := increment (sessionHash sc) (activeBySession s1),
                      activeByUser := increment (userId sc) (activeByUser s1) \<rparr>,
                  Inr (ticket, expires, sc)))"

definition consume ::
  "(jstr \<Rightarrow> jstr) \<Rightarrow> (jstr \<Rightarrow> jstr) \<Rightarrow> jstr \<Rightarrow> int \<Rightarrow> ticket_store
     \<Rightarrow> ticket_store \<times> (ticket_error + ticket_scope)" where
  "consume sign ticketKey ticket now s =
     (if \<not> token_pattern ticket then (s, Inl InvalidTicket)
      else let nonce = takeWhile (\<lambda>c. c \<noteq> 0x2e) ticket;
               supplied = decoded_bits (drop (length nonce + 1) ticket)
           in if supplied \<noteq> decoded_bits (sign nonce) then (s, Inl InvalidTicket)
              else case map_of (tickets s) (ticketKey ticket) of
                None \<Rightarrow> (s, Inl InvalidTicket)
              | Some st \<Rightarrow>
                  (remove_ticket (ticketKey ticket, st) s,
                   if t_expiresAtMs st \<le> now then Inl InvalidTicket else Inr (t_scope st)))"

section \<open>Histories and the ledger they implement\<close>

datatype ticket_event = Issue ticket_scope jstr int int | Consume jstr int | Clear

datatype ticket_answer = Issued jstr int ticket_scope | Accepted ticket_scope | Refused ticket_error | Cleared

fun ticket_step ::
  "(jstr \<Rightarrow> jstr) \<Rightarrow> (jstr \<Rightarrow> jstr) \<Rightarrow> ticket_event \<Rightarrow> ticket_store \<Rightarrow> ticket_store \<times> ticket_answer" where
  "ticket_step sign key (Issue sc nonce now later) s =
     (case issue sign key sc nonce now later s of
        (s', Inl e) \<Rightarrow> (s', Refused e) | (s', Inr (t, x, sc')) \<Rightarrow> (s', Issued t x sc'))"
| "ticket_step sign key (Consume ticket now) s =
     (case consume sign key ticket now s of (s', Inl e) \<Rightarrow> (s', Refused e) | (s', Inr sc) \<Rightarrow> (s', Accepted sc))"
| "ticket_step sign key Clear s = (empty_store, Cleared)"

fun ticket_run ::
  "(ticket_event \<Rightarrow> 's \<Rightarrow> 's \<times> ticket_answer) \<Rightarrow> ticket_event list \<Rightarrow> 's \<Rightarrow> ticket_answer list" where
  "ticket_run f [] s = []"
| "ticket_run f (e # es) s = (case f e s of (s', a) \<Rightarrow> a # ticket_run f es s')"

text \<open>
  The ledger: the tokens handed out and not yet presented, with no digests, signatures or
  counters. A token is accepted when it is in the ledger and not expired.
\<close>

type_synonym ledger = "(jstr \<times> stored_ticket) list"

definition held :: "(ticket_scope \<Rightarrow> jstr) \<Rightarrow> jstr \<Rightarrow> ledger \<Rightarrow> nat" where
  "held f x L = length (filter (\<lambda>e. f (t_scope (snd e)) = x) L)"

fun ledger_step :: "(jstr \<Rightarrow> jstr) \<Rightarrow> ticket_event \<Rightarrow> ledger \<Rightarrow> ledger \<times> ticket_answer" where
  "ledger_step sign (Issue sc nonce now later) L =
     (let L1 = filter (\<lambda>e. now < t_expiresAtMs (snd e)) L
      in if 10000 \<le> length L1 then (L1, Refused TooManyTickets)
         else if 32 \<le> held sessionHash (sessionHash sc) L1 then (L1, Refused TooManySessionTickets)
         else if 64 \<le> held userId (userId sc) L1 then (L1, Refused TooManyUserTickets)
         else (L1 @ [(token_of sign nonce, \<lparr> t_scope = sc, t_expiresAtMs = later + 60000 \<rparr>)],
               Issued (token_of sign nonce) (later + 60000) sc))"
| "ledger_step sign (Consume ticket now) L =
     (case map_of L ticket of
        None \<Rightarrow> (L, Refused InvalidTicket)
      | Some st \<Rightarrow> (filter (\<lambda>e. fst e \<noteq> ticket) L,
          if t_expiresAtMs st \<le> now then Refused InvalidTicket else Accepted (t_scope st)))"
| "ledger_step sign Clear L = ([], Cleared)"

section \<open>The store implements the ledger\<close>

definition owners :: "(ticket_scope \<Rightarrow> jstr) \<Rightarrow> ledger \<Rightarrow> jstr multiset" where
  "owners f L = mset (map (\<lambda>e. f (t_scope (snd e))) L)"

definition implements :: "(jstr \<Rightarrow> jstr) \<Rightarrow> ticket_store \<Rightarrow> ledger \<Rightarrow> bool" where
  "implements key s L \<longleftrightarrow> tickets s = map (\<lambda>e. (key (fst e), snd e)) L \<and> distinct (map fst L)
     \<and> inj_on key (fst ` set L)
     \<and> counts (activeBySession s) (owners sessionHash L) \<and> counts (activeByUser s) (owners userId L)"

lemma ticket_decrement_eq: "ticket_decrement k c = decrement k c"
  by (auto simp: ticket_decrement_def decrement_def Let_def split: option.splits)

lemma count_owners: "count (owners f L) x = held f x L"
  by (induction L) (auto simp: owners_def held_def)

lemma counter_held: "counts c (owners f L) \<Longrightarrow> counter c x = int (held f x L)"
  by (simp add: counts_counter count_owners)

lemma filter_key:
  assumes "inj_on key (insert t (fst ` set L))"
  shows "delete_ticket (key t) (map (\<lambda>e. (key (fst e), snd e)) L)
    = map (\<lambda>e. (key (fst e), snd e)) (filter (\<lambda>e. fst e \<noteq> t) L)"
proof -
  have "key (fst e) = key t \<longleftrightarrow> fst e = t" if "e \<in> set L" for e
    using inj_on_eq_iff [OF assms, of "fst e" t] that by auto
  then show ?thesis
    unfolding delete_ticket_def filter_map o_def fst_conv
    by (intro arg_cong [of _ _ "map _"] filter_cong) auto
qed

lemma owners_member: "(t, st) \<in> set L \<Longrightarrow> f (t_scope st) \<in># owners f L"
  by (force simp: owners_def)

lemma owners_remove:
  "(t, st) \<in> set L \<Longrightarrow> distinct (map fst L)
     \<Longrightarrow> owners f (filter (\<lambda>e. fst e \<noteq> t) L) = owners f L - {#f (t_scope st)#}"
proof (induction L)
  case (Cons e L)
  show ?case
  proof (cases "e = (t, st)")
    case True
    with Cons.prems(2) have "filter (\<lambda>e. fst e \<noteq> t) L = L"
      by (intro filter_True) force
    with True show ?thesis by (simp add: owners_def)
  next
    case False
    with Cons.prems(1) have L: "(t, st) \<in> set L" by simp
    then have "t \<in> fst ` set L" by force
    with Cons.prems(2) have "fst e \<noteq> t" by auto
    with Cons.IH [OF L] Cons.prems(2) owners_member [OF L, of f] show ?thesis by (simp add: owners_def)
  qed
qed simp

lemma remove_implements:
  assumes s: "implements key s L" and e: "(t, st) \<in> set L"
  shows "implements key (remove_ticket (key t, st) s) (filter (\<lambda>e. fst e \<noteq> t) L)"
proof -
  from s have d: "distinct (map fst L)" and i: "inj_on key (insert t (fst ` set L))"
    using e by (simp_all add: implements_def insert_absorb rev_image_eqI)
  have "inj_on key (fst ` set (filter (\<lambda>e. fst e \<noteq> t) L))"
    using i by (rule inj_on_subset) auto
  with s d show ?thesis
    by (simp add: implements_def remove_ticket_def decrementScope_def filter_key [OF i] ticket_decrement_eq
        owners_remove [OF e d] owners_member [OF e] counts_decrement distinct_map_filter)
qed

lemma expire_implements:
  "implements key s L \<Longrightarrow> set xs \<subseteq> set L \<Longrightarrow> distinct (map fst xs) \<Longrightarrow>
     implements key (fold (\<lambda>e s. if t_expiresAtMs (snd e) \<le> now then remove_ticket e s else s)
         (map (\<lambda>e. (key (fst e), snd e)) xs) s)
       (filter (\<lambda>e. \<not> (e \<in> set xs \<and> t_expiresAtMs (snd e) \<le> now)) L)"
proof (induction xs arbitrary: s L)
  case (Cons x xs)
  obtain t st where x: "x = (t, st)" by fastforce
  from Cons.prems(1) have d: "distinct (map fst L)" by (simp add: implements_def)
  show ?case
  proof (cases "t_expiresAtMs st \<le> now")
    case True
    let ?L = "filter (\<lambda>e. fst e \<noteq> t) L"
    have same: "e \<in> set L \<Longrightarrow> fst e = t \<longleftrightarrow> e = (t, st)" for e
      using d Cons.prems(2) x by (metis distinct_map fst_conv inj_onD insert_subset list.simps(15))
    have "(t, st) \<in> set L" using Cons.prems(2) x by simp
    note removed = remove_implements [OF Cons.prems(1) this]
    have sub: "set xs \<subseteq> set ?L" "distinct (map fst xs)"
      using Cons.prems(2,3) x by force+
    have "filter (\<lambda>e. \<not> (e \<in> set xs \<and> t_expiresAtMs (snd e) \<le> now)) ?L
        = filter (\<lambda>e. \<not> (e \<in> set (x # xs) \<and> t_expiresAtMs (snd e) \<le> now)) L"
      unfolding filter_filter using same True x by (intro filter_cong) auto
    with Cons.IH [OF removed sub] True x show ?thesis by simp
  next
    case False
    have "filter (\<lambda>e. \<not> (e \<in> set (x # xs) \<and> t_expiresAtMs (snd e) \<le> now)) L
        = filter (\<lambda>e. \<not> (e \<in> set xs \<and> t_expiresAtMs (snd e) \<le> now)) L"
      using False x by (intro filter_cong) auto
    with Cons.IH [OF Cons.prems(1)] Cons.prems(2,3) False x show ?thesis by simp
  qed
qed simp

lemma removeExpired_implements:
  assumes "implements key s L"
  shows "implements key (removeExpired now s) (filter (\<lambda>e. now < t_expiresAtMs (snd e)) L)"
proof -
  have "filter (\<lambda>e. \<not> (e \<in> set L \<and> t_expiresAtMs (snd e) \<le> now)) L
      = filter (\<lambda>e. now < t_expiresAtMs (snd e)) L"
    by (intro filter_cong) auto
  with expire_implements [OF assms subset_refl, of now] assms show ?thesis
    by (simp only: removeExpired_def implements_def)
qed

lemma set_ticket_fresh: "k \<notin> fst ` set es \<Longrightarrow> set_ticket k v es = es @ [(k, v)]"
  by (induction k v es rule: set_ticket.induct) auto

lemma add_implements:
  assumes s: "implements key s L" and fresh: "t \<notin> fst ` set L" and i: "inj_on key (insert t (fst ` set L))"
  shows "implements key (s\<lparr> tickets := set_ticket (key t) st (tickets s),
      activeBySession := increment (sessionHash (t_scope st)) (activeBySession s),
      activeByUser := increment (userId (t_scope st)) (activeByUser s) \<rparr>) (L @ [(t, st)])"
proof -
  have "key t \<notin> key ` (fst ` set L)"
    using inj_on_image_mem_iff [OF i, of t "fst ` set L"] fresh by auto
  with s have "key t \<notin> fst ` set (tickets s)" by (simp add: implements_def image_image)
  from set_ticket_fresh [OF this, of st] s fresh i show ?thesis
    by (simp add: implements_def owners_def counts_increment)
qed

section \<open>Tokens the store has minted\<close>

definition minted :: "(jstr \<Rightarrow> jstr) \<Rightarrow> jstr \<Rightarrow> bool" where
  "minted sign t \<longleftrightarrow> (\<exists>nonce. t = token_of sign nonce \<and> token_half nonce \<and> token_half (sign nonce))"

lemma base64url_no_dot: "base64url_unit c \<Longrightarrow> c \<noteq> 0x2e"
  by (auto simp: base64url_unit_def in_range_def)

lemma token_half_prefix:
  assumes "token_half n"
  shows "takeWhile (\<lambda>c. c \<noteq> 0x2e) (n @ [0x2e] @ m) = n"
  using assms by (subst takeWhile_append2) (auto simp: token_half_def list_all_iff dest: base64url_no_dot)

lemma minted_accepted:
  assumes "minted sign t"
  shows "token_pattern t
    \<and> decoded_bits (drop (length (takeWhile (\<lambda>c. c \<noteq> 0x2e) t) + 1) t)
      = decoded_bits (sign (takeWhile (\<lambda>c. c \<noteq> 0x2e) t))"
proof -
  from assms obtain n where n: "t = n @ [0x2e] @ sign n" "token_half n" "token_half (sign n)"
    by (auto simp: minted_def token_of_def)
  then have "length n = 43" by (simp add: token_half_def)
  with n token_half_prefix [OF n(2), of "sign n"] show ?thesis
    by (simp add: token_pattern_def nth_append) (simp add: token_half_def)
qed

lemma minted_inject:
  "token_half n \<Longrightarrow> token_half m \<Longrightarrow> token_of sign n = token_of sign m \<longleftrightarrow> n = m"
  by (auto simp: token_of_def token_half_def append_eq_append_conv)

lemma implements_lookup:
  assumes s: "implements key s L" and i: "inj_on key (insert t (fst ` set L))"
  shows "map_of (tickets s) (key t) = map_of L t"
proof -
  have "map_of (map (\<lambda>e. (key (fst e), snd e)) xs) (key t) = map_of xs t" if "set xs \<subseteq> set L" for xs
    using that
  proof (induction xs)
    case (Cons e xs)
    have "key (fst e) = key t \<longleftrightarrow> fst e = t"
      using Cons.prems by (intro inj_on_eq_iff [OF i]) auto
    with Cons show ?case by auto
  qed simp
  with s show ?thesis by (simp add: implements_def)
qed

lemma consume_implements:
  assumes s: "implements key s L" and m: "\<forall>t \<in> fst ` set L. minted sign t"
    and i: "inj_on key (insert t (fst ` set L))"
  shows "\<exists>s'. ticket_step sign key (Consume t now) s = (s', snd (ledger_step sign (Consume t now) L))
    \<and> implements key s' (fst (ledger_step sign (Consume t now) L))"
proof (cases "map_of L t")
  case None
  then show ?thesis
    using s implements_lookup [OF s i] by (simp add: consume_def Let_def)
next
  case (Some st)
  then have e: "(t, st) \<in> set L" by (rule map_of_SomeD)
  with m have "minted sign t" by force
  from minted_accepted [OF this] remove_implements [OF s e] Some implements_lookup [OF s i]
  show ?thesis by (simp add: consume_def Let_def)
qed

lemma issue_implements:
  assumes s: "implements key s L" and fresh: "token_of sign n \<notin> fst ` set L"
    and i: "inj_on key (insert (token_of sign n) (fst ` set L))"
  shows "\<exists>s'. ticket_step sign key (Issue sc n now later) s = (s', snd (ledger_step sign (Issue sc n now later) L))
    \<and> implements key s' (fst (ledger_step sign (Issue sc n now later) L))"
proof -
  let ?L = "filter (\<lambda>e. now < t_expiresAtMs (snd e)) L"
  let ?s = "removeExpired now s"
  let ?st = "\<lparr> t_scope = sc, t_expiresAtMs = later + ticket_ttl \<rparr>"
  note s1 = removeExpired_implements [OF s, of now]
  have "inj_on key (insert (token_of sign n) (fst ` set ?L))"
    using i by (rule inj_on_subset) auto
  from add_implements [OF s1 _ this, of ?st] fresh
  have added: "implements key (?s\<lparr> tickets := set_ticket (key (token_of sign n)) ?st (tickets ?s),
      activeBySession := increment (sessionHash sc) (activeBySession ?s),
      activeByUser := increment (userId sc) (activeByUser ?s) \<rparr>) (?L @ [(token_of sign n, ?st)])"
    by auto
  from s1 have "length (tickets ?s) = length ?L"
    "counter (activeBySession ?s) (sessionHash sc) = int (held sessionHash (sessionHash sc) ?L)"
    "counter (activeByUser ?s) (userId sc) = int (held userId (userId sc) ?L)"
    by (auto simp: implements_def intro: counter_held)
  with s1 added show ?thesis
    by (simp add: issue_def Let_def max_active_tickets_def max_session_tickets_def max_user_tickets_def
        ticket_ttl_def)
qed

section \<open>Properties\<close>

fun nonces :: "ticket_event list \<Rightarrow> jstr list" where
  "nonces [] = []"
| "nonces (Issue sc n now later # es) = n # nonces es"
| "nonces (_ # es) = nonces es"

fun presented :: "ticket_event list \<Rightarrow> jstr list" where
  "presented [] = []"
| "presented (Consume t now # es) = t # presented es"
| "presented (_ # es) = presented es"

text \<open>The tokens a history is about: those it can mint and those presented to it.\<close>

definition tokens :: "(jstr \<Rightarrow> jstr) \<Rightarrow> ticket_event list \<Rightarrow> jstr set" where
  "tokens sign es = token_of sign ` set (nonces es) \<union> set (presented es)"

lemma run_implements:
  "implements key s L \<Longrightarrow> \<forall>t \<in> fst ` set L. minted sign t
     \<Longrightarrow> inj_on key (fst ` set L \<union> tokens sign es)
     \<Longrightarrow> distinct (nonces es) \<Longrightarrow> \<forall>n \<in> set (nonces es). token_half n \<and> token_half (sign n)
     \<Longrightarrow> \<forall>n \<in> set (nonces es). token_of sign n \<notin> fst ` set L
     \<Longrightarrow> ticket_run (ticket_step sign key) es s = ticket_run (ledger_step sign) es L"
proof (induction es arbitrary: s L)
  case (Cons e es)
  let ?L = "fst (ledger_step sign e L)"
  have L: "fst ` set ?L \<subseteq> fst ` set L \<union> token_of sign ` set (nonces [e])"
    by (cases e) (auto simp: Let_def split: option.splits)
  have step: "\<exists>s'. ticket_step sign key e s = (s', snd (ledger_step sign e L)) \<and> implements key s' ?L"
  proof (cases e)
    case (Issue sc n now later)
    have "insert (token_of sign n) (fst ` set L) \<subseteq> fst ` set L \<union> tokens sign (e # es)"
      by (auto simp: tokens_def Issue)
    from inj_on_subset [OF Cons.prems(3) this] show ?thesis
      unfolding Issue using Cons.prems(1,6) Issue by (intro issue_implements) simp_all
  next
    case (Consume t now)
    have "insert t (fst ` set L) \<subseteq> fst ` set L \<union> tokens sign (e # es)"
      by (auto simp: tokens_def Consume)
    from inj_on_subset [OF Cons.prems(3) this] show ?thesis
      unfolding Consume using Cons.prems(1,2) by (intro consume_implements) simp_all
  next
    case Clear
    then show ?thesis by (simp add: implements_def empty_store_def owners_def)
  qed
  then obtain s' where s': "ticket_step sign key e s = (s', snd (ledger_step sign e L))" "implements key s' ?L"
    by blast
  have split: "set (nonces (e # es)) = set (nonces [e]) \<union> set (nonces es)"
    "set (presented (e # es)) = set (presented [e]) \<union> set (presented es)"
    by (cases e; simp)+
  have tail: "distinct (nonces es)" "\<forall>n \<in> set (nonces es). token_half n \<and> token_half (sign n)"
    "\<forall>n \<in> set (nonces es). \<forall>m \<in> set (nonces [e]). n \<noteq> m"
    using Cons.prems(4,5) by (cases e; auto)+
  have old: "\<forall>m \<in> set (nonces [e]). minted sign (token_of sign m) \<and> token_half m"
    using Cons.prems(5) split by (auto simp: minted_def)
  have "ticket_run (ticket_step sign key) es s' = ticket_run (ledger_step sign) es ?L"
  proof (rule Cons.IH [OF s'(2) _ _ tail(1,2)])
    show "\<forall>t \<in> fst ` set ?L. minted sign t"
    proof
      fix t assume "t \<in> fst ` set ?L"
      with L have "t \<in> fst ` set L \<or> t \<in> token_of sign ` set (nonces [e])" by blast
      then show "minted sign t" using Cons.prems(2) old by auto
    qed
    have "tokens sign (e # es) = tokens sign [e] \<union> tokens sign es"
      by (auto simp: tokens_def split [simplified])
    then have "fst ` set ?L \<union> tokens sign es \<subseteq> fst ` set L \<union> tokens sign (e # es)"
      using L by (auto simp: tokens_def)
    with Cons.prems(3) show "inj_on key (fst ` set ?L \<union> tokens sign es)" by (rule inj_on_subset)
    show "\<forall>n \<in> set (nonces es). token_of sign n \<notin> fst ` set ?L"
    proof
      fix n assume n: "n \<in> set (nonces es)"
      then have "token_of sign n \<notin> token_of sign ` set (nonces [e])"
        using tail(2,3) old by (auto simp: minted_inject)
      moreover have "token_of sign n \<notin> fst ` set L" using n Cons.prems(6) split(1) by simp
      ultimately show "token_of sign n \<notin> fst ` set ?L" using L by auto
    qed
  qed
  then show ?case by (simp add: s'(1) split_beta)
qed simp

text \<open>
  C27. The store answers every history of issues, presentations and clearings exactly as a plain
  ledger of the outstanding tokens does: its digests, signatures, spare bits, counters and
  lazy removal of expired tickets never show. The nonces are fresh and have the form of 32
  random bytes in base64url, as the signature has, and the digest tells the history's tokens
  apart.
\<close>

theorem tickets_are_a_ledger:
  assumes "distinct (nonces es)" "\<forall>n \<in> set (nonces es). token_half n \<and> token_half (sign n)"
    and "inj_on key (tokens sign es)"
  shows "ticket_run (ticket_step sign key) es empty_store = ticket_run (ledger_step sign) es []"
  using assms by (intro run_implements) (simp_all add: implements_def empty_store_def owners_def)

definition demo_scope :: ticket_scope where
  "demo_scope = \<lparr> boardId = js ''b'', lessonId = js ''l'', userId = js ''u'', sessionHash = js ''s'',
     generation = 1, minSchemaVersion = 1, maxSchemaVersion = 1, capabilities = 0, scope_profile = None \<rparr>"

definition demo_nonce :: jstr where "demo_nonce = replicate 43 0x41"
definition demo_sign :: "jstr \<Rightarrow> jstr" where "demo_sign n = replicate 43 0x42"

definition demo_history :: "ticket_event list" where
  "demo_history = [Issue demo_scope demo_nonce 0 0, Consume (token_of demo_sign demo_nonce) 5,
     Consume (token_of demo_sign demo_nonce) 6]"

lemma demo_history_facts:
  "nonces demo_history = [demo_nonce]" "token_half demo_nonce" "token_half (demo_sign demo_nonce)"
  "inj_on id (tokens demo_sign demo_history)"
  by (simp_all add: demo_history_def demo_nonce_def demo_sign_def token_half_def base64url_unit_def
        in_range_def list_all_length)

theorem tickets_are_a_ledger_witness:
  "ticket_run (ticket_step demo_sign id) demo_history empty_store
     = [Issued (token_of demo_sign demo_nonce) 60000 demo_scope, Accepted demo_scope, Refused InvalidTicket]"
  using tickets_are_a_ledger [of demo_history demo_sign id] demo_history_facts
  by (simp add: demo_history_def held_def)

text \<open>The presentations a history accepts: token, scope and time.\<close>

fun accepted :: "ticket_event list \<Rightarrow> ticket_answer list \<Rightarrow> (jstr \<times> ticket_scope \<times> int) list" where
  "accepted (Consume t now # es) (Accepted sc # as) = (t, sc, now) # accepted es as"
| "accepted (_ # es) (_ # as) = accepted es as"
| "accepted _ _ = []"

lemma issue_nonce: "Issue sc n nw later \<in> set es \<Longrightarrow> n \<in> set (nonces es)"
  by (induction es rule: nonces.induct) auto

text \<open>An acceptance with its token in the ledger, or issued by the history.\<close>

inductive sourced :: "(jstr \<Rightarrow> jstr) \<Rightarrow> ticket_event list \<Rightarrow> ledger \<Rightarrow> jstr \<Rightarrow> ticket_scope \<Rightarrow> int \<Rightarrow> bool"
  for sign es L where
  holds: "(t, st) \<in> set L \<Longrightarrow> now < t_expiresAtMs st \<Longrightarrow> sourced sign es L t (t_scope st) now"
| issued: "Issue sc n nw later \<in> set es \<Longrightarrow> now < later + 60000 \<Longrightarrow> sourced sign es L (token_of sign n) sc now"

lemma sourced_mono: "sourced sign es L' t sc now \<Longrightarrow> set L' \<subseteq> set L \<Longrightarrow> sourced sign (e # es) L t sc now"
  by (induction rule: sourced.induct) (auto intro: sourced.intros)

lemma sourced_issue:
  assumes "sourced sign es L' t sc now"
    "set L' \<subseteq> insert (token_of sign m, \<lparr> t_scope = sc', t_expiresAtMs = later + 60000 \<rparr>) (set L)"
  shows "sourced sign (Issue sc' m nw later # es) L t sc now"
  using assms
proof (induction rule: sourced.induct)
  case (holds t st now)
  show ?case
  proof (cases "(t, st) \<in> set L")
    case False
    with holds have "t = token_of sign m" "st = \<lparr> t_scope = sc', t_expiresAtMs = later + 60000 \<rparr>" by auto
    moreover have "sourced sign (Issue sc' m nw later # es) L (token_of sign m) sc' now" if "now < later + 60000"
      using that by (intro sourced.issued [where nw = nw]) simp_all
    ultimately show ?thesis using holds(2) by simp
  qed (use holds(2) in \<open>auto intro: sourced.intros\<close>)
next
  case (issued sc n nw' later' now)
  then have "Issue sc n nw' later' \<in> set (Issue sc' m nw later # es)" by simp
  with issued(2) show ?case by (intro sourced.issued)
qed

lemma sourced_token: "sourced sign es L t sc now \<Longrightarrow> t \<in> fst ` set L \<or> t \<in> token_of sign ` set (nonces es)"
  by (induction rule: sourced.induct) (force dest: issue_nonce)+

lemma ledger_accepts:
  "distinct (map fst L) \<Longrightarrow> distinct (nonces es) \<Longrightarrow> \<forall>n \<in> set (nonces es). token_half n
     \<Longrightarrow> \<forall>n \<in> set (nonces es). token_of sign n \<notin> fst ` set L
     \<Longrightarrow> distinct (map fst (accepted es (ticket_run (ledger_step sign) es L)))
       \<and> (\<forall>(t, sc, now) \<in> set (accepted es (ticket_run (ledger_step sign) es L)). sourced sign es L t sc now)"
proof (induction es arbitrary: L)
  case (Cons e es)
  let ?L = "fst (ledger_step sign e L)"
  let ?rest = "accepted es (ticket_run (ledger_step sign) es ?L)"
  have n: "distinct (nonces es)" "\<forall>n \<in> set (nonces es). token_half n"
    "\<forall>n \<in> set (nonces es). token_of sign n \<notin> fst ` set L"
    using Cons.prems by (cases e; simp)+
  show ?case
  proof (cases e)
    case (Issue sc m now later)
    have L: "set ?L \<subseteq> insert (token_of sign m, \<lparr> t_scope = sc, t_expiresAtMs = later + 60000 \<rparr>) (set L)"
      by (auto simp: Issue Let_def)
    have "distinct (map fst ?L)"
      using Cons.prems(1,4) by (auto simp: Issue Let_def distinct_map_filter)
    moreover have "\<forall>n \<in> set (nonces es). token_of sign n \<notin> fst ` set ?L"
    proof
      fix n' assume n': "n' \<in> set (nonces es)"
      then have "n' \<noteq> m" "token_half n'" "token_half m" using Cons.prems(2,3) Issue by auto
      then have "token_of sign n' \<noteq> token_of sign m" by (simp add: minted_inject)
      moreover from L have "fst ` set ?L \<subseteq> insert (token_of sign m) (fst ` set L)" by auto
      moreover have "token_of sign n' \<notin> fst ` set L" using n' n(3) by blast
      ultimately show "token_of sign n' \<notin> fst ` set ?L" by blast
    qed
    moreover have "accepted (e # es) (ticket_run (ledger_step sign) (e # es) L) = ?rest"
      by (simp add: Issue split_beta)
    ultimately show ?thesis
      using Cons.IH [of ?L] n(1,2) sourced_issue [OF _ L] unfolding Issue by auto
  next
    case (Consume t now)
    have L: "set ?L \<subseteq> set L" "distinct (map fst ?L)"
      using Cons.prems(1) by (auto simp: Consume distinct_map_filter split: option.splits)
    then have "\<forall>n \<in> set (nonces es). token_of sign n \<notin> fst ` set ?L" using n(3) by blast
    note rest = Cons.IH [OF L(2) n(1,2) this]
    have mono: "\<forall>(t, sc, now) \<in> set ?rest. sourced sign (e # es) L t sc now"
      using rest sourced_mono [OF _ L(1)] by auto
    show ?thesis
    proof (cases "\<exists>st. map_of L t = Some st \<and> now < t_expiresAtMs st")
      case False
      then have "accepted (e # es) (ticket_run (ledger_step sign) (e # es) L) = ?rest"
        by (auto simp: Consume split_beta split: option.splits)
      with rest mono show ?thesis by simp
    next
      case True
      then obtain st where st: "map_of L t = Some st" "now < t_expiresAtMs st" by blast
      then have mem: "(t, st) \<in> set L" by (auto dest: map_of_SomeD)
      have acc: "accepted (e # es) (ticket_run (ledger_step sign) (e # es) L) = (t, t_scope st, now) # ?rest"
        using st by (simp add: Consume split_beta)
      have "t \<in> fst ` set L" using mem by force
      then have "t \<notin> token_of sign ` set (nonces es)" using n(3) by blast
      moreover have "t \<notin> fst ` set ?L" using st(1) by (auto simp: Consume)
      ultimately have "t \<notin> fst ` set ?rest"
        using rest sourced_token [where t = t and L = ?L and es = es and sign = sign] by fastforce
      moreover have "sourced sign (e # es) L t (t_scope st) now"
        using mem st(2) by (rule sourced.holds)
      ultimately show ?thesis unfolding acc using rest mono by simp
    qed
  next
    case Clear
    have "sourced sign es [] t sc now \<Longrightarrow> sourced sign (e # es) L t sc now" for t sc now
      by (erule sourced_mono) simp
    moreover have "accepted (e # es) (ticket_run (ledger_step sign) (e # es) L)
        = accepted es (ticket_run (ledger_step sign) es [])" by (simp add: Clear)
    ultimately show ?thesis using Cons.IH [of "[]"] n by auto
  qed
qed simp

text \<open>
  C28. A ticket is good for one connection: in every history, no token is accepted twice, and
  each accepted token was issued with the scope it is accepted for, less than 60 seconds after
  it was dated.
\<close>

theorem ticket_accepted_at_most_once:
  assumes "distinct (nonces es)" "\<forall>n \<in> set (nonces es). token_half n \<and> token_half (sign n)"
    and "inj_on key (tokens sign es)"
  shows "distinct (map fst (accepted es (ticket_run (ticket_step sign key) es empty_store)))
    \<and> (\<forall>(t, sc, now) \<in> set (accepted es (ticket_run (ticket_step sign key) es empty_store)).
         \<exists>n nw later. Issue sc n nw later \<in> set es \<and> t = token_of sign n \<and> now < later + 60000)"
proof -
  have "ticket_run (ticket_step sign key) es empty_store = ticket_run (ledger_step sign) es []"
    using assms by (intro run_implements) (simp_all add: implements_def empty_store_def owners_def)
  with ledger_accepts [of "[]" es sign] assms(1,2) show ?thesis by (fastforce elim: sourced.cases)
qed

theorem ticket_accepted_at_most_once_witness:
  "distinct (map fst (accepted demo_history (ticket_run (ticket_step demo_sign id) demo_history empty_store)))"
  using ticket_accepted_at_most_once [of demo_history demo_sign id] demo_history_facts by simp

end
