(* ===== verification/Utf8.thy ===== *)
theory Utf8
  imports Json_Text
begin

text \<open>
  \<open>TextEncoder\<close> and \<open>TextDecoder("utf-8", { fatal: true })\<close>, which the binary codecs of the
  boards use: strings are UTF-16 code units, a lone surrogate is encoded as U+FFFD, and the
  decoder refuses every ill-formed sequence and drops one leading byte order mark.
\<close>

type_synonym byte = "8 word"

definition to_byte :: "nat \<Rightarrow> byte" where "to_byte n = word_of_nat n"
definition to_unit :: "nat \<Rightarrow> code_unit" where "to_unit n = word_of_nat n"

lemma unat_to_byte [simp]: "n < 256 \<Longrightarrow> unat (to_byte n) = n"
  unfolding to_byte_def by (simp add: unat_of_nat take_bit_nat_eq_self)

lemma to_byte_unat [simp]: "to_byte (unat b) = b"
  by (simp add: to_byte_def)

lemma byte_less [simp]: "unat (b :: byte) < 256"
  using unsigned_less [of b] by simp

lemma unat_to_unit [simp]: "n < 65536 \<Longrightarrow> unat (to_unit n) = n"
  unfolding to_unit_def by (simp add: unat_of_nat take_bit_nat_eq_self)

lemma to_unit_unat [simp]: "to_unit (unat c) = c"
  by (simp add: to_unit_def)

lemma unit_less [simp]: "unat (c :: code_unit) < 65536"
  using unsigned_less [of c] by simp

section \<open>Scalar values\<close>

definition scalar :: "nat \<Rightarrow> bool" where
  "scalar c \<longleftrightarrow> c < 0x110000 \<and> \<not> (0xd800 \<le> c \<and> c \<le> 0xdfff)"

definition surrogate_pair :: "code_unit \<Rightarrow> code_unit \<Rightarrow> nat" where
  "surrogate_pair c d = 0x10000 + (unat c - 0xd800) * 0x400 + (unat d - 0xdc00)"

fun scalars :: "jstr \<Rightarrow> nat list" where
  "scalars [] = []"
| "scalars (c # s) =
     (if is_high_surrogate c then
        (case s of
           d # t \<Rightarrow> if is_low_surrogate d then surrogate_pair c d # scalars t else 0xfffd # scalars s
         | [] \<Rightarrow> [0xfffd])
      else if is_low_surrogate c then 0xfffd # scalars s
      else unat c # scalars s)"

fun well_formed :: "jstr \<Rightarrow> bool" where
  "well_formed [] = True"
| "well_formed (c # s) =
     (if is_high_surrogate c then
        (case s of d # t \<Rightarrow> is_low_surrogate d \<and> well_formed t | [] \<Rightarrow> False)
      else \<not> is_low_surrogate c \<and> well_formed s)"

definition scalar_units :: "nat \<Rightarrow> jstr" where
  "scalar_units c =
     (if c < 0x10000 then [to_unit c]
      else [to_unit (0xd800 + (c - 0x10000) div 0x400), to_unit (0xdc00 + (c - 0x10000) mod 0x400)])"

lemma surrogate_ranges:
  "is_high_surrogate c \<longleftrightarrow> 0xd800 \<le> unat c \<and> unat c \<le> 0xdbff"
  "is_low_surrogate c \<longleftrightarrow> 0xdc00 \<le> unat c \<and> unat c \<le> 0xdfff"
  by (simp_all add: is_high_surrogate_def is_low_surrogate_def in_range_def word_le_nat_alt)

lemma surrogate_pair_scalar:
  assumes "is_high_surrogate c" "is_low_surrogate d"
  shows "scalar (surrogate_pair c d)" "scalar_units (surrogate_pair c d) = [c, d]"
proof -
  define h where "h = unat c - 0xd800"
  define l where "l = unat d - 0xdc00"
  from assms have r: "unat c = 0xd800 + h" "unat d = 0xdc00 + l" "h < 0x400" "l < 0x400"
    by (auto simp: surrogate_ranges h_def l_def)
  then have c: "c = to_unit (0xd800 + h)" "d = to_unit (0xdc00 + l)"
    by (metis to_unit_unat)+
  have p: "surrogate_pair c d = 0x10000 + (h * 0x400 + l)"
    using r by (simp add: surrogate_pair_def)
  show "scalar (surrogate_pair c d)" using r unfolding p scalar_def by simp
  show "scalar_units (surrogate_pair c d) = [c, d]"
    using r c unfolding p scalar_units_def by simp
qed

lemma scalars_scalar: "\<forall>c \<in> set (scalars s). scalar c"
proof (induction s rule: scalars.induct)
  case (2 c s)
  have plain: "scalar (unat c)" if "\<not> is_high_surrogate c" "\<not> is_low_surrogate c"
  proof -
    have "unat c < 65536" by simp
    with that show ?thesis unfolding surrogate_ranges scalar_def by linarith
  qed
  moreover have "scalar 0xfffd" by (simp add: scalar_def)
  ultimately show ?case
    using 2 surrogate_pair_scalar(1) [of c] by (cases s) (auto split: if_splits)
qed simp

lemma scalar_units_scalars: "scalar c \<Longrightarrow> scalars (scalar_units c @ s) = c # scalars s"
proof -
  assume c: "scalar c"
  show ?thesis
  proof (cases "c < 0x10000")
    case True
    with c show ?thesis by (auto simp: scalar_units_def surrogate_ranges scalar_def)
  next
    case False
    define h where "h = (c - 0x10000) div 0x400"
    define l where "l = (c - 0x10000) mod 0x400"
    from c False have r: "h < 0x400" "l < 0x400" "c = 0x10000 + h * 0x400 + l"
      by (auto simp: h_def l_def scalar_def)
    have u: "scalar_units c = [to_unit (0xd800 + h), to_unit (0xdc00 + l)]"
      using False by (simp add: scalar_units_def h_def l_def)
    from r show ?thesis unfolding u by (simp add: surrogate_ranges surrogate_pair_def)
  qed
qed

lemma scalars_units: "\<forall>c \<in> set cs. scalar c \<Longrightarrow> scalars (concat (map scalar_units cs)) = cs"
  by (induction cs) (simp_all add: scalar_units_scalars)

lemma units_scalars: "well_formed s \<Longrightarrow> concat (map scalar_units (scalars s)) = s"
proof (induction s rule: scalars.induct)
  case (2 c s)
  have "unat c < 0x10000" by simp
  then have "scalar_units (unat c) = [c]" by (simp add: scalar_units_def)
  with 2 show ?case
    using surrogate_pair_scalar(2) [of c] by (cases s) (auto split: if_splits)
qed simp

lemma scalar_units_well_formed: "scalar c \<Longrightarrow> well_formed (scalar_units c @ s) = well_formed s"
proof (cases "c < 0x10000")
  case True
  then show "scalar c \<Longrightarrow> ?thesis" by (auto simp: scalar_units_def surrogate_ranges scalar_def)
next
  case False
  moreover have "(c - 0x10000) div 0x400 < 0x400" if "scalar c"
    using that by (auto simp: scalar_def)
  moreover have "(c - 0x10000) mod 0x400 \<le> 1023" by (simp add: Suc_leI mod_less_divisor less_Suc_eq_le [symmetric])
  ultimately show "scalar c \<Longrightarrow> ?thesis"
    by (simp add: scalar_units_def surrogate_ranges)
qed

lemma well_formed_units: "\<forall>c \<in> set cs. scalar c \<Longrightarrow> well_formed (concat (map scalar_units cs))"
  by (induction cs) (simp_all add: scalar_units_well_formed)

section \<open>Bytes\<close>

definition scalar_bytes :: "nat \<Rightarrow> byte list" where
  "scalar_bytes c =
     (if c < 0x80 then [to_byte c]
      else if c < 0x800 then [to_byte (0xc0 + c div 64), to_byte (0x80 + c mod 64)]
      else if c < 0x10000 then
        [to_byte (0xe0 + c div 4096), to_byte (0x80 + c div 64 mod 64), to_byte (0x80 + c mod 64)]
      else [to_byte (0xf0 + c div 262144), to_byte (0x80 + c div 4096 mod 64),
            to_byte (0x80 + c div 64 mod 64), to_byte (0x80 + c mod 64)])"

definition utf8_encode :: "jstr \<Rightarrow> byte list" where
  "utf8_encode s = concat (map scalar_bytes (scalars s))"

definition continuation :: "byte \<Rightarrow> bool" where
  "continuation b \<longleftrightarrow> 0x80 \<le> unat b \<and> unat b < 0xc0"

text \<open>One scalar value and the rest of the input.\<close>

definition scalar2 :: "nat \<Rightarrow> byte list \<Rightarrow> (nat \<times> byte list) option" where
  "scalar2 n bs = (case bs of
     b1 # rest \<Rightarrow> if continuation b1 then Some ((n - 0xc0) * 64 + (unat b1 - 0x80), rest) else None
   | _ \<Rightarrow> None)"

definition scalar3 :: "nat \<Rightarrow> byte list \<Rightarrow> (nat \<times> byte list) option" where
  "scalar3 n bs = (case bs of
     b1 # b2 # rest \<Rightarrow>
       if continuation b1 \<and> continuation b2 \<and> (n = 0xe0 \<longrightarrow> 0xa0 \<le> unat b1) \<and> (n = 0xed \<longrightarrow> unat b1 \<le> 0x9f)
       then Some ((n - 0xe0) * 4096 + (unat b1 - 0x80) * 64 + (unat b2 - 0x80), rest) else None
   | _ \<Rightarrow> None)"

definition scalar4 :: "nat \<Rightarrow> byte list \<Rightarrow> (nat \<times> byte list) option" where
  "scalar4 n bs = (case bs of
     b1 # b2 # b3 # rest \<Rightarrow>
       if continuation b1 \<and> continuation b2 \<and> continuation b3
         \<and> (n = 0xf0 \<longrightarrow> 0x90 \<le> unat b1) \<and> (n = 0xf4 \<longrightarrow> unat b1 \<le> 0x8f)
       then Some ((n - 0xf0) * 262144 + (unat b1 - 0x80) * 4096 + (unat b2 - 0x80) * 64 + (unat b3 - 0x80), rest)
       else None
   | _ \<Rightarrow> None)"

fun decode_scalar :: "byte list \<Rightarrow> (nat \<times> byte list) option" where
  "decode_scalar [] = None"
| "decode_scalar (b # bs) =
     (let n = unat b in
      if n < 0x80 then Some (n, bs)
      else if 0xc2 \<le> n \<and> n \<le> 0xdf then scalar2 n bs
      else if 0xe0 \<le> n \<and> n \<le> 0xef then scalar3 n bs
      else if 0xf0 \<le> n \<and> n \<le> 0xf4 then scalar4 n bs
      else None)"

lemma decode_scalar_shorter: "decode_scalar bs = Some (c, rest) \<Longrightarrow> length rest < length bs"
  by (cases bs)
     (auto simp: Let_def scalar2_def scalar3_def scalar4_def split: if_splits list.splits)

function decode_scalars :: "byte list \<Rightarrow> nat list option" where
  "decode_scalars bs =
     (if bs = [] then Some []
      else case decode_scalar bs of None \<Rightarrow> None
        | Some (c, rest) \<Rightarrow> map_option ((#) c) (decode_scalars rest))"
  by auto
termination by (relation "measure length") (auto dest: decode_scalar_shorter)

declare decode_scalars.simps [simp del]

lemma decode_scalars_code [code]:
  "decode_scalars [] = Some []"
  "decode_scalars (b # bs) = (case decode_scalar (b # bs) of None \<Rightarrow> None
     | Some (c, rest) \<Rightarrow> map_option ((#) c) (decode_scalars rest))"
  by (simp_all add: decode_scalars.simps)

definition byte_order_mark :: "byte list" where
  "byte_order_mark = [0xef, 0xbb, 0xbf]"

definition utf8_decode :: "byte list \<Rightarrow> jstr option" where
  "utf8_decode bs =
     map_option (\<lambda>cs. concat (map scalar_units cs))
       (decode_scalars (if take 3 bs = byte_order_mark then drop 3 bs else bs))"

section \<open>The two are inverse\<close>

lemma digits64: "c = c div 262144 * 262144 + c div 4096 mod 64 * 4096 + c div 64 mod 64 * 64 + c mod (64 :: nat)"
proof -
  have "c div 64 div 64 = c div 4096" "c div 4096 div 64 = c div 262144"
    by (simp_all add: div_mult2_eq [symmetric])
  then show ?thesis
    using div_mult_mod_eq [of c 64] div_mult_mod_eq [of "c div 64" 64] div_mult_mod_eq [of "c div 4096" 64]
    by linarith
qed

lemma decode_scalar_bytes: "scalar c \<Longrightarrow> decode_scalar (scalar_bytes c @ rest) = Some (c, rest)"
proof -
  assume c: "scalar c"
  define p where "p = c div 262144"
  define q where "q = c div 4096 mod 64"
  define r where "r = c div 64 mod 64"
  define t where "t = c mod 64"
  have small: "q < 64" "r < 64" "t < 64" by (simp_all add: q_def r_def t_def)
  have sum: "c = p * 262144 + q * 4096 + r * 64 + t"
    using digits64 [of c] by (simp only: p_def q_def r_def t_def)
  have fold: "c div 262144 = p" "c div 4096 mod 64 = q" "c div 64 mod 64 = r" "c mod 64 = t"
    by (simp_all add: p_def q_def r_def t_def)
  consider "c < 0x80" | "0x80 \<le> c" "c < 0x800" | "0x800 \<le> c" "c < 0x10000" | "0x10000 \<le> c" by linarith
  then show ?thesis
  proof cases
    case 1
    then show ?thesis by (simp add: scalar_bytes_def)
  next
    case 2
    have "c div 64 < 64" using 2 by (simp add: less_mult_imp_div_less)
    then have e: "c div 64 = r" by (simp add: r_def)
    have "p = 0" "q = 0" using 2 by (simp_all add: p_def q_def)
    then have "2 \<le> r" "r < 32" "r * 64 + t = c" using 2 sum small by linarith+
    with 2 small show ?thesis
      by (simp add: scalar_bytes_def scalar2_def continuation_def e fold)
  next
    case 3
    have "c div 4096 < 64" using 3 by (simp add: less_mult_imp_div_less)
    then have e: "c div 4096 = q" by (simp add: q_def)
    have "p = 0" using 3 by (simp add: p_def)
    then have v: "q < 16" "q * 4096 + r * 64 + t = c" using 3 sum small by linarith+
    moreover have "q = 0 \<longrightarrow> 32 \<le> r"
    proof
      assume "q = 0"
      with v(2) 3 small show "32 \<le> r" by linarith
    qed
    moreover have "q = 13 \<longrightarrow> r \<le> 31"
    proof (rule impI, rule ccontr)
      assume "q = 13" "\<not> r \<le> 31"
      with v(2) small have "0xd800 \<le> c" "c \<le> 0xdfff" by linarith+
      with c show False by (simp add: scalar_def)
    qed
    ultimately show ?thesis using 3 small
      by (simp add: scalar_bytes_def scalar3_def continuation_def e fold)
  next
    case 4
    have "c < 0x110000" using c by (simp add: scalar_def)
    with 4 sum small have v: "p < 5" "p = 0 \<Longrightarrow> 16 \<le> q" "p = 4 \<Longrightarrow> q \<le> 15" by linarith+
    then have "p = 0 \<longrightarrow> 16 \<le> q" "p = 4 \<longrightarrow> q \<le> 15" by simp_all
    with 4 small sum [symmetric] v(1) show ?thesis
      by (simp add: scalar_bytes_def scalar4_def continuation_def fold)
  qed
qed

lemma digit64: "d < 64 \<Longrightarrow> (x * 64 + d) div 64 = x \<and> (x * 64 + d) mod 64 = (d :: nat)"
  by simp

lemma continuation_digit: "continuation b \<Longrightarrow> \<exists>d < 64. unat b = 0x80 + d"
  by (rule exI [of _ "unat b - 0x80"]) (auto simp: continuation_def)

lemma to_byte_eq: "unat b = n \<Longrightarrow> to_byte n = b"
  by auto

lemma decode_scalar_sound: "decode_scalar bs = Some (c, rest) \<Longrightarrow> scalar c \<and> bs = scalar_bytes c @ rest"
proof (cases bs)
  case (Cons b bs')
  assume "decode_scalar bs = Some (c, rest)"
  with Cons consider (one) "unat b < 0x80" "c = unat b" "rest = bs'"
    | (two) "0xc2 \<le> unat b" "unat b \<le> 0xdf" "scalar2 (unat b) bs' = Some (c, rest)"
    | (three) "0xe0 \<le> unat b" "unat b \<le> 0xef" "scalar3 (unat b) bs' = Some (c, rest)"
    | (four) "0xf0 \<le> unat b" "unat b \<le> 0xf4" "scalar4 (unat b) bs' = Some (c, rest)"
    by (auto simp: Let_def split: if_splits)
  then show ?thesis
  proof cases
    case one
    with Cons show ?thesis by (simp add: scalar_def scalar_bytes_def)
  next
    case two
    then obtain b1 d where b1: "bs' = b1 # rest" "d < 64" "unat b1 = 0x80 + d"
      and c: "c = (unat b - 0xc0) * 64 + d"
      by (auto simp: scalar2_def split: list.splits if_splits dest!: continuation_digit)
    define r where "r = unat b - 0xc0"
    have r: "2 \<le> r" "r < 32" "unat b = 0xc0 + r" "c = r * 64 + d" using two c by (auto simp: r_def)
    then have "c div 64 = r" "c mod 64 = d" using b1(2) by simp_all
    with r b1 Cons show ?thesis
      by (simp add: scalar_def scalar_bytes_def to_byte_eq)
  next
    case three
    then obtain b1 b2 d1 d2 where b1: "bs' = b1 # b2 # rest" "d1 < 64" "unat b1 = 0x80 + d1"
        "d2 < 64" "unat b2 = 0x80 + d2" "unat b = 0xe0 \<longrightarrow> 32 \<le> d1" "unat b = 0xed \<longrightarrow> d1 < 32"
      and c: "c = (unat b - 0xe0) * 4096 + d1 * 64 + d2"
      by (auto simp: scalar3_def split: list.splits if_splits dest!: continuation_digit)
    define r where "r = unat b - 0xe0"
    have r: "r < 16" "unat b = 0xe0 + r" "c = (r * 64 + d1) * 64 + d2" using three c by (auto simp: r_def)
    have "c div 64 = r * 64 + d1 \<and> c mod 64 = d2" unfolding r(3) by (rule digit64 [OF b1(4)])
    moreover from this have "c div 64 mod 64 = d1" "c div 4096 = r"
      using digit64 [OF b1(2), of r] div_mult2_eq [of c 64 64] by simp_all
    moreover have "0x800 \<le> c" "c < 0x10000" using r b1 by (cases "r = 0"; simp)+
    moreover have "scalar c" using r b1 by (cases "r = 13") (auto simp: scalar_def)
    ultimately show ?thesis using r b1 Cons by (simp add: scalar_bytes_def to_byte_eq)
  next
    case four
    then obtain b1 b2 b3 d1 d2 d3 where b1: "bs' = b1 # b2 # b3 # rest" "d1 < 64" "unat b1 = 0x80 + d1"
        "d2 < 64" "unat b2 = 0x80 + d2" "d3 < 64" "unat b3 = 0x80 + d3"
        "unat b = 0xf0 \<longrightarrow> 16 \<le> d1" "unat b = 0xf4 \<longrightarrow> d1 < 16"
      and c: "c = (unat b - 0xf0) * 262144 + d1 * 4096 + d2 * 64 + d3"
      by (auto simp: scalar4_def split: list.splits if_splits dest!: continuation_digit)
    define r where "r = unat b - 0xf0"
    have r: "r < 5" "unat b = 0xf0 + r" "c = ((r * 64 + d1) * 64 + d2) * 64 + d3" using four c by (auto simp: r_def)
    have a: "c div 64 = (r * 64 + d1) * 64 + d2 \<and> c mod 64 = d3" unfolding r(3) by (rule digit64 [OF b1(6)])
    then have b: "c div 64 mod 64 = d2" "c div 4096 = r * 64 + d1"
      using digit64 [OF b1(4), of "r * 64 + d1"] div_mult2_eq [of c 64 64] by simp_all
    then have "c div 4096 mod 64 = d1" "c div 262144 = r"
      using digit64 [OF b1(2), of r] div_mult2_eq [of c 4096 64] by simp_all
    moreover note a b
    moreover have "0x10000 \<le> c" "c < 0x110000" using r b1 by (cases "r = 0"; cases "r = 4"; simp)+
    ultimately show ?thesis using r b1 Cons by (simp add: scalar_bytes_def to_byte_eq scalar_def)
  qed
qed simp

lemma decode_scalars_bytes:
  "\<forall>c \<in> set cs. scalar c \<Longrightarrow> decode_scalars (concat (map scalar_bytes cs)) = Some cs"
proof (induction cs)
  case (Cons c cs)
  have "scalar_bytes c \<noteq> []" by (simp add: scalar_bytes_def)
  with Cons show ?case by (subst decode_scalars.simps) (simp add: decode_scalar_bytes)
qed (simp add: decode_scalars.simps)

lemma decode_scalars_sound:
  "decode_scalars bs = Some cs \<Longrightarrow> (\<forall>c \<in> set cs. scalar c) \<and> bs = concat (map scalar_bytes cs)"
proof (induction bs arbitrary: cs rule: decode_scalars.induct)
  case (1 bs)
  show ?case
  proof (cases "bs = []")
    case True
    with 1 show ?thesis by (simp add: decode_scalars.simps)
  next
    case False
    with 1(2) obtain c rest cs' where
      "decode_scalar bs = Some (c, rest)" "decode_scalars rest = Some cs'" "cs = c # cs'"
      by (subst (asm) decode_scalars.simps) (auto split: option.splits)
    with 1(1) [OF False] decode_scalar_sound [of bs c rest] show ?thesis by force
  qed
qed

definition starts_with_mark :: "byte list \<Rightarrow> bool" where
  "starts_with_mark bs \<longleftrightarrow> take 3 bs = byte_order_mark"

lemma utf8_mark: "utf8_encode (0xfeff # s) = byte_order_mark @ utf8_encode s"
proof -
  have "\<not> is_high_surrogate 0xfeff" "\<not> is_low_surrogate 0xfeff"
    by (simp_all add: surrogate_ranges)
  then show ?thesis
    by (simp add: utf8_encode_def scalar_bytes_def byte_order_mark_def to_byte_def)
qed

text \<open>
  Decoding gives back a well-formed string without a leading mark, and loses a leading mark.
\<close>

lemma utf8_decode_encode:
  assumes "well_formed s" "\<not> starts_with_mark (utf8_encode s)"
  shows "utf8_decode (utf8_encode s) = Some s"
  using assms decode_scalars_bytes [OF scalars_scalar, of s] units_scalars [of s]
  by (simp add: utf8_decode_def utf8_encode_def starts_with_mark_def)

lemma utf8_decode_mark:
  assumes "well_formed s"
  shows "utf8_decode (utf8_encode (0xfeff # s)) = Some s"
  using assms decode_scalars_bytes [OF scalars_scalar, of s] units_scalars [of s]
  unfolding utf8_mark by (simp add: utf8_decode_def utf8_encode_def byte_order_mark_def)

lemma utf8_decode_sound:
  assumes "utf8_decode bs = Some s" "\<not> starts_with_mark bs"
  shows "well_formed s \<and> utf8_encode s = bs"
proof -
  from assms obtain cs where "decode_scalars bs = Some cs" "s = concat (map scalar_units cs)"
    by (auto simp: utf8_decode_def starts_with_mark_def)
  with decode_scalars_sound [of bs cs] scalars_units [of cs] well_formed_units [of cs] show ?thesis
    by (simp add: utf8_encode_def)
qed

end
