(* ===== verification/Board_Frame.thy ===== *)
theory Board_Frame
  imports Utf8 Wire
begin

unbundle bit_operations_syntax

text \<open>
  The binary frames of the board protocol: \<open>src/board/protocol/\<close> \<open>types.ts\<close>, \<open>constants.ts\<close>,
  \<open>errors.ts\<close> and \<open>codec.ts\<close>. Numbers of frames are integers; the \<open>Uint8Array\<close> and
  \<open>typeof\<close> checks, which the types discharge, have no branch. The byte reader and writer of the
  package lib0 is a parameter, a record of the functions the codec calls.
\<close>

section \<open>The byte library\<close>

text \<open>A writer gives the bytes it appends, a reader the value and the bytes left, \<open>None\<close> where it throws.\<close>

record lib0 =
  lib_writeUint8 :: "int \<Rightarrow> byte list"
  lib_writeUint32BigEndian :: "int \<Rightarrow> byte list"
  lib_writeVarUint :: "int \<Rightarrow> byte list"
  lib_writeUint8Array :: "byte list \<Rightarrow> byte list"
  lib_readUint8 :: "byte list \<Rightarrow> int \<times> byte list"
  lib_readUint32BigEndian :: "byte list \<Rightarrow> int \<times> byte list"
  lib_readVarUint :: "byte list \<Rightarrow> (int \<times> byte list) option"
  lib_readUint8Array :: "nat \<Rightarrow> byte list \<Rightarrow> byte list \<times> byte list"

section \<open>Frames\<close>

datatype board_error = FrameTooLarge | Truncated | InvalidMagic | UnsupportedVersion
  | UnsupportedMessage | InvalidVaruint | InvalidUtf8 | InvalidLength | InvalidField | TrailingData

definition protocol_magic :: int where "protocol_magic = 0x45444232"
definition board_version :: int where "board_version = 1"
definition message_id_bytes :: nat where "message_id_bytes = 16"

definition max_encoded_frame_bytes :: nat where "max_encoded_frame_bytes = 16 * 1024 * 1024 + 4 * 1024"
definition max_ticket_bytes :: nat where "max_ticket_bytes = 4 * 1024"
definition max_document_key_bytes :: nat where "max_document_key_bytes = 256"
definition max_state_vector_bytes :: nat where "max_state_vector_bytes = 2 * 1024 * 1024"
definition max_update_bytes :: nat where "max_update_bytes = 16 * 1024 * 1024"
definition max_awareness_bytes :: nat where "max_awareness_bytes = 256 * 1024"
definition max_control_payload_bytes :: nat where "max_control_payload_bytes = 64 * 1024"
definition max_chunk_payload_bytes :: nat where "max_chunk_payload_bytes = 256 * 1024"
definition max_chunk_count :: int where "max_chunk_count = 128"
definition max_reassembled_bytes :: int where "max_reassembled_bytes = 16 * 1024 * 1024 + 4 * 1024"
definition max_schema_version :: int where "max_schema_version = 0xffff"
definition max_awareness_client_id :: int where "max_awareness_client_id = 0xffffffff"

record chunk_frame =
  c_messageId :: "byte list"
  c_innerType :: int
  c_chunkIndex :: int
  c_chunkCount :: int
  c_totalLength :: int
  c_payload :: "byte list"

text \<open>
  In order: \<open>AUTH\<close> ticket, generation, schema range, capabilities; \<open>READY\<close> generation, schema,
  capabilities, client, permissions; \<open>UPDATE\<close> generation, document, message, update; \<open>CONTROL\<close>
  generation, code, document, message, payload.
\<close>

datatype board_frame =
    AuthFrame jstr int int int int
  | ReadyFrame int int int int int
  | SyncStep1Frame int jstr "byte list"
  | SyncStep2Frame int jstr "byte list"
  | UpdateFrame int jstr "byte list" "byte list"
  | AckFrame int jstr "byte list" int
  | AwarenessFrame int jstr int "byte list"
  | ControlFrame int int "jstr option" "byte list option" "byte list"
  | ChunkFrame chunk_frame

fun frame_type :: "board_frame \<Rightarrow> int" where
  "frame_type (AuthFrame _ _ _ _ _) = 1"
| "frame_type (ReadyFrame _ _ _ _ _) = 2"
| "frame_type (SyncStep1Frame _ _ _) = 3"
| "frame_type (SyncStep2Frame _ _ _) = 4"
| "frame_type (UpdateFrame _ _ _ _) = 5"
| "frame_type (AckFrame _ _ _ _) = 6"
| "frame_type (AwarenessFrame _ _ _ _) = 7"
| "frame_type (ControlFrame _ _ _ _ _) = 8"
| "frame_type (ChunkFrame _) = 9"

definition known_control_code :: "int \<Rightarrow> bool" where
  "known_control_code c \<longleftrightarrow> 1 \<le> c \<and> c \<le> 12"

definition control_has_doc_key :: int where "control_has_doc_key = 1"
definition control_has_message_id :: int where "control_has_message_id = 2"
definition control_known_flags :: int where "control_known_flags = control_has_doc_key OR control_has_message_id"
definition permission_read :: int where "permission_read = 1"

section \<open>Checks\<close>

type_synonym 'a checked = "board_error + 'a"

definition check :: "bool \<Rightarrow> board_error \<Rightarrow> byte list checked" where
  "check ok e = (if ok then Inr [] else Inl e)"

text \<open>Steps of an encoder in order: the first error, or all bytes written.\<close>

fun emit :: "byte list checked list \<Rightarrow> byte list checked" where
  "emit [] = Inr []"
| "emit (Inl e # ws) = Inl e"
| "emit (Inr b # ws) = (case emit ws of Inl e \<Rightarrow> Inl e | Inr bs \<Rightarrow> Inr (b @ bs))"

definition safe_between :: "int \<Rightarrow> int \<Rightarrow> int \<Rightarrow> bool" where
  "safe_between mn mx v \<longleftrightarrow> \<bar>v\<bar> \<le> max_safe_integer \<and> mn \<le> v \<and> v \<le> mx"

definition assertSafeUint :: "int \<Rightarrow> int \<Rightarrow> int \<Rightarrow> byte list checked" where
  "assertSafeUint v mx mn = check (safe_between mn mx v) InvalidField"

definition assertUint32 :: "int \<Rightarrow> byte list checked" where
  "assertUint32 v = assertSafeUint v 0xffffffff 0"

definition bytes_between :: "bool \<Rightarrow> nat \<Rightarrow> byte list \<Rightarrow> bool" where
  "bytes_between allowEmpty mx b \<longleftrightarrow> (allowEmpty \<or> b \<noteq> []) \<and> length b \<le> mx"

definition assertBytes :: "byte list \<Rightarrow> nat \<Rightarrow> bool \<Rightarrow> byte list checked" where
  "assertBytes b mx allowEmpty = check (bytes_between allowEmpty mx b) InvalidLength"

definition assertMessageId :: "byte list \<Rightarrow> byte list checked" where
  "assertMessageId m = check (length m = message_id_bytes) InvalidLength"

definition encodeUtf8 :: "jstr \<Rightarrow> nat \<Rightarrow> byte list checked" where
  "encodeUtf8 s mx = (let e = utf8_encode s in if bytes_between False mx e then Inr e else Inl InvalidLength)"

definition control_free :: "jstr \<Rightarrow> bool" where
  "control_free s \<longleftrightarrow> list_all (\<lambda>c. \<not> (c \<le> 0x1f \<or> c = 0x7f)) s"

definition assertNoControlCharacters :: "jstr \<Rightarrow> byte list checked" where
  "assertNoControlCharacters s = check (control_free s) InvalidField"

definition encodeDocKey :: "jstr \<Rightarrow> byte list checked" where
  "encodeDocKey k = emit [encodeUtf8 k max_document_key_bytes, assertNoControlCharacters k]"

definition encodeTicket :: "jstr \<Rightarrow> byte list checked" where
  "encodeTicket t = emit [encodeUtf8 t max_ticket_bytes, assertNoControlCharacters t]"

section \<open>Encoding\<close>

definition writeVarBytes :: "lib0 \<Rightarrow> byte list \<Rightarrow> byte list" where
  "writeVarBytes L b = lib_writeVarUint L (int (length b)) @ lib_writeUint8Array L b"

definition writeHeader :: "lib0 \<Rightarrow> int \<Rightarrow> byte list" where
  "writeHeader L t = lib_writeUint32BigEndian L protocol_magic @ lib_writeUint8 L board_version @ lib_writeUint8 L t"

definition writeGeneration :: "lib0 \<Rightarrow> int \<Rightarrow> byte list checked" where
  "writeGeneration L g = emit [assertSafeUint g max_safe_integer 0, Inr (lib_writeVarUint L g)]"

definition writeDocKey :: "lib0 \<Rightarrow> jstr \<Rightarrow> byte list checked" where
  "writeDocKey L k = map_sum id (writeVarBytes L) (encodeDocKey k)"

definition writeMessageId :: "lib0 \<Rightarrow> byte list \<Rightarrow> byte list checked" where
  "writeMessageId L m = emit [assertMessageId m, Inr (lib_writeUint8Array L m)]"

text \<open>The ticket is encoded and checked before the writes, which cannot fail.\<close>

definition encodeAuth :: "lib0 \<Rightarrow> jstr \<Rightarrow> int \<Rightarrow> int \<Rightarrow> int \<Rightarrow> int \<Rightarrow> byte list checked" where
  "encodeAuth L ticket g mn mx caps = emit
     [writeGeneration L g, assertSafeUint mn max_schema_version 1, assertSafeUint mx max_schema_version 1,
      check (mn \<le> mx) InvalidField, assertUint32 caps,
      map_sum id (\<lambda>t. lib_writeVarUint L mn @ lib_writeVarUint L mx @ lib_writeVarUint L caps @ writeVarBytes L t)
        (encodeTicket ticket)]"

definition encodeReady :: "lib0 \<Rightarrow> int \<Rightarrow> int \<Rightarrow> int \<Rightarrow> int \<Rightarrow> int \<Rightarrow> byte list checked" where
  "encodeReady L g schema caps client perms = emit
     [writeGeneration L g, assertSafeUint schema max_schema_version 1, assertUint32 caps,
      assertSafeUint client max_awareness_client_id 0, assertSafeUint perms 0xff 0,
      check (perms AND permission_read \<noteq> 0) InvalidField,
      Inr (lib_writeVarUint L schema), Inr (lib_writeVarUint L caps), Inr (lib_writeVarUint L client),
      Inr (lib_writeVarUint L perms)]"

definition encodeSyncStep1 :: "lib0 \<Rightarrow> int \<Rightarrow> jstr \<Rightarrow> byte list \<Rightarrow> byte list checked" where
  "encodeSyncStep1 L g k v = emit
     [writeGeneration L g, writeDocKey L k, assertBytes v max_state_vector_bytes False, Inr (writeVarBytes L v)]"

definition encodeSyncStep2 :: "lib0 \<Rightarrow> int \<Rightarrow> jstr \<Rightarrow> byte list \<Rightarrow> byte list checked" where
  "encodeSyncStep2 L g k u = emit
     [writeGeneration L g, writeDocKey L k, assertBytes u max_update_bytes False, Inr (writeVarBytes L u)]"

definition encodeUpdate :: "lib0 \<Rightarrow> int \<Rightarrow> jstr \<Rightarrow> byte list \<Rightarrow> byte list \<Rightarrow> byte list checked" where
  "encodeUpdate L g k m u = emit
     [writeGeneration L g, writeDocKey L k, writeMessageId L m, assertBytes u max_update_bytes False,
      Inr (writeVarBytes L u)]"

definition encodeAck :: "lib0 \<Rightarrow> int \<Rightarrow> jstr \<Rightarrow> byte list \<Rightarrow> int \<Rightarrow> byte list checked" where
  "encodeAck L g k m n = emit
     [writeGeneration L g, writeDocKey L k, writeMessageId L m, assertSafeUint n max_safe_integer 1,
      Inr (lib_writeVarUint L n)]"

definition encodeAwareness :: "lib0 \<Rightarrow> int \<Rightarrow> jstr \<Rightarrow> int \<Rightarrow> byte list \<Rightarrow> byte list checked" where
  "encodeAwareness L g k client u = emit
     [writeGeneration L g, writeDocKey L k, assertSafeUint client max_awareness_client_id 0,
      assertBytes u max_awareness_bytes False, Inr (lib_writeVarUint L client), Inr (writeVarBytes L u)]"

definition control_flags :: "jstr option \<Rightarrow> byte list option \<Rightarrow> int" where
  "control_flags k m = (if k \<noteq> None then control_has_doc_key else 0) OR (if m \<noteq> None then control_has_message_id else 0)"

definition write_optional :: "('a \<Rightarrow> byte list checked) \<Rightarrow> 'a option \<Rightarrow> byte list checked" where
  "write_optional w x = (case x of None \<Rightarrow> Inr [] | Some v \<Rightarrow> w v)"

definition encodeControl ::
  "lib0 \<Rightarrow> int \<Rightarrow> int \<Rightarrow> jstr option \<Rightarrow> byte list option \<Rightarrow> byte list \<Rightarrow> byte list checked" where
  "encodeControl L g code k m p = emit
     [writeGeneration L g, check (known_control_code code) UnsupportedMessage,
      assertBytes p max_control_payload_bytes True,
      Inr (lib_writeVarUint L code), Inr (lib_writeUint8 L (control_flags k m)),
      write_optional (writeDocKey L) k, write_optional (writeMessageId L) m, Inr (writeVarBytes L p)]"

definition minimum_chunks :: "int \<Rightarrow> int" where
  "minimum_chunks n = (n + int max_chunk_payload_bytes - 1) div int max_chunk_payload_bytes"

definition assertChunk :: "chunk_frame \<Rightarrow> byte list checked" where
  "assertChunk f = emit
     [assertMessageId (c_messageId f),
      check (c_innerType f = 4 \<or> c_innerType f = 5) UnsupportedMessage,
      assertSafeUint (c_chunkCount f) max_chunk_count 2,
      assertSafeUint (c_chunkIndex f) (c_chunkCount f - 1) 0,
      assertSafeUint (c_totalLength f) max_reassembled_bytes 1,
      assertBytes (c_payload f) max_chunk_payload_bytes False,
      check (int (length (c_payload f)) < c_totalLength f) InvalidLength,
      check (minimum_chunks (c_totalLength f) \<le> c_chunkCount f \<and> c_chunkCount f \<le> c_totalLength f) InvalidLength]"

definition encodeChunk :: "lib0 \<Rightarrow> chunk_frame \<Rightarrow> byte list checked" where
  "encodeChunk L f = emit
     [assertChunk f, writeMessageId L (c_messageId f), Inr (lib_writeUint8 L (c_innerType f)),
      Inr (lib_writeVarUint L (c_chunkIndex f)), Inr (lib_writeVarUint L (c_chunkCount f)),
      Inr (lib_writeVarUint L (c_totalLength f)), Inr (writeVarBytes L (c_payload f))]"

fun encode_body :: "lib0 \<Rightarrow> board_frame \<Rightarrow> byte list checked" where
  "encode_body L (AuthFrame t g mn mx caps) = encodeAuth L t g mn mx caps"
| "encode_body L (ReadyFrame g schema caps client perms) = encodeReady L g schema caps client perms"
| "encode_body L (SyncStep1Frame g k v) = encodeSyncStep1 L g k v"
| "encode_body L (SyncStep2Frame g k u) = encodeSyncStep2 L g k u"
| "encode_body L (UpdateFrame g k m u) = encodeUpdate L g k m u"
| "encode_body L (AckFrame g k m n) = encodeAck L g k m n"
| "encode_body L (AwarenessFrame g k client u) = encodeAwareness L g k client u"
| "encode_body L (ControlFrame g code k m p) = encodeControl L g code k m p"
| "encode_body L (ChunkFrame f) = encodeChunk L f"

definition encodeBoardFrame :: "lib0 \<Rightarrow> board_frame \<Rightarrow> byte list checked" where
  "encodeBoardFrame L f =
     (case emit [Inr (writeHeader L (frame_type f)), encode_body L f] of
        Inl e \<Rightarrow> Inl e
      | Inr bs \<Rightarrow> if max_encoded_frame_bytes < length bs then Inl FrameTooLarge else Inr bs)"

section \<open>Message identifiers as text\<close>

definition id_digit_value :: "code_unit \<Rightarrow> nat option" where
  "id_digit_value c =
     (if in_range 0x30 0x39 c then Some (unat c - 0x30)
      else if in_range 0x61 0x66 c then Some (unat c - 0x61 + 10)
      else if in_range 0x41 0x46 c then Some (unat c - 0x41 + 10)
      else None)"

fun id_bytes :: "jstr \<Rightarrow> byte list option" where
  "id_bytes [] = Some []"
| "id_bytes [c] = None"
| "id_bytes (c # d # s) =
     (case (id_digit_value c, id_digit_value d, id_bytes s) of
        (Some h, Some l, Some bs) \<Rightarrow> Some (to_byte (16 * h + l) # bs)
      | _ \<Rightarrow> None)"

definition messageIdFromHex :: "jstr \<Rightarrow> byte list checked" where
  "messageIdFromHex hex =
     (if length hex = 32 then case id_bytes hex of Some bs \<Rightarrow> Inr bs | None \<Rightarrow> Inl InvalidField
      else Inl InvalidField)"

definition id_digit :: "nat \<Rightarrow> code_unit" where
  "id_digit n = to_unit (if n < 10 then 0x30 + n else 0x61 + (n - 10))"

definition messageIdToHex :: "byte list \<Rightarrow> jstr checked" where
  "messageIdToHex m =
     (case assertMessageId m of Inl e \<Rightarrow> Inl e
      | Inr _ \<Rightarrow> Inr (concat (map (\<lambda>b. [id_digit (unat b div 16), id_digit (unat b mod 16)]) m)))"

end
