(* ===== verification/Board_Decoder.thy ===== *)
theory Board_Decoder
  imports Board_Frame
begin

text \<open>
  The decoder of board frames in \<open>src/board/protocol/codec.ts\<close>. A decoder is the bytes left to
  read; a reader gives the value and what is left, or the error the code throws.
\<close>

type_synonym 'a reader = "byte list \<Rightarrow> ('a \<times> byte list) checked"

text \<open>Reading on with the value read.\<close>

definition into :: "'a reader \<Rightarrow> ('a \<Rightarrow> 'b reader) \<Rightarrow> 'b reader" where
  "into r k bs = (case r bs of Inl e \<Rightarrow> Inl e | Inr (v, rest) \<Rightarrow> k v rest)"

definition done_with :: "'a \<Rightarrow> 'a reader" where
  "done_with v bs = Inr (v, bs)"

definition refuse :: "board_error \<Rightarrow> 'a reader" where
  "refuse e bs = Inl e"

section \<open>Readers\<close>

definition ensureRemaining :: "nat \<Rightarrow> (byte list \<Rightarrow> 'a \<times> byte list) \<Rightarrow> 'a reader" where
  "ensureRemaining n r bs = (if length bs < n then Inl Truncated else Inr (r bs))"

definition readUint8 :: "lib0 \<Rightarrow> int reader" where
  "readUint8 L = ensureRemaining 1 (lib_readUint8 L)"

definition readUint32BigEndian :: "lib0 \<Rightarrow> int reader" where
  "readUint32BigEndian L = ensureRemaining 4 (lib_readUint32BigEndian L)"

function varUintEncodedLength :: "int \<Rightarrow> int" where
  "varUintEncodedLength v = (if 128 \<le> v then varUintEncodedLength (v div 128) + 1 else 1)"
  by auto
termination by (relation "measure nat") auto

declare varUintEncodedLength.simps [simp del]

definition readVarUint :: "lib0 \<Rightarrow> int \<Rightarrow> int \<Rightarrow> int reader" where
  "readVarUint L mx mn bs =
     (case lib_readVarUint L bs of None \<Rightarrow> Inl InvalidVaruint
      | Some (v, rest) \<Rightarrow>
          if \<not> safe_between mn mx v then Inl InvalidField
          else if int (length bs) - int (length rest) \<noteq> varUintEncodedLength v then Inl InvalidVaruint
          else Inr (v, rest))"

definition readBytes :: "lib0 \<Rightarrow> nat \<Rightarrow> byte list reader" where
  "readBytes L n = ensureRemaining n (lib_readUint8Array L n)"

definition readVarBytes :: "lib0 \<Rightarrow> nat \<Rightarrow> bool \<Rightarrow> byte list reader" where
  "readVarBytes L mx allowEmpty =
     into (readVarUint L (int mx) (if allowEmpty then 0 else 1)) (\<lambda>n. readBytes L (nat n))"

definition readUtf8 :: "lib0 \<Rightarrow> nat \<Rightarrow> jstr reader" where
  "readUtf8 L mx = into (readVarBytes L mx False)
     (\<lambda>b. case utf8_decode b of None \<Rightarrow> refuse InvalidUtf8 | Some s \<Rightarrow> done_with s)"

text \<open>A string without control characters: the document key and the ticket.\<close>

definition readText :: "lib0 \<Rightarrow> nat \<Rightarrow> jstr reader" where
  "readText L mx = into (readUtf8 L mx)
     (\<lambda>s. if control_free s then done_with s else refuse InvalidField)"

definition readDocKey :: "lib0 \<Rightarrow> jstr reader" where
  "readDocKey L = readText L max_document_key_bytes"

definition readGeneration :: "lib0 \<Rightarrow> int reader" where
  "readGeneration L = readVarUint L max_safe_integer 0"

definition readMessageId :: "lib0 \<Rightarrow> byte list reader" where
  "readMessageId L = readBytes L message_id_bytes"

section \<open>Frames\<close>

definition decodeAuth :: "lib0 \<Rightarrow> board_frame reader" where
  "decodeAuth L = into (readGeneration L) (\<lambda>g.
     into (readVarUint L max_schema_version 1) (\<lambda>mn.
     into (readVarUint L max_schema_version 1) (\<lambda>mx.
     if mx < mn then refuse InvalidField
     else into (readVarUint L 0xffffffff 0) (\<lambda>caps.
       into (readText L max_ticket_bytes) (\<lambda>ticket.
       done_with (AuthFrame ticket g mn mx caps))))))"

definition decodeReady :: "lib0 \<Rightarrow> board_frame reader" where
  "decodeReady L = into (readGeneration L) (\<lambda>g.
     into (readVarUint L max_schema_version 1) (\<lambda>schema.
     into (readVarUint L 0xffffffff 0) (\<lambda>caps.
     into (readVarUint L max_awareness_client_id 0) (\<lambda>client.
     into (readVarUint L 0xff 0) (\<lambda>perms.
     if perms AND permission_read = 0 then refuse InvalidField
     else done_with (ReadyFrame g schema caps client perms))))))"

definition decodeSyncStep1 :: "lib0 \<Rightarrow> board_frame reader" where
  "decodeSyncStep1 L = into (readGeneration L) (\<lambda>g. into (readDocKey L) (\<lambda>k.
     into (readVarBytes L max_state_vector_bytes False) (\<lambda>v. done_with (SyncStep1Frame g k v))))"

definition decodeSyncStep2 :: "lib0 \<Rightarrow> board_frame reader" where
  "decodeSyncStep2 L = into (readGeneration L) (\<lambda>g. into (readDocKey L) (\<lambda>k.
     into (readVarBytes L max_update_bytes False) (\<lambda>u. done_with (SyncStep2Frame g k u))))"

definition decodeUpdate :: "lib0 \<Rightarrow> board_frame reader" where
  "decodeUpdate L = into (readGeneration L) (\<lambda>g. into (readDocKey L) (\<lambda>k. into (readMessageId L) (\<lambda>m.
     into (readVarBytes L max_update_bytes False) (\<lambda>u. done_with (UpdateFrame g k m u)))))"

definition decodeAck :: "lib0 \<Rightarrow> board_frame reader" where
  "decodeAck L = into (readGeneration L) (\<lambda>g. into (readDocKey L) (\<lambda>k. into (readMessageId L) (\<lambda>m.
     into (readVarUint L max_safe_integer 1) (\<lambda>n. done_with (AckFrame g k m n)))))"

definition decodeAwareness :: "lib0 \<Rightarrow> board_frame reader" where
  "decodeAwareness L = into (readGeneration L) (\<lambda>g. into (readDocKey L) (\<lambda>k.
     into (readVarUint L max_awareness_client_id 0) (\<lambda>client.
     into (readVarBytes L max_awareness_bytes False) (\<lambda>u. done_with (AwarenessFrame g k client u)))))"

definition read_optional :: "bool \<Rightarrow> 'a reader \<Rightarrow> 'a option reader" where
  "read_optional present r = (if present then into r (\<lambda>v. done_with (Some v)) else done_with None)"

definition decodeControl :: "lib0 \<Rightarrow> board_frame reader" where
  "decodeControl L = into (readGeneration L) (\<lambda>g.
     into (readVarUint L 0xff 0) (\<lambda>code.
     if \<not> known_control_code code then refuse UnsupportedMessage
     else into (readUint8 L) (\<lambda>flags.
       if flags AND NOT control_known_flags \<noteq> 0 then refuse InvalidField
       else into (read_optional (flags AND control_has_doc_key \<noteq> 0) (readDocKey L)) (\<lambda>k.
         into (read_optional (flags AND control_has_message_id \<noteq> 0) (readMessageId L)) (\<lambda>m.
         into (readVarBytes L max_control_payload_bytes True) (\<lambda>p.
         done_with (ControlFrame g code k m p)))))))"

definition decodeChunk :: "lib0 \<Rightarrow> board_frame reader" where
  "decodeChunk L = into (readMessageId L) (\<lambda>m. into (readUint8 L) (\<lambda>inner.
     into (readVarUint L (max_chunk_count - 1) 0) (\<lambda>i.
     into (readVarUint L max_chunk_count 2) (\<lambda>n.
     into (readVarUint L max_reassembled_bytes 1) (\<lambda>len.
     into (readVarBytes L max_chunk_payload_bytes False) (\<lambda>p.
     let f = \<lparr> c_messageId = m, c_innerType = inner, c_chunkIndex = i, c_chunkCount = n,
               c_totalLength = len, c_payload = p \<rparr>
     in case assertChunk f of Inl e \<Rightarrow> refuse e | Inr _ \<Rightarrow> done_with (ChunkFrame f)))))))"

definition decode_body :: "lib0 \<Rightarrow> int \<Rightarrow> board_frame reader" where
  "decode_body L t =
     (if t = 1 then decodeAuth L else if t = 2 then decodeReady L
      else if t = 3 then decodeSyncStep1 L else if t = 4 then decodeSyncStep2 L
      else if t = 5 then decodeUpdate L else if t = 6 then decodeAck L
      else if t = 7 then decodeAwareness L else if t = 8 then decodeControl L
      else if t = 9 then decodeChunk L else refuse UnsupportedMessage)"

definition decodeBoardFrame :: "lib0 \<Rightarrow> byte list \<Rightarrow> board_frame checked" where
  "decodeBoardFrame L bytes =
     (if max_encoded_frame_bytes < length bytes then Inl FrameTooLarge
      else case into (readUint32BigEndian L) (\<lambda>magic.
             if magic \<noteq> protocol_magic then refuse InvalidMagic
             else into (readUint8 L) (\<lambda>version.
               if version \<noteq> board_version then refuse UnsupportedVersion
               else into (readUint8 L) (decode_body L))) bytes of
          Inl e \<Rightarrow> Inl e
        | Inr (f, rest) \<Rightarrow> if rest \<noteq> [] then Inl TrailingData else Inr f)"

end
