(* ===== verification/Board_Codec.thy ===== *)
theory Board_Codec
  imports Board_Decoder "HOL-Library.Sublist"
begin

text \<open>
  The board codec loses nothing: what it encodes it decodes, what it decodes has one encoding,
  up to a byte order mark that the text decoder drops. The laws of the byte library are
  hypotheses; a base-128 implementation shows that they can hold.
\<close>

section \<open>What the codec relies on\<close>

text \<open>
  What is used of lib0: bytes and 32-bit integers are written as they are; a safe integer that is
  written is read back, in as many bytes as it has base-128 digits; a safe integer that is read
  from that many bytes has no other bytes; an array is written and read as it is. Nothing is used
  of integers beyond \<open>Number.MAX_SAFE_INTEGER\<close>, where the reader of lib0 rounds.
\<close>

definition lib0_laws :: "lib0 \<Rightarrow> bool" where
  "lib0_laws L \<longleftrightarrow>
     (\<forall>n. 0 \<le> n \<and> n < 256 \<longrightarrow> lib_writeUint8 L n = [word_of_int n])
   \<and> (\<forall>b bs. lib_readUint8 L (b # bs) = (uint b, bs))
   \<and> (\<forall>n. 0 \<le> n \<and> n < 2 ^ 32 \<longrightarrow> length (lib_writeUint32BigEndian L n) = 4)
   \<and> (\<forall>n bs. 0 \<le> n \<and> n < 2 ^ 32 \<longrightarrow> lib_readUint32BigEndian L (lib_writeUint32BigEndian L n @ bs) = (n, bs))
   \<and> (\<forall>bs n rest. 4 \<le> length bs \<and> lib_readUint32BigEndian L bs = (n, rest)
        \<longrightarrow> bs = lib_writeUint32BigEndian L n @ rest)
   \<and> (\<forall>n bs. 0 \<le> n \<and> n \<le> max_safe_integer \<longrightarrow> lib_readVarUint L (lib_writeVarUint L n @ bs) = Some (n, bs)
        \<and> int (length (lib_writeVarUint L n)) = varUintEncodedLength n)
   \<and> (\<forall>bs n rest. lib_readVarUint L bs = Some (n, rest) \<and> 0 \<le> n \<and> n \<le> max_safe_integer
        \<and> int (length bs) - int (length rest) = varUintEncodedLength n \<longrightarrow> bs = lib_writeVarUint L n @ rest)
   \<and> (\<forall>b. lib_writeUint8Array L b = b)
   \<and> (\<forall>n bs. n \<le> length bs \<longrightarrow> lib_readUint8Array L n bs = (take n bs, drop n bs))"

section \<open>Writers and readers, one by one\<close>

lemma emit_Cons: "emit (w # ws) = Inr x \<longleftrightarrow> (\<exists>b bs. w = Inr b \<and> emit ws = Inr bs \<and> x = b @ bs)"
  by (cases w) (auto split: sum.splits)

declare emit.simps(2,3) [simp del]

lemma check_Inr: "check ok e = Inr b \<longleftrightarrow> ok \<and> b = []"
  by (auto simp: check_def)

lemmas assert_simps = assertSafeUint_def assertUint32_def assertBytes_def assertMessageId_def
  assertNoControlCharacters_def check_Inr emit_Cons

definition text_ok :: "nat \<Rightarrow> jstr \<Rightarrow> bool" where
  "text_ok mx s \<longleftrightarrow> bytes_between False mx (utf8_encode s) \<and> control_free s"

lemma encodeDocKey_Inr: "encodeDocKey k = Inr b \<longleftrightarrow> text_ok max_document_key_bytes k \<and> b = utf8_encode k"
  by (auto simp: encodeDocKey_def encodeUtf8_def Let_def text_ok_def assert_simps)

lemma encodeTicket_Inr: "encodeTicket t = Inr b \<longleftrightarrow> text_ok max_ticket_bytes t \<and> b = utf8_encode t"
  by (auto simp: encodeTicket_def encodeUtf8_def Let_def text_ok_def assert_simps)

lemma map_sum_Inr: "map_sum id f x = Inr b \<longleftrightarrow> (\<exists>a. x = Inr a \<and> b = f a)"
  by (cases x) auto

lemma writeGeneration_Inr:
  "writeGeneration L g = Inr b \<longleftrightarrow> safe_between 0 max_safe_integer g \<and> b = lib_writeVarUint L g"
  by (auto simp: writeGeneration_def assert_simps)

lemma writeDocKey_Inr:
  "writeDocKey L k = Inr b \<longleftrightarrow> text_ok max_document_key_bytes k \<and> b = writeVarBytes L (utf8_encode k)"
  by (auto simp: writeDocKey_def map_sum_Inr encodeDocKey_Inr)

lemma writeMessageId_Inr:
  "writeMessageId L m = Inr b \<longleftrightarrow> length m = message_id_bytes \<and> b = lib_writeUint8Array L m"
  by (auto simp: writeMessageId_def assert_simps)

lemma assertChunk_Inr:
  "assertChunk f = Inr b \<Longrightarrow> b = [] \<and> length (c_messageId f) = message_id_bytes
     \<and> (c_innerType f = 4 \<or> c_innerType f = 5) \<and> safe_between 2 max_chunk_count (c_chunkCount f)
     \<and> safe_between 0 (c_chunkCount f - 1) (c_chunkIndex f)
     \<and> safe_between 1 max_reassembled_bytes (c_totalLength f)
     \<and> bytes_between False max_chunk_payload_bytes (c_payload f)"
  by (auto simp: assertChunk_def assert_simps)

lemmas writer_simps = assert_simps writeGeneration_Inr writeDocKey_Inr writeMessageId_Inr map_sum_Inr encodeTicket_Inr

lemma into_Inr: "into r k bs = Inr x \<longleftrightarrow> (\<exists>v rest. r bs = Inr (v, rest) \<and> k v rest = Inr x)"
  by (auto simp: into_def split: sum.splits prod.splits)

lemma done_with_Inr: "done_with v bs = Inr (x, rest) \<longleftrightarrow> x = v \<and> rest = bs"
  by (auto simp: done_with_def)

lemma refuse_Inr [simp]: "refuse e bs \<noteq> Inr x"
  by (simp add: refuse_def)

lemma lib0_u8: "lib0_laws L \<Longrightarrow> 0 \<le> n \<Longrightarrow> n < 256 \<Longrightarrow> lib_writeUint8 L n = [word_of_int n]"
  and lib0_read_u8: "lib0_laws L \<Longrightarrow> lib_readUint8 L (b # bs) = (uint b, bs)"
  and lib0_u32: "lib0_laws L \<Longrightarrow> 0 \<le> n \<Longrightarrow> n < 2 ^ 32 \<Longrightarrow> length (lib_writeUint32BigEndian L n) = 4
    \<and> lib_readUint32BigEndian L (lib_writeUint32BigEndian L n @ bs) = (n, bs)"
  and lib0_read_u32: "lib0_laws L \<Longrightarrow> 4 \<le> length bs \<Longrightarrow> lib_readUint32BigEndian L bs = (n, rest)
    \<Longrightarrow> bs = lib_writeUint32BigEndian L n @ rest"
  and lib0_var: "lib0_laws L \<Longrightarrow> 0 \<le> n \<Longrightarrow> n \<le> max_safe_integer
    \<Longrightarrow> lib_readVarUint L (lib_writeVarUint L n @ bs) = Some (n, bs)
      \<and> int (length (lib_writeVarUint L n)) = varUintEncodedLength n"
  and lib0_read_var: "lib0_laws L \<Longrightarrow> lib_readVarUint L bs = Some (n, rest) \<Longrightarrow> 0 \<le> n
    \<Longrightarrow> n \<le> max_safe_integer \<Longrightarrow> int (length bs) - int (length rest) = varUintEncodedLength n \<Longrightarrow> bs = lib_writeVarUint L n @ rest"
  and lib0_array: "lib0_laws L \<Longrightarrow> lib_writeUint8Array L a = a"
  and lib0_read_array: "lib0_laws L \<Longrightarrow> m \<le> length bs \<Longrightarrow> lib_readUint8Array L m bs = (take m bs, drop m bs)"
  unfolding lib0_laws_def by blast+

text \<open>What is written is read back.\<close>

lemma into_read: "r bs = Inr (v, rest) \<Longrightarrow> into r k bs = k v rest"
  by (simp add: into_def)

lemma safe_betweenD: "safe_between mn mx v \<Longrightarrow> mn \<le> v \<and> v \<le> mx \<and> v \<le> max_safe_integer"
  by (simp add: safe_between_def abs_le_iff)

lemma safe_betweenI: "0 \<le> mn \<Longrightarrow> mn \<le> v \<Longrightarrow> v \<le> mx \<Longrightarrow> v \<le> max_safe_integer \<Longrightarrow> safe_between mn mx v"
  by (simp add: safe_between_def)

lemma read_var:
  "lib0_laws L \<Longrightarrow> 0 \<le> mn \<Longrightarrow> safe_between mn mx v \<Longrightarrow> readVarUint L mx mn (lib_writeVarUint L v @ rest) = Inr (v, rest)"
  using lib0_var [of L v rest] safe_betweenD [of mn mx v] by (simp add: readVarUint_def)

lemma read_bytes: "lib0_laws L \<Longrightarrow> readBytes L (length b) (b @ rest) = Inr (b, rest)"
  by (simp add: readBytes_def ensureRemaining_def lib0_read_array)

lemma read_var_bytes:
  assumes "lib0_laws L" "bytes_between e mx b" "int mx \<le> max_safe_integer"
  shows "readVarBytes L mx e (writeVarBytes L b @ rest) = Inr (b, rest)"
proof -
  have "safe_between (if e then 0 else 1) (int mx) (int (length b))"
    using assms(2,3) by (intro safe_betweenI) (auto simp: bytes_between_def Suc_le_eq)
  from read_var [OF assms(1) _ this] show ?thesis
    using assms(1) by (simp add: readVarBytes_def writeVarBytes_def into_def lib0_array read_bytes)
qed

text \<open>A text that survives the text decoder.\<close>

definition kept_text :: "jstr \<Rightarrow> bool" where
  "kept_text s \<longleftrightarrow> well_formed s \<and> \<not> starts_with_mark (utf8_encode s)"

lemma read_text:
  assumes "lib0_laws L" "text_ok mx s" "kept_text s" "int mx \<le> max_safe_integer"
  shows "readText L mx (writeVarBytes L (utf8_encode s) @ rest) = Inr (s, rest)"
  using assms read_var_bytes [OF assms(1) _ assms(4), of False "utf8_encode s" rest]
  by (simp add: readText_def readUtf8_def into_def text_ok_def kept_text_def utf8_decode_encode done_with_def)

lemma read_u8:
  "lib0_laws L \<Longrightarrow> 0 \<le> n \<Longrightarrow> n < 256 \<Longrightarrow> readUint8 L (lib_writeUint8 L n @ rest) = Inr (n, rest)"
  by (simp add: readUint8_def ensureRemaining_def lib0_u8 lib0_read_u8 uint_word_of_int take_bit_int_eq_self)

lemma read_u32:
  "lib0_laws L \<Longrightarrow> 0 \<le> n \<Longrightarrow> n < 2 ^ 32 \<Longrightarrow> readUint32BigEndian L (lib_writeUint32BigEndian L n @ rest) = Inr (n, rest)"
  using lib0_u32 [of L n rest] by (simp add: readUint32BigEndian_def ensureRemaining_def)

lemma read_message_id:
  "lib0_laws L \<Longrightarrow> length m = message_id_bytes \<Longrightarrow> readMessageId L (lib_writeUint8Array L m @ rest) = Inr (m, rest)"
  using read_bytes [of L m rest] by (simp add: readMessageId_def lib0_array)

text \<open>What is read was written.\<close>

lemma var_read:
  assumes "lib0_laws L" "0 \<le> mn" "readVarUint L mx mn bs = Inr (v, rest)"
  shows "safe_between mn mx v \<and> bs = lib_writeVarUint L v @ rest"
proof -
  from assms(3) have "lib_readVarUint L bs = Some (v, rest)" "safe_between mn mx v"
    "int (length bs) - int (length rest) = varUintEncodedLength v"
    by (auto simp: readVarUint_def split: option.splits if_splits)
  with lib0_read_var [OF assms(1), of bs v rest] assms(2) safe_betweenD [of mn mx v] show ?thesis by simp
qed

lemma bytes_read:
  assumes "lib0_laws L" "readBytes L n bs = Inr (b, rest)"
  shows "length b = n \<and> bs = b @ rest"
  using assms by (auto simp: readBytes_def ensureRemaining_def lib0_read_array split: if_splits)

lemma var_bytes_read:
  assumes "lib0_laws L" "readVarBytes L mx e bs = Inr (b, rest)"
  shows "bytes_between e mx b \<and> bs = writeVarBytes L b @ rest"
proof -
  from assms(2) obtain n rest' where n: "readVarUint L (int mx) (if e then 0 else 1) bs = Inr (n, rest')"
    and b: "readBytes L (nat n) rest' = Inr (b, rest)"
    by (auto simp: readVarBytes_def into_Inr)
  from var_read [OF assms(1) _ n] have "safe_between (if e then 0 else 1) (int mx) n" "bs = lib_writeVarUint L n @ rest'"
    by simp_all
  moreover from bytes_read [OF assms(1) b] have "length b = nat n" "rest' = b @ rest" by simp_all
  ultimately show ?thesis
    by (auto simp: bytes_between_def safe_between_def writeVarBytes_def lib0_array [OF assms(1)] split: if_splits)
qed

lemma text_read:
  assumes "lib0_laws L" "readText L mx bs = Inr (s, rest)"
  obtains b where "bs = writeVarBytes L b @ rest" "bytes_between False mx b" "utf8_decode b = Some s" "control_free s"
  using assms var_bytes_read [OF assms(1)]
  by (fastforce simp: readText_def readUtf8_def into_Inr done_with_Inr split: option.splits if_splits)

lemma u8_read:
  assumes "lib0_laws L" "readUint8 L bs = Inr (n, rest)"
  shows "0 \<le> n \<and> n < 256 \<and> bs = lib_writeUint8 L n @ rest"
proof (cases bs)
  case (Cons b bs')
  with assms have "n = uint b" "rest = bs'"
    by (auto simp: readUint8_def ensureRemaining_def lib0_read_u8 split: if_splits)
  moreover have "0 \<le> uint b" "uint b < 256" using uint_lt2p [of b] by simp_all
  ultimately show ?thesis using Cons assms(1) by (simp add: lib0_u8)
qed (use assms(2) in \<open>simp add: readUint8_def ensureRemaining_def\<close>)

lemma u32_read:
  assumes "lib0_laws L" "readUint32BigEndian L bs = Inr (n, rest)"
  shows "bs = lib_writeUint32BigEndian L n @ rest"
  using assms lib0_read_u32 by (auto simp: readUint32BigEndian_def ensureRemaining_def split: if_splits)

lemma message_id_read:
  "lib0_laws L \<Longrightarrow> readMessageId L bs = Inr (m, rest)
     \<Longrightarrow> length m = message_id_bytes \<and> bs = lib_writeUint8Array L m @ rest"
  by (auto simp: readMessageId_def lib0_array dest: bytes_read)

section \<open>Frames\<close>

lemma limits_safe [simp]:
  "int max_ticket_bytes \<le> max_safe_integer" "int max_document_key_bytes \<le> max_safe_integer"
  "int max_state_vector_bytes \<le> max_safe_integer" "int max_update_bytes \<le> max_safe_integer"
  "int max_awareness_bytes \<le> max_safe_integer" "int max_control_payload_bytes \<le> max_safe_integer"
  "int max_chunk_payload_bytes \<le> max_safe_integer"
  by (simp_all add: max_ticket_bytes_def max_document_key_bytes_def max_state_vector_bytes_def
      max_update_bytes_def max_awareness_bytes_def max_control_payload_bytes_def max_chunk_payload_bytes_def
      max_safe_integer_def)

text \<open>Texts of a frame that the text decoder keeps.\<close>

fun kept_frame :: "board_frame \<Rightarrow> bool" where
  "kept_frame (AuthFrame t g mn mx caps) = kept_text t"
| "kept_frame (ReadyFrame g schema caps client perms) = True"
| "kept_frame (SyncStep1Frame g k v) = kept_text k"
| "kept_frame (SyncStep2Frame g k u) = kept_text k"
| "kept_frame (UpdateFrame g k m u) = kept_text k"
| "kept_frame (AckFrame g k m n) = kept_text k"
| "kept_frame (AwarenessFrame g k client u) = kept_text k"
| "kept_frame (ControlFrame g code k m p) = (case k of None \<Rightarrow> True | Some s \<Rightarrow> kept_text s)"
| "kept_frame (ChunkFrame f) = True"

lemma read_generation:
  "lib0_laws L \<Longrightarrow> safe_between 0 max_safe_integer g \<Longrightarrow> into (readGeneration L) k (lib_writeVarUint L g @ rest) = k g rest"
  by (simp add: readGeneration_def into_read read_var)

lemma read_doc_key:
  "lib0_laws L \<Longrightarrow> text_ok max_document_key_bytes s \<Longrightarrow> kept_text s
     \<Longrightarrow> into (readDocKey L) k (writeVarBytes L (utf8_encode s) @ rest) = k s rest"
  by (simp add: readDocKey_def into_read read_text)

lemma into_var: "lib0_laws L \<Longrightarrow> 0 \<le> mn \<Longrightarrow> safe_between mn mx v
    \<Longrightarrow> into (readVarUint L mx mn) k (lib_writeVarUint L v @ rest) = k v rest"
  and into_last_var: "lib0_laws L \<Longrightarrow> 0 \<le> mn \<Longrightarrow> safe_between mn mx v
    \<Longrightarrow> into (readVarUint L mx mn) k (lib_writeVarUint L v) = k v []"
  using read_var [of L mn mx v rest] read_var [of L mn mx v "[]"] by (simp_all add: into_read)

lemma into_var_bytes: "lib0_laws L \<Longrightarrow> bytes_between e mx b \<Longrightarrow> int mx \<le> max_safe_integer
    \<Longrightarrow> into (readVarBytes L mx e) k (writeVarBytes L b @ rest) = k b rest"
  and into_last_var_bytes: "lib0_laws L \<Longrightarrow> bytes_between e mx b \<Longrightarrow> int mx \<le> max_safe_integer
    \<Longrightarrow> into (readVarBytes L mx e) k (writeVarBytes L b) = k b []"
  using read_var_bytes [of L e mx b rest] read_var_bytes [of L e mx b "[]"] by (simp_all add: into_read)

lemma into_text: "lib0_laws L \<Longrightarrow> text_ok max_ticket_bytes s \<Longrightarrow> kept_text s
    \<Longrightarrow> into (readText L max_ticket_bytes) k (writeVarBytes L (utf8_encode s)) = k s []"
  using read_text [of L max_ticket_bytes s "[]"] by (simp add: into_read)

lemma into_u8: "lib0_laws L \<Longrightarrow> 0 \<le> n \<Longrightarrow> n < 256
    \<Longrightarrow> into (readUint8 L) k (lib_writeUint8 L n @ rest) = k n rest"
  by (simp add: into_read read_u8)

lemma into_u32: "lib0_laws L \<Longrightarrow> 0 \<le> n \<Longrightarrow> n < 2 ^ 32
    \<Longrightarrow> into (readUint32BigEndian L) k (lib_writeUint32BigEndian L n @ rest) = k n rest"
  by (simp add: into_read read_u32)

lemma into_message_id: "lib0_laws L \<Longrightarrow> length m = message_id_bytes
    \<Longrightarrow> into (readMessageId L) k (lib_writeUint8Array L m @ rest) = k m rest"
  by (simp add: into_read read_message_id)

lemmas reading = read_generation read_doc_key into_var into_last_var into_var_bytes into_last_var_bytes
  into_text into_u8 into_message_id done_with_def

lemma control_flags_cases:
  "control_flags k m = (if k = None then 0 else 1) + (if m = None then 0 else 2)"
  by (simp add: control_flags_def control_has_doc_key_def control_has_message_id_def)

lemma control_flags_bits:
  "control_flags k m AND NOT control_known_flags = 0" "0 \<le> control_flags k m" "control_flags k m < 256"
  "control_flags k m AND control_has_doc_key \<noteq> 0 \<longleftrightarrow> k \<noteq> None"
  "control_flags k m AND control_has_message_id \<noteq> 0 \<longleftrightarrow> m \<noteq> None"
  unfolding control_flags_cases control_known_flags_def control_has_doc_key_def control_has_message_id_def
  by (cases k; cases m; simp)+

lemma into_done [simp]: "into (done_with v) k bs = k v bs"
  by (simp add: into_def done_with_def)

lemma into_Inr_step: "into (into r j) k bs = into r (\<lambda>v. into (j v) k) bs"
  by (auto simp: into_def split: sum.splits prod.splits)

lemma decode_encoded_body:
  assumes L: "lib0_laws L" and f: "encode_body L f = Inr bs" "kept_frame f"
  shows "decode_body L (frame_type f) bs = Inr (f, [])"
proof (cases f)
  case (AuthFrame t g mn mx caps)
  with f L show ?thesis
    by (auto simp: decode_body_def encodeAuth_def decodeAuth_def writer_simps reading)
next
  case (ReadyFrame g schema caps client perms)
  with f L show ?thesis
    by (auto simp: decode_body_def encodeReady_def decodeReady_def writer_simps reading)
next
  case (SyncStep1Frame g k v)
  with f L show ?thesis
    by (auto simp: decode_body_def encodeSyncStep1_def decodeSyncStep1_def writer_simps reading)
next
  case (SyncStep2Frame g k u)
  with f L show ?thesis
    by (auto simp: decode_body_def encodeSyncStep2_def decodeSyncStep2_def writer_simps reading)
next
  case (UpdateFrame g k m u)
  with f L show ?thesis
    by (auto simp: decode_body_def encodeUpdate_def decodeUpdate_def writer_simps reading)
next
  case (AckFrame g k m n)
  with f L show ?thesis
    by (auto simp: decode_body_def encodeAck_def decodeAck_def writer_simps reading)
next
  case (AwarenessFrame g k client u)
  with f L show ?thesis
    by (auto simp: decode_body_def encodeAwareness_def decodeAwareness_def writer_simps reading)
next
  case (ControlFrame g code k m p)
  have code: "known_control_code code \<Longrightarrow> safe_between 0 255 code"
    by (simp add: known_control_code_def safe_between_def max_safe_integer_def)
  show ?thesis
    using f L code unfolding ControlFrame
    by (cases k; cases m)
       (auto simp: decode_body_def encodeControl_def decodeControl_def writer_simps write_optional_def
          read_optional_def control_flags_bits reading into_Inr_step)
next
  case (ChunkFrame c)
  from f(1) obtain b where c: "assertChunk c = Inr b"
    by (cases "assertChunk c") (auto simp: ChunkFrame encodeChunk_def emit_Cons)
  note facts = assertChunk_Inr [OF c]
  then have index: "safe_between 0 (max_chunk_count - 1) (c_chunkIndex c)" "0 \<le> c_innerType c" "c_innerType c < 256"
    by (auto simp: safe_between_def)
  from f L c facts index show ?thesis
    unfolding ChunkFrame
    by (cases c) (auto simp: decode_body_def encodeChunk_def decodeChunk_def writer_simps Let_def reading)
qed

text \<open>A body the decoder accepts is the encoding of the frame, unless a text starts with a mark.\<close>

definition mark_free :: "byte list \<Rightarrow> bool" where
  "mark_free bs \<longleftrightarrow> \<not> sublist byte_order_mark bs"

lemma mark_free_append: "mark_free (a @ b) \<Longrightarrow> mark_free a \<and> mark_free b"
  unfolding mark_free_def by (metis sublist_append_leftI sublist_append_rightI sublist_order.order_trans)

lemma mark_free_start: "mark_free bs \<Longrightarrow> \<not> starts_with_mark bs"
proof
  assume "mark_free bs" "starts_with_mark bs"
  moreover have "sublist (take 3 bs) bs" by (rule sublist_take)
  ultimately show False by (simp add: mark_free_def starts_with_mark_def)
qed

lemma kept_text_read:
  assumes L: "lib0_laws L" and r: "readText L mx bs = Inr (s, rest)" and m: "mark_free bs"
  shows "text_ok mx s \<and> bs = writeVarBytes L (utf8_encode s) @ rest \<and> mark_free rest"
  using L r
proof (rule text_read)
  fix b assume b: "bs = writeVarBytes L b @ rest" "bytes_between False mx b" "utf8_decode b = Some s" "control_free s"
  have "mark_free b" "mark_free rest"
    using m b(1) L by (auto simp: writeVarBytes_def lib0_array dest!: mark_free_append)
  with utf8_decode_sound [OF b(3)] b mark_free_start show ?thesis by (auto simp: text_ok_def)
qed

lemma read_rest:
  "lib0_laws L \<Longrightarrow> 0 \<le> mn \<Longrightarrow> mark_free bs \<Longrightarrow> readVarUint L mx mn bs = Inr (v, rest)
     \<Longrightarrow> safe_between mn mx v \<and> bs = lib_writeVarUint L v @ rest \<and> mark_free rest"
  "lib0_laws L \<Longrightarrow> mark_free bs \<Longrightarrow> readVarBytes L n e bs = Inr (b, rest)
     \<Longrightarrow> bytes_between e n b \<and> bs = writeVarBytes L b @ rest \<and> mark_free rest"
  "lib0_laws L \<Longrightarrow> mark_free bs \<Longrightarrow> readMessageId L bs = Inr (m, rest)
     \<Longrightarrow> length m = message_id_bytes \<and> bs = lib_writeUint8Array L m @ rest \<and> mark_free rest"
  "lib0_laws L \<Longrightarrow> mark_free bs \<Longrightarrow> readUint8 L bs = Inr (v, rest)
     \<Longrightarrow> 0 \<le> v \<and> v < 256 \<and> bs = lib_writeUint8 L v @ rest \<and> mark_free rest"
  using var_read [of L mn mx bs v rest] var_bytes_read [of L n e bs b rest]
    message_id_read [of L bs m rest] u8_read [of L bs v rest] mark_free_append by blast+

lemma generation_read:
  "lib0_laws L \<Longrightarrow> mark_free bs \<Longrightarrow> readGeneration L bs = Inr (g, rest)
     \<Longrightarrow> safe_between 0 max_safe_integer g \<and> bs = lib_writeVarUint L g @ rest \<and> mark_free rest"
  unfolding readGeneration_def by (rule read_rest(1)) simp_all

lemma doc_key_read:
  "lib0_laws L \<Longrightarrow> mark_free bs \<Longrightarrow> readDocKey L bs = Inr (k, rest)
     \<Longrightarrow> text_ok max_document_key_bytes k \<and> bs = writeVarBytes L (utf8_encode k) @ rest \<and> mark_free rest"
  unfolding readDocKey_def by (rule kept_text_read) simp_all

lemma encode_decoded_auth:
  assumes L: "lib0_laws L" and m: "mark_free bs" and d: "decodeAuth L bs = Inr (f, [])"
  shows "frame_type f = 1 \<and> encode_body L f = Inr bs"
proof -
  from d obtain g r1 mn r2 mx r3 caps r4 t where
    1: "readGeneration L bs = Inr (g, r1)" and 2: "readVarUint L max_schema_version 1 r1 = Inr (mn, r2)"
    and 3: "readVarUint L max_schema_version 1 r2 = Inr (mx, r3)" and le: "mn \<le> mx"
    and 4: "readVarUint L 0xffffffff 0 r3 = Inr (caps, r4)" and 5: "readText L max_ticket_bytes r4 = Inr (t, [])"
    and f: "f = AuthFrame t g mn mx caps"
    by (auto simp: decodeAuth_def into_Inr done_with_Inr split: if_splits)
  show ?thesis
    using generation_read [OF L m 1] read_rest(1) [OF L _ _ 2] read_rest(1) [OF L _ _ 3]
      read_rest(1) [OF L _ _ 4] kept_text_read [OF L 5] le f
    by (auto simp: encodeAuth_def writer_simps)
qed

lemma encode_decoded_ready:
  assumes L: "lib0_laws L" and m: "mark_free bs" and d: "decodeReady L bs = Inr (f, [])"
  shows "frame_type f = 2 \<and> encode_body L f = Inr bs"
proof -
  from d obtain g r1 schema r2 caps r3 client r4 perms where
    1: "readGeneration L bs = Inr (g, r1)" and 2: "readVarUint L max_schema_version 1 r1 = Inr (schema, r2)"
    and 3: "readVarUint L 0xffffffff 0 r2 = Inr (caps, r3)"
    and 4: "readVarUint L max_awareness_client_id 0 r3 = Inr (client, r4)"
    and 5: "readVarUint L 0xff 0 r4 = Inr (perms, [])" and p: "perms AND permission_read \<noteq> 0"
    and f: "f = ReadyFrame g schema caps client perms"
    by (auto simp: decodeReady_def into_Inr done_with_Inr split: if_splits)
  show ?thesis
    using generation_read [OF L m 1] read_rest(1) [OF L _ _ 2] read_rest(1) [OF L _ _ 3]
      read_rest(1) [OF L _ _ 4] read_rest(1) [OF L _ _ 5] p f
    by (auto simp: encodeReady_def writer_simps)
qed

text \<open>The frames that start with a generation and a document key.\<close>

lemma keyed_read:
  assumes L: "lib0_laws L" and m: "mark_free bs"
    and d: "into (readGeneration L) (\<lambda>g. into (readDocKey L) (k g)) bs = Inr (f, [])"
  obtains g key rest where "writeGeneration L g = Inr (lib_writeVarUint L g)"
    "writeDocKey L key = Inr (writeVarBytes L (utf8_encode key))" "mark_free rest"
    "bs = lib_writeVarUint L g @ writeVarBytes L (utf8_encode key) @ rest" "k g key rest = Inr (f, [])"
proof -
  from d obtain g r1 key rest where "readGeneration L bs = Inr (g, r1)" "readDocKey L r1 = Inr (key, rest)"
    "k g key rest = Inr (f, [])"
    by (auto simp: into_Inr)
  with generation_read [OF L m] doc_key_read [OF L] that show thesis
    by (fastforce simp: writer_simps)
qed

lemma encode_decoded_step1:
  assumes L: "lib0_laws L" and m: "mark_free bs" and d: "decodeSyncStep1 L bs = Inr (f, [])"
  shows "frame_type f = 3 \<and> encode_body L f = Inr bs"
  using L m d [unfolded decodeSyncStep1_def]
proof (rule keyed_read)
  fix g key rest
  assume w: "writeGeneration L g = Inr (lib_writeVarUint L g)"
      "writeDocKey L key = Inr (writeVarBytes L (utf8_encode key))" "mark_free rest"
      "bs = lib_writeVarUint L g @ writeVarBytes L (utf8_encode key) @ rest"
    and "into (readVarBytes L max_state_vector_bytes False) (\<lambda>v. done_with (SyncStep1Frame g key v)) rest = Inr (f, [])"
  then obtain v where v: "readVarBytes L max_state_vector_bytes False rest = Inr (v, [])" "f = SyncStep1Frame g key v"
    by (auto simp: into_Inr done_with_Inr)
  show ?thesis
    using w read_rest(2) [OF L w(3) v(1)] v(2) by (simp add: encodeSyncStep1_def assert_simps)
qed

lemma encode_decoded_step2:
  assumes L: "lib0_laws L" and m: "mark_free bs" and d: "decodeSyncStep2 L bs = Inr (f, [])"
  shows "frame_type f = 4 \<and> encode_body L f = Inr bs"
  using L m d [unfolded decodeSyncStep2_def]
proof (rule keyed_read)
  fix g key rest
  assume w: "writeGeneration L g = Inr (lib_writeVarUint L g)"
      "writeDocKey L key = Inr (writeVarBytes L (utf8_encode key))" "mark_free rest"
      "bs = lib_writeVarUint L g @ writeVarBytes L (utf8_encode key) @ rest"
    and "into (readVarBytes L max_update_bytes False) (\<lambda>u. done_with (SyncStep2Frame g key u)) rest = Inr (f, [])"
  then obtain u where u: "readVarBytes L max_update_bytes False rest = Inr (u, [])" "f = SyncStep2Frame g key u"
    by (auto simp: into_Inr done_with_Inr)
  show ?thesis
    using w read_rest(2) [OF L w(3) u(1)] u(2) by (simp add: encodeSyncStep2_def assert_simps)
qed

lemma encode_decoded_update:
  assumes L: "lib0_laws L" and m: "mark_free bs" and d: "decodeUpdate L bs = Inr (f, [])"
  shows "frame_type f = 5 \<and> encode_body L f = Inr bs"
  using L m d [unfolded decodeUpdate_def]
proof (rule keyed_read)
  fix g key rest
  assume w: "writeGeneration L g = Inr (lib_writeVarUint L g)"
      "writeDocKey L key = Inr (writeVarBytes L (utf8_encode key))" "mark_free rest"
      "bs = lib_writeVarUint L g @ writeVarBytes L (utf8_encode key) @ rest"
    and "into (readMessageId L) (\<lambda>m. into (readVarBytes L max_update_bytes False)
        (\<lambda>u. done_with (UpdateFrame g key m u))) rest = Inr (f, [])"
  then obtain i r u where u: "readMessageId L rest = Inr (i, r)"
    "readVarBytes L max_update_bytes False r = Inr (u, [])" "f = UpdateFrame g key i u"
    by (auto simp: into_Inr done_with_Inr)
  show ?thesis
    using w read_rest(3) [OF L w(3) u(1)] read_rest(2) [OF L _ u(2)] u(3)
    by (simp add: encodeUpdate_def writeMessageId_Inr assert_simps)
qed

lemma encode_decoded_ack:
  assumes L: "lib0_laws L" and m: "mark_free bs" and d: "decodeAck L bs = Inr (f, [])"
  shows "frame_type f = 6 \<and> encode_body L f = Inr bs"
  using L m d [unfolded decodeAck_def]
proof (rule keyed_read)
  fix g key rest
  assume w: "writeGeneration L g = Inr (lib_writeVarUint L g)"
      "writeDocKey L key = Inr (writeVarBytes L (utf8_encode key))" "mark_free rest"
      "bs = lib_writeVarUint L g @ writeVarBytes L (utf8_encode key) @ rest"
    and "into (readMessageId L) (\<lambda>m. into (readVarUint L max_safe_integer 1)
        (\<lambda>n. done_with (AckFrame g key m n))) rest = Inr (f, [])"
  then obtain i r n where u: "readMessageId L rest = Inr (i, r)"
    "readVarUint L max_safe_integer 1 r = Inr (n, [])" "f = AckFrame g key i n"
    by (auto simp: into_Inr done_with_Inr)
  show ?thesis
    using w read_rest(3) [OF L w(3) u(1)] read_rest(1) [OF L _ _ u(2)] u(3)
    by (simp add: encodeAck_def writeMessageId_Inr assert_simps)
qed

lemma encode_decoded_awareness:
  assumes L: "lib0_laws L" and m: "mark_free bs" and d: "decodeAwareness L bs = Inr (f, [])"
  shows "frame_type f = 7 \<and> encode_body L f = Inr bs"
  using L m d [unfolded decodeAwareness_def]
proof (rule keyed_read)
  fix g key rest
  assume w: "writeGeneration L g = Inr (lib_writeVarUint L g)"
      "writeDocKey L key = Inr (writeVarBytes L (utf8_encode key))" "mark_free rest"
      "bs = lib_writeVarUint L g @ writeVarBytes L (utf8_encode key) @ rest"
    and "into (readVarUint L max_awareness_client_id 0) (\<lambda>client. into (readVarBytes L max_awareness_bytes False)
        (\<lambda>u. done_with (AwarenessFrame g key client u))) rest = Inr (f, [])"
  then obtain client r u where u: "readVarUint L max_awareness_client_id 0 rest = Inr (client, r)"
    "readVarBytes L max_awareness_bytes False r = Inr (u, [])" "f = AwarenessFrame g key client u"
    by (auto simp: into_Inr done_with_Inr)
  show ?thesis
    using w read_rest(1) [OF L _ w(3) u(1)] read_rest(2) [OF L _ u(2)] u(3)
    by (simp add: encodeAwareness_def assert_simps)
qed

lemma flags_small: "0 \<le> n \<Longrightarrow> n AND NOT control_known_flags = 0 \<Longrightarrow> n = 0 \<or> n = 1 \<or> n = 2 \<or> n = (3 :: int)"
proof -
  assume n: "0 \<le> n" "n AND NOT control_known_flags = 0"
  have "n = (n AND 3) OR (n AND NOT 3)" by (rule bit_eqI) (auto simp: bit_simps)
  with n(2) have "n = n AND 3"
    by (simp add: control_known_flags_def control_has_doc_key_def control_has_message_id_def)
  moreover have "n AND 3 = n mod 4"
    using take_bit_eq_mask [of 2 n] by (simp add: take_bit_eq_mod mask_eq_exp_minus_1)
  ultimately have "n < 4" using pos_mod_bound [of 4 n] by linarith
  with n(1) show ?thesis by linarith
qed

lemma optional_read:
  assumes "read_optional p r bs = Inr (x, rest)"
  shows "p = (x \<noteq> None)" "x = Some v \<Longrightarrow> r bs = Inr (v, rest)" "x = None \<Longrightarrow> bs = rest"
  using assms by (auto simp: read_optional_def into_Inr done_with_Inr split: if_splits)

lemma encode_decoded_control:
  assumes L: "lib0_laws L" and m: "mark_free bs" and d: "decodeControl L bs = Inr (f, [])"
  shows "frame_type f = 8 \<and> encode_body L f = Inr bs"
proof -
  from d obtain g r1 code r2 flags r3 k r4 i r5 p where
    1: "readGeneration L bs = Inr (g, r1)" and 2: "readVarUint L 0xff 0 r1 = Inr (code, r2)"
    and code: "known_control_code code" and 3: "readUint8 L r2 = Inr (flags, r3)"
    and fl: "flags AND NOT control_known_flags = 0"
    and 4: "read_optional (flags AND control_has_doc_key \<noteq> 0) (readDocKey L) r3 = Inr (k, r4)"
    and 5: "read_optional (flags AND control_has_message_id \<noteq> 0) (readMessageId L) r4 = Inr (i, r5)"
    and 6: "readVarBytes L max_control_payload_bytes True r5 = Inr (p, [])"
    and f: "f = ControlFrame g code k i p"
    by (auto simp: decodeControl_def into_Inr done_with_Inr split: if_splits)
  note a = generation_read [OF L m 1]
  then have b: "safe_between 0 255 code \<and> r1 = lib_writeVarUint L code @ r2 \<and> mark_free r2"
    using read_rest(1) [OF L _ _ 2] by simp
  then have c: "0 \<le> flags \<and> flags < 256 \<and> r2 = lib_writeUint8 L flags @ r3 \<and> mark_free r3"
    using read_rest(4) [OF L _ 3] by simp
  have k: "\<exists>w. write_optional (writeDocKey L) k = Inr w \<and> r3 = w @ r4 \<and> mark_free r4"
    using optional_read(2,3) [OF 4] c doc_key_read [OF L, of r3 _ r4]
    by (cases k) (auto simp: write_optional_def writeDocKey_Inr)
  then have i: "\<exists>w. write_optional (writeMessageId L) i = Inr w \<and> r4 = w @ r5 \<and> mark_free r5"
    using optional_read(2,3) [OF 5] read_rest(3) [OF L, of r4 _ r5]
    by (cases i) (auto simp: write_optional_def writeMessageId_Inr)
  have flags: "control_flags k i = flags"
    using flags_small [of flags] c fl optional_read(1) [OF 4] optional_read(1) [OF 5]
    unfolding control_flags_cases control_has_doc_key_def control_has_message_id_def by auto
  have p: "bytes_between True max_control_payload_bytes p \<and> r5 = writeVarBytes L p"
    using i read_rest(2) [OF L _ 6] by auto
  from a b c k i p code show ?thesis
    unfolding f by (auto simp: encodeControl_def writer_simps flags)
qed

lemma refused_or_done:
  "(case x of Inl e \<Rightarrow> refuse e | Inr b \<Rightarrow> done_with v) bs = Inr (y, rest) \<longleftrightarrow> (\<exists>b. x = Inr b) \<and> y = v \<and> rest = bs"
  by (auto simp: done_with_def split: sum.splits)

lemma encode_decoded_chunk:
  assumes L: "lib0_laws L" and m: "mark_free bs" and d: "decodeChunk L bs = Inr (f, [])"
  shows "frame_type f = 9 \<and> encode_body L f = Inr bs"
proof -
  from d obtain i r1 inner r2 x r3 n r4 len r5 p b where
    1: "readMessageId L bs = Inr (i, r1)" and 2: "readUint8 L r1 = Inr (inner, r2)"
    and 3: "readVarUint L (max_chunk_count - 1) 0 r2 = Inr (x, r3)" and 4: "readVarUint L max_chunk_count 2 r3 = Inr (n, r4)"
    and 5: "readVarUint L max_reassembled_bytes 1 r4 = Inr (len, r5)"
    and 6: "readVarBytes L max_chunk_payload_bytes False r5 = Inr (p, [])"
    and f: "f = ChunkFrame \<lparr> c_messageId = i, c_innerType = inner, c_chunkIndex = x, c_chunkCount = n,
               c_totalLength = len, c_payload = p \<rparr>"
    and b: "assertChunk \<lparr> c_messageId = i, c_innerType = inner, c_chunkIndex = x, c_chunkCount = n,
               c_totalLength = len, c_payload = p \<rparr> = Inr b"
    by (auto simp: decodeChunk_def into_Inr refused_or_done Let_def)
  have "b = []" using assertChunk_Inr [OF b] by simp
  then show ?thesis
    using read_rest(3) [OF L m 1] read_rest(4) [OF L _ 2] read_rest(1) [OF L _ _ 3] read_rest(1) [OF L _ _ 4]
      read_rest(1) [OF L _ _ 5] read_rest(2) [OF L _ 6] b f
    by (auto simp: encodeChunk_def writer_simps)
qed

lemma encode_decoded_body:
  assumes "lib0_laws L" "mark_free bs" "decode_body L t bs = Inr (f, [])"
  shows "frame_type f = t \<and> encode_body L f = Inr bs"
proof -
  from assms(3) consider "t = 1" "decodeAuth L bs = Inr (f, [])" | "t = 2" "decodeReady L bs = Inr (f, [])"
    | "t = 3" "decodeSyncStep1 L bs = Inr (f, [])" | "t = 4" "decodeSyncStep2 L bs = Inr (f, [])"
    | "t = 5" "decodeUpdate L bs = Inr (f, [])" | "t = 6" "decodeAck L bs = Inr (f, [])"
    | "t = 7" "decodeAwareness L bs = Inr (f, [])" | "t = 8" "decodeControl L bs = Inr (f, [])"
    | "t = 9" "decodeChunk L bs = Inr (f, [])"
    unfolding decode_body_def by (simp split: if_splits)
  then show ?thesis
    using encode_decoded_auth [OF assms(1,2)] encode_decoded_ready [OF assms(1,2)]
      encode_decoded_step1 [OF assms(1,2)] encode_decoded_step2 [OF assms(1,2)]
      encode_decoded_update [OF assms(1,2)] encode_decoded_ack [OF assms(1,2)]
      encode_decoded_awareness [OF assms(1,2)] encode_decoded_control [OF assms(1,2)]
      encode_decoded_chunk [OF assms(1,2)]
    by cases blast+
qed

section \<open>The codec\<close>

lemma frame_type_range: "1 \<le> frame_type f \<and> frame_type f \<le> 9"
  by (cases f) simp_all

lemma read_header:
  assumes "lib0_laws L"
  shows "into (readUint32BigEndian L) (\<lambda>magic.
             if magic \<noteq> protocol_magic then refuse InvalidMagic
             else into (readUint8 L) (\<lambda>version.
               if version \<noteq> board_version then refuse UnsupportedVersion
               else into (readUint8 L) (decode_body L))) (writeHeader L (frame_type f) @ bs)
    = decode_body L (frame_type f) bs"
  using assms frame_type_range [of f]
  by (simp add: writeHeader_def into_u32 into_u8 protocol_magic_def board_version_def)

lemma encode_frame_eq:
  "encodeBoardFrame L f = (case encode_body L f of Inl e \<Rightarrow> Inl e
     | Inr b \<Rightarrow> if max_encoded_frame_bytes < length (writeHeader L (frame_type f) @ b) then Inl FrameTooLarge
         else Inr (writeHeader L (frame_type f) @ b))"
  by (cases "encode_body L f") (simp_all add: encodeBoardFrame_def emit.simps)

text \<open>
  C35. What the codec encodes it decodes to the same frame, for every frame whose texts have no lone
  surrogate and do not start with a byte order mark (\<open>kept_frame\<close>).
\<close>

theorem board_frame_roundtrip:
  assumes "lib0_laws L" "encodeBoardFrame L f = Inr bs" "kept_frame f"
  shows "decodeBoardFrame L bs = Inr f"
proof -
  from assms(2) obtain body where b: "encode_body L f = Inr body" "bs = writeHeader L (frame_type f) @ body"
    "length bs \<le> max_encoded_frame_bytes"
    unfolding encode_frame_eq by (auto split: sum.splits if_splits)
  with read_header [OF assms(1), of f body] decode_encoded_body [OF assms(1) b(1) assms(3)] show ?thesis
    by (simp add: decodeBoardFrame_def)
qed

text \<open>
  C36. A frame has one encoding: bytes that decode to a frame are exactly what the encoder gives
  for it, unless the three bytes of a byte order mark occur in them (\<open>mark_free\<close>).
\<close>

theorem board_frame_is_canonical:
  assumes L: "lib0_laws L" and d: "decodeBoardFrame L bs = Inr f" and m: "mark_free bs"
  shows "encodeBoardFrame L f = Inr bs"
proof -
  from d have len: "length bs \<le> max_encoded_frame_bytes"
    by (auto simp: decodeBoardFrame_def split: if_splits)
  from d obtain r1 r2 t r3 where
    1: "readUint32BigEndian L bs = Inr (protocol_magic, r1)" and 2: "readUint8 L r1 = Inr (board_version, r2)"
    and 3: "readUint8 L r2 = Inr (t, r3)" and b: "decode_body L t r3 = Inr (f, [])"
    by (auto simp: decodeBoardFrame_def into_Inr split: if_splits sum.splits)
  have a: "bs = lib_writeUint32BigEndian L protocol_magic @ r1" by (rule u32_read [OF L 1])
  then have "mark_free r1" using m mark_free_append by blast
  note b1 = read_rest(4) [OF L this 2]
  then have "mark_free r2" by blast
  note b2 = read_rest(4) [OF L this 3]
  then have "mark_free r3" by blast
  from encode_decoded_body [OF L this b] have "frame_type f = t" "encode_body L f = Inr r3" by simp_all
  moreover from a b1 b2 have "bs = writeHeader L t @ r3" by (simp add: writeHeader_def)
  ultimately show ?thesis using len by (simp add: encode_frame_eq)
qed

text \<open>
  A byte order mark at the start of a document key is lost on the wire: the acknowledgement
  of the document named \<open>U+FEFF k\<close> is decoded as one of the document named \<open>k\<close>.
\<close>

theorem board_frame_loses_leading_mark:
  assumes L: "lib0_laws L" and e: "encodeBoardFrame L (AckFrame g (0xfeff # k) m n) = Inr bs" and k: "well_formed k"
  shows "decodeBoardFrame L bs = Inr (AckFrame g k m n)"
proof -
  have "take 3 (utf8_encode (0xfeff # k)) = byte_order_mark" unfolding utf8_mark by (simp add: byte_order_mark_def)
  from e obtain body where b: "encodeAck L g (0xfeff # k) m n = Inr body"
    "bs = writeHeader L 6 @ body" "length bs \<le> max_encoded_frame_bytes"
    unfolding encode_frame_eq by (auto split: sum.splits if_splits)
  then have facts: "safe_between 0 max_safe_integer g" "text_ok max_document_key_bytes (0xfeff # k)"
    "length m = message_id_bytes" "safe_between 1 max_safe_integer n"
    and body: "body = lib_writeVarUint L g @ writeVarBytes L (utf8_encode (0xfeff # k))
      @ lib_writeUint8Array L m @ lib_writeVarUint L n"
    by (auto simp: encodeAck_def writer_simps)
  have "readDocKey L (writeVarBytes L (utf8_encode (0xfeff # k)) @ rest) = Inr (k, rest)" for rest
    using facts(2) read_var_bytes [OF L, of False max_document_key_bytes "utf8_encode (0xfeff # k)" rest] k
    by (simp add: readDocKey_def readText_def readUtf8_def into_read text_ok_def utf8_decode_mark done_with_def
        control_free_def)
  then have "decode_body L 6 body = Inr (AckFrame g k m n, [])"
    using facts L unfolding body
    by (simp add: decode_body_def decodeAck_def reading into_read [of "readDocKey L"])
  moreover have "frame_type (AckFrame g k m n) = 6" by simp
  note read_header [OF L, of "AckFrame g k m n" body, unfolded this]
  ultimately show ?thesis using b(2,3) by (simp add: decodeBoardFrame_def)
qed

section \<open>Message identifiers as text\<close>

lemma id_digit_value_digit: "n < 16 \<Longrightarrow> id_digit_value (id_digit n) = Some n"
  by (auto simp: id_digit_def id_digit_value_def in_range_def word_le_nat_alt)

lemma id_bytes_hex: "id_bytes (concat (map (\<lambda>b. [id_digit (unat b div 16), id_digit (unat b mod 16)]) m)) = Some m"
proof (induction m)
  case (Cons b m)
  have "unat b div 16 < 16" using byte_less [of b] by (simp add: less_mult_imp_div_less)
  with Cons show ?case by (simp add: id_digit_value_digit)
qed simp

lemma hex_length: "length (concat (map (\<lambda>b. [f b, g b]) m)) = 2 * length m"
  by (induction m) simp_all

text \<open>A message identifier written as 32 hexadecimal digits is read back as it was.\<close>

theorem message_id_hex_roundtrip:
  "messageIdToHex m = Inr h \<Longrightarrow> messageIdFromHex h = Inr m"
  by (auto simp: messageIdToHex_def messageIdFromHex_def assertMessageId_def check_def message_id_bytes_def
      id_bytes_hex hex_length split: if_splits)

end
