(* ===== verification/Board_Chunks.thy ===== *)
theory Board_Chunks
  imports Board_Codec
begin

text \<open>
  Large board frames travel in chunks. \<open>sendFrame\<close> of \<open>src/server/board-v2/sync-transport.ts\<close> and
  of \<open>src/client/board/networkProvider.ts\<close> cut them, \<open>ChunkReassembler\<close> of the server and
  \<open>handleChunk\<close> of the client put them together. The index of a chunk is below its count, and the
  identifier has 16 bytes, because the decoder refuses any other chunk.
\<close>

section \<open>Cutting\<close>

definition chunk_count :: "byte list \<Rightarrow> int" where
  "chunk_count encoded = (int (length encoded) + int max_chunk_payload_bytes - 1) div int max_chunk_payload_bytes"

definition chunk_payload :: "byte list \<Rightarrow> nat \<Rightarrow> byte list" where
  "chunk_payload encoded i =
     (let start = i * max_chunk_payload_bytes; stop = min (length encoded) (start + max_chunk_payload_bytes)
      in take (stop - start) (drop start encoded))"

definition chunk_of :: "byte list \<Rightarrow> int \<Rightarrow> byte list \<Rightarrow> nat \<Rightarrow> chunk_frame" where
  "chunk_of ident inner encoded i =
     \<lparr> c_messageId = ident, c_innerType = inner, c_chunkIndex = int i, c_chunkCount = chunk_count encoded,
       c_totalLength = int (length encoded), c_payload = chunk_payload encoded i \<rparr>"

definition chunks_of :: "byte list \<Rightarrow> int \<Rightarrow> byte list \<Rightarrow> chunk_frame list" where
  "chunks_of ident inner encoded = map (chunk_of ident inner encoded) [0..<nat (chunk_count encoded)]"

text \<open>\<open>BoardCapability.CHUNKING\<close>, the types of the frames that may be cut.\<close>

definition chunking_capability :: int where "chunking_capability = 1"

definition chunkable :: "board_frame \<Rightarrow> bool" where
  "chunkable f \<longleftrightarrow> frame_type f = 4 \<or> frame_type f = 5"

text \<open>
  What a sender does with a frame: the encoder's error is thrown, a refusal ends the connection
  (server) or is thrown (client), otherwise the encodings are sent in order. \<open>caps\<close> are the
  capabilities of an authenticated connection, \<open>ident\<close> the random identifier of the chunks.
\<close>

datatype send_refusal = NotChunkable | ChunkingNotNegotiated | TooManyChunks

type_synonym send_plan = "(send_refusal + byte list list) checked"

fun encode_all :: "lib0 \<Rightarrow> board_frame list \<Rightarrow> byte list list checked" where
  "encode_all L [] = Inr []"
| "encode_all L (f # fs) =
     (case encodeBoardFrame L f of Inl e \<Rightarrow> Inl e
      | Inr b \<Rightarrow> (case encode_all L fs of Inl e \<Rightarrow> Inl e | Inr bs \<Rightarrow> Inr (b # bs)))"

definition send_chunks :: "lib0 \<Rightarrow> byte list \<Rightarrow> board_frame \<Rightarrow> byte list \<Rightarrow> send_plan" where
  "send_chunks L ident f encoded =
     (if max_chunk_count < chunk_count encoded then Inr (Inl TooManyChunks)
      else map_sum id Inr (encode_all L (map ChunkFrame (chunks_of ident (frame_type f) encoded))))"

definition negotiated :: "int option \<Rightarrow> bool" where
  "negotiated caps \<longleftrightarrow> (case caps of None \<Rightarrow> False | Some c \<Rightarrow> c AND chunking_capability \<noteq> 0)"

definition server_plan :: "lib0 \<Rightarrow> int option \<Rightarrow> byte list \<Rightarrow> board_frame \<Rightarrow> send_plan" where
  "server_plan L caps ident f =
     (case encodeBoardFrame L f of Inl e \<Rightarrow> Inl e
      | Inr encoded \<Rightarrow>
          if length encoded \<le> max_chunk_payload_bytes \<or> frame_type f = 9 then Inr (Inr [encoded])
          else if \<not> chunkable f then Inr (Inl NotChunkable)
          else if \<not> negotiated caps then Inr (Inl ChunkingNotNegotiated)
          else send_chunks L ident f encoded)"

definition client_plan :: "lib0 \<Rightarrow> int \<Rightarrow> byte list \<Rightarrow> board_frame \<Rightarrow> send_plan" where
  "client_plan L caps ident f =
     (case encodeBoardFrame L f of Inl e \<Rightarrow> Inl e
      | Inr encoded \<Rightarrow>
          if \<not> chunkable f \<or> length encoded \<le> max_chunk_payload_bytes then Inr (Inr [encoded])
          else if caps AND chunking_capability = 0 then Inr (Inl ChunkingNotNegotiated)
          else send_chunks L ident f encoded)"

section \<open>Putting together\<close>

record chunk_assembly =
  a_innerType :: int
  a_chunkCount :: int
  a_totalLength :: int
  a_chunks :: "byte list option list"
  a_receivedBytes :: int

datatype chunk_error = TooManyAssemblies | MetadataChanged | ConflictingDuplicate | ResourceLimits
  | LengthMismatch | TypeMismatch | BadFrame board_error

type_synonym assemblies = "(jstr \<times> chunk_assembly) list"

definition new_assembly :: "chunk_frame \<Rightarrow> chunk_assembly" where
  "new_assembly f = \<lparr> a_innerType = c_innerType f, a_chunkCount = c_chunkCount f, a_totalLength = c_totalLength f,
     a_chunks = replicate (nat (c_chunkCount f)) None, a_receivedBytes = 0 \<rparr>"

definition same_metadata :: "chunk_assembly \<Rightarrow> chunk_frame \<Rightarrow> bool" where
  "same_metadata a f \<longleftrightarrow> a_innerType a = c_innerType f \<and> a_chunkCount a = c_chunkCount f
     \<and> a_totalLength a = c_totalLength f"

definition add_chunk :: "chunk_frame \<Rightarrow> chunk_assembly \<Rightarrow> chunk_assembly" where
  "add_chunk f a = a \<lparr> a_chunks := (a_chunks a)[nat (c_chunkIndex f) := Some (c_payload f)],
     a_receivedBytes := a_receivedBytes a + int (length (c_payload f)) \<rparr>"

definition assembled :: "chunk_assembly \<Rightarrow> byte list" where
  "assembled a = concat (map the (a_chunks a))"

text \<open>The frame in the bytes put together.\<close>

definition inner_frame :: "lib0 \<Rightarrow> chunk_assembly \<Rightarrow> chunk_error + board_frame" where
  "inner_frame L a =
     (case decodeBoardFrame L (assembled a) of Inl e \<Rightarrow> Inl (BadFrame e)
      | Inr f \<Rightarrow> if frame_type f \<noteq> a_innerType a then Inl TypeMismatch else Inr f)"

text \<open>A map as a list of entries in insertion order: an entry replaced keeps its place.\<close>

definition put_assembly :: "jstr \<Rightarrow> chunk_assembly \<Rightarrow> assemblies \<Rightarrow> assemblies" where
  "put_assembly k a xs =
     (if map_of xs k = None then xs @ [(k, a)] else map (\<lambda>(k', b). (k', if k' = k then a else b)) xs)"

definition drop_assembly :: "jstr \<Rightarrow> assemblies \<Rightarrow> assemblies" where
  "drop_assembly k xs = filter (\<lambda>(k', b). k' \<noteq> k) xs"

section \<open>The server\<close>

definition max_active_assemblies :: nat where "max_active_assemblies = 2"
definition max_buffered_chunk_bytes :: int where
  "max_buffered_chunk_bytes = max_reassembled_bytes * int max_active_assemblies"

record reassembler =
  active :: assemblies
  bufferedBytes :: int

definition new_reassembler :: reassembler where
  "new_reassembler = \<lparr> active = [], bufferedBytes = 0 \<rparr>"

text \<open>Storing a chunk in its assembly; the state is changed even where an error is thrown.\<close>

definition push_into :: "lib0 \<Rightarrow> jstr \<Rightarrow> chunk_frame \<Rightarrow> chunk_assembly \<Rightarrow> reassembler
    \<Rightarrow> (chunk_error + byte list option) \<times> reassembler" where
  "push_into L key f a r =
     (case a_chunks a ! nat (c_chunkIndex f) of
        Some existing \<Rightarrow> (if existing \<noteq> c_payload f then Inl ConflictingDuplicate else Inr None, r)
      | None \<Rightarrow>
          let a' = add_chunk f a;
              r' = r \<lparr> active := put_assembly key a' (active r),
                       bufferedBytes := bufferedBytes r + int (length (c_payload f)) \<rparr>
          in if a_totalLength a' < a_receivedBytes a' \<or> max_buffered_chunk_bytes < bufferedBytes r'
             then (Inl ResourceLimits, r')
             else if None \<in> set (a_chunks a') then (Inr None, r')
             else if a_receivedBytes a' \<noteq> a_totalLength a' then (Inl LengthMismatch, r')
             else (map_sum id (\<lambda>_. Some (assembled a')) (inner_frame L a'),
                   r' \<lparr> active := drop_assembly key (active r'),
                        bufferedBytes := bufferedBytes r' - a_receivedBytes a' \<rparr>))"

definition push :: "lib0 \<Rightarrow> chunk_frame \<Rightarrow> reassembler \<Rightarrow> (chunk_error + byte list option) \<times> reassembler" where
  "push L f r =
     (case messageIdToHex (c_messageId f) of Inl e \<Rightarrow> (Inl (BadFrame e), r)
      | Inr key \<Rightarrow>
          (case map_of (active r) key of
             None \<Rightarrow>
               if max_active_assemblies \<le> length (active r) then (Inl TooManyAssemblies, r)
               else let a = new_assembly f in push_into L key f a (r \<lparr> active := put_assembly key a (active r) \<rparr>)
           | Some a \<Rightarrow> if \<not> same_metadata a f then (Inl MetadataChanged, r) else push_into L key f a r))"

text \<open>The timer of an assembly.\<close>

definition assembly_expires :: "jstr \<Rightarrow> reassembler \<Rightarrow> reassembler" where
  "assembly_expires key r =
     (case map_of (active r) key of None \<Rightarrow> r
      | Some a \<Rightarrow> r \<lparr> bufferedBytes := bufferedBytes r - a_receivedBytes a, active := drop_assembly key (active r) \<rparr>)"

section \<open>The client\<close>

definition max_chunk_assemblies :: nat where "max_chunk_assemblies = 8"

definition handle_into :: "lib0 \<Rightarrow> jstr \<Rightarrow> chunk_frame \<Rightarrow> chunk_assembly \<Rightarrow> assemblies
    \<Rightarrow> (chunk_error + board_frame option) \<times> assemblies" where
  "handle_into L key f a xs =
     (case a_chunks a ! nat (c_chunkIndex f) of
        Some existing \<Rightarrow> (if existing \<noteq> c_payload f then Inl ConflictingDuplicate else Inr None, xs)
      | None \<Rightarrow>
          let a' = add_chunk f a; xs' = put_assembly key a' xs
          in if None \<in> set (a_chunks a') then (Inr None, xs')
             else if a_receivedBytes a' \<noteq> a_totalLength a' then (Inl LengthMismatch, xs')
             else (map_sum id Some (inner_frame L a'), drop_assembly key xs'))"

text \<open>The frame to handle, where a chunk completes one.\<close>

definition handleChunk :: "lib0 \<Rightarrow> chunk_frame \<Rightarrow> assemblies \<Rightarrow> (chunk_error + board_frame option) \<times> assemblies" where
  "handleChunk L f xs =
     (case messageIdToHex (c_messageId f) of Inl e \<Rightarrow> (Inl (BadFrame e), xs)
      | Inr key \<Rightarrow>
          (case map_of xs key of
             None \<Rightarrow>
               if max_chunk_assemblies \<le> length xs then (Inl TooManyAssemblies, xs)
               else let a = new_assembly f in handle_into L key f a (put_assembly key a xs)
           | Some a \<Rightarrow> if \<not> same_metadata a f then (Inl MetadataChanged, xs) else handle_into L key f a xs))"

end
