(* ===== verification/Chunk_Reassembly.thy ===== *)
theory Chunk_Reassembly
  imports Board_Chunks
begin

text \<open>
  The contract of a reassembler and what follows from it: the chunks of a frame, in any order and
  repeated, between any accepted chunks of other frames, give the frame. The server and the client
  both keep it.
\<close>

section \<open>The pieces of a frame\<close>

lemma chunk_size_pos [simp]: "0 < max_chunk_payload_bytes"
  by (simp add: max_chunk_payload_bytes_def)

definition piece_count :: "byte list \<Rightarrow> nat" where
  "piece_count encoded = nat (chunk_count encoded)"

lemma piece_count_eq:
  "piece_count encoded = (length encoded + max_chunk_payload_bytes - 1) div max_chunk_payload_bytes"
proof -
  have "int (length encoded) + int max_chunk_payload_bytes - 1 = int (length encoded + max_chunk_payload_bytes - 1)"
    using chunk_size_pos by linarith
  then show ?thesis by (simp only: piece_count_def chunk_count_def zdiv_int [symmetric] nat_int)
qed

lemma chunk_count_nonneg [simp]: "int (piece_count encoded) = chunk_count encoded"
proof -
  have "0 \<le> int (length encoded) + int max_chunk_payload_bytes - 1" using chunk_size_pos by linarith
  then have "0 \<le> chunk_count encoded"
    unfolding chunk_count_def by (rule pos_imp_zdiv_nonneg_iff [THEN iffD2, rotated]) simp
  then show ?thesis by (simp add: piece_count_def)
qed

lemma pieces_cover: "length encoded \<le> piece_count encoded * max_chunk_payload_bytes"
proof -
  define m where "m = length encoded + max_chunk_payload_bytes - 1"
  have "m mod max_chunk_payload_bytes < max_chunk_payload_bytes" by simp
  moreover have "piece_count encoded * max_chunk_payload_bytes + m mod max_chunk_payload_bytes = m"
    unfolding piece_count_eq m_def by simp
  ultimately show ?thesis using chunk_size_pos unfolding m_def by linarith
qed

lemma piece_start: "i < piece_count encoded \<Longrightarrow> i * max_chunk_payload_bytes < length encoded"
proof -
  assume "i < piece_count encoded"
  then have "Suc i \<le> (length encoded + max_chunk_payload_bytes - 1) div max_chunk_payload_bytes"
    by (simp add: piece_count_eq)
  then have "Suc i * max_chunk_payload_bytes \<le> length encoded + max_chunk_payload_bytes - 1"
    by (simp add: less_eq_div_iff_mult_less_eq)
  then have "Suc (i * max_chunk_payload_bytes) \<le> length encoded"
    using chunk_size_pos unfolding mult_Suc by linarith
  then show ?thesis by simp
qed

lemma chunk_payload_take:
  "chunk_payload encoded i = take max_chunk_payload_bytes (drop (i * max_chunk_payload_bytes) encoded)"
  by (auto simp: chunk_payload_def Let_def min_def)

lemma concat_pieces:
  "concat (map (\<lambda>i. take m (drop (i * m) xs)) [0..<n]) = take (n * m) xs"
  by (induction n) (simp_all add: take_add [symmetric] add.commute)

lemma pieces_concat: "concat (map (chunk_payload encoded) [0..<piece_count encoded]) = encoded"
  using concat_pieces [of max_chunk_payload_bytes encoded "piece_count encoded"] pieces_cover [of encoded]
  by (simp add: chunk_payload_take cong: map_cong)

lemma sum_pieces: "(\<Sum>i<piece_count encoded. int (length (chunk_payload encoded i))) = int (length encoded)"
proof -
  have "(\<Sum>i<n. int (length (f i))) = int (length (concat (map f [0..<n])))" for n and f :: "nat \<Rightarrow> byte list"
    by (induction n) simp_all
  then show ?thesis by (simp add: pieces_concat)
qed

text \<open>The assembly that holds the pieces with index in \<open>J\<close>.\<close>

definition holding :: "int \<Rightarrow> byte list \<Rightarrow> nat set \<Rightarrow> chunk_assembly" where
  "holding inner encoded J =
     \<lparr> a_innerType = inner, a_chunkCount = chunk_count encoded, a_totalLength = int (length encoded),
       a_chunks = map (\<lambda>i. if i \<in> J then Some (chunk_payload encoded i) else None) [0..<piece_count encoded],
       a_receivedBytes = (\<Sum>i\<in>J. int (length (chunk_payload encoded i))) \<rparr>"

lemma holding_nothing: "new_assembly (chunk_of ident inner encoded i) = holding inner encoded {}"
  by (simp add: new_assembly_def chunk_of_def holding_def piece_count_def map_replicate_const)

lemma holding_metadata: "same_metadata (holding inner encoded J) (chunk_of ident inner encoded i)"
  by (simp add: same_metadata_def holding_def chunk_of_def)

lemma holding_add:
  "i < piece_count encoded \<Longrightarrow> i \<notin> J \<Longrightarrow> finite J
     \<Longrightarrow> add_chunk (chunk_of ident inner encoded i) (holding inner encoded J) = holding inner encoded (insert i J)"
  by (auto simp: add_chunk_def chunk_of_def holding_def intro!: nth_equalityI simp: nth_list_update)

lemma holding_nth:
  "i < piece_count encoded \<Longrightarrow> a_chunks (holding inner encoded J) ! i
     = (if i \<in> J then Some (chunk_payload encoded i) else None)"
  by (simp add: holding_def)

lemma holding_length: "length (a_chunks (holding inner encoded J)) = piece_count encoded"
  by (simp add: holding_def)

lemma holding_received:
  assumes "J \<subseteq> {..<piece_count encoded}"
  shows "a_receivedBytes (holding inner encoded J) \<le> a_totalLength (holding inner encoded J)"
  using sum_mono2 [OF _ assms, of "\<lambda>i. int (length (chunk_payload encoded i))"] sum_pieces [of encoded]
  by (simp add: holding_def)

lemma holding_incomplete: "J \<subset> {..<piece_count encoded} \<Longrightarrow> None \<in> set (a_chunks (holding inner encoded J))"
  by (fastforce simp: holding_def)

lemma holding_all:
  "None \<notin> set (a_chunks (holding inner encoded {..<piece_count encoded}))"
  "a_receivedBytes (holding inner encoded {..<piece_count encoded}) = a_totalLength (holding inner encoded {..<piece_count encoded})"
  "assembled (holding inner encoded {..<piece_count encoded}) = encoded"
proof -
  have filled: "map (the \<circ> (\<lambda>i. if i < n then Some (f i) else None)) [0..<n] = map f [0..<n]" for n and f :: "nat \<Rightarrow> byte list"
    by (auto intro!: map_cong)
  show "assembled (holding inner encoded {..<piece_count encoded}) = encoded"
    unfolding assembled_def holding_def by (simp add: filled pieces_concat)
qed (auto simp: holding_def sum_pieces)

section \<open>The contract\<close>

text \<open>Where a chunk goes: the assembly of its identifier, or a new one where a slot is free.\<close>

definition goes_into :: "('s \<Rightarrow> jstr \<Rightarrow> chunk_assembly option) \<Rightarrow> ('s \<Rightarrow> bool) \<Rightarrow> 's \<Rightarrow> jstr \<Rightarrow> chunk_frame
    \<Rightarrow> chunk_assembly \<Rightarrow> bool" where
  "goes_into view slot s k f a \<longleftrightarrow> messageIdToHex (c_messageId f) = Inr k \<and> same_metadata a f
     \<and> (view s k = Some a \<or> view s k = None \<and> slot s \<and> a = new_assembly f)"

locale reassembly =
  fixes receive :: "chunk_frame \<Rightarrow> 's \<Rightarrow> (chunk_error + 'o option) \<times> 's"
    and view :: "'s \<Rightarrow> jstr \<Rightarrow> chunk_assembly option"
    and slot :: "'s \<Rightarrow> bool"
    and good :: "'s \<Rightarrow> bool"
    and finish :: "chunk_assembly \<Rightarrow> chunk_error + 'o"
  assumes repeated: "good s \<Longrightarrow> messageIdToHex (c_messageId f) = Inr k \<Longrightarrow> view s k = Some a \<Longrightarrow> same_metadata a f
      \<Longrightarrow> a_chunks a ! nat (c_chunkIndex f) = Some (c_payload f) \<Longrightarrow> receive f s = (Inr None, s)"
    and stored: "good s \<Longrightarrow> goes_into view slot s k f a \<Longrightarrow> a_chunks a ! nat (c_chunkIndex f) = None
      \<Longrightarrow> c_totalLength f \<le> max_reassembled_bytes
      \<Longrightarrow> a_receivedBytes (add_chunk f a) \<le> c_totalLength f \<Longrightarrow> None \<in> set (a_chunks (add_chunk f a))
      \<Longrightarrow> \<exists>s'. receive f s = (Inr None, s') \<and> good s' \<and> view s' = (view s)(k \<mapsto> add_chunk f a)"
    and completed: "good s \<Longrightarrow> goes_into view slot s k f a \<Longrightarrow> a_chunks a ! nat (c_chunkIndex f) = None
      \<Longrightarrow> c_totalLength f \<le> max_reassembled_bytes
      \<Longrightarrow> a_receivedBytes (add_chunk f a) = c_totalLength f \<Longrightarrow> None \<notin> set (a_chunks (add_chunk f a))
      \<Longrightarrow> finish (add_chunk f a) = Inr x
      \<Longrightarrow> \<exists>s'. receive f s = (Inr (Some x), s') \<and> good s' \<and> view s' = (view s)(k := None)"
    and others: "good s \<Longrightarrow> assertChunk g = Inr [] \<Longrightarrow> messageIdToHex (c_messageId g) \<noteq> Inr k
      \<Longrightarrow> receive g s = (Inr y, s') \<Longrightarrow> good s' \<and> view s' k = view s k"

text \<open>A sequence of chunks, and what it must leave to the chunks of \<open>k\<close>.\<close>

fun receive_all :: "(chunk_frame \<Rightarrow> 's \<Rightarrow> 'r \<times> 's) \<Rightarrow> chunk_frame list \<Rightarrow> 's \<Rightarrow> 'r list \<times> 's" where
  "receive_all receive [] s = ([], s)"
| "receive_all receive (f # fs) s =
     (let (r, s') = receive f s; (rs, s'') = receive_all receive fs s' in (r # rs, s''))"

fun undisturbed :: "(chunk_frame \<Rightarrow> 's \<Rightarrow> ('e + 'o) \<times> 's) \<Rightarrow> ('s \<Rightarrow> jstr \<Rightarrow> chunk_assembly option) \<Rightarrow> ('s \<Rightarrow> bool)
    \<Rightarrow> jstr \<Rightarrow> chunk_frame list \<Rightarrow> 's \<Rightarrow> bool" where
  "undisturbed receive view slot k [] s \<longleftrightarrow> True"
| "undisturbed receive view slot k (f # fs) s \<longleftrightarrow>
     (if messageIdToHex (c_messageId f) = Inr k then view s k \<noteq> None \<or> slot s
      else assertChunk f = Inr [] \<and> \<not> isl (fst (receive f s)))
     \<and> undisturbed receive view slot k fs (snd (receive f s))"

context reassembly
begin

lemma one_more:
  assumes s: "good s" "view s k = Some (holding inner encoded J) \<or> view s k = None \<and> J = {} \<and> slot s"
    and k: "messageIdToHex ident = Inr k"
    and J: "J \<subseteq> {..<piece_count encoded}" "i < piece_count encoded" "insert i J \<noteq> {..<piece_count encoded}"
    and len: "int (length encoded) \<le> max_reassembled_bytes"
  shows "\<exists>s'. receive (chunk_of ident inner encoded i) s = (Inr None, s') \<and> good s'
    \<and> view s' k = Some (holding inner encoded (insert i J))"
proof (cases "i \<in> J")
  case True
  with s(2) have v: "view s k = Some (holding inner encoded J)" by auto
  have "receive (chunk_of ident inner encoded i) s = (Inr None, s)"
    by (rule repeated [OF s(1) _ v holding_metadata]) (use k J(2) True in \<open>simp_all add: chunk_of_def holding_nth\<close>)
  with s(1) v True show ?thesis by (simp add: insert_absorb)
next
  case False
  have fin: "finite J" using J(1) finite_subset by blast
  have into: "goes_into view slot s k (chunk_of ident inner encoded i) (holding inner encoded J)"
    using s(2) k holding_metadata [of inner encoded J ident i] holding_nothing [of ident inner encoded i]
    by (auto simp: goes_into_def chunk_of_def)
  have sub: "insert i J \<subset> {..<piece_count encoded}" using J by auto
  have add: "add_chunk (chunk_of ident inner encoded i) (holding inner encoded J) = holding inner encoded (insert i J)"
    by (rule holding_add [OF J(2) False fin])
  have "a_chunks (holding inner encoded J) ! nat (c_chunkIndex (chunk_of ident inner encoded i)) = None"
    using False J(2) by (simp add: holding_nth chunk_of_def)
  from stored [OF s(1) into this, unfolded add] holding_received [of "insert i J" encoded inner]
    holding_incomplete [OF sub, of inner] sub len
  show ?thesis by (auto simp: chunk_of_def holding_def)
qed

lemma last_one:
  assumes s: "good s" "view s k = Some (holding inner encoded J) \<or> view s k = None \<and> J = {} \<and> slot s"
    and k: "messageIdToHex ident = Inr k"
    and J: "J \<subseteq> {..<piece_count encoded}" "i < piece_count encoded" "insert i J = {..<piece_count encoded}" "i \<notin> J"
    and len: "int (length encoded) \<le> max_reassembled_bytes"
    and x: "finish (holding inner encoded {..<piece_count encoded}) = Inr x"
  shows "\<exists>s'. receive (chunk_of ident inner encoded i) s = (Inr (Some x), s') \<and> good s' \<and> view s' k = None"
proof -
  have fin: "finite J" using J(1) finite_subset by blast
  have into: "goes_into view slot s k (chunk_of ident inner encoded i) (holding inner encoded J)"
    using s(2) k holding_metadata [of inner encoded J ident i] holding_nothing [of ident inner encoded i]
    by (auto simp: goes_into_def chunk_of_def)
  have add: "add_chunk (chunk_of ident inner encoded i) (holding inner encoded J)
      = holding inner encoded {..<piece_count encoded}"
    using holding_add [OF J(2,4) fin] J(3) by simp
  have "a_chunks (holding inner encoded J) ! nat (c_chunkIndex (chunk_of ident inner encoded i)) = None"
    using J(2,4) by (simp add: holding_nth chunk_of_def)
  from completed [OF s(1) into this, unfolded add] holding_all [of inner encoded] len x
  show ?thesis by (auto simp: chunk_of_def holding_def)
qed

text \<open>Up to the last chunk, nothing comes out and the assembly holds what has arrived.\<close>

lemma before_last:
  assumes k: "messageIdToHex ident = Inr k" and len: "int (length encoded) \<le> max_reassembled_bytes"
    and i: "i < piece_count encoded"
  shows "good s \<Longrightarrow> view s k = Some (holding inner encoded J) \<or> view s k = None \<and> J = {}
     \<Longrightarrow> J \<subseteq> {..<piece_count encoded} - {i}
     \<Longrightarrow> \<forall>g \<in> set fs. c_messageId g = ident \<longrightarrow> (\<exists>j < piece_count encoded. j \<noteq> i \<and> g = chunk_of ident inner encoded j)
     \<Longrightarrow> undisturbed receive view slot k fs s
     \<Longrightarrow> receive_all receive fs s = (rs, s')
     \<Longrightarrow> good s' \<and> (\<forall>(g, r) \<in> set (zip fs rs). c_messageId g = ident \<longrightarrow> r = Inr None)
       \<and> (let J' = J \<union> {j. j < piece_count encoded \<and> chunk_of ident inner encoded j \<in> set fs}
          in view s' k = Some (holding inner encoded J') \<or> view s' k = None \<and> J' = {})"
proof (induction fs arbitrary: s J rs)
  case (Cons g fs)
  from Cons.prems(6) obtain r s1 rs1 where
    r: "receive g s = (r, s1)" "receive_all receive fs s1 = (rs1, s')" "rs = r # rs1"
    by (auto simp: Let_def split: prod.splits)
  show ?case
  proof (cases "c_messageId g = ident")
    case True
    with Cons.prems(4) obtain j where j: "j < piece_count encoded" "j \<noteq> i" "g = chunk_of ident inner encoded j" by auto
    have J': "J \<subseteq> {..<piece_count encoded}" "insert j J \<noteq> {..<piece_count encoded}"
      using Cons.prems(3) i j(2) by auto
    have "view s k \<noteq> None \<or> slot s" using Cons.prems(5) True k by simp
    then have "view s k = Some (holding inner encoded J) \<or> view s k = None \<and> J = {} \<and> slot s"
      using Cons.prems(2) by auto
    from one_more [OF Cons.prems(1) this k J'(1) j(1) J'(2) len] j(3)
    obtain s2 where "receive g s = (Inr None, s2)" "good s2" "view s2 k = Some (holding inner encoded (insert j J))"
      by blast
    with r have s1: "r = Inr None" "good s1" "view s1 k = Some (holding inner encoded (insert j J))" by simp_all
    have same: "chunk_of ident inner encoded j' = chunk_of ident inner encoded j \<longleftrightarrow> j' = j" for j'
      by (auto simp: chunk_of_def)
    have "insert j J \<union> {j'. j' < piece_count encoded \<and> chunk_of ident inner encoded j' \<in> set fs}
        = J \<union> {j'. j' < piece_count encoded \<and> chunk_of ident inner encoded j' \<in> set (g # fs)}"
      using j same by auto
    with Cons.IH [OF s1(2) disjI1 [OF s1(3)] _ _ _ r(2)] Cons.prems(3,4,5) r j s1(1) show ?thesis
      by (auto simp: Let_def)
  next
    case False
    have other: "messageIdToHex (c_messageId g) \<noteq> Inr k"
      using message_id_hex_roundtrip [OF k] message_id_hex_roundtrip [of "c_messageId g" k] False by auto
    with Cons.prems(5) r(1) obtain y where "assertChunk g = Inr []" "r = Inr y" by (cases r) auto
    with others [OF Cons.prems(1) _ other, of y s1] r(1) have s1: "good s1" "view s1 k = view s k" by simp_all
    have "{j. j < piece_count encoded \<and> chunk_of ident inner encoded j \<in> set (g # fs)}
        = {j. j < piece_count encoded \<and> chunk_of ident inner encoded j \<in> set fs}"
      using False by (auto simp: chunk_of_def)
    with Cons.IH [OF s1(1) _ Cons.prems(3) _ _ r(2)] Cons.prems(2,4,5) r s1(2) False show ?thesis
      by (auto simp: Let_def)
  qed
qed auto

lemma in_any_order:
  assumes k: "messageIdToHex ident = Inr k" and len: "int (length encoded) \<le> max_reassembled_bytes"
    and i: "i < piece_count encoded"
    and s: "good s" "view s k = None"
    and ours: "\<forall>g \<in> set fs. c_messageId g = ident \<longrightarrow> (\<exists>j < piece_count encoded. j \<noteq> i \<and> g = chunk_of ident inner encoded j)"
    and all: "\<forall>j < piece_count encoded. j \<noteq> i \<longrightarrow> chunk_of ident inner encoded j \<in> set fs"
    and calm: "undisturbed receive view slot k (fs @ [chunk_of ident inner encoded i]) s"
    and x: "finish (holding inner encoded {..<piece_count encoded}) = Inr x"
    and run: "receive_all receive fs s = (rs, s1)"
  shows "(\<forall>(g, r) \<in> set (zip fs rs). c_messageId g = ident \<longrightarrow> r = Inr None)
    \<and> (\<exists>s2. receive (chunk_of ident inner encoded i) s1 = (Inr (Some x), s2) \<and> good s2 \<and> view s2 k = None)"
proof -
  define J where "J = {j. j < piece_count encoded \<and> chunk_of ident inner encoded j \<in> set fs}"
  have J: "J = {..<piece_count encoded} - {i}"
    using ours all by (fastforce simp: J_def chunk_of_def)
  have calm': "undisturbed receive view slot k fs s \<and> (view s1 k \<noteq> None \<or> slot s1)"
    using calm run k
  proof (induction fs arbitrary: s rs)
    case (Cons g fs)
    then show ?case by (auto simp: Let_def split: prod.splits)
  qed (auto simp: chunk_of_def)
  with before_last [OF k len i s(1) _ _ ours _ run, of "{}"] s(2)
  have "good s1" and rs: "\<forall>(g, r) \<in> set (zip fs rs). c_messageId g = ident \<longrightarrow> r = Inr None"
    and "view s1 k = Some (holding inner encoded J) \<or> view s1 k = None \<and> J = {}"
    by (auto simp: Let_def J_def)
  with calm' last_one [OF _ _ k _ i _ _ len x, of s1 J] i J show ?thesis by auto
qed

text \<open>With no other chunks in between, a free slot is enough.\<close>

lemma alone:
  assumes k: "messageIdToHex ident = Inr k" and len: "int (length encoded) \<le> max_reassembled_bytes"
    and i: "i < piece_count encoded"
  shows "good s \<Longrightarrow> view s k = Some (holding inner encoded J) \<or> view s k = None \<and> J = {} \<and> slot s
     \<Longrightarrow> J \<subseteq> {..<piece_count encoded} - {i}
     \<Longrightarrow> \<forall>j \<in> set idx. j < piece_count encoded \<and> j \<noteq> i
     \<Longrightarrow> undisturbed receive view slot k (map (chunk_of ident inner encoded) (idx @ [i])) s"
proof (induction idx arbitrary: s J)
  case (Cons j idx)
  then have J: "J \<subseteq> {..<piece_count encoded}" "j < piece_count encoded"
    "insert j J \<subseteq> {..<piece_count encoded} - {i}"
    by auto
  then have "insert j J \<noteq> {..<piece_count encoded}" using i by blast
  from one_more [OF Cons.prems(1,2) k J(1,2) this len]
  obtain s1 where s1: "receive (chunk_of ident inner encoded j) s = (Inr None, s1)" "good s1"
    "view s1 k = Some (holding inner encoded (insert j J))" by blast
  have "\<forall>j \<in> set idx. j < piece_count encoded \<and> j \<noteq> i" using Cons.prems(4) by simp
  from Cons.IH [OF s1(2) disjI1 [OF s1(3)] J(3) this] s1(1) Cons.prems(2) k show ?case
    by (auto simp: chunk_of_def)
qed (use k in \<open>auto simp: chunk_of_def\<close>)

lemma length_receive_all: "receive_all receive fs s = (rs, s') \<Longrightarrow> length rs = length fs"
  by (induction fs arbitrary: s rs) (auto simp: Let_def split: prod.splits)

lemma receive_all_append:
  "receive_all receive (fs @ gs) s = (case receive_all receive fs s of (rs, s1) \<Rightarrow>
     (case receive_all receive gs s1 of (qs, s2) \<Rightarrow> (rs @ qs, s2)))"
  by (induction fs arbitrary: s) (auto simp: Let_def split: prod.splits)

text \<open>The chunks of a frame alone, each at least once and one of them last and once.\<close>

lemma alone_in_any_order:
  assumes k: "messageIdToHex ident = Inr k" and len: "int (length encoded) \<le> max_reassembled_bytes"
    and s: "good s" "view s k = None" "slot s"
    and idx: "set (idx @ [i]) = {..<piece_count encoded}" "i \<notin> set idx"
    and x: "finish (holding inner encoded {..<piece_count encoded}) = Inr x"
  shows "\<exists>s'. receive_all receive (map (chunk_of ident inner encoded) (idx @ [i])) s
      = (replicate (length idx) (Inr None) @ [Inr (Some x)], s') \<and> good s' \<and> view s' k = None"
proof -
  have i: "i < piece_count encoded" using idx(1) by auto
  have ours: "\<forall>g \<in> set (map (chunk_of ident inner encoded) idx).
      c_messageId g = ident \<longrightarrow> (\<exists>j < piece_count encoded. j \<noteq> i \<and> g = chunk_of ident inner encoded j)"
    using idx by auto
  have all: "\<forall>j < piece_count encoded. j \<noteq> i \<longrightarrow> chunk_of ident inner encoded j \<in> set (map (chunk_of ident inner encoded) idx)"
    using idx by auto
  have "\<forall>j \<in> set idx. j < piece_count encoded \<and> j \<noteq> i" using idx by auto
  from alone [OF k len i s(1) _ _ this, of inner "{}"] s(2,3)
  have calm: "undisturbed receive view slot k (map (chunk_of ident inner encoded) idx @ [chunk_of ident inner encoded i]) s"
    by simp
  obtain rs s1 where run: "receive_all receive (map (chunk_of ident inner encoded) idx) s = (rs, s1)"
    by (cases "receive_all receive (map (chunk_of ident inner encoded) idx) s")
  from in_any_order [OF k len i s(1,2) ours all calm x run]
  obtain s2 where last: "receive (chunk_of ident inner encoded i) s1 = (Inr (Some x), s2)" "good s2" "view s2 k = None"
    and none: "\<forall>(g, r) \<in> set (zip (map (chunk_of ident inner encoded) idx) rs). c_messageId g = ident \<longrightarrow> r = Inr None"
    by blast
  have "length rs = length idx" using length_receive_all [OF run] by simp
  moreover from this none have "\<forall>n < length rs. rs ! n = Inr None"
    by (fastforce simp: set_zip chunk_of_def)
  ultimately have "rs = replicate (length idx) (Inr None)" by (simp add: list_eq_iff_nth_eq)
  with last run show ?thesis by (simp add: receive_all_append)
qed

end

end
