(* ===== verification/Chunk_Ends.thy ===== *)
theory Chunk_Ends
  imports Chunk_Reassembly
begin

text \<open>
  The reassemblers of the server and of the client keep the contract of \<open>Chunk_Reassembly\<close>; the
  server's memory stays bounded; what one end cuts the other puts together.
\<close>

section \<open>The map of assemblies\<close>

lemma map_of_put [simp]: "map_of (put_assembly k a xs) = (map_of xs)(k \<mapsto> a)"
proof (cases "map_of xs k")
  case (Some b)
  have "map_of (map (\<lambda>(k', b). (k', if k' = k then a else b)) xs) = (\<lambda>k'. if k' = k \<and> map_of xs k \<noteq> None then Some a else map_of xs k')"
    by (induction xs) auto
  with Some show ?thesis by (auto simp: put_assembly_def)
qed (auto simp: put_assembly_def map_add_def fun_eq_iff split: option.splits)

lemma map_of_drop [simp]: "map_of (drop_assembly k xs) = (map_of xs)(k := None)"
  unfolding drop_assembly_def by (induction xs) auto

lemma keys_put: "map fst (put_assembly k a xs) = map fst xs @ (if map_of xs k = None then [k] else [])"
  by (auto simp: put_assembly_def)

lemma keys_drop: "map fst (drop_assembly k xs) = filter (\<lambda>k'. k' \<noteq> k) (map fst xs)"
  by (induction xs) (auto simp: drop_assembly_def)

definition total_received :: "assemblies \<Rightarrow> int" where
  "total_received xs = sum_list (map (\<lambda>(k, a). a_receivedBytes a) xs)"

definition received_of :: "assemblies \<Rightarrow> jstr \<Rightarrow> int" where
  "received_of xs k = (case map_of xs k of None \<Rightarrow> 0 | Some a \<Rightarrow> a_receivedBytes a)"

lemma total_put:
  "distinct (map fst xs) \<Longrightarrow> total_received (put_assembly k a xs) = total_received xs - received_of xs k + a_receivedBytes a"
proof (cases "map_of xs k")
  case (Some b)
  have "distinct (map fst xs) \<Longrightarrow> map_of xs k = Some b \<Longrightarrow>
      total_received (map (\<lambda>(k', b). (k', if k' = k then a else b)) xs)
        = total_received xs - a_receivedBytes b + a_receivedBytes a"
  proof (induction xs)
    case (Cons x xs)
    have "map (\<lambda>(k', b). (k', if k' = k then a else b)) xs = xs" if "k \<notin> fst ` set xs"
      using that by (intro map_idI) force
    then have "total_received (map (\<lambda>(k', b). (k', if k' = k then a else b)) xs) = total_received xs"
      if "k \<notin> fst ` set xs"
      using that by simp
    with Cons show ?case by (cases x) (auto simp: total_received_def)
  qed simp
  moreover assume "distinct (map fst xs)"
  ultimately show ?thesis using Some by (simp add: put_assembly_def received_of_def)
qed (simp add: put_assembly_def received_of_def total_received_def)

lemma total_drop: "distinct (map fst xs) \<Longrightarrow> total_received (drop_assembly k xs) = total_received xs - received_of xs k"
proof (induction xs)
  case (Cons x xs)
  have "drop_assembly k xs = xs" if "k \<notin> fst ` set xs"
    using that unfolding drop_assembly_def by (intro filter_True) force
  moreover have "map_of xs k = None" if "k \<notin> fst ` set xs" using that by (simp add: map_of_eq_None_iff)
  ultimately show ?case using Cons by (cases x) (auto simp: drop_assembly_def total_received_def received_of_def)
qed (simp add: drop_assembly_def total_received_def received_of_def)

lemma entries_put: "set (put_assembly k a xs) \<subseteq> insert (k, a) (set xs)"
  by (auto simp: put_assembly_def split: if_splits)

lemma entries_drop: "set (drop_assembly k xs) \<subseteq> set xs"
  by (auto simp: drop_assembly_def)

section \<open>The server\<close>

definition sound_assembly :: "chunk_assembly \<Rightarrow> bool" where
  "sound_assembly a \<longleftrightarrow> 0 \<le> a_receivedBytes a \<and> a_receivedBytes a \<le> a_totalLength a \<and> a_totalLength a \<le> max_reassembled_bytes"

definition sound_server :: "reassembler \<Rightarrow> bool" where
  "sound_server r \<longleftrightarrow> distinct (map fst (active r)) \<and> length (active r) \<le> max_active_assemblies
     \<and> bufferedBytes r = total_received (active r) \<and> (\<forall>(k, a) \<in> set (active r). sound_assembly a)"

lemma sound_total: "\<forall>(k, a) \<in> set xs. sound_assembly a \<Longrightarrow> 0 \<le> total_received xs
    \<and> total_received xs \<le> int (length xs) * max_reassembled_bytes"
proof (induction xs)
  case (Cons x xs)
  obtain k a where "x = (k, a)" by (cases x)
  with Cons show ?case by (simp add: total_received_def sound_assembly_def algebra_simps)
qed (simp add: total_received_def)

lemma sound_buffered: "sound_server r \<Longrightarrow> bufferedBytes r \<le> max_buffered_chunk_bytes"
proof -
  assume r: "sound_server r"
  then have "int (length (active r)) * max_reassembled_bytes \<le> 2 * max_reassembled_bytes"
    by (intro mult_right_mono) (simp_all add: sound_server_def max_active_assemblies_def max_reassembled_bytes_def)
  with r sound_total [of "active r"] show ?thesis
    by (simp add: sound_server_def max_buffered_chunk_bytes_def max_active_assemblies_def)
qed

lemma sound_new [simp]: "sound_server new_reassembler"
  by (simp add: sound_server_def new_reassembler_def total_received_def)

definition stored_in :: "jstr \<Rightarrow> chunk_frame \<Rightarrow> chunk_assembly \<Rightarrow> reassembler \<Rightarrow> reassembler" where
  "stored_in key f a r = r \<lparr> active := put_assembly key (add_chunk f a) (active r),
     bufferedBytes := bufferedBytes r + int (length (c_payload f)) \<rparr>"

lemma sound_stored:
  assumes r: "sound_server r" and a: "map_of (active r) key = Some a"
    and s: "a_receivedBytes (add_chunk f a) \<le> a_totalLength a"
  shows "sound_server (stored_in key f a r)"
proof -
  have "sound_assembly a" using r map_of_SomeD [OF a] by (auto simp: sound_server_def)
  then have "sound_assembly (add_chunk f a)" using s by (simp add: sound_assembly_def add_chunk_def)
  moreover have "length (put_assembly key (add_chunk f a) (active r)) = length (active r)"
    using a by (simp add: put_assembly_def)
  ultimately show ?thesis
    using r a entries_put [of key "add_chunk f a" "active r"] total_put [of "active r" key "add_chunk f a"]
    by (auto simp: sound_server_def stored_in_def keys_put received_of_def add_chunk_def)
qed

lemma sound_dropped:
  assumes "sound_server r" "map_of (active r) key = Some a"
  shows "sound_server (r \<lparr> active := drop_assembly key (active r), bufferedBytes := bufferedBytes r - a_receivedBytes a \<rparr>)"
proof -
  have "length (drop_assembly key (active r)) \<le> length (active r)" by (simp add: drop_assembly_def)
  then show ?thesis
    using assms entries_drop [of key "active r"] total_drop [of "active r" key]
    by (auto simp: sound_server_def keys_drop received_of_def)
qed

lemma sound_expires: "sound_server r \<Longrightarrow> sound_server (assembly_expires key r)"
proof (cases "map_of (active r) key")
  case (Some a)
  assume "sound_server r"
  moreover have "sound_server (r \<lparr> bufferedBytes := x, active := y \<rparr>) = sound_server (r \<lparr> active := y, bufferedBytes := x \<rparr>)"
    for x y by (simp add: sound_server_def)
  ultimately show ?thesis using sound_dropped [OF _ Some] Some by (simp add: assembly_expires_def)
qed (simp add: assembly_expires_def)

lemma sound_opened:
  assumes "sound_server r" "map_of (active r) key = None" "length (active r) < max_active_assemblies"
    "0 \<le> c_totalLength f" "c_totalLength f \<le> max_reassembled_bytes"
  shows "sound_server (r \<lparr> active := put_assembly key (new_assembly f) (active r) \<rparr>)"
proof -
  have "key \<notin> fst ` set (active r)" using assms(2) by (simp add: map_of_eq_None_iff)
  moreover have "total_received (put_assembly key (new_assembly f) (active r)) = total_received (active r)"
    using assms(1,2) total_put [of "active r" key "new_assembly f"]
    by (simp add: sound_server_def received_of_def new_assembly_def)
  ultimately show ?thesis
    using assms by (auto simp: sound_server_def new_assembly_def put_assembly_def sound_assembly_def)
qed

text \<open>Storing a chunk, by cases; the total of the buffers is never the reason of a refusal.\<close>

lemma push_into_stored:
  assumes r: "sound_server r" and a: "map_of (active r) key = Some a"
    and new: "a_chunks a ! nat (c_chunkIndex f) = None"
    and s: "a_receivedBytes (add_chunk f a) \<le> a_totalLength a"
  shows "push_into L key f a r =
    (if None \<in> set (a_chunks (add_chunk f a)) then (Inr None, stored_in key f a r)
     else if a_receivedBytes (add_chunk f a) \<noteq> a_totalLength a then (Inl LengthMismatch, stored_in key f a r)
     else (map_sum id (\<lambda>_. Some (assembled (add_chunk f a))) (inner_frame L (add_chunk f a)),
           (stored_in key f a r) \<lparr> active := drop_assembly key (active (stored_in key f a r)),
             bufferedBytes := bufferedBytes (stored_in key f a r) - a_receivedBytes (add_chunk f a) \<rparr>))"
  using sound_buffered [OF sound_stored [OF r a s]] s new
  by (simp add: push_into_def Let_def stored_in_def add_chunk_def)

lemma stored_view: "map_of (active (stored_in key f a r)) = (map_of (active r))(key \<mapsto> add_chunk f a)"
  by (simp add: stored_in_def)

definition server_slot :: "reassembler \<Rightarrow> bool" where
  "server_slot r \<longleftrightarrow> length (active r) < max_active_assemblies"

text \<open>The state in which a chunk is stored: its assembly is there.\<close>

lemma push_goes_into:
  assumes r: "sound_server r" and g: "goes_into (\<lambda>r. map_of (active r)) server_slot r k f a"
    and t: "c_totalLength f \<le> max_reassembled_bytes" "a_receivedBytes (add_chunk f a) \<le> c_totalLength f"
  obtains r0 where "push L f r = push_into L k f a r0" "sound_server r0" "map_of (active r0) = (map_of (active r))(k \<mapsto> a)"
    "a_totalLength a = c_totalLength f"
proof (cases "map_of (active r) k")
  case None
  have "sound_server (r \<lparr> active := put_assembly k (new_assembly f) (active r) \<rparr>)"
    using g t None by (intro sound_opened [OF r None])
      (auto simp: goes_into_def server_slot_def new_assembly_def add_chunk_def)
  with None g that show ?thesis
    by (auto simp: goes_into_def push_def Let_def server_slot_def new_assembly_def)
next
  case (Some b)
  with g have "b = a" "same_metadata a f" by (auto simp: goes_into_def)
  with Some g that [of r] r show ?thesis
    by (auto simp: goes_into_def push_def same_metadata_def map_upd_triv)
qed

lemma push_others:
  assumes r: "sound_server r" and f: "assertChunk f = Inr []" and k: "messageIdToHex (c_messageId f) \<noteq> Inr k"
    and p: "push L f r = (Inr y, r')"
  shows "sound_server r' \<and> map_of (active r') k = map_of (active r) k"
proof -
  from p obtain key where key: "messageIdToHex (c_messageId f) = Inr key" "key \<noteq> k"
    using k by (auto simp: push_def split: sum.splits)
  from assertChunk_Inr [OF f] have len: "0 \<le> c_totalLength f" "c_totalLength f \<le> max_reassembled_bytes"
    by (auto simp: safe_between_def)
  have into: "sound_server r' \<and> map_of (active r') k = map_of (active r0) k"
    if r0: "sound_server r0" "map_of (active r0) key = Some a" and q: "push_into L key f a r0 = (Inr y, r')" for r0 a
  proof (cases "a_chunks a ! nat (c_chunkIndex f)")
    case None
    have s: "a_receivedBytes (add_chunk f a) \<le> a_totalLength a"
      using q None by (auto simp: push_into_def Let_def add_chunk_def split: if_splits)
    note st = sound_stored [OF r0 s]
    from q show ?thesis
      using st sound_dropped [OF st, of key "add_chunk f a"] stored_view [of key f a r0] key(2)
      unfolding push_into_stored [OF r0 None s] by (auto split: if_splits)
  next
    case (Some e)
    with q r0 show ?thesis by (auto simp: push_into_def split: if_splits)
  qed
  show ?thesis
  proof (cases "map_of (active r) key")
    case None
    with p key have "length (active r) < max_active_assemblies"
      and q: "push_into L key f (new_assembly f) (r \<lparr> active := put_assembly key (new_assembly f) (active r) \<rparr>) = (Inr y, r')"
      by (auto simp: push_def Let_def split: if_splits)
    from into [OF sound_opened [OF r None this(1) len] _ q] key(2) show ?thesis by simp
  next
    case (Some a)
    with p key into [OF r] show ?thesis by (auto simp: push_def split: if_splits)
  qed
qed

interpretation server: reassembly "push L" "\<lambda>r. map_of (active r)" server_slot sound_server
  "\<lambda>a. map_sum id (\<lambda>_. assembled a) (inner_frame L a)" for L
proof unfold_locales
  fix s :: reassembler and f k a and x :: "byte list"
  assume s: "sound_server s"
  show "push L f s = (Inr None, s)"
    if "messageIdToHex (c_messageId f) = Inr k" "map_of (active s) k = Some a" "same_metadata a f"
      "a_chunks a ! nat (c_chunkIndex f) = Some (c_payload f)"
    using that by (simp add: push_def push_into_def)
  assume g: "goes_into (\<lambda>r. map_of (active r)) server_slot s k f a" and t: "c_totalLength f \<le> max_reassembled_bytes"
    and new: "a_chunks a ! nat (c_chunkIndex f) = None"
  show "\<exists>s'. push L f s = (Inr None, s') \<and> sound_server s' \<and> map_of (active s') = (map_of (active s))(k \<mapsto> add_chunk f a)"
    if le: "a_receivedBytes (add_chunk f a) \<le> c_totalLength f" "None \<in> set (a_chunks (add_chunk f a))"
  proof -
    obtain r0 where r0: "push L f s = push_into L k f a r0" "sound_server r0"
      "map_of (active r0) = (map_of (active s))(k \<mapsto> a)" "a_totalLength a = c_totalLength f"
      by (rule push_goes_into [OF s g t le(1)])
    then have r: "map_of (active r0) k = Some a" "a_receivedBytes (add_chunk f a) \<le> a_totalLength a"
      using le(1) by simp_all
    from push_into_stored [OF r0(2) r(1) new r(2)] sound_stored [OF r0(2) r] stored_view [of k f a r0] le(2) r0(1,3)
    show ?thesis by simp
  qed
  show "\<exists>s'. push L f s = (Inr (Some x), s') \<and> sound_server s' \<and> map_of (active s') = (map_of (active s))(k := None)"
    if eq: "a_receivedBytes (add_chunk f a) = c_totalLength f" "None \<notin> set (a_chunks (add_chunk f a))"
      "map_sum id (\<lambda>_. assembled (add_chunk f a)) (inner_frame L (add_chunk f a)) = Inr x"
  proof -
    have le: "a_receivedBytes (add_chunk f a) \<le> c_totalLength f" using eq(1) by simp
    obtain r0 where r0: "push L f s = push_into L k f a r0" "sound_server r0"
      "map_of (active r0) = (map_of (active s))(k \<mapsto> a)" "a_totalLength a = c_totalLength f"
      by (rule push_goes_into [OF s g t le])
    then have r: "map_of (active r0) k = Some a" "a_receivedBytes (add_chunk f a) \<le> a_totalLength a"
      using le by simp_all
    have out: "map_sum id (\<lambda>_. Some (assembled (add_chunk f a))) (inner_frame L (add_chunk f a)) = Inr (Some x)"
      using eq(3) by (cases "inner_frame L (add_chunk f a)") auto
    have "map_of (active (stored_in k f a r0)) k = Some (add_chunk f a)" by (simp add: stored_view)
    from push_into_stored [OF r0(2) r(1) new r(2)] sound_dropped [OF sound_stored [OF r0(2) r] this]
      stored_view [of k f a r0] eq(1,2) r0(1,3,4) out
    show ?thesis by simp
  qed
qed (rule push_others)

section \<open>The client\<close>

definition client_slot :: "assemblies \<Rightarrow> bool" where
  "client_slot xs \<longleftrightarrow> length xs < max_chunk_assemblies"

definition sound_client :: "assemblies \<Rightarrow> bool" where
  "sound_client xs \<longleftrightarrow> distinct (map fst xs)"

lemma sound_client_put: "sound_client xs \<Longrightarrow> sound_client (put_assembly k a xs)"
  unfolding sound_client_def keys_put by (auto simp: map_of_eq_None_iff)

lemma sound_client_drop: "sound_client xs \<Longrightarrow> sound_client (drop_assembly k xs)"
  unfolding sound_client_def keys_drop by simp

lemma handle_into_stored:
  "a_chunks a ! nat (c_chunkIndex f) = None \<Longrightarrow> handle_into L key f a xs =
     (if None \<in> set (a_chunks (add_chunk f a)) then (Inr None, put_assembly key (add_chunk f a) xs)
      else if a_receivedBytes (add_chunk f a) \<noteq> a_totalLength a then (Inl LengthMismatch, put_assembly key (add_chunk f a) xs)
      else (map_sum id Some (inner_frame L (add_chunk f a)), drop_assembly key (put_assembly key (add_chunk f a) xs)))"
  by (simp add: handle_into_def Let_def add_chunk_def)

lemma handle_goes_into:
  assumes "sound_client xs" "goes_into map_of client_slot xs k f a"
  obtains xs0 where "handleChunk L f xs = handle_into L k f a xs0" "sound_client xs0" "map_of xs0 = (map_of xs)(k \<mapsto> a)"
    "a_totalLength a = c_totalLength f"
proof (cases "map_of xs k")
  case None
  with assms that [of "put_assembly k a xs"] show ?thesis
    by (auto simp: goes_into_def handleChunk_def Let_def client_slot_def new_assembly_def sound_client_put)
next
  case (Some b)
  with assms that [of xs] show ?thesis
    by (auto simp: goes_into_def handleChunk_def same_metadata_def map_upd_triv)
qed

lemma handle_others:
  assumes "sound_client xs" "messageIdToHex (c_messageId f) \<noteq> Inr k" "handleChunk L f xs = (Inr y, xs')"
  shows "sound_client xs' \<and> map_of xs' k = map_of xs k"
proof -
  from assms obtain key where key: "messageIdToHex (c_messageId f) = Inr key" "key \<noteq> k"
    by (auto simp: handleChunk_def split: sum.splits)
  have into: "sound_client xs' \<and> map_of xs' k = map_of xs0 k"
    if "sound_client xs0" "handle_into L key f a xs0 = (Inr y, xs')" for xs0 a
    using that key(2)
    by (auto simp: handle_into_def Let_def sound_client_put sound_client_drop split: option.splits if_splits)
  from assms(3) key have "\<exists>a xs0. handle_into L key f a xs0 = (Inr y, xs') \<and> (xs0 = xs \<or> xs0 = put_assembly key a xs)"
    by (auto simp: handleChunk_def Let_def split: option.splits if_splits)
  then show ?thesis using into assms(1) key(2) sound_client_put by fastforce
qed

interpretation client: reassembly "handleChunk L" map_of client_slot sound_client "inner_frame L" for L
proof unfold_locales
  fix s :: assemblies and f k a and x :: board_frame
  assume s: "sound_client s"
  show "handleChunk L f s = (Inr None, s)"
    if "messageIdToHex (c_messageId f) = Inr k" "map_of s k = Some a" "same_metadata a f"
      "a_chunks a ! nat (c_chunkIndex f) = Some (c_payload f)"
    using that by (simp add: handleChunk_def handle_into_def)
  assume g: "goes_into map_of client_slot s k f a" and new: "a_chunks a ! nat (c_chunkIndex f) = None"
  obtain xs0 where xs0: "handleChunk L f s = handle_into L k f a xs0" "sound_client xs0"
    "map_of xs0 = (map_of s)(k \<mapsto> a)" "a_totalLength a = c_totalLength f"
    by (rule handle_goes_into [OF s g])
  show "\<exists>s'. handleChunk L f s = (Inr None, s') \<and> sound_client s' \<and> map_of s' = (map_of s)(k \<mapsto> add_chunk f a)"
    if "None \<in> set (a_chunks (add_chunk f a))"
    using that xs0 handle_into_stored [OF new] by (simp add: sound_client_put)
  show "\<exists>s'. handleChunk L f s = (Inr (Some x), s') \<and> sound_client s' \<and> map_of s' = (map_of s)(k := None)"
    if "a_receivedBytes (add_chunk f a) = c_totalLength f" "None \<notin> set (a_chunks (add_chunk f a))"
      "inner_frame L (add_chunk f a) = Inr x"
    using that xs0 handle_into_stored [OF new] by (simp add: sound_client_put sound_client_drop)
qed (rule handle_others)

end
