(* ===== verification/Board_Library.thy ===== *)
theory Board_Library
  imports Board_Codec
begin

text \<open>
  A byte library with which the laws of \<open>lib0_laws\<close> hold: base-128 integers, least significant
  group first, and big-endian 32-bit integers. The theorems about the codec are applied to it.
\<close>

section \<open>Variable-length integers\<close>

function leb_write :: "nat \<Rightarrow> byte list" where
  "leb_write n = (if n < 128 then [to_byte n] else to_byte (128 + n mod 128) # leb_write (n div 128))"
  by auto
termination by (relation "measure id") auto

declare leb_write.simps [simp del]

fun leb_read :: "byte list \<Rightarrow> (nat \<times> byte list) option" where
  "leb_read [] = None"
| "leb_read (b # bs) =
     (if unat b < 128 then Some (unat b, bs)
      else case leb_read bs of None \<Rightarrow> None | Some (n, rest) \<Rightarrow> Some (unat b - 128 + 128 * n, rest))"

lemma leb_read_write: "leb_read (leb_write n @ bs) = Some (n, bs)"
proof (induction n rule: leb_write.induct)
  case (1 n)
  have "128 + n mod 128 < 256" by simp
  then show ?case using 1 by (subst leb_write.simps) (auto split: if_splits)
qed

lemma leb_length: "int (length (leb_write n)) = varUintEncodedLength (int n)"
proof (induction n rule: leb_write.induct)
  case (1 n)
  then show ?case
    by (subst leb_write.simps, subst varUintEncodedLength.simps) (auto simp: zdiv_int)
qed

lemma length_step: "0 < m \<Longrightarrow> d < 128 \<Longrightarrow> varUintEncodedLength (int (d + 128 * m)) = varUintEncodedLength (int m) + 1"
  by (subst varUintEncodedLength.simps) auto

lemma leb_write_read:
  "leb_read bs = Some (n, rest) \<Longrightarrow> int (length bs) - int (length rest) = varUintEncodedLength (int n)
     \<Longrightarrow> bs = leb_write n @ rest"
proof (induction bs arbitrary: n)
  case (Cons b bs)
  show ?case
  proof (cases "unat b < 128")
    case True
    with Cons.prems show ?thesis by (auto simp: leb_write.simps)
  next
    case False
    with Cons.prems obtain m where m: "leb_read bs = Some (m, rest)" "n = unat b - 128 + 128 * m"
      by (auto split: option.splits)
    have d: "unat b - 128 < 128" using byte_less [of b] by linarith
    have "length rest < length bs" using m(1)
      by (induction bs arbitrary: m) (auto split: if_splits option.splits)
    have "m \<noteq> 0"
    proof
      assume "m = 0"
      with Cons.prems(2) m(2) have "1 + int (length bs) - int (length rest) = varUintEncodedLength (int (unat b - 128))"
        by simp
      also have "\<dots> = 1" using d by (subst varUintEncodedLength.simps) simp
      finally show False using \<open>length rest < length bs\<close> by simp
    qed
    with Cons.prems(2) length_step [of m "unat b - 128"] d m(2)
    have "int (length bs) - int (length rest) = varUintEncodedLength (int m)" by simp
    from Cons.IH [OF m(1) this] have "bs = leb_write m @ rest" .
    moreover have "n div 128 = m" "n mod 128 = unat b - 128" "\<not> n < 128" using m(2) d \<open>m \<noteq> 0\<close> by auto
    ultimately show ?thesis using False by (subst leb_write.simps) simp
  qed
qed simp

section \<open>The library\<close>

definition u32_write :: "nat \<Rightarrow> byte list" where
  "u32_write n = map to_byte
     [n div 256 div 256 div 256 mod 256, n div 256 div 256 mod 256, n div 256 mod 256, n mod 256]"

fun u32_read :: "byte list \<Rightarrow> nat \<times> byte list" where
  "u32_read (a # b # c # d # bs) = (((unat a * 256 + unat b) * 256 + unat c) * 256 + unat d, bs)"
| "u32_read bs = (0, bs)"

lemma u32_digits: "n < 4294967296
    \<Longrightarrow> ((n div 256 div 256 div 256 mod 256 * 256 + n div 256 div 256 mod 256) * 256 + n div 256 mod 256) * 256
      + n mod 256 = (n :: nat)"
proof -
  assume n: "n < 4294967296"
  then have "n div 256 div 256 div 256 < 256" by (simp add: div_mult2_eq [symmetric] less_mult_imp_div_less)
  then have "n div 256 div 256 div 256 mod 256 = n div 256 div 256 div 256" by simp
  then show ?thesis by (metis div_mod_decomp mult.commute)
qed

lemma u32_read_write: "n < 4294967296 \<Longrightarrow> u32_read (u32_write n @ bs) = (n, bs)"
  using u32_digits [of n] by (simp add: u32_write_def)

lemma u32_length: "length (u32_write n) = 4"
  by (simp add: u32_write_def)

lemma byte_digit: "d < 256 \<Longrightarrow> (x * 256 + d) div 256 = x \<and> (x * 256 + d) mod 256 = (d :: nat)"
  by auto

lemma u32_write_read: "u32_read (a # b # c # d # bs) = (n, rest) \<Longrightarrow> a # b # c # d # bs = u32_write n @ rest"
proof -
  assume "u32_read (a # b # c # d # bs) = (n, rest)"
  then have "n = ((unat a * 256 + unat b) * 256 + unat c) * 256 + unat d" "rest = bs"
    by (simp_all del: distrib_right_numeral)
  then show ?thesis
    by (simp add: u32_write_def byte_digit del: distrib_right_numeral)
qed

definition base128 :: lib0 where
  "base128 = \<lparr> lib_writeUint8 = (\<lambda>n. [word_of_int n]),
     lib_writeUint32BigEndian = (\<lambda>n. u32_write (nat n)),
     lib_writeVarUint = (\<lambda>n. leb_write (nat n)),
     lib_writeUint8Array = (\<lambda>b. b),
     lib_readUint8 = (\<lambda>bs. case bs of [] \<Rightarrow> (0, []) | b # r \<Rightarrow> (uint b, r)),
     lib_readUint32BigEndian = (\<lambda>bs. map_prod int id (u32_read bs)),
     lib_readVarUint = (\<lambda>bs. map_option (map_prod int id) (leb_read bs)),
     lib_readUint8Array = (\<lambda>n bs. (take n bs, drop n bs)) \<rparr>"

lemma base128_laws: "lib0_laws base128"
proof -
  have u32: "bs = u32_write (nat n) @ rest" if "4 \<le> length bs" "map_prod int id (u32_read bs) = (n, rest)" for bs n rest
  proof -
    from that(1) obtain a b c d r where bs: "bs = a # b # c # d # r"
      by (auto simp: numeral_eq_Suc Suc_le_length_iff)
    from that(2) have "u32_read bs = (nat n, rest)" by (cases "u32_read bs") auto
    then show ?thesis unfolding bs by (rule u32_write_read)
  qed
  have u32': "map_prod int id (u32_read (u32_write (nat n) @ bs)) = (n, bs)" if "0 \<le> n" "n < 4294967296" for n bs
    using that by (simp add: u32_read_write)
  have "bs = leb_write (nat n) @ rest"
    if "map_option (map_prod int id) (leb_read bs) = Some (n, rest)" "0 \<le> n"
      "int (length bs) - int (length rest) = varUintEncodedLength n" for bs n rest
    using that by (intro leb_write_read) auto
  with u32 u32' show ?thesis
    by (simp add: lib0_laws_def base128_def leb_read_write leb_length u32_length)
qed

section \<open>The theorems applied\<close>

definition demo_id :: "byte list" where
  "demo_id = [0, 1, 2, 3, 4, 5, 6, 7, 8, 9, 10, 11, 12, 13, 14, 15]"

definition demo_header :: "byte list" where
  "demo_header = [0x45, 0x44, 0x42, 0x32, 1, 6]"

text \<open>An acknowledgement of message \<open>0001..0f\<close> with sequence number 300 in generation 7.\<close>

definition demo_ack :: "byte list \<Rightarrow> byte list" where
  "demo_ack key = demo_header @ [7] @ key @ demo_id @ [172, 2]"

lemma demo_fields:
  "leb_write 7 = [7]" "leb_write 300 = [172, 2]" "leb_write (Suc 0) = [1]" "leb_write 4 = [4]"
  "u32_write 1162101298 = [0x45, 0x44, 0x42, 0x32]"
  by (simp_all add: leb_write.simps [of 7] leb_write.simps [of 300] leb_write.simps [of "Suc 0"] leb_write.simps [of 4]
      leb_write.simps [of 2] u32_write_def to_byte_def)

lemma demo_texts: "utf8_encode [0x62] = [0x62]" "utf8_encode [0xfeff, 0x62] = [0xef, 0xbb, 0xbf, 0x62]"
  by (simp_all add: utf8_encode_def surrogate_ranges scalar_bytes_def to_byte_def)

lemma demo_id_length: "length demo_id = 16"
  by (simp add: demo_id_def)

lemma demo_writes:
  "lib_writeVarUint base128 n = leb_write (nat n)" "lib_writeUint8 base128 n = [word_of_int n]"
  "lib_writeUint8Array base128 b = b" "lib_writeUint32BigEndian base128 n = u32_write (nat n)"
  by (simp_all add: base128_def)

lemma demo_bodies:
  "encode_body base128 (AckFrame 7 [0x62] demo_id 300) = Inr ([7] @ [1, 0x62] @ demo_id @ [172, 2])"
  "encode_body base128 (AckFrame 7 [0xfeff, 0x62] demo_id 300)
     = Inr ([7] @ [4, 0xef, 0xbb, 0xbf, 0x62] @ demo_id @ [172, 2])"
  by (simp_all add: encodeAck_def writer_simps text_ok_def control_free_def demo_writes demo_fields demo_texts
      writeVarBytes_def bytes_between_def safe_between_def message_id_bytes_def demo_id_length
      max_document_key_bytes_def max_safe_integer_def)

lemma demo_header_written: "writeHeader base128 6 = demo_header"
  by (simp add: writeHeader_def demo_writes demo_fields protocol_magic_def board_version_def demo_header_def)

lemma demo_encoded:
  "encodeBoardFrame base128 (AckFrame 7 [0x62] demo_id 300) = Inr (demo_ack [1, 0x62])"
  "encodeBoardFrame base128 (AckFrame 7 [0xfeff, 0x62] demo_id 300) = Inr (demo_ack [4, 0xef, 0xbb, 0xbf, 0x62])"
  unfolding encode_frame_eq demo_bodies frame_type.simps demo_header_written
  by (simp_all add: demo_ack_def demo_header_def demo_id_length max_encoded_frame_bytes_def)

lemma demo_utf8: "utf8_decode [0x62] = Some [0x62]"
proof -
  have "well_formed [0x62]" by (simp add: surrogate_ranges)
  from utf8_decode_encode [OF this] show ?thesis
    by (simp add: demo_texts starts_with_mark_def byte_order_mark_def)
qed

lemma demo_reads:
  "lib_readVarUint base128 bs = map_option (map_prod int id) (leb_read bs)"
  "lib_readUint8 base128 (b # bs) = (uint b, bs)" "lib_readUint32BigEndian base128 bs = map_prod int id (u32_read bs)"
  "lib_readUint8Array base128 m bs = (take m bs, drop m bs)"
  by (simp_all add: base128_def)

lemma demo_decoded: "decodeBoardFrame base128 (demo_ack [1, 0x62]) = Inr (AckFrame 7 [0x62] demo_id 300)"
  by (simp add: decodeBoardFrame_def demo_ack_def demo_header_def demo_id_def demo_reads demo_utf8 into_def
      max_encoded_frame_bytes_def readUint32BigEndian_def ensureRemaining_def protocol_magic_def readUint8_def
      board_version_def decode_body_def decodeAck_def readGeneration_def readVarUint_def safe_between_def
      max_safe_integer_def varUintEncodedLength.simps [of 1] varUintEncodedLength.simps [of 7]
      varUintEncodedLength.simps [of 300] varUintEncodedLength.simps [of 2]
      readDocKey_def readText_def readUtf8_def readVarBytes_def max_document_key_bytes_def readBytes_def
      done_with_def control_free_def
      readMessageId_def message_id_bytes_def)

lemma demo_mark_free: "mark_free (demo_ack [1, 0x62])"
  by (simp add: mark_free_def demo_ack_def demo_header_def demo_id_def byte_order_mark_def sublist_Cons_right)

theorem board_frame_roundtrip_witness:
  "decodeBoardFrame base128 (demo_ack [1, 0x62]) = Inr (AckFrame 7 [0x62] demo_id 300)"
  using board_frame_roundtrip [OF base128_laws demo_encoded(1)]
  by (simp add: kept_text_def demo_texts starts_with_mark_def byte_order_mark_def surrogate_ranges)

theorem board_frame_is_canonical_witness:
  "encodeBoardFrame base128 (AckFrame 7 [0x62] demo_id 300) = Inr (demo_ack [1, 0x62])"
  by (rule board_frame_is_canonical [OF base128_laws demo_decoded demo_mark_free])

theorem board_frame_loses_leading_mark_witness:
  "decodeBoardFrame base128 (demo_ack [4, 0xef, 0xbb, 0xbf, 0x62]) = Inr (AckFrame 7 [0x62] demo_id 300)"
  using board_frame_loses_leading_mark [OF base128_laws demo_encoded(2)]
  by (simp add: surrogate_ranges)

end
