(* ===== verification/Chunk_Properties.thy ===== *)
theory Chunk_Properties
  imports Chunk_Ends Board_Library
begin

text \<open>
  What the chunk transport promises: chunks in any order give the frame, a large frame sent by one
  end is put together by the other, and the memory of the server's reassembler is bounded.
\<close>

section \<open>The chunks of a frame are frames\<close>

lemma encoded_length_le: "0 \<le> n \<Longrightarrow> n < 128 ^ Suc k \<Longrightarrow> varUintEncodedLength n \<le> 1 + int k"
proof (induction k arbitrary: n)
  case 0
  then show ?case by (subst varUintEncodedLength.simps) simp
next
  case (Suc k)
  have "n div 128 < 128 ^ Suc k" "0 \<le> n div 128" using Suc.prems by (simp_all add: div_less_iff_less_mult)
  with Suc.IH have "varUintEncodedLength (n div 128) \<le> 1 + int k" by blast
  then show ?case by (subst varUintEncodedLength.simps) simp
qed

lemma var_length:
  "lib0_laws L \<Longrightarrow> 0 \<le> n \<Longrightarrow> n \<le> max_safe_integer \<Longrightarrow> length (lib_writeVarUint L n) \<le> 8"
  using lib0_var [of L n "[]"] encoded_length_le [of n 7] by (simp add: max_safe_integer_def)

lemma piece_length: "length (chunk_payload encoded i) \<le> max_chunk_payload_bytes"
  by (simp add: chunk_payload_take)

lemma piece_nonempty: "i < piece_count encoded \<Longrightarrow> chunk_payload encoded i \<noteq> []"
  using piece_start [of i encoded] by (simp add: chunk_payload_take max_chunk_payload_bytes_def)

text \<open>A frame that is too large for one chunk, and small enough to be encoded.\<close>

definition oversized :: "byte list \<Rightarrow> bool" where
  "oversized encoded \<longleftrightarrow> max_chunk_payload_bytes < length encoded \<and> length encoded \<le> max_encoded_frame_bytes"

lemma oversized_count:
  assumes "oversized encoded"
  shows "2 \<le> piece_count encoded" "piece_count encoded \<le> 65"
proof -
  have "max_chunk_payload_bytes + max_chunk_payload_bytes \<le> length encoded + max_chunk_payload_bytes - 1"
    using assms chunk_size_pos unfolding oversized_def by linarith
  then have "(max_chunk_payload_bytes + max_chunk_payload_bytes) div max_chunk_payload_bytes \<le> piece_count encoded"
    unfolding piece_count_eq by (rule div_le_mono)
  then show "2 \<le> piece_count encoded" using chunk_size_pos by simp
  have "length encoded + max_chunk_payload_bytes - 1 < 66 * max_chunk_payload_bytes"
    using assms by (simp add: oversized_def max_encoded_frame_bytes_def max_chunk_payload_bytes_def)
  then have "piece_count encoded < 66" unfolding piece_count_eq by (rule less_mult_imp_div_less)
  then show "piece_count encoded \<le> 65" by simp
qed

lemma oversized_total: "oversized encoded \<Longrightarrow> int (length encoded) \<le> max_reassembled_bytes"
  by (simp add: oversized_def max_encoded_frame_bytes_def max_reassembled_bytes_def)

lemma chunk_of_checked:
  assumes "oversized encoded" "length ident = message_id_bytes" "inner = 4 \<or> inner = 5" "i < piece_count encoded"
  shows "assertChunk (chunk_of ident inner encoded i) = Inr []"
proof -
  have c: "chunk_count encoded = int (piece_count encoded)" by simp
  have small: "chunk_count encoded \<le> 65" "2 \<le> chunk_count encoded"
    using oversized_count [OF assms(1)] c by linarith+
  have len: "length (chunk_payload encoded i) < length encoded"
    using piece_length [of encoded i] assms(1) by (simp add: oversized_def)
  have "minimum_chunks (int (length encoded)) = chunk_count encoded"
    by (simp add: minimum_chunks_def chunk_count_def)
  moreover have "chunk_count encoded \<le> int (length encoded)"
    using small assms(1) by (simp add: oversized_def max_chunk_payload_bytes_def)
  moreover have "safe_between 0 (chunk_count encoded - 1) (int i)"
    using assms(4) small c unfolding safe_between_def max_safe_integer_def by linarith
  moreover have "safe_between 2 max_chunk_count (chunk_count encoded)"
    using small by (intro safe_betweenI) (auto simp: max_safe_integer_def max_chunk_count_def)
  moreover have "safe_between 1 max_reassembled_bytes (int (length encoded))"
    using oversized_total [OF assms(1)] assms(1)
    by (intro safe_betweenI) (auto simp: oversized_def max_safe_integer_def max_reassembled_bytes_def)
  moreover have "bytes_between False max_chunk_payload_bytes (chunk_payload encoded i)"
    using piece_nonempty [OF assms(4)] piece_length by (simp add: bytes_between_def)
  ultimately show ?thesis
    using assms(2,3) len by (auto simp: assertChunk_def chunk_of_def assert_simps emit.simps)
qed

lemma chunk_of_encodes:
  assumes L: "lib0_laws L" and f: "oversized encoded" "length ident = message_id_bytes" "inner = 4 \<or> inner = 5"
    "i < piece_count encoded"
  shows "\<exists>b. encodeBoardFrame L (ChunkFrame (chunk_of ident inner encoded i)) = Inr b"
proof -
  let ?f = "chunk_of ident inner encoded i"
  have ok: "assertChunk ?f = Inr []" by (rule chunk_of_checked [OF f])
  from assertChunk_Inr [OF ok] have r: "safe_between 0 (c_chunkCount ?f - 1) (c_chunkIndex ?f)"
    "safe_between 2 max_chunk_count (c_chunkCount ?f)" "safe_between 1 max_reassembled_bytes (c_totalLength ?f)"
    by simp_all
  have "int (length (c_payload ?f)) \<le> max_safe_integer"
    using piece_length [of encoded i] by (simp add: chunk_of_def max_chunk_payload_bytes_def max_safe_integer_def)
  with r have short: "length (lib_writeVarUint L (c_chunkIndex ?f)) \<le> 8" "length (lib_writeVarUint L (c_chunkCount ?f)) \<le> 8"
    "length (lib_writeVarUint L (c_totalLength ?f)) \<le> 8" "length (lib_writeVarUint L (int (length (c_payload ?f)))) \<le> 8"
    by (auto intro!: var_length [OF L] dest!: safe_betweenD)
  have "encode_body L (ChunkFrame ?f) = Inr (lib_writeUint8Array L (c_messageId ?f) @ lib_writeUint8 L (c_innerType ?f)
      @ lib_writeVarUint L (c_chunkIndex ?f) @ lib_writeVarUint L (c_chunkCount ?f)
      @ lib_writeVarUint L (c_totalLength ?f) @ writeVarBytes L (c_payload ?f))"
    using ok f(2) by (auto simp: encodeChunk_def writer_simps chunk_of_def)
  moreover have "length (lib_writeUint8 L (c_innerType ?f)) = 1" "length (lib_writeUint8Array L (c_messageId ?f)) = 16"
    "length (writeHeader L 9) = 6" "length (lib_writeUint8Array L (c_payload ?f)) \<le> max_chunk_payload_bytes"
    using f(2,3) lib0_u32 [OF L, of protocol_magic] lib0_u8 [OF L] lib0_array [OF L] piece_length [of encoded i]
    by (auto simp: chunk_of_def message_id_bytes_def writeHeader_def protocol_magic_def board_version_def)
  ultimately show ?thesis
    using short unfolding encode_frame_eq
    by (simp add: max_encoded_frame_bytes_def max_chunk_payload_bytes_def writeVarBytes_def)
qed

lemma encode_all_Inr:
  "\<forall>f \<in> set fs. \<exists>b. encodeBoardFrame L f = Inr b \<Longrightarrow> \<exists>bs. encode_all L fs = Inr bs
     \<and> list_all2 (\<lambda>f b. encodeBoardFrame L f = Inr b) fs bs"
  by (induction fs) fastforce+

lemma chunks_travel:
  assumes L: "lib0_laws L" and f: "oversized encoded" "length ident = message_id_bytes" "chunkable f"
  shows "\<exists>bss. send_chunks L ident f encoded = Inr (Inr bss)
     \<and> map (decodeBoardFrame L) bss = map (Inr \<circ> ChunkFrame) (chunks_of ident (frame_type f) encoded)"
proof -
  let ?cs = "map ChunkFrame (chunks_of ident (frame_type f) encoded)"
  have "\<forall>c \<in> set ?cs. \<exists>b. encodeBoardFrame L c = Inr b"
    using chunk_of_encodes [OF L f(1,2)] f(3) by (auto simp: chunks_of_def piece_count_def chunkable_def)
  then obtain bss where bss: "encode_all L ?cs = Inr bss" "list_all2 (\<lambda>c b. encodeBoardFrame L c = Inr b) ?cs bss"
    using encode_all_Inr by blast
  have "map (decodeBoardFrame L) bss = map Inr ?cs"
  proof (rule nth_equalityI)
    fix n assume n: "n < length (map (decodeBoardFrame L) bss)"
    then have "encodeBoardFrame L (?cs ! n) = Inr (bss ! n)" "n < length ?cs"
      using bss(2) by (auto simp: list_all2_conv_all_nth)
    moreover have "kept_frame (?cs ! n)" using calculation(2) by simp
    ultimately show "map (decodeBoardFrame L) bss ! n = map Inr ?cs ! n"
      using board_frame_roundtrip [OF L] n by simp
  qed (use bss(2) in \<open>auto simp: list_all2_conv_all_nth\<close>)
  moreover have "chunk_count encoded \<le> max_chunk_count"
    using oversized_count(2) [OF f(1)] chunk_count_nonneg [of encoded] unfolding max_chunk_count_def by linarith
  ultimately show ?thesis using bss(1) by (simp add: send_chunks_def)
qed

section \<open>Reassembly\<close>

lemma whole_frame:
  "decodeBoardFrame L encoded = Inr f \<Longrightarrow> frame_type f = inner
     \<Longrightarrow> inner_frame L (holding inner encoded {..<piece_count encoded}) = Inr f"
  using holding_all(3) [of inner encoded] by (simp add: inner_frame_def holding_def)

lemma whole_server:
  "decodeBoardFrame L encoded = Inr f \<Longrightarrow> frame_type f = inner
     \<Longrightarrow> map_sum id (\<lambda>_. assembled (holding inner encoded {..<piece_count encoded}))
      (inner_frame L (holding inner encoded {..<piece_count encoded})) = Inr encoded"
  using whole_frame [of L encoded f inner] holding_all(3) [of inner encoded] by simp

lemma hex_ident: "messageIdToHex ident = Inr k \<Longrightarrow> length ident = message_id_bytes"
  by (auto simp: messageIdToHex_def assertMessageId_def check_def split: if_splits)

lemma oversized_encoding:
  "encodeBoardFrame L f = Inr encoded \<Longrightarrow> max_chunk_payload_bytes < length encoded \<Longrightarrow> oversized encoded"
  by (auto simp: oversized_def encode_frame_eq split: sum.splits if_splits)

lemma chunks_in_order:
  assumes "oversized encoded"
  obtains n where "0 < n" "set ([0..<n] @ [n]) = {..<piece_count encoded}"
    "chunks_of ident inner encoded = map (chunk_of ident inner encoded) ([0..<n] @ [n])"
proof -
  obtain n where n: "piece_count encoded = Suc n" "0 < n"
    using oversized_count(1) [OF assms] by (cases "piece_count encoded") auto
  have "insert n {0..<n} = {..<Suc n}" by auto
  with that [of n] n show thesis by (simp add: chunks_of_def piece_count_def [symmetric])
qed

lemma decoded_total: "decodeBoardFrame L encoded = Inr f \<Longrightarrow> int (length encoded) \<le> max_reassembled_bytes"
  by (auto simp: decodeBoardFrame_def max_encoded_frame_bytes_def max_reassembled_bytes_def split: if_splits)

text \<open>
  C38. The chunks of a frame give the frame, whatever their order and however often they are
  repeated before the last one arrives, and whatever chunks of other frames the server accepts in
  between; before the last one nothing comes out, and after it the assembly is gone.
\<close>

theorem server_reassembles_in_any_order:
  assumes "messageIdToHex ident = Inr k" "decodeBoardFrame L encoded = Inr f" "i < piece_count encoded"
    "sound_server r" "map_of (active r) k = None"
    "\<forall>g \<in> set fs. c_messageId g = ident \<longrightarrow> (\<exists>j < piece_count encoded. j \<noteq> i \<and> g = chunk_of ident (frame_type f) encoded j)"
    "\<forall>j < piece_count encoded. j \<noteq> i \<longrightarrow> chunk_of ident (frame_type f) encoded j \<in> set fs"
    "undisturbed (push L) (\<lambda>r. map_of (active r)) server_slot k (fs @ [chunk_of ident (frame_type f) encoded i]) r"
    "receive_all (push L) fs r = (rs, r1)"
  shows "(\<forall>(g, x) \<in> set (zip fs rs). c_messageId g = ident \<longrightarrow> x = Inr None)
    \<and> (\<exists>r2. push L (chunk_of ident (frame_type f) encoded i) r1 = (Inr (Some encoded), r2) \<and> sound_server r2
        \<and> map_of (active r2) k = None)"
proof -
  from server.in_any_order [OF assms(1) decoded_total [OF assms(2)] assms(3-8) whole_server [OF assms(2) refl] assms(9)]
  show ?thesis .
qed

text \<open>
  C37. A frame of a kind that may be cut (\<open>SYNC_STEP2\<close>, \<open>UPDATE\<close>), too large for one chunk, and whose
  document key has no lone surrogate and does not start with a byte order mark: the server cuts it
  for a client that negotiated chunking into chunks the client decodes, and the last of them gives
  the client the frame, if no assembly has its identifier and one more assembly is allowed.
\<close>

theorem large_frame_reaches_client:
  assumes L: "lib0_laws L" and f: "encodeBoardFrame L f = Inr encoded" "kept_frame f" "chunkable f"
    and large: "max_chunk_payload_bytes < length encoded" and caps: "negotiated (Some caps)"
    and k: "messageIdToHex ident = Inr k"
    and xs: "sound_client xs" "map_of xs k = None" "client_slot xs"
  shows "\<exists>bss cs. server_plan L (Some caps) ident f = Inr (Inr bss)
    \<and> map (decodeBoardFrame L) bss = map (Inr \<circ> ChunkFrame) cs \<and> 2 \<le> length cs
    \<and> fst (receive_all (handleChunk L) cs xs) = replicate (length cs - 1) (Inr None) @ [Inr (Some f)]"
proof -
  note big = oversized_encoding [OF f(1) large]
  have d: "decodeBoardFrame L encoded = Inr f" by (rule board_frame_roundtrip [OF L f(1,2)])
  obtain bss where bss: "send_chunks L ident f encoded = Inr (Inr bss)"
    "map (decodeBoardFrame L) bss = map (Inr \<circ> ChunkFrame) (chunks_of ident (frame_type f) encoded)"
    using chunks_travel [OF L big hex_ident [OF k] f(3)] by blast
  obtain n where n: "0 < n" "set ([0..<n] @ [n]) = {..<piece_count encoded}"
    "chunks_of ident (frame_type f) encoded = map (chunk_of ident (frame_type f) encoded) ([0..<n] @ [n])"
    by (rule chunks_in_order [OF big])
  have "fst (receive_all (handleChunk L) (chunks_of ident (frame_type f) encoded) xs)
      = replicate n (Inr None) @ [Inr (Some f)]"
    using client.alone_in_any_order [OF k decoded_total [OF d] xs n(2) _ whole_frame [OF d refl]] n(3) by auto
  moreover have "server_plan L (Some caps) ident f = Inr (Inr bss)"
    using f(1,3) large caps bss(1) by (auto simp: server_plan_def chunkable_def)
  moreover have "length (chunks_of ident (frame_type f) encoded) = Suc n" unfolding n(3) by simp
  ultimately show ?thesis using bss(2) n(1) by (intro exI [of _ bss] exI [of _ "chunks_of ident (frame_type f) encoded"]) simp
qed

text \<open>
  The other way round: a large frame the client sends is put together by the server's
  reassembler to the bytes of its encoding, which the server decodes to the frame.
\<close>

theorem large_frame_reaches_server:
  assumes L: "lib0_laws L" and f: "encodeBoardFrame L f = Inr encoded" "kept_frame f" "chunkable f"
    and large: "max_chunk_payload_bytes < length encoded" and caps: "negotiated (Some caps)"
    and k: "messageIdToHex ident = Inr k"
    and r: "sound_server r" "map_of (active r) k = None" "server_slot r"
  shows "\<exists>bss cs. client_plan L caps ident f = Inr (Inr bss)
    \<and> map (decodeBoardFrame L) bss = map (Inr \<circ> ChunkFrame) cs \<and> 2 \<le> length cs
    \<and> fst (receive_all (push L) cs r) = replicate (length cs - 1) (Inr None) @ [Inr (Some encoded)]
    \<and> decodeBoardFrame L encoded = Inr f"
proof -
  note big = oversized_encoding [OF f(1) large]
  have d: "decodeBoardFrame L encoded = Inr f" by (rule board_frame_roundtrip [OF L f(1,2)])
  obtain bss where bss: "send_chunks L ident f encoded = Inr (Inr bss)"
    "map (decodeBoardFrame L) bss = map (Inr \<circ> ChunkFrame) (chunks_of ident (frame_type f) encoded)"
    using chunks_travel [OF L big hex_ident [OF k] f(3)] by blast
  obtain n where n: "0 < n" "set ([0..<n] @ [n]) = {..<piece_count encoded}"
    "chunks_of ident (frame_type f) encoded = map (chunk_of ident (frame_type f) encoded) ([0..<n] @ [n])"
    by (rule chunks_in_order [OF big])
  have "fst (receive_all (push L) (chunks_of ident (frame_type f) encoded) r)
      = replicate n (Inr None) @ [Inr (Some encoded)]"
    using server.alone_in_any_order [OF k decoded_total [OF d] r n(2) _ whole_server [OF d refl]] n(3) by auto
  moreover have "client_plan L caps ident f = Inr (Inr bss)"
    using f(1,3) large caps bss(1) by (auto simp: client_plan_def negotiated_def)
  moreover have "length (chunks_of ident (frame_type f) encoded) = Suc n" unfolding n(3) by simp
  ultimately show ?thesis using bss(2) n(1) d by (intro exI [of _ bss] exI [of _ "chunks_of ident (frame_type f) encoded"]) simp
qed






section \<open>The theorems applied\<close>

text \<open>A document of 300000 bytes for a new client.\<close>

definition demo_zeros :: "byte list" where
  "demo_zeros = replicate 300000 0"

lemma demo_zeros_length [simp]: "length demo_zeros = 300000" "demo_zeros \<noteq> []"
  by (simp_all only: demo_zeros_def length_replicate replicate_empty)

definition demo_large :: board_frame where
  "demo_large = SyncStep2Frame 7 [0x62] demo_zeros"

definition demo_large_bytes :: "byte list" where
  "demo_large_bytes = [0x45, 0x44, 0x42, 0x32, 1, 4, 7, 1, 0x62, 224, 167, 18] @ demo_zeros"

lemma demo_large_fields: "leb_write 300000 = [224, 167, 18]"
  by (simp add: leb_write.simps [of 300000] leb_write.simps [of 2343] leb_write.simps [of 18] to_byte_def)

lemma demo_large_encoded: "encodeBoardFrame base128 demo_large = Inr demo_large_bytes"
proof -
  have "encode_body base128 demo_large = Inr ([7, 1, 0x62, 224, 167, 18] @ demo_zeros)"
    by (simp add: demo_large_def encodeSyncStep2_def writer_simps text_ok_def control_free_def demo_writes demo_fields
        demo_texts demo_large_fields writeVarBytes_def bytes_between_def safe_between_def max_update_bytes_def
        max_document_key_bytes_def max_safe_integer_def)
  moreover have "writeHeader base128 4 = [0x45, 0x44, 0x42, 0x32, 1, 4]"
    by (simp add: writeHeader_def demo_writes demo_fields protocol_magic_def board_version_def)
  moreover have "frame_type demo_large = 4" by (simp add: demo_large_def)
  ultimately show ?thesis by (simp add: encode_frame_eq demo_large_bytes_def max_encoded_frame_bytes_def)
qed

lemma demo_large_kept: "kept_frame demo_large" "chunkable demo_large" "frame_type demo_large = 4"
  by (simp_all add: demo_large_def kept_text_def demo_texts starts_with_mark_def byte_order_mark_def surrogate_ranges
      chunkable_def)

lemma demo_large_size: "max_chunk_payload_bytes < length demo_large_bytes" "piece_count demo_large_bytes = 2"
  by (simp_all add: demo_large_bytes_def piece_count_eq max_chunk_payload_bytes_def)

lemma demo_large_decoded: "decodeBoardFrame base128 demo_large_bytes = Inr demo_large"
  by (rule board_frame_roundtrip [OF base128_laws demo_large_encoded demo_large_kept(1)])

definition demo_hex :: jstr where
  "demo_hex = concat (map (\<lambda>b. [id_digit (unat b div 16), id_digit (unat b mod 16)]) demo_id)"

lemma demo_hex: "messageIdToHex demo_id = Inr demo_hex"
  by (simp add: messageIdToHex_def assertMessageId_def check_def message_id_bytes_def demo_id_length demo_hex_def)

abbreviation demo_chunk :: "nat \<Rightarrow> chunk_frame" where
  "demo_chunk \<equiv> chunk_of demo_id 4 demo_large_bytes"

lemma demo_new: "map_of (active new_reassembler) k = None" "server_slot new_reassembler"
  by (simp_all add: new_reassembler_def server_slot_def max_active_assemblies_def)

theorem server_reassembles_in_any_order_witness:
  "\<exists>rs r1 r2. receive_all (push base128) [demo_chunk 1, demo_chunk 1] new_reassembler = (rs, r1)
     \<and> push base128 (demo_chunk 0) r1 = (Inr (Some demo_large_bytes), r2) \<and> map_of (active r2) demo_hex = None"
proof -
  obtain rs r1 where run: "receive_all (push base128) [demo_chunk 1, demo_chunk 1] new_reassembler = (rs, r1)"
    by (cases "receive_all (push base128) [demo_chunk 1, demo_chunk 1] new_reassembler")
  have "\<forall>j \<in> set [1, 1]. j < piece_count demo_large_bytes \<and> j \<noteq> 0" by (simp add: demo_large_size)
  from server.alone [OF demo_hex decoded_total [OF demo_large_decoded] _ sound_new _ _ this, of 4 "{}" base128] demo_new
  have calm: "undisturbed (push base128) (\<lambda>r. map_of (active r)) server_slot demo_hex
      ([demo_chunk 1, demo_chunk 1] @ [demo_chunk 0]) new_reassembler"
    by (simp add: demo_large_size)
  have "j = 1" if "j < 2" "j \<noteq> 0" for j :: nat using that by simp
  then have all: "\<forall>j < piece_count demo_large_bytes. j \<noteq> 0
      \<longrightarrow> chunk_of demo_id (frame_type demo_large) demo_large_bytes j \<in> set [demo_chunk 1, demo_chunk 1]"
    unfolding demo_large_size demo_large_kept by fastforce
  have ours: "\<forall>g \<in> set [demo_chunk 1, demo_chunk 1]. c_messageId g = demo_id
      \<longrightarrow> (\<exists>j < piece_count demo_large_bytes. j \<noteq> 0 \<and> g = chunk_of demo_id (frame_type demo_large) demo_large_bytes j)"
    unfolding demo_large_size demo_large_kept by (intro ballI impI exI [of _ 1]) simp
  have "0 < piece_count demo_large_bytes" by (simp add: demo_large_size)
  from server_reassembles_in_any_order [OF demo_hex demo_large_decoded this sound_new demo_new(1) ours all _ run] calm
  have "\<exists>r2. push base128 (chunk_of demo_id (frame_type demo_large) demo_large_bytes 0) r1 = (Inr (Some demo_large_bytes), r2)
      \<and> sound_server r2 \<and> map_of (active r2) demo_hex = None"
    unfolding demo_large_kept(3) by blast
  with run show ?thesis unfolding demo_large_kept(3) by blast
qed

theorem large_frame_reaches_client_witness:
  "\<exists>bss cs. server_plan base128 (Some 1) demo_id demo_large = Inr (Inr bss)
    \<and> map (decodeBoardFrame base128) bss = map (Inr \<circ> ChunkFrame) cs \<and> 2 \<le> length cs
    \<and> fst (receive_all (handleChunk base128) cs []) = replicate (length cs - 1) (Inr None) @ [Inr (Some demo_large)]"
  by (rule large_frame_reaches_client [OF base128_laws demo_large_encoded demo_large_kept(1,2) demo_large_size(1) _ demo_hex])
     (simp_all add: negotiated_def chunking_capability_def sound_client_def client_slot_def max_chunk_assemblies_def)

theorem large_frame_reaches_server_witness:
  "\<exists>bss cs. client_plan base128 1 demo_id demo_large = Inr (Inr bss)
    \<and> map (decodeBoardFrame base128) bss = map (Inr \<circ> ChunkFrame) cs \<and> 2 \<le> length cs
    \<and> fst (receive_all (push base128) cs new_reassembler)
        = replicate (length cs - 1) (Inr None) @ [Inr (Some demo_large_bytes)]
    \<and> decodeBoardFrame base128 demo_large_bytes = Inr demo_large"
  by (rule large_frame_reaches_server [OF base128_laws demo_large_encoded demo_large_kept(1,2) demo_large_size(1) _ demo_hex
        sound_new demo_new])
     (simp add: negotiated_def chunking_capability_def)


end
