(* ===== verification/Sync_Awareness.thy ===== *)
theory Sync_Awareness
  imports Board_Codec Json_Text "HOL-Library.AList"
begin

text \<open>
  Presence on the boards: \<open>src/server/board-v2/sync-awareness.ts\<close>. An update names one client and
  carries a JSON object; the server takes out what could pose as an identity, puts in the identity
  of the connection and remembers the last update of every client. \<open>BoardAwarenessError\<close> is
  \<open>None\<close>. \<open>JSON.parse\<close> and the string writer of lib0 are parameters.
\<close>

section \<open>Updates\<close>

record text_lib =
  json_parse :: "jstr \<Rightarrow> jval option"
  writeVarString :: "jstr \<Rightarrow> byte list"

definition max_awareness_clock :: int where "max_awareness_clock = 0xfffffffe"
definition max_json_depth :: nat where "max_json_depth = 8"
definition max_json_entries :: nat where "max_json_entries = 1024"
definition max_json_string_bytes :: nat where "max_json_string_bytes = 16 * 1024"

definition reserved_identity_keys :: "jstr list" where
  "reserved_identity_keys = map js [''userId'', ''displayName'', ''role'', ''color'', ''identity'']"

record awareness_identity =
  i_userId :: jstr
  i_displayName :: jstr
  i_role :: jstr
  i_color :: jstr

record awareness_update =
  u_clientId :: int
  u_clock :: int
  u_state :: "jobj option"

definition readCanonicalVarUint :: "lib0 \<Rightarrow> int \<Rightarrow> byte list \<Rightarrow> (int \<times> byte list) option" where
  "readCanonicalVarUint L mx bs =
     (case lib_readVarUint L bs of None \<Rightarrow> None
      | Some (v, rest) \<Rightarrow>
          if \<not> safe_between 0 mx v then None
          else if int (length bs) - int (length rest) \<noteq> varUintEncodedLength v then None
          else Some (v, rest))"

definition readStateJson :: "lib0 \<Rightarrow> text_lib \<Rightarrow> byte list \<Rightarrow> (jobj option \<times> byte list) option" where
  "readStateJson L J bs = do {
     (len, r) \<leftarrow> readCanonicalVarUint L (int max_awareness_bytes) bs;
     if length r < nat len then None
     else let (b, rest) = lib_readUint8Array L (nat len) r in do {
       json \<leftarrow> utf8_decode b;
       v \<leftarrow> json_parse J json;
       case v of JNull \<Rightarrow> Some (None, rest) | JObj ps \<Rightarrow> Some (Some ps, rest) | _ \<Rightarrow> None } }"

definition parseAwarenessUpdate :: "lib0 \<Rightarrow> text_lib \<Rightarrow> byte list \<Rightarrow> awareness_update option" where
  "parseAwarenessUpdate L J update = do {
     (n, r1) \<leftarrow> readCanonicalVarUint L 1 update;
     if n \<noteq> 1 then None else do {
       (clientId, r2) \<leftarrow> readCanonicalVarUint L 0xffffffff r1;
       (clock, r3) \<leftarrow> readCanonicalVarUint L max_awareness_clock r2;
       (state, r4) \<leftarrow> readStateJson L J r3;
       if r4 \<noteq> [] then None
       else Some \<lparr> u_clientId = clientId, u_clock = clock, u_state = state \<rparr> } }"

definition encodeAwarenessState :: "lib0 \<Rightarrow> text_lib \<Rightarrow> int \<Rightarrow> int \<Rightarrow> jobj option \<Rightarrow> byte list" where
  "encodeAwarenessState L J clientId clock state =
     lib_writeVarUint L 1 @ lib_writeVarUint L clientId @ lib_writeVarUint L clock
     @ writeVarString J (json_text (case state of None \<Rightarrow> JNull | Some ps \<Rightarrow> JObj ps))"

section \<open>What a client may say\<close>

definition dropped_key :: "jstr \<Rightarrow> bool" where
  "dropped_key k \<longleftrightarrow> k = js ''__proto__'' \<or> k = js ''constructor'' \<or> k = js ''prototype''
     \<or> k \<in> set reserved_identity_keys"

text \<open>The budget of entries is threaded through; a value that is too deep, one too many, too long,
  or that JSON has no text for is an error.\<close>

fun sanitizeJson :: "jval \<Rightarrow> nat \<Rightarrow> nat \<Rightarrow> (jval \<times> nat) option"
  and sanitize_list :: "jval list \<Rightarrow> nat \<Rightarrow> nat \<Rightarrow> (jval list \<times> nat) option"
  and sanitize_entries :: "(jstr \<times> jval) list \<Rightarrow> nat \<Rightarrow> nat \<Rightarrow> (jobj \<times> nat) option" where
  "sanitizeJson v depth entries =
     (if max_json_depth < depth then None
      else if max_json_entries < entries + 1 then None
      else case v of
          JNull \<Rightarrow> Some (JNull, entries + 1)
        | JBool b \<Rightarrow> Some (JBool b, entries + 1)
        | JNum n \<Rightarrow> (case n of JNonFinite t \<Rightarrow> None | _ \<Rightarrow> Some (JNum n, entries + 1))
        | JStr s \<Rightarrow> if max_json_string_bytes < length (utf8_encode s) then None else Some (JStr s, entries + 1)
        | JArr vs \<Rightarrow> map_option (\<lambda>(vs', n). (JArr vs', n)) (sanitize_list vs (depth + 1) (entries + 1))
        | JObj ps \<Rightarrow> map_option (\<lambda>(ps', n). (JObj ps', n)) (sanitize_entries ps (depth + 1) (entries + 1))
        | JUndef \<Rightarrow> None)"
| "sanitize_list [] depth entries = Some ([], entries)"
| "sanitize_list (v # vs) depth entries =
     (case sanitizeJson v depth entries of None \<Rightarrow> None
      | Some (v', n) \<Rightarrow> (case sanitize_list vs depth n of None \<Rightarrow> None | Some (vs', n') \<Rightarrow> Some (v' # vs', n')))"
| "sanitize_entries [] depth entries = Some ([], entries)"
| "sanitize_entries ((k, v) # ps) depth entries =
     (if dropped_key k then sanitize_entries ps depth entries
      else case sanitizeJson v depth entries of None \<Rightarrow> None
        | Some (v', n) \<Rightarrow> (case sanitize_entries ps depth n of None \<Rightarrow> None | Some (ps', n') \<Rightarrow> Some ((k, v') # ps', n')))"

declare sanitizeJson.simps [simp del]

definition identity_entries :: "awareness_identity \<Rightarrow> jobj" where
  "identity_entries i = [(js ''userId'', JStr (i_userId i)), (js ''displayName'', JStr (i_displayName i)),
     (js ''role'', JStr (i_role i)), (js ''color'', JStr (i_color i))]"

text \<open>The sanitised object and the identity: the keys of the identity are not in the object.\<close>

definition authoritative :: "awareness_identity \<Rightarrow> jobj \<Rightarrow> jobj option" where
  "authoritative i ps =
     (case sanitizeJson (JObj ps) 0 0 of Some (JObj ps', n) \<Rightarrow> Some (ps' @ identity_entries i) | _ \<Rightarrow> None)"

definition authorizeAwarenessUpdate ::
  "lib0 \<Rightarrow> text_lib \<Rightarrow> byte list \<Rightarrow> int \<Rightarrow> awareness_identity \<Rightarrow> (awareness_update \<times> byte list) option" where
  "authorizeAwarenessUpdate L J update expectedClientId i = do {
     p \<leftarrow> parseAwarenessUpdate L J update;
     if u_clientId p \<noteq> expectedClientId then None
     else case u_state p of
         None \<Rightarrow> Some (p, update)
       | Some ps \<Rightarrow> do {
           state \<leftarrow> authoritative i ps;
           let out = encodeAwarenessState L J (u_clientId p) (u_clock p) (Some state);
           if max_awareness_bytes < length out then None
           else Some (p\<lparr> u_state := Some state \<rparr>, out) } }"

section \<open>The registry\<close>

text \<open>Per document, the last update of every client in the order of their first updates.\<close>

type_synonym registry = "jstr \<rightharpoonup> (int \<times> (int \<times> byte list)) list"

definition states_of :: "registry \<Rightarrow> jstr \<Rightarrow> (int \<times> (int \<times> byte list)) list" where
  "states_of reg d = (case reg d of None \<Rightarrow> [] | Some s \<Rightarrow> s)"

definition delete_state :: "int \<Rightarrow> jstr \<Rightarrow> registry \<Rightarrow> registry" where
  "delete_state clientId d reg =
     (let s = AList.delete clientId (states_of reg d)
      in if s = [] then reg(d := None) else case reg d of None \<Rightarrow> reg | Some _ \<Rightarrow> reg(d \<mapsto> s))"

definition registry_accept ::
  "jstr \<Rightarrow> awareness_update \<Rightarrow> byte list \<Rightarrow> registry \<Rightarrow> registry \<times> byte list option" where
  "registry_accept d u out reg =
     (case map_of (states_of reg d) (u_clientId u) of
        Some (clock, prev) \<Rightarrow>
          if u_clock u < clock \<or> u_clock u = clock \<and> u_state u \<noteq> None then (reg, None)
          else if u_state u = None then (delete_state (u_clientId u) d reg, Some out)
          else (reg(d \<mapsto> AList.update (u_clientId u) (u_clock u, out) (states_of reg d)), Some out)
      | None \<Rightarrow>
          if u_state u = None then (delete_state (u_clientId u) d reg, Some out)
          else (reg(d \<mapsto> AList.update (u_clientId u) (u_clock u, out) (states_of reg d)), Some out))"

definition registry_current :: "registry \<Rightarrow> jstr \<Rightarrow> byte list list" where
  "registry_current reg d = map (\<lambda>(k, clock, update). update) (states_of reg d)"

text \<open>The first loop of \<open>updateIdentitiesAtomically\<close>, which may fail, prepares what the second stores.\<close>

fun prepare_identities :: "lib0 \<Rightarrow> text_lib \<Rightarrow> int \<Rightarrow> awareness_identity \<Rightarrow> registry \<Rightarrow> jstr list
    \<Rightarrow> (jstr \<times> (int \<times> byte list)) list option" where
  "prepare_identities L J clientId i reg [] = Some []"
| "prepare_identities L J clientId i reg (d # ds) =
     (case map_of (states_of reg d) clientId of
        None \<Rightarrow> prepare_identities L J clientId i reg ds
      | Some (clock, prev) \<Rightarrow>
          if max_awareness_clock - 1 \<le> clock then None
          else (case parseAwarenessUpdate L J prev of None \<Rightarrow> None
            | Some p \<Rightarrow> (case u_state p of
                None \<Rightarrow> prepare_identities L J clientId i reg ds
              | Some ps \<Rightarrow> (case authorizeAwarenessUpdate L J
                    (encodeAwarenessState L J clientId (clock + 1) (Some ps)) clientId i of None \<Rightarrow> None
                  | Some (u, out) \<Rightarrow>
                      map_option (Cons (d, (u_clock u, out))) (prepare_identities L J clientId i reg ds)))))"

definition store_identity :: "int \<Rightarrow> jstr \<times> (int \<times> byte list) \<Rightarrow> registry \<Rightarrow> registry" where
  "store_identity clientId = (\<lambda>(d, stored) reg. reg(d \<mapsto> AList.update clientId stored (states_of reg d)))"

definition updateIdentitiesAtomically :: "lib0 \<Rightarrow> text_lib \<Rightarrow> jstr list \<Rightarrow> int \<Rightarrow> awareness_identity \<Rightarrow> registry
    \<Rightarrow> (registry \<times> (jstr \<times> byte list) list) option" where
  "updateIdentitiesAtomically L J ds clientId i reg =
     map_option (\<lambda>prepared. (fold (store_identity clientId) prepared reg, map (\<lambda>(d, clock, out). (d, out)) prepared))
       (prepare_identities L J clientId i reg (rev (remdups (rev ds))))"

definition registry_remove :: "lib0 \<Rightarrow> text_lib \<Rightarrow> jstr \<Rightarrow> int \<Rightarrow> registry \<Rightarrow> registry \<times> byte list option" where
  "registry_remove L J d clientId reg =
     (case map_of (states_of reg d) clientId of None \<Rightarrow> (reg, None)
      | Some (clock, prev) \<Rightarrow>
          (delete_state clientId d reg, Some (encodeAwarenessState L J clientId (clock + 1) None)))"

end
