(* ===== verification/Awareness_Identity.thy ===== *)
theory Awareness_Identity
  imports Sync_Awareness
begin

text \<open>
  What leaves the presence registry parses, names the client it was stored for and carries an
  identity of the server: no update of a client can pose as somebody else. The laws of JSON and of
  the string writer are hypotheses.
\<close>

section \<open>JSON text is well-formed\<close>

lemma well_formed_append: "well_formed a \<Longrightarrow> well_formed (a @ b) = well_formed b"
  by (induction a rule: well_formed.induct) (auto split: if_splits list.splits)

lemma well_formed_ascii: "list_all (\<lambda>c. c < 0x80) s \<Longrightarrow> well_formed s"
  by (induction s) (auto simp: ascii_unit)

lemma ascii_js_texts:
  "list_all (\<lambda>c. c < 0x80) (js ''null'')" "list_all (\<lambda>c. c < 0x80) (js ''true'')" "list_all (\<lambda>c. c < 0x80) (js ''false'')"
  "list_all (\<lambda>c. c < 0x80) (js ''['')" "list_all (\<lambda>c. c < 0x80) (js '']'')" "list_all (\<lambda>c. c < 0x80) (js ''{'')"
  "list_all (\<lambda>c. c < 0x80) (js ''}'')" "list_all (\<lambda>c. c < 0x80) (js '':'')"
  by (simp_all add: js_def)

lemma quote_unit_well_formed:
  "\<not> is_high_surrogate c \<Longrightarrow> \<not> is_low_surrogate c \<Longrightarrow> well_formed (quote_unit c)"
  using well_formed_ascii [OF unicode_escape_ascii [THEN conjunct1], of c]
  by (auto simp: quote_unit_def ascii_unit)

lemma quote_units_well_formed: "well_formed (quote_units s)"
proof (induction s rule: quote_units.induct)
  case (2 c)
  show ?case
    using well_formed_ascii [OF unicode_escape_ascii [THEN conjunct1], of c] quote_unit_well_formed [of c] by auto
next
  case (3 c d s)
  then show ?case
    using well_formed_ascii [OF unicode_escape_ascii [THEN conjunct1], of c] quote_unit_well_formed [of c]
    by (auto simp: well_formed_append)
qed simp

lemma json_string_well_formed: "well_formed (json_string s)"
  using quote_units_well_formed [of s]
  by (simp add: json_string_def ascii_unit well_formed_append)

text \<open>The text of a number with a fraction or an exponent.\<close>

definition number_unit :: "code_unit \<Rightarrow> bool" where
  "number_unit c \<longleftrightarrow> in_range 0x30 0x39 c \<or> c = 0x2d \<or> c = 0x2b \<or> c = 0x2e \<or> c = 0x65"

definition decimal_text :: "jstr \<Rightarrow> bool" where
  "decimal_text t \<longleftrightarrow> list_all number_unit t \<and> (0x2e \<in> set t \<or> 0x65 \<in> set t)"

lemma number_unit_ascii: "number_unit c \<Longrightarrow> c < 0x80"
  by (auto simp: number_unit_def in_range_def word_le_nat_alt word_less_nat_alt)

lemma decimal_text_ascii: "decimal_text t \<Longrightarrow> list_all (\<lambda>c. c < 0x80) t"
  using number_unit_ascii by (auto simp: decimal_text_def list_all_iff)

text \<open>
  A finite number, as it is kept: an integer below \<open>10 ^ 21\<close> or the text of another number.
\<close>

fun finite_number :: "jnum \<Rightarrow> bool" where
  "finite_number (JInt i) = (\<bar>i\<bar> < 10 ^ 21)"
| "finite_number (JDec t) = decimal_text t"
| "finite_number (JNonFinite t) = False"

text \<open>
  ECMAScript lists the properties of an object with its array indices first, in ascending order;
  the other keys keep the order in which they were added.
\<close>

definition index_key :: "jstr \<Rightarrow> bool" where
  "index_key k \<longleftrightarrow> k = nat_text (digits_value k) \<and> digits_value k < 2 ^ 32 - 1"

definition property_order :: "jstr list \<Rightarrow> bool" where
  "property_order ks \<longleftrightarrow> sorted_wrt (\<lambda>a b. index_key b \<longrightarrow> index_key a \<and> digits_value a < digits_value b) ks"

text \<open>A value that JSON has a text for and an object can hold, with numbers that satisfy \<open>ok\<close>.\<close>

fun json_value :: "(jnum \<Rightarrow> bool) \<Rightarrow> jval \<Rightarrow> bool" where
  "json_value ok JUndef = False"
| "json_value ok JNull = True"
| "json_value ok (JBool b) = True"
| "json_value ok (JNum n) = ok n"
| "json_value ok (JStr s) = True"
| "json_value ok (JArr vs) = list_all (json_value ok) vs"
| "json_value ok (JObj ps) = (distinct (map fst ps) \<and> property_order (map fst ps)
     \<and> list_all (\<lambda>(k, v). json_value ok v) ps)"

lemma json_value_mono: "json_value ok v \<Longrightarrow> (\<And>n. ok n \<Longrightarrow> ok' n) \<Longrightarrow> json_value ok' v"
  by (induction v) (fastforce simp: list_all_iff)+

lemma joined_well_formed: "\<forall>t \<in> set ts. well_formed t \<Longrightarrow> well_formed (joined ts)"
proof (cases ts)
  case (Cons t us)
  have "\<forall>u \<in> set us. well_formed u \<Longrightarrow> well_formed (concat (map (\<lambda>u. 0x2c # u) us))"
    by (induction us) (simp_all add: ascii_unit well_formed_append)
  moreover assume "\<forall>t \<in> set ts. well_formed t"
  ultimately show ?thesis by (simp add: joined_def Cons well_formed_append)
qed (simp add: joined_def)

lemma json_text_well_formed: "json_value finite_number v \<Longrightarrow> well_formed (json_text v)"
proof (induction v rule: json_text.induct)
  case (1 vs)
  then have "well_formed (joined (map json_text vs))" by (auto simp: list_all_iff intro!: joined_well_formed)
  then show ?case by (simp add: well_formed_ascii ascii_js_texts well_formed_append)
next
  case (2 ps)
  have "well_formed (joined (map (\<lambda>(k, v). json_string k @ js '':'' @ json_text v) ps))"
  proof (rule joined_well_formed, safe)
    fix t assume "t \<in> set (map (\<lambda>(k, v). json_string k @ js '':'' @ json_text v) ps)"
    then obtain k v where kv: "(k, v) \<in> set ps" "t = json_string k @ js '':'' @ json_text v" by auto
    with 2 have "well_formed (json_text v)" by (auto simp: list_all_iff)
    then show "well_formed t"
      by (simp add: kv(2) well_formed_append json_string_well_formed well_formed_ascii ascii_js_texts)
  qed
  then show ?case by (simp add: well_formed_ascii ascii_js_texts well_formed_append)
next
  case (6 n)
  then show ?case by (cases n) (simp_all add: well_formed_ascii ascii_js_texts int_text_ascii decimal_text_ascii)
qed (simp_all add: well_formed_ascii ascii_js_texts json_string_well_formed)

section \<open>What the server relies on\<close>

text \<open>
  A number that \<open>JSON.parse\<close> reads back from the text \<open>JSON.stringify\<close> writes for it. ECMAScript
  promises this of every finite number; the predicate leaves out what \<open>jnum\<close> can hold and
  ECMAScript cannot, like an integer that would be rounded or a fraction with a final zero.
\<close>

definition kept_number :: "text_lib \<Rightarrow> jnum \<Rightarrow> bool" where
  "kept_number J n \<longleftrightarrow> finite_number n \<and> json_parse J (json_number n) = Some (JNum n)"

text \<open>A number that \<open>JSON.parse\<close> gives: a text like \<open>1e999\<close> reads as an infinity.\<close>

fun parsed_number :: "text_lib \<Rightarrow> jnum \<Rightarrow> bool" where
  "parsed_number J (JNonFinite t) = True"
| "parsed_number J n = kept_number J n"

text \<open>
  A value whose numbers are read back is read back from its text, with the keys of its objects in
  the order they are listed in; what is parsed is such a value, infinities aside; \<open>writeVarString\<close>
  writes the UTF-8 encoding as a byte array with its length.
\<close>

definition text_laws :: "lib0 \<Rightarrow> text_lib \<Rightarrow> bool" where
  "text_laws L J \<longleftrightarrow> (\<forall>v. json_value (kept_number J) v \<longrightarrow> json_parse J (json_text v) = Some v)
     \<and> (\<forall>s v. json_parse J s = Some v \<longrightarrow> json_value (parsed_number J) v)
     \<and> (\<forall>s. writeVarString J s = writeVarBytes L (utf8_encode s))"

lemma laws_parse: "text_laws L J \<Longrightarrow> json_value (kept_number J) v \<Longrightarrow> json_parse J (json_text v) = Some v"
  and laws_value: "text_laws L J \<Longrightarrow> json_parse J s = Some v \<Longrightarrow> json_value (parsed_number J) v"
  and laws_write: "text_laws L J \<Longrightarrow> writeVarString J s = writeVarBytes L (utf8_encode s)"
  unfolding text_laws_def by blast+

lemma kept_value_finite: "json_value (kept_number J) v \<Longrightarrow> json_value finite_number v"
  by (erule json_value_mono) (simp add: kept_number_def)

section \<open>Sanitised values\<close>

text \<open>No key that could pose as an identity, at any depth.\<close>

fun clean :: "jval \<Rightarrow> bool" where
  "clean (JArr vs) = list_all clean vs"
| "clean (JObj ps) = list_all (\<lambda>(k, v). \<not> dropped_key k \<and> clean v) ps"
| "clean v = True"

lemmas sanitize_cases = sanitizeJson.simps [of JUndef] sanitizeJson.simps [of JNull]
  sanitizeJson.simps [of "JBool b" for b] sanitizeJson.simps [of "JNum x" for x]
  sanitizeJson.simps [of "JStr s" for s] sanitizeJson.simps [of "JArr vs" for vs] sanitizeJson.simps [of "JObj ps" for ps]

text \<open>Dropping properties keeps the order of the others.\<close>

lemma property_order_Cons: "property_order (k # ks)
    \<longleftrightarrow> (\<forall>b \<in> set ks. index_key b \<longrightarrow> index_key k \<and> digits_value k < digits_value b) \<and> property_order ks"
  by (simp add: property_order_def)

lemma sanitized:
  assumes num: "\<And>n. parsed n \<Longrightarrow> kept n \<or> (\<exists>t. n = JNonFinite t)"
  shows "sanitizeJson v d n = Some (v', n') \<Longrightarrow> json_value parsed v \<Longrightarrow> json_value kept v' \<and> clean v'"
    "sanitize_list vs d n = Some (vs', n') \<Longrightarrow> list_all (json_value parsed) vs
       \<Longrightarrow> list_all (json_value kept) vs' \<and> list_all clean vs'"
    "sanitize_entries ps d n = Some (ps', n') \<Longrightarrow> json_value parsed (JObj ps)
       \<Longrightarrow> json_value kept (JObj ps') \<and> clean (JObj ps') \<and> fst ` set ps' \<subseteq> fst ` set ps"
proof (induction v d n and vs d n and ps d n arbitrary: v' n' and vs' n' and ps' n'
    rule: sanitizeJson_sanitize_list_sanitize_entries.induct)
  case (1 v d n)
  then show ?case using num
    by (cases v) (auto simp: sanitize_cases split: if_splits jnum.splits dest: num)
next
  case (5 k v ps d n)
  from 5(5) have d: "k \<notin> fst ` set ps" "json_value parsed v" "json_value parsed (JObj ps)"
    and order: "\<forall>b \<in> fst ` set ps. index_key b \<longrightarrow> index_key k \<and> digits_value k < digits_value b"
    by (simp_all add: property_order_Cons)
  show ?case
  proof (cases "dropped_key k")
    case True
    with 5(1) [OF True _ d(3)] 5(4) show ?thesis by auto
  next
    case False
    with 5(4) obtain w m qs where
      w: "sanitizeJson v d n = Some (w, m)" "sanitize_entries ps d m = Some (qs, n')" "ps' = (k, w) # qs"
      by (auto split: option.splits)
    from 5(2) [OF False w(1) d(2)] have v: "json_value kept w" "clean w" by simp_all
    have "sanitizeJson v d n = Some (w, m)" by (rule w(1))
    from 5(3) [OF False this refl w(2) d(3)]
    have q: "json_value kept (JObj qs)" "clean (JObj qs)" "fst ` set qs \<subseteq> fst ` set ps" by simp_all
    with d(1) order have "k \<notin> fst ` set qs"
      "\<forall>b \<in> fst ` set qs. index_key b \<longrightarrow> index_key k \<and> digits_value k < digits_value b" by blast+
    with v q False show ?thesis unfolding w(3) by (auto simp: property_order_Cons)
  qed
qed (auto simp: property_order_def split: option.splits)

definition carries_identity :: "awareness_identity \<Rightarrow> jobj \<Rightarrow> bool" where
  "carries_identity i ps \<longleftrightarrow> (\<exists>qs. ps = qs @ identity_entries i \<and> clean (JObj qs))"

lemma identity_keys: "map fst (identity_entries i) = map js [''userId'', ''displayName'', ''role'', ''color'']"
  by (simp add: identity_entries_def)

lemma index_key_digits: "index_key k \<Longrightarrow> list_all (in_range 0x30 0x39) k"
  unfolding index_key_def by (metis nat_text_digits)

lemma identity_no_index: "k \<in> set (map fst (identity_entries i)) \<Longrightarrow> \<not> index_key k"
  unfolding identity_keys using index_key_digits [of k] by (auto simp: js_def in_range_def)

lemma property_order_append:
  "property_order ks \<Longrightarrow> \<forall>k \<in> set ls. \<not> index_key k \<Longrightarrow> property_order (ks @ ls)"
proof -
  assume "\<forall>k \<in> set ls. \<not> index_key k"
  then have "property_order ls" by (induction ls) (auto simp: property_order_def)
  with \<open>\<forall>k \<in> set ls. \<not> index_key k\<close> show "property_order ks \<Longrightarrow> ?thesis"
    by (auto simp: property_order_def sorted_wrt_append)
qed

lemma authoritative_sound:
  assumes "authoritative i ps = Some qs" "json_value (parsed_number J) (JObj ps)"
  shows "json_value (kept_number J) (JObj qs) \<and> carries_identity i qs"
proof -
  from assms(1) obtain ps' n where s: "sanitizeJson (JObj ps) 0 0 = Some (JObj ps', n)" "qs = ps' @ identity_entries i"
    by (auto simp: authoritative_def split: option.splits prod.splits jval.splits)
  have "kept_number J n \<or> (\<exists>t. n = JNonFinite t)" if "parsed_number J n" for n using that by (cases n) simp_all
  from sanitized(1) [OF this s(1) assms(2)] have c: "json_value (kept_number J) (JObj ps')" "clean (JObj ps')" by simp_all
  have "\<not> dropped_key k" if "k \<in> fst ` set ps'" for k using c(2) that by (auto simp: list_all_iff)
  moreover have "dropped_key k" if "k \<in> set (map fst (identity_entries i))" for k
    using that unfolding identity_keys by (auto simp: dropped_key_def reserved_identity_keys_def)
  ultimately have "fst ` set ps' \<inter> fst ` set (identity_entries i) = {}" by auto
  moreover have "distinct (map fst (identity_entries i))" unfolding identity_keys by simp
  moreover have "property_order (map fst (ps' @ identity_entries i))"
    using c(1) identity_no_index unfolding map_append by (intro property_order_append) auto
  ultimately show ?thesis
    using c s(2) by (auto simp: carries_identity_def identity_entries_def)
qed

text \<open>The identity is what a reader of the object sees.\<close>

lemma identity_seen:
  assumes "carries_identity i ps"
  shows "property ps ''userId'' = JStr (i_userId i) \<and> property ps ''displayName'' = JStr (i_displayName i)
    \<and> property ps ''role'' = JStr (i_role i) \<and> property ps ''color'' = JStr (i_color i)"
proof -
  from assms obtain qs where qs: "ps = qs @ identity_entries i" "clean (JObj qs)"
    by (auto simp: carries_identity_def)
  have "map_of qs (js k) = None" if "k \<in> {''userId'', ''displayName'', ''role'', ''color''}" for k
  proof -
    have "dropped_key (js k)" using that by (auto simp: dropped_key_def reserved_identity_keys_def)
    with qs(2) have "js k \<notin> fst ` set qs" by (auto simp: list_all_iff)
    then show ?thesis by (simp add: map_of_eq_None_iff)
  qed
  then show ?thesis by (simp add: property_def qs(1) identity_entries_def map_add_def)
qed

section \<open>Encoding and parsing\<close>

lemma read_canonical_write:
  "lib0_laws L \<Longrightarrow> 0 \<le> v \<Longrightarrow> v \<le> mx \<Longrightarrow> v \<le> max_safe_integer
     \<Longrightarrow> readCanonicalVarUint L mx (lib_writeVarUint L v @ rest) = Some (v, rest)"
  using lib0_var [of L v rest] by (simp add: readCanonicalVarUint_def safe_between_def)

lemma read_canonical_range:
  "readCanonicalVarUint L mx bs = Some (v, rest) \<Longrightarrow> 0 \<le> v \<and> v \<le> mx \<and> v \<le> max_safe_integer"
  by (auto simp: readCanonicalVarUint_def safe_between_def split: option.splits if_splits)

lemma ascii_no_mark: "c < 0x80 \<Longrightarrow> \<not> starts_with_mark (utf8_encode (c # s))"
proof -
  assume c: "c < 0x80"
  then have u: "unat c < 0x80" by (simp add: word_less_nat_alt)
  have "utf8_encode (c # s) = to_byte (unat c) # utf8_encode s"
    using ascii_unit [OF c] u by (simp add: utf8_encode_def scalar_bytes_def)
  moreover have "to_byte (unat c) \<noteq> 0xef"
  proof
    assume "to_byte (unat c) = 0xef"
    then have "unat (to_byte (unat c)) = unat (0xef :: byte)" by simp
    then show False using u by simp
  qed
  ultimately show ?thesis by (simp add: starts_with_mark_def byte_order_mark_def)
qed

definition state_value :: "jobj option \<Rightarrow> jval" where
  "state_value state = (case state of None \<Rightarrow> JNull | Some ps \<Rightarrow> JObj ps)"

lemma state_text_decodes:
  assumes "json_value finite_number (state_value state)"
  shows "utf8_decode (utf8_encode (json_text (state_value state))) = Some (json_text (state_value state))"
proof -
  have "\<exists>c s. json_text (state_value state) = c # s \<and> c < 0x80"
    by (cases state) (simp_all add: state_value_def js_def)
  then show ?thesis
    using utf8_decode_encode [OF json_text_well_formed [OF assms]] ascii_no_mark by metis
qed

lemma parse_encoded:
  assumes L: "lib0_laws L" and J: "text_laws L J"
    and r: "0 \<le> cid" "cid \<le> 0xffffffff" "0 \<le> clock" "clock \<le> max_awareness_clock"
    and v: "json_value (kept_number J) (state_value state)"
    and small: "length (utf8_encode (json_text (state_value state))) \<le> max_awareness_bytes"
  shows "parseAwarenessUpdate L J (encodeAwarenessState L J cid clock state)
    = Some \<lparr> u_clientId = cid, u_clock = clock, u_state = state \<rparr>"
proof -
  let ?b = "utf8_encode (json_text (state_value state))"
  have enc: "encodeAwarenessState L J cid clock state
      = lib_writeVarUint L 1 @ lib_writeVarUint L cid @ lib_writeVarUint L clock @ lib_writeVarUint L (int (length ?b)) @ ?b"
    using laws_write [OF J] lib0_array [OF L]
    by (simp add: encodeAwarenessState_def state_value_def writeVarBytes_def)
  have "readStateJson L J (lib_writeVarUint L (int (length ?b)) @ ?b) = Some (state, [])"
    using read_canonical_write [OF L, of "int (length ?b)" "int max_awareness_bytes" ?b] small
      laws_parse [OF J v] state_text_decodes [OF kept_value_finite [OF v]] lib0_read_array [OF L, of "length ?b" ?b]
    by (cases state) (simp_all add: readStateJson_def max_awareness_bytes_def max_safe_integer_def state_value_def)
  then show ?thesis
    using r read_canonical_write [OF L] unfolding enc parseAwarenessUpdate_def
    by (simp add: max_safe_integer_def max_awareness_clock_def)
qed

lemma parse_range:
  assumes J: "text_laws L J" and p: "parseAwarenessUpdate L J update = Some p"
  shows "0 \<le> u_clientId p \<and> u_clientId p \<le> 0xffffffff \<and> 0 \<le> u_clock p \<and> u_clock p \<le> max_awareness_clock
    \<and> json_value (parsed_number J) (state_value (u_state p))"
proof -
  from p obtain n r1 c r2 k r3 st r4 where
    "readCanonicalVarUint L 0xffffffff r1 = Some (c, r2)" "readCanonicalVarUint L max_awareness_clock r2 = Some (k, r3)"
    and st: "readStateJson L J r3 = Some (st, r4)" and "p = \<lparr> u_clientId = c, u_clock = k, u_state = st \<rparr>"
    by (auto simp: parseAwarenessUpdate_def bind_eq_Some_conv split: if_splits)
  moreover from st obtain y v rest where y: "json_parse J y = Some v"
    and v: "(case v of JNull \<Rightarrow> Some (None, rest) | JObj ps \<Rightarrow> Some (Some ps, rest) | _ \<Rightarrow> None) = Some (st, r4)"
    by (auto simp: readStateJson_def bind_eq_Some_conv Let_def split: if_split_asm prod.split_asm)
  have "v = state_value st" using v by (cases v) (auto simp: state_value_def)
  then have "json_value (parsed_number J) (state_value st)" using laws_value [OF J y] by simp
  ultimately show ?thesis by (auto dest!: read_canonical_range)
qed

text \<open>An update that the server wrote for client \<open>k\<close> with the identity \<open>i\<close>.\<close>

definition issued_update :: "lib0 \<Rightarrow> text_lib \<Rightarrow> awareness_identity \<Rightarrow> int \<Rightarrow> int \<Rightarrow> jobj \<Rightarrow> byte list \<Rightarrow> bool" where
  "issued_update L J i k clock ps out \<longleftrightarrow> out = encodeAwarenessState L J k clock (Some ps)
     \<and> length out \<le> max_awareness_bytes \<and> json_value (kept_number J) (JObj ps) \<and> carries_identity i ps
     \<and> 0 \<le> k \<and> k \<le> 0xffffffff \<and> 0 \<le> clock \<and> clock \<le> max_awareness_clock"

lemma state_text_short:
  "lib0_laws L \<Longrightarrow> text_laws L J \<Longrightarrow> length (encodeAwarenessState L J k clock state) \<le> max_awareness_bytes
     \<Longrightarrow> length (utf8_encode (json_text (state_value state))) \<le> max_awareness_bytes"
  by (simp add: encodeAwarenessState_def state_value_def laws_write writeVarBytes_def lib0_array)

lemma issued_parses:
  assumes "lib0_laws L" "text_laws L J" "issued_update L J i k clock ps out"
  shows "parseAwarenessUpdate L J out = Some \<lparr> u_clientId = k, u_clock = clock, u_state = Some ps \<rparr>"
  using assms(3) parse_encoded [OF assms(1,2), of k clock "Some ps"] state_text_short [OF assms(1,2), of k clock "Some ps"]
  by (auto simp: issued_update_def state_value_def)

lemma authorize_sound:
  assumes L: "lib0_laws L" and J: "text_laws L J"
    and a: "authorizeAwarenessUpdate L J update cid i = Some (u, out)"
  shows "u_clientId u = cid \<and> (\<exists>p. parseAwarenessUpdate L J update = Some p \<and> u_clock u = u_clock p
      \<and> (case u_state p of None \<Rightarrow> u = p \<and> out = update
         | Some qs \<Rightarrow> (\<exists>ps. u_state u = Some ps \<and> issued_update L J i cid (u_clock u) ps out)))"
proof -
  from a obtain p where p: "parseAwarenessUpdate L J update = Some p" "u_clientId p = cid"
    by (auto simp: authorizeAwarenessUpdate_def bind_eq_Some_conv split: if_splits)
  show ?thesis
  proof (cases "u_state p")
    case None
    with a p show ?thesis by (auto simp: authorizeAwarenessUpdate_def)
  next
    case (Some ps)
    with a p obtain st where st: "authoritative i ps = Some st" "out = encodeAwarenessState L J cid (u_clock p) (Some st)"
      "length out \<le> max_awareness_bytes" "u = p\<lparr> u_state := Some st \<rparr>"
      by (auto simp: authorizeAwarenessUpdate_def bind_eq_Some_conv Let_def split: if_splits)
    note r = parse_range [OF J p(1)]
    have "json_value (kept_number J) (JObj st) \<and> carries_identity i st"
      using authoritative_sound [OF st(1), of J] r Some by (simp add: state_value_def)
    with st r p(2) have "issued_update L J i cid (u_clock u) st out" by (simp add: issued_update_def)
    with p st(4) Some show ?thesis by simp
  qed
qed

end
