(* ===== verification/Json_Reader.thy ===== *)
theory Json_Reader
  imports Awareness_Identity Board_Library
begin

text \<open>
  A reader of the texts \<open>JSON.stringify\<close> writes, with its proof: the laws of \<open>text_laws\<close> can hold,
  and the theorems about presence are applied to it.
\<close>

section \<open>Strings\<close>

definition hex_value :: "code_unit \<Rightarrow> nat" where
  "hex_value c = (if in_range 0x30 0x39 c then unat c - 0x30 else unat c - 0x57)"

definition short_escapes :: "(code_unit \<times> code_unit) list" where
  "short_escapes = [(0x22, 0x22), (0x5c, 0x5c), (0x62, 0x08), (0x74, 0x09), (0x6e, 0x0a), (0x66, 0x0c), (0x72, 0x0d)]"

fun read_escape :: "jstr \<Rightarrow> (code_unit \<times> jstr) option" where
  "read_escape [] = None"
| "read_escape (x # r) =
     (if x = 0x75 then
        (case r of a # b # d # e # t \<Rightarrow>
           Some (to_unit (hex_value a * 4096 + hex_value b * 256 + hex_value d * 16 + hex_value e), t)
         | _ \<Rightarrow> None)
      else map_option (\<lambda>c. (c, r)) (map_of short_escapes x))"

lemma read_escape_shorter: "read_escape s = Some (c, r) \<Longrightarrow> length r < length s"
  by (cases s) (auto split: if_splits list.splits)

function read_string :: "jstr \<Rightarrow> (jstr \<times> jstr) option" where
  "read_string s =
     (case s of [] \<Rightarrow> None
      | c # r \<Rightarrow>
          if c = 0x22 then Some ([], r)
          else if c \<noteq> 0x5c then map_option (apfst (Cons c)) (read_string r)
          else (case read_escape r of None \<Rightarrow> None | Some (d, t) \<Rightarrow> map_option (apfst (Cons d)) (read_string t)))"
  by pat_completeness auto
termination by (relation "measure length") (auto dest: read_escape_shorter)

declare read_string.simps [simp del]

lemma read_string_Cons:
  "read_string (c # r) = (if c = 0x22 then Some ([], r)
     else if c \<noteq> 0x5c then map_option (apfst (Cons c)) (read_string r)
     else (case read_escape r of None \<Rightarrow> None | Some (d, t) \<Rightarrow> map_option (apfst (Cons d)) (read_string t)))"
  by (subst read_string.simps) simp

lemma hex_value_digit: "n < 16 \<Longrightarrow> hex_value (hex_digit n) = n"
proof -
  have "list_all (\<lambda>k. hex_value (hex_digit k) = k) [0..<16]"
    by (simp add: hex_value_def hex_digit_def upt_rec in_range_def)
  then show "n < 16 \<Longrightarrow> ?thesis" by (simp add: list_all_iff)
qed

lemma four_digits:
  "x = q1 * 16 + r1 \<Longrightarrow> q1 = q2 * 16 + r2 \<Longrightarrow> q2 = q3 * 16 + r3
     \<Longrightarrow> q3 * 4096 + r3 * 256 + r2 * 16 + r1 = (x :: nat)"
  by simp

lemma read_unicode_escape: "read_string (unicode_escape c @ t) = map_option (apfst (Cons c)) (read_string t)"
proof -
  have "unat c < 16 * 4096" using unit_less [of c] by simp
  then have "unat c div 4096 < 16" by (rule less_mult_imp_div_less)
  moreover have "unat c div 256 = unat c div 16 div 16" "unat c div 4096 = unat c div 16 div 16 div 16"
    by (simp_all add: div_mult2_eq [symmetric])
  then have "unat c div 4096 * 4096 + unat c div 256 mod 16 * 256 + unat c div 16 mod 16 * 16 + unat c mod 16 = unat c"
    by (simp only: four_digits [OF div_mult_mod_eq [symmetric] div_mult_mod_eq [symmetric] div_mult_mod_eq [symmetric]])
  ultimately show ?thesis
    by (simp add: unicode_escape_def read_string_Cons hex_value_digit)
qed

lemma read_quote_unit: "read_string (quote_unit c @ t) = map_option (apfst (Cons c)) (read_string t)"
  by (auto simp: quote_unit_def read_string_Cons read_unicode_escape short_escapes_def)

lemma read_quoted: "read_string (quote_units s @ 0x22 # r) = Some (s, r)"
proof (induction s rule: quote_units.induct)
  case 1
  show ?case by (simp add: read_string_Cons)
next
  case (2 c)
  show ?case by (simp add: read_unicode_escape read_quote_unit read_string_Cons)
next
  case (3 c d s)
  have plain: "c \<noteq> 0x22 \<and> c \<noteq> 0x5c" if "is_high_surrogate c \<or> is_low_surrogate c" for c
    using that by (auto simp: surrogate_ranges)
  show ?case
    using 3 plain [of c] plain [of d] by (auto simp: read_unicode_escape read_quote_unit read_string_Cons)
qed

section \<open>Numbers\<close>

definition read_number :: "jstr \<Rightarrow> (jval \<times> jstr) option" where
  "read_number s =
     (let t = takeWhile number_unit s; r = dropWhile number_unit s
      in if t = [] then None
         else if 0x2e \<in> set t \<or> 0x65 \<in> set t then Some (JNum (JDec t), r)
         else if hd t = 0x2d then Some (JNum (JInt (- int (digits_value (tl t)))), r)
         else Some (JNum (JInt (int (digits_value t))), r))"

definition number_ends :: "jstr \<Rightarrow> bool" where
  "number_ends r \<longleftrightarrow> (case r of [] \<Rightarrow> True | c # _ \<Rightarrow> \<not> number_unit c)"

lemma span_number:
  "list_all number_unit t \<Longrightarrow> number_ends r \<Longrightarrow> takeWhile number_unit (t @ r) = t \<and> dropWhile number_unit (t @ r) = r"
  by (cases r) (auto simp: number_ends_def list_all_iff takeWhile_append2 dropWhile_append2)

lemma nat_text_units: "list_all number_unit (nat_text n)" "0x2e \<notin> set (nat_text n)" "0x65 \<notin> set (nat_text n)"
  "hd (nat_text n) \<noteq> 0x2d"
proof -
  have d: "\<forall>c \<in> set (nat_text n). in_range 0x30 0x39 c" using nat_text_digits [of n] by (simp add: list_all_iff)
  then show "list_all number_unit (nat_text n)" by (simp add: list_all_iff number_unit_def)
  show "0x2e \<notin> set (nat_text n)" "0x65 \<notin> set (nat_text n)" using d by (auto simp: in_range_def)
  have "hd (nat_text n) \<in> set (nat_text n)" by simp
  with d have "in_range 0x30 0x39 (hd (nat_text n))" by blast
  then show "hd (nat_text n) \<noteq> 0x2d" by (auto simp: in_range_def)
qed

lemma int_text_units: "list_all number_unit (int_text i)" "int_text i \<noteq> []"
  by (simp_all add: int_text_def nat_text_units number_unit_def)

lemma read_int_text: "number_ends r \<Longrightarrow> read_number (int_text i @ r) = Some (JNum (JInt i), r)"
  using span_number [OF int_text_units(1), of r i] nat_text_units
  by (auto simp: read_number_def Let_def int_text_def digits_value_nat_text number_unit_def)

lemma read_dec_text: "decimal_text t \<Longrightarrow> number_ends r \<Longrightarrow> read_number (t @ r) = Some (JNum (JDec t), r)"
  using span_number [of t r] by (auto simp: read_number_def decimal_text_def)

section \<open>Values\<close>

definition after :: "string \<Rightarrow> jval \<Rightarrow> jstr \<Rightarrow> (jval \<times> jstr) option" where
  "after w v s = (if take (length w) s = js w then Some (v, drop (length w) s) else None)"

fun read_value :: "nat \<Rightarrow> jstr \<Rightarrow> (jval \<times> jstr) option"
  and read_items :: "nat \<Rightarrow> jstr \<Rightarrow> (jval list \<times> jstr) option"
  and read_members :: "nat \<Rightarrow> jstr \<Rightarrow> (jobj \<times> jstr) option" where
  "read_value 0 s = None"
| "read_value (Suc n) s =
     (case s of [] \<Rightarrow> None
      | c # r \<Rightarrow>
          if c = 0x6e then after ''null'' JNull s
          else if c = 0x74 then after ''true'' (JBool True) s
          else if c = 0x66 then after ''false'' (JBool False) s
          else if c = 0x22 then map_option (apfst JStr) (read_string r)
          else if c = 0x5b then
            (if r \<noteq> [] \<and> hd r = 0x5d then Some (JArr [], tl r) else map_option (apfst JArr) (read_items n r))
          else if c = 0x7b then
            (if r \<noteq> [] \<and> hd r = 0x7d then Some (JObj [], tl r) else map_option (apfst JObj) (read_members n r))
          else read_number s)"
| "read_items 0 s = None"
| "read_items (Suc n) s =
     (case read_value n s of None \<Rightarrow> None
      | Some (v, r) \<Rightarrow>
          if r = [] then None
          else if hd r = 0x2c then map_option (apfst (Cons v)) (read_items n (tl r))
          else if hd r = 0x5d then Some ([v], tl r) else None)"
| "read_members 0 s = None"
| "read_members (Suc n) s =
     (if s = [] \<or> hd s \<noteq> 0x22 then None
      else case read_string (tl s) of None \<Rightarrow> None
        | Some (k, q) \<Rightarrow>
            if q = [] \<or> hd q \<noteq> 0x3a then None
            else (case read_value n (tl q) of None \<Rightarrow> None
              | Some (v, r) \<Rightarrow>
                  if r = [] then None
                  else if hd r = 0x2c then map_option (apfst (Cons (k, v))) (read_members n (tl r))
                  else if hd r = 0x7d then Some ([(k, v)], tl r) else None))"

text \<open>The fuel a value needs.\<close>

fun depth_cost :: "jval \<Rightarrow> nat" where
  "depth_cost (JArr vs) = 1 + sum_list (map (\<lambda>v. Suc (depth_cost v)) vs)"
| "depth_cost (JObj ps) = 1 + sum_list (map (\<lambda>(k, v). Suc (depth_cost v)) ps)"
| "depth_cost v = 1"

lemma joined_Cons: "joined (t # ts) = t @ (if ts = [] then [] else 0x2c # joined ts)"
  by (cases ts) (simp_all add: joined_def)

lemma joined_Nil [simp]: "joined [] = []"
  by (simp add: joined_def)

lemma length_joined: "sum_list (map length ts) + length ts \<le> length (joined ts) + 1"
proof (induction ts)
  case (Cons t ts)
  then show ?case by (cases ts) (simp_all add: joined_Cons)
qed simp

lemma json_number_units:
  "json_value finite_number (JNum n) \<Longrightarrow> list_all number_unit (json_number n) \<and> json_number n \<noteq> []"
  using int_text_units by (cases n) (auto simp: decimal_text_def)

lemma number_start:
  assumes "json_value finite_number (JNum n)"
  obtains c t where "json_number n = c # t" "number_unit c"
  using json_number_units [OF assms] by (cases "json_number n") auto

lemma value_text_start:
  assumes "json_value finite_number v"
  shows "\<exists>c t. json_text v = c # t \<and> c \<noteq> 0x5d \<and> c \<noteq> 0x7d"
proof (cases v)
  case (JNum n)
  with assms obtain c t where "json_number n = c # t" "number_unit c" by (auto intro: number_start)
  with JNum show ?thesis by (auto simp: number_unit_def in_range_def)
qed (use assms in \<open>auto simp: js_def json_string_def\<close>)

lemma read_number_value:
  assumes v: "json_value finite_number (JNum n)" and r: "number_ends r" and "0 < f"
  shows "read_value f (json_number n @ r) = Some (JNum n, r)"
proof -
  obtain m where f: "f = Suc m" using \<open>0 < f\<close> by (cases f) auto
  obtain c t where ct: "json_number n = c # t" "number_unit c" by (rule number_start [OF v])
  have "read_number (json_number n @ r) = Some (JNum n, r)"
    using v r read_int_text read_dec_text by (cases n) auto
  with ct show ?thesis by (auto simp: f number_unit_def in_range_def)
qed

lemma read_word:
  "w \<noteq> [] \<Longrightarrow> after w v (js w @ r) = Some (v, r)"
  by (simp add: after_def js_def)

text \<open>What follows a value inside an array or an object ends a number.\<close>

lemma reads_items:
  assumes "\<And>v n r. v \<in> set vs \<Longrightarrow> depth_cost v \<le> n \<Longrightarrow> number_ends r \<Longrightarrow> read_value n (json_text v @ r) = Some (v, r)"
    and "vs \<noteq> []" "sum_list (map (\<lambda>v. Suc (depth_cost v)) vs) \<le> n"
  shows "read_items n (joined (map json_text vs) @ 0x5d # r) = Some (vs, r)"
  using assms
proof (induction vs arbitrary: n)
  case (Cons v vs)
  from Cons.prems(3) obtain m where m: "n = Suc m" "depth_cost v \<le> m" "sum_list (map (\<lambda>v. Suc (depth_cost v)) vs) \<le> m"
    by (cases n) auto
  have ends: "number_ends (0x5d # q)" "number_ends (0x2c # q)" for q
    by (simp_all add: number_ends_def number_unit_def in_range_def)
  show ?case
  proof (cases "vs = []")
    case True
    with Cons.prems(1) [of v m "0x5d # r"] m ends show ?thesis by (simp add: joined_Cons)
  next
    case False
    with Cons.IH [of m] Cons.prems(1) m(3) have "read_items m (joined (map json_text vs) @ 0x5d # r) = Some (vs, r)" by simp
    with False Cons.prems(1) [of v m "0x2c # joined (map json_text vs) @ 0x5d # r"] m ends show ?thesis
      by (simp add: joined_Cons)
  qed
qed simp

lemma reads_members:
  assumes "\<And>k v n r. (k, v) \<in> set ps \<Longrightarrow> depth_cost v \<le> n \<Longrightarrow> number_ends r \<Longrightarrow> read_value n (json_text v @ r) = Some (v, r)"
    and "ps \<noteq> []" "sum_list (map (\<lambda>(k, v). Suc (depth_cost v)) ps) \<le> n"
  shows "read_members n (joined (map (\<lambda>(k, v). json_string k @ js '':'' @ json_text v) ps) @ 0x7d # r) = Some (ps, r)"
  using assms
proof (induction ps arbitrary: n)
  case (Cons p ps)
  obtain k v where p: "p = (k, v)" by (cases p)
  let ?texts = "joined (map (\<lambda>(k, v). json_string k @ js '':'' @ json_text v) ps)"
  from Cons.prems(3) p obtain m where m: "n = Suc m" "depth_cost v \<le> m" "sum_list (map (\<lambda>(k, v). Suc (depth_cost v)) ps) \<le> m"
    by (cases n) auto
  have ends: "number_ends (0x7d # q)" "number_ends (0x2c # q)" for q
    by (simp_all add: number_ends_def number_unit_def in_range_def)
  have key: "read_string (quote_units k @ 0x22 # 0x3a # q) = Some (k, 0x3a # q)" for q by (rule read_quoted)
  have colon: "js '':'' = [0x3a]" by (simp add: js_def)
  show ?case
  proof (cases "ps = []")
    case True
    with Cons.prems(1) [of k v m "0x7d # r"] m ends p show ?thesis
      by (simp add: joined_Cons json_string_def colon key)
  next
    case False
    have "read_value n (json_text v @ r) = Some (v, r)" if "(k, v) \<in> set ps" "depth_cost v \<le> n" "number_ends r" for k v n r
      by (rule Cons.prems(1) [of k]) (use that in simp_all)
    then have "read_members m (?texts @ 0x7d # r) = Some (ps, r)" using False m(3) by (intro Cons.IH)
    with False Cons.prems(1) [of k v m "0x2c # ?texts @ 0x7d # r"] m ends p show ?thesis
      by (simp add: joined_Cons json_string_def colon key)
  qed
qed simp

lemma read_value_text:
  "json_value finite_number v \<Longrightarrow> depth_cost v \<le> n \<Longrightarrow> number_ends r \<Longrightarrow> read_value n (json_text v @ r) = Some (v, r)"
proof (induction v arbitrary: n r)
  case (JArr vs)
  then obtain m where n: "n = Suc m" by (cases n) auto
  have bracket: "js ''['' = [0x5b]" "js '']'' = [0x5d]" by (simp_all add: js_def)
  show ?case
  proof (cases vs)
    case Nil
    then show ?thesis by (simp add: n bracket)
  next
    case (Cons w ws)
    have "read_items m (joined (map json_text vs) @ 0x5d # r) = Some (vs, r)"
      using JArr Cons n by (intro reads_items) (auto simp: list_all_iff)
    moreover have "\<exists>c t. joined (map json_text vs) = c # t \<and> c \<noteq> 0x5d"
      using value_text_start [of w] JArr.prems(1) Cons by (auto simp: joined_Cons)
    ultimately show ?thesis by (auto simp: n bracket)
  qed
next
  case (JObj ps)
  then obtain m where n: "n = Suc m" by (cases n) auto
  have brace: "js ''{'' = [0x7b]" "js ''}'' = [0x7d]" by (simp_all add: js_def)
  show ?case
  proof (cases ps)
    case Nil
    then show ?thesis by (simp add: n brace)
  next
    case (Cons p qs)
    have "read_members m (joined (map (\<lambda>(k, v). json_string k @ js '':'' @ json_text v) ps) @ 0x7d # r) = Some (ps, r)"
      using JObj Cons n by (intro reads_members) (fastforce simp: list_all_iff)+
    moreover have "\<exists>t. joined (map (\<lambda>(k, v). json_string k @ js '':'' @ json_text v) ps) = 0x22 # t"
      using Cons by (cases p) (simp add: joined_Cons json_string_def)
    ultimately show ?thesis by (auto simp: n brace)
  qed
next
  case (JNum x)
  then show ?case by (simp add: read_number_value)
next
  case (JStr s)
  then obtain m where "n = Suc m" by (cases n) auto
  then show ?case using read_quoted [of s r] by (simp add: json_string_def)
next
  case JNull
  then obtain m where "n = Suc m" by (cases n) auto
  then show ?case using read_word [of "''null''" JNull r] by (simp add: js_def)
next
  case (JBool b)
  then obtain m where "n = Suc m" by (cases n) auto
  then show ?case
    using read_word [of "''true''" "JBool True" r] read_word [of "''false''" "JBool False" r] by (simp add: js_def)
qed simp

lemma cost_le_length: "json_value finite_number v \<Longrightarrow> depth_cost v \<le> 2 * length (json_text v)"
proof (induction v)
  case (JArr vs)
  then have "sum_list (map (\<lambda>v. Suc (depth_cost v)) vs) \<le> sum_list (map (\<lambda>v. 2 * length (json_text v) + 1) vs)"
    by (intro sum_list_mono) (auto simp: list_all_iff)
  also have "\<dots> = 2 * sum_list (map length (map json_text vs)) + length vs"
    by (induction vs) simp_all
  finally show ?case using length_joined [of "map json_text vs"] by (simp add: js_def)
next
  case (JObj ps)
  let ?t = "\<lambda>(k, v). json_string k @ js '':'' @ json_text v"
  have "sum_list (map (\<lambda>(k, v). Suc (depth_cost v)) ps) \<le> sum_list (map (\<lambda>p. 2 * length (?t p) + 1) ps)"
    using JObj by (intro sum_list_mono) (fastforce simp: list_all_iff)
  also have "\<dots> = 2 * sum_list (map length (map ?t ps)) + length ps"
    by (induction ps) simp_all
  finally show ?case using length_joined [of "map ?t ps"] by (simp add: js_def)
next
  case (JNum n)
  then show ?case using json_number_units [of n] by (cases "json_number n") auto
next
  case (JStr s)
  then show ?case by (simp add: json_string_def)
qed (simp_all add: js_def)

section \<open>The laws\<close>

definition json_reader :: "jstr \<Rightarrow> jval option" where
  "json_reader s = (case read_value (2 * length s + 2) s of
     Some (v, r) \<Rightarrow> if r = [] \<and> json_value finite_number v then Some v else None | None \<Rightarrow> None)"

definition demo_text_lib :: text_lib where
  "demo_text_lib = \<lparr> json_parse = json_reader, writeVarString = (\<lambda>s. writeVarBytes base128 (utf8_encode s)) \<rparr>"

lemma json_reader_text: "json_value finite_number v \<Longrightarrow> json_reader (json_text v) = Some v"
proof -
  assume v: "json_value finite_number v"
  then have "depth_cost v \<le> 2 * length (json_text v) + 2" using cost_le_length by (simp add: le_SucI)
  from read_value_text [OF v this, of "[]"] v show ?thesis
    by (simp add: json_reader_def number_ends_def)
qed

lemma demo_kept_number: "kept_number demo_text_lib n = finite_number n"
  using json_reader_text [of "JNum n"] by (auto simp: kept_number_def demo_text_lib_def)

lemma demo_text_laws: "text_laws base128 demo_text_lib"
proof -
  have kept: "kept_number demo_text_lib = finite_number" by (simp add: fun_eq_iff demo_kept_number)
  have "parsed_number demo_text_lib n" if "finite_number n" for n
    using that demo_kept_number by (cases n) simp_all
  then have "json_value (parsed_number demo_text_lib) v" if "json_reader s = Some v" for s v
    using that by (auto simp: json_reader_def split: option.splits if_splits intro: json_value_mono)
  then show ?thesis
    unfolding text_laws_def kept by (simp add: demo_text_lib_def json_reader_text)
qed

end
