(* ===== verification/Awareness_Registry.thy ===== *)
theory Awareness_Registry
  imports Json_Reader
begin

text \<open>
  The invariant of the presence registry over everything the server does to it, and the atomic
  change of an identity in all documents.
\<close>

section \<open>Entries\<close>

text \<open>\<open>ids c\<close> are the identities the server used for client \<open>c\<close>.\<close>

definition authentic :: "lib0 \<Rightarrow> text_lib \<Rightarrow> (int \<Rightarrow> awareness_identity set) \<Rightarrow> int \<Rightarrow> int \<times> byte list \<Rightarrow> bool" where
  "authentic L J ids k stored \<longleftrightarrow> (\<exists>i \<in> ids k. \<exists>ps. issued_update L J i k (fst stored) ps (snd stored))"

definition registry_ok :: "lib0 \<Rightarrow> text_lib \<Rightarrow> (int \<Rightarrow> awareness_identity set) \<Rightarrow> registry \<Rightarrow> bool" where
  "registry_ok L J ids reg \<longleftrightarrow> (\<forall>d s. reg d = Some s \<longrightarrow> s \<noteq> [] \<and> distinct (map fst s)
     \<and> (\<forall>(k, st) \<in> set s. authentic L J ids k st))"

lemma registry_okD:
  "registry_ok L J ids reg \<Longrightarrow> distinct (map fst (states_of reg d)) \<and> (\<forall>(k, st) \<in> set (states_of reg d). authentic L J ids k st)"
proof (cases "reg d")
  case (Some s)
  assume "registry_ok L J ids reg"
  with Some show ?thesis unfolding registry_ok_def states_of_def by simp
qed (simp add: states_of_def)

lemma registry_ok_lookup:
  "registry_ok L J ids reg \<Longrightarrow> map_of (states_of reg d) k = Some st \<Longrightarrow> authentic L J ids k st"
  using registry_okD [of L J ids reg d] by (auto dest: map_of_SomeD)

lemma registry_ok_put:
  assumes r: "registry_ok L J ids reg" and a: "authentic L J ids k st"
  shows "registry_ok L J ids (reg(d \<mapsto> AList.update k st (states_of reg d)))"
proof -
  have "AList.update k st s \<noteq> []" for s :: "(int \<times> (int \<times> byte list)) list" by (cases s) auto
  moreover have "distinct (map fst (AList.update k st (states_of reg d)))"
    using registry_okD [OF r, of d] by (simp add: distinct_update)
  moreover have "authentic L J ids k' st'" if "(k', st') \<in> set (AList.update k st (states_of reg d))" for k' st'
  proof -
    have "map_of (AList.update k st (states_of reg d)) k' = Some st'"
      using that registry_okD [OF r, of d] by (intro map_of_is_SomeI) (simp_all add: distinct_update)
    then show ?thesis using a registry_ok_lookup [OF r] by (auto simp: update_conv split: if_splits)
  qed
  ultimately show ?thesis using r by (auto simp: registry_ok_def)
qed

lemma registry_ok_delete:
  assumes r: "registry_ok L J ids reg"
  shows "registry_ok L J ids (delete_state k d reg)"
proof -
  have "distinct (map fst (AList.delete k (states_of reg d)))"
    using registry_okD [OF r, of d] by (simp add: distinct_delete)
  moreover have "\<forall>(k', st) \<in> set (AList.delete k (states_of reg d)). authentic L J ids k' st"
    using registry_okD [OF r, of d] by (auto simp: AList.delete_eq)
  ultimately show ?thesis
    using r by (auto simp: registry_ok_def delete_state_def Let_def split: option.splits)
qed

lemma states_of_delete: "states_of (delete_state k d reg) d' = (if d' = d then AList.delete k (states_of reg d) else states_of reg d')"
  by (auto simp: delete_state_def states_of_def Let_def split: option.splits)

section \<open>What the server does\<close>

lemma accept_ok:
  assumes L: "lib0_laws L" "text_laws L J" and r: "registry_ok L J ids reg"
    and a: "authorizeAwarenessUpdate L J update cid i = Some (u, out)" "i \<in> ids cid"
  shows "registry_ok L J ids (fst (registry_accept d u out reg))"
proof (cases "u_state u")
  case None
  then show ?thesis using r registry_ok_delete [OF r]
    by (auto simp: registry_accept_def split: option.splits)
next
  case (Some ps)
  from authorize_sound [OF L a(1)] Some have "u_clientId u = cid" "issued_update L J i cid (u_clock u) ps out"
    by (auto split: option.splits)
  then have "authentic L J ids (u_clientId u) (u_clock u, out)" using a(2) by (auto simp: authentic_def)
  then show ?thesis using r registry_ok_put [OF r] Some
    by (auto simp: registry_accept_def split: option.splits)
qed

lemma advanced:
  assumes L: "lib0_laws L" "text_laws L J" and u: "issued_update L J j k clock ps prev" "clock < max_awareness_clock"
    and a: "authorizeAwarenessUpdate L J (encodeAwarenessState L J k (clock + 1) (Some ps)) k i = Some (v, out)"
  shows "u_clock v = clock + 1 \<and> (\<exists>qs. issued_update L J i k (clock + 1) qs out)"
proof -
  from u have "parseAwarenessUpdate L J (encodeAwarenessState L J k (clock + 1) (Some ps))
      = Some \<lparr> u_clientId = k, u_clock = clock + 1, u_state = Some ps \<rparr>"
    using state_text_short [OF L, of k clock "Some ps"]
    by (intro parse_encoded [OF L]) (auto simp: issued_update_def state_value_def)
  with authorize_sound [OF L a] show ?thesis by auto
qed

lemma prepared:
  assumes L: "lib0_laws L" "text_laws L J" and r: "registry_ok L J ids reg"
  shows "prepare_identities L J cid i reg ds = Some prepared \<Longrightarrow>
    map fst prepared = filter (\<lambda>d. map_of (states_of reg d) cid \<noteq> None) ds
    \<and> (\<forall>(d, clock, out) \<in> set prepared. \<exists>prev ps. map_of (states_of reg d) cid = Some (clock - 1, prev)
         \<and> issued_update L J i cid clock ps out)"
proof (induction ds arbitrary: prepared)
  case (Cons d ds)
  show ?case
  proof (cases "map_of (states_of reg d) cid")
    case (Some st)
    obtain clock prev where st: "st = (clock, prev)" by (cases st)
    from registry_ok_lookup [OF r Some] obtain j ps where j: "issued_update L J j cid clock ps prev"
      by (auto simp: authentic_def st)
    with Cons.prems Some st issued_parses [OF L j] obtain v out rest where
      v: "authorizeAwarenessUpdate L J (encodeAwarenessState L J cid (clock + 1) (Some ps)) cid i = Some (v, out)"
      and rest: "prepare_identities L J cid i reg ds = Some rest" "prepared = (d, (u_clock v, out)) # rest"
      and small: "clock < max_awareness_clock"
      by (auto split: if_splits option.splits)
    from advanced [OF L j small v] obtain qs where "u_clock v = clock + 1" "issued_update L J i cid (clock + 1) qs out"
      by blast
    with Cons.IH [OF rest(1)] rest(2) Some st show ?thesis by auto
  next
    case None
    with Cons show ?thesis by auto
  qed
qed simp

lemma store_ok:
  "\<forall>(d, clock, out) \<in> set prepared. \<exists>ps. issued_update L J i cid clock ps out \<Longrightarrow> i \<in> ids cid
     \<Longrightarrow> registry_ok L J ids reg \<Longrightarrow> registry_ok L J ids (fold (store_identity cid) prepared reg)"
proof (induction prepared arbitrary: reg)
  case (Cons x prepared)
  obtain d st where x: "x = (d, st)" by (cases x)
  have "authentic L J ids cid st" using Cons.prems(1,2) x by (cases st) (auto simp: authentic_def)
  then have "registry_ok L J ids (store_identity cid x reg)"
    using Cons.prems(3) x by (simp add: store_identity_def registry_ok_put)
  with Cons show ?case by simp
qed simp

lemma stored_elsewhere:
  "d \<notin> fst ` set prepared \<Longrightarrow> states_of (fold (store_identity cid) prepared reg) d = states_of reg d"
  by (induction prepared arbitrary: reg) (auto simp: store_identity_def states_of_def)

lemma stored_lookup:
  "distinct (map fst prepared) \<Longrightarrow> map_of (states_of (fold (store_identity cid) prepared reg) d) k
     = (if k = cid then (case map_of prepared d of None \<Rightarrow> map_of (states_of reg d) k | Some st \<Rightarrow> Some st)
        else map_of (states_of reg d) k)"
proof (induction prepared arbitrary: reg)
  case (Cons x prepared)
  obtain d' st where x: "x = (d', st)" by (cases x)
  have put: "map_of (states_of (store_identity cid x reg) d) k
      = (if d = d' \<and> k = cid then Some st else map_of (states_of reg d) k)"
    by (simp add: x store_identity_def states_of_def update_conv)
  from Cons.prems x have new: "map_of prepared d' = None" by (simp add: map_of_eq_None_iff)
  show ?case using Cons.IH [of "store_identity cid x reg"] Cons.prems put new x by (auto split: option.splits)
qed simp

inductive registry_reaches :: "lib0 \<Rightarrow> text_lib \<Rightarrow> (int \<Rightarrow> awareness_identity set) \<Rightarrow> registry \<Rightarrow> bool"
  for L J ids where
  none: "registry_reaches L J ids Map.empty"
| accepted: "registry_reaches L J ids reg \<Longrightarrow> authorizeAwarenessUpdate L J update cid i = Some (u, out) \<Longrightarrow> i \<in> ids cid
    \<Longrightarrow> registry_reaches L J ids (fst (registry_accept d u out reg))"
| renamed: "registry_reaches L J ids reg \<Longrightarrow> updateIdentitiesAtomically L J ds cid i reg = Some (reg', outs) \<Longrightarrow> i \<in> ids cid
    \<Longrightarrow> registry_reaches L J ids reg'"
| removed: "registry_reaches L J ids reg \<Longrightarrow> registry_reaches L J ids (fst (registry_remove L J d cid reg))"

lemma registry_reaches_ok:
  assumes "lib0_laws L" "text_laws L J"
  shows "registry_reaches L J ids reg \<Longrightarrow> registry_ok L J ids reg"
proof (induction rule: registry_reaches.induct)
  case none
  show ?case by (simp add: registry_ok_def)
next
  case (accepted reg update cid i u out d)
  then show ?case using accept_ok [OF assms] by blast
next
  case (renamed reg ds cid i reg' outs)
  then obtain prepared where "prepare_identities L J cid i reg (rev (remdups (rev ds))) = Some prepared"
    "reg' = fold (store_identity cid) prepared reg"
    by (auto simp: updateIdentitiesAtomically_def)
  moreover from prepared [OF assms renamed.IH this(1)]
  have "\<forall>(d, clock, out) \<in> set prepared. \<exists>ps. issued_update L J i cid clock ps out" by fast
  ultimately show ?case using store_ok renamed(3,4) by blast
next
  case (removed reg d cid)
  then show ?case by (auto simp: registry_remove_def registry_ok_delete split: option.splits)
qed

text \<open>
  C40. Whatever the clients send, every presence the server keeps, and sends to a client that opens a
  document, parses as an update of the client it is kept for and shows an identity the server has
  for that client: its user, name, role and colour; none of its values, at any depth, has a key
  that could pose as an identity.
\<close>

theorem presence_is_authentic:
  assumes "lib0_laws L" "text_laws L J" "registry_reaches L J ids reg" "out \<in> set (registry_current reg d)"
  shows "\<exists>k clock ps i. parseAwarenessUpdate L J out = Some \<lparr> u_clientId = k, u_clock = clock, u_state = Some ps \<rparr>
    \<and> i \<in> ids k \<and> property ps ''userId'' = JStr (i_userId i) \<and> property ps ''displayName'' = JStr (i_displayName i)
    \<and> property ps ''role'' = JStr (i_role i) \<and> property ps ''color'' = JStr (i_color i)
    \<and> (\<exists>qs. ps = qs @ identity_entries i \<and> clean (JObj qs))"
proof -
  from assms(4) obtain k clock where "(k, clock, out) \<in> set (states_of reg d)" by (auto simp: registry_current_def)
  with registry_okD [OF registry_reaches_ok [OF assms(1-3)], of d]
  obtain i ps where i: "i \<in> ids k" "issued_update L J i k clock ps out" by (fastforce simp: authentic_def)
  then have "carries_identity i ps" by (simp add: issued_update_def)
  with i identity_seen [of i ps] issued_parses [OF assms(1,2) i(2)] show ?thesis
    unfolding carries_identity_def by blast
qed

text \<open>
  A change of profile is all or nothing: either it is refused and nothing is stored, or the
  presence of the client in every named document is replaced by one with the next clock and the
  new identity, which is what is sent out, and everything else is left alone.
\<close>

theorem profile_change_is_atomic:
  assumes L: "lib0_laws L" "text_laws L J" "registry_reaches L J ids reg"
    and u: "updateIdentitiesAtomically L J ds cid i reg = Some (reg', outs)"
  shows "(\<forall>d k. map_of (states_of reg' d) k = map_of (states_of reg d) k \<or> k = cid \<and> d \<in> set ds)
    \<and> (\<forall>d clock prev. d \<in> set ds \<and> map_of (states_of reg d) cid = Some (clock, prev) \<longrightarrow>
      (\<exists>out ps. map_of (states_of reg' d) cid = Some (clock + 1, out) \<and> (d, out) \<in> set outs
        \<and> parseAwarenessUpdate L J out = Some \<lparr> u_clientId = cid, u_clock = clock + 1, u_state = Some ps \<rparr>
        \<and> carries_identity i ps))"
proof -
  define ds' where "ds' = rev (remdups (rev ds))"
  have ds': "distinct ds'" "set ds' = set ds" by (simp_all add: ds'_def)
  from u obtain prepared where p: "prepare_identities L J cid i reg ds' = Some prepared"
    and reg': "reg' = fold (store_identity cid) prepared reg" and outs: "outs = map (\<lambda>(d, clock, out). (d, out)) prepared"
    by (auto simp: updateIdentitiesAtomically_def ds'_def)
  note ok = registry_reaches_ok [OF L]
  from prepared [OF L(1,2) ok p]
  have keys: "map fst prepared = filter (\<lambda>d. map_of (states_of reg d) cid \<noteq> None) ds'"
    and entries: "\<forall>(d, clock, out) \<in> set prepared. \<exists>prev ps. map_of (states_of reg d) cid = Some (clock - 1, prev)
       \<and> issued_update L J i cid clock ps out" by blast+
  have dist: "distinct (map fst prepared)" unfolding keys using ds'(1) by simp
  note look = stored_lookup [OF dist, of cid reg, folded reg']
  have sub: "fst ` set prepared \<subseteq> set ds" 
  proof -
    have "set (map fst prepared) \<subseteq> set ds'" unfolding keys by (rule filter_is_subset)
    then show ?thesis using ds'(2) by simp
  qed
  have "map_of (states_of reg' d) k = map_of (states_of reg d) k \<or> k = cid \<and> d \<in> set ds" for d k
    using look [of d k] sub by (auto split: option.splits dest!: map_of_SomeD)
  moreover have "\<exists>out ps. map_of (states_of reg' d) cid = Some (clock + 1, out) \<and> (d, out) \<in> set outs
      \<and> parseAwarenessUpdate L J out = Some \<lparr> u_clientId = cid, u_clock = clock + 1, u_state = Some ps \<rparr>
      \<and> carries_identity i ps"
    if d: "d \<in> set ds" "map_of (states_of reg d) cid = Some (clock, prev)" for d clock prev
  proof -
    have "d \<in> set (map fst prepared)" unfolding keys using d ds'(2) by simp
    then obtain c out where e: "(d, c, out) \<in> set prepared" by force
    with entries obtain prev' ps where "map_of (states_of reg d) cid = Some (c - 1, prev')"
      "issued_update L J i cid c ps out" by fast
    moreover from this d(2) have c: "c = clock + 1" by simp
    ultimately have i: "issued_update L J i cid (clock + 1) ps out" by simp
    have "map_of prepared d = Some (clock + 1, out)" using e dist c by simp
    then have "map_of (states_of reg' d) cid = Some (clock + 1, out)" using look [of d cid] by simp
    moreover have "(d, out) \<in> set outs" using e outs by force
    moreover have "carries_identity i ps" using i by (simp add: issued_update_def)
    ultimately show ?thesis using issued_parses [OF L(1,2) i] by blast
  qed
  ultimately show ?thesis by blast
qed

section \<open>The theorems applied\<close>

lemma authorize_encoded:
  assumes L: "lib0_laws L" "text_laws L J" and r: "0 \<le> cid" "cid \<le> 0xffffffff" "0 \<le> clock" "clock \<le> max_awareness_clock"
    and v: "json_value (kept_number J) (JObj ps)" "length (encodeAwarenessState L J cid clock (Some ps)) \<le> max_awareness_bytes"
    and st: "authoritative i ps = Some st" "length (encodeAwarenessState L J cid clock (Some st)) \<le> max_awareness_bytes"
  shows "authorizeAwarenessUpdate L J (encodeAwarenessState L J cid clock (Some ps)) cid i
    = Some (\<lparr> u_clientId = cid, u_clock = clock, u_state = Some st \<rparr>, encodeAwarenessState L J cid clock (Some st))"
proof -
  have "parseAwarenessUpdate L J (encodeAwarenessState L J cid clock (Some ps))
      = Some \<lparr> u_clientId = cid, u_clock = clock, u_state = Some ps \<rparr>"
    using parse_encoded [OF L r, of "Some ps"] state_text_short [OF L v(2)] v(1) by (simp add: state_value_def)
  with st show ?thesis by (simp add: authorizeAwarenessUpdate_def Let_def)
qed

text \<open>A client that poses as \<open>root\<close> under the name of a tutor.\<close>

definition demo_identity :: "string \<Rightarrow> awareness_identity" where
  "demo_identity name = \<lparr> i_userId = js ''u1'', i_displayName = js name, i_role = js ''tutor'', i_color = js ''#2563eb'' \<rparr>"

definition demo_ids :: "int \<Rightarrow> awareness_identity set" where
  "demo_ids c = {demo_identity ''Ann'', demo_identity ''Bob''}"

definition demo_posed :: jobj where
  "demo_posed = [(js ''x'', JNum (JInt 5)), (js ''userId'', JStr (js ''root''))]"

definition demo_shown :: "string \<Rightarrow> jobj" where
  "demo_shown name = (js ''x'', JNum (JInt 5)) # identity_entries (demo_identity name)"

abbreviation demo_presence :: "int \<Rightarrow> jobj \<Rightarrow> byte list" where
  "demo_presence clock ps \<equiv> encodeAwarenessState base128 demo_text_lib 7 clock (Some ps)"

lemma demo_authoritative:
  "authoritative (demo_identity name) demo_posed = Some (demo_shown name)"
  "authoritative (demo_identity name) (demo_shown other) = Some (demo_shown name)"
  by (simp_all add: authoritative_def demo_posed_def demo_shown_def identity_entries_def sanitize_cases dropped_key_def
      reserved_identity_keys_def max_json_depth_def max_json_entries_def)

lemma demo_values: "json_value (kept_number demo_text_lib) (JObj demo_posed)"
    "json_value (kept_number demo_text_lib) (JObj (demo_shown name))"
proof -
  have "\<not> index_key (js ''x'')" using index_key_digits [of "js ''x''"] by (auto simp: js_def in_range_def)
  then have "property_order (map fst demo_posed)" "property_order (map fst (demo_shown name))"
    using identity_no_index by (auto simp: demo_posed_def demo_shown_def identity_entries_def property_order_def)
  then show "json_value (kept_number demo_text_lib) (JObj demo_posed)"
    "json_value (kept_number demo_text_lib) (JObj (demo_shown name))"
    by (simp_all add: demo_posed_def demo_shown_def identity_entries_def demo_kept_number)
qed

lemma demo_sizes:
  "length (demo_presence 1 demo_posed) \<le> max_awareness_bytes"
  "length (demo_presence 1 (demo_shown ''Ann'')) \<le> max_awareness_bytes"
  "length (demo_presence 2 (demo_shown ''Ann'')) \<le> max_awareness_bytes"
  "length (demo_presence 2 (demo_shown ''Bob'')) \<le> max_awareness_bytes"
proof -
  have "length (demo_presence 1 demo_posed) \<le> 200" "length (demo_presence 1 (demo_shown ''Ann'')) \<le> 200"
    "length (demo_presence 2 (demo_shown ''Ann'')) \<le> 200" "length (demo_presence 2 (demo_shown ''Bob'')) \<le> 200"
    by code_simp+
  moreover have "200 \<le> max_awareness_bytes" by (simp add: max_awareness_bytes_def)
  ultimately show "length (demo_presence 1 demo_posed) \<le> max_awareness_bytes"
    "length (demo_presence 1 (demo_shown ''Ann'')) \<le> max_awareness_bytes"
    "length (demo_presence 2 (demo_shown ''Ann'')) \<le> max_awareness_bytes"
    "length (demo_presence 2 (demo_shown ''Bob'')) \<le> max_awareness_bytes"
    by (blast intro: le_trans)+
qed

lemma demo_authorized:
  "authorizeAwarenessUpdate base128 demo_text_lib (demo_presence 1 demo_posed) 7 (demo_identity ''Ann'')
     = Some (\<lparr> u_clientId = 7, u_clock = 1, u_state = Some (demo_shown ''Ann'') \<rparr>, demo_presence 1 (demo_shown ''Ann''))"
  "authorizeAwarenessUpdate base128 demo_text_lib (demo_presence 2 (demo_shown ''Ann'')) 7 (demo_identity ''Bob'')
     = Some (\<lparr> u_clientId = 7, u_clock = 2, u_state = Some (demo_shown ''Bob'') \<rparr>, demo_presence 2 (demo_shown ''Bob''))"
  by (rule authorize_encoded [OF base128_laws demo_text_laws _ _ _ _ demo_values(1) demo_sizes(1) demo_authoritative(1)
        demo_sizes(2)], simp_all add: max_awareness_clock_def)
     (rule authorize_encoded [OF base128_laws demo_text_laws _ _ _ _ demo_values(2) demo_sizes(3) demo_authoritative(2)
        demo_sizes(4)], simp_all add: max_awareness_clock_def)

definition demo_registry :: registry where
  "demo_registry = [js ''doc'' \<mapsto> [(7, (1, demo_presence 1 (demo_shown ''Ann'')))]]"

lemma demo_reached: "registry_reaches base128 demo_text_lib demo_ids demo_registry"
proof -
  have "demo_identity ''Ann'' \<in> demo_ids 7" by (simp add: demo_ids_def)
  from registry_reaches.accepted [where ids = demo_ids, OF registry_reaches.none demo_authorized(1) this, of "js ''doc''"] show ?thesis
    by (simp add: registry_accept_def states_of_def demo_registry_def)
qed

lemma demo_renamed:
  "updateIdentitiesAtomically base128 demo_text_lib [js ''doc'', js ''doc''] 7 (demo_identity ''Bob'') demo_registry
     = Some ([js ''doc'' \<mapsto> [(7, (2, demo_presence 2 (demo_shown ''Bob'')))]],
             [(js ''doc'', demo_presence 2 (demo_shown ''Bob''))])"
proof -
  have "parseAwarenessUpdate base128 demo_text_lib (demo_presence 1 (demo_shown ''Ann''))
      = Some \<lparr> u_clientId = 7, u_clock = 1, u_state = Some (demo_shown ''Ann'') \<rparr>"
    using parse_encoded [OF base128_laws demo_text_laws, of 7 1 "Some (demo_shown ''Ann'')"]
      state_text_short [OF base128_laws demo_text_laws demo_sizes(2)] demo_values
    by (simp add: state_value_def max_awareness_clock_def)
  with demo_authorized(2) show ?thesis
    by (simp add: updateIdentitiesAtomically_def states_of_def demo_registry_def max_awareness_clock_def store_identity_def)
qed

theorem presence_is_authentic_witness:
  "\<exists>ps i. parseAwarenessUpdate base128 demo_text_lib (demo_presence 1 (demo_shown ''Ann''))
      = Some \<lparr> u_clientId = 7, u_clock = 1, u_state = Some ps \<rparr>
    \<and> i \<in> demo_ids 7 \<and> property ps ''userId'' = JStr (i_userId i)"
proof -
  have "demo_presence 1 (demo_shown ''Ann'') \<in> set (registry_current demo_registry (js ''doc''))"
    by (simp add: registry_current_def states_of_def demo_registry_def)
  from presence_is_authentic [OF base128_laws demo_text_laws demo_reached this] show ?thesis
    using parse_encoded [OF base128_laws demo_text_laws, of 7 1 "Some (demo_shown ''Ann'')"]
      state_text_short [OF base128_laws demo_text_laws demo_sizes(2)] demo_values
    by (auto simp: state_value_def max_awareness_clock_def)
qed

theorem profile_change_is_atomic_witness:
  "\<exists>out ps. parseAwarenessUpdate base128 demo_text_lib out = Some \<lparr> u_clientId = 7, u_clock = 2, u_state = Some ps \<rparr>
    \<and> carries_identity (demo_identity ''Bob'') ps \<and> out = demo_presence 2 (demo_shown ''Bob'')"
proof -
  have "map_of (states_of demo_registry (js ''doc'')) 7 = Some (1, demo_presence 1 (demo_shown ''Ann''))"
    by (simp add: states_of_def demo_registry_def)
  with profile_change_is_atomic [OF base128_laws demo_text_laws demo_reached demo_renamed] show ?thesis
    by fastforce
qed

end
