(* ===== verification/Profile_Control.thy ===== *)
theory Profile_Control
  imports Utf8 Wire
begin

text \<open>
  The name and colour a collaborator shows: the rules of \<open>src/shared/collaborationProfile.ts\<close> and
  the payloads \<open>src/board/protocol/profileControl.ts\<close> carries them in. The Unicode normalisation
  form NFKC, whose tables are data, is a parameter. A string whose lower case is a hash sign and
  hexadecimal digits is ASCII (no other letter has a lower case among these), so the lower case of a
  colour is taken on ASCII. An exception is a value of \<open>profile_error\<close>.
\<close>

section \<open>Profiles\<close>

definition display_name_max_characters :: nat where "display_name_max_characters = 60"
definition display_name_max_bytes :: nat where "display_name_max_bytes = 240"

record profile =
  p_displayName :: jstr
  p_color :: jstr

datatype profile_error = ProfileNotObject | ProfileFieldsInvalid | NameNotText | NameInvalid
  | ColorNotText | ColorInvalid
  | TextSizeInvalid | PayloadTruncated | TextLengthInvalid | TextNotUtf8 | PayloadSizeInvalid
  | PayloadVersionUnsupported | ColorLengthInvalid | PayloadLengthInvalid | NotCanonical | StatusInvalid

definition color_digit :: "code_unit \<Rightarrow> bool" where
  "color_digit c \<longleftrightarrow> in_range 0x30 0x39 c \<or> in_range 0x61 0x66 c"

definition color_pattern :: "jstr \<Rightarrow> bool" where
  "color_pattern s \<longleftrightarrow> length s = 7 \<and> hd s = 0x23 \<and> list_all color_digit (tl s)"

definition forbidden_name_unit :: "code_unit \<Rightarrow> bool" where
  "forbidden_name_unit c \<longleftrightarrow> in_range 0 0x1f c \<or> in_range 0x7f 0x9f c \<or> c = 0x61c \<or> c = 0x200e \<or> c = 0x200f
     \<or> c = 0x2028 \<or> c = 0x2029 \<or> in_range 0x202a 0x202e c \<or> in_range 0x2066 0x2069 c"

text \<open>\<open>replace(/\s+/gu, " ")\<close>.\<close>

fun collapse_spaces :: "jstr \<Rightarrow> jstr" where
  "collapse_spaces [] = []"
| "collapse_spaces (c # s) =
     (if \<not> is_js_space c then c # collapse_spaces s
      else if s \<noteq> [] \<and> is_js_space (hd s) then collapse_spaces s
      else 0x20 # collapse_spaces s)"

definition squeeze :: "jstr \<Rightarrow> jstr" where
  "squeeze s = collapse_spaces (js_trim s)"

definition name_fits :: "jstr \<Rightarrow> bool" where
  "name_fits s \<longleftrightarrow> s \<noteq> [] \<and> code_point_count s \<le> display_name_max_characters
     \<and> length (utf8_encode s) \<le> display_name_max_bytes"

fun normalizeCollaborationDisplayName :: "(jstr \<Rightarrow> jstr) \<Rightarrow> jval \<Rightarrow> profile_error + jstr" where
  "normalizeCollaborationDisplayName nfkc (JStr s) =
     (let canonical = nfkc s; normalized = squeeze canonical
      in if list_ex forbidden_name_unit canonical then Inl NameInvalid
         else if \<not> name_fits normalized then Inl NameInvalid else Inr normalized)"
| "normalizeCollaborationDisplayName nfkc v = Inl NameNotText"

fun normalizeCollaborationColor :: "jval \<Rightarrow> profile_error + jstr" where
  "normalizeCollaborationColor (JStr s) = (if color_pattern (ascii_lower s) then Inr (ascii_lower s) else Inl ColorInvalid)"
| "normalizeCollaborationColor v = Inl ColorNotText"

fun normalizeCollaborationProfile :: "(jstr \<Rightarrow> jstr) \<Rightarrow> jval \<Rightarrow> profile_error + profile" where
  "normalizeCollaborationProfile nfkc (JObj ob) =
     (if length ob \<noteq> 2 \<or> map_of ob (js ''displayName'') = None \<or> map_of ob (js ''color'') = None
      then Inl ProfileFieldsInvalid
      else case normalizeCollaborationDisplayName nfkc (property ob ''displayName'') of Inl e \<Rightarrow> Inl e
        | Inr name \<Rightarrow> (case normalizeCollaborationColor (property ob ''color'') of Inl e \<Rightarrow> Inl e
            | Inr color \<Rightarrow> Inr \<lparr> p_displayName = name, p_color = color \<rparr>))"
| "normalizeCollaborationProfile nfkc v = Inl ProfileNotObject"

text \<open>A profile as the value it is.\<close>

definition profile_value :: "profile \<Rightarrow> jval" where
  "profile_value p = obj [(''displayName'', JStr (p_displayName p)), (''color'', JStr (p_color p))]"

definition normalized_profile :: "(jstr \<Rightarrow> jstr) \<Rightarrow> profile \<Rightarrow> profile_error + profile" where
  "normalized_profile nfkc p = normalizeCollaborationProfile nfkc (profile_value p)"

section \<open>Payloads\<close>

definition profile_control_version :: byte where "profile_control_version = 1"
definition profile_color_bytes :: nat where "profile_color_bytes = 7"
definition profile_error_max_bytes :: nat where "profile_error_max_bytes = 512"
definition profile_update_max_bytes :: nat where
  "profile_update_max_bytes = 1 + 2 + display_name_max_bytes + profile_color_bytes"
definition profile_updated_max_bytes :: nat where
  "profile_updated_max_bytes = max (1 + 1 + 2 + display_name_max_bytes + profile_color_bytes)
     (1 + 1 + 2 + profile_error_max_bytes)"

datatype profile_result = ProfileAccepted profile | ProfileRejected jstr

definition encodeBoundedText :: "jstr \<Rightarrow> nat \<Rightarrow> profile_error + byte list" where
  "encodeBoundedText s mx =
     (let b = utf8_encode s in if b = [] \<or> mx < length b then Inl TextSizeInvalid else Inr b)"

text \<open>A byte stored keeps the low eight bits.\<close>

definition writeUint16 :: "nat \<Rightarrow> byte list" where
  "writeUint16 n = [to_byte (n div 256), to_byte (n mod 256)]"

definition readUint16 :: "byte list \<Rightarrow> nat \<Rightarrow> profile_error + nat" where
  "readUint16 src i =
     (if length src < i + 2 then Inl PayloadTruncated else Inr (unat (src ! i) * 256 + unat (src ! (i + 1))))"

definition decodeText :: "byte list \<Rightarrow> nat \<Rightarrow> nat \<Rightarrow> nat \<Rightarrow> profile_error + jstr" where
  "decodeText src i n mx =
     (if n < 1 \<or> mx < n then Inl TextLengthInvalid
      else if length src < i + n then Inl PayloadTruncated
      else case utf8_decode (take n (drop i src)) of None \<Rightarrow> Inl TextNotUtf8 | Some s \<Rightarrow> Inr s)"

definition assertPayload :: "byte list \<Rightarrow> nat \<Rightarrow> profile_error + unit" where
  "assertPayload payload mx =
     (if payload = [] \<or> mx < length payload then Inl PayloadSizeInvalid
      else if payload ! 0 \<noteq> profile_control_version then Inl PayloadVersionUnsupported
      else Inr ())"

definition encodeProfileBody :: "(jstr \<Rightarrow> jstr) \<Rightarrow> profile \<Rightarrow> profile_error + byte list" where
  "encodeProfileBody nfkc p =
     (case normalized_profile nfkc p of Inl e \<Rightarrow> Inl e
      | Inr q \<Rightarrow> (case encodeBoundedText (p_displayName q) display_name_max_bytes of Inl e \<Rightarrow> Inl e
        | Inr name \<Rightarrow> (case encodeBoundedText (p_color q) profile_color_bytes of Inl e \<Rightarrow> Inl e
          | Inr color \<Rightarrow>
              if length color \<noteq> profile_color_bytes then Inl ColorLengthInvalid
              else Inr (writeUint16 (length name) @ name @ color))))"

text \<open>The profile as it was sent and as it is normalised.\<close>

definition decodeProfileBody :: "(jstr \<Rightarrow> jstr) \<Rightarrow> byte list \<Rightarrow> nat \<Rightarrow> profile_error + profile \<times> profile" where
  "decodeProfileBody nfkc payload i =
     (case readUint16 payload i of Inl e \<Rightarrow> Inl e
      | Inr n \<Rightarrow>
          let nameAt = i + 2; colorAt = nameAt + n; expected = colorAt + profile_color_bytes
          in if length payload \<noteq> expected then Inl PayloadLengthInvalid
             else (case decodeText payload nameAt n display_name_max_bytes of Inl e \<Rightarrow> Inl e
               | Inr name \<Rightarrow> (case decodeText payload colorAt profile_color_bytes profile_color_bytes of Inl e \<Rightarrow> Inl e
                 | Inr color \<Rightarrow>
                     let raw = \<lparr> p_displayName = name, p_color = color \<rparr>
                     in map_sum id (\<lambda>p. (raw, p)) (normalized_profile nfkc raw))))"

definition encodeBoardProfileUpdatePayload :: "(jstr \<Rightarrow> jstr) \<Rightarrow> profile \<Rightarrow> profile_error + byte list" where
  "encodeBoardProfileUpdatePayload nfkc p = map_sum id (\<lambda>body. profile_control_version # body) (encodeProfileBody nfkc p)"

definition decodeBoardProfileUpdatePayload :: "(jstr \<Rightarrow> jstr) \<Rightarrow> byte list \<Rightarrow> profile_error + profile" where
  "decodeBoardProfileUpdatePayload nfkc payload =
     (case assertPayload payload profile_update_max_bytes of Inl e \<Rightarrow> Inl e
      | Inr _ \<Rightarrow> map_sum id fst (decodeProfileBody nfkc payload 1))"

fun encodeBoardProfileUpdatedPayload :: "(jstr \<Rightarrow> jstr) \<Rightarrow> profile_result \<Rightarrow> profile_error + byte list" where
  "encodeBoardProfileUpdatedPayload nfkc (ProfileAccepted p) =
     map_sum id (\<lambda>body. profile_control_version # 1 # body) (encodeProfileBody nfkc p)"
| "encodeBoardProfileUpdatedPayload nfkc (ProfileRejected t) =
     map_sum id (\<lambda>e. profile_control_version # 0 # writeUint16 (length e) @ e) (encodeBoundedText t profile_error_max_bytes)"

definition decodeBoardProfileUpdatedPayload :: "(jstr \<Rightarrow> jstr) \<Rightarrow> byte list \<Rightarrow> profile_error + profile_result" where
  "decodeBoardProfileUpdatedPayload nfkc payload =
     (case assertPayload payload profile_updated_max_bytes of Inl e \<Rightarrow> Inl e
      | Inr _ \<Rightarrow>
          if length payload < 2 then Inl PayloadTruncated
          else if payload ! 1 = 1 then
            (case decodeProfileBody nfkc payload 2 of Inl e \<Rightarrow> Inl e
             | Inr (raw, p) \<Rightarrow> if p \<noteq> raw then Inl NotCanonical else Inr (ProfileAccepted p))
          else if payload ! 1 \<noteq> 0 then Inl StatusInvalid
          else (case readUint16 payload 2 of Inl e \<Rightarrow> Inl e
            | Inr n \<Rightarrow>
                if length payload \<noteq> 4 + n then Inl PayloadLengthInvalid
                else map_sum id ProfileRejected (decodeText payload 4 n profile_error_max_bytes)))"

end
