(* ===== verification/Profile_Codec.thy ===== *)
theory Profile_Codec
  imports Profile_Control
begin

text \<open>
  What the profile payloads keep: a normalised profile is its own normal form, an encoded payload
  decodes to the normal form, and an accepted profile is one. What is used of the normalisation
  form NFKC is a hypothesis: it is idempotent, a part of a normalised text is normalised, and so is
  one put together from two at a space.
\<close>

definition nfkc_laws :: "(jstr \<Rightarrow> jstr) \<Rightarrow> bool" where
  "nfkc_laws nfkc \<longleftrightarrow> (\<forall>s. nfkc (nfkc s) = nfkc s)
     \<and> (\<forall>a b c. nfkc (a @ b @ c) = a @ b @ c \<longrightarrow> nfkc b = b)
     \<and> (\<forall>a b. nfkc a = a \<and> nfkc b = b \<longrightarrow> nfkc (a @ 0x20 # b) = a @ 0x20 # b)"

section \<open>White space\<close>

text \<open>A text whose white space is single spaces.\<close>

fun single_spaced :: "jstr \<Rightarrow> bool" where
  "single_spaced [] = True"
| "single_spaced (c # s) =
     ((is_js_space c \<longrightarrow> c = 0x20 \<and> (s = [] \<or> \<not> is_js_space (hd s))) \<and> single_spaced s)"

lemma space_is_space [simp]: "is_js_space 0x20"
  by (simp add: is_js_space_def)

lemma collapse_ends:
  "s \<noteq> [] \<Longrightarrow> collapse_spaces s \<noteq> [] \<and> is_js_space (hd (collapse_spaces s)) = is_js_space (hd s)
     \<and> is_js_space (last (collapse_spaces s)) = is_js_space (last s)"
  by (induction s rule: collapse_spaces.induct) auto

lemma collapse_Nil [simp]: "collapse_spaces s = [] \<longleftrightarrow> s = []"
  using collapse_ends [of s] by auto

lemma single_spaced_collapse: "single_spaced (collapse_spaces s)"
  using collapse_ends by (induction s rule: collapse_spaces.induct) auto

lemma collapse_single: "single_spaced s \<Longrightarrow> collapse_spaces s = s"
  by (induction s) auto

lemma collapse_units: "c \<in> set (collapse_spaces s) \<Longrightarrow> c \<in> set s \<or> c = 0x20"
  by (induction s rule: collapse_spaces.induct) (auto split: if_splits)

lemma collapse_split:
  "\<forall>c \<in> set t. \<not> is_js_space c \<Longrightarrow> \<forall>c \<in> set w. is_js_space c \<Longrightarrow> w \<noteq> [] \<Longrightarrow> b = [] \<or> \<not> is_js_space (hd b)
     \<Longrightarrow> collapse_spaces (t @ w @ b) = t @ 0x20 # collapse_spaces b"
proof (induction t)
  case Nil
  from Nil(2,3,4) show ?case
  proof (induction w)
    case (Cons c w)
    then show ?case by (cases w) auto
  qed simp
qed simp

lemma collapse_no_space: "\<forall>c \<in> set s. \<not> is_js_space c \<Longrightarrow> collapse_spaces s = s"
  by (induction s) auto

definition trimmed :: "jstr \<Rightarrow> bool" where
  "trimmed s \<longleftrightarrow> s = [] \<or> \<not> is_js_space (hd s) \<and> \<not> is_js_space (last s)"

lemma trim_part: "\<exists>a b. s = a @ js_trim s @ b" and trim_trimmed: "trimmed (js_trim s)"
proof -
  define d where "d = dropWhile is_js_space s"
  have s: "s = takeWhile is_js_space s @ d" by (simp add: d_def)
  have t: "js_trim s = rev (dropWhile is_js_space (rev d))" by (simp add: js_trim_def d_def)
  have "d = rev (takeWhile is_js_space (rev d) @ dropWhile is_js_space (rev d))" by simp
  then have d: "d = js_trim s @ rev (takeWhile is_js_space (rev d))" unfolding t rev_append .
  with s show "\<exists>a b. s = a @ js_trim s @ b" by metis
  show "trimmed (js_trim s)"
  proof (cases "js_trim s = []")
    case False
    then have "hd (js_trim s) = hd d" using d by (metis hd_append2)
    moreover have "d \<noteq> []" using False d by auto
    then have "\<not> is_js_space (hd d)" unfolding d_def by (rule hd_dropWhile)
    moreover have "dropWhile is_js_space (rev d) \<noteq> []" using False t by simp
    then have "\<not> is_js_space (last (js_trim s))" unfolding t by (simp add: last_rev hd_dropWhile)
    ultimately show ?thesis by (simp add: trimmed_def)
  qed (simp add: trimmed_def)
qed

lemma trim_same: "trimmed s \<Longrightarrow> js_trim s = s"
proof -
  assume s: "trimmed s"
  have "dropWhile is_js_space s = s" using s by (cases s) (auto simp: trimmed_def)
  moreover have "dropWhile is_js_space (rev s) = rev s" using s
    by (cases s rule: rev_cases) (auto simp: trimmed_def)
  ultimately show ?thesis by (simp add: js_trim_def)
qed

lemma squeezed: "trimmed (squeeze s)" "single_spaced (squeeze s)"
  using trim_trimmed [of s] collapse_ends [of "js_trim s"]
  by (auto simp: squeeze_def trimmed_def single_spaced_collapse)

lemma squeeze_idem: "squeeze (squeeze s) = squeeze s"
  using trim_same [OF squeezed(1)] collapse_single [OF squeezed(2)] by (simp add: squeeze_def)

lemma squeeze_units:
  assumes "c \<in> set (squeeze s)"
  shows "c \<in> set s \<or> c = 0x20"
proof -
  obtain a b where "s = a @ js_trim s @ b" using trim_part by blast
  then have "set (js_trim s) \<subseteq> set s" by (metis set_append Un_upper1 Un_upper2 subset_trans)
  with assms collapse_units [of c "js_trim s"] show ?thesis by (auto simp: squeeze_def)
qed

lemma collapse_nfkc:
  assumes "nfkc_laws nfkc"
  shows "nfkc s = s \<Longrightarrow> nfkc (collapse_spaces s) = collapse_spaces s"
proof (induction s rule: length_induct)
  case (1 s)
  let ?t = "takeWhile (\<lambda>c. \<not> is_js_space c) s" and ?r = "dropWhile (\<lambda>c. \<not> is_js_space c) s"
  let ?w = "takeWhile is_js_space ?r" and ?b = "dropWhile is_js_space ?r"
  show ?case
  proof (cases "?r = []")
    case True
    then have "collapse_spaces s = s" by (intro collapse_no_space) (simp add: dropWhile_eq_Nil_conv)
    with 1 show ?thesis by simp
  next
    case False
    then have w: "?w \<noteq> []" using hd_dropWhile [OF False] by (cases ?r) auto
    define t w b where parts: "t = ?t" "w = ?w" "b = ?b"
    have s: "s = t @ w @ b" by (simp add: parts)
    have "w \<noteq> []" using w by (simp add: parts)
    have eq: "collapse_spaces (t @ w @ b) = t @ 0x20 # collapse_spaces b"
    proof (rule collapse_split)
      show "\<forall>c \<in> set t. \<not> is_js_space c" "\<forall>c \<in> set w. is_js_space c" by (auto simp: parts dest: set_takeWhileD)
      show "b = [] \<or> \<not> is_js_space (hd b)" unfolding parts using hd_dropWhile by blast
    qed fact
    have "nfkc ([] @ t @ (w @ b)) = [] @ t @ (w @ b)" "nfkc ((t @ w) @ b @ []) = (t @ w) @ b @ []"
      using 1(2) s by simp_all
    then have "nfkc t = t" "nfkc b = b" using assms unfolding nfkc_laws_def by blast+
    moreover have "length b < length s" using \<open>w \<noteq> []\<close> s by simp
    ultimately have "nfkc t = t \<and> nfkc (collapse_spaces b) = collapse_spaces b" using 1(1) by blast
    then have "nfkc (t @ 0x20 # collapse_spaces b) = t @ 0x20 # collapse_spaces b"
      using assms unfolding nfkc_laws_def by blast
    then show ?thesis using eq s by simp
  qed
qed

lemma squeeze_nfkc:
  assumes "nfkc_laws nfkc"
  shows "nfkc (squeeze (nfkc s)) = squeeze (nfkc s)"
proof -
  obtain a b where "nfkc s = a @ js_trim (nfkc s) @ b" using trim_part [of "nfkc s"] by blast
  then have "nfkc (js_trim (nfkc s)) = js_trim (nfkc s)" using assms unfolding nfkc_laws_def by metis
  then show ?thesis unfolding squeeze_def by (rule collapse_nfkc [OF assms])
qed

section \<open>Normal forms\<close>

lemma name_Inr:
  "normalizeCollaborationDisplayName nfkc (JStr s) = Inr n \<longleftrightarrow>
     \<not> list_ex forbidden_name_unit (nfkc s) \<and> name_fits (squeeze (nfkc s)) \<and> n = squeeze (nfkc s)"
  by (auto simp: Let_def)

lemma color_Inr: "normalizeCollaborationColor (JStr s) = Inr c \<longleftrightarrow> color_pattern (ascii_lower s) \<and> c = ascii_lower s"
  by auto

declare normalizeCollaborationDisplayName.simps(1) [simp del] normalizeCollaborationColor.simps(1) [simp del]

lemma normalized_Inr:
  "normalized_profile nfkc p = Inr q \<longleftrightarrow> normalizeCollaborationDisplayName nfkc (JStr (p_displayName p)) = Inr (p_displayName q)
     \<and> normalizeCollaborationColor (JStr (p_color p)) = Inr (p_color q)"
  by (cases q) (auto simp: normalized_profile_def profile_value_def obj_def property_def split: sum.splits)

lemma forbidden_space: "\<not> forbidden_name_unit 0x20"
  by (simp add: forbidden_name_unit_def in_range_def)

lemma name_idem:
  assumes "nfkc_laws nfkc" "normalizeCollaborationDisplayName nfkc (JStr s) = Inr n"
  shows "normalizeCollaborationDisplayName nfkc (JStr n) = Inr n"
proof -
  from assms(2) have n: "\<not> list_ex forbidden_name_unit (nfkc s)" "name_fits n" "n = squeeze (nfkc s)"
    by (simp_all add: name_Inr)
  have "nfkc n = n" using squeeze_nfkc [OF assms(1), of s] by (simp add: n(3))
  moreover have "squeeze n = n" by (simp add: n(3) squeeze_idem)
  moreover have "\<not> list_ex forbidden_name_unit n"
    using n(1,3) squeeze_units [of _ "nfkc s"] forbidden_space by (auto simp: list_ex_iff)
  ultimately show ?thesis using n(2) by (simp add: name_Inr)
qed

lemma color_digit_lower: "color_digit c \<Longrightarrow> \<not> in_range 0x41 0x5a c" "color_digit c \<Longrightarrow> c < 0x80"
  by (auto simp: color_digit_def in_range_def word_le_nat_alt word_less_nat_alt)

lemma color_pattern_lower: "color_pattern s \<Longrightarrow> ascii_lower s = s"
  using color_digit_lower(1)
  by (cases s) (auto simp: color_pattern_def ascii_lower_def list_all_iff in_range_def intro!: map_idI)

lemma color_idem: "normalizeCollaborationColor (JStr s) = Inr c \<Longrightarrow> normalizeCollaborationColor (JStr c) = Inr c"
  using color_pattern_lower by (auto simp: color_Inr)

lemma normalized_idem:
  "nfkc_laws nfkc \<Longrightarrow> normalized_profile nfkc p = Inr q \<Longrightarrow> normalized_profile nfkc q = Inr q"
  using name_idem color_idem by (auto simp: normalized_Inr)

section \<open>Texts as bytes\<close>

lemma mark_first:
  assumes "starts_with_mark (utf8_encode s)"
  shows "s \<noteq> [] \<and> hd s = 0xfeff"
proof -
  obtain c cs where c: "scalars s = c # cs"
    using assms by (cases "scalars s") (auto simp: starts_with_mark_def utf8_encode_def byte_order_mark_def)
  define r where "r = concat (map scalar_bytes cs)"
  have bs: "utf8_encode s = scalar_bytes c @ r" by (simp add: utf8_encode_def c r_def)
  have "scalar c" using scalars_scalar [of s] by (simp add: c)
  then have "decode_scalar (utf8_encode s) = Some (c, r)" unfolding bs by (rule decode_scalar_bytes)
  moreover obtain r' where "utf8_encode s = byte_order_mark @ r'"
    using assms by (metis append_take_drop_id starts_with_mark_def)
  then have "decode_scalar (utf8_encode s) = Some (0xfeff, r')"
    by (simp add: byte_order_mark_def scalar3_def continuation_def)
  ultimately have "c = 0xfeff" by simp
  with c have "s \<noteq> [] \<and> unat (hd s) = unat (0xfeff :: code_unit)"
    by (cases s) (auto simp: surrogate_pair_def split: if_splits list.splits)
  then show ?thesis using word_unat_eq_iff by blast
qed

lemma mark_is_space: "is_js_space 0xfeff"
  by (simp add: is_js_space_def)

lemma decoded_bytes:
  assumes "utf8_decode bs = Some s"
  shows "well_formed s \<and> utf8_encode s = (if starts_with_mark bs then drop 3 bs else bs)"
proof -
  let ?b = "if starts_with_mark bs then drop 3 bs else bs"
  from assms obtain cs where "decode_scalars ?b = Some cs" "s = concat (map scalar_units cs)"
    by (auto simp: utf8_decode_def starts_with_mark_def)
  with decode_scalars_sound [of ?b cs] scalars_units [of cs] well_formed_units [of cs] show ?thesis
    by (simp add: utf8_encode_def)
qed

lemma ascii_bytes: "\<forall>c \<in> set s. c < 0x80 \<Longrightarrow> well_formed s \<and> length (utf8_encode s) = length s"
proof (induction s)
  case (Cons c s)
  then have "unat c < 0x80" by (simp add: word_less_nat_alt)
  then have "\<not> is_high_surrogate c" "\<not> is_low_surrogate c" "length (scalar_bytes (unat c)) = 1"
    by (simp_all add: surrogate_ranges scalar_bytes_def)
  with Cons show ?case by (simp add: utf8_encode_def)
qed (simp add: utf8_encode_def)

lemma color_bytes:
  assumes "color_pattern c"
  shows "well_formed c" "length (utf8_encode c) = 7" "\<not> starts_with_mark (utf8_encode c)"
proof -
  have "\<forall>u \<in> set c. u < 0x80" "hd c = 0x23" "length c = 7"
    using assms color_digit_lower(2) by (cases c; auto simp: color_pattern_def list_all_iff)+
  then show "well_formed c" "length (utf8_encode c) = 7" "\<not> starts_with_mark (utf8_encode c)"
    using ascii_bytes [of c] mark_first [of c] by auto
qed

definition normal_profile :: "profile \<Rightarrow> bool" where
  "normal_profile q \<longleftrightarrow> name_fits (p_displayName q) \<and> trimmed (p_displayName q) \<and> color_pattern (p_color q)"

lemma normalized_normal: "normalized_profile nfkc p = Inr q \<Longrightarrow> normal_profile q"
  using squeezed(1) color_pattern_lower by (auto simp: normalized_Inr name_Inr color_Inr normal_profile_def)

lemma name_no_mark: "normal_profile q \<Longrightarrow> \<not> starts_with_mark (utf8_encode (p_displayName q))"
  using mark_first mark_is_space by (fastforce simp: normal_profile_def trimmed_def)

lemma utf8_nonempty: "s \<noteq> [] \<Longrightarrow> utf8_encode s \<noteq> []"
proof -
  assume "s \<noteq> []"
  then have "scalars s \<noteq> []" by (cases s) (auto split: list.splits)
  moreover have "scalar_bytes c \<noteq> []" for c by (simp add: scalar_bytes_def)
  ultimately show ?thesis by (cases "scalars s") (simp_all add: utf8_encode_def)
qed

text \<open>The body of a normal profile.\<close>

definition body_bytes :: "byte list \<Rightarrow> byte list \<Rightarrow> byte list" where
  "body_bytes name color = writeUint16 (length name) @ name @ color"

lemma encodeProfileBody_normal:
  assumes "normalized_profile nfkc p = Inr q"
  shows "encodeProfileBody nfkc p = Inr (body_bytes (utf8_encode (p_displayName q)) (utf8_encode (p_color q)))"
proof -
  from normalized_normal [OF assms] have q: "name_fits (p_displayName q)" "color_pattern (p_color q)"
    by (simp_all add: normal_profile_def)
  have "encodeBoundedText (p_displayName q) display_name_max_bytes = Inr (utf8_encode (p_displayName q))"
    using q(1) utf8_nonempty [of "p_displayName q"] by (simp add: encodeBoundedText_def Let_def name_fits_def)
  moreover have "utf8_encode (p_color q) \<noteq> []" using color_bytes(2) [OF q(2)] by auto
  then have "encodeBoundedText (p_color q) profile_color_bytes = Inr (utf8_encode (p_color q))"
    using color_bytes(2) [OF q(2)] by (simp add: encodeBoundedText_def Let_def profile_color_bytes_def)
  ultimately show ?thesis
    using assms color_bytes(2) [OF q(2)] by (simp add: encodeProfileBody_def profile_color_bytes_def body_bytes_def)
qed

lemma encodeProfileBody_Inr:
  "encodeProfileBody nfkc p = Inr b \<Longrightarrow> \<exists>q. normalized_profile nfkc p = Inr q
     \<and> b = body_bytes (utf8_encode (p_displayName q)) (utf8_encode (p_color q))"
proof -
  assume "encodeProfileBody nfkc p = Inr b"
  moreover from this obtain q where "normalized_profile nfkc p = Inr q"
    by (auto simp: encodeProfileBody_def split: sum.splits)
  ultimately show ?thesis using encodeProfileBody_normal by force
qed

lemma read16: "n < 65536 \<Longrightarrow> readUint16 (pre @ writeUint16 n @ rest) (length pre) = Inr n"
  by (simp add: readUint16_def writeUint16_def nth_append)

lemma read16_written:
  assumes "readUint16 src i = Inr n"
  shows "n < 65536 \<and> i + 2 \<le> length src \<and> take 2 (drop i src) = writeUint16 n"
proof -
  from assms have i: "i + 2 \<le> length src" "n = unat (src ! i) * 256 + unat (src ! (i + 1))"
    by (auto simp: readUint16_def split: if_splits)
  then have "drop i src = src ! i # src ! (i + 1) # drop (i + 2) src"
    by (simp add: Cons_nth_drop_Suc)
  moreover have "unat (src ! i) < 256" "unat (src ! (i + 1)) < 256" by simp_all
  then have "n div 256 = unat (src ! i)" "n mod 256 = unat (src ! (i + 1))" "n < 65536"
    unfolding i(2) by (simp, simp, linarith)
  ultimately show ?thesis using i(1) by (simp add: writeUint16_def)
qed

lemma decode_text_at:
  "1 \<le> length b \<Longrightarrow> length b \<le> mx \<Longrightarrow> utf8_decode b = Some s \<Longrightarrow> i = length pre \<Longrightarrow> n = length b
     \<Longrightarrow> decodeText (pre @ b @ rest) i n mx = Inr s"
  by (auto simp: decodeText_def)

lemma decode_body_bytes:
  assumes "utf8_decode nb = Some (p_displayName q)" "1 \<le> length nb" "length nb \<le> display_name_max_bytes"
    and "utf8_decode cb = Some (p_color q)" "length cb = profile_color_bytes"
  shows "decodeProfileBody nfkc (pre @ body_bytes nb cb) (length pre) = map_sum id (\<lambda>p. (q, p)) (normalized_profile nfkc q)"
proof -
  have pay: "pre @ body_bytes nb cb = (pre @ writeUint16 (length nb)) @ nb @ cb"
    "pre @ body_bytes nb cb = (pre @ writeUint16 (length nb) @ nb) @ cb @ []" by (simp_all add: body_bytes_def)
  have r: "readUint16 (pre @ body_bytes nb cb) (length pre) = Inr (length nb)"
    using assms(3) unfolding body_bytes_def by (intro read16) (simp add: display_name_max_bytes_def)
  have name: "decodeText (pre @ body_bytes nb cb) (length pre + 2) (length nb) display_name_max_bytes = Inr (p_displayName q)"
    unfolding pay(1) by (rule decode_text_at [OF assms(2,3,1)]) (simp_all add: writeUint16_def)
  have color: "decodeText (pre @ body_bytes nb cb) (length pre + 2 + length nb) profile_color_bytes profile_color_bytes
      = Inr (p_color q)"
    unfolding pay(2) using assms(5)
    by (intro decode_text_at assms(4)) (simp_all add: writeUint16_def profile_color_bytes_def)
  have "length (pre @ body_bytes nb cb) = length pre + 2 + length nb + profile_color_bytes"
    by (simp add: body_bytes_def writeUint16_def assms(5))
  with r name color show ?thesis by (cases q) (simp add: decodeProfileBody_def Let_def)
qed

lemma body_bytes_length:
  "length nb \<le> display_name_max_bytes \<Longrightarrow> length cb = profile_color_bytes
     \<Longrightarrow> length (body_bytes nb cb) \<le> 2 + display_name_max_bytes + profile_color_bytes"
  by (simp add: body_bytes_def writeUint16_def)

lemma decode_accepted:
  assumes "utf8_decode nb = Some (p_displayName q)" "1 \<le> length nb" "length nb \<le> display_name_max_bytes"
    and "utf8_decode cb = Some (p_color q)" "length cb = profile_color_bytes" "normalized_profile nfkc q = Inr q"
  shows "decodeBoardProfileUpdatePayload nfkc (profile_control_version # body_bytes nb cb) = Inr q"
    "decodeBoardProfileUpdatedPayload nfkc (profile_control_version # 1 # body_bytes nb cb) = Inr (ProfileAccepted q)"
  using decode_body_bytes [OF assms(1-5), of nfkc "[profile_control_version]"]
    decode_body_bytes [OF assms(1-5), of nfkc "[profile_control_version, 1]"] body_bytes_length [OF assms(3,5)] assms(6)
  by (simp_all add: decodeBoardProfileUpdatePayload_def decodeBoardProfileUpdatedPayload_def assertPayload_def
      profile_update_max_bytes_def profile_updated_max_bytes_def numeral_2_eq_2)

lemma normal_bytes:
  assumes "normal_profile q" "well_formed (p_displayName q)"
  shows "utf8_decode (utf8_encode (p_displayName q)) = Some (p_displayName q)" "1 \<le> length (utf8_encode (p_displayName q))"
    "length (utf8_encode (p_displayName q)) \<le> display_name_max_bytes"
    "utf8_decode (utf8_encode (p_color q)) = Some (p_color q)" "length (utf8_encode (p_color q)) = profile_color_bytes"
proof -
  from assms(1) have c: "color_pattern (p_color q)" and f: "name_fits (p_displayName q)"
    by (simp_all add: normal_profile_def)
  show "utf8_decode (utf8_encode (p_displayName q)) = Some (p_displayName q)"
    using utf8_decode_encode [OF assms(2) name_no_mark [OF assms(1)]] .
  show "utf8_decode (utf8_encode (p_color q)) = Some (p_color q)" "length (utf8_encode (p_color q)) = profile_color_bytes"
    using utf8_decode_encode color_bytes [OF c] by (simp_all add: profile_color_bytes_def)
  show "1 \<le> length (utf8_encode (p_displayName q))" "length (utf8_encode (p_displayName q)) \<le> display_name_max_bytes"
    using f utf8_nonempty [of "p_displayName q"] by (auto simp: name_fits_def Suc_le_eq)
qed

text \<open>What the body of a payload is, where it decodes.\<close>

lemma decodeText_Inr:
  "decodeText src i n mx = Inr s \<Longrightarrow> 1 \<le> n \<and> n \<le> mx \<and> i + n \<le> length src \<and> utf8_decode (take n (drop i src)) = Some s"
  by (auto simp: decodeText_def split: if_splits option.splits)

lemma decoded_body:
  assumes "decodeProfileBody nfkc payload i = Inr (raw, p)"
  obtains nb cb where "drop i payload = body_bytes nb cb" "utf8_decode nb = Some (p_displayName raw)"
    "utf8_decode cb = Some (p_color raw)" "length cb = profile_color_bytes" "normalized_profile nfkc raw = Inr p"
proof -
  from assms obtain n where n: "readUint16 payload i = Inr n"
    "length payload = i + 2 + n + profile_color_bytes"
    "decodeText payload (i + 2) n display_name_max_bytes = Inr (p_displayName raw)"
    "decodeText payload (i + 2 + n) profile_color_bytes profile_color_bytes = Inr (p_color raw)"
    "normalized_profile nfkc raw = Inr p"
    by (auto simp: decodeProfileBody_def Let_def map_sum_def split: sum.splits if_splits)
  define nb cb where b: "nb = take n (drop (i + 2) payload)" "cb = take profile_color_bytes (drop (i + 2 + n) payload)"
  from read16_written [OF n(1)] n(2)
  have "drop i payload = writeUint16 n @ drop (i + 2) payload"
    by (metis add.commute append_take_drop_id drop_drop)
  moreover have "drop (i + 2) payload = nb @ drop (i + 2 + n) payload"
    unfolding b by (metis add.commute append_take_drop_id drop_drop)
  moreover have "drop (i + 2 + n) payload = cb" "length nb = n" "length cb = profile_color_bytes"
    unfolding b using n(2) by simp_all
  ultimately have "drop i payload = body_bytes nb cb" by (simp add: body_bytes_def)
  then show thesis
    using n(5) decodeText_Inr [OF n(3)] decodeText_Inr [OF n(4)] \<open>length cb = profile_color_bytes\<close>
    by (intro that [of nb cb]) (simp_all add: b)
qed

lemma color_unmarked:
  assumes "utf8_decode cb = Some c" "color_pattern c" "length cb = profile_color_bytes"
  shows "utf8_encode c = cb"
  using decoded_bytes [OF assms(1)] color_bytes(2) [OF assms(2)] assms(3)
  by (auto simp: profile_color_bytes_def split: if_splits)

lemma map_sum_Inr_iff: "map_sum id f x = Inr b \<longleftrightarrow> (\<exists>a. x = Inr a \<and> b = f a)"
  by (cases x) auto

text \<open>The text a reader of the UTF-8 encoding sees: lone surrogates have become U+FFFD.\<close>

definition received_text :: "jstr \<Rightarrow> jstr" where
  "received_text s = concat (map scalar_units (scalars s))"

lemma received_text_encode: "utf8_encode (received_text s) = utf8_encode s"
  by (simp add: received_text_def utf8_encode_def scalars_units scalars_scalar)

lemma received_text_decode:
  "\<not> starts_with_mark (utf8_encode s) \<Longrightarrow> utf8_decode (utf8_encode s) = Some (received_text s)"
  using utf8_decode_encode [of "received_text s"] well_formed_units [OF scalars_scalar, of s]
  by (simp add: received_text_encode) (simp add: received_text_def)

definition received_profile :: "profile \<Rightarrow> profile" where
  "received_profile q = q\<lparr> p_displayName := received_text (p_displayName q) \<rparr>"

lemma decode_received:
  assumes "normal_profile q"
  shows "decodeBoardProfileUpdatePayload nfkc
      (profile_control_version # body_bytes (utf8_encode (p_displayName q)) (utf8_encode (p_color q)))
    = map_sum id (\<lambda>_. received_profile q) (normalized_profile nfkc (received_profile q))"
proof -
  let ?nb = "utf8_encode (p_displayName q)" and ?cb = "utf8_encode (p_color q)"
  from assms have c: "color_pattern (p_color q)" and f: "name_fits (p_displayName q)"
    by (simp_all add: normal_profile_def)
  have n: "1 \<le> length ?nb" "length ?nb \<le> display_name_max_bytes"
    using f utf8_nonempty [of "p_displayName q"] by (auto simp: name_fits_def Suc_le_eq)
  have cb: "utf8_decode ?cb = Some (p_color q)" "length ?cb = profile_color_bytes"
    using utf8_decode_encode color_bytes [OF c] by (simp_all add: profile_color_bytes_def)
  have "utf8_decode ?nb = Some (p_displayName (received_profile q))" "p_color (received_profile q) = p_color q"
    using received_text_decode [OF name_no_mark [OF assms]] by (simp_all add: received_profile_def)
  with decode_body_bytes [of ?nb "received_profile q" ?cb nfkc "[profile_control_version]"] n cb
    body_bytes_length [OF n(2) cb(2)]
  show ?thesis
    by (simp add: decodeBoardProfileUpdatePayload_def assertPayload_def profile_update_max_bytes_def
        sum.map_comp comp_def id_def)
qed

text \<open>
  C15. A change of profile arrives as it is shown: when the payload of a profile can be encoded, the
  profile has a normal form (cleaned name, lower case colour), which is its own normal form. If the
  name of that form has no lone surrogate, the server decodes the payload to the form, and the
  acceptance it sends back decodes to the same profile; a lone surrogate arrives as U+FFFD, and the
  payload decodes to the form with them if the server finds a normal form for that. A rejection
  decodes to its text, unless that has a lone surrogate or starts with a byte order mark.
\<close>

theorem profile_payload_roundtrip:
  assumes "nfkc_laws nfkc"
  shows "(\<forall>p b. encodeBoardProfileUpdatePayload nfkc p = Inr b \<longrightarrow>
      (\<exists>q. normalized_profile nfkc p = Inr q \<and> normalized_profile nfkc q = Inr q
        \<and> decodeBoardProfileUpdatePayload nfkc b
            = map_sum id (\<lambda>_. received_profile q) (normalized_profile nfkc (received_profile q))
        \<and> (well_formed (p_displayName q) \<longrightarrow> decodeBoardProfileUpdatePayload nfkc b = Inr q
          \<and> (\<exists>a. encodeBoardProfileUpdatedPayload nfkc (ProfileAccepted q) = Inr a
              \<and> decodeBoardProfileUpdatedPayload nfkc a = Inr (ProfileAccepted q)))))
    \<and> (\<forall>t b. encodeBoardProfileUpdatedPayload nfkc (ProfileRejected t) = Inr b \<and> well_formed t
        \<and> \<not> starts_with_mark (utf8_encode t) \<longrightarrow> decodeBoardProfileUpdatedPayload nfkc b = Inr (ProfileRejected t))"
proof (intro conjI allI impI)
  fix p b assume "encodeBoardProfileUpdatePayload nfkc p = Inr b"
  then obtain q where q: "normalized_profile nfkc p = Inr q"
    and b: "b = profile_control_version # body_bytes (utf8_encode (p_displayName q)) (utf8_encode (p_color q))"
    by (auto simp: encodeBoardProfileUpdatePayload_def map_sum_Inr_iff dest: encodeProfileBody_Inr)
  note qq = normalized_idem [OF assms q]
  note nq = normalized_normal [OF q]
  have "decodeBoardProfileUpdatePayload nfkc b = Inr q \<and> (\<exists>a. encodeBoardProfileUpdatedPayload nfkc (ProfileAccepted q) = Inr a
      \<and> decodeBoardProfileUpdatedPayload nfkc a = Inr (ProfileAccepted q))" if "well_formed (p_displayName q)"
    using decode_accepted [OF normal_bytes [OF nq that] qq] encodeProfileBody_normal [OF qq] by (simp add: b)
  with q qq decode_received [OF nq, of nfkc]
  show "\<exists>q. normalized_profile nfkc p = Inr q \<and> normalized_profile nfkc q = Inr q
        \<and> decodeBoardProfileUpdatePayload nfkc b
            = map_sum id (\<lambda>_. received_profile q) (normalized_profile nfkc (received_profile q))
        \<and> (well_formed (p_displayName q) \<longrightarrow> decodeBoardProfileUpdatePayload nfkc b = Inr q
          \<and> (\<exists>a. encodeBoardProfileUpdatedPayload nfkc (ProfileAccepted q) = Inr a
              \<and> decodeBoardProfileUpdatedPayload nfkc a = Inr (ProfileAccepted q)))"
    unfolding b by blast
next
  fix t b
  assume a: "encodeBoardProfileUpdatedPayload nfkc (ProfileRejected t) = Inr b \<and> well_formed t
    \<and> \<not> starts_with_mark (utf8_encode t)"
  define e where "e = utf8_encode t"
  from a have e: "e \<noteq> []" "length e \<le> profile_error_max_bytes" "b = [profile_control_version, 0] @ writeUint16 (length e) @ e"
    by (auto simp: map_sum_Inr_iff encodeBoundedText_def Let_def e_def split: if_splits)
  have "readUint16 b 2 = Inr (length e)"
    using read16 [of "length e" "[profile_control_version, 0]" e] e
    by (simp add: profile_error_max_bytes_def numeral_2_eq_2)
  moreover have "decodeText b 4 (length e) profile_error_max_bytes = Inr t"
    using decode_text_at [of e profile_error_max_bytes t 4 "[profile_control_version, 0] @ writeUint16 (length e)" _ "[]"]
      utf8_decode_encode [of t] a e by (simp add: e_def writeUint16_def Suc_le_eq)
  ultimately show "decodeBoardProfileUpdatedPayload nfkc b = Inr (ProfileRejected t)"
    using e(2) by (simp add: decodeBoardProfileUpdatedPayload_def assertPayload_def profile_updated_max_bytes_def e(3) writeUint16_def)
qed

text \<open>
  A client takes an acceptance only for a profile that is its own normal form, and only from the
  one payload the server writes for it, or from that payload with a byte order mark before the name.
\<close>

theorem accepted_profile_is_canonical:
  assumes "decodeBoardProfileUpdatedPayload nfkc payload = Inr (ProfileAccepted p)"
  shows "normalized_profile nfkc p = Inr p
    \<and> (encodeBoardProfileUpdatedPayload nfkc (ProfileAccepted p) = Inr payload \<or> starts_with_mark (drop 4 payload))"
proof -
  from assms have ok: "payload \<noteq> []" "payload ! 0 = profile_control_version" "2 \<le> length payload" "payload ! 1 = 1"
    and body: "decodeProfileBody nfkc payload 2 = Inr (p, p)"
    by (auto simp: decodeBoardProfileUpdatedPayload_def assertPayload_def map_sum_Inr_iff
        split: sum.splits if_splits prod.splits)
  from decoded_body [OF body] obtain nb cb where b: "drop 2 payload = body_bytes nb cb"
    "utf8_decode nb = Some (p_displayName p)" "utf8_decode cb = Some (p_color p)"
    "length cb = profile_color_bytes" "normalized_profile nfkc p = Inr p" by blast
  from normalized_normal [OF b(5)] have c: "color_pattern (p_color p)" by (simp add: normal_profile_def)
  have pay: "payload = payload ! 0 # payload ! 1 # drop 2 payload"
    using ok(3) by (cases payload; cases "tl payload") auto
  have "encodeBoardProfileUpdatedPayload nfkc (ProfileAccepted p) = Inr payload" if "\<not> starts_with_mark nb"
  proof -
    have "utf8_encode (p_displayName p) = nb" using decoded_bytes [OF b(2)] that by simp
    then have "encodeProfileBody nfkc p = Inr (drop 2 payload)"
      using encodeProfileBody_normal [OF b(5)] color_unmarked [OF b(3) c b(4)] b(1) by simp
    then show ?thesis using ok pay by simp
  qed
  moreover have "drop 4 payload = nb @ cb"
    using arg_cong [OF b(1), of "drop 2"] by (simp add: body_bytes_def writeUint16_def)
  then have "starts_with_mark (drop 4 payload)" if "starts_with_mark nb"
    using that length_take [of 3 nb] by (auto simp: starts_with_mark_def byte_order_mark_def)
  ultimately show ?thesis using b(5) by blast
qed

section \<open>The theorems applied\<close>

lemma nfkc_laws_id: "nfkc_laws (\<lambda>s. s)"
  by (simp add: nfkc_laws_def)

definition demo_profile :: "string \<Rightarrow> string \<Rightarrow> profile" where
  "demo_profile name color = \<lparr> p_displayName = js name, p_color = js color \<rparr>"

text \<open>Two blanks become one, the colour is written in lower case.\<close>

lemma profile_demo_encoded:
  "\<exists>b. encodeBoardProfileUpdatePayload (\<lambda>s. s) (demo_profile '' Ann  B '' ''#2563EB'') = Inr b"
  "normalized_profile (\<lambda>s. s) (demo_profile '' Ann  B '' ''#2563EB'') = Inr (demo_profile ''Ann B'' ''#2563eb'')"
proof -
  show "normalized_profile (\<lambda>s. s) (demo_profile '' Ann  B '' ''#2563EB'') = Inr (demo_profile ''Ann B'' ''#2563eb'')"
    by code_simp
  then show "\<exists>b. encodeBoardProfileUpdatePayload (\<lambda>s. s) (demo_profile '' Ann  B '' ''#2563EB'') = Inr b"
    using encodeProfileBody_normal by (simp add: encodeBoardProfileUpdatePayload_def)
qed

lemma demo_normal: "normalized_profile (\<lambda>s. s) (demo_profile ''Ann'' ''#2563eb'') = Inr (demo_profile ''Ann'' ''#2563eb'')"
  "well_formed (js ''Ann'')" "well_formed (js ''Ann B'')"
  by code_simp+

theorem profile_payload_roundtrip_witness:
  "\<exists>b. encodeBoardProfileUpdatePayload (\<lambda>s. s) (demo_profile '' Ann  B '' ''#2563EB'') = Inr b
     \<and> decodeBoardProfileUpdatePayload (\<lambda>s. s) b = Inr (demo_profile ''Ann B'' ''#2563eb'')"
proof -
  obtain b where "encodeBoardProfileUpdatePayload (\<lambda>s. s) (demo_profile '' Ann  B '' ''#2563EB'') = Inr b"
    using profile_demo_encoded(1) by blast
  with profile_payload_roundtrip [OF nfkc_laws_id] profile_demo_encoded(2) demo_normal(3) show ?thesis
    by (fastforce simp: demo_profile_def)
qed

definition accepted_payload :: "byte list \<Rightarrow> byte list" where
  "accepted_payload name = profile_control_version # 1 # body_bytes name (utf8_encode (js ''#2563eb''))"

lemma demo_bytes:
  "utf8_decode (utf8_encode (js ''Ann'')) = Some (js ''Ann'')" "length (utf8_encode (js ''Ann'')) = 3"
  "utf8_decode (byte_order_mark @ utf8_encode (js ''Ann'')) = Some (js ''Ann'')"
  "utf8_decode (utf8_encode (js ''#2563eb'')) = Some (js ''#2563eb'')" "length (utf8_encode (js ''#2563eb'')) = 7"
proof -
  show "utf8_decode (utf8_encode (js ''Ann'')) = Some (js ''Ann'')" by (rule utf8_decode_encode; code_simp)
  show "length (utf8_encode (js ''Ann'')) = 3" by code_simp
  show "utf8_decode (byte_order_mark @ utf8_encode (js ''Ann'')) = Some (js ''Ann'')"
    using utf8_decode_mark [OF demo_normal(2)] by (simp add: utf8_mark)
  have c: "color_pattern (js ''#2563eb'')" by code_simp
  show "utf8_decode (utf8_encode (js ''#2563eb'')) = Some (js ''#2563eb'')" "length (utf8_encode (js ''#2563eb'')) = 7"
    using utf8_decode_encode color_bytes [OF c] by simp_all
qed

text \<open>The mark is taken off by the decoder before the comparison with the normal form.\<close>

lemma marked_profile_is_accepted:
  "decodeBoardProfileUpdatedPayload (\<lambda>s. s) (accepted_payload (utf8_encode (js ''Ann'')))
     = Inr (ProfileAccepted (demo_profile ''Ann'' ''#2563eb''))"
  "decodeBoardProfileUpdatedPayload (\<lambda>s. s) (accepted_payload (byte_order_mark @ utf8_encode (js ''Ann'')))
     = Inr (ProfileAccepted (demo_profile ''Ann'' ''#2563eb''))"
  unfolding accepted_payload_def using demo_bytes demo_normal(1)
  by (auto intro!: decode_accepted(2) simp: demo_profile_def display_name_max_bytes_def profile_color_bytes_def byte_order_mark_def)

theorem accepted_profile_is_canonical_witness:
  "encodeBoardProfileUpdatedPayload (\<lambda>s. s) (ProfileAccepted (demo_profile ''Ann'' ''#2563eb''))
     = Inr (accepted_payload (utf8_encode (js ''Ann'')))"
proof -
  have "\<not> starts_with_mark (drop 4 (accepted_payload (utf8_encode (js ''Ann''))))" by code_simp
  with accepted_profile_is_canonical [OF marked_profile_is_accepted(1)] show ?thesis by blast
qed

end
