(* ===== verification/Handler.thy ===== *)
theory Handler
  imports Main
begin

text \<open>
  Code that changes a state and may throw: a function from the state to a value or an error, and the
  state as it was left. An exception keeps the changes made before it. The rules of \<open>keeps\<close> carry an
  invariant through a handler by its structure.
\<close>

type_synonym ('s, 'e, 'a) handler = "'s \<Rightarrow> ('e + 'a) \<times> 's"

definition give :: "'a \<Rightarrow> ('s, 'e, 'a) handler" where
  "give x s = (Inr x, s)"

definition throw :: "'e \<Rightarrow> ('s, 'e, 'a) handler" where
  "throw e s = (Inl e, s)"

definition obtaining :: "('s, 'e, 'a) handler \<Rightarrow> ('a \<Rightarrow> ('s, 'e, 'b) handler) \<Rightarrow> ('s, 'e, 'b) handler" where
  "obtaining m k s = (case m s of (Inl e, s') \<Rightarrow> (Inl e, s') | (Inr x, s') \<Rightarrow> k x s')"

definition andThen :: "('s, 'e, unit) handler \<Rightarrow> ('s, 'e, 'b) handler \<Rightarrow> ('s, 'e, 'b) handler" where
  "andThen m n = obtaining m (\<lambda>_. n)"

text \<open>\<open>try ... catch\<close>.\<close>

definition attempt :: "('s, 'e, 'a) handler \<Rightarrow> ('e \<Rightarrow> ('s, 'e, 'a) handler) \<Rightarrow> ('s, 'e, 'a) handler" where
  "attempt m h s = (case m s of (Inl e, s') \<Rightarrow> h e s' | (Inr x, s') \<Rightarrow> (Inr x, s'))"

definition ask :: "('s \<Rightarrow> 'a) \<Rightarrow> ('s, 'e, 'a) handler" where
  "ask f s = (Inr (f s), s)"

definition change :: "('s \<Rightarrow> 's) \<Rightarrow> ('s, 'e, unit) handler" where
  "change f s = (Inr (), f s)"

definition skip :: "('s, 'e, unit) handler" where
  "skip = give ()"

definition lift :: "'e + 'a \<Rightarrow> ('s, 'e, 'a) handler" where
  "lift r s = (r, s)"

fun chain :: "('s, 'e, unit) handler list \<Rightarrow> ('s, 'e, unit) handler" where
  "chain [] = skip"
| "chain (m # ms) = andThen m (chain ms)"

text \<open>\<open>for ... of\<close> over what the collection holds when the loop starts.\<close>

definition each :: "('a \<Rightarrow> ('s, 'e, unit) handler) \<Rightarrow> 'a list \<Rightarrow> ('s, 'e, unit) handler" where
  "each f xs = chain (map f xs)"

section \<open>Rewrite rules\<close>

lemma give_obtaining [simp]: "obtaining (give x) k = k x"
  by (rule ext) (simp add: obtaining_def give_def)

lemma throw_obtaining [simp]: "obtaining (throw e) k = throw e"
  by (rule ext) (simp add: obtaining_def throw_def)

lemma ask_obtaining: "obtaining (ask f) k s = k (f s) s"
  by (simp add: obtaining_def ask_def)

lemma change_then: "andThen (change f) m s = m (f s)"
  by (simp add: andThen_def obtaining_def change_def)

lemma each_simps [simp]: "each f [] = skip" "each f (x # xs) = andThen (f x) (each f xs)"
  by (simp_all add: each_def)

section \<open>What a handler guarantees\<close>

text \<open>
  \<open>ensures P m Q E\<close>: from a state with \<open>P\<close>, a value comes with \<open>Q\<close> and an error with \<open>E\<close>.
\<close>

definition ensures :: "('s \<Rightarrow> bool) \<Rightarrow> ('s, 'e, 'a) handler \<Rightarrow> ('a \<Rightarrow> 's \<Rightarrow> bool) \<Rightarrow> ('e \<Rightarrow> 's \<Rightarrow> bool) \<Rightarrow> bool" where
  "ensures P m Q E \<longleftrightarrow> (\<forall>s. P s \<longrightarrow> (case m s of (Inl e, s') \<Rightarrow> E e s' | (Inr x, s') \<Rightarrow> Q x s'))"

definition keeps :: "('s \<Rightarrow> bool) \<Rightarrow> ('s, 'e, 'a) handler \<Rightarrow> bool" where
  "keeps I m \<longleftrightarrow> (\<forall>s. I s \<longrightarrow> I (snd (m s)))"

named_theorems keep_rules \<open>introduction rules that carry an invariant through a handler\<close>

lemma keepsD: "keeps I m \<Longrightarrow> I s \<Longrightarrow> m s = (r, s') \<Longrightarrow> I s'"
  by (force simp: keeps_def)

lemma keeps_ensures: "keeps I m \<longleftrightarrow> ensures I m (\<lambda>_. I) (\<lambda>_. I)"
  by (simp add: keeps_def ensures_def split_beta sum.case_eq_if)

lemma ensuresD:
  assumes "ensures P m Q E" "P s"
  shows "m s = (Inr x, s') \<Longrightarrow> Q x s'" "m s = (Inl e, s') \<Longrightarrow> E e s'"
  using assms by (fastforce simp: ensures_def)+

lemma keeps_give [keep_rules]: "keeps I (give x)"
  by (simp add: keeps_def give_def)

lemma keeps_throw [keep_rules]: "keeps I (throw e)"
  by (simp add: keeps_def throw_def)

lemma keeps_ask [keep_rules]: "keeps I (ask f)"
  by (simp add: keeps_def ask_def)

lemma keeps_lift [keep_rules]: "keeps I (lift r)"
  by (simp add: keeps_def lift_def)

lemma keeps_skip [keep_rules]: "keeps I skip"
  by (simp add: skip_def keeps_give)

lemma keeps_change: "(\<And>s. I s \<Longrightarrow> I (f s)) \<Longrightarrow> keeps I (change f)"
  by (simp add: keeps_def change_def)

lemma keeps_obtaining [keep_rules]: "keeps I m \<Longrightarrow> (\<And>x. keeps I (k x)) \<Longrightarrow> keeps I (obtaining m k)"
  unfolding keeps_def obtaining_def by (fastforce split: prod.splits sum.splits)

lemma keeps_andThen [keep_rules]: "keeps I m \<Longrightarrow> keeps I n \<Longrightarrow> keeps I (andThen m n)"
  unfolding andThen_def by (intro keeps_obtaining)

lemma keeps_attempt [keep_rules]: "keeps I m \<Longrightarrow> (\<And>e. keeps I (h e)) \<Longrightarrow> keeps I (attempt m h)"
  unfolding keeps_def attempt_def by (fastforce split: prod.splits sum.splits)

lemma keeps_if [keep_rules]: "(b \<Longrightarrow> keeps I m) \<Longrightarrow> (\<not> b \<Longrightarrow> keeps I n) \<Longrightarrow> keeps I (if b then m else n)"
  by simp

lemma keeps_option [keep_rules]:
  "(x = None \<Longrightarrow> keeps I m) \<Longrightarrow> (\<And>y. x = Some y \<Longrightarrow> keeps I (k y)) \<Longrightarrow> keeps I (case x of None \<Rightarrow> m | Some y \<Rightarrow> k y)"
  by (cases x) simp_all

lemma keeps_sum [keep_rules]:
  "(\<And>e. x = Inl e \<Longrightarrow> keeps I (h e)) \<Longrightarrow> (\<And>y. x = Inr y \<Longrightarrow> keeps I (k y))
     \<Longrightarrow> keeps I (case x of Inl e \<Rightarrow> h e | Inr y \<Rightarrow> k y)"
  by (cases x) simp_all

lemma keeps_prod [keep_rules]: "(\<And>a b. x = (a, b) \<Longrightarrow> keeps I (k a b)) \<Longrightarrow> keeps I (case x of (a, b) \<Rightarrow> k a b)"
  by (cases x) simp

lemma keeps_Let [keep_rules]: "(\<And>y. y = x \<Longrightarrow> keeps I (k y)) \<Longrightarrow> keeps I (let y = x in k y)"
  by simp

lemma keeps_chain: "(\<And>m. m \<in> set ms \<Longrightarrow> keeps I m) \<Longrightarrow> keeps I (chain ms)"
  by (induction ms) (simp_all add: keeps_skip keeps_andThen)

lemma keeps_each [keep_rules]: "(\<And>x. x \<in> set xs \<Longrightarrow> keeps I (f x)) \<Longrightarrow> keeps I (each f xs)"
  by (auto simp: each_def intro!: keeps_chain)

lemma keeps_conj: "keeps I m \<Longrightarrow> keeps J m \<Longrightarrow> keeps (\<lambda>s. I s \<and> J s) m"
  by (simp add: keeps_def)

lemma ensures_obtaining:
  "ensures P m Q E \<Longrightarrow> (\<And>x. ensures (Q x) (k x) R E) \<Longrightarrow> ensures P (obtaining m k) R E"
  unfolding ensures_def obtaining_def by (fastforce split: prod.splits sum.splits)

lemma ensures_attempt:
  "ensures P m Q F \<Longrightarrow> (\<And>e. ensures (F e) (h e) Q E) \<Longrightarrow> ensures P (attempt m h) Q E"
  unfolding ensures_def attempt_def by (fastforce split: prod.splits sum.splits)

lemma ensures_weaken:
  "ensures P m Q E \<Longrightarrow> (\<And>s. P' s \<Longrightarrow> P s) \<Longrightarrow> (\<And>x s. Q x s \<Longrightarrow> Q' x s) \<Longrightarrow> (\<And>e s. E e s \<Longrightarrow> E' e s)
     \<Longrightarrow> ensures P' m Q' E'"
  unfolding ensures_def by (fastforce split: prod.splits sum.splits)

end
