(* ===== verification/Sync_Rates.thy ===== *)
theory Sync_Rates
  imports Rate_Window Counted Wire "HOL-Library.AList"
begin

text \<open>
  The rate limiters and counters of the board transport, from the head of
  \<open>src/server/board-v2/sync-transport.ts\<close>: \<open>FixedWindowRate\<close>, the bounded tables of limiters by key,
  the source address and the counters of connections. Times are milliseconds.
\<close>

section \<open>A limiter\<close>

definition rate_window_ms :: int where "rate_window_ms = 10000"

record sync_rate =
  startedAt :: int
  rate_count :: int
  rate_maximum :: int

definition new_rate :: "int \<Rightarrow> int \<Rightarrow> sync_rate" where
  "new_rate mx now = \<lparr> startedAt = now, rate_count = 0, rate_maximum = mx \<rparr>"

definition rate_expired :: "int \<Rightarrow> sync_rate \<Rightarrow> bool" where
  "rate_expired now r \<longleftrightarrow> rate_window_ms \<le> now - startedAt r"

definition rate_consume :: "int \<Rightarrow> int \<Rightarrow> sync_rate \<Rightarrow> bool \<times> sync_rate" where
  "rate_consume amount now r =
     (if \<not> \<bar>amount\<bar> \<le> max_safe_integer \<or> amount < 1 then (False, r)
      else let r1 = (if rate_window_ms \<le> now - startedAt r then r\<lparr> startedAt := now, rate_count := 0 \<rparr> else r);
               r2 = r1\<lparr> rate_count := rate_count r1 + amount \<rparr>
           in (rate_count r2 \<le> rate_maximum r2, r2))"

definition rate_retry_after :: "int \<Rightarrow> sync_rate \<Rightarrow> int" where
  "rate_retry_after now r = max 1 (startedAt r + rate_window_ms - now)"

section \<open>Limiters by key\<close>

type_synonym keyed_rates = "(jstr \<times> sync_rate) list"

definition max_tracked_keys :: nat where "max_tracked_keys = 4096"

definition evict_expired :: "int \<Rightarrow> keyed_rates \<Rightarrow> keyed_rates" where
  "evict_expired now rates =
     (if max_tracked_keys \<le> length rates then filter (\<lambda>(k, r). \<not> rate_expired now r) rates else rates)"

definition consumeKeyedRate :: "jstr \<Rightarrow> int \<Rightarrow> int \<Rightarrow> int \<Rightarrow> keyed_rates \<Rightarrow> bool \<times> keyed_rates" where
  "consumeKeyedRate key mx amount now rates =
     (case map_of rates key of
        Some r \<Rightarrow> (let (ok, r') = rate_consume amount now r in (ok, AList.update key r' rates))
      | None \<Rightarrow>
          let rates1 = evict_expired now rates
          in if max_tracked_keys \<le> length rates1 then (False, rates1)
             else let (ok, r') = rate_consume amount now (new_rate mx now) in (ok, AList.update key r' rates1))"

section \<open>Counters of connections\<close>

definition decrementCount :: "'k \<Rightarrow> ('k \<rightharpoonup> int) \<Rightarrow> ('k \<rightharpoonup> int)" where
  "decrementCount k m = (let n = counter m k - 1 in if 0 < n then m(k \<mapsto> n) else m(k := None))"

lemma decrementCount_present: "k \<in> dom m \<Longrightarrow> decrementCount k m = decrement k m"
  by (auto simp: decrementCount_def decrement_def counter_def Let_def)

lemma counts_decrementCount:
  assumes "counts m M" "k \<in># M"
  shows "counts (decrementCount k m) (M - {#k#})"
proof -
  have "k \<in> dom m" using assms by (simp add: counts_def domIff)
  then show ?thesis using counts_decrement [OF assms] by (simp add: decrementCount_present)
qed

section \<open>Where a connection comes from\<close>

definition unknown_address :: jstr where "unknown_address = js ''unknown''"

definition mapped_prefix :: jstr where "mapped_prefix = js ''::ffff:''"

text \<open>An absent or empty address is unknown; a mapped one is taken out of its prefix.\<close>

definition normalizeRemoteAddress :: "jstr \<Rightarrow> jstr" where
  "normalizeRemoteAddress v =
     (if v = [] then unknown_address
      else if take (length mapped_prefix) v = mapped_prefix then drop (length mapped_prefix) v else v)"

datatype real_ip_header = NoRealIp | OneRealIp jstr | ManyRealIps "jstr list"

text \<open>\<open>is_ip\<close> stands for \<open>isIP(...) !== 0\<close>; the proxy is a setting, a string or not.\<close>

definition resolveBoardSyncSourceIp :: "(jstr \<Rightarrow> bool) \<Rightarrow> jstr \<Rightarrow> real_ip_header \<Rightarrow> jstr option \<Rightarrow> jstr" where
  "resolveBoardSyncSourceIp is_ip remote header trust =
     (let remote_ip = normalizeRemoteAddress remote;
          proxy = (case trust of Some p \<Rightarrow> normalizeRemoteAddress (js_trim p) | None \<Rightarrow> []);
          plain = (if is_ip remote_ip then remote_ip else unknown_address)
      in case header of
           OneRealIp h \<Rightarrow>
             if is_ip remote_ip \<and> is_ip proxy \<and> remote_ip = proxy
             then let candidate = normalizeRemoteAddress (js_trim h) in if is_ip candidate then candidate else plain
             else plain
         | _ \<Rightarrow> plain)"

section \<open>A limiter is a fixed window\<close>

definition rate_ok :: "int \<Rightarrow> sync_rate \<Rightarrow> bool" where
  "rate_ok mx r \<longleftrightarrow> rate_maximum r = mx \<and> 0 \<le> mx \<and> 0 \<le> rate_count r"

definition rate_used :: "sync_rate \<Rightarrow> int" where
  "rate_used r = min (rate_count r) (rate_maximum r)"

definition rate_serve :: "int \<Rightarrow> int \<Rightarrow> sync_rate \<Rightarrow> sync_rate" where
  "rate_serve amount now r = snd (rate_consume amount now r)"

definition rate_admitted :: "int \<Rightarrow> int \<Rightarrow> sync_rate \<Rightarrow> int" where
  "rate_admitted amount now r = (if fst (rate_consume amount now r) then amount else 0)"

lemmas rate_defs = rate_serve_def rate_admitted_def rate_consume_def rate_used_def rate_ok_def
  rate_window_ms_def Let_def

interpretation rate: fixed_window startedAt rate_used rate_serve rate_admitted "rate_ok mx" mx rate_window_ms for mx
  by unfold_locales (auto simp: rate_defs)

text \<open>
  Whatever is charged and whenever, a limiter of the board transport admits in any 10 seconds at
  most twice its maximum (frames, updates, presence, bytes), as long as the clock does not run
  backwards.
\<close>

theorem sync_rate_bounds_any_window:
  assumes "0 \<le> mx" "sorted (map snd q)" "\<forall>x \<in> set q. started \<le> snd x"
  shows "charged_between t (t + rate_window_ms) (trace rate_serve startedAt rate_admitted q (new_rate mx started)) \<le> 2 * mx"
  using rate.twice_the_limit [of mx "new_rate mx started" q t] assms by (simp add: rate_ok_def new_rate_def)

theorem sync_rate_bounds_any_window_witness:
  "charged_between 0 10000 (trace rate_serve startedAt rate_admitted [(1, 0), (1, 5), (1, 9)] (new_rate 2 0)) \<le> 4"
  using sync_rate_bounds_any_window [of 2 "[(1, 0), (1, 5), (1, 9)]" 0 0] by (simp add: rate_window_ms_def)

section \<open>The tables forget nothing\<close>

text \<open>A limiter whose window is over answers as a new one; a request for nothing changes neither.\<close>

lemma expired_is_new:
  assumes "rate_expired now r" "rate_maximum r = mx"
  shows "fst (rate_consume amount now r) = fst (rate_consume amount now (new_rate mx now))
    \<and> (1 \<le> amount \<and> amount \<le> max_safe_integer
        \<longrightarrow> snd (rate_consume amount now r) = snd (rate_consume amount now (new_rate mx now)))"
  using assms by (cases r) (auto simp: rate_consume_def rate_expired_def new_rate_def rate_window_ms_def Let_def)

lemma rate_consume_maximum [simp]: "rate_maximum (snd (rate_consume amount now r)) = rate_maximum r"
  by (simp add: rate_consume_def Let_def)

text \<open>Every key has one limiter, and all have the maximum of the table.\<close>

definition rates_ok :: "int \<Rightarrow> keyed_rates \<Rightarrow> bool" where
  "rates_ok mx rates \<longleftrightarrow> distinct (map fst rates) \<and> length rates \<le> max_tracked_keys
     \<and> (\<forall>(k, r) \<in> set rates. rate_maximum r = mx)"

definition rate_of :: "int \<Rightarrow> jstr \<Rightarrow> int \<Rightarrow> keyed_rates \<Rightarrow> sync_rate" where
  "rate_of mx key now rates = (case map_of rates key of None \<Rightarrow> new_rate mx now | Some r \<Rightarrow> r)"

lemma map_of_filter_entries:
  "distinct (map fst xs) \<Longrightarrow> map_of (filter (\<lambda>(k, r). P r) xs) k
     = (case map_of xs k of None \<Rightarrow> None | Some r \<Rightarrow> if P r then Some r else None)"
  by (induction xs) (auto simp: map_of_eq_None_iff split: option.splits)

lemma evict_lookup:
  "rates_ok mx rates \<Longrightarrow> map_of (evict_expired now rates) k = map_of rates k
     \<or> map_of (evict_expired now rates) k = None \<and> (\<exists>r. map_of rates k = Some r \<and> rate_expired now r)"
  by (auto simp: evict_expired_def rates_ok_def map_of_filter_entries split: option.splits)

lemma evict_ok: "rates_ok mx rates \<Longrightarrow> rates_ok mx (evict_expired now rates)"
  by (auto simp: evict_expired_def rates_ok_def distinct_map_filter intro: le_trans [OF length_filter_le])

lemma update_length: "length (AList.update k b xs) = (if map_of xs k = None then Suc (length xs) else length xs)"
  by (induction xs) auto

lemma update_entries: "x \<in> set (AList.update k b xs) \<Longrightarrow> x = (k, b) \<or> x \<in> set xs"
  by (induction xs) (auto split: if_splits)

lemma update_ok:
  "rates_ok mx rates \<Longrightarrow> rate_maximum r = mx \<Longrightarrow> map_of rates k \<noteq> None \<or> length rates < max_tracked_keys
     \<Longrightarrow> rates_ok mx (AList.update k r rates)"
  by (auto simp: rates_ok_def update_length distinct_update dest!: update_entries)

lemma consumeKeyedRate_ok:
  assumes "rates_ok mx rates"
  shows "rates_ok mx (snd (consumeKeyedRate key mx amount now rates))"
proof (cases "map_of rates key")
  case None
  then show ?thesis
    using update_ok [OF evict_ok [OF assms]] evict_ok [OF assms]
    by (auto simp: consumeKeyedRate_def Let_def split_beta new_rate_def)
next
  case (Some r)
  with assms have "rate_maximum r = mx" by (auto simp: rates_ok_def dest!: map_of_SomeD)
  with Some show ?thesis using update_ok [OF assms] by (simp add: consumeKeyedRate_def split_beta)
qed

text \<open>
  The limits per address and per user forget nothing that matters: an inbound frame, byte count
  or update is refused for want of room only when its key is unknown and 4096 keys are within their
  window; otherwise the answer is that of the limiter of the key, as if no limiter were ever
  dropped, and every other key keeps its limiter or loses one whose window is over.
\<close>

theorem keyed_rates_forget_nothing:
  assumes ok: "rates_ok mx rates" and a: "1 \<le> amount" "amount \<le> max_safe_integer"
  shows "let (granted, rates') = consumeKeyedRate key mx amount now rates;
           r = rate_of mx key now rates
         in (\<not> granted \<and> map_of rates key = None \<and> length (filter (\<lambda>(k, r). \<not> rate_expired now r) rates) = max_tracked_keys
             \<or> granted = fst (rate_consume amount now r) \<and> map_of rates' key = Some (snd (rate_consume amount now r)))
           \<and> (\<forall>k. k \<noteq> key \<longrightarrow> map_of rates' k = map_of rates k
               \<or> map_of rates' k = None \<and> (\<exists>r. map_of rates k = Some r \<and> rate_expired now r))"
proof -
  let ?e = "evict_expired now rates"
  have full: "length (filter (\<lambda>(k, r). \<not> rate_expired now r) rates) = max_tracked_keys"
    if "max_tracked_keys \<le> length ?e"
  proof (rule antisym)
    show "length (filter (\<lambda>(k, r). \<not> rate_expired now r) rates) \<le> max_tracked_keys"
      using ok unfolding rates_ok_def by (blast intro: le_trans [OF length_filter_le])
    show "max_tracked_keys \<le> length (filter (\<lambda>(k, r). \<not> rate_expired now r) rates)"
      using that by (simp add: evict_expired_def split: if_splits)
  qed
  show ?thesis
  proof (cases "map_of rates key")
    case None
    have "map_of ?e key = None" using evict_lookup [OF ok, of now key] None by auto
    with None evict_lookup [OF ok, of now] full show ?thesis
      by (auto simp: consumeKeyedRate_def rate_of_def Let_def split_beta update_conv)
  next
    case (Some r)
    then show ?thesis
      by (auto simp: consumeKeyedRate_def rate_of_def Let_def split_beta update_conv)
  qed
qed

theorem keyed_rates_forget_nothing_witness:
  "fst (consumeKeyedRate (js ''1.2.3.4'') 4000 1 7 []) = fst (rate_consume 1 7 (new_rate 4000 7))"
  using keyed_rates_forget_nothing [of 4000 "[]" 1 "js ''1.2.3.4''" 7]
  by (simp add: rates_ok_def max_safe_integer_def rate_of_def max_tracked_keys_def Let_def split_beta)

end
