(* ===== verification/Board_Access.thy ===== *)
theory Board_Access
  imports Sync_Ticket Board_Frame
begin

unbundle bit_operations_syntax

text \<open>
  Who may use a board: the access checks of \<open>src/server/board-v2/sync-service.ts\<close> (\<open>authenticate\<close>,
  \<open>reauthorize\<close> and what they call). The tables are lists of rows with the columns the queries read;
  a query is the first row of the join. Times in the tables are ISO texts, compared as text. The
  HMAC of a guest session and the first byte of the digest that picks a colour are parameters.
\<close>

section \<open>Errors\<close>

datatype sync_error_code = NotFound | BoardNotV2 | BoardGone | ProtocolMismatch | SchemaMismatch
  | SessionRevoked | AccessRevoked | ReadOnly | InvalidTicketCode | InvalidUpdate | RateLimited
  | NoNewInformation | CausalGap | CorruptDocument | TenantQuota | DiskPressure | StorageError

fun sync_error_text :: "sync_error_code \<Rightarrow> string" where
  "sync_error_text NotFound = ''NOT_FOUND''"
| "sync_error_text BoardNotV2 = ''BOARD_NOT_V2''"
| "sync_error_text BoardGone = ''BOARD_GONE''"
| "sync_error_text ProtocolMismatch = ''PROTOCOL_MISMATCH''"
| "sync_error_text SchemaMismatch = ''SCHEMA_MISMATCH''"
| "sync_error_text SessionRevoked = ''SESSION_REVOKED''"
| "sync_error_text AccessRevoked = ''ACCESS_REVOKED''"
| "sync_error_text ReadOnly = ''READ_ONLY''"
| "sync_error_text InvalidTicketCode = ''INVALID_TICKET''"
| "sync_error_text InvalidUpdate = ''INVALID_UPDATE''"
| "sync_error_text RateLimited = ''RATE_LIMITED''"
| "sync_error_text NoNewInformation = ''NO_NEW_INFORMATION''"
| "sync_error_text CausalGap = ''CAUSAL_GAP''"
| "sync_error_text CorruptDocument = ''CORRUPT_DOCUMENT''"
| "sync_error_text TenantQuota = ''TENANT_QUOTA''"
| "sync_error_text DiskPressure = ''DISK_PRESSURE''"
| "sync_error_text StorageError = ''STORAGE_ERROR''"

text \<open>
  What an operation throws: an error of this service, of the presence registry, or another. A loop
  that does not end is the last value, which nothing catches.
\<close>

datatype thrown = ServiceThrown sync_error_code jstr | AwarenessThrown jstr | OtherThrown jstr | NeverReturns

type_synonym 'a result = "thrown + 'a"

definition fail :: "sync_error_code \<Rightarrow> string \<Rightarrow> 'a result" where
  "fail code message = Inl (ServiceThrown code (js message))"

section \<open>Access\<close>

datatype board_lifecycle = BoardActive | BoardTombstoned
datatype lesson_status = LessonScheduled | LessonActive | LessonCompleted | LessonCancelled

record board_access =
  ac_boardId :: jstr
  ac_lessonId :: jstr
  ac_roomResourceId :: "jstr option"
  ac_generation :: int
  ac_protocolVersion :: int
  ac_schemaVersion :: int
  ac_lifecycle :: board_lifecycle
  ac_lessonStatus :: lesson_status
  ac_permissions :: int
  ac_userId :: jstr
  ac_sessionHash :: jstr
  ac_displayName :: jstr
  ac_color :: jstr
  ac_role :: jstr

record authenticated_sync =
  au_access :: board_access
  au_capabilities :: int

record sync_identity =
  id_boardId :: jstr
  id_generation :: int
  id_userId :: jstr
  id_sessionHash :: jstr
  id_profile :: "jval option"

definition permission_edit :: int where "permission_edit = 2"

definition permissionsForLesson :: "lesson_status \<Rightarrow> int" where
  "permissionsForLesson s = permission_read OR (if s = LessonScheduled \<or> s = LessonActive then permission_edit else 0)"

definition collaboration_colors :: "jstr list" where
  "collaboration_colors = map js [''#2563eb'', ''#16825d'', ''#d33f49'', ''#d97706'', ''#7c3aed'', ''#0891b2'']"

text \<open>\<open>{...access, ...profile}\<close> for a profile given as a value.\<close>

definition text_property :: "jval \<Rightarrow> string \<Rightarrow> jstr \<Rightarrow> jstr" where
  "text_property v k old = (case v of JObj ob \<Rightarrow> (case property ob k of JStr s \<Rightarrow> s | _ \<Rightarrow> old) | _ \<Rightarrow> old)"

definition withCollaborationProfile :: "board_access \<Rightarrow> jval option \<Rightarrow> board_access" where
  "withCollaborationProfile a p =
     (case p of None \<Rightarrow> a
      | Some v \<Rightarrow> a\<lparr> ac_displayName := text_property v ''displayName'' (ac_displayName a),
                   ac_color := text_property v ''color'' (ac_color a) \<rparr>)"

section \<open>Tables\<close>

datatype user_role = Admin | Tutor | Student
datatype user_status = UserPending | UserActive | UserSuspended
datatype board_engine = EngineLegacy | EngineV2
datatype resource_kind = BoardKind | CodeKind | CallKind

record user_row =
  us_id :: jstr
  us_role :: user_role
  us_status :: user_status
  us_displayName :: jstr

record session_row =
  se_hash :: jstr
  se_userId :: jstr
  se_expiresAt :: jstr

record lesson_row =
  le_id :: jstr
  le_tutorId :: jstr
  le_studentId :: jstr
  le_status :: lesson_status

record board_row =
  bo_id :: jstr
  bo_lessonId :: "jstr option"
  bo_roomResourceId :: "jstr option"
  bo_engine :: board_engine
  bo_lifecycle :: board_lifecycle
  bo_generation :: int
  bo_protocolVersion :: int
  bo_schemaVersion :: int

record room_row =
  ro_id :: jstr
  ro_shareKey :: jstr
  ro_expiresAt :: jstr
  ro_tokenHash :: "jstr option"
  ro_initializedAt :: "jstr option"
  ro_initializationExpiresAt :: "jstr option"

record resource_row =
  re_id :: jstr
  re_roomId :: jstr
  re_kind :: resource_kind

record access_tables =
  users :: "user_row list"
  sessions :: "session_row list"
  lessons :: "lesson_row list"
  boards :: "board_row list"
  rooms :: "room_row list"
  resources :: "resource_row list"

text \<open>The secrets and digests, and the clock: milliseconds and ISO text.\<close>

record access_env =
  ae_sign :: "jstr \<Rightarrow> jstr"
  ae_ticketKey :: "jstr \<Rightarrow> jstr"
  ae_sessionHmac :: "jstr \<Rightarrow> jstr \<Rightarrow> jstr"
  ae_idByte :: "jstr \<Rightarrow> nat"
  ae_nowMs :: int
  ae_now :: jstr

definition default_color :: "access_env \<Rightarrow> jstr \<Rightarrow> jstr" where
  "default_color E stableId = collaboration_colors ! (ae_idByte E stableId mod length collaboration_colors)"

definition first_row :: "'a list \<Rightarrow> 'a option" where
  "first_row xs = (case xs of [] \<Rightarrow> None | x # _ \<Rightarrow> Some x)"

section \<open>Checks\<close>

definition role_text :: "user_role \<Rightarrow> jstr" where
  "role_text r = js (case r of Admin \<Rightarrow> ''admin'' | Tutor \<Rightarrow> ''tutor'' | Student \<Rightarrow> ''student'')"

definition actor_rows :: "access_env \<Rightarrow> access_tables \<Rightarrow> jstr \<Rightarrow> jstr \<Rightarrow> (user_row \<times> session_row) list" where
  "actor_rows E db uid hash =
     [(u, s). u \<leftarrow> users db, s \<leftarrow> sessions db, se_userId s = us_id u \<and> se_hash s = hash \<and> ae_now E < se_expiresAt s
        \<and> us_id u = uid \<and> us_status u = UserActive]"

definition requireActor :: "access_env \<Rightarrow> access_tables \<Rightarrow> jstr \<Rightarrow> jstr \<Rightarrow> (user_row \<times> session_row) result" where
  "requireActor E db uid hash =
     (case first_row (actor_rows E db uid hash) of
        None \<Rightarrow> fail SessionRevoked ''Session is no longer active''
      | Some (u, s) \<Rightarrow>
          if us_role u = Admin then fail AccessRevoked ''Administrators are not Board participants'' else Inr (u, s))"

definition requireLessonAccess :: "access_env \<Rightarrow> access_tables \<Rightarrow> jstr \<Rightarrow> jstr \<Rightarrow> jstr \<Rightarrow> lesson_row result" where
  "requireLessonAccess E db uid hash lesson =
     (case requireActor E db uid hash of Inl e \<Rightarrow> Inl e
      | Inr (u, s) \<Rightarrow>
          (case first_row (filter (\<lambda>l. le_id l = lesson
                \<and> (us_role u = Tutor \<and> le_tutorId l = us_id u \<or> us_role u = Student \<and> le_studentId l = us_id u)) (lessons db)) of
             None \<Rightarrow> fail NotFound ''Lesson was not found'' | Some l \<Rightarrow> Inr l))"

definition guest_prefix :: jstr where "guest_prefix = js ''guest_''"

definition is_guest :: "jstr \<Rightarrow> bool" where
  "is_guest uid \<longleftrightarrow> take (length guest_prefix) uid = guest_prefix"

definition guestBoardSessionHash :: "access_env \<Rightarrow> jstr \<Rightarrow> jstr \<Rightarrow> jstr" where
  "guestBoardSessionHash E shareKey uid = js ''guest:'' @ ae_sessionHmac E shareKey uid"

definition safeEqual :: "jstr \<Rightarrow> jstr \<Rightarrow> bool" where
  "safeEqual a b \<longleftrightarrow> utf8_encode a = utf8_encode b"

definition board_protocol_version :: int where "board_protocol_version = 1"

definition lesson_board_rows :: "access_tables \<Rightarrow> jstr \<Rightarrow> (board_row \<times> lesson_row) list" where
  "lesson_board_rows db board =
     [(b, l). b \<leftarrow> boards db, l \<leftarrow> lessons db, bo_lessonId b = Some (le_id l) \<and> bo_id b = board]"

definition guest_board_rows :: "access_tables \<Rightarrow> jstr \<Rightarrow> (board_row \<times> resource_row \<times> room_row) list" where
  "guest_board_rows db board =
     [(b, x, r). b \<leftarrow> boards db, x \<leftarrow> resources db, r \<leftarrow> rooms db,
        bo_roomResourceId b = Some (re_id x) \<and> re_kind x = BoardKind \<and> re_roomId x = ro_id r \<and> bo_id b = board]"

definition requireMemberAccess :: "access_env \<Rightarrow> access_tables \<Rightarrow> sync_identity \<Rightarrow> board_access result" where
  "requireMemberAccess E db i =
     (case requireActor E db (id_userId i) (id_sessionHash i) of Inl e \<Rightarrow> Inl e
      | Inr (u, s) \<Rightarrow>
         (case first_row (lesson_board_rows db (id_boardId i)) of
            None \<Rightarrow> fail BoardGone ''Board no longer exists''
          | Some (b, l) \<Rightarrow>
              if bo_lifecycle b = BoardTombstoned then fail BoardGone ''Board is tombstoned''
              else if bo_engine b \<noteq> EngineV2 then fail AccessRevoked ''Board v2 is no longer enabled''
              else if bo_generation b \<noteq> id_generation i then fail AccessRevoked ''Board generation changed''
              else if bo_protocolVersion b \<noteq> board_protocol_version then fail ProtocolMismatch ''Board protocol version changed''
              else if \<not> (us_role u = Tutor \<and> le_tutorId l = us_id u \<or> us_role u = Student \<and> le_studentId l = us_id u)
              then fail AccessRevoked ''Board membership was revoked''
              else Inr \<lparr> ac_boardId = bo_id b, ac_lessonId = le_id l, ac_roomResourceId = None,
                ac_generation = bo_generation b, ac_protocolVersion = bo_protocolVersion b,
                ac_schemaVersion = bo_schemaVersion b, ac_lifecycle = bo_lifecycle b, ac_lessonStatus = le_status l,
                ac_permissions = permissionsForLesson (le_status l), ac_userId = us_id u, ac_sessionHash = se_hash s,
                ac_displayName = us_displayName u, ac_color = default_color E (us_id u), ac_role = role_text (us_role u) \<rparr>))"

text \<open>\<open>isResourceActive\<close> of \<open>src/server/guestRooms.ts\<close>; a comparison with an absent time is false.\<close>

definition isResourceActive :: "access_env \<Rightarrow> access_tables \<Rightarrow> jstr \<Rightarrow> jstr \<Rightarrow> resource_kind option \<Rightarrow> bool" where
  "isResourceActive E db room resource kind \<longleftrightarrow>
     list_ex (\<lambda>r. list_ex (\<lambda>x. re_roomId x = ro_id r \<and> ro_id r = room \<and> re_id x = resource
        \<and> ae_now E < ro_expiresAt r \<and> (kind = None \<or> kind = Some (re_kind x))
        \<and> (ro_tokenHash r = None \<or> ro_initializedAt r \<noteq> None
           \<or> (case ro_initializationExpiresAt r of None \<Rightarrow> False | Some t \<Rightarrow> ae_now E < t))) (resources db)) (rooms db)"

text \<open>Expired rooms are cleaned up before the refusal; what that removes is not read here.\<close>

definition requireGuestBoardAccess :: "access_env \<Rightarrow> access_tables \<Rightarrow> sync_identity \<Rightarrow> board_access result" where
  "requireGuestBoardAccess E db i =
     (case first_row (guest_board_rows db (id_boardId i)) of
        None \<Rightarrow> fail BoardGone ''Guest Board no longer exists''
      | Some (b, x, r) \<Rightarrow>
          if bo_lifecycle b = BoardTombstoned then fail BoardGone ''Guest Board no longer exists''
          else if \<not> isResourceActive E db (ro_id r) (re_id x) (Some BoardKind) then fail BoardGone ''Guest room has expired''
          else if bo_engine b \<noteq> EngineV2 then fail AccessRevoked ''Board v2 is no longer enabled''
          else if bo_generation b \<noteq> id_generation i then fail AccessRevoked ''Board generation changed''
          else if bo_protocolVersion b \<noteq> board_protocol_version then fail ProtocolMismatch ''Board protocol version changed''
          else if \<not> safeEqual (guestBoardSessionHash E (ro_shareKey r) (id_userId i)) (id_sessionHash i)
          then fail SessionRevoked ''Guest Board session is invalid''
          else Inr \<lparr> ac_boardId = bo_id b, ac_lessonId = js ''guest-room:'' @ ro_id r, ac_roomResourceId = Some (re_id x),
            ac_generation = bo_generation b, ac_protocolVersion = bo_protocolVersion b,
            ac_schemaVersion = bo_schemaVersion b, ac_lifecycle = bo_lifecycle b, ac_lessonStatus = LessonActive,
            ac_permissions = permission_read OR permission_edit, ac_userId = id_userId i, ac_sessionHash = id_sessionHash i,
            ac_displayName = [0x413, 0x43e, 0x441, 0x442, 0x44c, 0x20] @ drop (length (id_userId i) - 4) (id_userId i),
            ac_color = default_color E (id_userId i), ac_role = js ''guest'' \<rparr>)"

definition requireBoardAccess :: "access_env \<Rightarrow> access_tables \<Rightarrow> sync_identity \<Rightarrow> board_access result" where
  "requireBoardAccess E db i =
     (if is_guest (id_userId i) then requireGuestBoardAccess E db i else requireMemberAccess E db i)"

definition reauthorize :: "access_env \<Rightarrow> access_tables \<Rightarrow> sync_identity \<Rightarrow> bool \<Rightarrow> board_access result" where
  "reauthorize E db i requireEdit =
     (case requireBoardAccess E db i of Inl e \<Rightarrow> Inl e
      | Inr a \<Rightarrow>
          let a' = withCollaborationProfile a (id_profile i)
          in if requireEdit \<and> ac_permissions a' AND permission_edit = 0 then fail ReadOnly ''Board is read-only'' else Inr a')"

definition authenticate :: "access_env \<Rightarrow> jstr \<Rightarrow> int \<Rightarrow> int \<Rightarrow> int \<Rightarrow> int \<Rightarrow> access_tables \<Rightarrow> ticket_store
    \<Rightarrow> authenticated_sync result \<times> ticket_store" where
  "authenticate E ticket gen mn mx caps db ts =
     (case consume (ae_sign E) (ae_ticketKey E) ticket (ae_nowMs E) ts of
        (ts', Inl e) \<Rightarrow> (fail InvalidTicketCode ''Board sync ticket is invalid or expired'', ts')
      | (ts', Inr sc) \<Rightarrow>
          (if gen \<noteq> generation sc \<or> mn \<noteq> minSchemaVersion sc \<or> mx \<noteq> maxSchemaVersion sc \<or> caps \<noteq> capabilities sc
           then fail InvalidTicketCode ''AUTH fields do not match the ticket scope''
           else case requireBoardAccess E db \<lparr> id_boardId = boardId sc, id_generation = generation sc, id_userId = userId sc,
                   id_sessionHash = sessionHash sc, id_profile = scope_profile sc \<rparr> of Inl e \<Rightarrow> Inl e
             | Inr a0 \<Rightarrow>
                 let a = withCollaborationProfile a0 (scope_profile sc)
                 in if ac_schemaVersion a < mn \<or> mx < ac_schemaVersion a
                    then fail SchemaMismatch ''Board schema is outside the authenticated range''
                    else Inr \<lparr> au_access = a, au_capabilities = capabilities sc \<rparr>, ts'))"

end
