(* ===== verification/Sync_State.thy ===== *)
theory Sync_State
  imports Handler Sync_Rates Board_Access Board_Chunks Sync_Awareness Profile_Control
begin

text \<open>
  The state of \<open>BoardSyncTransport\<close> in \<open>src/server/board-v2/sync-transport.ts\<close>: its connections,
  which are objects of a heap, its tables and counters, the synchronisations under way and a log of
  what it did. The service, the socket library, random numbers and digests are parameters; the
  service is any that answers a call with a value or an error and a new world of its own.
\<close>

section \<open>What the transport calls\<close>

record 'w board_service =
  sv_authenticate :: "jstr \<Rightarrow> int \<Rightarrow> int \<Rightarrow> int \<Rightarrow> int \<Rightarrow> 'w \<Rightarrow> authenticated_sync result \<times> 'w"
  sv_reauthorize :: "sync_identity \<Rightarrow> bool \<Rightarrow> 'w \<Rightarrow> board_access result \<times> 'w"
  sv_missingUpdates :: "board_access \<Rightarrow> jstr \<Rightarrow> byte list \<Rightarrow> 'w \<Rightarrow> byte list list result \<times> 'w"
  sv_documentStateVector :: "board_access \<Rightarrow> jstr \<Rightarrow> 'w \<Rightarrow> byte list result \<times> 'w"
  sv_appendUpdate :: "board_access \<Rightarrow> jstr \<Rightarrow> jstr \<Rightarrow> jstr \<Rightarrow> byte list \<Rightarrow> 'w \<Rightarrow> (int \<times> bool) result \<times> 'w"
  sv_close :: "'w \<Rightarrow> 'w"

text \<open>
  In order: whether there is a service, the byte and text libraries, the normal form of names, the
  numbers and identifiers drawn, what a socket has buffered after a send, the digest, and the texts
  of exceptions this model does not have.
\<close>

record 'w sync_env =
  en_enabled :: bool
  en_service :: "'w board_service"
  en_lib :: lib0
  en_text :: text_lib
  en_nfkc :: "jstr \<Rightarrow> jstr"
  en_draw :: "nat \<Rightarrow> int"
  en_chunkId :: "nat \<Rightarrow> byte list"
  en_afterSend :: "byte list \<Rightarrow> int \<Rightarrow> int"
  en_digest :: "byte list \<Rightarrow> byte list"
  en_decodeMessage :: "byte list \<Rightarrow> board_error \<Rightarrow> jstr"
  en_encodeMessage :: "board_frame \<Rightarrow> board_error \<Rightarrow> jstr"
  en_awarenessMessage :: "byte list \<Rightarrow> jstr"
  en_profileMessage :: "profile_error \<Rightarrow> jstr"
  en_appOrigins :: "jstr list"
  en_isIp :: "jstr \<Rightarrow> bool"
  en_trustProxy :: "jstr option"

section \<open>Connections\<close>

datatype ready_state = WsConnecting | WsOpen | WsClosing | WsClosed

record sync_connection =
  ws_state :: ready_state
  ws_buffered :: int
  cn_ipKey :: jstr
  cn_pendingAuth :: bool
  cn_authTimer :: bool
  cn_authenticated :: "authenticated_sync option"
  cn_awarenessClientId :: "int option"
  cn_subscribedDocs :: "jstr list"
  cn_awaitingDocs :: "jstr list"
  cn_syncingDocs :: "jstr list"
  cn_awarenessDocs :: "jstr list"
  cn_chunks :: reassembler
  cn_frameRate :: sync_rate
  cn_updateRate :: sync_rate
  cn_awarenessRate :: sync_rate
  cn_profileRate :: sync_rate

text \<open>\<open>Set.add\<close> and \<open>Set.delete\<close> on the elements in insertion order.\<close>

definition set_add :: "'a \<Rightarrow> 'a list \<Rightarrow> 'a list" where
  "set_add x xs = (if x \<in> set xs then xs else xs @ [x])"

definition set_delete :: "'a \<Rightarrow> 'a list \<Rightarrow> 'a list" where
  "set_delete x xs = filter (\<lambda>y. y \<noteq> x) xs"

definition empty_reassembler :: reassembler where
  "empty_reassembler = \<lparr> active = [], bufferedBytes = 0 \<rparr>"

definition new_connection :: "jstr \<Rightarrow> int \<Rightarrow> sync_connection" where
  "new_connection ip now = \<lparr> ws_state = WsOpen, ws_buffered = 0, cn_ipKey = ip, cn_pendingAuth = True, cn_authTimer = True,
     cn_authenticated = None, cn_awarenessClientId = None, cn_subscribedDocs = [], cn_awaitingDocs = [],
     cn_syncingDocs = [], cn_awarenessDocs = [], cn_chunks = empty_reassembler, cn_frameRate = new_rate 2000 now,
     cn_updateRate = new_rate 1200 now, cn_awarenessRate = new_rate 600 now, cn_profileRate = new_rate 30 now \<rparr>"

section \<open>Synchronisations under way\<close>

text \<open>
  \<open>performSyncStep1\<close> waits for room in the socket before everything it sends. A task holds what is
  left: the update being sent and its frames (itself or its chunks), or the end; and where it is:
  waiting for the timer, told that there is room or none, done with an update, done.
\<close>

datatype sync_work = SendFrames board_frame "board_frame list" | SendState

datatype sync_phase = Polling int sync_work | Resolved bool sync_work | FrameDone bool | Finishing

record sync_task =
  tk_conn :: nat
  tk_docKey :: jstr
  tk_access :: board_access
  tk_updates :: "byte list list"
  tk_phase :: sync_phase

section \<open>The log\<close>

text \<open>
  What is sent is logged with the frame the bytes are of: themselves, or a chunk of. What is asked of
  the service is logged with the connection it is asked for.
\<close>

datatype effect =
    Sent nat board_frame "byte list"
  | ClosedWith nat int jstr
  | Terminated nat
  | Admitted nat "authenticated_sync result"
  | Checked nat sync_identity bool "board_access result"
  | Appended nat board_access jstr jstr "byte list" "(int \<times> bool) result"
  | ReadDocument nat board_access jstr
  | UpgradeRefused jstr
  | Unhandled thrown

section \<open>The transport\<close>

record 'w sync_transport =
  tr_heap :: "nat \<rightharpoonup> sync_connection"
  tr_next :: nat
  tr_connections :: "nat list"
  tr_boards :: "jstr \<rightharpoonup> nat list"
  tr_ipConnections :: "jstr \<rightharpoonup> int"
  tr_ipPending :: "jstr \<rightharpoonup> int"
  tr_pending :: int
  tr_frameRates :: keyed_rates
  tr_byteRates :: keyed_rates
  tr_updateRates :: keyed_rates
  tr_updateByteRates :: keyed_rates
  tr_awarenessRates :: keyed_rates
  tr_awarenessByteRates :: keyed_rates
  tr_profileRates :: keyed_rates
  tr_issuedIds :: "int list"
  tr_awareness :: registry
  tr_closed :: bool
  tr_tasks :: "nat \<rightharpoonup> sync_task"
  tr_nextTask :: nat
  tr_now :: int
  tr_drawn :: nat
  tr_chunkIds :: nat
  tr_world :: 'w
  tr_log :: "effect list"

definition new_transport :: "'w \<Rightarrow> int \<Rightarrow> 'w sync_transport" where
  "new_transport w now = \<lparr> tr_heap = Map.empty, tr_next = 0, tr_connections = [], tr_boards = Map.empty,
     tr_ipConnections = Map.empty, tr_ipPending = Map.empty, tr_pending = 0, tr_frameRates = [], tr_byteRates = [],
     tr_updateRates = [], tr_updateByteRates = [], tr_awarenessRates = [], tr_awarenessByteRates = [],
     tr_profileRates = [], tr_issuedIds = [], tr_awareness = Map.empty, tr_closed = False, tr_tasks = Map.empty,
     tr_nextTask = 0, tr_now = now, tr_drawn = 0, tr_chunkIds = 0, tr_world = w, tr_log = [] \<rparr>"

type_synonym ('w, 'a) action = "('w sync_transport, thrown, 'a) handler"

text \<open>Every connection an action is given exists; one that does not would be as one that has ended.\<close>

definition no_connection :: sync_connection where
  "no_connection = (new_connection [] 0)\<lparr> ws_state := WsClosed, cn_pendingAuth := False, cn_authTimer := False \<rparr>"

definition conn :: "'w sync_transport \<Rightarrow> nat \<Rightarrow> sync_connection" where
  "conn t c = (case tr_heap t c of None \<Rightarrow> no_connection | Some k \<Rightarrow> k)"

definition connection :: "nat \<Rightarrow> ('w, sync_connection) action" where
  "connection c = ask (\<lambda>t. conn t c)"

definition set_connection :: "nat \<Rightarrow> (sync_connection \<Rightarrow> sync_connection) \<Rightarrow> ('w, unit) action" where
  "set_connection c f = change (\<lambda>t. t\<lparr> tr_heap := (tr_heap t)(c := map_option f (tr_heap t c)) \<rparr>)"

definition record_effect :: "effect \<Rightarrow> ('w, unit) action" where
  "record_effect e = change (\<lambda>t. t\<lparr> tr_log := tr_log t @ [e] \<rparr>)"

text \<open>A call of the service, its outcome logged.\<close>

definition serve :: "('w \<Rightarrow> 'a result \<times> 'w) \<Rightarrow> ('a result \<Rightarrow> effect) \<Rightarrow> ('w, 'a) action" where
  "serve op note t = (let (r, w) = op (tr_world t) in (r, t\<lparr> tr_world := w, tr_log := tr_log t @ [note r] \<rparr>))"

text \<open>\<open>try\<close>; a loop that does not end is not caught.\<close>

definition rescue :: "('w, 'a) action \<Rightarrow> (thrown \<Rightarrow> ('w, 'a) action) \<Rightarrow> ('w, 'a) action" where
  "rescue m h = attempt m (\<lambda>e. if e = NeverReturns then throw e else h e)"

text \<open>\<open>a && b\<close> where both have effects.\<close>

definition both :: "('w, bool) action \<Rightarrow> ('w, bool) action \<Rightarrow> ('w, bool) action" where
  "both m n = obtaining m (\<lambda>ok. if ok then n else give False)"

section \<open>Rules for invariants\<close>

lemma keeps_connection [keep_rules]: "keeps I (connection c)"
  unfolding connection_def by (rule keeps_ask)

lemma keeps_rescue [keep_rules]: "keeps I m \<Longrightarrow> (\<And>e. keeps I (h e)) \<Longrightarrow> keeps I (rescue m h)"
  unfolding rescue_def by (intro keep_rules)

lemma keeps_both [keep_rules]: "keeps I m \<Longrightarrow> keeps I n \<Longrightarrow> keeps I (both m n)"
  unfolding both_def by (intro keep_rules)

lemma keeps_thrown [keep_rules]:
  "(\<And>code m. e = ServiceThrown code m \<Longrightarrow> keeps I (s code m)) \<Longrightarrow> (\<And>m. e = AwarenessThrown m \<Longrightarrow> keeps I (a m))
     \<Longrightarrow> (\<And>m. e = OtherThrown m \<Longrightarrow> keeps I (x m)) \<Longrightarrow> (e = NeverReturns \<Longrightarrow> keeps I n)
     \<Longrightarrow> keeps I (case e of ServiceThrown code m \<Rightarrow> s code m | AwarenessThrown m \<Rightarrow> a m | OtherThrown m \<Rightarrow> x m | NeverReturns \<Rightarrow> n)"
  by (cases e) simp_all

lemma keeps_work [keep_rules]:
  "(\<And>f fs. w = SendFrames f fs \<Longrightarrow> keeps I (a f fs)) \<Longrightarrow> (w = SendState \<Longrightarrow> keeps I b)
     \<Longrightarrow> keeps I (case w of SendFrames f fs \<Rightarrow> a f fs | SendState \<Rightarrow> b)"
  by (cases w) simp_all

lemma keeps_phase [keep_rules]:
  "(\<And>n w. p = Polling n w \<Longrightarrow> keeps I (a n w)) \<Longrightarrow> (\<And>ok w. p = Resolved ok w \<Longrightarrow> keeps I (b ok w))
     \<Longrightarrow> (\<And>ok. p = FrameDone ok \<Longrightarrow> keeps I (d ok)) \<Longrightarrow> (p = Finishing \<Longrightarrow> keeps I e)
     \<Longrightarrow> keeps I (case p of Polling n w \<Rightarrow> a n w | Resolved ok w \<Rightarrow> b ok w | FrameDone ok \<Rightarrow> d ok | Finishing \<Rightarrow> e)"
  by (cases p) simp_all

lemma keeps_frame [keep_rules]:
  "(\<And>a b c d e. f = AuthFrame a b c d e \<Longrightarrow> keeps I (f1 a b c d e)) \<Longrightarrow> (\<And>a b c d e. f = ReadyFrame a b c d e \<Longrightarrow> keeps I (f2 a b c d e))
     \<Longrightarrow> (\<And>a b c. f = SyncStep1Frame a b c \<Longrightarrow> keeps I (f3 a b c)) \<Longrightarrow> (\<And>a b c. f = SyncStep2Frame a b c \<Longrightarrow> keeps I (f4 a b c))
     \<Longrightarrow> (\<And>a b c d. f = UpdateFrame a b c d \<Longrightarrow> keeps I (f5 a b c d)) \<Longrightarrow> (\<And>a b c d. f = AckFrame a b c d \<Longrightarrow> keeps I (f6 a b c d))
     \<Longrightarrow> (\<And>a b c d. f = AwarenessFrame a b c d \<Longrightarrow> keeps I (f7 a b c d))
     \<Longrightarrow> (\<And>a b c d e. f = ControlFrame a b c d e \<Longrightarrow> keeps I (f8 a b c d e)) \<Longrightarrow> (\<And>a. f = ChunkFrame a \<Longrightarrow> keeps I (f9 a))
     \<Longrightarrow> keeps I (case_board_frame f1 f2 f3 f4 f5 f6 f7 f8 f9 f)"
  by (cases f) simp_all

lemma keeps_list [keep_rules]:
  "(xs = [] \<Longrightarrow> keeps I m) \<Longrightarrow> (\<And>y ys. xs = y # ys \<Longrightarrow> keeps I (k y ys)) \<Longrightarrow> keeps I (case xs of [] \<Rightarrow> m | y # ys \<Rightarrow> k y ys)"
  by (cases xs) simp_all

lemma keeps_chain_Nil [keep_rules]: "keeps I (chain [])"
  by (simp add: keeps_skip)

lemma keeps_chain_Cons [keep_rules]: "keeps I m \<Longrightarrow> keeps I (chain ms) \<Longrightarrow> keeps I (chain (m # ms))"
  by (simp add: keeps_andThen)

end
