(* ===== verification/Sync_Transport.thy ===== *)
theory Sync_Transport
  imports Sync_State
begin

unbundle bit_operations_syntax

text \<open>
  The handlers of \<open>BoardSyncTransport\<close>, \<open>src/server/board-v2/sync-transport.ts\<close>, in the order of the
  file. A function that may throw gives an error with the state it left; every branch is the code's.
  Connections and the elements of a set are visited in insertion order.
\<close>

section \<open>Limits and codes\<close>

definition max_connections :: nat where "max_connections = 512"
definition max_connections_per_ip :: int where "max_connections_per_ip = 24"
definition max_pending_auth :: int where "max_pending_auth = 128"
definition max_pending_auth_per_ip :: int where "max_pending_auth_per_ip = 8"

definition inbound_frames_per_ip :: int where "inbound_frames_per_ip = 4000"
definition inbound_bytes_per_ip :: int where "inbound_bytes_per_ip = 128 * 1024 * 1024"
definition updates_per_principal :: int where "updates_per_principal = 2400"
definition update_bytes_per_principal :: int where "update_bytes_per_principal = 128 * 1024 * 1024"
definition awareness_per_principal :: int where "awareness_per_principal = 1200"
definition awareness_bytes_per_principal :: int where "awareness_bytes_per_principal = 4 * 1024 * 1024"
definition profile_updates_per_principal :: int where "profile_updates_per_principal = 120"

definition max_socket_buffered :: int where "max_socket_buffered = 32 * 1024 * 1024"
definition sync_socket_resume :: int where "sync_socket_resume = 4 * 1024 * 1024"
definition sync_socket_drain_timeout :: int where "sync_socket_drain_timeout = 30000"
definition storage_pressure_retry_after :: int where "storage_pressure_retry_after = 60000"

definition close_protocol :: int where "close_protocol = 4400"
definition close_unauthorized :: int where "close_unauthorized = 4401"
definition close_forbidden :: int where "close_forbidden = 4403"
definition close_gone :: int where "close_gone = 4410"
definition close_rate_limited :: int where "close_rate_limited = 4429"

text \<open>\<open>BoardControlCode\<close> and \<open>BoardCapability\<close>.\<close>

definition permission_changed :: int where "permission_changed = 1"
definition asset_ready :: int where "asset_ready = 2"
definition lifecycle_changed :: int where "lifecycle_changed = 3"
definition update_rejected :: int where "update_rejected = 4"
definition resync_required :: int where "resync_required = 5"
definition board_gone :: int where "board_gone = 6"
definition session_revoked :: int where "session_revoked = 7"
definition rate_limited :: int where "rate_limited = 8"
definition storage_error :: int where "storage_error = 9"
definition server_error :: int where "server_error = 10"
definition profile_update :: int where "profile_update = 11"
definition profile_updated :: int where "profile_updated = 12"

definition awareness_capability :: int where "awareness_capability = 2"
definition profile_capability :: int where "profile_capability = 32"

section \<open>The socket\<close>

definition is_open :: "nat \<Rightarrow> ('w, bool) action" where
  "is_open c = obtaining (connection c) (\<lambda>k. give (ws_state k = WsOpen))"

text \<open>\<open>close\<close> of the socket library: once, and only of a socket that is not already closing.\<close>

definition socket_close :: "nat \<Rightarrow> int \<Rightarrow> jstr \<Rightarrow> ('w, unit) action" where
  "socket_close c code reason = obtaining (connection c) (\<lambda>k.
     if ws_state k = WsOpen \<or> ws_state k = WsConnecting
     then andThen (set_connection c (\<lambda>k. k\<lparr> ws_state := WsClosing \<rparr>)) (record_effect (ClosedWith c code reason))
     else skip)"

definition socket_terminate :: "nat \<Rightarrow> ('w, unit) action" where
  "socket_terminate c = obtaining (connection c) (\<lambda>k.
     if ws_state k \<noteq> WsClosed
     then andThen (set_connection c (\<lambda>k. k\<lparr> ws_state := WsClosing \<rparr>)) (record_effect (Terminated c))
     else skip)"

text \<open>The bytes of a frame.\<close>

definition encode_frame :: "'w sync_env \<Rightarrow> board_frame \<Rightarrow> ('w, byte list) action" where
  "encode_frame E f = lift (case encodeBoardFrame (en_lib E) f of
     Inl e \<Rightarrow> Inl (OtherThrown (en_encodeMessage E f e)) | Inr b \<Rightarrow> Inr b)"

definition sendEncodedWithoutLimit :: "'w sync_env \<Rightarrow> nat \<Rightarrow> board_frame \<Rightarrow> byte list \<Rightarrow> ('w, unit) action" where
  "sendEncodedWithoutLimit E c f b = obtaining (connection c) (\<lambda>k.
     if ws_state k \<noteq> WsOpen then skip
     else andThen (set_connection c (\<lambda>k. k\<lparr> ws_buffered := en_afterSend E b (ws_buffered k) \<rparr>)) (record_effect (Sent c f b)))"

definition sendEncoded :: "'w sync_env \<Rightarrow> nat \<Rightarrow> board_frame \<Rightarrow> byte list \<Rightarrow> ('w, unit) action" where
  "sendEncoded E c f b = obtaining (connection c) (\<lambda>k.
     if ws_state k \<noteq> WsOpen then skip
     else if max_socket_buffered < ws_buffered k then socket_close c 1013 (js ''Peer is not consuming Board updates'')
     else sendEncodedWithoutLimit E c f b)"

section \<open>Sending and closing\<close>

definition controlPayload :: "(string \<times> jval) list \<Rightarrow> byte list" where
  "controlPayload ps = utf8_encode (json_text (obj ps))"

definition draw_chunk_id :: "'w sync_env \<Rightarrow> ('w, byte list) action" where
  "draw_chunk_id E = obtaining (ask tr_chunkIds) (\<lambda>n.
     andThen (change (\<lambda>t. t\<lparr> tr_chunkIds := Suc n \<rparr>)) (give (en_chunkId E n)))"

definition peer_capabilities :: "sync_connection \<Rightarrow> int option" where
  "peer_capabilities k = map_option au_capabilities (cn_authenticated k)"

text \<open>\<open>sendFrame\<close>, given what it does with a frame it cannot send.\<close>

definition send_or :: "(nat \<Rightarrow> jstr \<Rightarrow> ('w, unit) action) \<Rightarrow> 'w sync_env \<Rightarrow> nat \<Rightarrow> board_frame \<Rightarrow> ('w, unit) action" where
  "send_or failure E c f = obtaining (connection c) (\<lambda>k.
     if ws_state k \<noteq> WsOpen then skip
     else obtaining (encode_frame E f) (\<lambda>encoded.
       if length encoded \<le> max_chunk_payload_bytes \<or> frame_type f = 9 then sendEncoded E c f encoded
       else if \<not> chunkable f then failure c (js ''Oversized frame cannot be chunked'')
       else if \<not> negotiated (peer_capabilities k) then failure c (js ''Peer did not negotiate CHUNKING'')
       else if max_chunk_count < chunk_count encoded then failure c (js ''Logical frame requires too many chunks'')
       else obtaining (draw_chunk_id E) (\<lambda>ident.
         each (\<lambda>g. obtaining (encode_frame E (ChunkFrame g)) (sendEncoded E c f))
           (chunks_of ident (frame_type f) encoded))))"

text \<open>
  The payload of a control frame is at most a quarter of what one message holds, so sending one never
  fails in turn; a failure would start over without end.
\<close>

definition send_control :: "'w sync_env \<Rightarrow> nat \<Rightarrow> board_frame \<Rightarrow> ('w, unit) action" where
  "send_control E = send_or (\<lambda>c detail. throw NeverReturns) E"

definition closeWithControl :: "'w sync_env \<Rightarrow> nat \<Rightarrow> int \<Rightarrow> int \<Rightarrow> jstr \<Rightarrow> byte list option \<Rightarrow> jstr
    \<Rightarrow> (string \<times> jval) list \<Rightarrow> ('w, unit) action" where
  "closeWithControl E c code closeCode reason messageId detail metadata =
     andThen
       (obtaining (connection c) (\<lambda>k.
          case cn_authenticated k of
            Some au \<Rightarrow>
              if ws_state k = WsOpen
              then send_control E c (ControlFrame (ac_generation (au_access au)) code None messageId
                     (controlPayload ((''error'', JStr detail) # metadata)))
              else skip
          | None \<Rightarrow> skip))
       (socket_close c closeCode (take 120 reason))"

definition protocolFailure :: "'w sync_env \<Rightarrow> nat \<Rightarrow> jstr \<Rightarrow> ('w, unit) action" where
  "protocolFailure E c detail = obtaining (connection c) (\<lambda>k.
     if cn_authenticated k \<noteq> None
     then closeWithControl E c server_error close_protocol (js ''Protocol error'') None detail []
     else socket_close c close_protocol (js ''Protocol error''))"

definition sendFrame :: "'w sync_env \<Rightarrow> nat \<Rightarrow> board_frame \<Rightarrow> ('w, unit) action" where
  "sendFrame E = send_or (protocolFailure E) E"

text \<open>The control code, the close code and the reason of an error of the service.\<close>

fun closeReason :: "sync_error_code \<Rightarrow> int \<times> int \<times> jstr" where
  "closeReason SessionRevoked = (session_revoked, close_unauthorized, js ''Session revoked'')"
| "closeReason ReadOnly = (permission_changed, close_forbidden, js ''Board is read-only'')"
| "closeReason BoardGone = (board_gone, close_gone, js ''Board gone'')"
| "closeReason StorageError = (storage_error, 1011, js ''Storage unavailable'')"
| "closeReason TenantQuota = (storage_error, 1013, js ''Storage pressure'')"
| "closeReason DiskPressure = (storage_error, 1013, js ''Storage pressure'')"
| "closeReason InvalidUpdate = (update_rejected, close_protocol, js ''Invalid update'')"
| "closeReason _ = (lifecycle_changed, close_forbidden, js ''Board access revoked'')"

definition service_error_closing :: "'w sync_env \<Rightarrow> nat \<Rightarrow> sync_error_code \<Rightarrow> jstr \<Rightarrow> byte list option \<Rightarrow> ('w, unit) action" where
  "service_error_closing E c code message messageId =
     (let (control, closeCode, reason) = closeReason code; pressure = (code = TenantQuota \<or> code = DiskPressure)
      in closeWithControl E c control closeCode reason messageId message
           ([(''reason'', JStr (js (sync_error_text code))), (''retryable'', JBool pressure)]
            @ (if pressure then [(''retryAfterMs'', JNum (JInt storage_pressure_retry_after))] else [])))"

definition service_error_failure :: "'w sync_env \<Rightarrow> nat \<Rightarrow> sync_error_code \<Rightarrow> jstr \<Rightarrow> byte list option \<Rightarrow> ('w, unit) action" where
  "service_error_failure E c code message messageId = obtaining (connection c) (\<lambda>k.
     case cn_authenticated k of
       Some au \<Rightarrow>
         if (code = CausalGap \<or> code = NoNewInformation) \<and> ws_state k = WsOpen
         then sendFrame E c (ControlFrame (ac_generation (au_access au)) resync_required None messageId
                (controlPayload [(''error'', JStr message), (''reason'', JStr (js (sync_error_text code))),
                   (''retryable'', JBool True)]))
         else service_error_closing E c code message messageId
     | None \<Rightarrow> service_error_closing E c code message messageId)"

definition serviceFailure :: "'w sync_env \<Rightarrow> nat \<Rightarrow> thrown \<Rightarrow> byte list option \<Rightarrow> ('w, unit) action" where
  "serviceFailure E c e messageId =
     (case e of ServiceThrown code message \<Rightarrow> service_error_failure E c code message messageId
      | _ \<Rightarrow> closeWithControl E c server_error 1011 (js ''Board sync failed'') messageId (js ''Board sync failed'') [])"

section \<open>Admission\<close>

definition canAdmitConnection :: "jstr \<Rightarrow> 'w sync_transport \<Rightarrow> bool" where
  "canAdmitConnection ip t \<longleftrightarrow> \<not> tr_closed t \<and> length (tr_connections t) < max_connections
     \<and> counter (tr_ipConnections t) ip < max_connections_per_ip \<and> tr_pending t < max_pending_auth
     \<and> counter (tr_ipPending t) ip < max_pending_auth_per_ip"

definition releasePendingAdmission :: "nat \<Rightarrow> ('w, unit) action" where
  "releasePendingAdmission c = obtaining (connection c) (\<lambda>k.
     if \<not> cn_pendingAuth k then skip
     else andThen (set_connection c (\<lambda>k. k\<lparr> cn_pendingAuth := False \<rparr>))
       (change (\<lambda>t. t\<lparr> tr_ipPending := decrementCount (cn_ipKey k) (tr_ipPending t),
                       tr_pending := max 0 (tr_pending t - 1) \<rparr>)))"

definition releaseConnectionAdmission :: "nat \<Rightarrow> ('w, unit) action" where
  "releaseConnectionAdmission c = andThen (releasePendingAdmission c)
     (obtaining (connection c) (\<lambda>k.
        change (\<lambda>t. t\<lparr> tr_ipConnections := decrementCount (cn_ipKey k) (tr_ipConnections t) \<rparr>)))"

definition onConnection :: "jstr \<Rightarrow> ('w, unit) action" where
  "onConnection ip = change (\<lambda>t. let c = tr_next t in t\<lparr>
     tr_heap := (tr_heap t)(c \<mapsto> new_connection ip (tr_now t)), tr_next := Suc c,
     tr_connections := tr_connections t @ [c], tr_ipConnections := increment ip (tr_ipConnections t),
     tr_ipPending := increment ip (tr_ipPending t), tr_pending := tr_pending t + 1 \<rparr>)"

text \<open>A request to upgrade: the path and query of its URL, the headers read and the socket.\<close>

record upgrade_request =
  rq_url :: "(jstr \<times> jstr) option"
  rq_origin :: "jstr option"
  rq_protocol :: "jstr option"
  rq_remoteAddress :: jstr
  rq_realIp :: real_ip_header
  rq_writable :: bool
  rq_handshake :: bool

definition sync_path :: jstr where "sync_path = js ''/api/board-v2/sync''"
definition board_subprotocol :: jstr where "board_subprotocol = js ''eduri-board-v2''"

definition crlf :: jstr where "crlf = [0x0d, 0x0a]"

definition reject_text :: "nat \<Rightarrow> string \<Rightarrow> jstr" where
  "reject_text status reason =
     (let body = js reason @ [0x0a]
      in js ''HTTP/1.1 '' @ nat_text status @ js '' '' @ js reason @ crlf @ js ''Connection: close'' @ crlf
         @ js ''Content-Type: text/plain; charset=utf-8'' @ crlf @ js ''Cache-Control: no-store'' @ crlf
         @ js ''Content-Length: '' @ nat_text (length (utf8_encode body)) @ crlf @ crlf @ body)"

text \<open>A socket that cannot be written to is destroyed instead.\<close>

definition rejectUpgrade :: "upgrade_request \<Rightarrow> nat \<Rightarrow> string \<Rightarrow> ('w, unit) action" where
  "rejectUpgrade rq status reason = record_effect (UpgradeRefused (if rq_writable rq then reject_text status reason else []))"

definition upgradeHandler :: "'w sync_env \<Rightarrow> upgrade_request \<Rightarrow> ('w, unit) action" where
  "upgradeHandler E rq =
     (case rq_url rq of None \<Rightarrow> skip
      | Some (path, query) \<Rightarrow>
          if path \<noteq> sync_path then skip
          else if query \<noteq> [] then rejectUpgrade rq 400 ''Bad Request''
          else if \<not> en_enabled E then rejectUpgrade rq 404 ''Not Found''
          else if (case rq_origin rq of None \<Rightarrow> True | Some origin \<Rightarrow> origin \<notin> set (en_appOrigins E))
          then rejectUpgrade rq 403 ''Forbidden''
          else if rq_protocol rq \<noteq> Some board_subprotocol then rejectUpgrade rq 426 ''Upgrade Required''
          else let ip = resolveBoardSyncSourceIp (en_isIp E) (rq_remoteAddress rq) (rq_realIp rq) (en_trustProxy E)
               in obtaining (ask (canAdmitConnection ip)) (\<lambda>ok.
                    if \<not> ok then rejectUpgrade rq 429 ''Too Many Requests''
                    else if rq_handshake rq then onConnection ip else skip))"

section \<open>Budgets\<close>

definition own_rate :: "(sync_connection \<Rightarrow> sync_rate) \<Rightarrow> (sync_rate \<Rightarrow> sync_connection \<Rightarrow> sync_connection) \<Rightarrow> nat
    \<Rightarrow> ('w, bool) action" where
  "own_rate get put c = obtaining (ask tr_now) (\<lambda>now. obtaining (connection c) (\<lambda>k.
     let (ok, r) = rate_consume 1 now (get k) in andThen (set_connection c (put r)) (give ok)))"

definition frame_rate :: "nat \<Rightarrow> ('w, bool) action" where
  "frame_rate = own_rate cn_frameRate (\<lambda>r k. k\<lparr> cn_frameRate := r \<rparr>)"
definition update_rate :: "nat \<Rightarrow> ('w, bool) action" where
  "update_rate = own_rate cn_updateRate (\<lambda>r k. k\<lparr> cn_updateRate := r \<rparr>)"
definition awareness_rate :: "nat \<Rightarrow> ('w, bool) action" where
  "awareness_rate = own_rate cn_awarenessRate (\<lambda>r k. k\<lparr> cn_awarenessRate := r \<rparr>)"
definition profile_rate :: "nat \<Rightarrow> ('w, bool) action" where
  "profile_rate = own_rate cn_profileRate (\<lambda>r k. k\<lparr> cn_profileRate := r \<rparr>)"

definition shared_rate :: "('w sync_transport \<Rightarrow> keyed_rates) \<Rightarrow> (keyed_rates \<Rightarrow> 'w sync_transport \<Rightarrow> 'w sync_transport)
    \<Rightarrow> jstr \<Rightarrow> int \<Rightarrow> int \<Rightarrow> ('w, bool) action" where
  "shared_rate get put key mx amount = obtaining (ask (\<lambda>t. consumeKeyedRate key mx amount (tr_now t) (get t))) (\<lambda>(ok, rates).
     andThen (change (put rates)) (give ok))"

definition principalRateKey :: "nat \<Rightarrow> ('w, jstr) action" where
  "principalRateKey c = obtaining (connection c) (\<lambda>k.
     let a = au_access (the (cn_authenticated k))
     in give (if ac_role a = js ''guest'' then js ''guest-board:'' @ ac_boardId a else js ''user:'' @ ac_userId a))"

definition consumeUpdateBudget :: "nat \<Rightarrow> int \<Rightarrow> ('w, bool) action" where
  "consumeUpdateBudget c n = obtaining (principalRateKey c) (\<lambda>key. both
     (shared_rate tr_updateRates (\<lambda>r t. t\<lparr> tr_updateRates := r \<rparr>) key updates_per_principal 1)
     (shared_rate tr_updateByteRates (\<lambda>r t. t\<lparr> tr_updateByteRates := r \<rparr>) key update_bytes_per_principal n))"

definition consumeAwarenessBudget :: "nat \<Rightarrow> int \<Rightarrow> ('w, bool) action" where
  "consumeAwarenessBudget c n = obtaining (principalRateKey c) (\<lambda>key. both
     (shared_rate tr_awarenessRates (\<lambda>r t. t\<lparr> tr_awarenessRates := r \<rparr>) key awareness_per_principal 1)
     (shared_rate tr_awarenessByteRates (\<lambda>r t. t\<lparr> tr_awarenessByteRates := r \<rparr>) key awareness_bytes_per_principal n))"

definition consumeProfileBudget :: "nat \<Rightarrow> ('w, bool) action" where
  "consumeProfileBudget c = obtaining (principalRateKey c) (\<lambda>key.
     shared_rate tr_profileRates (\<lambda>r t. t\<lparr> tr_profileRates := r \<rparr>) key profile_updates_per_principal 1)"

definition consume_inbound :: "nat \<Rightarrow> int \<Rightarrow> ('w, bool) action" where
  "consume_inbound c n = both (frame_rate c) (obtaining (connection c) (\<lambda>k. both
     (shared_rate tr_frameRates (\<lambda>r t. t\<lparr> tr_frameRates := r \<rparr>) (cn_ipKey k) inbound_frames_per_ip 1)
     (shared_rate tr_byteRates (\<lambda>r t. t\<lparr> tr_byteRates := r \<rparr>) (cn_ipKey k) inbound_bytes_per_ip n)))"

definition rateLimitRetryAfterMs :: "int \<Rightarrow> sync_connection \<Rightarrow> int" where
  "rateLimitRetryAfterMs now k = max (max (rate_retry_after now (cn_frameRate k)) (rate_retry_after now (cn_updateRate k)))
     (max (rate_retry_after now (cn_awarenessRate k)) (rate_retry_after now (cn_profileRate k)))"

definition closeForRateLimit :: "'w sync_env \<Rightarrow> nat \<Rightarrow> string \<Rightarrow> byte list option \<Rightarrow> ('w, unit) action" where
  "closeForRateLimit E c reason messageId = obtaining (connection c) (\<lambda>k. obtaining (ask tr_now) (\<lambda>now.
     closeWithControl E c rate_limited close_rate_limited (js reason) messageId (js reason)
       [(''reason'', JStr (js ''RATE_LIMITED'')), (''retryable'', JBool True),
        (''retryAfterMs'', JNum (JInt (rateLimitRetryAfterMs now k)))]))"

end
