(* ===== verification/Sync_Handlers.thy ===== *)
theory Sync_Handlers
  imports Sync_Transport
begin

unbundle bit_operations_syntax

text \<open>
  The handlers of frames and events of \<open>BoardSyncTransport\<close> in
  \<open>src/server/board-v2/sync-transport.ts\<close>, and the events that drive it.
\<close>

section \<open>Authentication\<close>

text \<open>Numbers are drawn until one is neither zero nor taken.\<close>

partial_function (option) next_awareness_id :: "(nat \<Rightarrow> int) \<Rightarrow> int list \<Rightarrow> nat \<Rightarrow> (int \<times> nat) option" where
  "next_awareness_id draw issued n =
     (let i = draw n in if i = 0 \<or> i \<in> set issued then next_awareness_id draw issued (Suc n) else Some (i, Suc n))"

definition allocateAwarenessClientId :: "'w sync_env \<Rightarrow> ('w, int) action" where
  "allocateAwarenessClientId E = obtaining (ask (\<lambda>t. next_awareness_id (en_draw E) (tr_issuedIds t) (tr_drawn t))) (\<lambda>d.
     case d of None \<Rightarrow> throw NeverReturns
     | Some (i, n) \<Rightarrow> andThen (change (\<lambda>t. t\<lparr> tr_drawn := n, tr_issuedIds := set_add i (tr_issuedIds t) \<rparr>)) (give i))"

definition join_board :: "jstr \<Rightarrow> nat \<Rightarrow> ('w, unit) action" where
  "join_board board c = change (\<lambda>t. t\<lparr> tr_boards := (tr_boards t)
     (board \<mapsto> set_add c (case tr_boards t board of None \<Rightarrow> [] | Some cs \<Rightarrow> cs)) \<rparr>)"

definition authenticate_connection :: "'w sync_env \<Rightarrow> nat \<Rightarrow> jstr \<Rightarrow> int \<Rightarrow> int \<Rightarrow> int \<Rightarrow> int \<Rightarrow> ('w, unit) action" where
  "authenticate_connection E c ticket gen mn mx caps =
     (if \<not> en_enabled E then socket_close c close_unauthorized (js ''Board v2 disabled'')
      else rescue
        (obtaining (serve (sv_authenticate (en_service E) ticket gen mn mx caps) (Admitted c)) (\<lambda>au.
         andThen (set_connection c (\<lambda>k. k\<lparr> cn_authenticated := Some au \<rparr>))
         (obtaining (allocateAwarenessClientId E) (\<lambda>i. chain
           [set_connection c (\<lambda>k. k\<lparr> cn_awarenessClientId := Some i \<rparr>),
            set_connection c (\<lambda>k. k\<lparr> cn_authTimer := False \<rparr>),
            releasePendingAdmission c,
            join_board (ac_boardId (au_access au)) c,
            sendFrame E c (ReadyFrame (ac_generation (au_access au)) (ac_schemaVersion (au_access au)) (au_capabilities au) i
              (ac_permissions (au_access au)))]))))
        (\<lambda>e. socket_close c (case e of ServiceThrown InvalidTicketCode m \<Rightarrow> close_unauthorized | _ \<Rightarrow> close_forbidden)
          (js ''AUTH rejected'')))"

section \<open>Authorisation\<close>

definition access_identity_of :: "board_access \<Rightarrow> jval \<Rightarrow> sync_identity" where
  "access_identity_of a p = \<lparr> id_boardId = ac_boardId a, id_generation = ac_generation a, id_userId = ac_userId a,
     id_sessionHash = ac_sessionHash a, id_profile = Some p \<rparr>"

definition call_reauthorize :: "'w sync_env \<Rightarrow> nat \<Rightarrow> sync_identity \<Rightarrow> bool \<Rightarrow> ('w, board_access) action" where
  "call_reauthorize E c i edit = serve (sv_reauthorize (en_service E) i edit) (Checked c i edit)"

definition reauthorizeAccess :: "'w sync_env \<Rightarrow> nat \<Rightarrow> bool \<Rightarrow> ('w, board_access) action" where
  "reauthorizeAccess E c edit = obtaining (connection c) (\<lambda>k.
     let a = au_access (the (cn_authenticated k))
     in call_reauthorize E c (access_identity_of a
          (profile_value \<lparr> p_displayName = ac_displayName a, p_color = ac_color a \<rparr>)) edit)"

definition set_access :: "nat \<Rightarrow> authenticated_sync \<Rightarrow> board_access \<Rightarrow> ('w, unit) action" where
  "set_access c au a = set_connection c (\<lambda>k. k\<lparr> cn_authenticated := Some (au\<lparr> au_access := a \<rparr>) \<rparr>)"

definition reauthorizeConnection :: "'w sync_env \<Rightarrow> nat \<Rightarrow> bool \<Rightarrow> ('w, board_access) action" where
  "reauthorizeConnection E c edit = obtaining (connection c) (\<lambda>k. obtaining (reauthorizeAccess E c edit) (\<lambda>a.
     andThen (set_access c (the (cn_authenticated k)) a) (give a)))"

definition reauthorizeFrame :: "'w sync_env \<Rightarrow> nat \<Rightarrow> int \<Rightarrow> bool \<Rightarrow> ('w, board_access) action" where
  "reauthorizeFrame E c gen edit = obtaining (connection c) (\<lambda>k.
     if gen \<noteq> ac_generation (au_access (the (cn_authenticated k)))
     then throw (ServiceThrown AccessRevoked (js ''Frame generation does not match authenticated Board generation''))
     else reauthorizeConnection E c edit)"

definition authorizeOutbound :: "'w sync_env \<Rightarrow> nat \<Rightarrow> ('w, bool) action" where
  "authorizeOutbound E c = rescue (obtaining (reauthorizeConnection E c False) (\<lambda>_. give True))
     (\<lambda>e. andThen (serviceFailure E c e None) (give False))"

section \<open>Broadcasts\<close>

definition board_peers :: "jstr \<Rightarrow> ('w, nat list) action" where
  "board_peers board = ask (\<lambda>t. case tr_boards t board of None \<Rightarrow> [] | Some cs \<Rightarrow> cs)"

definition send_to_peer :: "'w sync_env \<Rightarrow> jstr \<Rightarrow> board_frame \<Rightarrow> nat \<Rightarrow> ('w, unit) action" where
  "send_to_peer E docKey f peer = obtaining (connection peer) (\<lambda>k.
     if docKey \<notin> set (cn_subscribedDocs k) \<or> ws_state k \<noteq> WsOpen then skip
     else obtaining (authorizeOutbound E peer) (\<lambda>ok. if ok then sendFrame E peer f else skip))"

definition broadcastDocument :: "'w sync_env \<Rightarrow> nat \<Rightarrow> jstr \<Rightarrow> board_frame \<Rightarrow> ('w, unit) action" where
  "broadcastDocument E sender docKey f = obtaining (connection sender) (\<lambda>k.
     obtaining (board_peers (ac_boardId (au_access (the (cn_authenticated k))))) (\<lambda>peers.
     each (\<lambda>peer. if peer = sender then skip else send_to_peer E docKey f peer) peers))"

definition broadcastAwarenessIncludingSender :: "'w sync_env \<Rightarrow> nat \<Rightarrow> jstr \<Rightarrow> byte list \<Rightarrow> ('w, unit) action" where
  "broadcastAwarenessIncludingSender E sender docKey update = obtaining (connection sender) (\<lambda>k.
     let a = au_access (the (cn_authenticated k));
         f = AwarenessFrame (ac_generation a) docKey (the (cn_awarenessClientId k)) update
     in obtaining (board_peers (ac_boardId a)) (each (send_to_peer E docKey f)))"

section \<open>Document synchronisation\<close>

definition documentIdentity :: "jstr \<Rightarrow> int \<Rightarrow> jstr \<Rightarrow> jstr" where
  "documentIdentity board gen docKey = board @ [0] @ int_text gen @ [0] @ docKey"

text \<open>The condition of \<open>waitForSocketCapacity\<close>, looked at when the wait starts and after every timer.\<close>

definition wait_for_capacity :: "nat \<Rightarrow> int \<Rightarrow> sync_work \<Rightarrow> ('w, sync_phase) action" where
  "wait_for_capacity c since work = obtaining (connection c) (\<lambda>k. obtaining (ask tr_now) (\<lambda>now.
     if ws_state k = WsOpen \<and> sync_socket_resume < ws_buffered k
     then if sync_socket_drain_timeout \<le> now - since
          then andThen (socket_close c 1013 (js ''Peer is not consuming Board sync'')) (give (Resolved False work))
          else give (Polling since work)
     else give (Resolved (ws_state k = WsOpen) work)))"

definition start_wait :: "nat \<Rightarrow> sync_work \<Rightarrow> ('w, sync_phase) action" where
  "start_wait c work = obtaining (ask tr_now) (\<lambda>now. wait_for_capacity c now work)"

text \<open>\<open>sendFrameFlowControlled\<close> up to its first wait.\<close>

definition send_flow_controlled :: "'w sync_env \<Rightarrow> nat \<Rightarrow> board_frame \<Rightarrow> ('w, sync_phase) action" where
  "send_flow_controlled E c f = obtaining (connection c) (\<lambda>k.
     if ws_state k \<noteq> WsOpen then give (FrameDone False)
     else obtaining (encode_frame E f) (\<lambda>encoded.
       if length encoded \<le> max_chunk_payload_bytes \<or> frame_type f = 9 then start_wait c (SendFrames f [f])
       else if \<not> chunkable f
       then andThen (protocolFailure E c (js ''Oversized frame cannot be chunked'')) (give (FrameDone False))
       else if \<not> negotiated (peer_capabilities k)
       then andThen (protocolFailure E c (js ''Peer did not negotiate CHUNKING'')) (give (FrameDone False))
       else if max_chunk_count < chunk_count encoded
       then andThen (protocolFailure E c (js ''Logical frame requires too many chunks'')) (give (FrameDone False))
       else obtaining (draw_chunk_id E) (\<lambda>ident.
         start_wait c (SendFrames f (map ChunkFrame (chunks_of ident (frame_type f) encoded))))))"

text \<open>The next update of a task, or its end.\<close>

definition next_update :: "'w sync_env \<Rightarrow> sync_task \<Rightarrow> ('w, sync_task) action" where
  "next_update E k = (case tk_updates k of
     [] \<Rightarrow> obtaining (start_wait (tk_conn k) SendState) (\<lambda>p. give (k\<lparr> tk_phase := p \<rparr>))
   | u # us \<Rightarrow> obtaining (send_flow_controlled E (tk_conn k) (SyncStep2Frame (ac_generation (tk_access k)) (tk_docKey k) u))
       (\<lambda>p. give (k\<lparr> tk_updates := us, tk_phase := p \<rparr>)))"

text \<open>The own state vector, which the client answers, and the presence of the others.\<close>

definition send_state :: "'w sync_env \<Rightarrow> sync_task \<Rightarrow> ('w, sync_task) action" where
  "send_state E k =
     (let c = tk_conn k; a = tk_access k; d = tk_docKey k
      in obtaining (serve (sv_documentStateVector (en_service E) a d) (\<lambda>_. ReadDocument c a d)) (\<lambda>v.
         andThen (set_connection c (\<lambda>n. n\<lparr> cn_awaitingDocs := set_add d (cn_awaitingDocs n) \<rparr>))
         (andThen (sendFrame E c (SyncStep1Frame (ac_generation a) d v))
         (obtaining (is_open c) (\<lambda>opened. if \<not> opened then give (k\<lparr> tk_phase := Finishing \<rparr>)
          else obtaining (ask (\<lambda>t. registry_current (tr_awareness t) (documentIdentity (ac_boardId a) (ac_generation a) d)))
            (\<lambda>updates. andThen
              (each (\<lambda>u. case parseAwarenessUpdate (en_lib E) (en_text E) u of
                 None \<Rightarrow> throw (AwarenessThrown (en_awarenessMessage E u))
               | Some p \<Rightarrow> sendFrame E c (AwarenessFrame (ac_generation a) d (u_clientId p) u)) updates)
              (give (k\<lparr> tk_phase := Finishing \<rparr>))))))))"

text \<open>One segment of a task, from where it was suspended to the next suspension.\<close>

definition task_segment :: "'w sync_env \<Rightarrow> sync_task \<Rightarrow> ('w, sync_task) action" where
  "task_segment E k =
     (case tk_phase k of
        Polling since work \<Rightarrow> obtaining (wait_for_capacity (tk_conn k) since work) (\<lambda>p. give (k\<lparr> tk_phase := p \<rparr>))
      | Resolved ok work \<Rightarrow>
          (case work of
             SendFrames f fs \<Rightarrow>
               if \<not> ok then give (k\<lparr> tk_phase := FrameDone False \<rparr>)
               else (case fs of
                   [] \<Rightarrow> give (k\<lparr> tk_phase := FrameDone True \<rparr>)
                 | g # rest \<Rightarrow> obtaining (encode_frame E g) (\<lambda>b.
                     andThen (sendEncodedWithoutLimit E (tk_conn k) f b)
                     (if rest = [] then obtaining (is_open (tk_conn k)) (\<lambda>opened. give (k\<lparr> tk_phase := FrameDone opened \<rparr>))
                      else obtaining (start_wait (tk_conn k) (SendFrames f rest)) (\<lambda>p. give (k\<lparr> tk_phase := p \<rparr>)))))
           | SendState \<Rightarrow> if \<not> ok then give (k\<lparr> tk_phase := Finishing \<rparr>) else send_state E k)
      | FrameDone ok \<Rightarrow> if \<not> ok then give (k\<lparr> tk_phase := Finishing \<rparr>) else next_update E k
      | Finishing \<Rightarrow> give k)"

text \<open>An error ends the task; one thrown while it is dealt with is a rejection nobody handles.\<close>

definition guarded :: "'w sync_env \<Rightarrow> sync_task \<Rightarrow> ('w, sync_task) action \<Rightarrow> ('w, sync_task) action" where
  "guarded E k m = rescue
     (rescue m (\<lambda>e. andThen (serviceFailure E (tk_conn k) e None) (give (k\<lparr> tk_phase := Finishing \<rparr>))))
     (\<lambda>e. andThen (record_effect (Unhandled e)) (give (k\<lparr> tk_phase := Finishing \<rparr>)))"

definition begin_sync :: "'w sync_env \<Rightarrow> nat \<Rightarrow> int \<Rightarrow> jstr \<Rightarrow> byte list \<Rightarrow> ('w, sync_task) action" where
  "begin_sync E c gen docKey v = obtaining (reauthorizeFrame E c gen False) (\<lambda>a.
     obtaining (serve (sv_missingUpdates (en_service E) a docKey v) (\<lambda>_. ReadDocument c a docKey)) (\<lambda>updates.
       andThen (set_connection c (\<lambda>k. k\<lparr> cn_subscribedDocs := set_add docKey (cn_subscribedDocs k) \<rparr>))
       (next_update E \<lparr> tk_conn = c, tk_docKey = docKey, tk_access = a, tk_updates = updates, tk_phase = Finishing \<rparr>)))"

definition add_task :: "sync_task \<Rightarrow> ('w, unit) action" where
  "add_task k = change (\<lambda>t. t\<lparr> tr_tasks := (tr_tasks t)(tr_nextTask t \<mapsto> k), tr_nextTask := Suc (tr_nextTask t) \<rparr>)"

definition handleSyncStep1 :: "'w sync_env \<Rightarrow> nat \<Rightarrow> int \<Rightarrow> jstr \<Rightarrow> byte list \<Rightarrow> ('w, unit) action" where
  "handleSyncStep1 E c gen docKey v = obtaining (connection c) (\<lambda>k.
     if docKey \<in> set (cn_syncingDocs k) then protocolFailure E c (js ''A document sync is already in progress'')
     else andThen (set_connection c (\<lambda>k. k\<lparr> cn_awaitingDocs := set_delete docKey (cn_awaitingDocs k),
              cn_syncingDocs := set_add docKey (cn_syncingDocs k) \<rparr>))
       (obtaining (guarded E \<lparr> tk_conn = c, tk_docKey = docKey, tk_access = au_access (the (cn_authenticated k)),
              tk_updates = [], tk_phase = Finishing \<rparr> (begin_sync E c gen docKey v)) add_task))"

definition resume_task :: "'w sync_env \<Rightarrow> nat \<Rightarrow> ('w, unit) action" where
  "resume_task E i = obtaining (ask (\<lambda>t. tr_tasks t i)) (\<lambda>task. case task of None \<Rightarrow> skip
     | Some k \<Rightarrow>
         if tk_phase k = Finishing
         then andThen (set_connection (tk_conn k) (\<lambda>n. n\<lparr> cn_syncingDocs := set_delete (tk_docKey k) (cn_syncingDocs n) \<rparr>))
           (change (\<lambda>t. t\<lparr> tr_tasks := (tr_tasks t)(i := None) \<rparr>))
         else obtaining (guarded E k (task_segment E k)) (\<lambda>k'. change (\<lambda>t. t\<lparr> tr_tasks := (tr_tasks t)(i \<mapsto> k') \<rparr>)))"

end
