(* ===== verification/Sync_Events.thy ===== *)
theory Sync_Events
  imports Sync_Handlers
begin

unbundle bit_operations_syntax

text \<open>
  The rest of \<open>BoardSyncTransport\<close> in \<open>src/server/board-v2/sync-transport.ts\<close>: updates, presence,
  profiles, the dispatch of messages, the end of a connection, the hooks of the application, and
  the step relation of all events.
\<close>

section \<open>Updates\<close>

definition syncUpdateMessageId :: "'w sync_env \<Rightarrow> board_access \<Rightarrow> jstr \<Rightarrow> byte list \<Rightarrow> byte list" where
  "syncUpdateMessageId E a docKey update =
     take 16 (en_digest E (utf8_encode (js ''eduri-board-v2-sync-step2'') @ [0] @ utf8_encode (ac_boardId a) @ [0]
       @ utf8_encode (int_text (ac_generation a)) @ [0] @ utf8_encode docKey @ [0] @ utf8_encode (ac_userId a) @ [0] @ update))"

definition hex_of :: "'w sync_env \<Rightarrow> byte list \<Rightarrow> ('w, jstr) action" where
  "hex_of E m = lift (case messageIdToHex m of Inl e \<Rightarrow> Inl (OtherThrown (en_decodeMessage E m e)) | Inr s \<Rightarrow> Inr s)"

text \<open>The edit is authorised, then appended; the user is also the client identifier.\<close>

definition append_authorized :: "'w sync_env \<Rightarrow> nat \<Rightarrow> int \<Rightarrow> jstr \<Rightarrow> byte list \<Rightarrow> byte list
    \<Rightarrow> ('w, board_access \<times> int \<times> bool) action" where
  "append_authorized E c gen docKey messageId update = obtaining (reauthorizeFrame E c gen True) (\<lambda>a.
     obtaining (hex_of E messageId) (\<lambda>h.
     obtaining (serve (sv_appendUpdate (en_service E) a (ac_userId a) docKey h update) (Appended c a docKey h update)) (\<lambda>(seq, duplicate).
     give (a, seq, duplicate))))"

definition handleSyncStep2 :: "'w sync_env \<Rightarrow> nat \<Rightarrow> int \<Rightarrow> jstr \<Rightarrow> byte list \<Rightarrow> ('w, unit) action" where
  "handleSyncStep2 E c gen docKey update = obtaining (connection c) (\<lambda>k.
     if docKey \<notin> set (cn_awaitingDocs k)
     then protocolFailure E c (js ''SYNC_STEP2 requires a preceding server SYNC_STEP1'')
     else andThen (set_connection c (\<lambda>k. k\<lparr> cn_awaitingDocs := set_delete docKey (cn_awaitingDocs k) \<rparr>))
       (obtaining (both (update_rate c) (consumeUpdateBudget c (int (length update)))) (\<lambda>ok.
          if \<not> ok then closeForRateLimit E c ''Update rate exceeded'' None
          else let messageId = syncUpdateMessageId E (au_access (the (cn_authenticated k))) docKey update
            in rescue
              (obtaining (append_authorized E c gen docKey messageId update) (\<lambda>(a, seq, duplicate).
                 if duplicate then skip
                 else broadcastDocument E c docKey (UpdateFrame (ac_generation a) docKey messageId update)))
              (\<lambda>e. case e of ServiceThrown NoNewInformation m \<Rightarrow> skip | _ \<Rightarrow> serviceFailure E c e (Some messageId)))))"

definition handleUpdate :: "'w sync_env \<Rightarrow> nat \<Rightarrow> int \<Rightarrow> jstr \<Rightarrow> byte list \<Rightarrow> byte list \<Rightarrow> ('w, unit) action" where
  "handleUpdate E c gen docKey messageId update =
     obtaining (both (update_rate c) (consumeUpdateBudget c (int (length update)))) (\<lambda>ok.
       if \<not> ok then closeForRateLimit E c ''Update rate exceeded'' (Some messageId)
       else rescue
         (obtaining (append_authorized E c gen docKey messageId update) (\<lambda>(a, seq, duplicate). chain
            [set_connection c (\<lambda>k. k\<lparr> cn_subscribedDocs := set_add docKey (cn_subscribedDocs k) \<rparr>),
             broadcastDocument E c docKey (UpdateFrame gen docKey messageId update),
             sendFrame E c (AckFrame (ac_generation a) docKey messageId seq)]))
         (\<lambda>e. serviceFailure E c e (Some messageId)))"

section \<open>Presence and profiles\<close>

definition awareness_identity_of :: "board_access \<Rightarrow> awareness_identity" where
  "awareness_identity_of a = \<lparr> i_userId = ac_userId a, i_displayName = ac_displayName a, i_role = ac_role a, i_color = ac_color a \<rparr>"

definition set_registry :: "registry \<Rightarrow> ('w, unit) action" where
  "set_registry r = change (\<lambda>t. t\<lparr> tr_awareness := r \<rparr>)"

definition set_awareness_doc :: "nat \<Rightarrow> jstr \<Rightarrow> bool \<Rightarrow> ('w, unit) action" where
  "set_awareness_doc c docKey present = set_connection c (\<lambda>k. k\<lparr> cn_awarenessDocs :=
     (if present then set_add docKey (cn_awarenessDocs k) else set_delete docKey (cn_awarenessDocs k)) \<rparr>)"

definition accept_awareness :: "'w sync_env \<Rightarrow> nat \<Rightarrow> int \<Rightarrow> jstr \<Rightarrow> int \<Rightarrow> byte list \<Rightarrow> ('w, unit) action" where
  "accept_awareness E c gen docKey client update = obtaining (reauthorizeFrame E c gen False) (\<lambda>a. obtaining (connection c) (\<lambda>k.
     if docKey \<notin> set (cn_subscribedDocs k)
     then throw (AwarenessThrown (js ''SYNC_STEP1 is required before awareness for a document''))
     else if Some client \<noteq> cn_awarenessClientId k
     then throw (AwarenessThrown (js ''Outer awareness client ID does not match READY''))
     else (case authorizeAwarenessUpdate (en_lib E) (en_text E) update (the (cn_awarenessClientId k)) (awareness_identity_of a) of
         None \<Rightarrow> throw (AwarenessThrown (en_awarenessMessage E update))
       | Some (u, out) \<Rightarrow>
           obtaining (ask (\<lambda>t. registry_accept (documentIdentity (ac_boardId a) (ac_generation a) docKey) u out (tr_awareness t)))
             (\<lambda>(reg, accepted). andThen (set_registry reg)
               (case accepted of None \<Rightarrow> skip
                | Some b \<Rightarrow> andThen (set_awareness_doc c docKey (u_state u \<noteq> None))
                    (broadcastDocument E c docKey (AwarenessFrame gen docKey client b)))))))"

definition handleAwareness :: "'w sync_env \<Rightarrow> nat \<Rightarrow> int \<Rightarrow> jstr \<Rightarrow> int \<Rightarrow> byte list \<Rightarrow> ('w, unit) action" where
  "handleAwareness E c gen docKey client update = obtaining (connection c) (\<lambda>k.
     obtaining (both (awareness_rate c) (consumeAwarenessBudget c (int (length update)))) (\<lambda>ok.
       if \<not> ok \<or> au_capabilities (the (cn_authenticated k)) AND awareness_capability = 0
       then closeForRateLimit E c ''Awareness rate exceeded or capability missing'' None
       else rescue (accept_awareness E c gen docKey client update)
         (\<lambda>e. case e of AwarenessThrown m \<Rightarrow> protocolFailure E c m | _ \<Rightarrow> serviceFailure E c e None)))"

definition sendProfileUpdated :: "'w sync_env \<Rightarrow> nat \<Rightarrow> byte list \<Rightarrow> profile_result \<Rightarrow> ('w, unit) action" where
  "sendProfileUpdated E c messageId r = obtaining (connection c) (\<lambda>k.
     obtaining (lift (map_sum (\<lambda>e. OtherThrown (en_profileMessage E e)) id (encodeBoardProfileUpdatedPayload (en_nfkc E) r)))
       (\<lambda>payload. sendFrame E c (ControlFrame (ac_generation (au_access (the (cn_authenticated k)))) profile_updated None
          (Some messageId) payload)))"

definition requested_profile :: "'w sync_env \<Rightarrow> byte list \<Rightarrow> profile option" where
  "requested_profile E payload =
     (if profile_update_max_bytes < length payload then None
      else case decodeBoardProfileUpdatePayload (en_nfkc E) payload of Inl e \<Rightarrow> None
        | Inr raw \<Rightarrow> (case normalized_profile (en_nfkc E) raw of Inl e \<Rightarrow> None | Inr p \<Rightarrow> Some p))"

definition change_profile :: "'w sync_env \<Rightarrow> nat \<Rightarrow> authenticated_sync \<Rightarrow> board_access \<Rightarrow> byte list \<Rightarrow> profile \<Rightarrow> ('w, unit) action" where
  "change_profile E c au current messageId p =
     obtaining (call_reauthorize E c (access_identity_of current (profile_value p)) False) (\<lambda>a. obtaining (connection c) (\<lambda>k.
       let identities = map (\<lambda>d. (d, documentIdentity (ac_boardId a) (ac_generation a) d)) (cn_awarenessDocs k)
       in obtaining (ask tr_awareness) (\<lambda>reg.
         case updateIdentitiesAtomically (en_lib E) (en_text E) (map snd identities) (the (cn_awarenessClientId k))
             (awareness_identity_of a) reg of
           None \<Rightarrow> throw (AwarenessThrown [])
         | Some (reg', updates) \<Rightarrow> chain
             [set_registry reg', set_access c au a,
              each (\<lambda>(d, i). case map_of updates i of None \<Rightarrow> skip
                 | Some u \<Rightarrow> broadcastAwarenessIncludingSender E c d u) identities,
              sendProfileUpdated E c messageId (ProfileAccepted p)])))"

definition handleProfileUpdate :: "'w sync_env \<Rightarrow> nat \<Rightarrow> int \<Rightarrow> jstr option \<Rightarrow> byte list option \<Rightarrow> byte list \<Rightarrow> ('w, unit) action" where
  "handleProfileUpdate E c gen docKey messageId payload = obtaining (connection c) (\<lambda>k.
     let au = the (cn_authenticated k)
     in if au_capabilities au AND profile_capability = 0 then protocolFailure E c (js ''Profile updates were not negotiated'')
        else if docKey \<noteq> None \<or> messageId = None
        then protocolFailure E c (js ''PROFILE_UPDATE requires only a correlation message ID'')
        else obtaining
          (rescue
            (if gen \<noteq> ac_generation (au_access au)
             then throw (ServiceThrown AccessRevoked (js ''Profile generation does not match authenticated Board generation''))
             else obtaining (reauthorizeAccess E c False) (\<lambda>a. give (Some a)))
            (\<lambda>e. andThen (serviceFailure E c e messageId) (give None)))
          (\<lambda>current. case current of None \<Rightarrow> skip
           | Some a \<Rightarrow> obtaining (both (profile_rate c) (consumeProfileBudget c)) (\<lambda>ok.
               if \<not> ok then closeForRateLimit E c ''Profile update rate exceeded'' messageId
               else (case requested_profile E payload of
                   None \<Rightarrow> sendProfileUpdated E c (the messageId) (ProfileRejected (js ''Profile is invalid''))
                 | Some p \<Rightarrow> rescue (change_profile E c au a (the messageId) p)
                     (\<lambda>e. case e of
                        AwarenessThrown m \<Rightarrow> sendProfileUpdated E c (the messageId)
                          (ProfileRejected (js ''Profile awareness could not be updated''))
                      | _ \<Rightarrow> serviceFailure E c e messageId)))))"

section \<open>Messages\<close>

definition control_code_names :: "string list" where
  "control_code_names = [''PERMISSION_CHANGED'', ''ASSET_READY'', ''LIFECYCLE_CHANGED'', ''UPDATE_REJECTED'', ''RESYNC_REQUIRED'',
     ''BOARD_GONE'', ''SESSION_REVOKED'', ''RATE_LIMITED'', ''STORAGE_ERROR'', ''SERVER_ERROR'', ''PROFILE_UPDATE'',
     ''PROFILE_UPDATED'']"

definition not_accepted :: "string \<Rightarrow> jstr" where
  "not_accepted name = js name @ js '' is not accepted from a client''"

fun dispatchAuthenticated :: "'w sync_env \<Rightarrow> nat \<Rightarrow> board_frame \<Rightarrow> ('w, unit) action" where
  "dispatchAuthenticated E c (SyncStep1Frame g d v) = handleSyncStep1 E c g d v"
| "dispatchAuthenticated E c (SyncStep2Frame g d u) = handleSyncStep2 E c g d u"
| "dispatchAuthenticated E c (UpdateFrame g d m u) = handleUpdate E c g d m u"
| "dispatchAuthenticated E c (AwarenessFrame g d client u) = handleAwareness E c g d client u"
| "dispatchAuthenticated E c (ControlFrame g code d m p) =
     (if code = profile_update then handleProfileUpdate E c g d m p
      else protocolFailure E c (not_accepted (control_code_names ! nat (code - 1))))"
| "dispatchAuthenticated E c (ChunkFrame f) = protocolFailure E c (js ''Nested CHUNK is not allowed'')"
| "dispatchAuthenticated E c (AuthFrame t g mn mx caps) = protocolFailure E c (not_accepted ''AUTH'')"
| "dispatchAuthenticated E c (ReadyFrame g s caps client p) = protocolFailure E c (not_accepted ''READY'')"
| "dispatchAuthenticated E c (AckFrame g d m n) = protocolFailure E c (not_accepted ''ACK'')"

fun thrown_text :: "thrown \<Rightarrow> jstr" where
  "thrown_text (ServiceThrown code m) = m"
| "thrown_text (AwarenessThrown m) = m"
| "thrown_text (OtherThrown m) = m"
| "thrown_text NeverReturns = []"

fun chunk_error_text :: "'w sync_env \<Rightarrow> chunk_frame \<Rightarrow> chunk_error \<Rightarrow> jstr" where
  "chunk_error_text E f TooManyAssemblies = js ''Too many active chunk assemblies''"
| "chunk_error_text E f MetadataChanged = js ''Chunk metadata changed during reassembly''"
| "chunk_error_text E f ConflictingDuplicate = js ''Duplicate chunk index contains different bytes''"
| "chunk_error_text E f ResourceLimits = js ''Chunk assembly exceeds its declared resource limits''"
| "chunk_error_text E f LengthMismatch = js ''Reassembled frame length does not match totalLength''"
| "chunk_error_text E f TypeMismatch = js ''Reassembled frame type does not match CHUNK innerType''"
| "chunk_error_text E f (BadFrame e) = en_decodeMessage E (c_payload f) e"

definition push_chunk :: "'w sync_env \<Rightarrow> nat \<Rightarrow> chunk_frame \<Rightarrow> ('w, byte list option) action" where
  "push_chunk E c f = obtaining (connection c) (\<lambda>k.
     let (r, chunks) = push (en_lib E) f (cn_chunks k)
     in andThen (set_connection c (\<lambda>k. k\<lparr> cn_chunks := chunks \<rparr>))
          (lift (map_sum (\<lambda>e. OtherThrown (chunk_error_text E f e)) id r)))"

definition decode_frame :: "'w sync_env \<Rightarrow> byte list \<Rightarrow> ('w, board_frame) action" where
  "decode_frame E b = lift (map_sum (\<lambda>e. OtherThrown (en_decodeMessage E b e)) id (decodeBoardFrame (en_lib E) b))"

definition handle_chunk :: "'w sync_env \<Rightarrow> nat \<Rightarrow> authenticated_sync \<Rightarrow> chunk_frame \<Rightarrow> ('w, unit) action" where
  "handle_chunk E c au f =
     (if au_capabilities au AND chunking_capability = 0 then protocolFailure E c (js ''CHUNK was not negotiated'')
      else rescue
        (obtaining (push_chunk E c f) (\<lambda>whole. case whole of None \<Rightarrow> skip
          | Some b \<Rightarrow> obtaining (decode_frame E b) (dispatchAuthenticated E c)))
        (\<lambda>e. protocolFailure E c (thrown_text e)))"

definition handle_frame :: "'w sync_env \<Rightarrow> nat \<Rightarrow> nat \<Rightarrow> board_frame \<Rightarrow> ('w, unit) action" where
  "handle_frame E c n f = obtaining (connection c) (\<lambda>k.
     case cn_authenticated k of
       None \<Rightarrow> (case f of AuthFrame ticket g mn mx caps \<Rightarrow> authenticate_connection E c ticket g mn mx caps
               | _ \<Rightarrow> protocolFailure E c (js ''AUTH must be the first frame''))
     | Some au \<Rightarrow>
         (case f of
            AuthFrame ticket g mn mx caps \<Rightarrow> protocolFailure E c (js ''AUTH cannot be repeated'')
          | UpdateFrame g d m u \<Rightarrow>
              if max_chunk_payload_bytes < n then protocolFailure E c (js ''Large UPDATE frames must use CHUNK'')
              else dispatchAuthenticated E c f
          | ChunkFrame g \<Rightarrow> handle_chunk E c au g
          | _ \<Rightarrow> dispatchAuthenticated E c f))"

definition onMessage :: "'w sync_env \<Rightarrow> nat \<Rightarrow> bool \<Rightarrow> byte list \<Rightarrow> ('w, unit) action" where
  "onMessage E c binary b =
     (if \<not> binary then protocolFailure E c (js ''Board sync accepts binary frames only'')
      else obtaining (consume_inbound c (int (length b))) (\<lambda>ok.
        if \<not> ok then closeForRateLimit E c ''Inbound Board sync budget exceeded'' None
        else (case decodeBoardFrame (en_lib E) b of
            Inl e \<Rightarrow> protocolFailure E c (en_decodeMessage E b e)
          | Inr f \<Rightarrow> handle_frame E c (length b) f)))"

section \<open>The end of a connection\<close>

definition leave_board :: "jstr \<Rightarrow> nat \<Rightarrow> ('w, nat list) action" where
  "leave_board board c = obtaining (ask (\<lambda>t. tr_boards t board)) (\<lambda>cs. case cs of None \<Rightarrow> give []
     | Some cs \<Rightarrow> let rest = set_delete c cs
         in andThen (change (\<lambda>t. t\<lparr> tr_boards := (tr_boards t)(board := if rest = [] then None else Some rest) \<rparr>)) (give rest))"

definition remove_presence :: "'w sync_env \<Rightarrow> nat \<Rightarrow> board_access \<Rightarrow> nat list \<Rightarrow> jstr \<Rightarrow> ('w, unit) action" where
  "remove_presence E c a peers docKey = obtaining (connection c) (\<lambda>k.
     let i = the (cn_awarenessClientId k)
     in obtaining (ask (\<lambda>t. registry_remove (en_lib E) (en_text E) (documentIdentity (ac_boardId a) (ac_generation a) docKey) i
            (tr_awareness t))) (\<lambda>(reg, removal). andThen (set_registry reg)
          (case removal of None \<Rightarrow> skip
           | Some u \<Rightarrow> each (\<lambda>peer. obtaining (connection peer) (\<lambda>n.
               if docKey \<notin> set (cn_subscribedDocs n) then skip
               else obtaining (authorizeOutbound E peer) (\<lambda>ok.
                 if ok then sendFrame E peer (AwarenessFrame (ac_generation a) docKey i u) else skip))) peers)))"

definition onClose :: "'w sync_env \<Rightarrow> nat \<Rightarrow> ('w, unit) action" where
  "onClose E c = obtaining (ask (\<lambda>t. c \<in> set (tr_connections t))) (\<lambda>present.
     if \<not> present then skip
     else andThen (change (\<lambda>t. t\<lparr> tr_connections := set_delete c (tr_connections t) \<rparr>))
       (andThen (releaseConnectionAdmission c)
       (andThen (set_connection c (\<lambda>k. k\<lparr> cn_authTimer := False, cn_chunks := empty_reassembler \<rparr>))
       (obtaining (connection c) (\<lambda>k. andThen
         (case cn_awarenessClientId k of None \<Rightarrow> skip
          | Some i \<Rightarrow> change (\<lambda>t. t\<lparr> tr_issuedIds := set_delete i (tr_issuedIds t) \<rparr>))
         (case cn_authenticated k of None \<Rightarrow> skip
          | Some au \<Rightarrow> obtaining (leave_board (ac_boardId (au_access au)) c) (\<lambda>peers.
              each (remove_presence E c (au_access au) peers) (cn_awarenessDocs k))))))))"

section \<open>The hooks of the application\<close>

definition disconnectMatching :: "'w sync_env \<Rightarrow> (sync_connection \<Rightarrow> bool) \<Rightarrow> int \<Rightarrow> string \<Rightarrow> ('w, unit) action" where
  "disconnectMatching E p code reason = obtaining (ask tr_connections) (each (\<lambda>c. obtaining (connection c) (\<lambda>k.
     if \<not> p k then skip else closeWithControl E c code close_forbidden (js reason) None (js reason) [])))"

definition access_matches :: "(board_access \<Rightarrow> bool) \<Rightarrow> sync_connection \<Rightarrow> bool" where
  "access_matches p k \<longleftrightarrow> (case cn_authenticated k of None \<Rightarrow> False | Some au \<Rightarrow> p (au_access au))"

definition disconnectUserSockets :: "'w sync_env \<Rightarrow> jstr \<Rightarrow> ('w, unit) action" where
  "disconnectUserSockets E uid =
     disconnectMatching E (access_matches (\<lambda>a. ac_userId a = uid)) session_revoked ''User access revoked''"

definition disconnectSessionSockets :: "'w sync_env \<Rightarrow> jstr \<Rightarrow> ('w, unit) action" where
  "disconnectSessionSockets E hash =
     disconnectMatching E (access_matches (\<lambda>a. ac_sessionHash a = hash)) session_revoked ''Session revoked''"

definition removeLessonSocketMembership :: "'w sync_env \<Rightarrow> jstr \<Rightarrow> jstr option \<Rightarrow> ('w, unit) action" where
  "removeLessonSocketMembership E lesson uid =
     disconnectMatching E (access_matches (\<lambda>a. ac_lessonId a = lesson
        \<and> (uid = None \<or> uid = Some [] \<or> uid = Some (ac_userId a)))) lifecycle_changed ''Lesson membership changed''"

definition emitLessonStatus :: "'w sync_env \<Rightarrow> jstr \<Rightarrow> lesson_status \<Rightarrow> ('w, unit) action" where
  "emitLessonStatus E lesson status =
     (if status \<noteq> LessonCompleted \<and> status \<noteq> LessonCancelled then skip
      else disconnectMatching E (access_matches (\<lambda>a. ac_lessonId a = lesson)) permission_changed ''Lesson became read-only'')"

record asset_event =
  as_boardId :: jstr
  as_generation :: int
  as_assetId :: jstr
  as_sha256 :: jstr
  as_mimeType :: jstr
  as_byteSize :: int
  as_width :: int
  as_height :: int
  as_frameCount :: int
  as_totalDecodedPixels :: int
  as_publishedAt :: jstr

definition asset_payload :: "asset_event \<Rightarrow> byte list" where
  "asset_payload e = controlPayload [(''assetId'', JStr (as_assetId e)), (''sha256'', JStr (as_sha256 e)),
     (''mimeType'', JStr (as_mimeType e)), (''byteSize'', JNum (JInt (as_byteSize e))), (''width'', JNum (JInt (as_width e))),
     (''height'', JNum (JInt (as_height e))), (''frameCount'', JNum (JInt (as_frameCount e))),
     (''totalDecodedPixels'', JNum (JInt (as_totalDecodedPixels e))), (''publishedAt'', JStr (as_publishedAt e))]"

definition broadcastAssetReady :: "'w sync_env \<Rightarrow> asset_event \<Rightarrow> ('w, unit) action" where
  "broadcastAssetReady E e = obtaining (board_peers (as_boardId e)) (each (\<lambda>c. obtaining (connection c) (\<lambda>k.
     if \<not> access_matches (\<lambda>a. ac_generation a = as_generation e) k \<or> ws_state k \<noteq> WsOpen then skip
     else obtaining (authorizeOutbound E c) (\<lambda>ok.
       if ok then sendFrame E c (ControlFrame (as_generation e) asset_ready None None (asset_payload e)) else skip))))"

definition auditConnections :: "'w sync_env \<Rightarrow> ('w, unit) action" where
  "auditConnections E = obtaining (ask tr_connections) (each (\<lambda>c. obtaining (connection c) (\<lambda>k.
     case cn_authenticated k of None \<Rightarrow> skip
     | Some au \<Rightarrow>
         if ws_state k \<noteq> WsOpen then skip
         else obtaining (authorizeOutbound E c) (\<lambda>ok.
           if \<not> ok then skip
           else obtaining (connection c) (\<lambda>k'.
             if ac_permissions (au_access au) \<noteq> ac_permissions (au_access (the (cn_authenticated k')))
             then closeWithControl E c permission_changed close_forbidden (js ''Board permissions changed'') None
               (js ''Board permissions changed'') []
             else skip)))))"

definition close_transport :: "'w sync_env \<Rightarrow> ('w, unit) action" where
  "close_transport E = obtaining (ask tr_closed) (\<lambda>already.
     if already then skip
     else andThen (change (\<lambda>t. t\<lparr> tr_closed := True \<rparr>))
       (andThen (obtaining (ask tr_connections) (each (\<lambda>c. andThen
          (set_connection c (\<lambda>k. k\<lparr> cn_chunks := empty_reassembler, cn_authTimer := False \<rparr>)) (socket_terminate c))))
       (change (\<lambda>t. t\<lparr> tr_connections := [], tr_boards := Map.empty, tr_ipConnections := Map.empty,
          tr_ipPending := Map.empty, tr_pending := 0, tr_frameRates := [], tr_byteRates := [], tr_updateRates := [],
          tr_updateByteRates := [], tr_awarenessRates := [], tr_awarenessByteRates := [], tr_profileRates := [],
          tr_awareness := Map.empty,
          tr_world := (if en_enabled E then sv_close (en_service E) (tr_world t) else tr_world t) \<rparr>))))"

section \<open>Events\<close>

text \<open>
  What can happen to the transport: the calls of the libraries and of the application, the timers,
  the next segment of a synchronisation, a socket that drains, the passing of time, and any change
  of the world of the service that others make.
\<close>

datatype 'w sync_event =
    Upgrade upgrade_request
  | Message nat bool "byte list"
  | SocketClosed nat
  | AuthTimeout nat
  | AssemblyTimeout nat jstr
  | Resume nat
  | Drained nat int
  | Clock int
  | World 'w
  | UserRevoked jstr
  | SessionEnded jstr
  | MembershipRemoved jstr "jstr option"
  | StatusChanged jstr lesson_status
  | AssetReady asset_event
  | Audit
  | Shutdown

text \<open>A socket gives messages until it is closed, and closes once.\<close>

definition if_alive :: "nat \<Rightarrow> ('w, unit) action \<Rightarrow> ('w, unit) action" where
  "if_alive c m = obtaining (ask (\<lambda>t. tr_heap t c)) (\<lambda>k. case k of None \<Rightarrow> skip
     | Some k \<Rightarrow> if ws_state k = WsClosed then skip else m)"

text \<open>What the transport installs when it is created it removes when it is closed: the handler of upgrades, the hooks, the audit.\<close>

definition while_installed :: "('w, unit) action \<Rightarrow> ('w, unit) action" where
  "while_installed m = obtaining (ask tr_closed) (\<lambda>closed. if closed then skip else m)"

fun sync_event_action :: "'w sync_env \<Rightarrow> 'w sync_event \<Rightarrow> ('w, unit) action" where
  "sync_event_action E (Upgrade rq) = while_installed (upgradeHandler E rq)"
| "sync_event_action E (Message c binary b) = if_alive c (onMessage E c binary b)"
| "sync_event_action E (SocketClosed c) = if_alive c (andThen (set_connection c (\<lambda>k. k\<lparr> ws_state := WsClosed \<rparr>)) (onClose E c))"
| "sync_event_action E (AuthTimeout c) = if_alive c (obtaining (connection c) (\<lambda>k.
     if cn_authTimer k then andThen (set_connection c (\<lambda>k. k\<lparr> cn_authTimer := False \<rparr>)) (socket_terminate c) else skip))"
| "sync_event_action E (AssemblyTimeout c key) = if_alive c (set_connection c (\<lambda>k. k\<lparr> cn_chunks := assembly_expires key (cn_chunks k) \<rparr>))"
| "sync_event_action E (Resume i) = resume_task E i"
| "sync_event_action E (Drained c n) = if_alive c (set_connection c (\<lambda>k. k\<lparr> ws_buffered := n \<rparr>))"
| "sync_event_action E (Clock now) = change (\<lambda>t. t\<lparr> tr_now := now \<rparr>)"
| "sync_event_action E (World w) = change (\<lambda>t. t\<lparr> tr_world := w \<rparr>)"
| "sync_event_action E (UserRevoked uid) = while_installed (disconnectUserSockets E uid)"
| "sync_event_action E (SessionEnded hash) = while_installed (disconnectSessionSockets E hash)"
| "sync_event_action E (MembershipRemoved lesson uid) = while_installed (removeLessonSocketMembership E lesson uid)"
| "sync_event_action E (StatusChanged lesson status) = while_installed (emitLessonStatus E lesson status)"
| "sync_event_action E (AssetReady e) = while_installed (broadcastAssetReady E e)"
| "sync_event_action E Audit = while_installed (auditConnections E)"
| "sync_event_action E Shutdown = close_transport E"

inductive sync_reaches :: "'w sync_env \<Rightarrow> 'w sync_transport \<Rightarrow> bool" for E where
  created: "sync_reaches E (new_transport w now)"
| happens: "sync_reaches E t \<Longrightarrow> sync_reaches E (snd (sync_event_action E ev t))"

lemma sync_reaches_keeps:
  assumes "\<And>w now. I (new_transport w now)" "\<And>ev. keeps I (sync_event_action E ev)"
  shows "sync_reaches E t \<Longrightarrow> I t"
  by (induction rule: sync_reaches.induct) (use assms in \<open>auto simp: keeps_def\<close>)

end
