(* ===== verification/Board_Policy.thy ===== *)
theory Board_Policy
  imports Board_Access
begin

text \<open>
  The access checks of the board service against a policy that says who may use a board, without
  the order of the checks, the rows they find first and the errors they give.
\<close>

section \<open>The policy\<close>

text \<open>The primary keys of the tables.\<close>

definition keys_unique :: "access_tables \<Rightarrow> bool" where
  "keys_unique db \<longleftrightarrow> distinct (map us_id (users db)) \<and> distinct (map se_hash (sessions db))
     \<and> distinct (map le_id (lessons db)) \<and> distinct (map bo_id (boards db))
     \<and> distinct (map ro_id (rooms db)) \<and> distinct (map re_id (resources db))"

definition signed_in :: "access_env \<Rightarrow> access_tables \<Rightarrow> jstr \<Rightarrow> jstr \<Rightarrow> user_row \<Rightarrow> bool" where
  "signed_in E db uid hash u \<longleftrightarrow> u \<in> set (users db) \<and> us_id u = uid \<and> us_status u = UserActive
     \<and> (\<exists>s \<in> set (sessions db). se_userId s = uid \<and> se_hash s = hash \<and> ae_now E < se_expiresAt s)"

definition takes_part :: "user_row \<Rightarrow> lesson_row \<Rightarrow> bool" where
  "takes_part u l \<longleftrightarrow> us_role u = Tutor \<and> le_tutorId l = us_id u \<or> us_role u = Student \<and> le_studentId l = us_id u"

definition board_open :: "access_tables \<Rightarrow> sync_identity \<Rightarrow> board_row \<Rightarrow> bool" where
  "board_open db i b \<longleftrightarrow> b \<in> set (boards db) \<and> bo_id b = id_boardId i \<and> bo_lifecycle b = BoardActive
     \<and> bo_engine b = EngineV2 \<and> bo_generation b = id_generation i \<and> bo_protocolVersion b = board_protocol_version"

definition room_open :: "access_env \<Rightarrow> access_tables \<Rightarrow> room_row \<Rightarrow> bool" where
  "room_open E db r \<longleftrightarrow> r \<in> set (rooms db) \<and> ae_now E < ro_expiresAt r
     \<and> (ro_tokenHash r \<noteq> None \<and> ro_initializedAt r = None
          \<longrightarrow> (\<exists>t. ro_initializationExpiresAt r = Some t \<and> ae_now E < t))"

text \<open>A participant of the lesson of the board; to edit, of a lesson that is not over.\<close>

definition member_may :: "access_env \<Rightarrow> access_tables \<Rightarrow> sync_identity \<Rightarrow> bool \<Rightarrow> bool" where
  "member_may E db i edit \<longleftrightarrow> (\<exists>u b l. signed_in E db (id_userId i) (id_sessionHash i) u \<and> us_role u \<noteq> Admin
     \<and> board_open db i b \<and> l \<in> set (lessons db) \<and> bo_lessonId b = Some (le_id l) \<and> takes_part u l
     \<and> (edit \<longrightarrow> le_status l = LessonScheduled \<or> le_status l = LessonActive))"

text \<open>A guest with a session of the open room the board belongs to.\<close>

definition guest_may :: "access_env \<Rightarrow> access_tables \<Rightarrow> sync_identity \<Rightarrow> bool" where
  "guest_may E db i \<longleftrightarrow> (\<exists>b x r. board_open db i b \<and> x \<in> set (resources db) \<and> bo_roomResourceId b = Some (re_id x)
     \<and> re_kind x = BoardKind \<and> re_roomId x = ro_id r \<and> room_open E db r
     \<and> safeEqual (guestBoardSessionHash E (ro_shareKey r) (id_userId i)) (id_sessionHash i))"

definition may_use :: "access_env \<Rightarrow> access_tables \<Rightarrow> sync_identity \<Rightarrow> bool \<Rightarrow> bool" where
  "may_use E db i edit \<longleftrightarrow> (if is_guest (id_userId i) then guest_may E db i else member_may E db i edit)"

section \<open>First rows\<close>

lemma first_row_Some: "first_row xs = Some x \<Longrightarrow> x \<in> set xs"
  by (cases xs) (auto simp: first_row_def)

lemma first_row_None [simp]: "first_row xs = None \<longleftrightarrow> xs = []"
  by (cases xs) (auto simp: first_row_def)

lemma first_row_only:
  assumes "x \<in> set xs" "\<And>y. y \<in> set xs \<Longrightarrow> y = x"
  shows "first_row xs = Some x"
proof (cases xs)
  case (Cons a l)
  then have "a = x" by (intro assms(2)) simp
  with Cons show ?thesis by (simp add: first_row_def)
qed (use assms(1) in simp)

lemma key_inj: "distinct (map f xs) \<Longrightarrow> x \<in> set xs \<Longrightarrow> y \<in> set xs \<Longrightarrow> f x = f y \<Longrightarrow> x = y"
  by (auto simp: distinct_map dest: inj_onD)

lemma keys_eq:
  assumes "keys_unique db"
  shows "u \<in> set (users db) \<Longrightarrow> v \<in> set (users db) \<Longrightarrow> us_id u = us_id v \<Longrightarrow> u = v"
    "s \<in> set (sessions db) \<Longrightarrow> t \<in> set (sessions db) \<Longrightarrow> se_hash s = se_hash t \<Longrightarrow> s = t"
    "l \<in> set (lessons db) \<Longrightarrow> k \<in> set (lessons db) \<Longrightarrow> le_id l = le_id k \<Longrightarrow> l = k"
    "b \<in> set (boards db) \<Longrightarrow> c \<in> set (boards db) \<Longrightarrow> bo_id b = bo_id c \<Longrightarrow> b = c"
    "r \<in> set (rooms db) \<Longrightarrow> q \<in> set (rooms db) \<Longrightarrow> ro_id r = ro_id q \<Longrightarrow> r = q"
    "x \<in> set (resources db) \<Longrightarrow> y \<in> set (resources db) \<Longrightarrow> re_id x = re_id y \<Longrightarrow> x = y"
  using assms key_inj unfolding keys_unique_def by metis+

lemma fail_Inr [simp]: "fail c m \<noteq> Inr x"
  by (simp add: fail_def)

lemma lesson_row_iff:
  "(b, l) \<in> set (lesson_board_rows db board) \<longleftrightarrow>
     b \<in> set (boards db) \<and> l \<in> set (lessons db) \<and> bo_lessonId b = Some (le_id l) \<and> bo_id b = board"
  by (auto simp: lesson_board_rows_def)

lemma guest_row_iff:
  "(b, x, r) \<in> set (guest_board_rows db board) \<longleftrightarrow>
     b \<in> set (boards db) \<and> x \<in> set (resources db) \<and> r \<in> set (rooms db) \<and> bo_roomResourceId b = Some (re_id x)
     \<and> re_kind x = BoardKind \<and> re_roomId x = ro_id r \<and> bo_id b = board"
  by (auto simp: guest_board_rows_def)

lemma lesson_row_first:
  assumes "keys_unique db" "(b, l) \<in> set (lesson_board_rows db board)"
  shows "first_row (lesson_board_rows db board) = Some (b, l)"
proof (rule first_row_only [OF assms(2)])
  fix y assume y: "y \<in> set (lesson_board_rows db board)"
  obtain b' l' where e: "y = (b', l')" by (cases y)
  note m = assms(2) [unfolded lesson_row_iff] y [unfolded e lesson_row_iff]
  have "b' = b" using keys_eq(4) [OF assms(1)] m by metis
  moreover from this have "l' = l" using keys_eq(3) [OF assms(1)] m by (metis option.inject)
  ultimately show "y = (b, l)" by (simp add: e)
qed

lemma guest_row_first:
  assumes "keys_unique db" "(b, x, r) \<in> set (guest_board_rows db board)"
  shows "first_row (guest_board_rows db board) = Some (b, x, r)"
proof (rule first_row_only [OF assms(2)])
  fix y assume y: "y \<in> set (guest_board_rows db board)"
  obtain b' x' r' where e: "y = (b', x', r')" by (cases y)
  note m = assms(2) [unfolded guest_row_iff] y [unfolded e guest_row_iff]
  have "b' = b" using keys_eq(4) [OF assms(1)] m by metis
  moreover from this have x: "x' = x" using keys_eq(6) [OF assms(1)] m by (metis option.inject)
  moreover from x have "r' = r" using keys_eq(5) [OF assms(1)] m by metis
  ultimately show "y = (b, x, r)" by (simp add: e)
qed

section \<open>Each check\<close>

lemma actor_row_iff:
  "(u, s) \<in> set (actor_rows E db uid hash) \<longleftrightarrow> u \<in> set (users db) \<and> s \<in> set (sessions db) \<and> se_userId s = us_id u
     \<and> se_hash s = hash \<and> ae_now E < se_expiresAt s \<and> us_id u = uid \<and> us_status u = UserActive"
  by (auto simp: actor_rows_def)

lemma actor_row_first:
  assumes "keys_unique db" "(u, s) \<in> set (actor_rows E db uid hash)"
  shows "first_row (actor_rows E db uid hash) = Some (u, s)"
proof (rule first_row_only [OF assms(2)])
  fix y assume y: "y \<in> set (actor_rows E db uid hash)"
  obtain u' s' where e: "y = (u', s')" by (cases y)
  note m = assms(2) [unfolded actor_row_iff] y [unfolded e actor_row_iff]
  have "u' = u" using keys_eq(1) [OF assms(1)] m by metis
  moreover have "s' = s" using keys_eq(2) [OF assms(1)] m by metis
  ultimately show "y = (u, s)" by (simp add: e)
qed

lemma requireActor_Inr:
  assumes "keys_unique db"
  shows "(\<exists>s. requireActor E db uid hash = Inr (u, s)) \<longleftrightarrow> signed_in E db uid hash u \<and> us_role u \<noteq> Admin"
proof
  assume "\<exists>s. requireActor E db uid hash = Inr (u, s)"
  then obtain s where s: "first_row (actor_rows E db uid hash) = Some (u, s)" "us_role u \<noteq> Admin"
    by (auto simp: requireActor_def split: option.splits if_splits)
  from first_row_Some [OF s(1), unfolded actor_row_iff] s(2)
  show "signed_in E db uid hash u \<and> us_role u \<noteq> Admin" unfolding signed_in_def by auto
next
  assume a: "signed_in E db uid hash u \<and> us_role u \<noteq> Admin"
  then obtain s where "(u, s) \<in> set (actor_rows E db uid hash)"
    unfolding signed_in_def actor_row_iff by auto
  from actor_row_first [OF assms this] a show "\<exists>s. requireActor E db uid hash = Inr (u, s)"
    by (simp add: requireActor_def)
qed

lemma actor_fields: "requireActor E db uid hash = Inr (u, s) \<Longrightarrow> us_id u = uid \<and> se_hash s = hash"
  by (auto simp: requireActor_def actor_row_iff split: option.splits if_splits dest!: first_row_Some)

definition identity_of :: "board_access \<Rightarrow> sync_identity \<Rightarrow> bool" where
  "identity_of a i \<longleftrightarrow> ac_boardId a = id_boardId i \<and> ac_generation a = id_generation i
     \<and> ac_userId a = id_userId i \<and> ac_sessionHash a = id_sessionHash i"

lemma permission_values: "permissionsForLesson s AND permission_edit \<noteq> 0 \<longleftrightarrow> s = LessonScheduled \<or> s = LessonActive"
  "(permission_read OR permission_edit) AND permission_edit \<noteq> 0"
  by (auto simp: permissionsForLesson_def permission_read_def permission_edit_def)

lemma member_Inr:
  assumes "keys_unique db"
  shows "(\<exists>a. requireMemberAccess E db i = Inr a \<and> identity_of a i \<and> (edit \<longrightarrow> ac_permissions a AND permission_edit \<noteq> 0))
    \<longleftrightarrow> member_may E db i edit"
    (is "?L \<longleftrightarrow> _")
proof
  assume ?L
  then obtain u s b l where a: "requireActor E db (id_userId i) (id_sessionHash i) = Inr (u, s)"
    and row: "first_row (lesson_board_rows db (id_boardId i)) = Some (b, l)"
    and checks: "bo_lifecycle b \<noteq> BoardTombstoned" "bo_engine b = EngineV2" "bo_generation b = id_generation i"
      "bo_protocolVersion b = board_protocol_version" "takes_part u l"
      "edit \<longrightarrow> permissionsForLesson (le_status l) AND permission_edit \<noteq> 0"
    by (auto simp: requireMemberAccess_def takes_part_def split: sum.splits option.splits if_splits)
  note first_row_Some [OF row, unfolded lesson_row_iff]
  moreover have "bo_lifecycle b = BoardActive" using checks(1) by (cases "bo_lifecycle b") simp_all
  moreover have "signed_in E db (id_userId i) (id_sessionHash i) u" "us_role u \<noteq> Admin"
    using a requireActor_Inr [OF assms] by blast+
  ultimately show "member_may E db i edit"
    using checks permission_values(1) unfolding member_may_def board_open_def by blast
next
  assume "member_may E db i edit"
  then obtain u b l where u: "signed_in E db (id_userId i) (id_sessionHash i) u" "us_role u \<noteq> Admin"
    and b: "board_open db i b" and l: "l \<in> set (lessons db)" "bo_lessonId b = Some (le_id l)" "takes_part u l"
      "edit \<longrightarrow> le_status l = LessonScheduled \<or> le_status l = LessonActive"
    unfolding member_may_def by blast
  from u requireActor_Inr [OF assms] obtain s where a: "requireActor E db (id_userId i) (id_sessionHash i) = Inr (u, s)"
    by blast
  have "first_row (lesson_board_rows db (id_boardId i)) = Some (b, l)"
    using b l by (intro lesson_row_first [OF assms]) (simp add: lesson_row_iff board_open_def)
  with a b l actor_fields [OF a] show ?L
    by (auto simp: requireMemberAccess_def board_open_def takes_part_def identity_of_def permission_values)
qed

lemma resource_active_iff:
  assumes "keys_unique db" "r \<in> set (rooms db)" "x \<in> set (resources db)" "re_roomId x = ro_id r" "re_kind x = BoardKind"
  shows "isResourceActive E db (ro_id r) (re_id x) (Some BoardKind) \<longleftrightarrow> room_open E db r"
proof
  assume "isResourceActive E db (ro_id r) (re_id x) (Some BoardKind)"
  then obtain q where q: "q \<in> set (rooms db)" "ro_id q = ro_id r" "ae_now E < ro_expiresAt q"
    "ro_tokenHash q = None \<or> ro_initializedAt q \<noteq> None
      \<or> (case ro_initializationExpiresAt q of None \<Rightarrow> False | Some t \<Rightarrow> ae_now E < t)"
    unfolding isResourceActive_def list_ex_iff by blast
  from keys_eq(5) [OF assms(1) q(1) assms(2) q(2)] q show "room_open E db r"
    unfolding room_open_def by (auto split: option.splits)
next
  assume "room_open E db r"
  then have "ae_now E < ro_expiresAt r" "ro_tokenHash r = None \<or> ro_initializedAt r \<noteq> None
      \<or> (case ro_initializationExpiresAt r of None \<Rightarrow> False | Some t \<Rightarrow> ae_now E < t)"
    unfolding room_open_def by (auto split: option.splits)
  with assms show "isResourceActive E db (ro_id r) (re_id x) (Some BoardKind)"
    unfolding isResourceActive_def list_ex_iff by (intro bexI [of _ r] bexI [of _ x]) auto
qed

lemma guest_Inr:
  assumes "keys_unique db"
  shows "(\<exists>a. requireGuestBoardAccess E db i = Inr a \<and> identity_of a i \<and> ac_permissions a AND permission_edit \<noteq> 0)
    \<longleftrightarrow> guest_may E db i"
    (is "?L \<longleftrightarrow> _")
proof
  assume ?L
  then obtain a where a: "requireGuestBoardAccess E db i = Inr a" by blast
  then obtain b x r where r: "first_row (guest_board_rows db (id_boardId i)) = Some (b, x, r)"
    by (auto simp: requireGuestBoardAccess_def split: option.splits)
  with a have checks: "bo_lifecycle b \<noteq> BoardTombstoned" "isResourceActive E db (ro_id r) (re_id x) (Some BoardKind)"
    "bo_engine b = EngineV2" "bo_generation b = id_generation i" "bo_protocolVersion b = board_protocol_version"
    "safeEqual (guestBoardSessionHash E (ro_shareKey r) (id_userId i)) (id_sessionHash i)"
    by (auto simp: requireGuestBoardAccess_def split: if_splits)
  note m = first_row_Some [OF r, unfolded guest_row_iff]
  moreover have "bo_lifecycle b = BoardActive" using checks(1) by (cases "bo_lifecycle b") simp_all
  moreover have "room_open E db r" using checks(2) resource_active_iff [OF assms, of r x E] m by simp
  ultimately show "guest_may E db i"
    using checks unfolding guest_may_def board_open_def by blast
next
  assume "guest_may E db i"
  then obtain b x r where b: "board_open db i b" and x: "x \<in> set (resources db)" "bo_roomResourceId b = Some (re_id x)"
    "re_kind x = BoardKind" "re_roomId x = ro_id r" and r: "room_open E db r"
    "safeEqual (guestBoardSessionHash E (ro_shareKey r) (id_userId i)) (id_sessionHash i)"
    unfolding guest_may_def by blast
  have rr: "r \<in> set (rooms db)" using r(1) by (simp add: room_open_def)
  have "isResourceActive E db (ro_id r) (re_id x) (Some BoardKind)"
    using resource_active_iff [OF assms rr x(1,4,3)] r(1) by blast
  moreover have "first_row (guest_board_rows db (id_boardId i)) = Some (b, x, r)"
    using b x rr by (intro guest_row_first [OF assms]) (simp add: guest_row_iff board_open_def)
  ultimately show ?L
    using b r(2) by (simp add: requireGuestBoardAccess_def board_open_def identity_of_def permission_values(2))
qed

section \<open>The service grants what the policy allows\<close>

lemma with_profile_fields [simp]:
  "identity_of (withCollaborationProfile a p) i = identity_of a i"
  "ac_permissions (withCollaborationProfile a p) = ac_permissions a"
  "ac_lessonId (withCollaborationProfile a p) = ac_lessonId a" "ac_role (withCollaborationProfile a p) = ac_role a"
  by (simp_all add: withCollaborationProfile_def identity_of_def split: option.splits)

lemma member_identity: "requireMemberAccess E db i = Inr a \<Longrightarrow> identity_of a i"
  by (auto simp: requireMemberAccess_def identity_of_def lesson_row_iff actor_fields
      split: sum.splits option.splits if_splits dest!: first_row_Some)

lemma guest_identity: "requireGuestBoardAccess E db i = Inr a \<Longrightarrow> identity_of a i \<and> ac_permissions a AND permission_edit \<noteq> 0"
  by (auto simp: requireGuestBoardAccess_def identity_of_def permission_values guest_row_iff
      split: option.splits if_splits dest!: first_row_Some)

lemma access_identity: "requireBoardAccess E db i = Inr a \<Longrightarrow> identity_of a i"
  using member_identity guest_identity by (auto simp: requireBoardAccess_def split: if_splits)

lemma requireBoardAccess_iff:
  assumes "keys_unique db"
  shows "(\<exists>a. requireBoardAccess E db i = Inr a \<and> (edit \<longrightarrow> ac_permissions a AND permission_edit \<noteq> 0)) \<longleftrightarrow> may_use E db i edit"
  using member_Inr [OF assms, of E i edit] guest_Inr [OF assms, of E i] member_identity guest_identity
  by (auto simp: requireBoardAccess_def may_use_def)

lemma reauthorize_Inr:
  "reauthorize E db i edit = Inr a \<longleftrightarrow> (\<exists>a0. requireBoardAccess E db i = Inr a0 \<and> a = withCollaborationProfile a0 (id_profile i)
     \<and> (edit \<longrightarrow> ac_permissions a0 AND permission_edit \<noteq> 0))"
  by (auto simp: reauthorize_def Let_def split: sum.splits)

text \<open>
  C5. The board service grants access exactly to those who may have it: a connection is reauthorised
  when and only when its user is signed in and takes part in the lesson of an active board of the
  current generation (to edit, of a lesson that is scheduled or running), or is a guest with the
  session of the open room of the board; what it is granted is for the board, generation, user and
  session it asked with.
\<close>

theorem board_access_is_exact:
  assumes "keys_unique db"
  shows "((\<exists>a. reauthorize E db i edit = Inr a) \<longleftrightarrow> may_use E db i edit)
    \<and> (\<forall>a. reauthorize E db i edit = Inr a \<longrightarrow> identity_of a i \<and> (edit \<longrightarrow> ac_permissions a AND permission_edit \<noteq> 0))"
proof -
  have "(\<exists>a. reauthorize E db i edit = Inr a)
      \<longleftrightarrow> (\<exists>a. requireBoardAccess E db i = Inr a \<and> (edit \<longrightarrow> ac_permissions a AND permission_edit \<noteq> 0))"
    by (auto simp: reauthorize_Inr)
  with requireBoardAccess_iff [OF assms] access_identity show ?thesis by (auto simp: reauthorize_Inr)
qed

text \<open>
  C6. A ticket opens a board only for whom it was issued: an \<open>AUTH\<close> frame is accepted only if the ticket
  store accepts its ticket, the frame repeats the generation, schema range and capabilities of the
  ticket, and the user of the ticket may use its board now.
\<close>

theorem ticket_opens_its_board_only:
  assumes "keys_unique db" "authenticate E ticket gen mn mx caps db ts = (Inr au, ts')"
  shows "\<exists>sc. consume (ae_sign E) (ae_ticketKey E) ticket (ae_nowMs E) ts = (ts', Inr sc)
    \<and> gen = generation sc \<and> mn = minSchemaVersion sc \<and> mx = maxSchemaVersion sc \<and> caps = capabilities sc
    \<and> au_capabilities au = capabilities sc
    \<and> ac_boardId (au_access au) = boardId sc \<and> ac_generation (au_access au) = generation sc
    \<and> ac_userId (au_access au) = userId sc \<and> ac_sessionHash (au_access au) = sessionHash sc
    \<and> mn \<le> ac_schemaVersion (au_access au) \<and> ac_schemaVersion (au_access au) \<le> mx
    \<and> may_use E db \<lparr> id_boardId = boardId sc, id_generation = generation sc, id_userId = userId sc,
        id_sessionHash = sessionHash sc, id_profile = scope_profile sc \<rparr> False"
proof -
  from assms(2) obtain sc where sc: "consume (ae_sign E) (ae_ticketKey E) ticket (ae_nowMs E) ts = (ts', Inr sc)"
    by (auto simp: authenticate_def split: prod.splits sum.splits)
  let ?i = "\<lparr> id_boardId = boardId sc, id_generation = generation sc, id_userId = userId sc,
        id_sessionHash = sessionHash sc, id_profile = scope_profile sc \<rparr>"
  from assms(2) sc obtain a where a: "requireBoardAccess E db ?i = Inr a"
    "gen = generation sc" "mn = minSchemaVersion sc" "mx = maxSchemaVersion sc" "caps = capabilities sc"
    "au = \<lparr> au_access = withCollaborationProfile a (scope_profile sc), au_capabilities = capabilities sc \<rparr>"
    "mn \<le> ac_schemaVersion (withCollaborationProfile a (scope_profile sc))"
    "ac_schemaVersion (withCollaborationProfile a (scope_profile sc)) \<le> mx"
    by (auto simp: authenticate_def Let_def split: sum.splits if_splits)
  moreover have "identity_of (withCollaborationProfile a (scope_profile sc)) ?i"
    using access_identity [OF a(1)] by simp
  moreover have "may_use E db ?i False" using requireBoardAccess_iff [OF assms(1), of E ?i False] a(1) by blast
  ultimately show ?thesis using sc by (auto simp: identity_of_def)
qed

section \<open>The theorems applied\<close>

text \<open>A tutor, a pupil and the board of their running lesson.\<close>

definition demo_tables :: access_tables where
  "demo_tables = \<lparr>
     users = [\<lparr> us_id = js ''u1'', us_role = Tutor, us_status = UserActive, us_displayName = js ''Ann'' \<rparr>,
              \<lparr> us_id = js ''u2'', us_role = Student, us_status = UserActive, us_displayName = js ''Bob'' \<rparr>],
     sessions = [\<lparr> se_hash = js ''s1'', se_userId = js ''u1'', se_expiresAt = js ''2030'' \<rparr>],
     lessons = [\<lparr> le_id = js ''l1'', le_tutorId = js ''u1'', le_studentId = js ''u2'', le_status = LessonActive \<rparr>],
     boards = [\<lparr> bo_id = js ''b1'', bo_lessonId = Some (js ''l1''), bo_roomResourceId = None, bo_engine = EngineV2,
       bo_lifecycle = BoardActive, bo_generation = 3, bo_protocolVersion = 1, bo_schemaVersion = 1 \<rparr>],
     rooms = [], resources = [] \<rparr>"

definition demo_access_env :: access_env where
  "demo_access_env = \<lparr> ae_sign = demo_sign, ae_ticketKey = (\<lambda>t. t), ae_sessionHmac = (\<lambda>k u. k @ u),
     ae_idByte = length, ae_nowMs = 5, ae_now = js ''2026'' \<rparr>"

definition demo_sync_identity :: sync_identity where
  "demo_sync_identity = \<lparr> id_boardId = js ''b1'', id_generation = 3, id_userId = js ''u1'', id_sessionHash = js ''s1'',
     id_profile = None \<rparr>"

lemma demo_keys: "keys_unique demo_tables"
  by (simp add: keys_unique_def demo_tables_def)

lemma demo_may_edit: "may_use demo_access_env demo_tables demo_sync_identity True"
proof -
  have "is_guest (js ''u1'') = False" by code_simp
  moreover have "(js ''2026'' < js ''2030'') = True" by code_simp
  moreover have "signed_in demo_access_env demo_tables (js ''u1'') (js ''s1'') (hd (users demo_tables))"
    using calculation(2) by (simp add: signed_in_def demo_tables_def demo_access_env_def)
  moreover have "board_open demo_tables demo_sync_identity (hd (boards demo_tables))"
    by (simp add: board_open_def demo_tables_def demo_sync_identity_def board_protocol_version_def)
  moreover have "us_role (hd (users demo_tables)) \<noteq> Admin" "takes_part (hd (users demo_tables)) (hd (lessons demo_tables))"
    "hd (lessons demo_tables) \<in> set (lessons demo_tables)" "le_status (hd (lessons demo_tables)) = LessonActive"
    "bo_lessonId (hd (boards demo_tables)) = Some (le_id (hd (lessons demo_tables)))"
    by (simp_all add: demo_tables_def takes_part_def)
  moreover have "id_userId demo_sync_identity = js ''u1''" "id_sessionHash demo_sync_identity = js ''s1''"
    by (simp_all add: demo_sync_identity_def)
  ultimately show ?thesis unfolding may_use_def member_may_def by metis
qed

theorem board_access_is_exact_witness:
  "\<exists>a. reauthorize demo_access_env demo_tables demo_sync_identity True = Inr a \<and> ac_boardId a = js ''b1''"
  using board_access_is_exact [OF demo_keys, of demo_access_env demo_sync_identity True] demo_may_edit
  by (auto simp: identity_of_def demo_sync_identity_def)

definition demo_ticket_scope :: ticket_scope where
  "demo_ticket_scope = \<lparr> boardId = js ''b1'', lessonId = js ''l1'', userId = js ''u1'', sessionHash = js ''s1'',
     generation = 3, minSchemaVersion = 1, maxSchemaVersion = 1, capabilities = 1, scope_profile = None \<rparr>"

definition demo_ticket_store :: ticket_store where
  "demo_ticket_store = fst (issue demo_sign (\<lambda>t. t) demo_ticket_scope demo_nonce 0 0 empty_store)"

lemma demo_authenticated:
  "fst (authenticate demo_access_env (token_of demo_sign demo_nonce) 3 1 1 1 demo_tables demo_ticket_store) \<noteq> Inl e"
  by (cases e) code_simp+

theorem ticket_opens_its_board_only_witness:
  "\<exists>au ts'. authenticate demo_access_env (token_of demo_sign demo_nonce) 3 1 1 1 demo_tables demo_ticket_store = (Inr au, ts')
     \<and> au_capabilities au = 1"
proof -
  obtain r ts' where "authenticate demo_access_env (token_of demo_sign demo_nonce) 3 1 1 1 demo_tables demo_ticket_store = (r, ts')"
    by (meson surj_pair)
  moreover obtain au where "r = Inr au" using demo_authenticated calculation by (cases r) auto
  ultimately show ?thesis using ticket_opens_its_board_only [OF demo_keys] by metis
qed

end
