(* ===== verification/Sync_Security.thy ===== *)
theory Sync_Security
  imports Sync_Events Board_Policy
begin

unbundle bit_operations_syntax

text \<open>
  What the board transport may do, in terms of its log: whom it sends to, what it acknowledges, which
  updates it passes on and to whom, what it asks of the service and for whom. An invariant of the
  state says that every entry of the log was legitimate when it was made.
\<close>

section \<open>Legitimate effects\<close>

text \<open>The same board, generation, user and session.\<close>

definition same_principal :: "board_access \<Rightarrow> board_access \<Rightarrow> bool" where
  "same_principal a b \<longleftrightarrow> ac_boardId a = ac_boardId b \<and> ac_generation a = ac_generation b \<and> ac_userId a = ac_userId b
     \<and> ac_sessionHash a = ac_sessionHash b"

definition admitted_as :: "effect list \<Rightarrow> nat \<Rightarrow> board_access \<Rightarrow> bool" where
  "admitted_as l c a \<longleftrightarrow> (\<exists>au. Admitted c (Inr au) \<in> set l \<and> same_principal (au_access au) a)"

definition granted :: "effect list \<Rightarrow> nat \<Rightarrow> board_access \<Rightarrow> bool" where
  "granted l c a \<longleftrightarrow> (\<exists>i edit. Checked c i edit (Inr a) \<in> set l)"

text \<open>A document the connection has read or changed.\<close>

definition touched :: "effect list \<Rightarrow> nat \<Rightarrow> jstr \<Rightarrow> bool" where
  "touched l c d \<longleftrightarrow> (\<exists>a. ReadDocument c a d \<in> set l) \<or> (\<exists>a h u r. Appended c a d h u (Inr r) \<in> set l)"

definition last_check :: "effect list \<Rightarrow> nat \<Rightarrow> board_access result option" where
  "last_check l c = foldl (\<lambda>r e. case e of Checked q i edit r' \<Rightarrow> if q = c then Some r' else r | _ \<Rightarrow> r) None l"

text \<open>The last thing done was to check the connection, and it was granted.\<close>

definition just_granted :: "effect list \<Rightarrow> nat \<Rightarrow> bool \<Rightarrow> board_access \<Rightarrow> bool" where
  "just_granted l c edit a \<longleftrightarrow> (\<exists>i l'. l = l' @ [Checked c i edit (Inr a)])"

fun frame_legitimate :: "effect list \<Rightarrow> nat \<Rightarrow> board_frame \<Rightarrow> bool" where
  "frame_legitimate l c (AckFrame g d m seq) =
     (\<exists>a h u duplicate. Appended c a d h u (Inr (seq, duplicate)) \<in> set l \<and> messageIdToHex m = Inr h)"
| "frame_legitimate l c (UpdateFrame g d m u) =
     (touched l c d \<and> (\<exists>s a h r a'. s \<noteq> c \<and> Appended s a d h u (Inr r) \<in> set l \<and> messageIdToHex m = Inr h
        \<and> last_check l c = Some (Inr a') \<and> ac_boardId a' = ac_boardId a))"
| "frame_legitimate l c (SyncStep1Frame g d v) = touched l c d"
| "frame_legitimate l c (SyncStep2Frame g d u) = touched l c d"
| "frame_legitimate l c (AwarenessFrame g d i u) = touched l c d"
| "frame_legitimate l c f = True"

fun legitimate :: "effect list \<Rightarrow> effect \<Rightarrow> bool" where
  "legitimate l (Sent c f b) = ((\<exists>a. admitted_as l c a) \<and> frame_legitimate l c f)"
| "legitimate l (Checked c i edit r) = ((\<exists>a. admitted_as l c a \<and> identity_of a i)
     \<and> (\<forall>a. r = Inr a \<longrightarrow> identity_of a i \<and> (edit \<longrightarrow> ac_permissions a AND permission_edit \<noteq> 0)))"
| "legitimate l (Appended c a d h u r) = (just_granted l c True a \<and> admitted_as l c a)"
| "legitimate l (ReadDocument c a d) = (granted l c a \<and> admitted_as l c a)"
| "legitimate l e = True"

definition log_ok :: "effect list \<Rightarrow> bool" where
  "log_ok l \<longleftrightarrow> (\<forall>l1 e l2. l = l1 @ e # l2 \<longrightarrow> legitimate l1 e)"

lemma log_ok_Nil [simp]: "log_ok []"
  by (simp add: log_ok_def)

lemma log_ok_snoc [simp]: "log_ok (l @ [e]) \<longleftrightarrow> log_ok l \<and> legitimate l e"
proof
  assume ok: "log_ok l \<and> legitimate l e"
  show "log_ok (l @ [e])"
    unfolding log_ok_def
  proof (intro allI impI)
    fix l1 x l2 assume "l @ [e] = l1 @ x # l2"
    then have "l1 = l \<and> x = e \<or> (\<exists>l3. l = l1 @ x # l3)"
      by (cases l2 rule: rev_cases) auto
    then show "legitimate l1 x" using ok unfolding log_ok_def by blast
  qed
qed (auto simp: log_ok_def)

section \<open>What lasts\<close>

text \<open>Properties of the log that sending and closing keep, and properties that everything keeps.\<close>

definition quiet :: "effect \<Rightarrow> bool" where
  "quiet e \<longleftrightarrow> (case e of Sent c f b \<Rightarrow> True | ClosedWith c n s \<Rightarrow> True | Terminated c \<Rightarrow> True | _ \<Rightarrow> False)"

definition undisturbed :: "(effect list \<Rightarrow> bool) \<Rightarrow> bool" where
  "undisturbed F \<longleftrightarrow> (\<forall>l e. quiet e \<longrightarrow> F l \<longrightarrow> F (l @ [e]))"

definition lasting :: "(effect list \<Rightarrow> bool) \<Rightarrow> bool" where
  "lasting F \<longleftrightarrow> (\<forall>l e. F l \<longrightarrow> F (l @ [e]))"

named_theorems lasting_rules \<open>properties of the log that last\<close>

lemma lasting_undisturbed: "lasting F \<Longrightarrow> undisturbed F"
  by (simp add: lasting_def undisturbed_def)

lemma lasting_True [lasting_rules]: "lasting (\<lambda>_. b)"
  by (simp add: lasting_def)

lemma lasting_conj [lasting_rules]: "lasting F \<Longrightarrow> lasting G \<Longrightarrow> lasting (\<lambda>l. F l \<and> G l)"
  by (simp add: lasting_def)

lemma lasting_ball [lasting_rules]: "(\<And>x. lasting (F x)) \<Longrightarrow> lasting (\<lambda>l. \<forall>x \<in> A. F x l)"
  by (simp add: lasting_def)

lemma lasting_ex [lasting_rules]: "(\<And>x. lasting (F x)) \<Longrightarrow> lasting (\<lambda>l. \<exists>x. F x l)"
  unfolding lasting_def by blast

lemma lasting_member [lasting_rules]: "lasting (\<lambda>l. e \<in> set l)"
  by (simp add: lasting_def)

lemma lasting_admitted [lasting_rules]: "lasting (\<lambda>l. admitted_as l c a)"
  unfolding admitted_as_def by (intro lasting_rules)

lemma lasting_granted [lasting_rules]: "lasting (\<lambda>l. granted l c a)"
  unfolding granted_def by (intro lasting_rules)

lemma lasting_touched [lasting_rules]: "lasting (\<lambda>l. touched l c d)"
  unfolding touched_def by (auto simp: lasting_def)

lemma undisturbed_conj: "undisturbed F \<Longrightarrow> undisturbed G \<Longrightarrow> undisturbed (\<lambda>l. F l \<and> G l)"
  by (simp add: undisturbed_def)

lemma undisturbed_imp: "undisturbed F \<Longrightarrow> undisturbed (\<lambda>l. b \<longrightarrow> F l)"
  by (simp add: undisturbed_def)

lemma undisturbed_check: "undisturbed (\<lambda>l. \<exists>a. last_check l c = Some (Inr a) \<and> P a)"
  by (auto simp: undisturbed_def quiet_def last_check_def split: effect.splits)

lemmas undisturbed_rules = undisturbed_conj undisturbed_imp undisturbed_check

lemma just_granted_facts:
  assumes "just_granted l c edit a"
  shows "granted l c a" "last_check l c = Some (Inr a)"
  using assms by (force simp: just_granted_def granted_def last_check_def)+

section \<open>The invariant\<close>

definition principal_ok :: "'w sync_transport \<Rightarrow> bool" where
  "principal_ok t \<longleftrightarrow> (\<forall>c au. cn_authenticated (conn t c) = Some au \<longrightarrow> admitted_as (tr_log t) c (au_access au))"

definition at_board :: "'w sync_transport \<Rightarrow> nat \<Rightarrow> jstr \<Rightarrow> bool" where
  "at_board t c b \<longleftrightarrow> (\<exists>au. cn_authenticated (conn t c) = Some au \<and> ac_boardId (au_access au) = b)"

definition boards_ok :: "'w sync_transport \<Rightarrow> bool" where
  "boards_ok t \<longleftrightarrow> (\<forall>b cs. tr_boards t b = Some cs \<longrightarrow> (\<forall>c \<in> set cs. at_board t c b))"

definition subscriptions_ok :: "'w sync_transport \<Rightarrow> bool" where
  "subscriptions_ok t \<longleftrightarrow> (\<forall>c. \<forall>d \<in> set (cn_subscribedDocs (conn t c)). touched (tr_log t) c d)"

fun work_ok :: "jstr \<Rightarrow> sync_work \<Rightarrow> bool" where
  "work_ok d (SendFrames f fs) = (\<exists>g u. f = SyncStep2Frame g d u)"
| "work_ok d SendState = True"

fun phase_ok :: "jstr \<Rightarrow> sync_phase \<Rightarrow> bool" where
  "phase_ok d (Polling n w) = work_ok d w"
| "phase_ok d (Resolved ok w) = work_ok d w"
| "phase_ok d p = True"

definition task_ok :: "effect list \<Rightarrow> sync_task \<Rightarrow> bool" where
  "task_ok l k \<longleftrightarrow> tk_phase k = Finishing \<or> phase_ok (tk_docKey k) (tk_phase k) \<and> ReadDocument (tk_conn k) (tk_access k) (tk_docKey k) \<in> set l"

definition tasks_ok :: "'w sync_transport \<Rightarrow> bool" where
  "tasks_ok t \<longleftrightarrow> (\<forall>i k. tr_tasks t i = Some k \<longrightarrow> task_ok (tr_log t) k)"

definition fresh_numbers :: "'w sync_transport \<Rightarrow> bool" where
  "fresh_numbers t \<longleftrightarrow> (\<forall>c \<in> dom (tr_heap t). c < tr_next t)"

definition secure :: "(nat \<times> jstr) set \<Rightarrow> (effect list \<Rightarrow> bool) \<Rightarrow> 'w sync_transport \<Rightarrow> bool" where
  "secure X F t \<longleftrightarrow> log_ok (tr_log t) \<and> principal_ok t \<and> boards_ok t \<and> subscriptions_ok t \<and> tasks_ok t \<and> fresh_numbers t
     \<and> (\<forall>(c, b) \<in> X. at_board t c b) \<and> F (tr_log t)"

lemma lasting_task [lasting_rules]: "lasting (\<lambda>l. task_ok l k)"
  unfolding task_ok_def by (auto simp: lasting_def)

lemma secure_weaken: "secure X F t \<Longrightarrow> Y \<subseteq> X \<Longrightarrow> (\<And>l. F l \<Longrightarrow> G l) \<Longrightarrow> secure Y G t"
  by (auto simp: secure_def)

lemma at_admitted: "secure X F t \<Longrightarrow> at_board t c b \<Longrightarrow> \<exists>a. admitted_as (tr_log t) c a"
  by (auto simp: secure_def at_board_def principal_ok_def)

lemma known_admitted: "secure X F t \<Longrightarrow> (c, b) \<in> X \<Longrightarrow> \<exists>a. admitted_as (tr_log t) c a"
  by (rule at_admitted) (auto simp: secure_def)

section \<open>Elementary steps\<close>

named_theorems secure_keep \<open>actions that keep the transport secure\<close>

definition same_security :: "'w sync_transport \<Rightarrow> 'w sync_transport \<Rightarrow> bool" where
  "same_security t t' \<longleftrightarrow>
     (\<forall>c. cn_authenticated (conn t' c) = cn_authenticated (conn t c)
        \<and> set (cn_subscribedDocs (conn t' c)) \<subseteq> set (cn_subscribedDocs (conn t c)))
     \<and> tr_boards t' = tr_boards t \<and> tr_tasks t' = tr_tasks t \<and> tr_log t' = tr_log t \<and> dom (tr_heap t') = dom (tr_heap t)
     \<and> tr_next t' = tr_next t"

lemma at_board_same: "(\<And>c. cn_authenticated (conn t' c) = cn_authenticated (conn t c)) \<Longrightarrow> at_board t' c b \<longleftrightarrow> at_board t c b"
  by (simp add: at_board_def)

lemma secure_same:
  assumes "same_security t t'" "secure X F t"
  shows "secure X F t'"
proof -
  have "at_board t' c b \<longleftrightarrow> at_board t c b" for c b
    using assms(1) by (simp add: at_board_def same_security_def)
  moreover have "subscriptions_ok t'"
    using assms unfolding same_security_def secure_def subscriptions_ok_def by (metis subsetD)
  ultimately show ?thesis
    using assms unfolding same_security_def secure_def
    by (auto simp: principal_ok_def boards_ok_def tasks_ok_def fresh_numbers_def)
qed

lemma secure_change [secure_keep]: "(\<And>t. same_security t (f t)) \<Longrightarrow> keeps (secure X F) (change f)"
  using secure_same by (blast intro: keeps_change)

lemma conn_update: "conn (t\<lparr> tr_heap := (tr_heap t)(c := map_option f (tr_heap t c)) \<rparr>) d
    = (if d = c \<and> c \<in> dom (tr_heap t) then f (conn t c) else conn t d)"
  by (auto simp: conn_def domIff split: option.splits)

lemma conn_log [simp]: "conn (t\<lparr> tr_log := l \<rparr>) c = conn t c" "conn (t\<lparr> tr_world := w, tr_log := l \<rparr>) c = conn t c"
  by (simp_all add: conn_def)

lemma secure_set_connection [secure_keep]:
  assumes "\<And>k. cn_authenticated (f k) = cn_authenticated k" "\<And>k. set (cn_subscribedDocs (f k)) \<subseteq> set (cn_subscribedDocs k)"
  shows "keeps (secure X F) (set_connection c f)"
  unfolding set_connection_def
  by (rule secure_change) (use assms in \<open>auto simp: same_security_def conn_update dom_def\<close>)

lemma secure_log:
  assumes t: "secure X F t" and e: "legitimate (tr_log t) e" "F (tr_log t @ [e])"
    and t': "tr_log t' = tr_log t @ [e]" "tr_heap t' = tr_heap t" "tr_boards t' = tr_boards t" "tr_tasks t' = tr_tasks t"
      "tr_next t' = tr_next t"
  shows "secure X F t'"
proof -
  have more: "admitted_as (tr_log t) c a \<Longrightarrow> admitted_as (tr_log t') c a" "touched (tr_log t) c d \<Longrightarrow> touched (tr_log t') c d"
    "task_ok (tr_log t) k \<Longrightarrow> task_ok (tr_log t') k" for c a d k
    using lasting_admitted lasting_touched lasting_task t'(1) by (auto simp: lasting_def)
  have "conn t' c = conn t c" for c using t' by (simp add: conn_def)
  then show ?thesis
    using t e more t' unfolding secure_def
    by (auto simp: principal_ok_def boards_ok_def subscriptions_ok_def tasks_ok_def fresh_numbers_def at_board_def)
qed

lemma secure_effect:
  assumes "\<And>t :: 'w sync_transport. secure X F t \<Longrightarrow> legitimate (tr_log t) e" "quiet e" "undisturbed F"
  shows "keeps (secure X F :: 'w sync_transport \<Rightarrow> bool) (record_effect e)"
  unfolding record_effect_def
proof (rule keeps_change)
  fix t :: "'w sync_transport"
  assume t: "secure X F t"
  show "secure X F (t\<lparr> tr_log := tr_log t @ [e] \<rparr>)"
    by (rule secure_log [OF t, of e]) (use assms t in \<open>auto simp: undisturbed_def secure_def\<close>)
qed

lemma secure_note:
  assumes "lasting F" "\<And>l. legitimate l e"
  shows "keeps (secure X F :: 'w sync_transport \<Rightarrow> bool) (record_effect e)"
  unfolding record_effect_def
proof (rule keeps_change)
  fix t :: "'w sync_transport"
  assume t: "secure X F t"
  show "secure X F (t\<lparr> tr_log := tr_log t @ [e] \<rparr>)"
    by (rule secure_log [OF t, of e]) (use assms t in \<open>auto simp: lasting_def secure_def\<close>)
qed

text \<open>A call of the service that is legitimate whatever it gives; afterwards its entry is the last.\<close>

lemma ensures_serve_from:
  fixes op :: "'w \<Rightarrow> 'b result \<times> 'w"
  assumes "lasting F" "\<And>l. H l \<Longrightarrow> F l"
    "\<And>(t :: 'w sync_transport) r w. secure X H t \<Longrightarrow> r = fst (op w) \<Longrightarrow> legitimate (tr_log t) (note r)"
    "\<And>l x w. Inr x = fst (op w) \<Longrightarrow> G x (l @ [note (Inr x)])"
  shows "ensures (secure X H :: 'w sync_transport \<Rightarrow> bool) (serve op note) (\<lambda>x. secure X (\<lambda>l. F l \<and> G x l)) (\<lambda>_. secure X F)"
  unfolding ensures_def
proof (intro allI impI)
  fix t :: "'w sync_transport"
  assume t: "secure X H t"
  obtain r w where op: "op (tr_world t) = (r, w)" by (cases "op (tr_world t)")
  let ?t = "t\<lparr> tr_world := w, tr_log := tr_log t @ [note r] \<rparr>"
  have "legitimate (tr_log t) (note r)" using assms(3) [OF t, of r "tr_world t"] op by simp
  moreover have tF: "secure X F t" using t assms(2) by (auto elim!: secure_weaken)
  ultimately have s: "secure X F ?t"
    by (intro secure_log [OF tF]) (use assms(1) tF in \<open>auto simp: lasting_def secure_def\<close>)
  show "case serve op note t of (Inl e, s') \<Rightarrow> secure X F s' | (Inr x, s') \<Rightarrow> secure X (\<lambda>l. F l \<and> G x l) s'"
  proof (cases r)
    case (Inl e)
    with s op show ?thesis by (simp add: serve_def)
  next
    case (Inr x)
    then have "G x (tr_log ?t)" using assms(4) [of x "tr_world t" "tr_log t"] op by simp
    with s op Inr show ?thesis by (simp add: serve_def secure_def)
  qed
qed

lemma ensures_serve:
  fixes op :: "'w \<Rightarrow> 'b result \<times> 'w"
  assumes "lasting F"
    "\<And>(t :: 'w sync_transport) r w. secure X F t \<Longrightarrow> r = fst (op w) \<Longrightarrow> legitimate (tr_log t) (note r)"
    "\<And>l x w. Inr x = fst (op w) \<Longrightarrow> G x (l @ [note (Inr x)])"
  shows "ensures (secure X F :: 'w sync_transport \<Rightarrow> bool) (serve op note) (\<lambda>x. secure X (\<lambda>l. F l \<and> G x l)) (\<lambda>_. secure X F)"
  using assms by (intro ensures_serve_from) auto

section \<open>Rules that use what is known\<close>

lemma secure_obtaining:
  assumes "ensures (secure X F) m (\<lambda>x. secure (Y x) (G x)) (\<lambda>_. secure X F)"
    "\<And>x. keeps (secure (Y x) (G x)) (k x)" "\<And>x. X \<subseteq> Y x" "\<And>x l. G x l \<Longrightarrow> F l"
  shows "keeps (secure X F) (obtaining m k)"
  unfolding keeps_def obtaining_def
proof (intro allI impI)
  fix t :: "'a sync_transport"
  assume t: "secure X F t"
  show "secure X F (snd (case m t of (Inl e, s) \<Rightarrow> (Inl e, s) | (Inr x, s) \<Rightarrow> k x s))"
  proof (cases "m t")
    case (Pair r s)
    show ?thesis
    proof (cases r)
      case (Inl e)
      then show ?thesis using assms(1) t Pair by (auto simp: ensures_def)
    next
      case (Inr x)
      then have "secure (Y x) (G x) s" using assms(1) t Pair by (fastforce simp: ensures_def)
      then have "secure (Y x) (G x) (snd (k x s))" using assms(2) by (simp add: keeps_def)
      then have "secure X F (snd (k x s))" by (rule secure_weaken) (use assms(3,4) in auto)
      with Pair Inr show ?thesis by simp
    qed
  qed
qed

text \<open>Reading a connection tells whether it is authenticated and what it has touched.\<close>

lemma secure_connection:
  assumes "\<And>k. cn_authenticated k = None \<Longrightarrow> keeps (secure X F) (m k)"
    "\<And>k au. cn_authenticated k = Some au \<Longrightarrow> keeps (secure (insert (c, ac_boardId (au_access au)) X) F) (m k)"
  shows "keeps (secure X F) (obtaining (connection c) m)"
  unfolding keeps_def connection_def ask_obtaining
proof (intro allI impI)
  fix t :: "'a sync_transport"
  assume t: "secure X F t"
  show "secure X F (snd (m (conn t c) t))"
  proof (cases "cn_authenticated (conn t c)")
    case None
    then show ?thesis using assms(1) t by (simp add: keeps_def)
  next
    case (Some au)
    then have "secure (insert (c, ac_boardId (au_access au)) X) F t"
      using t by (auto simp: secure_def at_board_def)
    then have "secure (insert (c, ac_boardId (au_access au)) X) F (snd (m (conn t c) t))"
      using assms(2) [OF Some] by (simp add: keeps_def)
    then show ?thesis by (rule secure_weaken) auto
  qed
qed

lemma secure_known_connection:
  assumes "(c, b) \<in> X"
    "\<And>k au. cn_authenticated k = Some au \<Longrightarrow> ac_boardId (au_access au) = b
       \<Longrightarrow> keeps (secure X (\<lambda>l. F l \<and> (\<forall>d \<in> set (cn_subscribedDocs k). touched l c d) \<and> admitted_as l c (au_access au))) (m k)"
  shows "keeps (secure X F) (obtaining (connection c) m)"
  unfolding keeps_def connection_def ask_obtaining
proof (intro allI impI)
  fix t :: "'a sync_transport"
  assume t: "secure X F t"
  then obtain au where au: "cn_authenticated (conn t c) = Some au" "ac_boardId (au_access au) = b"
    using assms(1) by (auto simp: secure_def at_board_def)
  let ?G = "\<lambda>l. F l \<and> (\<forall>d \<in> set (cn_subscribedDocs (conn t c)). touched l c d) \<and> admitted_as l c (au_access au)"
  have "secure X ?G t"
    using t au by (auto simp: secure_def subscriptions_ok_def principal_ok_def)
  then have "secure X ?G (snd (m (conn t c) t))"
    using assms(2) [OF au] by (simp add: keeps_def)
  then show "secure X F (snd (m (conn t c) t))" by (rule secure_weaken) auto
qed

lemma ensures_keeps: "keeps P m \<Longrightarrow> ensures P m (\<lambda>_. P) (\<lambda>_. P)"
  by (simp add: keeps_ensures)

lemma ensures_give: "(\<And>t. P t \<Longrightarrow> Q x t) \<Longrightarrow> ensures P (give x) Q E"
  by (simp add: ensures_def give_def)

lemma ensures_throw: "(\<And>t. P t \<Longrightarrow> E e t) \<Longrightarrow> ensures P (throw e) Q E"
  by (simp add: ensures_def throw_def)

end
