(* ===== verification/Sync_Sending.thy ===== *)
theory Sync_Sending
  imports Sync_Security
begin

unbundle bit_operations_syntax

text \<open>
  The invariant of \<open>Sync_Security\<close> through everything that sends, closes, checks and asks the service:
  which lets the handlers of frames and events be proved secure by their structure.
\<close>

section \<open>Sending and closing\<close>

lemma secure_socket_close [secure_keep]: "undisturbed F \<Longrightarrow> keeps (secure X F) (socket_close c code reason)"
  unfolding socket_close_def by (intro keep_rules secure_set_connection secure_effect) (auto simp: quiet_def)

lemma secure_terminate [secure_keep]: "undisturbed F \<Longrightarrow> keeps (secure X F) (socket_terminate c)"
  unfolding socket_terminate_def by (intro keep_rules secure_set_connection secure_effect) (auto simp: quiet_def)

lemma secure_is_open [secure_keep]: "keeps (secure X F) (is_open c)"
  unfolding is_open_def by (intro keep_rules)

lemma secure_encode [secure_keep]: "keeps (secure X F) (encode_frame E f)"
  unfolding encode_frame_def by (intro keep_rules)

text \<open>A frame that may be sent to a connection in every secure state.\<close>

definition sendable :: "'w itself \<Rightarrow> (nat \<times> jstr) set \<Rightarrow> (effect list \<Rightarrow> bool) \<Rightarrow> nat \<Rightarrow> board_frame \<Rightarrow> bool" where
  "sendable w X F c f \<longleftrightarrow> (\<forall>t :: 'w sync_transport. secure X F t \<longrightarrow> (\<exists>a. admitted_as (tr_log t) c a) \<and> frame_legitimate (tr_log t) c f)"

lemma sendable_known: "(c, b) \<in> X \<Longrightarrow> (\<And>l. F l \<Longrightarrow> frame_legitimate l c f) \<Longrightarrow> sendable w X F c f"
  unfolding sendable_def using known_admitted by (metis secure_def)

lemma sendable_admitted: "(\<And>l. F l \<Longrightarrow> admitted_as l c a \<and> frame_legitimate l c f) \<Longrightarrow> sendable w X F c f"
  unfolding sendable_def secure_def by blast

lemma secure_send_unlimited [secure_keep]:
  "undisturbed F \<Longrightarrow> sendable TYPE('w) X F c f
     \<Longrightarrow> keeps (secure X F :: 'w sync_transport \<Rightarrow> bool) (sendEncodedWithoutLimit E c f b)"
  unfolding sendEncodedWithoutLimit_def sendable_def
  by (intro keep_rules secure_set_connection secure_effect) (auto simp: quiet_def)

lemma secure_send_encoded [secure_keep]:
  "undisturbed F \<Longrightarrow> sendable TYPE('w) X F c f \<Longrightarrow> keeps (secure X F :: 'w sync_transport \<Rightarrow> bool) (sendEncoded E c f b)"
  unfolding sendEncoded_def by (intro keep_rules secure_keep)

lemma secure_draw_chunk [secure_keep]: "keeps (secure X F) (draw_chunk_id E)"
  unfolding draw_chunk_id_def by (intro keep_rules secure_keep) (simp add: same_security_def conn_def)

lemma secure_send_or [secure_keep]:
  "undisturbed F \<Longrightarrow> sendable TYPE('w) X F c f \<Longrightarrow> (\<And>c d. keeps (secure X F) (failure c d))
     \<Longrightarrow> keeps (secure X F :: 'w sync_transport \<Rightarrow> bool) (send_or failure E c f)"
  unfolding send_or_def by (intro keep_rules secure_keep)

lemma secure_closing [secure_keep]:
  assumes "undisturbed F"
  shows "keeps (secure X F :: 'w sync_transport \<Rightarrow> bool) (closeWithControl E c code closeCode reason messageId detail metadata)"
  unfolding closeWithControl_def send_control_def
  by (intro keeps_andThen secure_connection secure_socket_close secure_send_or keeps_if keeps_option keeps_skip keeps_throw assms)
    (auto intro: sendable_known)

lemma secure_protocol_failure [secure_keep]: "undisturbed F \<Longrightarrow> keeps (secure X F) (protocolFailure E c detail)"
  unfolding protocolFailure_def by (intro keep_rules secure_keep)

lemma secure_send [secure_keep]:
  "undisturbed F \<Longrightarrow> sendable TYPE('w) X F c f \<Longrightarrow> keeps (secure X F :: 'w sync_transport \<Rightarrow> bool) (sendFrame E c f)"
  unfolding sendFrame_def by (intro secure_keep)

lemma secure_service_failure [secure_keep]:
  assumes "undisturbed F"
  shows "keeps (secure X F :: 'w sync_transport \<Rightarrow> bool) (serviceFailure E c e messageId)"
proof -
  have closing: "keeps (secure X F) (service_error_closing E c code message messageId)" for X code message
    unfolding service_error_closing_def by (intro keep_rules secure_keep assms)
  have "keeps (secure X F) (service_error_failure E c code message messageId)" for code message
    unfolding service_error_failure_def
    by (rule secure_connection) (auto intro!: keep_rules closing secure_send assms sendable_known)
  then show ?thesis unfolding serviceFailure_def by (intro keep_rules secure_keep assms)
qed

lemma secure_rate_limit [secure_keep]: "undisturbed F \<Longrightarrow> keeps (secure X F) (closeForRateLimit E c reason messageId)"
  unfolding closeForRateLimit_def by (intro keep_rules secure_keep)

section \<open>Budgets\<close>

lemma secure_own_rate:
  "(\<And>r k. cn_authenticated (put r k) = cn_authenticated k \<and> cn_subscribedDocs (put r k) = cn_subscribedDocs k)
     \<Longrightarrow> keeps (secure X F) (own_rate get put c)"
  unfolding own_rate_def by (intro keep_rules secure_keep) auto

lemma secure_own_rates [secure_keep]:
  "keeps (secure X F) (frame_rate c)" "keeps (secure X F) (update_rate c)" "keeps (secure X F) (awareness_rate c)"
  "keeps (secure X F) (profile_rate c)"
  by (simp_all add: frame_rate_def update_rate_def awareness_rate_def profile_rate_def secure_own_rate)

lemma secure_shared_rate:
  "(\<And>r t. same_security t (put r t)) \<Longrightarrow> keeps (secure X F) (shared_rate get put key mx amount)"
  unfolding shared_rate_def by (intro keep_rules secure_keep)

lemma secure_budgets [secure_keep]:
  "keeps (secure X F) (consume_inbound c n)" "keeps (secure X F) (consumeUpdateBudget c n)"
  "keeps (secure X F) (consumeAwarenessBudget c n)" "keeps (secure X F) (consumeProfileBudget c)"
  unfolding consume_inbound_def consumeUpdateBudget_def consumeAwarenessBudget_def consumeProfileBudget_def principalRateKey_def
  by (intro keep_rules secure_keep secure_shared_rate; simp add: same_security_def conn_def)+

end
