(* ===== verification/Sync_Checks.thy ===== *)
theory Sync_Checks
  imports Sync_Sending
begin

unbundle bit_operations_syntax

text \<open>
  The checks of the board transport with a service that grants what was asked for: after a check the
  log ends in a grant for the connection's own board, generation, user and session.
\<close>

section \<open>Rules for handlers with a value\<close>

lemma ensures_secure_obtaining:
  assumes "ensures (secure X F) m (\<lambda>x. secure (Y x) (G x)) (\<lambda>_. secure X F)"
    "\<And>x. ensures (secure (Y x) (G x)) (k x) R (\<lambda>_. secure (Y x) (G x))" "\<And>x. X \<subseteq> Y x" "\<And>x l. G x l \<Longrightarrow> F l"
  shows "ensures (secure X F) (obtaining m k) R (\<lambda>_. secure X F)"
proof (rule ensures_obtaining [OF assms(1)])
  fix x
  show "ensures (secure (Y x) (G x)) (k x) R (\<lambda>_. secure X F)"
    by (rule ensures_weaken [OF assms(2)]) (use assms(3,4) in \<open>auto elim!: secure_weaken\<close>)
qed

lemma ensures_secure_to:
  assumes "ensures (secure X F) m (\<lambda>x. secure (Y x) (G x)) (\<lambda>_. secure X F)"
    "\<And>x l. G x l \<Longrightarrow> H x l" "\<And>x. ensures (secure (Y x) (H x)) (k x) R (\<lambda>_. secure (Y x) (H x))" "\<And>x. X \<subseteq> Y x" "\<And>x l. H x l \<Longrightarrow> F l"
  shows "ensures (secure X F) (obtaining m k) R (\<lambda>_. secure X F)"
proof (rule ensures_obtaining [OF assms(1)])
  fix x
  show "ensures (secure (Y x) (G x)) (k x) R (\<lambda>_. secure X F)"
    by (rule ensures_weaken [OF assms(3)]) (use assms(2,4,5) in \<open>auto elim!: secure_weaken\<close>)
qed

lemma ensures_secure_keeps:
  "keeps (secure X F) m \<Longrightarrow> (\<And>x. ensures (secure X F) (k x) R (\<lambda>_. secure X F))
     \<Longrightarrow> ensures (secure X F) (obtaining m k) R (\<lambda>_. secure X F)"
  by (rule ensures_secure_obtaining [where Y = "\<lambda>_. X" and G = "\<lambda>_. F"]) (auto simp: keeps_ensures)

lemma ensures_secure_then:
  "keeps (secure X F) m \<Longrightarrow> ensures (secure X F) n R (\<lambda>_. secure X F) \<Longrightarrow> ensures (secure X F) (andThen m n) R (\<lambda>_. secure X F)"
  unfolding andThen_def by (rule ensures_secure_keeps)

lemma ensures_if: "(b \<Longrightarrow> ensures P m Q E) \<Longrightarrow> (\<not> b \<Longrightarrow> ensures P n Q E) \<Longrightarrow> ensures P (if b then m else n) Q E"
  by simp

lemma ensures_list:
  "(xs = [] \<Longrightarrow> ensures P m Q E) \<Longrightarrow> (\<And>y ys. xs = y # ys \<Longrightarrow> ensures P (k y ys) Q E)
     \<Longrightarrow> ensures P (case xs of [] \<Rightarrow> m | y # ys \<Rightarrow> k y ys) Q E"
  by (cases xs) simp_all

lemma ensures_known_connection:
  assumes "(c, b) \<in> X"
    "\<And>k au. cn_authenticated k = Some au \<Longrightarrow> ac_boardId (au_access au) = b
       \<Longrightarrow> ensures (secure X (\<lambda>l. F l \<and> (\<forall>d \<in> set (cn_subscribedDocs k). touched l c d) \<and> admitted_as l c (au_access au)))
             (m k) R (\<lambda>_. secure X F)"
  shows "ensures (secure X F) (obtaining (connection c) m) R (\<lambda>_. secure X F)"
  unfolding ensures_def connection_def ask_obtaining
proof (intro allI impI)
  fix t :: "'a sync_transport"
  assume t: "secure X F t"
  then obtain au where au: "cn_authenticated (conn t c) = Some au" "ac_boardId (au_access au) = b"
    using assms(1) by (auto simp: secure_def at_board_def)
  have s: "secure X (\<lambda>l. F l \<and> (\<forall>d \<in> set (cn_subscribedDocs (conn t c)). touched l c d) \<and> admitted_as l c (au_access au)) t"
    using t au by (auto simp: secure_def subscriptions_ok_def principal_ok_def)
  show "case m (conn t c) t of (Inl e, s) \<Rightarrow> secure X F s | (Inr x, s) \<Rightarrow> R x s"
    by (rule assms(2) [OF au, unfolded ensures_def, THEN spec, THEN mp, OF s])
qed

lemma secure_set_access:
  assumes "(c, b) \<in> X" "\<And>l. F l \<Longrightarrow> admitted_as l c a \<and> ac_boardId a = b"
  shows "keeps (secure X F :: 'w sync_transport \<Rightarrow> bool) (set_access c au a)"
  unfolding set_access_def set_connection_def
proof (rule keeps_change)
  fix t :: "'w sync_transport"
  assume t: "secure X F t"
  let ?t = "t\<lparr> tr_heap := (tr_heap t)(c := map_option (\<lambda>k. k\<lparr> cn_authenticated := Some (au\<lparr> au_access := a \<rparr>) \<rparr>) (tr_heap t c)) \<rparr>"
  have a: "admitted_as (tr_log t) c a" "ac_boardId a = b" and c: "at_board t c b"
    using t assms by (auto simp: secure_def)
  have cn: "conn ?t d = (if d = c \<and> c \<in> dom (tr_heap t) then (conn t d)\<lparr> cn_authenticated := Some (au\<lparr> au_access := a \<rparr>) \<rparr>
      else conn t d)" for d
    by (simp add: conn_update)
  have at: "at_board ?t d b' \<longleftrightarrow> at_board t d b'" for d b'
    using c a(2) unfolding at_board_def cn by auto
  have "principal_ok ?t" using t a(1) unfolding secure_def principal_ok_def cn by auto
  moreover have "subscriptions_ok ?t" using t unfolding secure_def subscriptions_ok_def cn by auto
  moreover have "boards_ok ?t" using t at unfolding secure_def boards_ok_def by auto
  moreover have "fresh_numbers ?t" using t unfolding secure_def fresh_numbers_def by (auto simp: dom_def split: if_splits)
  ultimately show "secure X F ?t" using t at by (auto simp: secure_def tasks_ok_def)
qed

section \<open>The contract\<close>

text \<open>A service that grants access grants it for what it was asked for, and edits only with the permission.\<close>

locale granting_service =
  fixes E :: "'w sync_env"
  assumes grants: "fst (sv_reauthorize (en_service E) i edit w) = Inr a
    \<Longrightarrow> identity_of a i \<and> (edit \<longrightarrow> ac_permissions a AND permission_edit \<noteq> 0)"
begin

definition fresh :: "(effect list \<Rightarrow> bool) \<Rightarrow> nat \<Rightarrow> bool \<Rightarrow> jstr \<Rightarrow> board_access \<Rightarrow> effect list \<Rightarrow> bool" where
  "fresh F c edit b a l \<longleftrightarrow> F l \<and> just_granted l c edit a \<and> admitted_as l c a \<and> ac_boardId a = b"

lemma ensures_check:
  assumes "lasting F" "\<And>l. F l \<Longrightarrow> admitted_as l c a0" "identity_of a0 i" "ac_boardId a0 = b"
  shows "ensures (secure X F) (call_reauthorize E c i edit) (\<lambda>a. secure X (fresh F c edit b a)) (\<lambda>_. secure X F)"
proof -
  have "ensures (secure X F) (call_reauthorize E c i edit)
      (\<lambda>a. secure X (\<lambda>l. F l \<and> just_granted l c edit a \<and> identity_of a i)) (\<lambda>_. secure X F)"
    unfolding call_reauthorize_def
  proof (rule ensures_serve [OF assms(1)])
    fix t :: "'w sync_transport" and r w
    assume "secure X F t" and r: "r = fst (sv_reauthorize (en_service E) i edit w)"
    then show "legitimate (tr_log t) (Checked c i edit r)"
      using assms(2,3) grants [of i edit w] by (auto simp: secure_def)
  next
    fix l and a :: board_access and w
    assume "Inr a = fst (sv_reauthorize (en_service E) i edit w)"
    from grants [OF this [symmetric]]
    show "just_granted (l @ [Checked c i edit (Inr a)]) c edit a \<and> identity_of a i" by (auto simp: just_granted_def)
  qed
  then show ?thesis
  proof (rule ensures_weaken)
    fix a and t :: "'w sync_transport"
    assume "secure X (\<lambda>l. F l \<and> just_granted l c edit a \<and> identity_of a i) t"
    then show "secure X (fresh F c edit b a) t"
    proof (rule secure_weaken [OF _ subset_refl])
      fix l assume l: "F l \<and> just_granted l c edit a \<and> identity_of a i"
      then have "same_principal a0 a" "ac_boardId a = b"
        using assms(3,4) by (auto simp: identity_of_def same_principal_def)
      then show "fresh F c edit b a l"
        using l assms(2) [of l] by (auto simp: fresh_def admitted_as_def same_principal_def)
    qed
  qed auto
qed

lemma fresh_facts: "fresh F c edit b a l \<Longrightarrow> F l" "fresh F c edit b a l \<Longrightarrow> admitted_as l c a \<and> ac_boardId a = b"
  by (simp_all add: fresh_def)

lemma ensures_access:
  assumes "lasting F" "(c, b) \<in> X"
  shows "ensures (secure X F) (reauthorizeAccess E c edit) (\<lambda>a. secure X (fresh F c edit b a)) (\<lambda>_. secure X F)"
  unfolding reauthorizeAccess_def
proof (rule ensures_known_connection [OF assms(2)])
  fix k au
  assume au: "cn_authenticated k = Some au" "ac_boardId (au_access au) = b"
  let ?G = "\<lambda>l. F l \<and> (\<forall>d \<in> set (cn_subscribedDocs k). touched l c d) \<and> admitted_as l c (au_access au)"
  have "identity_of (au_access au) (access_identity_of (au_access au) p)" for p
    by (simp add: identity_of_def access_identity_of_def)
  then have "ensures (secure X ?G) (call_reauthorize E c (access_identity_of (au_access au) p) edit)
      (\<lambda>a. secure X (fresh ?G c edit b a)) (\<lambda>_. secure X ?G)" for p
    using au assms(1) by (intro ensures_check [where ?a0.0 = "au_access au"] lasting_rules) auto
  note check = this [of "profile_value \<lparr> p_displayName = ac_displayName (au_access au), p_color = ac_color (au_access au) \<rparr>"]
  show "ensures (secure X ?G) (let a = au_access (the (cn_authenticated k)) in call_reauthorize E c (access_identity_of a
      (profile_value \<lparr> p_displayName = ac_displayName a, p_color = ac_color a \<rparr>)) edit)
      (\<lambda>a. secure X (fresh F c edit b a)) (\<lambda>_. secure X F)"
    unfolding au(1) Let_def option.sel
    by (rule ensures_weaken [OF check]) (auto elim!: secure_weaken simp: fresh_def)
qed

lemma ensures_connection:
  assumes "lasting F" "(c, b) \<in> X"
  shows "ensures (secure X F) (reauthorizeConnection E c edit) (\<lambda>a. secure X (fresh F c edit b a)) (\<lambda>_. secure X F)"
proof -
  have "ensures (secure X (fresh F c edit b a)) (andThen (set_access c au a) (give a)) (\<lambda>a. secure X (fresh F c edit b a))
      (\<lambda>_. secure X (fresh F c edit b a))" for a au
    by (intro ensures_secure_then secure_set_access [OF assms(2)] ensures_give fresh_facts(2))
  then have "ensures (secure X F) (obtaining (reauthorizeAccess E c edit) (\<lambda>a. andThen (set_access c au a) (give a)))
      (\<lambda>a. secure X (fresh F c edit b a)) (\<lambda>_. secure X F)" for au
    by (rule ensures_secure_obtaining [OF ensures_access [OF assms]]) (auto simp: fresh_def)
  then show ?thesis
    unfolding reauthorizeConnection_def by (rule ensures_secure_keeps [OF keeps_connection])
qed

lemma ensures_frame:
  assumes "lasting F" "(c, b) \<in> X"
  shows "ensures (secure X F) (reauthorizeFrame E c gen edit) (\<lambda>a. secure X (fresh F c edit b a)) (\<lambda>_. secure X F)"
  unfolding reauthorizeFrame_def
proof (rule ensures_secure_keeps [OF keeps_connection])
  fix k :: sync_connection
  show "ensures (secure X F) (if gen \<noteq> ac_generation (au_access (the (cn_authenticated k)))
      then throw (ServiceThrown AccessRevoked (js ''Frame generation does not match authenticated Board generation''))
      else reauthorizeConnection E c edit) (\<lambda>a. secure X (fresh F c edit b a)) (\<lambda>_. secure X F)"
    using ensures_connection [OF assms] by (auto intro: ensures_throw)
qed

text \<open>Before something is sent to a peer: the last check of it was granted, for its board.\<close>

definition cleared :: "bool \<Rightarrow> (effect list \<Rightarrow> bool) \<Rightarrow> nat \<Rightarrow> jstr \<Rightarrow> effect list \<Rightarrow> bool" where
  "cleared ok F c b l \<longleftrightarrow> F l \<and> (ok \<longrightarrow> (\<exists>a. last_check l c = Some (Inr a) \<and> ac_boardId a = b))"

lemma ensures_outbound:
  assumes "lasting F" "(c, b) \<in> X"
  shows "ensures (secure X F) (authorizeOutbound E c) (\<lambda>ok. secure X (cleared ok F c b)) (\<lambda>_. secure X F)"
  unfolding authorizeOutbound_def rescue_def
proof (rule ensures_attempt)
  show "ensures (secure X F) (obtaining (reauthorizeConnection E c False) (\<lambda>_. give True))
      (\<lambda>ok. secure X (cleared ok F c b)) (\<lambda>_. secure X F)"
  proof (rule ensures_secure_obtaining [OF ensures_connection [OF assms]])
    fix a
    show "ensures (secure X (fresh F c False b a)) (give True) (\<lambda>ok. secure X (cleared ok F c b)) (\<lambda>_. secure X (fresh F c False b a))"
      by (rule ensures_give, erule secure_weaken) (use just_granted_facts(2) in \<open>auto simp: fresh_def cleared_def\<close>)
  qed (auto simp: fresh_def)
next
  fix e
  have "keeps (secure X F) (serviceFailure E c e None)"
    using assms(1) by (intro secure_keep lasting_undisturbed)
  then show "ensures (secure X F) (if e = NeverReturns then throw e else andThen (serviceFailure E c e None) (give False))
      (\<lambda>ok. secure X (cleared ok F c b)) (\<lambda>_. secure X F)"
    by (auto intro!: ensures_throw ensures_secure_then ensures_give elim!: secure_weaken simp: cleared_def)
qed

end

end
