(* ===== verification/Sync_Legitimate.thy ===== *)
theory Sync_Legitimate
  imports Sync_Checks
begin

unbundle bit_operations_syntax

text \<open>
  Every handler and event of the board transport keeps it secure, whatever service it has that grants
  what it is asked for; the access checks of \<open>sync-service.ts\<close> make such a service.
\<close>

context granting_service
begin

section \<open>Broadcasts\<close>

lemma lasting_known [lasting_rules]:
  "lasting F \<Longrightarrow> lasting (\<lambda>l. F l \<and> (\<forall>d \<in> set ds. touched l c d) \<and> admitted_as l c a)"
  by (intro lasting_rules)

lemma undisturbed_cleared: "lasting F \<Longrightarrow> undisturbed (cleared ok F c b)"
  unfolding cleared_def by (intro undisturbed_rules lasting_undisturbed)

lemma cleared_base: "cleared ok F c b l \<Longrightarrow> F l"
  by (simp add: cleared_def)

lemma secure_outbound_then:
  assumes "lasting F" "(c, b) \<in> X" "\<And>ok. keeps (secure X (cleared ok F c b)) (k ok)"
  shows "keeps (secure X F) (obtaining (authorizeOutbound E c) k)"
  by (rule secure_obtaining [OF ensures_outbound [OF assms(1,2)]]) (auto simp: cleared_def assms(3))

lemma secure_send_to_peer:
  assumes "lasting F" "(p, b) \<in> X"
    "\<And>l. F l \<Longrightarrow> touched l p d \<Longrightarrow> (\<exists>a. last_check l p = Some (Inr a) \<and> ac_boardId a = b) \<Longrightarrow> frame_legitimate l p f"
  shows "keeps (secure X F) (send_to_peer E d f p)"
  unfolding send_to_peer_def
proof (rule secure_known_connection [OF assms(2)])
  fix k and au :: authenticated_sync
  let ?G = "\<lambda>l. F l \<and> (\<forall>d \<in> set (cn_subscribedDocs k). touched l p d) \<and> admitted_as l p (au_access au)"
  have send: "keeps (secure X (cleared ok ?G p b)) (if ok then sendFrame E p f else skip)" if "d \<in> set (cn_subscribedDocs k)" for ok
    using assms that
    by (intro keep_rules secure_send undisturbed_cleared lasting_rules sendable_known [OF assms(2)])
      (auto simp: cleared_def)
  show "keeps (secure X ?G) (if d \<notin> set (cn_subscribedDocs k) \<or> ws_state k \<noteq> WsOpen then skip
      else obtaining (authorizeOutbound E p) (\<lambda>ok. if ok then sendFrame E p f else skip))"
    by (rule keeps_if, rule keeps_skip, rule secure_outbound_then [OF _ assms(2)], intro lasting_rules assms(1), rule send, simp)
qed

lemma ensures_peers:
  "ensures (secure X F) (board_peers b) (\<lambda>ps. secure (X \<union> (\<lambda>p. (p, b)) ` set ps) F) (\<lambda>_. secure X F)"
  unfolding ensures_def board_peers_def ask_def
proof (intro allI impI)
  fix t :: "'a sync_transport"
  assume t: "secure X F t"
  then show "case (Inr (case tr_boards t b of None \<Rightarrow> [] | Some cs \<Rightarrow> cs), t) of (Inl e, s) \<Rightarrow> secure X F s
      | (Inr ps, s) \<Rightarrow> secure (X \<union> (\<lambda>p. (p, b)) ` set ps) F s"
    by (cases "tr_boards t b") (auto simp: secure_def boards_ok_def)
qed

lemma secure_peers:
  assumes "\<And>ps p. p \<in> set ps \<Longrightarrow> keeps (secure (X \<union> (\<lambda>p. (p, b)) ` set ps) F) (m p)"
  shows "keeps (secure X F) (obtaining (board_peers b) (\<lambda>ps. each m ps))"
  by (rule secure_obtaining [OF ensures_peers]) (auto intro!: keeps_each assms)

text \<open>To the others, or to all, of the board of a connection.\<close>

lemma secure_broadcast:
  assumes "lasting F" "(c, b) \<in> X"
    "\<And>l p. p \<noteq> c \<Longrightarrow> F l \<Longrightarrow> touched l p d \<Longrightarrow> (\<exists>a. last_check l p = Some (Inr a) \<and> ac_boardId a = b) \<Longrightarrow> frame_legitimate l p f"
  shows "keeps (secure X F) (broadcastDocument E c d f)"
  unfolding broadcastDocument_def
proof (rule secure_known_connection [OF assms(2)])
  fix k and au :: authenticated_sync
  let ?G = "\<lambda>l. F l \<and> (\<forall>d \<in> set (cn_subscribedDocs k). touched l c d) \<and> admitted_as l c (au_access au)"
  assume au: "cn_authenticated k = Some au" "ac_boardId (au_access au) = b"
  show "keeps (secure X ?G) (obtaining (board_peers (ac_boardId (au_access (the (cn_authenticated k)))))
      (\<lambda>peers. each (\<lambda>peer. if peer = c then skip else send_to_peer E d f peer) peers))"
    unfolding au option.sel
    by (intro secure_peers keep_rules secure_send_to_peer [where b = b] lasting_rules assms(1)) (use assms(3) in auto)
qed

lemma secure_broadcast_all:
  assumes "lasting F" "(c, b) \<in> X"
  shows "keeps (secure X F) (broadcastAwarenessIncludingSender E c d u)"
  unfolding broadcastAwarenessIncludingSender_def
proof (rule secure_known_connection [OF assms(2)])
  fix k and au :: authenticated_sync
  let ?G = "\<lambda>l. F l \<and> (\<forall>d \<in> set (cn_subscribedDocs k). touched l c d) \<and> admitted_as l c (au_access au)"
  assume au: "cn_authenticated k = Some au" "ac_boardId (au_access au) = b"
  show "keeps (secure X ?G) (let a = au_access (the (cn_authenticated k));
        f = AwarenessFrame (ac_generation a) d (the (cn_awarenessClientId k)) u
      in obtaining (board_peers (ac_boardId a)) (each (send_to_peer E d f)))"
    unfolding au option.sel Let_def
    by (intro secure_peers secure_send_to_peer [where b = b] lasting_rules assms(1)) auto
qed

section \<open>Synchronisations\<close>

lemma secure_wait: "undisturbed F \<Longrightarrow> ensures (secure X F) (wait_for_capacity c since work)
    (\<lambda>p t. secure X F t \<and> (work_ok d work \<longrightarrow> phase_ok d p)) (\<lambda>_. secure X F)"
  unfolding wait_for_capacity_def
  by (intro ensures_secure_keeps keep_rules)
    (auto intro!: ensures_give ensures_secure_then secure_socket_close)

lemma secure_start_wait: "undisturbed F \<Longrightarrow> ensures (secure X F) (start_wait c work)
    (\<lambda>p t. secure X F t \<and> (work_ok d work \<longrightarrow> phase_ok d p)) (\<lambda>_. secure X F)"
  unfolding start_wait_def by (intro ensures_secure_keeps keep_rules secure_wait)

lemma secure_flow:
  assumes "undisturbed F"
  shows "ensures (secure X F) (send_flow_controlled E c (SyncStep2Frame g d u))
    (\<lambda>p t. secure X F t \<and> phase_ok d p) (\<lambda>_. secure X F)"
proof -
  have wait: "ensures (secure X F) (start_wait c (SendFrames (SyncStep2Frame g d u) fs)) (\<lambda>p t. secure X F t \<and> phase_ok d p)
      (\<lambda>_. secure X F)" for fs
    by (rule ensures_weaken [OF secure_start_wait [OF assms, where d = d]]) auto
  have failed: "ensures (secure X F) (andThen (protocolFailure E c m) (give (FrameDone False)))
      (\<lambda>p t. secure X F t \<and> phase_ok d p) (\<lambda>_. secure X F)" for m
    by (intro ensures_secure_then secure_protocol_failure assms ensures_give) simp
  show ?thesis
    unfolding send_flow_controlled_def
    by (intro ensures_secure_keeps [OF keeps_connection] ensures_if ensures_secure_keeps [OF secure_encode]
        ensures_secure_keeps [OF secure_draw_chunk] wait failed ensures_give) simp
qed

text \<open>What a task holds when it is suspended again.\<close>

abbreviation task_post :: "(nat \<times> jstr) set \<Rightarrow> (effect list \<Rightarrow> bool) \<Rightarrow> sync_task \<Rightarrow> sync_task \<Rightarrow> 'w sync_transport \<Rightarrow> bool" where
  "task_post X F k k' t \<equiv> secure X F t \<and> task_ok (tr_log t) k' \<and> tk_conn k' = tk_conn k \<and> tk_docKey k' = tk_docKey k"

definition reading :: "(effect list \<Rightarrow> bool) \<Rightarrow> sync_task \<Rightarrow> effect list \<Rightarrow> bool" where
  "reading F k l \<longleftrightarrow> F l \<and> ReadDocument (tk_conn k) (tk_access k) (tk_docKey k) \<in> set l
     \<and> granted l (tk_conn k) (tk_access k) \<and> admitted_as l (tk_conn k) (tk_access k)"

lemma lasting_reading [lasting_rules]: "lasting F \<Longrightarrow> lasting (reading F k)"
  unfolding reading_def by (intro lasting_rules)

lemma secure_next_update:
  assumes "lasting F"
  shows "ensures (secure X (reading F k)) (next_update E k) (task_post X (reading F k) k) (\<lambda>_. secure X (reading F k))"
  unfolding next_update_def
proof (rule ensures_list)
  have "ensures (secure X (reading F k)) (start_wait (tk_conn k) SendState)
      (\<lambda>p t. secure X (reading F k) t \<and> (work_ok (tk_docKey k) SendState \<longrightarrow> phase_ok (tk_docKey k) p)) (\<lambda>_. secure X (reading F k))"
    by (intro secure_start_wait lasting_undisturbed lasting_rules assms)
  then show "ensures (secure X (reading F k)) (obtaining (start_wait (tk_conn k) SendState) (\<lambda>p. give (k\<lparr> tk_phase := p \<rparr>)))
      (task_post X (reading F k) k) (\<lambda>_. secure X (reading F k))"
    by (rule ensures_obtaining) (auto intro!: ensures_give simp: task_ok_def reading_def secure_def)
next
  fix u us
  have "ensures (secure X (reading F k)) (send_flow_controlled E (tk_conn k)
        (SyncStep2Frame (ac_generation (tk_access k)) (tk_docKey k) u))
      (\<lambda>p t. secure X (reading F k) t \<and> phase_ok (tk_docKey k) p) (\<lambda>_. secure X (reading F k))"
    by (intro secure_flow lasting_undisturbed lasting_rules assms)
  then show "ensures (secure X (reading F k)) (obtaining (send_flow_controlled E (tk_conn k)
        (SyncStep2Frame (ac_generation (tk_access k)) (tk_docKey k) u)) (\<lambda>p. give (k\<lparr> tk_updates := us, tk_phase := p \<rparr>)))
      (task_post X (reading F k) k) (\<lambda>_. secure X (reading F k))"
    by (rule ensures_obtaining) (auto intro!: ensures_give simp: task_ok_def reading_def secure_def)
qed

lemma reading_task: "log_ok l \<Longrightarrow> task_ok l k \<Longrightarrow> tk_phase k \<noteq> Finishing \<Longrightarrow> F l \<Longrightarrow> reading F k l"
proof -
  assume ok: "log_ok l" "task_ok l k" "tk_phase k \<noteq> Finishing" and F: "F l"
  then have r: "ReadDocument (tk_conn k) (tk_access k) (tk_docKey k) \<in> set l" by (simp add: task_ok_def)
  then obtain l1 l2 where l: "l = l1 @ ReadDocument (tk_conn k) (tk_access k) (tk_docKey k) # l2"
    by (meson split_list)
  then have "legitimate l1 (ReadDocument (tk_conn k) (tk_access k) (tk_docKey k))"
    using ok(1) unfolding log_ok_def by blast
  then have "granted l (tk_conn k) (tk_access k)" "admitted_as l (tk_conn k) (tk_access k)"
    unfolding l by (auto simp: granted_def admitted_as_def)
  with F r show ?thesis by (simp add: reading_def)
qed

lemma reading_touched: "reading F k l \<Longrightarrow> touched l (tk_conn k) (tk_docKey k)"
  by (auto simp: reading_def touched_def)

lemma reading_admitted: "reading F k l \<Longrightarrow> admitted_as l (tk_conn k) (tk_access k)"
  by (simp add: reading_def)

lemma secure_send_state:
  assumes "lasting F"
  shows "ensures (secure X (reading F k)) (send_state E k) (task_post X (reading F k) k) (\<lambda>_. secure X (reading F k))"
proof -
  let ?G = "reading F k"
  have G: "lasting ?G" by (intro lasting_rules assms)
  have frame: "sendable TYPE('w) X ?G (tk_conn k) f" if "\<And>l. touched l (tk_conn k) (tk_docKey k) \<Longrightarrow> frame_legitimate l (tk_conn k) f" for f
    by (rule sendable_admitted) (auto intro: that dest: reading_touched reading_admitted)
  have sends: "keeps (secure X ?G) (sendFrame E (tk_conn k) f)"
    if "\<And>l. touched l (tk_conn k) (tk_docKey k) \<Longrightarrow> frame_legitimate l (tk_conn k) f" for f
    by (intro secure_send lasting_undisturbed G frame that)
  have others: "keeps (secure X ?G) (each (\<lambda>u. case parseAwarenessUpdate (en_lib E) (en_text E) u of
        None \<Rightarrow> throw (AwarenessThrown (en_awarenessMessage E u))
      | Some p \<Rightarrow> sendFrame E (tk_conn k) (AwarenessFrame g (tk_docKey k) (u_clientId p) u)) us)" for g us
    by (intro keeps_each keeps_option keeps_throw sends) simp
  have read: "ensures (secure X ?G) (serve (sv_documentStateVector (en_service E) (tk_access k) (tk_docKey k))
      (\<lambda>_. ReadDocument (tk_conn k) (tk_access k) (tk_docKey k))) (\<lambda>v. secure X ?G) (\<lambda>_. secure X ?G)"
    by (rule ensures_weaken [OF ensures_serve [OF G, where G = "\<lambda>_ _. True"]]) (auto simp: reading_def secure_def)
  have fin: "ensures (secure X ?G) (give (k\<lparr> tk_phase := Finishing \<rparr>)) (task_post X ?G k) (\<lambda>_. secure X ?G)"
    by (rule ensures_give) (simp add: task_ok_def)
  show ?thesis
    unfolding send_state_def Let_def
    by (rule ensures_secure_obtaining [OF read])
      (auto intro!: ensures_secure_then ensures_secure_keeps ensures_if fin secure_set_connection sends others keeps_ask secure_is_open)
qed

lemma secure_segment:
  assumes "lasting F" "phase_ok (tk_docKey k) (tk_phase k)" "\<And>l. reading F k l \<Longrightarrow> task_ok l k"
  shows "ensures (secure X (reading F k)) (task_segment E k) (task_post X (reading F k) k) (\<lambda>_. secure X (reading F k))"
proof -
  let ?G = "reading F k"
  have G: "lasting ?G" by (intro lasting_rules assms)
  have keep: "ensures (secure X ?G) (give (k\<lparr> tk_phase := p \<rparr>)) (task_post X ?G k) (\<lambda>_. secure X ?G)"
    if "phase_ok (tk_docKey k) p" for p
    by (rule ensures_give) (use that in \<open>auto simp: task_ok_def reading_def secure_def\<close>)
  have waits: "ensures (secure X ?G) (obtaining m (\<lambda>p. give (k\<lparr> tk_phase := p \<rparr>))) (task_post X ?G k) (\<lambda>_. secure X ?G)"
    if "ensures (secure X ?G) m (\<lambda>p t. secure X ?G t \<and> (work_ok (tk_docKey k) w \<longrightarrow> phase_ok (tk_docKey k) p)) (\<lambda>_. secure X ?G)"
      "work_ok (tk_docKey k) w" for m w
    by (rule ensures_obtaining [OF that(1)]) (use that(2) in \<open>auto intro!: ensures_give simp: task_ok_def reading_def secure_def\<close>)
  have frame: "keeps (secure X ?G) (sendEncodedWithoutLimit E (tk_conn k) (SyncStep2Frame g (tk_docKey k) u) b)" for g u b
    by (intro secure_send_unlimited lasting_undisturbed G sendable_admitted) (auto dest: reading_touched reading_admitted)
  show ?thesis
  proof (cases "tk_phase k")
    case (Polling since w)
    then show ?thesis
      using assms(2) by (auto simp: task_segment_def intro!: waits secure_wait lasting_undisturbed G)
  next
    case (Resolved ok w)
    show ?thesis
    proof (cases w)
      case (SendFrames f fs)
      with Resolved assms(2) obtain g u where f: "f = SyncStep2Frame g (tk_docKey k) u" by auto
      have more: "ensures (secure X ?G) (obtaining (start_wait (tk_conn k) (SendFrames f rest)) (\<lambda>p. give (k\<lparr> tk_phase := p \<rparr>)))
          (task_post X ?G k) (\<lambda>_. secure X ?G)" for rest
        by (rule waits [OF secure_start_wait]) (auto simp: f intro: lasting_undisturbed G)
      have send: "keeps (secure X ?G) (sendEncodedWithoutLimit E (tk_conn k) f b)" for b
        unfolding f by (rule frame)
      show ?thesis
        unfolding task_segment_def Resolved SendFrames
        by (auto intro!: ensures_if ensures_list ensures_secure_keeps ensures_secure_then keep secure_encode send more secure_is_open
            split del: if_split)
    next
      case SendState
      then show ?thesis
        using Resolved secure_send_state [OF assms(1), of X k] by (auto simp: task_segment_def intro!: keep)
    qed
  next
    case (FrameDone ok)
    then show ?thesis
      using secure_next_update [OF assms(1), of X k] by (auto simp: task_segment_def intro!: keep)
  next
    case Finishing
    then show ?thesis
      using assms(3) by (auto simp: task_segment_def secure_def intro!: ensures_give)
  qed
qed

lemma secure_guarded:
  assumes "lasting G" "ensures (secure X G) m (task_post X G k) (\<lambda>_. secure X G)"
  shows "ensures (secure X G) (guarded E k m) (task_post X G k) (\<lambda>_. secure X G)"
proof -
  have fin: "ensures (secure X G) (give (k\<lparr> tk_phase := Finishing \<rparr>)) (task_post X G k) (\<lambda>_. secure X G)"
    by (rule ensures_give) (simp add: task_ok_def)
  show ?thesis
    unfolding guarded_def rescue_def
    by (rule ensures_attempt, rule ensures_attempt [OF assms(2)])
      (auto intro!: ensures_if ensures_throw ensures_secure_then fin secure_service_failure secure_note lasting_undisturbed assms(1))
qed

lemma secure_subscribe:
  assumes "\<And>l. F l \<Longrightarrow> touched l c d"
  shows "keeps (secure X F) (set_connection c (\<lambda>k. k\<lparr> cn_subscribedDocs := set_add d (cn_subscribedDocs k) \<rparr>))"
  unfolding set_connection_def
proof (rule keeps_change)
  fix t :: "'a sync_transport"
  assume t: "secure X F t"
  let ?f = "\<lambda>k. k\<lparr> cn_subscribedDocs := set_add d (cn_subscribedDocs k) \<rparr>"
  let ?t = "t\<lparr> tr_heap := (tr_heap t)(c := map_option ?f (tr_heap t c)) \<rparr>"
  have at: "at_board ?t p b \<longleftrightarrow> at_board t p b" for p b
    by (simp add: at_board_def conn_update)
  have "touched (tr_log t) c d" using t assms by (simp add: secure_def)
  then have "subscriptions_ok ?t"
    using t unfolding secure_def subscriptions_ok_def conn_update by (auto simp: set_add_def)
  moreover have "principal_ok ?t" using t unfolding secure_def principal_ok_def conn_update by auto
  moreover have "fresh_numbers ?t" using t unfolding secure_def fresh_numbers_def by (auto simp: dom_def split: if_splits)
  ultimately show "secure X F ?t"
    using t at by (auto simp: secure_def boards_ok_def tasks_ok_def)
qed

lemma secure_begin:
  assumes "lasting F" "(c, b) \<in> X"
  shows "ensures (secure X F) (begin_sync E c gen d v)
    (\<lambda>k' t. secure X F t \<and> task_ok (tr_log t) k' \<and> tk_conn k' = c \<and> tk_docKey k' = d) (\<lambda>_. secure X F)"
proof -
  let ?k = "\<lambda>a us. \<lparr> tk_conn = c, tk_docKey = d, tk_access = a, tk_updates = us, tk_phase = Finishing \<rparr>"
  let ?G = "\<lambda>a l. F l \<and> granted l c a \<and> admitted_as l c a"
  let ?Q = "\<lambda>k' t. secure X F t \<and> task_ok (tr_log t) k' \<and> tk_conn k' = c \<and> tk_docKey k' = d"
  have G: "lasting (?G a)" for a by (intro lasting_rules assms(1))
  have "ensures (secure X (?G a)) (serve (sv_missingUpdates (en_service E) a d v) (\<lambda>_. ReadDocument c a d))
      (\<lambda>us. secure X (\<lambda>l. ?G a l \<and> ReadDocument c a d \<in> set l)) (\<lambda>_. secure X (?G a))" for a
    by (rule ensures_serve [OF G]) (auto simp: secure_def)
  then have read: "ensures (secure X (?G a)) (serve (sv_missingUpdates (en_service E) a d v) (\<lambda>_. ReadDocument c a d))
      (\<lambda>us. secure X (reading F (?k a us))) (\<lambda>_. secure X (?G a))" for a
    by (rule ensures_weaken) (auto elim!: secure_weaken simp: reading_def)
  have sub: "keeps (secure X (reading F (?k a us)))
      (set_connection c (\<lambda>k. k\<lparr> cn_subscribedDocs := set_add d (cn_subscribedDocs k) \<rparr>))" for a us
    by (rule secure_subscribe) (use reading_touched [of F "?k a us"] in auto)
  have first: "ensures (secure X (reading F (?k a us))) (next_update E (?k a us)) ?Q (\<lambda>_. secure X (reading F (?k a us)))" for a us
    by (rule ensures_weaken [OF secure_next_update [OF assms(1)]]) (auto elim!: secure_weaken simp: reading_def)
  have "ensures (secure X (?G a)) (obtaining (serve (sv_missingUpdates (en_service E) a d v) (\<lambda>_. ReadDocument c a d))
      (\<lambda>us. andThen (set_connection c (\<lambda>k. k\<lparr> cn_subscribedDocs := set_add d (cn_subscribedDocs k) \<rparr>)) (next_update E (?k a us))))
      ?Q (\<lambda>_. secure X (?G a))" for a
    by (rule ensures_secure_obtaining [OF read ensures_secure_then [OF sub first]]) (auto simp: reading_def)
  note rest = this
  show ?thesis
    unfolding begin_sync_def
    by (rule ensures_secure_to [OF ensures_frame [OF assms] _ rest]) (auto simp: fresh_def dest: just_granted_facts)
qed

lemma secure_tasks:
  assumes "\<And>t i k. tr_tasks (f t) i = Some k \<Longrightarrow> tr_tasks t i = Some k \<or> k \<in> K"
    "\<And>t. tr_heap (f t) = tr_heap t \<and> tr_boards (f t) = tr_boards t \<and> tr_log (f t) = tr_log t \<and> tr_next (f t) = tr_next t"
    "\<And>l k. F l \<Longrightarrow> k \<in> K \<Longrightarrow> task_ok l k"
  shows "keeps (secure X F) (change f)"
proof (rule keeps_change)
  fix t :: "'a sync_transport"
  assume t: "secure X F t"
  have "conn (f t) c = conn t c" for c using assms(2) by (simp add: conn_def)
  then show "secure X F (f t)"
    using t assms unfolding secure_def principal_ok_def boards_ok_def subscriptions_ok_def tasks_ok_def fresh_numbers_def at_board_def
    by (auto, metis)
qed

lemma secure_after_task:
  assumes "ensures (secure X F) m (\<lambda>k' t. secure X F t \<and> task_ok (tr_log t) k' \<and> P k') (\<lambda>_. secure X F)"
    "\<And>k'. keeps (secure X (\<lambda>l. F l \<and> task_ok l k')) (n k')"
  shows "keeps (secure X F) (obtaining m n)"
proof (rule secure_obtaining)
  show "ensures (secure X F) m (\<lambda>k'. secure X (\<lambda>l. F l \<and> task_ok l k')) (\<lambda>_. secure X F)"
    by (rule ensures_weaken [OF assms(1)]) (auto simp: secure_def)
qed (use assms(2) in auto)

lemma secure_step1:
  assumes "lasting F" "(c, b) \<in> X"
  shows "keeps (secure X F) (handleSyncStep1 E c gen d v)"
proof -
  have start: "keeps (secure X F) (obtaining (guarded E k (begin_sync E c gen d v)) add_task)"
    if "tk_conn k = c" "tk_docKey k = d" for k
  proof (rule secure_after_task)
    have "ensures (secure X F) (begin_sync E c gen d v) (task_post X F k) (\<lambda>_. secure X F)"
      using secure_begin [OF assms, of gen d v] that by simp
    from secure_guarded [OF assms(1) this]
    show "ensures (secure X F) (guarded E k (begin_sync E c gen d v))
        (\<lambda>k' t. secure X F t \<and> task_ok (tr_log t) k' \<and> (tk_conn k' = tk_conn k \<and> tk_docKey k' = tk_docKey k)) (\<lambda>_. secure X F)" .
  next
    fix k'
    show "keeps (secure X (\<lambda>l. F l \<and> task_ok l k')) (add_task k')"
      unfolding add_task_def by (rule secure_tasks [where K = "{k'}"]) (auto split: if_splits)
  qed
  show ?thesis
    unfolding handleSyncStep1_def
    by (rule keeps_obtaining [OF keeps_connection],
        intro keeps_if keeps_andThen secure_protocol_failure lasting_undisturbed assms(1) secure_set_connection start) auto
qed

lemma secure_resume:
  assumes "lasting F"
  shows "keeps (secure X F) (resume_task E i)"
proof -
  have go: "keeps (secure X (reading F k)) (obtaining (guarded E k (task_segment E k)) (\<lambda>k'. change (\<lambda>t. t\<lparr> tr_tasks := (tr_tasks t)(i \<mapsto> k') \<rparr>)))"
    if "phase_ok (tk_docKey k) (tk_phase k)" for k
  proof (rule secure_after_task)
    have "ensures (secure X (reading F k)) (task_segment E k) (task_post X (reading F k) k) (\<lambda>_. secure X (reading F k))"
      by (rule secure_segment [OF assms that]) (auto simp: task_ok_def reading_def that)
    from secure_guarded [OF _ this] assms
    show "ensures (secure X (reading F k)) (guarded E k (task_segment E k))
        (\<lambda>k' t. secure X (reading F k) t \<and> task_ok (tr_log t) k' \<and> (tk_conn k' = tk_conn k \<and> tk_docKey k' = tk_docKey k))
        (\<lambda>_. secure X (reading F k))"
      by (simp add: lasting_rules)
  next
    fix k'
    show "keeps (secure X (\<lambda>l. reading F k l \<and> task_ok l k')) (change (\<lambda>t. t\<lparr> tr_tasks := (tr_tasks t)(i \<mapsto> k') \<rparr>))"
      by (rule secure_tasks [where K = "{k'}"]) (auto split: if_splits)
  qed
  have drop: "keeps (secure X F :: 'w sync_transport \<Rightarrow> bool) (andThen (set_connection c (\<lambda>n. n\<lparr> cn_syncingDocs := set_delete d (cn_syncingDocs n) \<rparr>))
      (change (\<lambda>t. t\<lparr> tr_tasks := (tr_tasks t)(i := None) \<rparr>)))" for c d
    by (intro keeps_andThen secure_set_connection secure_tasks [where K = "{}"]) (auto split: if_splits)
  show ?thesis
    unfolding keeps_def
  proof (intro allI impI)
    fix t :: "'w sync_transport"
    assume t: "secure X F t"
    show "secure X F (snd (resume_task E i t))"
    proof (cases "tr_tasks t i")
      case None
      then show ?thesis using t by (simp add: resume_task_def ask_obtaining skip_def give_def)
    next
      case (Some k)
      show ?thesis
      proof (cases "tk_phase k = Finishing")
        case True
        then show ?thesis using t drop Some by (simp add: resume_task_def ask_obtaining keeps_def)
      next
        case False
        have k: "task_ok (tr_log t) k" "log_ok (tr_log t)" "F (tr_log t)"
          using t Some by (auto simp: secure_def tasks_ok_def)
        then have "secure X (reading F k) t" using t False by (auto simp: secure_def intro: reading_task)
        moreover have "phase_ok (tk_docKey k) (tk_phase k)" using k(1) False by (simp add: task_ok_def)
        ultimately have "secure X (reading F k) (snd (resume_task E i t))"
          using go Some False by (simp add: resume_task_def ask_obtaining keeps_def)
        then show ?thesis by (rule secure_weaken) (auto simp: reading_def)
      qed
    qed
  qed
qed

section \<open>Updates\<close>

lemma ensures_append:
  assumes "lasting F" "(c, b) \<in> X"
  shows "ensures (secure X F) (append_authorized E c gen d m u)
    (\<lambda>(a, seq, duplicate). secure X (\<lambda>l. F l \<and> ac_boardId a = b \<and> (\<exists>h. messageIdToHex m = Inr h
        \<and> Appended c a d h u (Inr (seq, duplicate)) \<in> set l))) (\<lambda>_. secure X F)"
proof -
  let ?B = "\<lambda>a l. F l \<and> ac_boardId a = b"
  have base: "lasting (?B a)" for a by (intro lasting_rules assms(1))
  have put: "ensures (secure X (fresh F c True b a)) (serve (sv_appendUpdate (en_service E) a (ac_userId a) d h u) (Appended c a d h u))
      (\<lambda>r. secure X (\<lambda>l. ?B a l \<and> Appended c a d h u (Inr r) \<in> set l)) (\<lambda>_. secure X (?B a))" for a h
    by (rule ensures_serve_from [OF base]) (auto simp: fresh_def secure_def)
  show ?thesis
    unfolding append_authorized_def
  proof (rule ensures_obtaining [OF ensures_frame [OF assms]])
    fix a
    show "ensures (secure X (fresh F c True b a)) (obtaining (hex_of E m) (\<lambda>h. obtaining
          (serve (sv_appendUpdate (en_service E) a (ac_userId a) d h u) (Appended c a d h u)) (\<lambda>(seq, duplicate). give (a, seq, duplicate))))
        (\<lambda>(a, seq, duplicate). secure X (\<lambda>l. F l \<and> ac_boardId a = b \<and> (\<exists>h. messageIdToHex m = Inr h
          \<and> Appended c a d h u (Inr (seq, duplicate)) \<in> set l))) (\<lambda>_. secure X F)"
    proof (rule ensures_obtaining)
      show "ensures (secure X (fresh F c True b a)) (hex_of E m)
          (\<lambda>h t. secure X (fresh F c True b a) t \<and> messageIdToHex m = Inr h) (\<lambda>_. secure X F)"
        by (auto simp: ensures_def hex_of_def lift_def fresh_def elim!: secure_weaken split: sum.splits)
    next
      fix h
      show "ensures (\<lambda>t. secure X (fresh F c True b a) t \<and> messageIdToHex m = Inr h) (obtaining
          (serve (sv_appendUpdate (en_service E) a (ac_userId a) d h u) (Appended c a d h u)) (\<lambda>(seq, duplicate). give (a, seq, duplicate)))
          (\<lambda>(a, seq, duplicate). secure X (\<lambda>l. F l \<and> ac_boardId a = b \<and> (\<exists>h. messageIdToHex m = Inr h
            \<and> Appended c a d h u (Inr (seq, duplicate)) \<in> set l))) (\<lambda>_. secure X F)"
      proof (cases "messageIdToHex m = Inr h")
        case True
        have "ensures (secure X (fresh F c True b a)) (obtaining
            (serve (sv_appendUpdate (en_service E) a (ac_userId a) d h u) (Appended c a d h u)) (\<lambda>(seq, duplicate). give (a, seq, duplicate)))
            (\<lambda>(a, seq, duplicate). secure X (\<lambda>l. F l \<and> ac_boardId a = b \<and> (\<exists>h. messageIdToHex m = Inr h
              \<and> Appended c a d h u (Inr (seq, duplicate)) \<in> set l))) (\<lambda>_. secure X F)"
        proof (rule ensures_obtaining)
          show "ensures (secure X (fresh F c True b a)) (serve (sv_appendUpdate (en_service E) a (ac_userId a) d h u) (Appended c a d h u))
              (\<lambda>r. secure X (\<lambda>l. ?B a l \<and> Appended c a d h u (Inr r) \<in> set l)) (\<lambda>_. secure X F)"
            by (rule ensures_weaken [OF put]) (auto elim!: secure_weaken)
        qed (auto intro!: ensures_give elim!: secure_weaken simp: True)
        then show ?thesis by (rule ensures_weaken) auto
      qed (simp add: ensures_def)
    qed
  qed
qed

lemma secure_append_then:
  assumes "lasting F" "(c, b) \<in> X"
    "\<And>a seq duplicate. keeps (secure X (\<lambda>l. F l \<and> ac_boardId a = b \<and> (\<exists>h. messageIdToHex m = Inr h
        \<and> Appended c a d h u (Inr (seq, duplicate)) \<in> set l))) (k a seq duplicate)"
  shows "keeps (secure X F) (obtaining (append_authorized E c gen d m u) (\<lambda>(a, seq, duplicate). k a seq duplicate))"
proof (rule secure_obtaining)
  show "ensures (secure X F) (append_authorized E c gen d m u)
    (\<lambda>r. secure X (\<lambda>l. F l \<and> (case r of (a, seq, duplicate) \<Rightarrow> ac_boardId a = b \<and> (\<exists>h. messageIdToHex m = Inr h
        \<and> Appended c a d h u (Inr (seq, duplicate)) \<in> set l)))) (\<lambda>_. secure X F)"
    by (rule ensures_weaken [OF ensures_append [OF assms(1,2)]]) auto
  show "keeps (secure X (\<lambda>l. F l \<and> (case r of (a, seq, duplicate) \<Rightarrow> ac_boardId a = b \<and> (\<exists>h. messageIdToHex m = Inr h
        \<and> Appended c a d h u (Inr (seq, duplicate)) \<in> set l)))) (case r of (a, seq, duplicate) \<Rightarrow> k a seq duplicate)" for r
    using assms(3) by (cases r) simp
qed auto

lemma lasting_appended: "lasting F \<Longrightarrow> lasting (\<lambda>l. F l \<and> ac_boardId a = b \<and> (\<exists>h. messageIdToHex m = Inr h
    \<and> Appended c a d h u (Inr r) \<in> set l))"
  by (intro lasting_rules)

lemma secure_relay:
  assumes "lasting F" "(c, b) \<in> X"
  shows "keeps (secure X (\<lambda>l. F l \<and> ac_boardId a = b \<and> (\<exists>h. messageIdToHex m = Inr h \<and> Appended c a d h u (Inr r) \<in> set l)))
    (broadcastDocument E c d (UpdateFrame g d m u))"
proof (rule secure_broadcast [OF lasting_appended [OF assms(1)] assms(2)])
  fix l p
  assume "p \<noteq> c" "touched l p d" "\<exists>a. last_check l p = Some (Inr a) \<and> ac_boardId a = b"
    "F l \<and> ac_boardId a = b \<and> (\<exists>h. messageIdToHex m = Inr h \<and> Appended c a d h u (Inr r) \<in> set l)"
  then show "frame_legitimate l p (UpdateFrame g d m u)"
    unfolding frame_legitimate.simps by metis
qed

lemma secure_step2:
  assumes "lasting F" "(c, b) \<in> X"
  shows "keeps (secure X F) (handleSyncStep2 E c gen d u)"
proof -
  have run: "keeps (secure X F) (obtaining (append_authorized E c gen d m u) (\<lambda>(a, seq, duplicate).
      if duplicate then skip else broadcastDocument E c d (UpdateFrame (ac_generation a) d m u)))" for m
    by (intro secure_append_then [OF assms] keeps_if keeps_skip secure_relay assms)
  have failing: "keeps (secure X F) (case e of ServiceThrown NoNewInformation m \<Rightarrow> skip | _ \<Rightarrow> serviceFailure E c e m')" for e m'
    by (auto split: thrown.split sync_error_code.split intro!: keeps_skip secure_service_failure lasting_undisturbed assms(1))
  show ?thesis
    unfolding handleSyncStep2_def
    by ((rule run failing assms(1) lasting_undisturbed keep_rules secure_protocol_failure secure_set_connection secure_rate_limit
          secure_own_rates secure_budgets) | simp)+
qed

lemma secure_update:
  assumes "lasting F" "(c, b) \<in> X"
  shows "keeps (secure X F) (handleUpdate E c gen d m u)"
proof -
  have run: "keeps (secure X F) (obtaining (append_authorized E c gen d m u) (\<lambda>(a, seq, duplicate). chain
      [set_connection c (\<lambda>k. k\<lparr> cn_subscribedDocs := set_add d (cn_subscribedDocs k) \<rparr>),
       broadcastDocument E c d (UpdateFrame gen d m u), sendFrame E c (AckFrame (ac_generation a) d m seq)]))"
    by (intro secure_append_then [OF assms] keeps_chain_Cons keeps_chain_Nil secure_relay assms secure_subscribe secure_send
        lasting_undisturbed lasting_appended sendable_known [OF assms(2)]) (auto simp: touched_def)
  then show ?thesis
    unfolding handleUpdate_def rescue_def
    by (intro keeps_obtaining keeps_both secure_own_rates secure_budgets keeps_if secure_rate_limit keeps_attempt run keeps_throw
        secure_service_failure lasting_undisturbed assms(1))
qed

section \<open>Presence and profiles\<close>

lemma secure_registry: "keeps (secure X F) (set_registry r)"
  unfolding set_registry_def by (intro secure_change) (simp add: same_security_def conn_def)

lemma secure_awareness_doc: "keeps (secure X F) (set_awareness_doc c d p)"
  unfolding set_awareness_doc_def by (intro secure_set_connection) auto

lemma secure_frame_then:
  assumes "lasting F" "(c, b) \<in> X" "\<And>a. keeps (secure X (\<lambda>l. F l \<and> admitted_as l c a \<and> ac_boardId a = b)) (k a)"
  shows "keeps (secure X F) (obtaining (reauthorizeFrame E c gen edit) k)"
proof (rule secure_obtaining)
  show "ensures (secure X F) (reauthorizeFrame E c gen edit) (\<lambda>a. secure X (\<lambda>l. F l \<and> admitted_as l c a \<and> ac_boardId a = b))
      (\<lambda>_. secure X F)"
    by (rule ensures_weaken [OF ensures_frame [OF assms(1,2)]]) (auto elim!: secure_weaken simp: fresh_def)
qed (use assms(3) in auto)

lemma secure_presence_relay:
  "lasting F \<Longrightarrow> (c, b) \<in> X \<Longrightarrow> keeps (secure X F) (broadcastDocument E c d (AwarenessFrame g d i u))"
  by (rule secure_broadcast) auto

lemma secure_accept:
  assumes "lasting F" "(c, b) \<in> X"
  shows "keeps (secure X F) (accept_awareness E c gen d client u)"
  unfolding accept_awareness_def
  by (rule secure_frame_then [OF assms], intro keep_rules secure_registry secure_awareness_doc secure_presence_relay [OF _ assms(2)]
      lasting_rules assms(1))

lemma secure_awareness:
  assumes "lasting F" "(c, b) \<in> X"
  shows "keeps (secure X F) (handleAwareness E c gen d client u)"
  unfolding handleAwareness_def
  by (intro keep_rules secure_own_rates secure_budgets secure_rate_limit secure_accept [OF assms] secure_protocol_failure
      secure_service_failure lasting_undisturbed assms(1))

lemma secure_profile_updated:
  "lasting F \<Longrightarrow> (c, b) \<in> X \<Longrightarrow> keeps (secure X F) (sendProfileUpdated E c m r)"
  unfolding sendProfileUpdated_def
  by (intro keep_rules secure_send lasting_undisturbed sendable_known) auto

lemma secure_change_profile:
  assumes "lasting F" "(c, b) \<in> X" "\<And>l. F l \<Longrightarrow> admitted_as l c a0" "ac_boardId a0 = b"
  shows "keeps (secure X F) (change_profile E c au a0 m p)"
  unfolding change_profile_def
proof (rule secure_obtaining)
  show "ensures (secure X F) (call_reauthorize E c (access_identity_of a0 (profile_value p)) False)
      (\<lambda>a. secure X (\<lambda>l. F l \<and> admitted_as l c a \<and> ac_boardId a = b)) (\<lambda>_. secure X F)"
    by (rule ensures_weaken [OF ensures_check [OF assms(1,3) _ assms(4)]])
      (auto elim!: secure_weaken simp: fresh_def identity_of_def access_identity_of_def)
  fix a
  show "keeps (secure X (\<lambda>l. F l \<and> admitted_as l c a \<and> ac_boardId a = b)) (obtaining (connection c) (\<lambda>k.
       let identities = map (\<lambda>d. (d, documentIdentity (ac_boardId a) (ac_generation a) d)) (cn_awarenessDocs k)
       in obtaining (ask tr_awareness) (\<lambda>reg.
         case updateIdentitiesAtomically (en_lib E) (en_text E) (map snd identities) (the (cn_awarenessClientId k))
             (awareness_identity_of a) reg of
           None \<Rightarrow> throw (AwarenessThrown [])
         | Some (reg', updates) \<Rightarrow> chain
             [set_registry reg', set_access c au a,
              each (\<lambda>(d, i). case map_of updates i of None \<Rightarrow> skip
                 | Some u \<Rightarrow> broadcastAwarenessIncludingSender E c d u) identities,
              sendProfileUpdated E c m (ProfileAccepted p)])))"
    by (intro keep_rules secure_registry secure_set_access [OF assms(2)] secure_broadcast_all [OF _ assms(2)]
        secure_profile_updated [OF _ assms(2)] lasting_rules assms(1)) auto
qed auto

lemma secure_profile:
  assumes "lasting F" "(c, b) \<in> X"
  shows "keeps (secure X F) (handleProfileUpdate E c gen d m payload)"
proof -
  let ?G = "\<lambda>a l. F l \<and> admitted_as l c a \<and> ac_boardId a = b"
  let ?H = "\<lambda>x l. F l \<and> (\<forall>a. x = Some a \<longrightarrow> admitted_as l c a \<and> ac_boardId a = b)"
  have G: "lasting (?G a)" for a by (intro lasting_rules assms(1))
  have access: "ensures (secure X F) (obtaining (reauthorizeAccess E c False) (\<lambda>a. give (Some a))) (\<lambda>x. secure X (?H x)) (\<lambda>_. secure X F)"
    by (rule ensures_obtaining [OF ensures_access [OF assms]]) (auto intro!: ensures_give elim!: secure_weaken simp: fresh_def)
  have fail: "ensures (secure X F) (andThen (serviceFailure E c e m) (give None)) (\<lambda>x. secure X (?H x)) (\<lambda>_. secure X F)" for e
    by (intro ensures_secure_then secure_service_failure lasting_undisturbed assms(1) ensures_give) (auto elim!: secure_weaken)
  have current: "ensures (secure X F) (rescue (if bad then throw e else obtaining (reauthorizeAccess E c False) (\<lambda>a. give (Some a)))
      (\<lambda>e. andThen (serviceFailure E c e m) (give None))) (\<lambda>x. secure X (?H x)) (\<lambda>_. secure X F)" for bad e
    unfolding rescue_def
    by (rule ensures_attempt [where F = "\<lambda>_. secure X F"]) (auto intro!: ensures_if access ensures_throw fail)
  have after: "keeps (secure X (?G a)) (obtaining (both (profile_rate c) (consumeProfileBudget c)) (\<lambda>ok.
      if \<not> ok then closeForRateLimit E c ''Profile update rate exceeded'' m
      else (case requested_profile E payload of
          None \<Rightarrow> sendProfileUpdated E c (the m) (ProfileRejected (js ''Profile is invalid''))
        | Some p \<Rightarrow> rescue (change_profile E c au a (the m) p)
            (\<lambda>e. case e of
               AwarenessThrown _ \<Rightarrow> sendProfileUpdated E c (the m) (ProfileRejected (js ''Profile awareness could not be updated''))
             | _ \<Rightarrow> serviceFailure E c e m))))" if "ac_boardId a = b" for a au
    by (intro keep_rules secure_own_rates secure_budgets secure_rate_limit lasting_undisturbed secure_profile_updated [OF G assms(2)]
        secure_change_profile [OF G assms(2)] secure_service_failure G) (simp_all add: that)
  have rest: "keeps (secure X (?H x)) (case x of None \<Rightarrow> skip | Some a \<Rightarrow> obtaining (both (profile_rate c) (consumeProfileBudget c)) (\<lambda>ok.
      if \<not> ok then closeForRateLimit E c ''Profile update rate exceeded'' m
      else (case requested_profile E payload of
          None \<Rightarrow> sendProfileUpdated E c (the m) (ProfileRejected (js ''Profile is invalid''))
        | Some p \<Rightarrow> rescue (change_profile E c au a (the m) p)
            (\<lambda>e. case e of
               AwarenessThrown _ \<Rightarrow> sendProfileUpdated E c (the m) (ProfileRejected (js ''Profile awareness could not be updated''))
             | _ \<Rightarrow> serviceFailure E c e m))))" for x au
  proof (cases x)
    case None
    then show ?thesis by (simp add: keeps_skip)
  next
    case (Some a)
    show ?thesis
    proof (cases "ac_boardId a = b")
      case True
      then show ?thesis using after [OF True] by (simp add: Some)
    next
      case False
      then show ?thesis by (auto simp: Some keeps_def secure_def)
    qed
  qed
  show ?thesis
    unfolding handleProfileUpdate_def Let_def
    by (rule keeps_obtaining [OF keeps_connection], intro keeps_if secure_protocol_failure lasting_undisturbed assms(1),
        rule secure_obtaining [OF current rest]) auto
qed

section \<open>Messages\<close>

lemma secure_dispatch:
  assumes "lasting F" "(c, b) \<in> X"
  shows "keeps (secure X F) (dispatchAuthenticated E c f)"
proof -
  have failing: "keeps (secure X F) (protocolFailure E c m)" for m
    by (intro secure_protocol_failure lasting_undisturbed assms(1))
  show ?thesis
    by (cases f) (simp_all add: failing secure_step1 [OF assms] secure_step2 [OF assms] secure_update [OF assms]
        secure_awareness [OF assms] secure_profile [OF assms])
qed

lemma secure_push_chunk: "keeps (secure X F) (push_chunk E c f)"
  unfolding push_chunk_def by (intro keep_rules secure_set_connection) auto

lemma secure_chunk:
  assumes "lasting F" "(c, b) \<in> X"
  shows "keeps (secure X F) (handle_chunk E c au f)"
  unfolding handle_chunk_def decode_frame_def
  by (intro keep_rules secure_push_chunk secure_dispatch [OF assms] secure_protocol_failure lasting_undisturbed assms(1))

lemma secure_release_pending: "keeps (secure X F) (releasePendingAdmission c)"
  unfolding releasePendingAdmission_def
  by (intro keep_rules secure_set_connection secure_change) (auto simp: same_security_def conn_def)

lemma secure_allocate: "keeps (secure X F) (allocateAwarenessClientId E)"
  unfolding allocateAwarenessClientId_def by (intro keep_rules secure_change) (auto simp: same_security_def conn_def)

lemma secure_join:
  assumes "(c, b) \<in> X"
  shows "keeps (secure X F) (join_board b c)"
  unfolding join_board_def
proof (rule keeps_change)
  fix t :: "'a sync_transport"
  assume t: "secure X F t"
  let ?t = "t\<lparr> tr_boards := (tr_boards t)(b \<mapsto> set_add c (case tr_boards t b of None \<Rightarrow> [] | Some cs \<Rightarrow> cs)) \<rparr>"
  have cn: "conn ?t p = conn t p" for p by (simp add: conn_def)
  have at: "at_board ?t p q = at_board t p q" for p q by (simp add: at_board_def cn)
  have "at_board t c b" using t assms by (auto simp: secure_def)
  then have "boards_ok ?t"
    using t unfolding secure_def boards_ok_def at by (cases "tr_boards t b") (auto simp: set_add_def split: if_splits)
  then show "secure X F ?t"
    using t unfolding secure_def by (auto simp: principal_ok_def subscriptions_ok_def tasks_ok_def fresh_numbers_def cn at)
qed

text \<open>A connection that is not authenticated, is and the log says as whom.\<close>

definition newcomer :: "nat \<Rightarrow> 'w sync_transport \<Rightarrow> bool" where
  "newcomer c t \<longleftrightarrow> c \<in> dom (tr_heap t) \<and> cn_authenticated (conn t c) = None"

lemma secure_newcomer:
  assumes "ac_boardId (au_access au) = b"
  shows "ensures (\<lambda>t. secure X (\<lambda>l. F l \<and> admitted_as l c (au_access au)) t \<and> newcomer c t)
    (set_connection c (\<lambda>k. k\<lparr> cn_authenticated := Some au \<rparr>))
    (\<lambda>_. secure (insert (c, b) X) (\<lambda>l. F l \<and> admitted_as l c (au_access au))) (\<lambda>_. secure X F)"
  unfolding ensures_def set_connection_def change_def
proof (intro allI impI)
  fix t :: "'w sync_transport"
  let ?F = "\<lambda>l. F l \<and> admitted_as l c (au_access au)"
  assume t: "secure X ?F t \<and> newcomer c t"
  let ?f = "\<lambda>k. k\<lparr> cn_authenticated := Some au \<rparr>"
  let ?t = "t\<lparr> tr_heap := (tr_heap t)(c := map_option ?f (tr_heap t c)) \<rparr>"
  have cn: "conn ?t p = (if p = c then ?f (conn t p) else conn t p)" for p
    using t by (simp add: conn_update newcomer_def domIff)
  have at: "at_board ?t p q \<longleftrightarrow> at_board t p q \<or> p = c \<and> q = b" for p q
    using t assms by (auto simp: at_board_def cn newcomer_def)
  have "principal_ok ?t" using t unfolding secure_def principal_ok_def cn by auto
  moreover have "subscriptions_ok ?t" using t unfolding secure_def subscriptions_ok_def cn by auto
  moreover have "fresh_numbers ?t" using t unfolding secure_def fresh_numbers_def by (auto simp: dom_def split: if_splits)
  ultimately have "secure (insert (c, b) X) ?F ?t"
    using t unfolding secure_def by (auto simp: boards_ok_def tasks_ok_def at)
  then show "case (Inr (), ?t) of (Inl e, s) \<Rightarrow> secure X F s | (Inr x, s) \<Rightarrow> secure (insert (c, b) X) ?F s" by simp
qed

lemma secure_authenticate:
  assumes "lasting F"
  shows "ensures (\<lambda>t. secure X F t \<and> newcomer c t) (authenticate_connection E c ticket gen mn mx caps)
    (\<lambda>_. secure X F) (\<lambda>_. secure X F)"
proof -
  let ?F = "\<lambda>au l. F l \<and> admitted_as l c (au_access au)"
  have F: "lasting (?F au)" for au by (intro lasting_rules assms)
  have ask: "ensures (\<lambda>t. secure X F t \<and> newcomer c t) (serve (sv_authenticate (en_service E) ticket gen mn mx caps) (Admitted c))
      (\<lambda>au t. secure X (?F au) t \<and> newcomer c t) (\<lambda>_. secure X F)"
    unfolding ensures_def
  proof (intro allI impI)
    fix t :: "'w sync_transport"
    assume t: "secure X F t \<and> newcomer c t"
    let ?s = "serve (sv_authenticate (en_service E) ticket gen mn mx caps) (Admitted c) :: ('w, authenticated_sync) action"
    have "ensures (secure X F) ?s (\<lambda>au. secure X (\<lambda>l. F l \<and> Admitted c (Inr au) \<in> set l)) (\<lambda>_. secure X F)"
      by (rule ensures_serve [OF assms]) auto
    moreover obtain r s where run: "?s t = (r, s)" by (cases "?s t")
    ultimately have "case r of Inl e \<Rightarrow> secure X F s | Inr au \<Rightarrow> secure X (\<lambda>l. F l \<and> Admitted c (Inr au) \<in> set l) s"
      using t by (auto simp: ensures_def)
    then have "case r of Inl e \<Rightarrow> secure X F s | Inr au \<Rightarrow> secure X (?F au) s"
      by (cases r) (auto elim!: secure_weaken simp: admitted_as_def same_principal_def)
    moreover have "newcomer c s"
      using t run by (auto simp: serve_def newcomer_def conn_def split: prod.splits)
    ultimately show "case ?s t of (Inl e, s) \<Rightarrow> secure X F s | (Inr au, s) \<Rightarrow> secure X (?F au) s \<and> newcomer c s"
      by (cases r) (simp_all add: run)
  qed
  have rest: "keeps (secure (insert (c, ac_boardId (au_access au)) X) (?F au)) (obtaining (allocateAwarenessClientId E) (\<lambda>i. chain
           [set_connection c (\<lambda>k. k\<lparr> cn_awarenessClientId := Some i \<rparr>),
            set_connection c (\<lambda>k. k\<lparr> cn_authTimer := False \<rparr>),
            releasePendingAdmission c,
            join_board (ac_boardId (au_access au)) c,
            sendFrame E c (ReadyFrame (ac_generation (au_access au)) (ac_schemaVersion (au_access au)) (au_capabilities au) i
              (ac_permissions (au_access au)))]))" for au
    by (intro keep_rules secure_allocate secure_set_connection secure_release_pending secure_join secure_send lasting_undisturbed F
        sendable_known) auto
  have enter: "ensures (\<lambda>t. secure X (?F au) t \<and> newcomer c t) (andThen (set_connection c (\<lambda>k. k\<lparr> cn_authenticated := Some au \<rparr>))
      (obtaining (allocateAwarenessClientId E) (\<lambda>i. chain
           [set_connection c (\<lambda>k. k\<lparr> cn_awarenessClientId := Some i \<rparr>),
            set_connection c (\<lambda>k. k\<lparr> cn_authTimer := False \<rparr>),
            releasePendingAdmission c,
            join_board (ac_boardId (au_access au)) c,
            sendFrame E c (ReadyFrame (ac_generation (au_access au)) (ac_schemaVersion (au_access au)) (au_capabilities au) i
              (ac_permissions (au_access au)))]))) (\<lambda>_. secure X F) (\<lambda>_. secure X F)" for au
    unfolding andThen_def [of "set_connection c (\<lambda>k. k\<lparr> cn_authenticated := Some au \<rparr>)"]
    by (rule ensures_obtaining [OF secure_newcomer [OF refl]], rule ensures_weaken [OF ensures_keeps [OF rest]])
      (auto elim!: secure_weaken)
  have closing: "keeps (secure X F) (socket_close c n m)" for n m
    by (intro secure_socket_close lasting_undisturbed assms)
  then have closing': "ensures (\<lambda>t. secure X F t \<and> newcomer c t) (socket_close c n m) (\<lambda>_. secure X F) (\<lambda>_. secure X F)" for n m
    by (rule ensures_weaken [OF ensures_keeps]) auto
  show ?thesis
    unfolding authenticate_connection_def rescue_def
    by (intro ensures_if closing', rule ensures_attempt, rule ensures_obtaining [OF ask enter])
      (auto intro!: ensures_throw ensures_keeps [OF closing])
qed

text \<open>A connection that exists goes on to exist while a message is counted.\<close>

lemma exists_set_connection: "keeps (\<lambda>t. c \<in> dom (tr_heap t)) (set_connection d f)"
  unfolding set_connection_def by (rule keeps_change) auto

lemma exists_inbound: "keeps (\<lambda>t. c \<in> dom (tr_heap t)) (consume_inbound d n)"
  unfolding consume_inbound_def frame_rate_def own_rate_def shared_rate_def
  by (intro keep_rules exists_set_connection keeps_change) simp_all

lemma secure_handle_frame:
  assumes "lasting F"
  shows "ensures (\<lambda>t. secure X F t \<and> c \<in> dom (tr_heap t)) (handle_frame E c n f) (\<lambda>_. secure X F) (\<lambda>_. secure X F)"
  unfolding ensures_def handle_frame_def connection_def ask_obtaining
proof (intro allI impI)
  fix t :: "'w sync_transport"
  assume t: "secure X F t \<and> c \<in> dom (tr_heap t)"
  let ?old = "\<lambda>au. case f of
            AuthFrame ticket g mn mx caps \<Rightarrow> protocolFailure E c (js ''AUTH cannot be repeated'')
          | UpdateFrame g d m u \<Rightarrow>
              if max_chunk_payload_bytes < n then protocolFailure E c (js ''Large UPDATE frames must use CHUNK'')
              else dispatchAuthenticated E c f
          | ChunkFrame g \<Rightarrow> handle_chunk E c au g
          | _ \<Rightarrow> dispatchAuthenticated E c f"
  let ?new = "case f of AuthFrame ticket g mn mx caps \<Rightarrow> authenticate_connection E c ticket g mn mx caps
               | _ \<Rightarrow> protocolFailure E c (js ''AUTH must be the first frame'')"
  have failing: "keeps (secure Y F) (protocolFailure E c m)" for Y m
    by (intro secure_protocol_failure lasting_undisturbed assms)
  show "case (case cn_authenticated (conn t c) of None \<Rightarrow> ?new | Some au \<Rightarrow> ?old au) t of
      (Inl e, s) \<Rightarrow> secure X F s | (Inr x, s) \<Rightarrow> secure X F s"
  proof (cases "cn_authenticated (conn t c)")
    case None
    have "ensures (\<lambda>t. secure X F t \<and> newcomer c t) ?new (\<lambda>_. secure X F) (\<lambda>_. secure X F)"
      by (cases f) (auto intro: secure_authenticate [OF assms] ensures_weaken [OF ensures_keeps [OF failing]])
    moreover have "newcomer c t" using None t by (simp add: newcomer_def)
    ultimately show ?thesis using t None by (simp add: ensures_def)
  next
    case (Some au)
    let ?X = "insert (c, ac_boardId (au_access au)) X"
    have in_X: "(c, ac_boardId (au_access au)) \<in> ?X" by simp
    have "keeps (secure ?X F) (?old au)"
      by (cases f) (auto intro!: failing secure_chunk [OF assms in_X] secure_dispatch [OF assms in_X] simp del: dispatchAuthenticated.simps)
    then have "ensures (secure ?X F) (?old au) (\<lambda>_. secure X F) (\<lambda>_. secure X F)"
      by (rule ensures_weaken [OF ensures_keeps]) (auto elim!: secure_weaken)
    moreover have "secure ?X F t" using t Some by (auto simp: secure_def at_board_def)
    ultimately show ?thesis using Some by (simp add: ensures_def)
  qed
qed

lemma secure_message:
  assumes "lasting F"
  shows "ensures (\<lambda>t. secure X F t \<and> c \<in> dom (tr_heap t)) (onMessage E c binary b) (\<lambda>_. secure X F) (\<lambda>_. secure X F)"
proof -
  have quietly: "ensures (\<lambda>t. secure X F t \<and> c \<in> dom (tr_heap t)) m (\<lambda>_. secure X F) (\<lambda>_. secure X F)"
    if "keeps (secure X F) m" for m :: "('w, unit) action"
    by (rule ensures_weaken [OF ensures_keeps [OF that]]) auto
  have count: "keeps (\<lambda>t. secure X F t \<and> c \<in> dom (tr_heap t)) (consume_inbound c k :: ('w, bool) action)" for k
    by (rule keeps_conj [OF secure_budgets(1) exists_inbound])
  have failing: "keeps (secure X F) (protocolFailure E c m)" for m
    by (intro secure_protocol_failure lasting_undisturbed assms)
  have limited: "keeps (secure X F) (closeForRateLimit E c m i)" for m i
    by (intro secure_rate_limit lasting_undisturbed assms)
  have rest: "ensures (\<lambda>t. secure X F t \<and> c \<in> dom (tr_heap t)) (if \<not> ok then closeForRateLimit E c ''Inbound Board sync budget exceeded'' None
      else (case decodeBoardFrame (en_lib E) b of Inl e \<Rightarrow> protocolFailure E c (en_decodeMessage E b e)
        | Inr f \<Rightarrow> handle_frame E c (length b) f)) (\<lambda>_. secure X F) (\<lambda>_. secure X F)" for ok
    by (cases "decodeBoardFrame (en_lib E) b") (auto intro!: quietly failing limited secure_handle_frame [OF assms])
  have "ensures (\<lambda>t. secure X F t \<and> c \<in> dom (tr_heap t)) (consume_inbound c (int (length b)) :: ('w, bool) action)
      (\<lambda>_ t. secure X F t \<and> c \<in> dom (tr_heap t)) (\<lambda>_. secure X F)"
    by (rule ensures_weaken [OF ensures_keeps [OF count]]) auto
  from ensures_obtaining [OF this rest] show ?thesis
    unfolding onMessage_def by (auto intro!: quietly failing)
qed

section \<open>Ends and hooks\<close>

lemma secure_drop_boards:
  assumes "\<And>t b cs. tr_boards (f t) b = Some cs \<Longrightarrow> \<exists>ds. tr_boards t b = Some ds \<and> set cs \<subseteq> set ds"
    "\<And>t. tr_heap (f t) = tr_heap t \<and> tr_tasks (f t) = tr_tasks t \<and> tr_log (f t) = tr_log t \<and> tr_next (f t) = tr_next t"
  shows "keeps (secure X F) (change f)"
proof (rule keeps_change)
  fix t :: "'a sync_transport"
  assume t: "secure X F t"
  have cn: "conn (f t) c = conn t c" for c using assms(2) by (simp add: conn_def)
  then have at: "at_board (f t) c b = at_board t c b" for c b by (simp add: at_board_def)
  have "boards_ok (f t)"
    using t assms(1) unfolding secure_def boards_ok_def at by (metis subsetD)
  then show "secure X F (f t)"
    using t assms(2) unfolding secure_def principal_ok_def subscriptions_ok_def tasks_ok_def fresh_numbers_def cn at by simp
qed

lemma set_delete_members: "set (set_delete x xs) = set xs - {x}"
  by (auto simp: set_delete_def)

lemma ensures_leave:
  "ensures (secure X F) (leave_board b c) (\<lambda>ps. secure (X \<union> (\<lambda>p. (p, b)) ` set ps) F) (\<lambda>_. secure X F)"
  unfolding ensures_def leave_board_def ask_obtaining
proof (intro allI impI)
  fix t :: "'a sync_transport"
  assume t: "secure X F t"
  show "case (case tr_boards t b of None \<Rightarrow> give [] | Some cs \<Rightarrow> let rest = set_delete c cs
         in andThen (change (\<lambda>t. t\<lparr> tr_boards := (tr_boards t)(b := if rest = [] then None else Some rest) \<rparr>)) (give rest)) t
      of (Inl e, s) \<Rightarrow> secure X F s | (Inr ps, s) \<Rightarrow> secure (X \<union> (\<lambda>p. (p, b)) ` set ps) F s"
  proof (cases "tr_boards t b")
    case None
    then show ?thesis using t by (simp add: give_def)
  next
    case (Some cs)
    let ?rest = "set_delete c cs"
    let ?X = "X \<union> (\<lambda>p. (p, b)) ` set ?rest"
    let ?f = "\<lambda>t. t\<lparr> tr_boards := (tr_boards t)(b := if ?rest = [] then None else Some ?rest) \<rparr>"
    have "\<forall>p \<in> set cs. at_board t p b" using t Some by (auto simp: secure_def boards_ok_def)
    then have s: "secure ?X F t" using t by (auto simp: secure_def set_delete_members)
    define u where "u = ?f t"
    have cn: "conn u p = conn t p" for p by (simp add: u_def conn_def)
    have at: "at_board u = at_board t" by (simp add: fun_eq_iff at_board_def cn)
    have "boards_ok u"
      using t Some unfolding secure_def boards_ok_def at by (auto simp: u_def set_delete_members split: if_splits)
    moreover have "tr_log u = tr_log t" "tr_tasks u = tr_tasks t" "tr_heap u = tr_heap t" "tr_next u = tr_next t"
      by (simp_all add: u_def)
    ultimately have "secure ?X F u"
      using s unfolding secure_def by (simp add: principal_ok_def subscriptions_ok_def tasks_ok_def fresh_numbers_def cn at)
    then show ?thesis by (simp add: Some change_then give_def u_def Let_def)
  qed
qed

lemma secure_remove_presence:
  assumes "lasting F" "\<And>p. p \<in> set ps \<Longrightarrow> (p, b) \<in> X"
  shows "keeps (secure X F) (remove_presence E c a ps d)"
proof -
  have peer: "keeps (secure X F) (obtaining (connection p) (\<lambda>n. if d \<notin> set (cn_subscribedDocs n) then skip
      else obtaining (authorizeOutbound E p) (\<lambda>ok. if ok then sendFrame E p (AwarenessFrame g d i u) else skip)))"
    if "p \<in> set ps" for p g i u
  proof (rule secure_known_connection [OF assms(2) [OF that]])
    fix k and au :: authenticated_sync
    let ?G = "\<lambda>l. F l \<and> (\<forall>d \<in> set (cn_subscribedDocs k). touched l p d) \<and> admitted_as l p (au_access au)"
    have send: "keeps (secure X (cleared ok ?G p b)) (if ok then sendFrame E p (AwarenessFrame g d i u) else skip)"
      if "d \<in> set (cn_subscribedDocs k)" for ok
      using assms(1) that
      by (intro keep_rules secure_send undisturbed_cleared lasting_rules sendable_known [OF assms(2) [OF \<open>p \<in> set ps\<close>]])
        (auto simp: cleared_def)
    show "keeps (secure X ?G) (if d \<notin> set (cn_subscribedDocs k) then skip
        else obtaining (authorizeOutbound E p) (\<lambda>ok. if ok then sendFrame E p (AwarenessFrame g d i u) else skip))"
      by (rule keeps_if, rule keeps_skip, rule secure_outbound_then [OF _ assms(2) [OF \<open>p \<in> set ps\<close>]],
          intro lasting_rules assms(1), rule send, simp)
  qed
  show ?thesis
    unfolding remove_presence_def Let_def
    by (rule keeps_obtaining [OF keeps_connection], rule keeps_obtaining [OF keeps_ask])
      (auto intro!: keeps_andThen secure_registry keeps_skip keeps_each peer split: option.split)
qed

lemma secure_close_handler:
  assumes "lasting F"
  shows "keeps (secure X F) (onClose E c)"
proof -
  have plain: "keeps (secure X F) (change f)" if "\<And>t. same_security t (f t)" for f :: "'w sync_transport \<Rightarrow> 'w sync_transport"
    by (rule secure_change [OF that])
  have leave: "keeps (secure X F) (obtaining (leave_board b c) (\<lambda>ps. each (remove_presence E c a ps) ds))" for b a ds
    by (rule secure_obtaining [OF ensures_leave]) (auto intro!: keeps_each secure_remove_presence [where b = b] assms)
  show ?thesis
    unfolding onClose_def releaseConnectionAdmission_def
    by ((rule leave plain secure_release_pending secure_set_connection keep_rules)
        | simp add: same_security_def conn_def split: option.split)+
qed

lemma secure_disconnect: "lasting F \<Longrightarrow> keeps (secure X F) (disconnectMatching E p code reason)"
  unfolding disconnectMatching_def by (intro keep_rules secure_closing lasting_undisturbed)

lemma secure_asset:
  assumes "lasting F"
  shows "keeps (secure X F) (broadcastAssetReady E e)"
proof -
  have peer: "keeps (secure Y F) (obtaining (connection c) (\<lambda>k. if \<not> access_matches (\<lambda>a. ac_generation a = as_generation e) k \<or> ws_state k \<noteq> WsOpen then skip
     else obtaining (authorizeOutbound E c) (\<lambda>ok.
       if ok then sendFrame E c (ControlFrame (as_generation e) asset_ready None None (asset_payload e)) else skip)))"
    if "(c, b) \<in> Y" for c b Y
  proof -
    have send: "keeps (secure Y (cleared ok F c b)) (if ok then sendFrame E c (ControlFrame g n None None p) else skip)" for ok g n p
      by (intro keep_rules secure_send undisturbed_cleared assms sendable_known [OF that]) simp
    show ?thesis
      by (rule keeps_obtaining [OF keeps_connection], rule keeps_if, rule keeps_skip, rule secure_outbound_then [OF assms that], rule send)
  qed
  show ?thesis
    unfolding broadcastAssetReady_def by (intro secure_peers peer [where b = "as_boardId e"]) auto
qed

lemma secure_audit:
  assumes "lasting F"
  shows "keeps (secure X F) (auditConnections E)"
proof -
  have "keeps (secure X F) (obtaining (connection c) (\<lambda>k. case cn_authenticated k of None \<Rightarrow> skip
     | Some au \<Rightarrow>
         if ws_state k \<noteq> WsOpen then skip
         else obtaining (authorizeOutbound E c) (\<lambda>ok.
           if \<not> ok then skip
           else obtaining (connection c) (\<lambda>k'.
             if ac_permissions (au_access au) \<noteq> ac_permissions (au_access (the (cn_authenticated k')))
             then closeWithControl E c permission_changed close_forbidden (js ''Board permissions changed'') None
               (js ''Board permissions changed'') []
             else skip))))" for c
    by (rule secure_connection)
      (auto intro!: keeps_skip keeps_if secure_outbound_then assms keeps_obtaining [OF keeps_connection] secure_closing undisturbed_cleared)
  then show ?thesis
    unfolding auditConnections_def by (intro keeps_obtaining [OF keeps_ask] keeps_each)
qed

lemma secure_shutdown:
  assumes "lasting F"
  shows "keeps (secure X F) (close_transport E)"
proof -
  have fin: "keeps (secure X F) (change (\<lambda>t. t\<lparr> tr_connections := [], tr_boards := Map.empty, tr_ipConnections := Map.empty,
          tr_ipPending := Map.empty, tr_pending := 0, tr_frameRates := [], tr_byteRates := [], tr_updateRates := [],
          tr_updateByteRates := [], tr_awarenessRates := [], tr_awarenessByteRates := [], tr_profileRates := [],
          tr_awareness := Map.empty,
          tr_world := (if en_enabled E then sv_close (en_service E) (tr_world t) else tr_world t) \<rparr>))"
    by (rule secure_drop_boards) auto
  have flag: "keeps (secure X F) (change (\<lambda>t. t\<lparr> tr_closed := True \<rparr>))"
    by (rule secure_drop_boards) auto
  show ?thesis
    unfolding close_transport_def
    by ((rule fin flag secure_set_connection secure_terminate lasting_undisturbed assms keep_rules) | simp)+
qed

section \<open>All events\<close>

lemma secure_arrival: "keeps (secure X F) (onConnection ip)"
  unfolding onConnection_def
proof (rule keeps_change)
  fix t :: "'a sync_transport"
  assume t: "secure X F t"
  define u where "u = (let c = tr_next t in t\<lparr>
     tr_heap := (tr_heap t)(c \<mapsto> new_connection ip (tr_now t)), tr_next := Suc c,
     tr_connections := tr_connections t @ [c], tr_ipConnections := increment ip (tr_ipConnections t),
     tr_ipPending := increment ip (tr_ipPending t), tr_pending := tr_pending t + 1 \<rparr>)"
  have new: "tr_heap t (tr_next t) = None"
    using t by (auto simp: secure_def fresh_numbers_def domIff)
  have cn: "cn_authenticated (conn u c) = cn_authenticated (conn t c)" "cn_subscribedDocs (conn u c) = cn_subscribedDocs (conn t c)" for c
    using new by (auto simp: u_def Let_def conn_def no_connection_def new_connection_def)
  have at: "at_board u = at_board t" by (simp add: fun_eq_iff at_board_def cn)
  have same: "tr_log u = tr_log t" "tr_tasks u = tr_tasks t" "tr_boards u = tr_boards t" by (simp_all add: u_def Let_def)
  have "fresh_numbers u" using t by (auto simp: secure_def fresh_numbers_def u_def Let_def less_Suc_eq)
  then show "secure X F u"
    using t by (simp add: secure_def principal_ok_def boards_ok_def subscriptions_ok_def tasks_ok_def cn at same)
qed

lemma secure_upgrade: "lasting F \<Longrightarrow> keeps (secure X F) (upgradeHandler E rq)"
  unfolding upgradeHandler_def rejectUpgrade_def by (intro keep_rules secure_arrival secure_note) simp_all

lemma secure_alive:
  assumes "ensures (\<lambda>t. secure X F t \<and> c \<in> dom (tr_heap t)) m (\<lambda>_. secure X F) (\<lambda>_. secure X F)"
  shows "keeps (secure X F) (if_alive c m)"
  unfolding keeps_def if_alive_def ask_obtaining
proof (intro allI impI)
  fix t :: "'a sync_transport"
  assume t: "secure X F t"
  show "secure X F (snd ((case tr_heap t c of None \<Rightarrow> skip | Some k \<Rightarrow> if ws_state k = WsClosed then skip else m) t))"
  proof (cases "tr_heap t c")
    case (Some k)
    then have "case m t of (Inl e, s) \<Rightarrow> secure X F s | (Inr x, s) \<Rightarrow> secure X F s"
      using assms t by (auto simp: ensures_def)
    then show ?thesis using t Some by (auto simp: skip_def give_def split: prod.splits sum.splits)
  qed (use t in \<open>simp add: skip_def give_def\<close>)
qed

lemma secure_alive_keeps: "keeps (secure X F) m \<Longrightarrow> keeps (secure X F) (if_alive c m)"
  unfolding if_alive_def by (intro keep_rules)

lemma secure_event:
  assumes "lasting F"
  shows "keeps (secure X F) (sync_event_action E ev)"
proof (cases ev)
  case (Message c binary b)
  then show ?thesis by (simp add: secure_alive secure_message [OF assms])
qed (simp_all only: sync_event_action.simps disconnectUserSockets_def disconnectSessionSockets_def removeLessonSocketMembership_def
   emitLessonStatus_def while_installed_def,
   (rule secure_upgrade secure_disconnect secure_asset secure_audit secure_shutdown secure_resume secure_close_handler secure_terminate
      secure_set_connection secure_change secure_alive_keeps lasting_undisturbed assms keep_rules
    | simp add: same_security_def conn_def)+)

lemma secure_new: "secure {} (\<lambda>_. True) (new_transport w now)"
  by (simp add: secure_def new_transport_def principal_ok_def boards_ok_def subscriptions_ok_def tasks_ok_def fresh_numbers_def
      conn_def no_connection_def new_connection_def)

theorem reachable_secure: "sync_reaches E t \<Longrightarrow> secure {} (\<lambda>_. True) t"
  by (erule sync_reaches_keeps [rotated 2]) (simp_all add: secure_new secure_event lasting_True)

lemma legitimate_log: "sync_reaches E t \<Longrightarrow> tr_log t = l1 @ e # l2 \<Longrightarrow> legitimate l1 e"
  using reachable_secure [of t] by (simp add: secure_def log_ok_def)

end

end
