(* ===== verification/Sync_Admission.thy ===== *)
theory Sync_Admission
  imports Sync_Events
begin

text \<open>
  The counters and identifiers of the board transport are exact in every reachable state: what it
  counts per address, in all and not yet authenticated, is what there is, no limit is exceeded,
  and no two connections have one presence identifier.
\<close>

section \<open>The invariant\<close>

text \<open>What the counters depend on of a connection: its address, whether it is pending, its identifier.\<close>

definition counted :: "sync_connection \<Rightarrow> jstr \<times> bool \<times> int option" where
  "counted k = (cn_ipKey k, cn_pendingAuth k, cn_awarenessClientId k)"

type_synonym counted_heap = "nat \<Rightarrow> (jstr \<times> bool \<times> int option) option"

definition ip_of :: "counted_heap \<Rightarrow> nat \<Rightarrow> jstr" where "ip_of h c = fst (the (h c))"
definition pending_of :: "counted_heap \<Rightarrow> nat \<Rightarrow> bool" where "pending_of h c = fst (snd (the (h c)))"
definition id_of :: "counted_heap \<Rightarrow> nat \<Rightarrow> int option" where "id_of h c = snd (snd (the (h c)))"

definition ips :: "counted_heap \<Rightarrow> nat list \<Rightarrow> jstr multiset" where
  "ips h cs = mset (map (ip_of h) cs)"

definition counters_ok :: "counted_heap \<Rightarrow> nat list \<Rightarrow> (jstr \<rightharpoonup> int) \<Rightarrow> (jstr \<rightharpoonup> int) \<Rightarrow> int \<Rightarrow> bool" where
  "counters_ok h cs ipc ipp pending \<longleftrightarrow>
     counts ipc (ips h cs) \<and> counts ipp (ips h (filter (pending_of h) cs)) \<and> pending = int (length (filter (pending_of h) cs))
     \<and> length cs \<le> max_connections \<and> pending \<le> max_pending_auth
     \<and> (\<forall>ip. int (count (ips h cs) ip) \<le> max_connections_per_ip)
     \<and> (\<forall>ip. int (count (ips h (filter (pending_of h) cs)) ip) \<le> max_pending_auth_per_ip)"

definition ids_ok :: "counted_heap \<Rightarrow> nat list \<Rightarrow> int list \<Rightarrow> bool" where
  "ids_ok h cs issued \<longleftrightarrow>
     (\<forall>c \<in> set cs. \<forall>i. id_of h c = Some i \<longrightarrow> i \<noteq> 0 \<and> i \<in> set issued \<and> (\<forall>d \<in> set cs. id_of h d = Some i \<longrightarrow> d = c))"

definition members_ok :: "counted_heap \<Rightarrow> nat list \<Rightarrow> nat \<Rightarrow> bool \<Rightarrow> bool" where
  "members_ok h cs next closed \<longleftrightarrow> distinct cs \<and> set cs \<subseteq> dom h \<and> (\<forall>c \<in> dom h. c < next)
     \<and> (if closed then cs = [] else \<forall>c \<in> dom h. pending_of h c \<longrightarrow> c \<in> set cs)"

definition counted_heap_of :: "'w sync_transport \<Rightarrow> counted_heap" where
  "counted_heap_of t c = map_option counted (tr_heap t c)"

definition admission_ok :: "'w sync_transport \<Rightarrow> bool" where
  "admission_ok t \<longleftrightarrow>
     counters_ok (counted_heap_of t) (tr_connections t) (tr_ipConnections t) (tr_ipPending t) (tr_pending t)
     \<and> ids_ok (counted_heap_of t) (tr_connections t) (tr_issuedIds t)
     \<and> members_ok (counted_heap_of t) (tr_connections t) (tr_next t) (tr_closed t)"

section \<open>Steps the counters do not see\<close>

named_theorems admission_keep \<open>actions that keep the counters and identifiers exact\<close>

definition same_counted :: "'w sync_transport \<Rightarrow> 'w sync_transport \<Rightarrow> bool" where
  "same_counted t t' \<longleftrightarrow> counted_heap_of t' = counted_heap_of t \<and> tr_connections t' = tr_connections t
     \<and> tr_ipConnections t' = tr_ipConnections t \<and> tr_ipPending t' = tr_ipPending t \<and> tr_pending t' = tr_pending t
     \<and> tr_issuedIds t' = tr_issuedIds t \<and> tr_next t' = tr_next t \<and> tr_closed t' = tr_closed t"

text \<open>The invariant, for connections that exist.\<close>

definition admission_with :: "nat set \<Rightarrow> 'w sync_transport \<Rightarrow> bool" where
  "admission_with D t \<longleftrightarrow> admission_ok t \<and> D \<subseteq> dom (counted_heap_of t)"

lemma admission_same: "same_counted t t' \<Longrightarrow> admission_with D t \<Longrightarrow> admission_with D t'"
  by (simp add: same_counted_def admission_ok_def admission_with_def)

lemma admission_change [admission_keep]:
  "(\<And>t. same_counted t (f t)) \<Longrightarrow> keeps (admission_with D) (change f)"
  using admission_same by (blast intro: keeps_change)

lemma counted_heap_update:
  "counted_heap_of (t\<lparr> tr_heap := (tr_heap t)(c := map_option f (tr_heap t c)) \<rparr>)
     = (counted_heap_of t)(c := map_option (counted \<circ> f) (tr_heap t c))"
  by (auto simp: counted_heap_of_def fun_eq_iff option.map_comp)

lemma admission_set_connection [admission_keep]:
  assumes "\<And>k. counted (f k) = counted k"
  shows "keeps (admission_with D) (set_connection c f)"
  unfolding set_connection_def
proof (rule admission_change)
  fix t :: "'b sync_transport"
  have "counted \<circ> f = counted" using assms by auto
  then show "same_counted t (t\<lparr> tr_heap := (tr_heap t)(c := map_option f (tr_heap t c)) \<rparr>)"
    by (simp add: same_counted_def counted_heap_update) (auto simp: counted_heap_of_def)
qed

lemma admission_effect [admission_keep]: "keeps (admission_with D) (record_effect e)"
  unfolding record_effect_def by (rule admission_change) (simp add: same_counted_def counted_heap_of_def fun_eq_iff)

lemma admission_serve [admission_keep]: "keeps (admission_with D) (serve op note)"
  unfolding keeps_def serve_def
  by (auto simp: Let_def split_beta intro: admission_same [rotated] simp: same_counted_def counted_heap_of_def fun_eq_iff)

lemmas admission_simps = counted_def same_counted_def counted_heap_of_def fun_eq_iff

section \<open>The handlers\<close>

lemma admission_socket_close [admission_keep]: "keeps (admission_with D) (socket_close c code reason)"
  unfolding socket_close_def by (intro keep_rules admission_keep) (simp add: admission_simps)

lemma admission_terminate [admission_keep]: "keeps (admission_with D) (socket_terminate c)"
  unfolding socket_terminate_def by (intro keep_rules admission_keep) (simp add: admission_simps)

lemma admission_is_open [admission_keep]: "keeps (admission_with D) (is_open c)"
  unfolding is_open_def by (intro keep_rules)

lemma admission_encode [admission_keep]: "keeps (admission_with D) (encode_frame E f)"
  unfolding encode_frame_def by (intro keep_rules)

lemma admission_send_encoded [admission_keep]:
  "keeps (admission_with D) (sendEncodedWithoutLimit E c f b)" "keeps (admission_with D) (sendEncoded E c f b)"
proof -
  show "keeps (admission_with D) (sendEncodedWithoutLimit E c f b)" for f b
    unfolding sendEncodedWithoutLimit_def by (intro keep_rules admission_keep) (simp add: admission_simps)
  then show "keeps (admission_with D) (sendEncoded E c f b)"
    unfolding sendEncoded_def by (intro keep_rules admission_keep)
qed

lemma admission_draw_chunk [admission_keep]: "keeps (admission_with D) (draw_chunk_id E)"
  unfolding draw_chunk_id_def by (intro keep_rules admission_keep) (simp add: admission_simps)

lemma admission_send_or [admission_keep]:
  "(\<And>c d. keeps (admission_with D) (failure c d)) \<Longrightarrow> keeps (admission_with D) (send_or failure E c f)"
  unfolding send_or_def by (intro keep_rules admission_keep)

lemma admission_closing [admission_keep]:
  "keeps (admission_with D) (closeWithControl E c code closeCode reason messageId detail metadata)"
  unfolding closeWithControl_def send_control_def by (intro keep_rules admission_keep)

lemma admission_protocol_failure [admission_keep]: "keeps (admission_with D) (protocolFailure E c detail)"
  unfolding protocolFailure_def by (intro keep_rules admission_keep)

lemma admission_send [admission_keep]: "keeps (admission_with D) (sendFrame E c f)"
  unfolding sendFrame_def by (intro admission_keep)

lemma admission_service_failure [admission_keep]: "keeps (admission_with D) (serviceFailure E c e messageId)"
  unfolding serviceFailure_def service_error_failure_def service_error_closing_def by (intro keep_rules admission_keep)

lemma admission_rate_limit [admission_keep]: "keeps (admission_with D) (closeForRateLimit E c reason messageId)"
  unfolding closeForRateLimit_def by (intro keep_rules admission_keep)

lemma admission_own_rates [admission_keep]:
  "keeps (admission_with D) (frame_rate c)" "keeps (admission_with D) (update_rate c)" "keeps (admission_with D) (awareness_rate c)"
  "keeps (admission_with D) (profile_rate c)"
  unfolding frame_rate_def update_rate_def awareness_rate_def profile_rate_def own_rate_def
  by (intro keep_rules admission_keep, simp add: admission_simps)+

lemma admission_shared_rate:
  "(\<And>r t. same_counted t (put r t)) \<Longrightarrow> keeps (admission_with D) (shared_rate get put key mx amount)"
  unfolding shared_rate_def by (intro keep_rules admission_keep)

lemma admission_budgets [admission_keep]:
  "keeps (admission_with D) (consume_inbound c n)" "keeps (admission_with D) (consumeUpdateBudget c n)"
  "keeps (admission_with D) (consumeAwarenessBudget c n)" "keeps (admission_with D) (consumeProfileBudget c)"
  unfolding consume_inbound_def consumeUpdateBudget_def consumeAwarenessBudget_def consumeProfileBudget_def principalRateKey_def
  by (intro keep_rules admission_keep admission_shared_rate, simp_all add: admission_simps)+

lemma admission_access [admission_keep]:
  "keeps (admission_with D) (reauthorizeAccess E c edit)" "keeps (admission_with D) (reauthorizeConnection E c edit)"
  "keeps (admission_with D) (reauthorizeFrame E c gen edit)" "keeps (admission_with D) (set_access c au a)"
  "keeps (admission_with D) (call_reauthorize E c i edit)"
  unfolding reauthorizeAccess_def call_reauthorize_def reauthorizeConnection_def reauthorizeFrame_def set_access_def
  by (intro keep_rules admission_keep, (simp add: admission_simps)?)+

lemma admission_outbound [admission_keep]: "keeps (admission_with D) (authorizeOutbound E c)"
  unfolding authorizeOutbound_def by (intro keep_rules admission_keep)

lemma admission_broadcasts [admission_keep]:
  "keeps (admission_with D) (send_to_peer E docKey f peer)" "keeps (admission_with D) (board_peers board)"
  "keeps (admission_with D) (broadcastDocument E sender docKey f)"
  "keeps (admission_with D) (broadcastAwarenessIncludingSender E sender docKey update)"
  unfolding broadcastDocument_def broadcastAwarenessIncludingSender_def send_to_peer_def board_peers_def
  by (intro keep_rules admission_keep)+

lemma admission_wait [admission_keep]:
  "keeps (admission_with D) (wait_for_capacity c since work)"
  unfolding wait_for_capacity_def by (intro keep_rules admission_keep)

lemma admission_start_wait [admission_keep]: "keeps (admission_with D) (start_wait c work)"
  unfolding start_wait_def by (intro keep_rules admission_keep)

lemma admission_flow [admission_keep]: "keeps (admission_with D) (send_flow_controlled E c f)"
  unfolding send_flow_controlled_def by (intro keep_rules admission_keep)

lemma admission_next_update [admission_keep]: "keeps (admission_with D) (next_update E k)"
  unfolding next_update_def by (intro keep_rules admission_keep)

lemma admission_send_state [admission_keep]: "keeps (admission_with D) (send_state E k)"
  unfolding send_state_def by (intro keep_rules admission_keep) (simp add: admission_simps)

lemma admission_segment [admission_keep]: "keeps (admission_with D) (task_segment E k)"
  unfolding task_segment_def by (intro keep_rules admission_keep)

lemma admission_guarded [admission_keep]: "keeps (admission_with D) m \<Longrightarrow> keeps (admission_with D) (guarded E k m)"
  unfolding guarded_def by (intro keep_rules admission_keep)

lemma admission_begin [admission_keep]: "keeps (admission_with D) (begin_sync E c gen docKey v)"
  unfolding begin_sync_def by (intro keep_rules admission_keep) (simp add: admission_simps)

lemma admission_add_task [admission_keep]: "keeps (admission_with D) (add_task k)"
  unfolding add_task_def by (intro keep_rules admission_keep) (simp add: admission_simps)

lemma admission_step1 [admission_keep]: "keeps (admission_with D) (handleSyncStep1 E c gen docKey v)"
  unfolding handleSyncStep1_def by (intro keep_rules admission_keep) (simp add: admission_simps)

lemma admission_resume [admission_keep]: "keeps (admission_with D) (resume_task E i)"
  unfolding resume_task_def by (intro keep_rules admission_keep) (simp_all add: admission_simps)

lemma admission_append [admission_keep]: "keeps (admission_with D) (append_authorized E c gen docKey messageId update)"
  unfolding append_authorized_def hex_of_def by (intro keep_rules admission_keep)

lemma admission_service_code [admission_keep]:
  "keeps (admission_with D) a \<Longrightarrow> keeps (admission_with D) b
     \<Longrightarrow> keeps (admission_with D) (case code of NoNewInformation \<Rightarrow> a | _ \<Rightarrow> b)"
  by (cases code) simp_all

lemma admission_step2 [admission_keep]: "keeps (admission_with D) (handleSyncStep2 E c gen docKey update)"
  unfolding handleSyncStep2_def by (intro keep_rules admission_keep) (simp add: admission_simps)

lemma admission_update [admission_keep]: "keeps (admission_with D) (handleUpdate E c gen docKey messageId update)"
  unfolding handleUpdate_def by (intro keep_rules admission_keep) (simp add: admission_simps)

lemma admission_registry [admission_keep]: "keeps (admission_with D) (set_registry r)"
  unfolding set_registry_def by (intro admission_keep) (simp add: admission_simps)

lemma admission_awareness_doc [admission_keep]: "keeps (admission_with D) (set_awareness_doc c docKey p)"
  unfolding set_awareness_doc_def by (intro admission_keep) (simp add: admission_simps)

lemma admission_accept [admission_keep]: "keeps (admission_with D) (accept_awareness E c gen docKey client update)"
  unfolding accept_awareness_def by (intro keep_rules admission_keep)

lemma admission_awareness [admission_keep]: "keeps (admission_with D) (handleAwareness E c gen docKey client update)"
  unfolding handleAwareness_def by (intro keep_rules admission_keep)

lemma admission_profile_updated [admission_keep]: "keeps (admission_with D) (sendProfileUpdated E c messageId r)"
  unfolding sendProfileUpdated_def by (intro keep_rules admission_keep)

lemma admission_change_profile [admission_keep]: "keeps (admission_with D) (change_profile E c au a messageId p)"
  unfolding change_profile_def by (intro keep_rules admission_keep)

lemma admission_profile [admission_keep]: "keeps (admission_with D) (handleProfileUpdate E c gen docKey messageId payload)"
  unfolding handleProfileUpdate_def by (intro keep_rules admission_keep)

lemma admission_dispatch [admission_keep]: "keeps (admission_with D) (dispatchAuthenticated E c f)"
  by (cases f) (simp_all add: admission_keep)

lemma admission_push_chunk [admission_keep]: "keeps (admission_with D) (push_chunk E c f)"
  unfolding push_chunk_def by (intro keep_rules admission_keep) (simp add: admission_simps)

lemma admission_chunk [admission_keep]: "keeps (admission_with D) (handle_chunk E c au f)"
  unfolding handle_chunk_def decode_frame_def by (intro keep_rules admission_keep)

lemma admission_leave [admission_keep]: "keeps (admission_with D) (leave_board board c)"
  unfolding leave_board_def by (intro keep_rules admission_keep) (simp add: admission_simps)

lemma admission_join [admission_keep]: "keeps (admission_with D) (join_board board c)"
  unfolding join_board_def by (intro admission_keep) (simp add: admission_simps)

lemma admission_presence [admission_keep]: "keeps (admission_with D) (remove_presence E c a peers docKey)"
  unfolding remove_presence_def by (intro keep_rules admission_keep)

lemma admission_disconnect [admission_keep]: "keeps (admission_with D) (disconnectMatching E p code reason)"
  unfolding disconnectMatching_def by (intro keep_rules admission_keep)

lemma admission_asset [admission_keep]: "keeps (admission_with D) (broadcastAssetReady E e)"
  unfolding broadcastAssetReady_def by (intro keep_rules admission_keep)

lemma admission_audit [admission_keep]: "keeps (admission_with D) (auditConnections E)"
  unfolding auditConnections_def by (intro keep_rules admission_keep)

section \<open>Admission and release\<close>

lemma ips_Cons [simp]: "ips h (c # cs) = add_mset (ip_of h c) (ips h cs)"
  by (simp add: ips_def)

lemma ips_append [simp]: "ips h (cs @ [c]) = add_mset (ip_of h c) (ips h cs)"
  by (simp add: ips_def)

lemma set_delete_simps [simp]:
  "set_delete c [] = []" "set_delete c (d # cs) = (if d = c then set_delete c cs else d # set_delete c cs)"
  "set (set_delete c cs) = set cs - {c}" "distinct cs \<Longrightarrow> distinct (set_delete c cs)"
  by (auto simp: set_delete_def)

lemma set_delete_absent [simp]: "c \<notin> set cs \<Longrightarrow> set_delete c cs = cs"
  by (induction cs) auto

lemma ips_member: "c \<in> set cs \<Longrightarrow> ip_of h c \<in># ips h cs"
  by (simp add: ips_def)

lemma ips_remove: "distinct cs \<Longrightarrow> c \<in> set cs \<Longrightarrow> ips h (set_delete c cs) = ips h cs - {#ip_of h c#}"
proof (induction cs)
  case (Cons d cs)
  then show ?case by (cases "d = c") (auto simp: ips_member)
qed simp

lemma ips_cong: "(\<And>c. c \<in> set cs \<Longrightarrow> ip_of h' c = ip_of h c) \<Longrightarrow> ips h' cs = ips h cs"
  by (simp add: ips_def cong: map_cong)

lemma length_set_delete: "distinct cs \<Longrightarrow> c \<in> set cs \<Longrightarrow> int (length (set_delete c cs)) = int (length cs) - 1"
  by (induction cs) auto

lemma filter_set_delete: "filter p (set_delete c cs) = set_delete c (filter p cs)"
  by (induction cs) auto

lemma count_less: "\<forall>x. int (count M x) \<le> b \<Longrightarrow> int (count M x - n) \<le> b"
  by (meson diff_le_self of_nat_mono order_trans)

lemma counters_release_pending:
  assumes ok: "counters_ok h cs ipc ipp pending" "distinct cs" and c: "c \<in> set cs" "h c = Some (ip, True, i)"
  shows "counters_ok (h(c \<mapsto> (ip, False, i))) cs ipc (decrementCount ip ipp) (max 0 (pending - 1))"
proof -
  let ?h = "h(c \<mapsto> (ip, False, i))"
  let ?ps = "filter (pending_of h) cs"
  have ip: "ip_of ?h d = ip_of h d" for d using c(2) by (simp add: ip_of_def)
  have pc: "c \<in> set ?ps" using c by (simp add: pending_of_def)
  have ps: "filter (pending_of ?h) cs = set_delete c ?ps"
    unfolding set_delete_def filter_filter using c by (auto simp: pending_of_def intro!: filter_cong split: if_splits)
  have same: "ips ?h cs' = ips h cs'" for cs' by (rule ips_cong) (rule ip)
  have ipsp: "ips h (set_delete c ?ps) = ips h ?ps - {#ip#}"
    using ips_remove [of ?ps c h] ok(2) pc c(2) by (simp add: ip_of_def)
  have len: "int (length (set_delete c ?ps)) = pending - 1" "1 \<le> pending"
    using length_set_delete [of ?ps c] ok pc by (auto simp: counters_ok_def Suc_le_eq length_pos_if_in_set simp del: length_filter_conv_card)
  have "ip \<in># ips h ?ps" using ips_member [OF pc, of h] c(2) by (simp add: ip_of_def)
  then have "counts (decrementCount ip ipp) (ips h ?ps - {#ip#})"
    using ok(1) by (simp add: counters_ok_def counts_decrementCount)
  then show ?thesis
    using ok(1) len by (auto simp: counters_ok_def ps same ipsp count_less)
qed

lemma counters_remove:
  assumes ok: "counters_ok h cs ipc ipp pending" "distinct cs" and c: "c \<in> set cs" "h c = Some (ip, False, i)"
  shows "counters_ok h (set_delete c cs) (decrementCount ip ipc) ipp pending"
proof -
  have ps: "filter (pending_of h) (set_delete c cs) = filter (pending_of h) cs"
    using c by (simp add: filter_set_delete pending_of_def)
  have ip: "ips h (set_delete c cs) = ips h cs - {#ip#}"
    using ips_remove [OF ok(2) c(1), of h] c(2) by (simp add: ip_of_def)
  have "ip \<in># ips h cs" using ips_member [OF c(1), of h] c(2) by (simp add: ip_of_def)
  then have "counts (decrementCount ip ipc) (ips h cs - {#ip#})"
    using ok(1) by (simp add: counters_ok_def counts_decrementCount)
  moreover have "length (set_delete c cs) \<le> length cs" by (simp add: set_delete_def)
  ultimately show ?thesis
    using ok(1) by (auto simp: counters_ok_def ps ip count_less)
qed

lemma counters_admit:
  assumes ok: "counters_ok h cs ipc ipp pending" and c: "c \<notin> set cs"
    and limits: "length cs < max_connections" "counter ipc ip < max_connections_per_ip" "pending < max_pending_auth"
      "counter ipp ip < max_pending_auth_per_ip"
  shows "counters_ok (h(c \<mapsto> (ip, True, None))) (cs @ [c]) (increment ip ipc) (increment ip ipp) (pending + 1)"
proof -
  let ?h = "h(c \<mapsto> (ip, True, None))"
  let ?ps = "filter (pending_of h) cs"
  have same: "ip_of ?h d = ip_of h d" "pending_of ?h d = pending_of h d" if "d \<in> set cs" for d
    using that c by (auto simp: ip_of_def pending_of_def)
  have ps: "filter (pending_of ?h) cs = ?ps" "pending_of ?h c"
    using same by (auto intro: filter_cong simp: pending_of_def)
  have ips: "ips ?h cs = ips h cs" "ips ?h ?ps = ips h ?ps" "ip_of ?h c = ip"
    using same by (auto intro: ips_cong simp: ip_of_def)
  have "int (count (ips h cs) ip) < max_connections_per_ip" "int (count (ips h ?ps) ip) < max_pending_auth_per_ip"
    using limits counts_counter [of ipc "ips h cs" ip] counts_counter [of ipp "ips h ?ps" ip] ok
    by (simp_all add: counters_ok_def)
  then show ?thesis
    using ok limits by (auto simp: counters_ok_def ps ips counts_increment)
qed

lemma counted_heap_set:
  "counted_heap_of (t\<lparr> tr_heap := (tr_heap t)(c := map_option f (tr_heap t c)) \<rparr>)
     = (counted_heap_of t)(c := map_option (\<lambda>k. counted (f k)) (tr_heap t c))"
  by (auto simp: counted_heap_of_def fun_eq_iff option.map_comp comp_def)

lemma counted_dom [simp]: "dom (counted_heap_of t) = dom (tr_heap t)"
  by (auto simp: counted_heap_of_def dom_def)

text \<open>An exact state in which a connection is not pending any more.\<close>

definition settled :: "nat \<Rightarrow> 'w sync_transport \<Rightarrow> bool" where
  "settled c t \<longleftrightarrow> admission_ok t \<and> c \<in> dom (tr_heap t) \<and> \<not> pending_of (counted_heap_of t) c"

lemma release_pending_settles:
  assumes "admission_ok t" "tr_heap t c = Some k"
  shows "settled c (snd (releasePendingAdmission c t))
    \<and> dom (tr_heap (snd (releasePendingAdmission c t))) = dom (tr_heap t)
    \<and> tr_connections (snd (releasePendingAdmission c t)) = tr_connections t
    \<and> fst (releasePendingAdmission c t) = Inr ()"
proof (cases "cn_pendingAuth k")
  case False
  then show ?thesis
    using assms by (auto simp: releasePendingAdmission_def obtaining_def connection_def conn_def ask_def skip_def give_def settled_def
      pending_of_def counted_heap_of_def counted_def)
next
  case True
  let ?t = "snd (releasePendingAdmission c t)"
  let ?h = "counted_heap_of t"
  have t: "?t = t\<lparr> tr_heap := (tr_heap t)(c \<mapsto> k\<lparr> cn_pendingAuth := False \<rparr>), tr_ipPending := decrementCount (cn_ipKey k) (tr_ipPending t),
      tr_pending := max 0 (tr_pending t - 1) \<rparr>" "fst (releasePendingAdmission c t) = Inr ()"
    using True assms(2) by (simp_all add: releasePendingAdmission_def obtaining_def connection_def conn_def ask_def andThen_def
      set_connection_def change_def)
  have hc: "?h c = Some (cn_ipKey k, True, cn_awarenessClientId k)"
    using True assms(2) by (simp add: counted_heap_of_def counted_def)
  have h: "counted_heap_of ?t = ?h(c \<mapsto> (cn_ipKey k, False, cn_awarenessClientId k))"
    by (simp add: t(1)) (auto simp: counted_heap_of_def counted_def fun_eq_iff)
  have ok: "counters_ok ?h (tr_connections t) (tr_ipConnections t) (tr_ipPending t) (tr_pending t)"
    and ids: "ids_ok ?h (tr_connections t) (tr_issuedIds t)"
    and members: "members_ok ?h (tr_connections t) (tr_next t) (tr_closed t)"
    using assms(1) by (simp_all add: admission_ok_def)
  have "counters_ok (counted_heap_of ?t) (tr_connections t) (tr_ipConnections t) (tr_ipPending ?t) (tr_pending ?t)"
  proof (cases "tr_closed t")
    case True
    then show ?thesis
      using ok members by (auto simp: t(1) counters_ok_def members_ok_def counts_def ips_def decrementCount_def counter_def)
  next
    case False
    then have "c \<in> set (tr_connections t)" "distinct (tr_connections t)"
      using members hc assms(2) by (simp_all add: members_ok_def pending_of_def domIff)
    then show ?thesis
      using counters_release_pending [OF ok] hc by (simp add: h) (simp add: t(1))
  qed
  moreover have "ids_ok (counted_heap_of ?t) (tr_connections t) (tr_issuedIds t)"
  proof -
    have "id_of (counted_heap_of ?t) d = id_of ?h d" for d using hc by (simp add: h id_of_def)
    then show ?thesis using ids by (simp add: ids_ok_def)
  qed
  moreover have "members_ok (counted_heap_of ?t) (tr_connections t) (tr_next t) (tr_closed t)"
  proof -
    have c: "c \<in> dom (tr_heap t)" using assms(2) by blast
    then have "dom (counted_heap_of ?t) = dom (counted_heap_of t)" by (simp add: h insert_absorb)
    then show ?thesis using members by (auto simp: h members_ok_def pending_of_def)
  qed
  ultimately have "admission_ok ?t"
    by (simp add: admission_ok_def) (simp add: t(1))
  then show ?thesis
    using assms(2) h t by (auto simp: settled_def pending_of_def)
qed

lemma admission_release [admission_keep]:
  "c \<in> D \<Longrightarrow> keeps (admission_with D) (releasePendingAdmission c)"
  unfolding keeps_def admission_with_def counted_dom
proof (intro allI impI)
  fix t :: "'b sync_transport"
  assume c: "c \<in> D" and t: "admission_ok t \<and> D \<subseteq> dom (tr_heap t)"
  then obtain k where "tr_heap t c = Some k" by blast
  from release_pending_settles [OF _ this] t
  show "admission_ok (snd (releasePendingAdmission c t)) \<and> D \<subseteq> dom (tr_heap (snd (releasePendingAdmission c t)))"
    by (simp add: settled_def)
qed

section \<open>Presence identifiers\<close>

lemma next_awareness_id_fresh:
  "next_awareness_id draw issued n = Some d \<Longrightarrow> fst d \<noteq> 0 \<and> fst d \<notin> set issued"
  by (erule next_awareness_id.raw_induct [rotated]) (auto simp: Let_def split: if_splits)

lemma set_add_members [simp]: "set (set_add x xs) = insert x (set xs)"
  by (auto simp: set_add_def)

lemma admission_allocate:
  assumes "\<And>i. keeps (admission_with D) (rest i)"
  shows "keeps (admission_with D) (obtaining (allocateAwarenessClientId E)
    (\<lambda>i. andThen (set_connection c (\<lambda>k. k\<lparr> cn_awarenessClientId := Some i \<rparr>)) (rest i)))"
  unfolding keeps_def
proof (intro allI impI)
  fix t :: "'a sync_transport"
  assume t: "admission_with D t"
  let ?go = "obtaining (allocateAwarenessClientId E)
    (\<lambda>i. andThen (set_connection c (\<lambda>k. k\<lparr> cn_awarenessClientId := Some i \<rparr>)) (rest i))"
  let ?next = "next_awareness_id (en_draw E) (tr_issuedIds t) (tr_drawn t)"
  show "admission_with D (snd (?go t))"
  proof (cases ?next)
    case None
    then show ?thesis
      using t by (simp add: allocateAwarenessClientId_def obtaining_def ask_def throw_def)
  next
    case (Some d)
    obtain i n where d: "d = (i, n)" by (cases d)
    define v where "v = t\<lparr> tr_drawn := n, tr_issuedIds := set_add i (tr_issuedIds t),
      tr_heap := (tr_heap t)(c := map_option (\<lambda>k. k\<lparr> cn_awarenessClientId := Some i \<rparr>) (tr_heap t c)) \<rparr>"
    have i: "i \<noteq> 0" "i \<notin> set (tr_issuedIds t)"
      using next_awareness_id_fresh [OF Some] d by auto
    have go: "?go t = rest i v"
      using Some d by (simp add: allocateAwarenessClientId_def obtaining_def ask_def andThen_def change_def give_def
        set_connection_def v_def)
    let ?h = "counted_heap_of t" and ?h' = "counted_heap_of v" and ?cs = "tr_connections t"
    have same: "ip_of ?h' d = ip_of ?h d" "pending_of ?h' d = pending_of ?h d"
        "id_of ?h' d = (if d = c then Some i else id_of ?h d)" if "d \<in> dom (tr_heap t)" for d
      using that by (auto simp: v_def counted_heap_of_def counted_def ip_of_def pending_of_def id_of_def)
    have sub: "set ?cs \<subseteq> dom (tr_heap t)"
      and members: "members_ok ?h ?cs (tr_next t) (tr_closed t)"
      and ids: "ids_ok ?h ?cs (tr_issuedIds t)"
      and counters: "counters_ok ?h ?cs (tr_ipConnections t) (tr_ipPending t) (tr_pending t)"
      using t by (simp_all add: admission_with_def admission_ok_def members_ok_def)
    have dom: "dom (tr_heap v) = dom (tr_heap t)" by (auto simp: v_def dom_def)
    have pend: "filter (pending_of ?h') ?cs = filter (pending_of ?h) ?cs"
      by (rule filter_cong [OF refl]) (use same(2) sub in blast)
    have ips: "ips ?h' ds = ips ?h ds" if "set ds \<subseteq> set ?cs" for ds
      by (rule ips_cong) (use same(1) sub that in blast)
    have "counters_ok ?h' ?cs (tr_ipConnections t) (tr_ipPending t) (tr_pending t)"
      using counters by (simp add: counters_ok_def pend ips)
    moreover have "ids_ok ?h' ?cs (set_add i (tr_issuedIds t))"
      using ids same(3) sub i unfolding ids_ok_def by (auto simp: subset_iff)
    moreover have "members_ok ?h' ?cs (tr_next t) (tr_closed t)"
      using members same(2) unfolding members_ok_def counted_dom dom by auto
    ultimately have "admission_with D v"
      using t dom by (simp add: admission_with_def admission_ok_def) (simp add: v_def)
    then show ?thesis
      using assms by (simp add: go keeps_def)
  qed
qed

lemma admission_authenticate [admission_keep]:
  assumes "c \<in> D"
  shows "keeps (admission_with D) (authenticate_connection E c ticket gen mn mx caps)"
  unfolding authenticate_connection_def conn_def chain.simps
  by (intro keep_rules admission_keep admission_allocate assms; simp add: admission_simps)

section \<open>Arrivals and ends\<close>

lemma admission_arrival:
  assumes "admission_ok t" "canAdmitConnection ip t"
  shows "admission_ok (snd (onConnection ip t))"
proof -
  let ?c = "tr_next t" and ?t = "snd (onConnection ip t)" and ?h = "counted_heap_of t"
  have counters: "counters_ok ?h (tr_connections t) (tr_ipConnections t) (tr_ipPending t) (tr_pending t)"
    and ids: "ids_ok ?h (tr_connections t) (tr_issuedIds t)"
    and members: "members_ok ?h (tr_connections t) (tr_next t) (tr_closed t)" and alive: "\<not> tr_closed t"
    using assms by (simp_all add: admission_ok_def canAdmitConnection_def)
  have fresh: "?c \<notin> dom ?h" "?c \<notin> set (tr_connections t)"
    using members by (auto simp: members_ok_def)
  have h: "counted_heap_of ?t = ?h(?c \<mapsto> (ip, True, None))"
    by (auto simp: onConnection_def change_def Let_def counted_heap_of_def counted_def new_connection_def fun_eq_iff)
  have rest: "tr_connections ?t = tr_connections t @ [?c]" "tr_ipConnections ?t = increment ip (tr_ipConnections t)"
    "tr_ipPending ?t = increment ip (tr_ipPending t)" "tr_pending ?t = tr_pending t + 1" "tr_next ?t = Suc ?c"
    "tr_issuedIds ?t = tr_issuedIds t" "tr_closed ?t = tr_closed t"
    by (simp_all add: onConnection_def change_def Let_def)
  have "counters_ok (counted_heap_of ?t) (tr_connections ?t) (tr_ipConnections ?t) (tr_ipPending ?t) (tr_pending ?t)"
    unfolding h rest using counters_admit [OF counters fresh(2)] assms(2) by (simp add: canAdmitConnection_def)
  moreover have "ids_ok (counted_heap_of ?t) (tr_connections ?t) (tr_issuedIds ?t)"
    using ids fresh(2) unfolding h rest ids_ok_def by (auto simp: id_of_def)
  moreover have "members_ok (counted_heap_of ?t) (tr_connections ?t) (tr_next ?t) (tr_closed ?t)"
    using members fresh alive unfolding h rest members_ok_def by (auto simp: pending_of_def less_Suc_eq)
  ultimately show ?thesis by (simp add: admission_ok_def)
qed

lemma admission_reject [admission_keep]: "keeps (admission_with D) (rejectUpgrade rq status reason)"
  unfolding rejectUpgrade_def by (rule admission_effect)

lemma admission_upgrade [admission_keep]:
  "keeps (admission_with {}) (upgradeHandler E rq)"
proof -
  have step: "keeps (admission_with {}) (obtaining (ask (canAdmitConnection ip)) (\<lambda>ok.
      if \<not> ok then rejectUpgrade rq 429 ''Too Many Requests'' else if rq_handshake rq then onConnection ip else skip))" for ip
    using admission_arrival admission_effect [of "{}", unfolded keeps_def admission_with_def]
    by (auto simp: keeps_def obtaining_def ask_def admission_with_def skip_def give_def rejectUpgrade_def)
  show ?thesis
    unfolding upgradeHandler_def by (rule step keep_rules admission_keep)+
qed

text \<open>A state whose counters and identifiers no longer include a connection that has ended.\<close>

definition departed :: "nat \<Rightarrow> 'w sync_transport \<Rightarrow> bool" where
  "departed c t \<longleftrightarrow> admission_ok t \<and> c \<in> dom (counted_heap_of t)
     \<and> (\<forall>i. id_of (counted_heap_of t) c = Some i \<longrightarrow> (\<forall>d \<in> set (tr_connections t). id_of (counted_heap_of t) d \<noteq> Some i))"

lemma release_commutes:
  "releasePendingAdmission c (t\<lparr> tr_connections := cs \<rparr>)
     = (Inr (), (snd (releasePendingAdmission c t))\<lparr> tr_connections := cs \<rparr>)"
  by (simp add: releasePendingAdmission_def obtaining_def connection_def conn_def ask_def andThen_def set_connection_def change_def skip_def give_def)

lemma admission_departure:
  assumes t: "admission_ok t" and c: "c \<in> set (tr_connections t)"
  shows "departed c (snd (releaseConnectionAdmission c (t\<lparr> tr_connections := set_delete c (tr_connections t) \<rparr>)))"
proof -
  obtain k where k: "tr_heap t c = Some k"
    using t c by (auto simp: admission_ok_def members_ok_def domIff)
  let ?u = "snd (releasePendingAdmission c t)"
  let ?h = "counted_heap_of ?u" and ?cs = "tr_connections ?u"
  define ip where "ip = ip_of ?h c"
  define v where "v = ?u\<lparr> tr_connections := set_delete c ?cs, tr_ipConnections := decrementCount ip (tr_ipConnections ?u) \<rparr>"
  have u: "settled c ?u" "?cs = tr_connections t"
    using release_pending_settles [OF t k] by auto
  then obtain k' where k': "tr_heap ?u c = Some k'" by (auto simp: settled_def)
  have ip: "cn_ipKey (conn ?u c) = ip"
    using k' by (simp add: conn_def ip_def ip_of_def counted_heap_of_def counted_def)
  have run: "snd (releaseConnectionAdmission c (t\<lparr> tr_connections := set_delete c (tr_connections t) \<rparr>)) = v"
    using ip by (simp add: releaseConnectionAdmission_def andThen_def obtaining_def release_commutes connection_def conn_def ask_def
        change_def v_def u)
  have counters: "counters_ok ?h ?cs (tr_ipConnections ?u) (tr_ipPending ?u) (tr_pending ?u)"
    and ids: "ids_ok ?h ?cs (tr_issuedIds ?u)" and members: "members_ok ?h ?cs (tr_next ?u) (tr_closed ?u)"
    and idle: "\<not> pending_of ?h c" and here: "c \<in> set ?cs" "distinct ?cs"
    using u c by (auto simp: settled_def admission_ok_def members_ok_def)
  have hc: "?h c = Some (ip, False, cn_awarenessClientId k')"
    using k' idle ip by (simp add: conn_def counted_heap_of_def counted_def pending_of_def)
  have h: "counted_heap_of v = ?h" by (simp add: v_def counted_heap_of_def fun_eq_iff)
  have "counters_ok ?h (set_delete c ?cs) (decrementCount ip (tr_ipConnections ?u)) (tr_ipPending ?u) (tr_pending ?u)"
    by (rule counters_remove [OF counters here(2,1) hc])
  moreover have "ids_ok ?h (set_delete c ?cs) (tr_issuedIds ?u)"
    using ids by (auto simp: ids_ok_def)
  moreover have "members_ok ?h (set_delete c ?cs) (tr_next ?u) (tr_closed ?u)"
    using members idle here by (auto simp: members_ok_def split: if_splits)
  moreover have "\<forall>i. id_of ?h c = Some i \<longrightarrow> (\<forall>d \<in> set (set_delete c ?cs). id_of ?h d \<noteq> Some i)"
    using ids here by (auto simp: ids_ok_def)
  moreover have "c \<in> dom ?h" using hc by blast
  ultimately show ?thesis
    unfolding run departed_def admission_ok_def h by (simp add: v_def)
qed

lemma departed_same: "same_counted t t' \<Longrightarrow> departed c t \<Longrightarrow> departed c t'"
  by (simp add: same_counted_def admission_ok_def departed_def)

text \<open>Its identifier is given back.\<close>

lemma departed_forgets:
  assumes "departed c t" "id_of (counted_heap_of t) c = Some i"
  shows "admission_ok (t\<lparr> tr_issuedIds := set_delete i (tr_issuedIds t) \<rparr>)"
proof -
  have h: "counted_heap_of (t\<lparr> tr_issuedIds := set_delete i (tr_issuedIds t) \<rparr>) = counted_heap_of t"
    by (simp add: counted_heap_of_def fun_eq_iff)
  show ?thesis
    using assms unfolding departed_def admission_ok_def h by (auto simp: ids_ok_def)
qed

lemma admission_close_handler: "keeps (admission_with {}) (onClose E c)"
  unfolding keeps_def
proof (intro allI impI)
  fix t :: "'a sync_transport"
  assume t: "admission_with {} t"
  show "admission_with {} (snd (onClose E c t))"
  proof (cases "c \<in> set (tr_connections t)")
    case False
    then show ?thesis
      using t by (simp add: onClose_def obtaining_def ask_def skip_def give_def)
  next
    case True
    let ?f = "\<lambda>k. k\<lparr> cn_authTimer := False, cn_chunks := empty_reassembler \<rparr>"
    define u where "u = snd (releaseConnectionAdmission c (t\<lparr> tr_connections := set_delete c (tr_connections t) \<rparr>))"
    define v where "v = u\<lparr> tr_heap := (tr_heap u)(c := map_option ?f (tr_heap u c)) \<rparr>"
    have "departed c u" using admission_departure True t by (simp add: u_def admission_with_def)
    moreover have "same_counted u v"
      by (cases "tr_heap u c") (auto simp: v_def same_counted_def counted_heap_of_def counted_def fun_eq_iff)
    ultimately have v: "departed c v" by (blast intro: departed_same)
    then obtain k where k: "tr_heap v c = Some k" unfolding departed_def counted_dom by blast
    have release: "releaseConnectionAdmission c (t\<lparr> tr_connections := set_delete c (tr_connections t) \<rparr>) = (Inr (), u)"
      by (simp add: u_def releaseConnectionAdmission_def andThen_def obtaining_def release_commutes connection_def conn_def ask_def change_def)
    have here: "map_option ?f (tr_heap u c) = Some k" using k by (simp add: v_def)
    obtain z where z: "tr_heap u c = Some z" "?f z = k" using here by auto
    have v': "v = u\<lparr> tr_heap := (tr_heap u)(c \<mapsto> k) \<rparr>" unfolding v_def here ..
    define rest where "rest = (case cn_authenticated k of None \<Rightarrow> skip
      | Some au \<Rightarrow> obtaining (leave_board (ac_boardId (au_access au)) c) (\<lambda>peers.
          each (remove_presence E c (au_access au) peers) (cn_awarenessDocs k)))"
    have run: "snd (onClose E c t) = snd (rest (case cn_awarenessClientId k of None \<Rightarrow> v
        | Some i \<Rightarrow> v\<lparr> tr_issuedIds := set_delete i (tr_issuedIds v) \<rparr>))"
      using True k by (simp add: onClose_def obtaining_def ask_def andThen_def change_def release set_connection_def connection_def conn_def
          v' here z(1) z(2) [simplified] rest_def skip_def give_def split: option.splits)
    have "keeps (admission_with {}) rest"
      unfolding rest_def by (intro keep_rules admission_keep)
    moreover have "admission_with {} (case cn_awarenessClientId k of None \<Rightarrow> v
        | Some i \<Rightarrow> v\<lparr> tr_issuedIds := set_delete i (tr_issuedIds v) \<rparr>)"
    proof (cases "cn_awarenessClientId k")
      case None
      then show ?thesis using v by (simp add: departed_def admission_with_def)
    next
      case (Some i)
      then have "id_of (counted_heap_of v) c = Some i"
        using k by (simp add: id_of_def counted_heap_of_def counted_def)
      from departed_forgets [OF v this] Some show ?thesis by (simp add: admission_with_def)
    qed
    ultimately show ?thesis unfolding run keeps_def by blast
  qed
qed

text \<open>Once shut down it has no connections left.\<close>

definition numbered :: "'w sync_transport \<Rightarrow> bool" where
  "numbered t \<longleftrightarrow> tr_closed t \<and> (\<forall>c \<in> dom (tr_heap t). c < tr_next t)"

lemma numbered_set_connection: "keeps numbered (set_connection c f)"
  unfolding set_connection_def by (rule keeps_change) (auto simp: numbered_def dom_def split: if_splits)

lemma numbered_terminate: "keeps numbered (socket_terminate c)"
  unfolding socket_terminate_def record_effect_def
  by (intro keep_rules numbered_set_connection keeps_change) (simp add: numbered_def)

lemma ensures_each:
  "(\<And>x. x \<in> set xs \<Longrightarrow> ensures P (f x) (\<lambda>_. P) E) \<Longrightarrow> ensures P (each f xs) (\<lambda>_. P) E"
proof (induction xs)
  case Nil
  then show ?case by (simp add: ensures_def skip_def give_def)
next
  case (Cons x xs)
  then show ?case unfolding each_simps andThen_def by (intro ensures_obtaining [of P _ "\<lambda>_. P"]) auto
qed

lemma numbered_stop:
  "ensures numbered (andThen (set_connection c f) (socket_terminate c) :: ('a, unit) action) (\<lambda>_. numbered) (\<lambda>_ _. False)"
proof -
  let ?m = "andThen (set_connection c f) (socket_terminate c) :: ('a, unit) action"
  have "keeps numbered ?m"
    by (intro keep_rules numbered_set_connection numbered_terminate)
  moreover have "fst (?m t) = Inr ()" for t
    by (simp add: andThen_def obtaining_def socket_terminate_def connection_def conn_def ask_def set_connection_def skip_def give_def
        record_effect_def change_def)
  ultimately show ?thesis
    unfolding keeps_def ensures_def by (simp add: split_beta)
qed

lemma admission_shutdown [admission_keep]: "keeps (admission_with {}) (close_transport E)"
  unfolding keeps_def
proof (intro allI impI)
  fix t :: "'a sync_transport"
  assume t: "admission_with {} t"
  define stop :: "('a, unit) action" where "stop = each (\<lambda>c. andThen (set_connection c (\<lambda>k. k\<lparr> cn_chunks := empty_reassembler, cn_authTimer := False \<rparr>))
    (socket_terminate c)) (tr_connections t)"
  obtain r u where u: "stop (t\<lparr> tr_closed := True \<rparr>) = (r, u)" by fastforce
  have "ensures numbered stop (\<lambda>_. numbered) (\<lambda>_ _. False)"
    unfolding stop_def by (intro ensures_each numbered_stop)
  moreover have "numbered (t\<lparr> tr_closed := True \<rparr>)"
    using t by (auto simp: numbered_def admission_with_def admission_ok_def members_ok_def)
  ultimately have r: "r = Inr ()" "numbered u"
    using u by (cases r; fastforce simp: ensures_def)+
  show "admission_with {} (snd (close_transport E t))"
  proof (cases "tr_closed t")
    case True
    then show ?thesis using t by (simp add: close_transport_def obtaining_def ask_def skip_def give_def)
  next
    case False
    have run: "snd (close_transport E t) = u\<lparr> tr_connections := [], tr_boards := Map.empty, tr_ipConnections := Map.empty,
        tr_ipPending := Map.empty, tr_pending := 0, tr_frameRates := [], tr_byteRates := [], tr_updateRates := [],
        tr_updateByteRates := [], tr_awarenessRates := [], tr_awarenessByteRates := [], tr_profileRates := [],
        tr_awareness := Map.empty,
        tr_world := (if en_enabled E then sv_close (en_service E) (tr_world u) else tr_world u) \<rparr>"
      using False u r(1) unfolding stop_def by (simp add: close_transport_def obtaining_def ask_def andThen_def change_def)
    show ?thesis
      unfolding run using r(2)
      by (auto simp: admission_with_def admission_ok_def counters_ok_def ids_ok_def members_ok_def ips_def max_pending_auth_def
          max_connections_def max_connections_per_ip_def max_pending_auth_per_ip_def numbered_def)
  qed
qed

section \<open>All events\<close>

lemma admission_message: "c \<in> D \<Longrightarrow> keeps (admission_with D) (onMessage E c binary b)"
  unfolding onMessage_def handle_frame_def by (intro keep_rules admission_keep)

lemma admission_alive:
  assumes "keeps (admission_with {c}) m"
  shows "keeps (admission_with {}) (if_alive c m)"
  unfolding keeps_def
proof (intro allI impI)
  fix t :: "'a sync_transport"
  assume t: "admission_with {} t"
  show "admission_with {} (snd (if_alive c m t))"
  proof (cases "tr_heap t c")
    case None
    then show ?thesis using t by (simp add: if_alive_def obtaining_def ask_def skip_def give_def)
  next
    case (Some k)
    then have "admission_with {c} t" using t by (auto simp: admission_with_def)
    then have "admission_with {c} (snd (m t))" using assms by (simp add: keeps_def)
    then show ?thesis using t Some by (simp add: if_alive_def obtaining_def ask_def skip_def give_def admission_with_def)
  qed
qed

lemma admission_alive_or_not: "keeps (admission_with {}) m \<Longrightarrow> keeps (admission_with {}) (if_alive c m)"
  unfolding if_alive_def by (intro keep_rules)

lemma admission_clock [admission_keep]:
  "keeps (admission_with D) (change (\<lambda>t. t\<lparr> tr_now := now \<rparr>))" "keeps (admission_with D) (change (\<lambda>t. t\<lparr> tr_world := w \<rparr>))"
  by (rule admission_change, simp add: admission_simps)+

lemma admission_installed [admission_keep]: "keeps (admission_with D) m \<Longrightarrow> keeps (admission_with D) (while_installed m)"
  unfolding while_installed_def by (intro keep_rules)

lemmas hook_defs = disconnectUserSockets_def disconnectSessionSockets_def removeLessonSocketMembership_def emitLessonStatus_def

lemma admission_event: "keeps (admission_with {}) (sync_event_action E ev)"
proof (cases ev)
  case (Message c binary b)
  then show ?thesis by (simp add: admission_alive admission_message)
next
  case (SocketClosed c)
  then show ?thesis
    unfolding sync_event_action.simps
    by (simp only: sync_event_action.simps)
      (intro admission_alive_or_not keep_rules admission_set_connection admission_close_handler, simp add: counted_def)
qed (simp_all only: sync_event_action.simps hook_defs,
   (rule admission_alive_or_not keep_rules admission_keep | simp add: admission_simps)+)

lemma admission_new: "admission_ok (new_transport w now)"
  by (auto simp: new_transport_def admission_ok_def counters_ok_def ids_ok_def members_ok_def ips_def max_pending_auth_def
      max_connections_def max_connections_per_ip_def max_pending_auth_per_ip_def counted_heap_of_def)

lemma reachable_admission:
  assumes "sync_reaches E t"
  shows "admission_ok t"
proof -
  have "admission_with {} t"
    using assms by (rule sync_reaches_keeps [rotated 2]) (simp_all add: admission_event, simp add: admission_with_def admission_new)
  then show ?thesis by (simp add: admission_with_def)
qed

definition connections_from :: "'w sync_transport \<Rightarrow> jstr \<Rightarrow> nat list" where
  "connections_from t ip = filter (\<lambda>c. cn_ipKey (conn t c) = ip) (tr_connections t)"

definition awaiting :: "'w sync_transport \<Rightarrow> nat list \<Rightarrow> nat list" where
  "awaiting t cs = filter (\<lambda>c. cn_pendingAuth (conn t c)) cs"

lemma count_ips: "count (mset (map f cs)) x = length (filter (\<lambda>c. f c = x) cs)"
  by (induction cs) auto

text \<open>
  C7. The admission counters of the board transport are exact: in every state it can reach, what it counts
  for an address, for an address and not yet authenticated, and not yet authenticated in all is the
  number of such connections; so there are never more than 512 connections, 24 from an address, 128
  not yet authenticated and 8 of these from an address.
\<close>

theorem sync_admission_is_exact:
  assumes "sync_reaches E t"
  shows "counter (tr_ipConnections t) ip = int (length (connections_from t ip))
    \<and> counter (tr_ipPending t) ip = int (length (awaiting t (connections_from t ip)))
    \<and> tr_pending t = int (length (awaiting t (tr_connections t)))
    \<and> length (tr_connections t) \<le> 512 \<and> length (connections_from t ip) \<le> 24
    \<and> length (awaiting t (tr_connections t)) \<le> 128 \<and> length (awaiting t (connections_from t ip)) \<le> 8"
proof -
  let ?h = "counted_heap_of t" and ?cs = "tr_connections t"
  have ok: "counters_ok ?h ?cs (tr_ipConnections t) (tr_ipPending t) (tr_pending t)" and sub: "set ?cs \<subseteq> dom (tr_heap t)"
    using reachable_admission [OF assms] by (simp_all add: admission_ok_def members_ok_def)
  have field: "ip_of ?h c = cn_ipKey (conn t c)" "pending_of ?h c = cn_pendingAuth (conn t c)" if "c \<in> set ?cs" for c
    using sub that by (auto simp: ip_of_def pending_of_def counted_heap_of_def counted_def conn_def subset_iff)
  have pend: "filter (pending_of ?h) ?cs = awaiting t ?cs"
    unfolding awaiting_def by (rule filter_cong) (simp_all add: field)
  have from_ip: "count (ips ?h cs) ip = length (filter (\<lambda>c. cn_ipKey (conn t c) = ip) cs)" if "set cs \<subseteq> set ?cs" for cs
    unfolding ips_def count_ips using that by (auto intro!: arg_cong [where f = length] filter_cong simp: field subset_iff)
  have all: "count (ips ?h ?cs) ip = length (connections_from t ip)"
    by (simp add: from_ip connections_from_def)
  have some: "count (ips ?h (awaiting t ?cs)) ip = length (awaiting t (connections_from t ip))"
    by (subst from_ip) (auto simp: awaiting_def connections_from_def conj_commute)
  have "counter (tr_ipConnections t) ip = int (count (ips ?h ?cs) ip)"
    "counter (tr_ipPending t) ip = int (count (ips ?h (filter (pending_of ?h) ?cs)) ip)"
    using ok by (auto simp: counters_ok_def intro: counts_counter)
  moreover have "int (count (ips ?h ?cs) ip) \<le> max_connections_per_ip"
    "int (count (ips ?h (filter (pending_of ?h) ?cs)) ip) \<le> max_pending_auth_per_ip"
    "length ?cs \<le> max_connections" "tr_pending t \<le> max_pending_auth" "tr_pending t = int (length (filter (pending_of ?h) ?cs))"
    using ok unfolding counters_ok_def by blast+
  ultimately show ?thesis
    unfolding pend all some by (simp add: max_connections_def max_connections_per_ip_def max_pending_auth_def max_pending_auth_per_ip_def)
qed

text \<open>
  C8. Presence identifiers are unique: in every reachable state the identifiers of the connections are not
  zero, are among those taken, and no two connections have the same; so the presence of one person
  is never attributed to another.
\<close>

theorem presence_identifiers_are_unique:
  assumes "sync_reaches E t" "c \<in> set (tr_connections t)" "cn_awarenessClientId (conn t c) = Some i"
  shows "i \<noteq> 0 \<and> i \<in> set (tr_issuedIds t)
    \<and> (\<forall>d \<in> set (tr_connections t). cn_awarenessClientId (conn t d) = Some i \<longrightarrow> d = c)"
proof -
  have sub: "set (tr_connections t) \<subseteq> dom (tr_heap t)" and ids: "ids_ok (counted_heap_of t) (tr_connections t) (tr_issuedIds t)"
    using reachable_admission [OF assms(1)] by (simp_all add: admission_ok_def members_ok_def)
  have "id_of (counted_heap_of t) d = cn_awarenessClientId (conn t d)" if "d \<in> set (tr_connections t)" for d
    using sub that by (auto simp: id_of_def counted_heap_of_def counted_def conn_def subset_iff)
  with ids assms(2,3) show ?thesis unfolding ids_ok_def by metis
qed

lemma identifier_drawn:
  "next_awareness_id draw issued n = Some d \<Longrightarrow> \<exists>j. d = (draw (n + j), Suc (n + j))
     \<and> draw (n + j) \<notin> insert 0 (set issued) \<and> draw ` {n..<n + j} \<subseteq> insert 0 (set issued)"
proof (erule next_awareness_id.raw_induct [rotated])
  fix f draw' issued' n' and d' :: "int \<times> nat"
  let ?good = "\<lambda>draw (issued :: int list) n d. \<exists>j. d = (draw (n + j), Suc (n + j))
     \<and> draw (n + j) \<notin> insert 0 (set issued) \<and> draw ` {n..<n + j} \<subseteq> insert 0 (set issued)"
  assume later: "\<And>draw issued n d. f draw issued n = Some d \<Longrightarrow> ?good draw issued n d"
    and now: "(let i = draw' n' in if i = 0 \<or> i \<in> set issued' then f draw' issued' (Suc n') else Some (i, Suc n')) = Some d'"
  show "?good draw' issued' n' d'"
  proof (cases "draw' n' \<in> insert 0 (set issued')")
    case True
    with now later [of draw' issued' "Suc n'" d'] obtain j where "d' = (draw' (Suc n' + j), Suc (Suc n' + j))"
      "draw' (Suc n' + j) \<notin> insert 0 (set issued')" "draw' ` {Suc n'..<Suc n' + j} \<subseteq> insert 0 (set issued')"
      by (auto simp: Let_def)
    with True show ?thesis
      by (intro exI [of _ "Suc j"]) (auto simp: atLeastLessThan_iff image_subset_iff le_eq_less_or_eq Suc_le_eq)
  next
    case False
    with now show ?thesis by (intro exI [of _ 0]) (auto simp: Let_def)
  qed
qed

lemma identifier_found:
  "draw (n + j) \<notin> insert 0 (set issued) \<Longrightarrow> draw ` {n..<n + j} \<subseteq> insert 0 (set issued)
     \<Longrightarrow> next_awareness_id draw issued n = Some (draw (n + j), Suc (n + j))"
proof (induction j arbitrary: n)
  case 0
  then show ?case by (subst next_awareness_id.simps) (simp add: Let_def)
next
  case (Suc j)
  have "draw n \<in> insert 0 (set issued)" using Suc.prems(2) by (rule subsetD) simp
  moreover have "next_awareness_id draw issued (Suc n) = Some (draw (Suc n + j), Suc (Suc n + j))"
    using Suc.prems by (intro Suc.IH) (auto simp: image_subset_iff)
  ultimately show ?case by (subst next_awareness_id.simps) (auto simp: Let_def)
qed

text \<open>
  Drawing a presence identifier gives the first one drawn that is neither zero nor taken, and goes on
  as long as there is none.
\<close>

theorem presence_identifier_is_found:
  "next_awareness_id draw issued n = Some (i, m) \<longleftrightarrow>
     (\<exists>j. i = draw (n + j) \<and> m = Suc (n + j) \<and> i \<notin> insert 0 (set issued) \<and> draw ` {n..<n + j} \<subseteq> insert 0 (set issued))"
  (is "?found \<longleftrightarrow> ?first")
proof
  assume "?found"
  from identifier_drawn [OF this] show "?first" by auto
next
  assume "?first"
  then show "?found" using identifier_found [of draw n _ issued] by blast
qed

end
