(* ===== verification/Board_Service.thy ===== *)
theory Board_Service
  imports Sync_Events Board_Policy
begin

text \<open>
  The access checks of \<open>src/server/board-v2/sync-service.ts\<close> as the service of the board transport. The
  operations on documents are parameters.
\<close>

record 'd board_documents =
  do_missingUpdates :: "board_access \<Rightarrow> jstr \<Rightarrow> byte list \<Rightarrow> 'd \<Rightarrow> byte list list result \<times> 'd"
  do_stateVector :: "board_access \<Rightarrow> jstr \<Rightarrow> 'd \<Rightarrow> byte list result \<times> 'd"
  do_append :: "board_access \<Rightarrow> jstr \<Rightarrow> jstr \<Rightarrow> jstr \<Rightarrow> byte list \<Rightarrow> 'd \<Rightarrow> (int \<times> bool) result \<times> 'd"
  do_close :: "'d \<Rightarrow> 'd"

text \<open>Its world: secrets and clock, tables, tickets, documents.\<close>

record 'd board_world =
  bw_env :: access_env
  bw_tables :: access_tables
  bw_tickets :: ticket_store
  bw_documents :: 'd

definition on_documents :: "('d \<Rightarrow> 'a \<times> 'd) \<Rightarrow> 'd board_world \<Rightarrow> 'a \<times> 'd board_world" where
  "on_documents op w = (let (r, d) = op (bw_documents w) in (r, w\<lparr> bw_documents := d \<rparr>))"

definition board_service_of :: "'d board_documents \<Rightarrow> 'd board_world board_service" where
  "board_service_of D = \<lparr>
     sv_authenticate = (\<lambda>ticket gen mn mx caps w.
       let (r, ts) = authenticate (bw_env w) ticket gen mn mx caps (bw_tables w) (bw_tickets w) in (r, w\<lparr> bw_tickets := ts \<rparr>)),
     sv_reauthorize = (\<lambda>i edit w. (reauthorize (bw_env w) (bw_tables w) i edit, w)),
     sv_missingUpdates = (\<lambda>a d v. on_documents (do_missingUpdates D a d v)),
     sv_documentStateVector = (\<lambda>a d. on_documents (do_stateVector D a d)),
     sv_appendUpdate = (\<lambda>a client d m u. on_documents (do_append D a client d m u)),
     sv_close = (\<lambda>w. w\<lparr> bw_documents := do_close D (bw_documents w) \<rparr>) \<rparr>"

end
