(* ===== verification/Sync_Sample.thy ===== *)
theory Sync_Sample
  imports Board_Service Board_Library Json_Reader
begin

text \<open>
  A short history of the board transport, to which its theorems are applied: two people join a board,
  one reads a document, the other changes it.
\<close>

section \<open>Histories\<close>

definition sync_run :: "'w sync_env \<Rightarrow> 'w sync_event list \<Rightarrow> 'w sync_transport \<Rightarrow> 'w sync_transport" where
  "sync_run E evs t = fold (\<lambda>ev t. snd (sync_event_action E ev t)) evs t"

lemma sync_run_reaches: "sync_reaches E t \<Longrightarrow> sync_reaches E (sync_run E evs t)"
  by (induction evs arbitrary: t) (auto simp: sync_run_def intro: sync_reaches.happens)

lemma sync_run_created: "sync_reaches E (sync_run E evs (new_transport w now))"
  by (intro sync_run_reaches sync_reaches.created)

section \<open>A history\<close>

text \<open>Documents that count what is appended.\<close>


definition sample_documents :: "int board_documents" where
  "sample_documents = \<lparr> do_missingUpdates = (\<lambda>a d v n. (Inr [], n)), do_stateVector = (\<lambda>a d n. (Inr [0], n)),
     do_append = (\<lambda>a client d m u n. (Inr (n + 1, False), n + 1)), do_close = id \<rparr>"

definition sample_tables :: access_tables where
  "sample_tables = demo_tables\<lparr> sessions := [\<lparr> se_hash = js ''s1'', se_userId = js ''u1'', se_expiresAt = js ''2030'' \<rparr>,
     \<lparr> se_hash = js ''s2'', se_userId = js ''u2'', se_expiresAt = js ''2030'' \<rparr>] \<rparr>"

definition sample_nonce :: jstr where "sample_nonce = replicate 43 0x43"

definition sample_tickets :: ticket_store where
  "sample_tickets = fst (issue demo_sign (\<lambda>t. t)
     (demo_ticket_scope\<lparr> userId := js ''u2'', sessionHash := js ''s2'' \<rparr>) sample_nonce 0 0 demo_ticket_store)"

definition sample_world :: "int board_world" where
  "sample_world = \<lparr> bw_env = demo_access_env, bw_tables = sample_tables, bw_tickets = sample_tickets, bw_documents = 0 \<rparr>"

definition sample_env :: "int board_world sync_env" where
  "sample_env = \<lparr> en_enabled = True, en_service = board_service_of sample_documents, en_lib = base128, en_text = demo_text_lib,
     en_nfkc = id, en_draw = (\<lambda>n. int n), en_chunkId = (\<lambda>n. replicate 16 0), en_afterSend = (\<lambda>b n. n),
     en_digest = id, en_decodeMessage = (\<lambda>b e. []), en_encodeMessage = (\<lambda>f e. []), en_awarenessMessage = (\<lambda>b. []),
     en_profileMessage = (\<lambda>e. []), en_appOrigins = [js ''https://eduri''], en_isIp = (\<lambda>s. True), en_trustProxy = None \<rparr>"

definition sample_request :: upgrade_request where
  "sample_request = \<lparr> rq_url = Some (sync_path, []), rq_origin = Some (js ''https://eduri''), rq_protocol = Some board_subprotocol,
     rq_remoteAddress = js ''10.0.0.7'', rq_realIp = NoRealIp, rq_writable = True, rq_handshake = True \<rparr>"

definition sample_bytes :: "board_frame \<Rightarrow> byte list" where
  "sample_bytes f = (case encodeBoardFrame base128 f of Inl e \<Rightarrow> [] | Inr b \<Rightarrow> b)"

definition sample_message :: "nat \<Rightarrow> board_frame \<Rightarrow> int board_world sync_event" where
  "sample_message c f = Message c True (sample_bytes f)"

definition sample_id :: "byte list" where "sample_id = replicate 16 1"

definition sample_joins :: "int board_world sync_event list" where
  "sample_joins = [Upgrade sample_request, Upgrade sample_request,
     sample_message 0 (AuthFrame (token_of demo_sign demo_nonce) 3 1 1 1),
     sample_message 1 (AuthFrame (token_of demo_sign sample_nonce) 3 1 1 1)]"

definition sample_edits :: "int board_world sync_event list" where
  "sample_edits = [sample_message 1 (SyncStep1Frame 3 (js ''d'') [0]), sample_message 0 (UpdateFrame 3 (js ''d'') sample_id [7])]"

definition sample_end :: "int board_world sync_transport" where
  "sample_end = sync_run sample_env (sample_joins @ sample_edits) (new_transport sample_world 0)"

text \<open>The bytes of the frames.\<close>

lemma sample_leb:
  "leb_write 0 = [0]" "leb_write 1 = [1]" "leb_write (Suc 0) = [1]" "leb_write 2 = [2]" "leb_write 3 = [3]" "leb_write 87 = [87]"
  by (simp_all add: leb_write.simps [of 0] leb_write.simps [of 1] leb_write.simps [of "Suc 0"] leb_write.simps [of 2]
      leb_write.simps [of 3] leb_write.simps [of 87] to_byte_def)

lemma sample_texts:
  "utf8_encode (js ''d'') = [100]" "control_free (js ''d'')"
  "utf8_encode (token_of demo_sign demo_nonce) = replicate 43 65 @ 46 # replicate 43 66" "control_free (token_of demo_sign demo_nonce)"
  "utf8_encode (token_of demo_sign sample_nonce) = replicate 43 67 @ 46 # replicate 43 66" "control_free (token_of demo_sign sample_nonce)"
  by code_simp+

lemmas sample_writes = writer_simps demo_writes sample_leb sample_texts safe_between_def max_safe_integer_def text_ok_def
  writeVarBytes_def bytes_between_def max_ticket_bytes_def max_schema_version_def max_awareness_client_id_def permission_read_def
  max_document_key_bytes_def message_id_bytes_def

lemma sample_bodies:
  "encode_body base128 (AuthFrame (token_of demo_sign demo_nonce) 3 1 1 1) = Inr ([3, 1, 1, 1, 87] @ replicate 43 65 @ 46 # replicate 43 66)"
  "encode_body base128 (AuthFrame (token_of demo_sign sample_nonce) 3 1 1 1) = Inr ([3, 1, 1, 1, 87] @ replicate 43 67 @ 46 # replicate 43 66)"
  "encode_body base128 (ReadyFrame 3 1 1 1 3) = Inr [3, 1, 1, 1, 3]"
  "encode_body base128 (ReadyFrame 3 1 1 2 3) = Inr [3, 1, 1, 2, 3]"
  "encode_body base128 (SyncStep1Frame 3 (js ''d'') [0]) = Inr [3, 1, 100, 1, 0]"
  "encode_body base128 (UpdateFrame 3 (js ''d'') sample_id [7]) = Inr ([3, 1, 100] @ sample_id @ [1, 7])"
  "encode_body base128 (AckFrame 3 (js ''d'') sample_id 1) = Inr ([3, 1, 100] @ sample_id @ [1])"
  by (simp_all add: encodeAuth_def encodeReady_def encodeAck_def encodeSyncStep1_def encodeUpdate_def sample_id_def sample_writes
      max_state_vector_bytes_def max_update_bytes_def)

lemma sample_header: "0 < t \<Longrightarrow> t < 10 \<Longrightarrow> writeHeader base128 t = [0x45, 0x44, 0x42, 0x32, 1, word_of_int t]"
  by (simp add: writeHeader_def demo_writes demo_fields protocol_magic_def board_version_def)

lemma sample_encoded:
  assumes "encode_body base128 f = Inr body" "length body < 1000"
  shows "encodeBoardFrame base128 f = Inr (sample_bytes f)" "length (sample_bytes f) = 6 + length body"
proof -
  have "encodeBoardFrame base128 f = Inr ([0x45, 0x44, 0x42, 0x32, 1, word_of_int (frame_type f)] @ body)"
    unfolding encode_frame_eq assms(1) using assms(2) frame_type_range [of f]
    by (simp add: sample_header max_encoded_frame_bytes_def)
  then show "encodeBoardFrame base128 f = Inr (sample_bytes f)" "length (sample_bytes f) = 6 + length body"
    by (simp_all add: sample_bytes_def)
qed

lemmas sample_frames = sample_bodies [THEN sample_encoded(1), simplified] sample_bodies [THEN sample_encoded(2), simplified]

lemma sample_decoded:
  "encode_body base128 f = Inr body \<Longrightarrow> length body < 1000 \<Longrightarrow> kept_frame f \<Longrightarrow> decodeBoardFrame base128 (sample_bytes f) = Inr f"
  by (rule board_frame_roundtrip [OF base128_laws sample_encoded(1)])

lemma sample_kept: "kept_text (token_of demo_sign demo_nonce)" "kept_text (token_of demo_sign sample_nonce)" "kept_text (js ''d'')"
  by code_simp+

lemmas sample_read = sample_bodies [THEN sample_decoded, simplified sample_kept, simplified]

lemma sample_id_length [simp]: "length sample_id = 16"
  by (simp add: sample_id_def)

text \<open>What the service answers.\<close>

definition sample_access :: "jstr \<Rightarrow> jstr \<Rightarrow> jstr \<Rightarrow> jstr \<Rightarrow> board_access" where
  "sample_access uid hash name role = \<lparr> ac_boardId = js ''b1'', ac_lessonId = js ''l1'', ac_roomResourceId = None, ac_generation = 3,
     ac_protocolVersion = 1, ac_schemaVersion = 1, ac_lifecycle = BoardActive, ac_lessonStatus = LessonActive,
     ac_permissions = 3, ac_userId = uid, ac_sessionHash = hash, ac_displayName = name, ac_color = js ''#d33f49'', ac_role = role \<rparr>"

definition sample_ann :: board_access where "sample_ann = sample_access (js ''u1'') (js ''s1'') (js ''Ann'') (js ''tutor'')"
definition sample_bob :: board_access where "sample_bob = sample_access (js ''u2'') (js ''s2'') (js ''Bob'') (js ''student'')"

definition sample_tickets_left :: ticket_store where
  "sample_tickets_left = snd (authenticate demo_access_env (token_of demo_sign demo_nonce) 3 1 1 1 sample_tables sample_tickets)"

definition sample_tickets_gone :: ticket_store where
  "sample_tickets_gone = snd (authenticate demo_access_env (token_of demo_sign sample_nonce) 3 1 1 1 sample_tables sample_tickets_left)"

definition own_identity :: "board_access \<Rightarrow> sync_identity" where
  "own_identity a = access_identity_of a (profile_value \<lparr> p_displayName = ac_displayName a, p_color = ac_color a \<rparr>)"

lemma sample_answers:
  "fst (authenticate demo_access_env (token_of demo_sign demo_nonce) 3 1 1 1 sample_tables sample_tickets)
     = Inr \<lparr> au_access = sample_ann, au_capabilities = 1 \<rparr>"
  "fst (authenticate demo_access_env (token_of demo_sign sample_nonce) 3 1 1 1 sample_tables sample_tickets_left)
     = Inr \<lparr> au_access = sample_bob, au_capabilities = 1 \<rparr>"
  "reauthorize demo_access_env sample_tables (own_identity sample_ann) True = Inr sample_ann"
  "reauthorize demo_access_env sample_tables (own_identity sample_bob) False = Inr sample_bob"
  by code_simp+

section \<open>Running it\<close>

text \<open>Rules that run an action from the state it is given, the continuation last.\<close>

lemma state_congs:
  "s = s' \<Longrightarrow> obtaining m k s = obtaining m k s'"
  "t = t' \<Longrightarrow> andThen n p t = andThen n p t'"
  "u = u' \<Longrightarrow> attempt a h u = attempt a h u'"
  "v = v' \<Longrightarrow> both b bb v = both b bb v'"
  "x = x' \<Longrightarrow> rescue c cc x = rescue c cc x'"
  "xs = xs' \<Longrightarrow> y = y' \<Longrightarrow> each f xs y = each f xs' y'"
  "z = z' \<Longrightarrow> chain zs z = chain zs z'"
  "w = w' \<Longrightarrow> if_alive i d w = if_alive i d w'"
  "q = q' \<Longrightarrow> while_installed r q = while_installed r q'"
  by simp_all

lemma runs:
  "obtaining m k s = (case m s of (Inl e, s') \<Rightarrow> (Inl e, s') | (Inr x, s') \<Rightarrow> k x s')"
  "andThen n p t = (case n t of (Inl e, s') \<Rightarrow> (Inl e, s') | (Inr x, s') \<Rightarrow> p s')"
  "attempt a h u = (case a u of (Inl e, s') \<Rightarrow> h e s' | (Inr x, s') \<Rightarrow> (Inr x, s'))"
  "both b bb v = (case b v of (Inl e, s') \<Rightarrow> (Inl e, s') | (Inr x, s') \<Rightarrow> (if x then bb s' else (Inr False, s')))"
  "rescue c cc x = (case c x of (Inl e, s') \<Rightarrow> (if e = NeverReturns then (Inl e, s') else cc e s') | (Inr x, s') \<Rightarrow> (Inr x, s'))"
  "if_alive i d w = (case tr_heap w i of None \<Rightarrow> (Inr (), w) | Some k \<Rightarrow> if ws_state k = WsClosed then (Inr (), w) else d w)"
  "while_installed r q = (if tr_closed q then (Inr (), q) else r q)"
  by (auto simp: obtaining_def andThen_def attempt_def both_def rescue_def if_alive_def while_installed_def ask_def skip_def
      give_def throw_def split: prod.splits sum.splits option.splits)

lemma runs_lists:
  "chain [] y = (Inr (), y)" "chain (g # gs) u = (case g u of (Inl e, s') \<Rightarrow> (Inl e, s') | (Inr x, s') \<Rightarrow> chain gs s')"
  "each f [] l = (Inr (), l)" "each h (z # zs) v = (case h z v of (Inl e, s') \<Rightarrow> (Inl e, s') | (Inr x, s') \<Rightarrow> each h zs s')"
  by (auto simp: obtaining_def andThen_def skip_def give_def split: prod.splits sum.splits)

lemma runs_plain:
  "change cg y3 = (Inr (), cg y3)" "ask cf y4 = (Inr (cf y4), y4)" "skip y5 = (Inr (), y5)" "give x6 y6 = (Inr x6, y6)"
  "throw x7 y7 = (Inl x7, y7)" "lift x8 y8 = (x8, y8)"
  by (simp_all add: change_def ask_def skip_def give_def throw_def lift_def)

lemmas handlers = upgradeHandler_def canAdmitConnection_def onConnection_def connection_def conn_def set_connection_def
  record_effect_def new_connection_def onMessage_def consume_inbound_def frame_rate_def update_rate_def own_rate_def shared_rate_def
  handle_frame_def authenticate_connection_def serve_def allocateAwarenessClientId_def releasePendingAdmission_def join_board_def
  sendFrame_def send_or_def encode_frame_def sendEncoded_def sendEncodedWithoutLimit_def dispatchAuthenticated.simps
  handleSyncStep1_def guarded_def begin_sync_def reauthorizeFrame_def reauthorizeConnection_def reauthorizeAccess_def
  call_reauthorize_def set_access_def next_update_def start_wait_def wait_for_capacity_def add_task_def handleUpdate_def
  consumeUpdateBudget_def principalRateKey_def append_authorized_def hex_of_def broadcastDocument_def board_peers_def
  send_to_peer_def authorizeOutbound_def

lemmas counts_and_limits = rate_consume_def new_rate_def consumeKeyedRate_def evict_expired_def max_tracked_keys_def
  rate_window_ms_def inbound_frames_per_ip_def inbound_bytes_per_ip_def max_safe_integer_def updates_per_principal_def
  update_bytes_per_principal_def max_connections_def counter_def max_connections_per_ip_def max_pending_auth_def
  max_pending_auth_per_ip_def increment_def decrementCount_def set_add_def set_delete_def max_chunk_payload_bytes_def
  max_socket_buffered_def sync_socket_resume_def

lemma sample_ids: "next_awareness_id (en_draw sample_env) [] 0 = Some (1, 2)" "next_awareness_id (en_draw sample_env) [1] 2 = Some (2, 3)"
  by (simp_all add: sample_env_def next_awareness_id.simps [of _ _ 0] next_awareness_id.simps [of _ _ "Suc 0"]
      next_awareness_id.simps [of _ _ 2])

lemma sample_authenticated:
  "authenticate demo_access_env (token_of demo_sign demo_nonce) 3 1 1 1 sample_tables sample_tickets
     = (Inr \<lparr> au_access = sample_ann, au_capabilities = 1 \<rparr>, sample_tickets_left)"
  "authenticate demo_access_env (token_of demo_sign sample_nonce) 3 1 1 1 sample_tables sample_tickets_left
     = (Inr \<lparr> au_access = sample_bob, au_capabilities = 1 \<rparr>, sample_tickets_gone)"
  using sample_answers(1,2) by (simp_all add: prod_eq_iff sample_tickets_left_def sample_tickets_gone_def)

lemma sample_fields:
  "ac_boardId sample_ann = js ''b1''" "ac_generation sample_ann = 3" "ac_schemaVersion sample_ann = 1" "ac_permissions sample_ann = 3"
  "ac_userId sample_ann = js ''u1''" "ac_role sample_ann = js ''tutor''"
  "ac_boardId sample_bob = js ''b1''" "ac_generation sample_bob = 3" "ac_schemaVersion sample_bob = 1" "ac_permissions sample_bob = 3"
  "ac_userId sample_bob = js ''u2''" "ac_role sample_bob = js ''student''"
  by (simp_all add: sample_ann_def sample_bob_def sample_access_def)

lemma sample_env_simps:
  "en_enabled sample_env" "en_lib sample_env = base128" "en_appOrigins sample_env = [js ''https://eduri'']" "en_trustProxy sample_env = None"
  "en_service sample_env = board_service_of sample_documents" "en_afterSend sample_env b n = n"
  by (simp_all add: sample_env_def)

lemma sample_values:
  "resolveBoardSyncSourceIp (en_isIp sample_env) (js ''10.0.0.7'') NoRealIp None = js ''10.0.0.7''"
  "messageIdToHex sample_id = Inr (concat (replicate 16 (js ''01'')))" "(js ''tutor'' = js ''guest'') = False"
  by code_simp+

lemma same_identity:
  "access_identity_of a (profile_value \<lparr> p_displayName = ac_displayName a, p_color = ac_color a \<rparr>) = own_identity a"
  by (simp add: own_identity_def)

lemmas sample_rules = runs runs_lists runs_plain handlers counts_and_limits sample_frames sample_read sample_kept sample_ids
  sample_authenticated sample_answers(3,4) sample_fields sample_env_simps sample_values same_identity sample_request_def sample_message_def
  sample_world_def board_service_of_def on_documents_def sample_documents_def new_transport_def sync_path_def

definition sample_log :: "effect list" where
  "sample_log = [Admitted 0 (Inr \<lparr> au_access = sample_ann, au_capabilities = 1 \<rparr>),
     Sent 0 (ReadyFrame 3 1 1 1 3) (sample_bytes (ReadyFrame 3 1 1 1 3)),
     Admitted 1 (Inr \<lparr> au_access = sample_bob, au_capabilities = 1 \<rparr>),
     Sent 1 (ReadyFrame 3 1 1 2 3) (sample_bytes (ReadyFrame 3 1 1 2 3)),
     Checked 1 (own_identity sample_bob) False (Inr sample_bob),
     ReadDocument 1 sample_bob (js ''d''),
     Checked 0 (own_identity sample_ann) True (Inr sample_ann),
     Appended 0 sample_ann (js ''d'') (concat (replicate 16 (js ''01''))) [7] (Inr (1, False)),
     Checked 1 (own_identity sample_bob) False (Inr sample_bob),
     Sent 1 (UpdateFrame 3 (js ''d'') sample_id [7]) (sample_bytes (UpdateFrame 3 (js ''d'') sample_id [7])),
     Sent 0 (AckFrame 3 (js ''d'') sample_id 1) (sample_bytes (AckFrame 3 (js ''d'') sample_id 1))]"

definition sample_view :: "'w sync_transport \<Rightarrow> effect list \<times> nat list \<times> int list \<times> jstr \<times> bool \<times> int option" where
  "sample_view t = (tr_log t, tr_connections t, tr_issuedIds t, cn_ipKey (conn t 0), cn_pendingAuth (conn t 0),
     cn_awarenessClientId (conn t 1))"

lemma sample_happened: "sample_view sample_end = (sample_log, [0, 1], [1, 2], js ''10.0.0.7'', False, Some 2)"
  unfolding sample_end_def sync_run_def sample_joins_def sample_edits_def append.simps fold_Cons comp_apply fold_Nil id_apply
  by (simp add: sample_rules sample_view_def Let_def del: each_simps chain.simps split del: if_split cong: state_congs)
    (simp add: sample_log_def)

lemma sample_reached: "sync_reaches sample_env sample_end"
  unfolding sample_end_def by (rule sync_run_created)

end
