(* ===== verification/Sync_Promises.thy ===== *)
theory Sync_Promises
  imports Sync_Legitimate Sync_Admission Sync_Sample
begin

unbundle bit_operations_syntax

text \<open>
  What the board transport promises, with the access checks of \<open>sync-service.ts\<close>: about its log, in
  every state it can reach, whatever the documents do, others change in the tables and the clients send.
\<close>

abbreviation with_board_service :: "'d board_documents \<Rightarrow> 'd board_world sync_env \<Rightarrow> 'd board_world sync_env" where
  "with_board_service D E \<equiv> E\<lparr> en_service := board_service_of D \<rparr>"

interpretation board: granting_service "with_board_service D E" for D E
proof unfold_locales
  fix i edit a and w :: "'a board_world"
  assume "fst (sv_reauthorize (en_service (with_board_service D E)) i edit w) = Inr a"
  then have "reauthorize (bw_env w) (bw_tables w) i edit = Inr a"
    by (simp add: board_service_of_def)
  then show "identity_of a i \<and> (edit \<longrightarrow> ac_permissions a AND permission_edit \<noteq> 0)"
    using access_identity by (auto simp: reauthorize_Inr)
qed

section \<open>Promises\<close>

text \<open>
  C3. The board transport acknowledges only what is stored: when it sends an acknowledgement to a
  connection, an update of that connection with that message identifier has been appended by the
  service under that sequence number.
\<close>

theorem acknowledged_updates_are_stored:
  assumes "sync_reaches (with_board_service D E) t" "tr_log t = l1 @ Sent c (AckFrame g d m seq) b # l2"
  shows "\<exists>a h u duplicate. Appended c a d h u (Inr (seq, duplicate)) \<in> set l1 \<and> messageIdToHex m = Inr h"
  using board.legitimate_log [OF assms] by simp

text \<open>
  C1. Only authorised edits are stored: the transport appends an update right after the service has
  granted the connection the right to edit, for the board, generation, user and session with which
  the connection was admitted.
\<close>

theorem stored_updates_were_authorised:
  assumes "sync_reaches (with_board_service D E) t" "tr_log t = l1 @ Appended c a d h u r # l2"
  shows "\<exists>l0 i au. l1 = l0 @ [Checked c i True (Inr a)] \<and> identity_of a i \<and> ac_permissions a AND permission_edit \<noteq> 0
    \<and> Admitted c (Inr au) \<in> set l0 \<and> same_principal (au_access au) a"
proof -
  from board.legitimate_log [OF assms] obtain i l0 where l: "l1 = l0 @ [Checked c i True (Inr a)]" and adm: "admitted_as l1 c a"
    by (auto simp: just_granted_def)
  have "tr_log t = l0 @ Checked c i True (Inr a) # (Appended c a d h u r # l2)" using assms(2) l by simp
  from board.legitimate_log [OF assms(1) this]
  have "identity_of a i" "ac_permissions a AND permission_edit \<noteq> 0" by auto
  with l adm show ?thesis by (auto simp: admitted_as_def)
qed

text \<open>
  C2. Updates reach only the peers they may reach: an update is passed on only to a connection other
  than its author's, after it has been stored, if the connection has read or changed the document
  and the last check of it was granted, for the board the update was made on.
\<close>

theorem updates_reach_authorised_peers:
  assumes "sync_reaches (with_board_service D E) t" "tr_log t = l1 @ Sent c (UpdateFrame g d m u) b # l2"
  shows "touched l1 c d \<and> (\<exists>s a h r a'. s \<noteq> c \<and> Appended s a d h u (Inr r) \<in> set l1 \<and> messageIdToHex m = Inr h
    \<and> last_check l1 c = Some (Inr a') \<and> ac_boardId a' = ac_boardId a)"
  using board.legitimate_log [OF assms] by (simp only: legitimate.simps frame_legitimate.simps)

text \<open>The effects for a connection that a connection not admitted must not have.\<close>

definition concerns :: "nat \<Rightarrow> effect \<Rightarrow> bool" where
  "concerns c e \<longleftrightarrow> (case e of Sent p f b \<Rightarrow> p = c | Checked p i edit r \<Rightarrow> p = c | Appended p a d h u r \<Rightarrow> p = c
     | ReadDocument p a d \<Rightarrow> p = c | _ \<Rightarrow> False)"

text \<open>
  C4. A stranger gets and does nothing: before a connection is admitted, nothing is sent to it, and no
  check, reading or change of a document is made for it; and a document is read only for a
  connection to which access to that board has been granted.
\<close>

theorem strangers_get_nothing:
  assumes "sync_reaches (with_board_service D E) t" "tr_log t = l1 @ e # l2" "concerns c e"
  shows "(\<exists>au. Admitted c (Inr au) \<in> set l1) \<and> (\<forall>a d. e = ReadDocument c a d \<longrightarrow> (\<exists>i edit. Checked c i edit (Inr a) \<in> set l1))"
  using board.legitimate_log [OF assms(1,2)] assms(3)
  by (cases e) (auto simp: concerns_def admitted_as_def granted_def)

section \<open>The theorems applied\<close>

lemma sample_service: "with_board_service sample_documents sample_env = sample_env"
  by (simp add: sample_env_def)

lemma sample_history: "sync_reaches (with_board_service sample_documents sample_env) sample_end"
  by (simp only: sample_service sample_reached)

lemma sample_log_split: "tr_log sample_end = take n sample_log @ drop n sample_log"
  using sample_happened by (simp add: sample_view_def)

theorem acknowledged_updates_are_stored_witness:
  "\<exists>a h u duplicate. Appended 0 a (js ''d'') h u (Inr (1, duplicate)) \<in> set (take 10 sample_log) \<and> messageIdToHex sample_id = Inr h"
  by (rule acknowledged_updates_are_stored [OF sample_history, of _ _ 3 _ _ _ "sample_bytes (AckFrame 3 (js ''d'') sample_id 1)" "[]"])
    (use sample_log_split [of 10] in \<open>simp add: sample_log_def\<close>)

theorem stored_updates_were_authorised_witness:
  "\<exists>l0 i au. take 7 sample_log = l0 @ [Checked 0 i True (Inr sample_ann)] \<and> identity_of sample_ann i
    \<and> ac_permissions sample_ann AND permission_edit \<noteq> 0 \<and> Admitted 0 (Inr au) \<in> set l0 \<and> same_principal (au_access au) sample_ann"
  by (rule stored_updates_were_authorised [OF sample_history, of _ _ _ "js ''d''" _ _ _ "drop 8 sample_log"])
    (use sample_log_split [of 7] in \<open>simp add: sample_log_def\<close>)

theorem updates_reach_authorised_peers_witness:
  "touched (take 9 sample_log) 1 (js ''d'') \<and> (\<exists>s a h r a'. s \<noteq> 1 \<and> Appended s a (js ''d'') h [7] (Inr r) \<in> set (take 9 sample_log)
    \<and> messageIdToHex sample_id = Inr h \<and> last_check (take 9 sample_log) 1 = Some (Inr a') \<and> ac_boardId a' = ac_boardId a)"
  by (rule updates_reach_authorised_peers [OF sample_history, of _ _ 3 _ _ _
        "sample_bytes (UpdateFrame 3 (js ''d'') sample_id [7])" "drop 10 sample_log"])
    (use sample_log_split [of 9] in \<open>simp add: sample_log_def\<close>)

theorem strangers_get_nothing_witness:
  "(\<exists>au. Admitted 1 (Inr au) \<in> set (take 5 sample_log)) \<and> (\<exists>i edit. Checked 1 i edit (Inr sample_bob) \<in> set (take 5 sample_log))"
proof -
  have "tr_log sample_end = take 5 sample_log @ ReadDocument 1 sample_bob (js ''d'') # drop 6 sample_log"
    using sample_log_split [of 5] by (simp add: sample_log_def)
  from strangers_get_nothing [OF sample_history this, of 1] show ?thesis by (auto simp: concerns_def)
qed

theorem sync_admission_is_exact_witness:
  "counter (tr_ipConnections sample_end) (js ''10.0.0.7'') = int (length (connections_from sample_end (js ''10.0.0.7'')))
    \<and> length (tr_connections sample_end) = 2 \<and> 0 \<in> set (connections_from sample_end (js ''10.0.0.7''))"
  using sync_admission_is_exact [OF sample_reached, of "js ''10.0.0.7''"] sample_happened
  by (simp add: sample_view_def connections_from_def)

theorem presence_identifiers_are_unique_witness:
  "(2 :: int) \<noteq> 0 \<and> (2 :: int) \<in> set (tr_issuedIds sample_end) \<and> cn_awarenessClientId (conn sample_end 0) \<noteq> Some 2"
proof -
  have "1 \<in> set (tr_connections sample_end)" "0 \<in> set (tr_connections sample_end)"
    "cn_awarenessClientId (conn sample_end 1) = Some 2"
    using sample_happened by (simp_all add: sample_view_def)
  with presence_identifiers_are_unique [OF sample_reached, of 1 2] show ?thesis by auto
qed

end
