(* ===== verification/Code_Protocol.thy ===== *)
theory Code_Protocol
  imports Profile_Control Json_Text
begin

text \<open>
  The messages a client of a code workspace sends, and their parsers:
  \<open>src/code/protocol/codec.ts\<close>, with \<open>constants.ts\<close> and \<open>types.ts\<close> beside it. A value has
  passed Socket.IO, so bytes are values too; an object that is not one of bytes is plain. An error
  is the text of the exception. Which bytes are a Yjs position written in the canonical way is a parameter.
\<close>

section \<open>Values\<close>

datatype sval =
    SUndef
  | SNull
  | SBool bool
  | SNum jnum
  | SStr jstr
  | SBytes "byte list"
  | SArr "sval list"
  | SObj "(jstr \<times> sval) list"

type_synonym sobj = "(jstr \<times> sval) list"

definition sobj :: "(string \<times> sval) list \<Rightarrow> sval" where
  "sobj ps = SObj (map (\<lambda>(k, v). (js k, v)) ps)"

definition has_own :: "sobj \<Rightarrow> string \<Rightarrow> bool" where
  "has_own ob k \<longleftrightarrow> map_of ob (js k) \<noteq> None"

definition s_property :: "sobj \<Rightarrow> string \<Rightarrow> sval" where
  "s_property ob k = (case map_of ob (js k) of None \<Rightarrow> SUndef | Some v \<Rightarrow> v)"

text \<open>What the profile rules read of a value; bytes are neither text nor an object with fields.\<close>

fun to_jval :: "sval \<Rightarrow> jval" where
  "to_jval SUndef = JUndef"
| "to_jval SNull = JNull"
| "to_jval (SBool b) = JBool b"
| "to_jval (SNum n) = JNum n"
| "to_jval (SStr s) = JStr s"
| "to_jval (SBytes b) = JUndef"
| "to_jval (SArr vs) = JArr (map to_jval vs)"
| "to_jval (SObj ob) = JObj (map (\<lambda>(k, v). (k, to_jval v)) ob)"

section \<open>Constants\<close>

definition code_protocol_version :: int where "code_protocol_version = 3"
definition update_encoding :: jstr where "update_encoding = js ''yjs-update-v1''"
definition multi_selection_awareness :: jstr where "multi_selection_awareness = js ''multi-selection-awareness-v1''"
definition tag_step1 :: jstr where "tag_step1 = js ''eduri.code.sync-step1''"
definition tag_update :: jstr where "tag_update = js ''eduri.code.update''"
definition tag_awareness :: jstr where "tag_awareness = js ''eduri.code.awareness''"
definition tag_capabilities :: jstr where "tag_capabilities = js ''eduri.code.capabilities''"
definition tag_profile_update :: jstr where "tag_profile_update = js ''eduri.code.profile-update''"

definition code_max_update_bytes :: nat where "code_max_update_bytes = 4 * 1024 * 1024"
definition code_max_state_vector_bytes :: nat where "code_max_state_vector_bytes = 64 * 1024"
definition code_max_awareness_bytes :: nat where "code_max_awareness_bytes = 2 * 1024"
definition code_max_identifier_length :: nat where "code_max_identifier_length = 128"
definition code_max_position_bytes :: nat where "code_max_position_bytes = 512"
definition code_max_selections :: nat where "code_max_selections = 32"
definition code_max_draft_length :: nat where "code_max_draft_length = 1024"

section \<open>Data\<close>

datatype test_field = FieldStdin | FieldExpectedOutput | FieldName | FieldTimeout

datatype code_target = FileTarget jstr | TestTarget jstr test_field | TerminalTarget | ExplorerTarget jstr

record relative_selection =
  rs_anchor :: "byte list"
  rs_head :: "byte list"

record scalar_input =
  si_draft :: jstr
  si_anchor :: int
  si_head :: int

record code_awareness =
  aw_target :: code_target
  aw_selections :: "relative_selection list option"
  aw_input :: "scalar_input option"

text \<open>What a recipient gets: the state, or the form of it with one selection.\<close>

datatype awareness_wire = PluralState code_awareness | LegacyState code_target "relative_selection option"

datatype code_message =
    CodeStep1 jstr "byte list"
  | CodeUpdate jstr jstr "byte list"
  | CodeAwareness "code_awareness option"
  | CodeCapabilities
  | CodeProfileUpdate profile

record code_handshake =
  ha_shareId :: jstr
  ha_deviceId :: jstr
  ha_profile :: "profile option"

section \<open>Readers\<close>

type_synonym 'a parsed = "jstr + 'a"

definition deny :: "string \<Rightarrow> 'a parsed" where
  "deny m = Inl (js m)"

definition reads :: "'a parsed \<Rightarrow> ('a \<Rightarrow> 'b parsed) \<Rightarrow> 'b parsed" where
  "reads p k = (case p of Inl e \<Rightarrow> Inl e | Inr x \<Rightarrow> k x)"

definition require :: "bool \<Rightarrow> string \<Rightarrow> 'a parsed \<Rightarrow> 'a parsed" where
  "require b m p = (if b then p else deny m)"

fun code_record :: "string \<Rightarrow> sval \<Rightarrow> sobj parsed" where
  "code_record label (SObj ob) = Inr ob"
| "code_record label (SBytes b) = deny (label @ '' must be a plain object'')"
| "code_record label _ = deny (label @ '' must be an object'')"

definition exactKeys :: "string list \<Rightarrow> string \<Rightarrow> sobj \<Rightarrow> unit parsed" where
  "exactKeys allowed label ob =
     (if list_ex (\<lambda>k. k \<notin> js ` set allowed) (map fst ob) then deny (label @ '' contains an unsupported field'')
      else case find (\<lambda>k. \<not> has_own ob k) allowed of
        Some k \<Rightarrow> deny (label @ '' is missing '' @ [CHR 0x27] @ k @ [CHR 0x27]) | None \<Rightarrow> Inr ())"

definition code_ident_unit :: "code_unit \<Rightarrow> bool" where
  "code_ident_unit c \<longleftrightarrow> in_range 0x41 0x5a c \<or> in_range 0x61 0x7a c \<or> in_range 0x30 0x39 c \<or> c = 0x5f \<or> c = 0x2d"

definition ident_ok :: "jstr \<Rightarrow> bool" where
  "ident_ok s \<longleftrightarrow> 1 \<le> length s \<and> length s \<le> code_max_identifier_length \<and> list_all code_ident_unit s"

fun read_identifier :: "string \<Rightarrow> sval \<Rightarrow> jstr parsed" where
  "read_identifier label (SStr s) = require (ident_ok s) (label @ '' is invalid'') (Inr s)"
| "read_identifier label _ = deny (label @ '' is invalid'')"

fun code_bytes :: "nat \<Rightarrow> string \<Rightarrow> sval \<Rightarrow> byte list parsed" where
  "code_bytes mx label (SBytes b) = require (1 \<le> length b \<and> length b \<le> mx) (label @ '' exceeds its size limit'') (Inr b)"
| "code_bytes mx label _ = deny (label @ '' must be binary'')"

section \<open>Presence\<close>

definition field_name :: "test_field \<Rightarrow> string" where
  "field_name f = (case f of FieldStdin \<Rightarrow> ''stdin'' | FieldExpectedOutput \<Rightarrow> ''expectedOutput'' | FieldName \<Rightarrow> ''name''
     | FieldTimeout \<Rightarrow> ''timeout'')"

definition test_field_of :: "sval \<Rightarrow> test_field option" where
  "test_field_of v = find (\<lambda>f. v = SStr (js (field_name f))) [FieldStdin, FieldExpectedOutput, FieldName, FieldTimeout]"

definition awarenessTarget :: "sval \<Rightarrow> code_target parsed" where
  "awarenessTarget v = reads (code_record ''awareness target'' v) (\<lambda>ob.
     let kind = s_property ob ''kind''; field = s_property ob ''field''
     in if kind = SStr (js ''file'') then reads (exactKeys [''kind'', ''entryId'', ''field''] ''file awareness target'' ob) (\<lambda>_.
          require (field = SStr (js ''text'')) ''file awareness target field is invalid''
            (map_sum id FileTarget (read_identifier ''file awareness target entryId'' (s_property ob ''entryId''))))
        else if kind = SStr (js ''test'') then reads (exactKeys [''kind'', ''testId'', ''field''] ''test awareness target'' ob) (\<lambda>_.
          case test_field_of field of None \<Rightarrow> deny ''test awareness target field is invalid''
          | Some f \<Rightarrow> map_sum id (\<lambda>i. TestTarget i f) (read_identifier ''test awareness target testId'' (s_property ob ''testId'')))
        else if kind = SStr (js ''terminal'') then reads (exactKeys [''kind'', ''field''] ''terminal awareness target'' ob) (\<lambda>_.
          require (field = SStr (js ''input'')) ''terminal awareness target field is invalid'' (Inr TerminalTarget))
        else if kind = SStr (js ''explorer'') then reads (exactKeys [''kind'', ''entryId'', ''field''] ''explorer awareness target'' ob) (\<lambda>_.
          require (field = SStr (js ''rename'')) ''explorer awareness target field is invalid''
            (map_sum id ExplorerTarget (read_identifier ''explorer awareness target entryId'' (s_property ob ''entryId''))))
        else deny ''awareness target is invalid'')"

definition relativePositionBytes :: "(byte list \<Rightarrow> bool) \<Rightarrow> string \<Rightarrow> sval \<Rightarrow> byte list parsed" where
  "relativePositionBytes position label v = reads (code_bytes code_max_position_bytes label v) (\<lambda>b.
     require (position b) (label @ '' is not an encoded Yjs relative position'') (Inr b))"

definition relativeSelection :: "(byte list \<Rightarrow> bool) \<Rightarrow> sval \<Rightarrow> relative_selection parsed" where
  "relativeSelection position v = reads (code_record ''awareness selection'' v) (\<lambda>ob.
     reads (exactKeys [''anchor'', ''head''] ''awareness selection'' ob) (\<lambda>_.
     reads (relativePositionBytes position ''awareness selection anchor'' (s_property ob ''anchor'')) (\<lambda>a.
     reads (relativePositionBytes position ''awareness selection head'' (s_property ob ''head'')) (\<lambda>h.
     Inr \<lparr> rs_anchor = a, rs_head = h \<rparr>))))"

fun read_all :: "('a \<Rightarrow> 'b parsed) \<Rightarrow> 'a list \<Rightarrow> 'b list parsed" where
  "read_all p [] = Inr []"
| "read_all p (v # vs) = reads (p v) (\<lambda>x. reads (read_all p vs) (\<lambda>xs. Inr (x # xs)))"

definition selection_count_ok :: "nat \<Rightarrow> bool" where
  "selection_count_ok n \<longleftrightarrow> 1 \<le> n \<and> n \<le> code_max_selections"

fun relativeSelections :: "(byte list \<Rightarrow> bool) \<Rightarrow> sval \<Rightarrow> relative_selection list parsed" where
  "relativeSelections position (SArr vs) =
     require (selection_count_ok (length vs)) ''awareness selections exceed their count limit'' (read_all (relativeSelection position) vs)"
| "relativeSelections position _ = deny ''awareness selections exceed their count limit''"

definition targetSupportsRelativeSelection :: "code_target \<Rightarrow> bool" where
  "targetSupportsRelativeSelection t = (case t of FileTarget i \<Rightarrow> True
     | TestTarget i f \<Rightarrow> f = FieldStdin \<or> f = FieldExpectedOutput | _ \<Rightarrow> False)"

definition targetSupportsScalarInput :: "code_target \<Rightarrow> bool" where
  "targetSupportsScalarInput t = (case t of ExplorerTarget i \<Rightarrow> True
     | TestTarget i f \<Rightarrow> f = FieldName \<or> f = FieldTimeout | _ \<Rightarrow> False)"

fun endpoint :: "int \<Rightarrow> string \<Rightarrow> sval \<Rightarrow> int parsed" where
  "endpoint draftLength label (SNum (JInt i)) =
     require (\<bar>i\<bar> \<le> max_safe_integer \<and> 0 \<le> i \<and> i \<le> draftLength) (label @ '' is outside the scalar draft'') (Inr i)"
| "endpoint draftLength label _ = deny (label @ '' is outside the scalar draft'')"

definition absoluteSelection :: "int \<Rightarrow> sval \<Rightarrow> (int \<times> int) parsed" where
  "absoluteSelection draftLength v = reads (code_record ''scalar awareness selection'' v) (\<lambda>ob.
     reads (exactKeys [''anchor'', ''head''] ''scalar awareness selection'' ob) (\<lambda>_.
     reads (endpoint draftLength ''scalar awareness selection anchor'' (s_property ob ''anchor'')) (\<lambda>a.
     reads (endpoint draftLength ''scalar awareness selection head'' (s_property ob ''head'')) (\<lambda>h. Inr (a, h)))))"

definition scalarInputPresence :: "sval \<Rightarrow> scalar_input parsed" where
  "scalarInputPresence v = reads (code_record ''scalar awareness input'' v) (\<lambda>ob.
     reads (exactKeys [''draft'', ''selection''] ''scalar awareness input'' ob) (\<lambda>_.
     case s_property ob ''draft'' of
       SStr d \<Rightarrow> require (length d \<le> code_max_draft_length) ''scalar awareness draft exceeds its size limit''
         (reads (absoluteSelection (int (length d)) (s_property ob ''selection'')) (\<lambda>(a, h).
           Inr \<lparr> si_draft = d, si_anchor = a, si_head = h \<rparr>))
     | _ \<Rightarrow> deny ''scalar awareness draft exceeds its size limit''))"

text \<open>The size of a state: its JSON text without the positions, and the bytes of these.\<close>

definition target_metadata :: "code_target \<Rightarrow> jval" where
  "target_metadata t = (case t of
       FileTarget i \<Rightarrow> obj [(''kind'', JStr (js ''file'')), (''entryId'', JStr i), (''field'', JStr (js ''text''))]
     | TestTarget i f \<Rightarrow> obj [(''kind'', JStr (js ''test'')), (''testId'', JStr i), (''field'', JStr (js (field_name f)))]
     | TerminalTarget \<Rightarrow> obj [(''kind'', JStr (js ''terminal'')), (''field'', JStr (js ''input''))]
     | ExplorerTarget i \<Rightarrow> obj [(''kind'', JStr (js ''explorer'')), (''entryId'', JStr i), (''field'', JStr (js ''rename''))])"

definition input_metadata :: "scalar_input \<Rightarrow> jval" where
  "input_metadata i = obj [(''draft'', JStr (si_draft i)),
     (''selection'', obj [(''anchor'', JNum (JInt (si_anchor i))), (''head'', JNum (JInt (si_head i)))])]"

definition awareness_metadata :: "code_awareness \<Rightarrow> jval" where
  "awareness_metadata st = obj ([(''target'', target_metadata (aw_target st))]
     @ (case aw_input st of None \<Rightarrow> [] | Some i \<Rightarrow> [(''input'', input_metadata i)])
     @ (case aw_selections st of None \<Rightarrow> []
        | Some ss \<Rightarrow> [(''selections'', JArr (map (\<lambda>_. obj [(''anchor'', JNull), (''head'', JNull)]) ss))]))"

definition awarenessByteLength :: "code_awareness \<Rightarrow> nat" where
  "awarenessByteLength st = utf8_length (json_text (awareness_metadata st))
     + (case aw_selections st of None \<Rightarrow> 0 | Some ss \<Rightarrow> sum_list (map (\<lambda>s. length (rs_anchor s) + length (rs_head s)) ss))"

definition toLegacyCodeAwarenessState :: "code_awareness \<Rightarrow> awareness_wire" where
  "toLegacyCodeAwarenessState st =
     (if \<not> targetSupportsRelativeSelection (aw_target st) then PluralState st
      else LegacyState (aw_target st) (case aw_selections st of Some (s # ss) \<Rightarrow> Some s | _ \<Rightarrow> None))"

definition parseCodeAwarenessState :: "(byte list \<Rightarrow> bool) \<Rightarrow> sval \<Rightarrow> code_awareness parsed" where
  "parseCodeAwarenessState position v = reads (code_record ''awareness state'' v) (\<lambda>ob.
     require (has_own ob ''target'') (''awareness state is missing '' @ [CHR 0x27] @ ''target'' @ [CHR 0x27])
     (require (list_all (\<lambda>k. k \<in> js ` set [''target'', ''selection'', ''selections'', ''input'']) (map fst ob))
        ''awareness state contains an unsupported field''
     (reads (awarenessTarget (s_property ob ''target'')) (\<lambda>t.
      let one = has_own ob ''selection''; many = has_own ob ''selections''; scalar = has_own ob ''input'';
          state = (if targetSupportsRelativeSelection t
            then require (\<not> (scalar \<or> one \<and> many)) ''Y.Text awareness target does not support scalar input''
              (if many then map_sum id (\<lambda>ss. \<lparr> aw_target = t, aw_selections = Some ss, aw_input = None \<rparr>)
                  (relativeSelections position (s_property ob ''selections''))
               else if one then map_sum id (\<lambda>s. \<lparr> aw_target = t, aw_selections = Some [s], aw_input = None \<rparr>)
                  (relativeSelection position (s_property ob ''selection''))
               else Inr \<lparr> aw_target = t, aw_selections = None, aw_input = None \<rparr>)
            else if targetSupportsScalarInput t
            then require (\<not> (one \<or> many)) ''scalar awareness target does not support relative selection''
              (if scalar then map_sum id (\<lambda>i. \<lparr> aw_target = t, aw_selections = None, aw_input = Some i \<rparr>)
                  (scalarInputPresence (s_property ob ''input''))
               else Inr \<lparr> aw_target = t, aw_selections = None, aw_input = None \<rparr>)
            else require (\<not> (one \<or> many \<or> scalar)) ''terminal awareness target does not support text state''
              (Inr \<lparr> aw_target = t, aw_selections = None, aw_input = None \<rparr>))
      in reads state (\<lambda>st.
           require (awarenessByteLength st \<le> code_max_awareness_bytes) ''awareness state exceeds its size limit'' (Inr st))))))"

section \<open>Messages\<close>

fun profile_error_text :: "profile_error \<Rightarrow> string" where
  "profile_error_text ProfileNotObject = ''Collaboration profile must be an object''"
| "profile_error_text ProfileFieldsInvalid = ''Collaboration profile fields are invalid''"
| "profile_error_text NameNotText = ''Display name must be text''"
| "profile_error_text NameInvalid = ''Display name is invalid''"
| "profile_error_text ColorNotText = ''Profile color must be text''"
| "profile_error_text ColorInvalid = ''Profile color must use #rrggbb''"
| "profile_error_text _ = []"

fun code_profile :: "(jstr \<Rightarrow> jstr) \<Rightarrow> sval \<Rightarrow> profile parsed" where
  "code_profile nfkc (SBytes b) = deny ''Collaboration profile must be a plain object''"
| "code_profile nfkc v = map_sum (\<lambda>e. js (profile_error_text e)) id (normalizeCollaborationProfile nfkc (to_jval v))"

fun share_id_ok :: "sval \<Rightarrow> jstr option" where
  "share_id_ok (SStr s) = (if length s = 43 \<and> list_all code_ident_unit s then Some s else None)"
| "share_id_ok _ = None"

definition parseCodeSyncHandshakeAuth :: "(jstr \<Rightarrow> jstr) \<Rightarrow> sval \<Rightarrow> code_handshake parsed" where
  "parseCodeSyncHandshakeAuth nfkc v = reads (code_record ''Code sync auth'' v) (\<lambda>ob.
     require (has_own ob ''shareId'' \<and> has_own ob ''deviceId''
         \<and> list_all (\<lambda>k. k \<in> js ` set [''shareId'', ''deviceId'', ''profile'']) (map fst ob)) ''Code sync auth fields are invalid''
     (case share_id_ok (s_property ob ''shareId'') of None \<Rightarrow> deny ''shareId is invalid''
      | Some share \<Rightarrow>
         reads (if has_own ob ''profile'' then map_sum id Some (code_profile nfkc (s_property ob ''profile'')) else Inr None) (\<lambda>p.
         reads (read_identifier ''deviceId'' (s_property ob ''deviceId'')) (\<lambda>d.
         Inr \<lparr> ha_shareId = share, ha_deviceId = d, ha_profile = p \<rparr>))))"

definition messageBase :: "sval \<Rightarrow> sobj parsed" where
  "messageBase v = reads (code_record ''Code sync message'' v) (\<lambda>ob.
     require (s_property ob ''protocolVersion'' = SNum (JInt code_protocol_version))
       ''Code sync protocol version is unsupported'' (Inr ob))"

definition parseCodeSyncClientMessage :: "(byte list \<Rightarrow> bool) \<Rightarrow> (jstr \<Rightarrow> jstr) \<Rightarrow> sval \<Rightarrow> code_message parsed" where
  "parseCodeSyncClientMessage position nfkc v = reads (messageBase v) (\<lambda>ob.
     let tag = s_property ob ''type''
     in if tag = SStr tag_step1 then
          reads (exactKeys [''type'', ''protocolVersion'', ''requestId'', ''stateVector''] ''SYNC_STEP1'' ob) (\<lambda>_.
          reads (read_identifier ''requestId'' (s_property ob ''requestId'')) (\<lambda>r.
          reads (code_bytes code_max_state_vector_bytes ''stateVector'' (s_property ob ''stateVector'')) (\<lambda>sv. Inr (CodeStep1 r sv))))
        else if tag = SStr tag_update then
          reads (exactKeys [''type'', ''protocolVersion'', ''requestId'', ''updateId'', ''updateEncoding'', ''update''] ''UPDATE'' ob) (\<lambda>_.
          require (s_property ob ''updateEncoding'' = SStr update_encoding) ''UPDATE encoding is unsupported''
          (reads (read_identifier ''requestId'' (s_property ob ''requestId'')) (\<lambda>r.
           reads (read_identifier ''updateId'' (s_property ob ''updateId'')) (\<lambda>i.
           reads (code_bytes code_max_update_bytes ''update'' (s_property ob ''update'')) (\<lambda>u. Inr (CodeUpdate r i u))))))
        else if tag = SStr tag_awareness then
          reads (exactKeys [''type'', ''protocolVersion'', ''state''] ''AWARENESS'' ob) (\<lambda>_.
          if s_property ob ''state'' = SNull then Inr (CodeAwareness None)
          else map_sum id (\<lambda>st. CodeAwareness (Some st)) (parseCodeAwarenessState position (s_property ob ''state'')))
        else if tag = SStr tag_capabilities then
          reads (exactKeys [''type'', ''protocolVersion'', ''capabilities''] ''CAPABILITIES'' ob) (\<lambda>_.
          require (s_property ob ''capabilities'' = SArr [SStr multi_selection_awareness]) ''Code sync capabilities are invalid''
            (Inr CodeCapabilities))
        else if tag = SStr tag_profile_update then
          reads (exactKeys [''type'', ''protocolVersion'', ''profile''] ''PROFILE_UPDATE'' ob) (\<lambda>_.
          map_sum id CodeProfileUpdate (code_profile nfkc (s_property ob ''profile'')))
        else deny ''Code sync message type is unsupported'')"

end
