(* ===== verification/Code_Messages.thy ===== *)
theory Code_Messages
  imports Code_Protocol Profile_Codec
begin

text \<open>
  The parsers of the code protocol against its messages: what is accepted is well formed, and a well
  formed message, written as its clients write it, is accepted as itself.
\<close>

section \<open>Writing a message\<close>

definition target_value :: "code_target \<Rightarrow> sval" where
  "target_value t = (case t of
       FileTarget i \<Rightarrow> sobj [(''kind'', SStr (js ''file'')), (''entryId'', SStr i), (''field'', SStr (js ''text''))]
     | TestTarget i f \<Rightarrow> sobj [(''kind'', SStr (js ''test'')), (''testId'', SStr i), (''field'', SStr (js (field_name f)))]
     | TerminalTarget \<Rightarrow> sobj [(''kind'', SStr (js ''terminal'')), (''field'', SStr (js ''input''))]
     | ExplorerTarget i \<Rightarrow> sobj [(''kind'', SStr (js ''explorer'')), (''entryId'', SStr i), (''field'', SStr (js ''rename''))])"

definition selection_value :: "relative_selection \<Rightarrow> sval" where
  "selection_value s = sobj [(''anchor'', SBytes (rs_anchor s)), (''head'', SBytes (rs_head s))]"

definition input_value :: "scalar_input \<Rightarrow> sval" where
  "input_value i = sobj [(''draft'', SStr (si_draft i)),
     (''selection'', sobj [(''anchor'', SNum (JInt (si_anchor i))), (''head'', SNum (JInt (si_head i)))])]"

definition awareness_value :: "code_awareness \<Rightarrow> sval" where
  "awareness_value st = sobj ([(''target'', target_value (aw_target st))]
     @ (case aw_selections st of None \<Rightarrow> [] | Some ss \<Rightarrow> [(''selections'', SArr (map selection_value ss))])
     @ (case aw_input st of None \<Rightarrow> [] | Some i \<Rightarrow> [(''input'', input_value i)]))"

fun wire_value :: "awareness_wire \<Rightarrow> sval" where
  "wire_value (PluralState st) = awareness_value st"
| "wire_value (LegacyState t s) = sobj ((''target'', target_value t)
     # (case s of None \<Rightarrow> [] | Some s \<Rightarrow> [(''selection'', selection_value s)]))"

definition profile_sval :: "profile \<Rightarrow> sval" where
  "profile_sval p = sobj [(''displayName'', SStr (p_displayName p)), (''color'', SStr (p_color p))]"

definition message_fields :: "code_message \<Rightarrow> jstr \<times> (string \<times> sval) list" where
  "message_fields m = (case m of
       CodeStep1 r sv \<Rightarrow> (tag_step1, [(''requestId'', SStr r), (''stateVector'', SBytes sv)])
     | CodeUpdate r i u \<Rightarrow> (tag_update, [(''requestId'', SStr r), (''updateId'', SStr i),
         (''updateEncoding'', SStr update_encoding), (''update'', SBytes u)])
     | CodeAwareness st \<Rightarrow> (tag_awareness, [(''state'', case st of None \<Rightarrow> SNull | Some s \<Rightarrow> awareness_value s)])
     | CodeCapabilities \<Rightarrow> (tag_capabilities, [(''capabilities'', SArr [SStr multi_selection_awareness])])
     | CodeProfileUpdate p \<Rightarrow> (tag_profile_update, [(''profile'', profile_sval p)]))"

definition message_value :: "code_message \<Rightarrow> sval" where
  "message_value m = sobj ([(''type'', SStr (fst (message_fields m))),
     (''protocolVersion'', SNum (JInt code_protocol_version))] @ snd (message_fields m))"

section \<open>Well-formed messages\<close>

definition bytes_ok :: "nat \<Rightarrow> byte list \<Rightarrow> bool" where
  "bytes_ok mx b \<longleftrightarrow> 1 \<le> length b \<and> length b \<le> mx"

definition target_ok :: "code_target \<Rightarrow> bool" where
  "target_ok t = (case t of FileTarget i \<Rightarrow> ident_ok i | TestTarget i f \<Rightarrow> ident_ok i | TerminalTarget \<Rightarrow> True
     | ExplorerTarget i \<Rightarrow> ident_ok i)"

definition position_ok :: "(byte list \<Rightarrow> bool) \<Rightarrow> byte list \<Rightarrow> bool" where
  "position_ok position b \<longleftrightarrow> bytes_ok code_max_position_bytes b \<and> position b"

definition selection_ok :: "(byte list \<Rightarrow> bool) \<Rightarrow> relative_selection \<Rightarrow> bool" where
  "selection_ok position s \<longleftrightarrow> position_ok position (rs_anchor s) \<and> position_ok position (rs_head s)"

definition input_ok :: "scalar_input \<Rightarrow> bool" where
  "input_ok i \<longleftrightarrow> length (si_draft i) \<le> code_max_draft_length \<and> 0 \<le> si_anchor i \<and> si_anchor i \<le> int (length (si_draft i))
     \<and> 0 \<le> si_head i \<and> si_head i \<le> int (length (si_draft i))"

definition awareness_ok :: "(byte list \<Rightarrow> bool) \<Rightarrow> code_awareness \<Rightarrow> bool" where
  "awareness_ok position st \<longleftrightarrow> target_ok (aw_target st)
     \<and> pred_option (\<lambda>ss. targetSupportsRelativeSelection (aw_target st) \<and> selection_count_ok (length ss)
         \<and> list_all (selection_ok position) ss) (aw_selections st)
     \<and> pred_option (\<lambda>i. targetSupportsScalarInput (aw_target st) \<and> input_ok i) (aw_input st)
     \<and> awarenessByteLength st \<le> code_max_awareness_bytes"

definition message_ok :: "(byte list \<Rightarrow> bool) \<Rightarrow> (jstr \<Rightarrow> jstr) \<Rightarrow> code_message \<Rightarrow> bool" where
  "message_ok position nfkc m = (case m of
       CodeStep1 r sv \<Rightarrow> ident_ok r \<and> bytes_ok code_max_state_vector_bytes sv
     | CodeUpdate r i u \<Rightarrow> ident_ok r \<and> ident_ok i \<and> bytes_ok code_max_update_bytes u
     | CodeAwareness st \<Rightarrow> pred_option (awareness_ok position) st
     | CodeCapabilities \<Rightarrow> True
     | CodeProfileUpdate p \<Rightarrow> normalized_profile nfkc p = Inr p)"

section \<open>Readers\<close>

named_theorems code_simps \<open>rewrite rules that evaluate the readers of the code protocol\<close>

lemma reads_Inr [code_simps]: "reads (Inr x) k = k x"
  by (simp add: reads_def)

lemma require_True [code_simps]: "b \<Longrightarrow> require b m p = p"
  by (simp add: require_def)

lemma code_record_sobj [code_simps]: "code_record label (sobj ps) = Inr (map (\<lambda>(k, v). (js k, v)) ps)"
  by (simp add: sobj_def)

lemma s_property_simps [code_simps]:
  "s_property [] k = SUndef" "s_property ((js k', v) # ob) k = (if k = k' then v else s_property ob k)"
  by (simp_all add: s_property_def)

lemma has_own_simps [code_simps]:
  "\<not> has_own [] k" "has_own ((js k', v) # ob) k \<longleftrightarrow> k = k' \<or> has_own ob k"
  by (simp_all add: has_own_def)

lemma reads_cases: "reads p k = Inr y \<longleftrightarrow> (\<exists>x. p = Inr x \<and> k x = Inr y)"
  by (auto simp: reads_def split: sum.splits)

lemma require_cases: "require b m p = Inr y \<longleftrightarrow> b \<and> p = Inr y"
  by (simp add: require_def deny_def)

lemma deny_cases [simp]: "deny m \<noteq> Inr y"
  by (simp add: deny_def)

lemma map_sum_id_Inr: "map_sum f id x = Inr b \<longleftrightarrow> x = Inr b"
  by (cases x) auto

lemmas accepted = reads_cases require_cases map_sum_Inr_iff map_sum_id_Inr

lemma read_identifier_Inr: "read_identifier label v = Inr s \<longleftrightarrow> v = SStr s \<and> ident_ok s"
  by (cases v) (auto simp: accepted)

lemma code_bytes_Inr: "code_bytes mx label v = Inr b \<longleftrightarrow> v = SBytes b \<and> bytes_ok mx b"
  by (cases v) (auto simp: accepted bytes_ok_def)

declare read_identifier.simps [simp del] code_bytes.simps [simp del]

lemma endpoint_Inr:
  "endpoint n label v = Inr i \<longleftrightarrow> v = SNum (JInt i) \<and> \<bar>i\<bar> \<le> max_safe_integer \<and> 0 \<le> i \<and> i \<le> n"
  by (cases v rule: sval.exhaust; (simp; fail)?; (rename_tac m; case_tac m; auto simp: accepted)?)

section \<open>What is accepted is well formed\<close>

lemma target_accepted: "awarenessTarget v = Inr t \<Longrightarrow> target_ok t"
  by (auto simp: awarenessTarget_def accepted read_identifier_Inr target_ok_def Let_def split: if_splits option.splits)

lemma selection_accepted: "relativeSelection position v = Inr s \<Longrightarrow> selection_ok position s"
  by (auto simp: relativeSelection_def relativePositionBytes_def accepted code_bytes_Inr selection_ok_def position_ok_def)

lemma read_all_accepted:
  "read_all p vs = Inr xs \<Longrightarrow> (\<And>v x. p v = Inr x \<Longrightarrow> ok x) \<Longrightarrow> list_all ok xs \<and> length xs = length vs"
  by (induction vs arbitrary: xs) (auto simp: accepted)

lemma selections_accepted:
  "relativeSelections position v = Inr ss \<Longrightarrow> selection_count_ok (length ss) \<and> list_all (selection_ok position) ss"
  using read_all_accepted [of "relativeSelection position" _ ss "selection_ok position"] selection_accepted
  by (cases v) (auto simp: accepted)

lemma input_accepted:
  assumes "scalarInputPresence v = Inr i"
  shows "input_ok i"
proof -
  from assms obtain ob where "(case s_property ob ''draft'' of
       SStr d \<Rightarrow> require (length d \<le> code_max_draft_length) ''scalar awareness draft exceeds its size limit''
         (reads (absoluteSelection (int (length d)) (s_property ob ''selection'')) (\<lambda>(a, h).
           Inr \<lparr> si_draft = d, si_anchor = a, si_head = h \<rparr>))
     | _ \<Rightarrow> deny ''scalar awareness draft exceeds its size limit'') = Inr i"
    by (auto simp: scalarInputPresence_def accepted)
  then show ?thesis
    by (cases "s_property ob ''draft''") (auto simp: absoluteSelection_def accepted endpoint_Inr input_ok_def)
qed

lemma awareness_accepted: "parseCodeAwarenessState position v = Inr st \<Longrightarrow> awareness_ok position st"
  using target_accepted selection_accepted selections_accepted input_accepted
  by (fastforce simp: parseCodeAwarenessState_def accepted awareness_ok_def Let_def selection_count_ok_def code_max_selections_def
      split: if_splits)

lemma code_profile_accepted:
  assumes "nfkc_laws nfkc" "code_profile nfkc v = Inr p"
  shows "normalized_profile nfkc p = Inr p"
proof -
  have "normalizeCollaborationProfile nfkc (to_jval v) = Inr p"
    using assms(2) by (cases v) (auto simp: accepted)
  then obtain name color where "normalizeCollaborationDisplayName nfkc (JStr name) = Inr (p_displayName p)"
    "normalizeCollaborationColor (JStr color) = Inr (p_color p)"
    by (auto elim!: normalizeCollaborationProfile.elims normalizeCollaborationDisplayName.elims normalizeCollaborationColor.elims
        split: if_splits sum.splits)
  then show ?thesis using name_idem [OF assms(1)] color_idem by (simp add: normalized_Inr)
qed

lemma message_accepted:
  "nfkc_laws nfkc \<Longrightarrow> parseCodeSyncClientMessage position nfkc v = Inr m \<Longrightarrow> message_ok position nfkc m"
  using awareness_accepted code_profile_accepted
  by (auto simp: parseCodeSyncClientMessage_def accepted message_ok_def read_identifier_Inr code_bytes_Inr Let_def
      split: if_splits)

section \<open>A well-formed message is accepted\<close>

lemma read_identifier_ok [code_simps]: "ident_ok s \<Longrightarrow> read_identifier label (SStr s) = Inr s"
  by (simp add: read_identifier_Inr)

lemma code_bytes_ok [code_simps]: "bytes_ok mx b \<Longrightarrow> code_bytes mx label (SBytes b) = Inr b"
  by (simp add: code_bytes_Inr)

lemmas reading = exactKeys_def code_simps Let_def sobj_def

lemma target_read [code_simps]:
  assumes "target_ok t"
  shows "awarenessTarget (target_value t) = Inr t"
proof (cases t)
  case (TestTarget i f)
  with assms show ?thesis
    by (cases f) (simp_all add: awarenessTarget_def target_value_def target_ok_def reading test_field_of_def field_name_def)
qed (use assms in \<open>simp_all add: awarenessTarget_def target_value_def target_ok_def reading\<close>)

lemma selection_read [code_simps]: "selection_ok position s \<Longrightarrow> relativeSelection position (selection_value s) = Inr s"
  by (simp add: relativeSelection_def selection_value_def reading selection_ok_def position_ok_def relativePositionBytes_def)

lemma selections_read [code_simps]:
  "list_all (selection_ok position) ss \<Longrightarrow> read_all (relativeSelection position) (map selection_value ss) = Inr ss"
  by (induction ss) (simp_all add: code_simps)

lemma input_read [code_simps]:
  assumes "input_ok i"
  shows "scalarInputPresence (input_value i) = Inr i"
proof -
  have "code_max_draft_length < 9007199254740991" by (simp add: code_max_draft_length_def)
  with assms show ?thesis
    by (simp add: scalarInputPresence_def absoluteSelection_def input_value_def input_ok_def reading code_simps require_def max_safe_integer_def)
qed

lemma supports_exclusive: "targetSupportsRelativeSelection t \<Longrightarrow> \<not> targetSupportsScalarInput t"
  by (auto simp: targetSupportsRelativeSelection_def targetSupportsScalarInput_def split: code_target.splits)

lemma awareness_read:
  assumes "awareness_ok position st"
  shows "parseCodeAwarenessState position (awareness_value st) = Inr st"
proof -
  have t: "target_ok (aw_target st)" and size: "awarenessByteLength st \<le> code_max_awareness_bytes"
    using assms by (simp_all add: awareness_ok_def)
  show ?thesis
  proof (cases "aw_selections st")
    case (Some ss)
    with assms have "targetSupportsRelativeSelection (aw_target st)" "selection_count_ok (length ss)"
      "list_all (selection_ok position) ss" "aw_input st = None"
      by (auto simp: awareness_ok_def dest: supports_exclusive split: option.splits) (metis supports_exclusive option.exhaust option.pred_inject(2))
    with t size Some show ?thesis
      by (cases st) (simp add: parseCodeAwarenessState_def awareness_value_def reading code_simps)
  next
    case None
    show ?thesis
    proof (cases "aw_input st")
      case (Some i)
      with assms have "targetSupportsScalarInput (aw_target st)" "input_ok i" by (auto simp: awareness_ok_def)
      with t size None Some supports_exclusive [of "aw_target st"] show ?thesis
        by (cases st) (auto simp: parseCodeAwarenessState_def awareness_value_def reading code_simps)
    next
      case none: None
      with t size None show ?thesis
        by (cases st) (simp add: parseCodeAwarenessState_def awareness_value_def reading code_simps)
    qed
  qed
qed

lemma profile_read: "normalized_profile nfkc p = Inr p \<Longrightarrow> code_profile nfkc (profile_sval p) = Inr p"
  by (simp add: profile_sval_def sobj_def normalized_profile_def profile_value_def obj_def)

lemma awareness_value_object: "awareness_value st \<noteq> SNull"
  by (simp add: awareness_value_def sobj_def)

lemma message_read:
  assumes "message_ok position nfkc m"
  shows "parseCodeSyncClientMessage position nfkc (message_value m) = Inr m"
proof -
  have tags: "tag_step1 \<noteq> tag_update" "tag_step1 \<noteq> tag_awareness" "tag_step1 \<noteq> tag_capabilities" "tag_step1 \<noteq> tag_profile_update"
    "tag_update \<noteq> tag_awareness" "tag_update \<noteq> tag_capabilities" "tag_update \<noteq> tag_profile_update"
    "tag_awareness \<noteq> tag_capabilities" "tag_awareness \<noteq> tag_profile_update" "tag_capabilities \<noteq> tag_profile_update"
    by (simp_all add: tag_step1_def tag_update_def tag_awareness_def tag_capabilities_def tag_profile_update_def)
  note evaluate = parseCodeSyncClientMessage_def messageBase_def message_value_def message_fields_def message_ok_def reading code_simps
  show ?thesis
  proof (cases m)
    case (CodeAwareness st)
    with assms tags show ?thesis
      by (cases st) (simp_all add: evaluate awareness_read awareness_value_object)
  qed (use assms tags tags [symmetric] in \<open>simp_all add: evaluate profile_read\<close>)
qed

text \<open>
  C13. The code protocol accepts exactly the well-formed messages: whatever a client sends, what is accepted
  of it is well formed (identifiers and byte strings within their limits, canonical positions, a
  selection inside its draft, a presence of at most two kilobytes that suits its target, a normal
  profile), and a well-formed message is accepted as itself.
\<close>

theorem code_messages_are_wellformed:
  assumes "nfkc_laws nfkc"
  shows "((\<exists>v. parseCodeSyncClientMessage position nfkc v = Inr m) \<longleftrightarrow> message_ok position nfkc m)
    \<and> (message_ok position nfkc m \<longleftrightarrow> parseCodeSyncClientMessage position nfkc (message_value m) = Inr m)"
  using message_accepted [OF assms] message_read by blast

section \<open>Clients that know one selection\<close>

definition selection_text :: jstr where
  "selection_text = json_text (obj [(''anchor'', JNull), (''head'', JNull)])"

lemma selection_text_ascii: "list_all (\<lambda>c. c < 0x80) selection_text"
  by code_simp

lemma joined_ascii: "list_all (list_all (\<lambda>c. c < 0x80)) ts \<Longrightarrow> list_all (\<lambda>c. c < 0x80) (joined ts)"
  by (auto simp: joined_def list_all_iff split: list.splits)

lemma ascii_tail_length:
  "\<not> is_low_surrogate c \<Longrightarrow> list_all (\<lambda>c. c < 0x80) (c # z) \<Longrightarrow> utf8_length (x @ c # z) = utf8_length x + length (c # z)"
  using utf8_length_append [of c x z] utf8_length_ascii_only [of "c # z"] by simp

lemma selections_length:
  "\<exists>n. \<forall>ss. awarenessByteLength \<lparr> aw_target = t, aw_selections = Some ss, aw_input = None \<rparr>
     = n + length (joined (map (\<lambda>_. selection_text) ss)) + sum_list (map (\<lambda>s. length (rs_anchor s) + length (rs_head s)) ss)"
proof -
  let ?x = "js ''{'' @ json_string (js ''target'') @ js '':'' @ json_text (target_metadata t) @ js '',''
      @ json_string (js ''selections'') @ js '':''"
  have "utf8_length (json_text (awareness_metadata \<lparr> aw_target = t, aw_selections = Some ss, aw_input = None \<rparr>))
      = utf8_length ?x + 3 + length (joined (map (\<lambda>_. selection_text) ss))" for ss :: "relative_selection list"
  proof -
    let ?j = "joined (map (\<lambda>_. selection_text) ss)"
    have "json_text (awareness_metadata \<lparr> aw_target = t, aw_selections = Some ss, aw_input = None \<rparr>)
        = ?x @ 0x5b # (?j @ [0x5d, 0x7d])"
      by (simp add: awareness_metadata_def obj_def joined_def [of "[_, _]"] selection_text_def comp_def js_def)
    moreover have "list_all (\<lambda>c. c < 0x80) (0x5b # (?j @ [0x5d, 0x7d]))"
      using joined_ascii [of "map (\<lambda>_. selection_text) ss"] selection_text_ascii by (simp add: list_all_iff)
    moreover have "\<not> is_low_surrogate 0x5b" by code_simp
    ultimately show ?thesis using ascii_tail_length [of "0x5b" "?j @ [0x5d, 0x7d]" ?x] by (simp del: append_assoc)
  qed
  then show ?thesis
    by (intro exI [of _ "utf8_length ?x + 3"]) (simp add: awarenessByteLength_def)
qed

lemma first_selection_ok:
  assumes "awareness_ok position st"
  shows "awareness_ok position (st\<lparr> aw_selections := map_option (take 1) (aw_selections st) \<rparr>)"
proof (cases "aw_selections st")
  case (Some ss)
  with assms obtain s more where ss: "ss = s # more" and none: "aw_input st = None"
    by (cases ss; cases "aw_input st") (auto simp: awareness_ok_def selection_count_ok_def dest: supports_exclusive)
  obtain n where n: "awarenessByteLength \<lparr> aw_target = aw_target st, aw_selections = Some ss, aw_input = None \<rparr>
      = n + length (joined (map (\<lambda>_. selection_text) ss)) + sum_list (map (\<lambda>s. length (rs_anchor s) + length (rs_head s)) ss)" for ss
    using selections_length [of "aw_target st"] by blast
  have eq: "st = \<lparr> aw_target = aw_target st, aw_selections = Some (s # more), aw_input = None \<rparr>"
    using Some ss none by simp
  have "awarenessByteLength (st\<lparr> aw_selections := Some [s] \<rparr>) \<le> awarenessByteLength st"
    by (subst (1 2) eq) (simp add: n joined_def del: One_nat_def)
  with assms Some ss show ?thesis by (auto simp: awareness_ok_def selection_count_ok_def)
qed (use assms in \<open>cases st, simp add: awareness_ok_def\<close>)

text \<open>
  C14. A client that knows only one selection gets the first: the form of a presence that is sent to it
  is one it may send itself, and stands for the presence with the first selection only.
\<close>

theorem legacy_presence_keeps_first_selection:
  assumes "awareness_ok position st"
  shows "parseCodeAwarenessState position (wire_value (toLegacyCodeAwarenessState st))
    = Inr (st\<lparr> aw_selections := map_option (take 1) (aw_selections st) \<rparr>)"
proof (cases "targetSupportsRelativeSelection (aw_target st)")
  case False
  with assms have "aw_selections st = None" by (cases "aw_selections st") (auto simp: awareness_ok_def)
  with False assms show ?thesis by (simp add: toLegacyCodeAwarenessState_def awareness_read)
next
  case True
  with assms have none: "aw_input st = None" by (cases "aw_input st") (auto simp: awareness_ok_def dest: supports_exclusive)
  from first_selection_ok [OF assms] have t: "target_ok (aw_target st)"
    and size: "awarenessByteLength (st\<lparr> aw_selections := map_option (take 1) (aw_selections st) \<rparr>) \<le> code_max_awareness_bytes"
    by (simp_all add: awareness_ok_def)
  show ?thesis
  proof (cases "aw_selections st")
    case None
    with True none t size show ?thesis
      by (cases st) (simp add: toLegacyCodeAwarenessState_def parseCodeAwarenessState_def reading code_simps)
  next
    case (Some ss)
    with assms obtain s more where ss: "ss = s # more" "selection_ok position s"
      by (cases ss) (auto simp: awareness_ok_def selection_count_ok_def)
    with Some True none t size show ?thesis
      by (cases st) (simp add: toLegacyCodeAwarenessState_def parseCodeAwarenessState_def reading code_simps)
  qed
qed

section \<open>The theorems applied\<close>

definition demo_presence :: code_awareness where
  "demo_presence = \<lparr> aw_target = FileTarget (js ''main''), aw_selections = Some [\<lparr> rs_anchor = [1], rs_head = [2] \<rparr>,
     \<lparr> rs_anchor = [3], rs_head = [4] \<rparr>], aw_input = None \<rparr>"

lemma demo_presence_ok: "awareness_ok (\<lambda>_. True) demo_presence"
proof -
  have "awarenessByteLength demo_presence \<le> code_max_awareness_bytes" "ident_ok (js ''main'')" by code_simp+
  then show ?thesis
    by (simp add: awareness_ok_def demo_presence_def target_ok_def targetSupportsRelativeSelection_def selection_count_ok_def
        code_max_selections_def selection_ok_def position_ok_def bytes_ok_def code_max_position_bytes_def)
qed

theorem code_messages_are_wellformed_witness:
  "parseCodeSyncClientMessage (\<lambda>_. True) (\<lambda>s. s) (message_value (CodeAwareness (Some demo_presence)))
    = Inr (CodeAwareness (Some demo_presence))"
  using code_messages_are_wellformed [OF nfkc_laws_id, of "\<lambda>_. True" "CodeAwareness (Some demo_presence)"] demo_presence_ok
  by (simp add: message_ok_def)

theorem legacy_presence_keeps_first_selection_witness:
  "parseCodeAwarenessState (\<lambda>_. True) (wire_value (toLegacyCodeAwarenessState demo_presence))
    = Inr (demo_presence\<lparr> aw_selections := Some [\<lparr> rs_anchor = [1], rs_head = [2] \<rparr>] \<rparr>)"
  using legacy_presence_keeps_first_selection [OF demo_presence_ok] by (simp add: demo_presence_def)

end
