(* ===== verification/Code_Rates.thy ===== *)
theory Code_Rates
  imports Rate_Window Terminal_Fingerprint "HOL-Library.AList"
begin

text \<open>
  The rate limiters of the code workspaces: \<open>FixedWindowRate\<close> and \<open>AggregateCodeRateScopes\<close> at the
  head of \<open>src/server/code-sync/transport.ts\<close>, and \<open>src/server/code-sync/terminalActionRate.ts\<close>.
\<close>

section \<open>One limiter\<close>

definition code_rate_window :: int where "code_rate_window = 60000"

record code_rate =
  cr_started :: int
  cr_count :: int

definition new_code_rate :: "int \<Rightarrow> code_rate" where
  "new_code_rate now = \<lparr> cr_started = now, cr_count = 0 \<rparr>"

definition code_rate_consume :: "int \<Rightarrow> int \<Rightarrow> int \<Rightarrow> code_rate \<Rightarrow> bool \<times> code_rate" where
  "code_rate_consume maximum amount now r =
     (let r1 = (if now < cr_started r \<or> code_rate_window \<le> now - cr_started r then new_code_rate now else r)
      in (amount \<le> maximum - cr_count r1, r1\<lparr> cr_count := min maximum (cr_count r1 + amount) \<rparr>))"

section \<open>The limiters of a workspace\<close>

record code_limits =
  li_awareness :: int
  li_profile :: int
  li_sync :: int
  li_updates :: int
  li_updateBytes :: int
  li_maximumScopes :: nat
  li_idleMs :: int

record code_scope =
  sc_awareness :: code_rate
  sc_profile :: code_rate
  sc_sync :: code_rate
  sc_updates :: code_rate
  sc_updateBytes :: code_rate
  sc_lastSeenAt :: int

record code_scopes =
  cs_scopes :: "(jstr \<times> code_scope) list"
  cs_nextSweepAt :: int

definition new_code_scopes :: "int \<Rightarrow> code_scopes" where
  "new_code_scopes now = \<lparr> cs_scopes = [], cs_nextSweepAt = now + 60000 \<rparr>"

definition new_code_scope :: "int \<Rightarrow> code_scope" where
  "new_code_scope now = \<lparr> sc_awareness = new_code_rate now, sc_profile = new_code_rate now, sc_sync = new_code_rate now,
     sc_updates = new_code_rate now, sc_updateBytes = new_code_rate now, sc_lastSeenAt = now \<rparr>"

definition code_sweep :: "code_limits \<Rightarrow> int \<Rightarrow> bool \<Rightarrow> code_scopes \<Rightarrow> code_scopes" where
  "code_sweep l now force s =
     (if \<not> force \<and> now < cs_nextSweepAt s then s
      else s\<lparr> cs_scopes := filter (\<lambda>(k, c). \<not> (now < sc_lastSeenAt c \<or> li_idleMs l \<le> now - sc_lastSeenAt c)) (cs_scopes s),
              cs_nextSweepAt := now + 60000 \<rparr>)"

definition code_scopes_full :: "code_limits \<Rightarrow> code_scopes \<Rightarrow> bool" where
  "code_scopes_full l s \<longleftrightarrow> li_maximumScopes l \<le> length (cs_scopes s)"

text \<open>The scope found or created, as it is before it is charged, and the table to charge it in.\<close>

definition code_scope_for :: "code_limits \<Rightarrow> jstr \<Rightarrow> int \<Rightarrow> code_scopes \<Rightarrow> code_scope option \<times> code_scopes" where
  "code_scope_for l k now s =
     (let s1 = code_sweep l now False s
      in case map_of (cs_scopes s1) k of
        Some c \<Rightarrow> (Some (c\<lparr> sc_lastSeenAt := now \<rparr>), s1)
      | None \<Rightarrow>
          let s2 = (if code_scopes_full l s1 then code_sweep l now True s1 else s1)
          in if code_scopes_full l s2 then (None, s2) else (Some (new_code_scope now), s2))"

definition put_code_scope :: "jstr \<Rightarrow> code_scope \<Rightarrow> code_scopes \<Rightarrow> code_scopes" where
  "put_code_scope k c s = s\<lparr> cs_scopes := AList.update k c (cs_scopes s) \<rparr>"

datatype event_rate = AwarenessRate | ProfileRate | SyncRate

fun charge_event :: "code_limits \<Rightarrow> event_rate \<Rightarrow> int \<Rightarrow> code_scope \<Rightarrow> bool \<times> code_scope" where
  "charge_event l AwarenessRate now c =
     (let (ok, r) = code_rate_consume (li_awareness l) 1 now (sc_awareness c) in (ok, c\<lparr> sc_awareness := r \<rparr>))"
| "charge_event l ProfileRate now c =
     (let (ok, r) = code_rate_consume (li_profile l) 1 now (sc_profile c) in (ok, c\<lparr> sc_profile := r \<rparr>))"
| "charge_event l SyncRate now c =
     (let (ok, r) = code_rate_consume (li_sync l) 1 now (sc_sync c) in (ok, c\<lparr> sc_sync := r \<rparr>))"

definition charge_update :: "code_limits \<Rightarrow> int \<Rightarrow> int \<Rightarrow> code_scope \<Rightarrow> bool \<times> code_scope" where
  "charge_update l n now c =
     (let (events, r) = code_rate_consume (li_updates l) 1 now (sc_updates c);
          (sizes, r') = code_rate_consume (li_updateBytes l) n now (sc_updateBytes c)
      in (events \<and> sizes, c\<lparr> sc_updates := r, sc_updateBytes := r' \<rparr>))"

definition code_charge :: "(int \<Rightarrow> code_scope \<Rightarrow> bool \<times> code_scope) \<Rightarrow> code_limits \<Rightarrow> jstr \<Rightarrow> int \<Rightarrow> code_scopes \<Rightarrow> bool \<times> code_scopes" where
  "code_charge charge l k now s =
     (case code_scope_for l k now s of
        (None, s1) \<Rightarrow> (False, s1)
      | (Some c, s1) \<Rightarrow> let (ok, c') = charge now c in (ok, put_code_scope k c' s1))"

definition consumeEvent :: "code_limits \<Rightarrow> jstr \<Rightarrow> event_rate \<Rightarrow> int \<Rightarrow> code_scopes \<Rightarrow> bool \<times> code_scopes" where
  "consumeEvent l k e = code_charge (charge_event l e) l k"

definition consumeUpdate :: "code_limits \<Rightarrow> jstr \<Rightarrow> int \<Rightarrow> int \<Rightarrow> code_scopes \<Rightarrow> bool \<times> code_scopes" where
  "consumeUpdate l k n = code_charge (charge_update l n) l k"

section \<open>Terminal actions\<close>

record action_rate =
  ar_window :: int
  ar_count :: nat
  ar_seen :: "jstr set"

definition action_mark :: "(jstr \<Rightarrow> jstr) \<Rightarrow> action \<Rightarrow> jstr" where
  "action_mark digest a = actionId a @ js '':'' @ sharedTerminalActionFingerprint digest a"

definition consumeTerminalActionRate ::
  "(jstr \<Rightarrow> jstr) \<Rightarrow> action_rate option \<Rightarrow> action \<Rightarrow> int \<Rightarrow> nat \<Rightarrow> bool \<times> action_rate" where
  "consumeTerminalActionRate digest current a time maximum =
     (let fresh = \<lparr> ar_window = time, ar_count = 0, ar_seen = {} \<rparr>;
          scope = (case current of None \<Rightarrow> fresh
            | Some s \<Rightarrow> if time < ar_window s \<or> 60000 \<le> time - ar_window s then fresh else s);
          mark = action_mark digest a
      in if mark \<in> ar_seen scope then (True, scope)
         else if maximum \<le> ar_count scope then (False, scope)
         else (True, scope\<lparr> ar_count := ar_count scope + 1, ar_seen := insert mark (ar_seen scope) \<rparr>))"

end
