(* ===== verification/Code_Hub.thy ===== *)
theory Code_Hub
  imports Handler Code_Rates Code_Protocol Terminal_Client
begin

text \<open>
  The sockets of the code workspaces and what is shared between them:
  \<open>src/server/code-sync/terminalTransport.ts\<close>, and from \<open>src/server/code-sync/transport.ts\<close> the checks
  and broadcasts and the end of a connection. Closing a socket runs its handlers at once, which may
  close further sockets. The service is a parameter: any that answers with a value or an error and
  a new world of its own. A value sent to the terminal has no bytes in it.
\<close>

section \<open>What the service answers\<close>

record code_session =
  ss_shareId :: jstr
  ss_deviceId :: jstr
  ss_roomId :: jstr
  ss_resourceId :: jstr
  ss_workspaceId :: jstr
  ss_documentId :: jstr
  ss_participant :: participant

datatype code_service_code = CodeExpired | CodeNotFound | CodeInvalidUpdate | CodeStorageError

datatype code_thrown = ProtocolThrown jstr | CodeServiceThrown code_service_code jstr | CodeOtherThrown

record code_document_sync =
  ds_updates :: "byte list list"
  ds_stateVector :: "byte list"
  ds_sequence :: int

text \<open>
  In order: the service, which bytes are canonical positions, the normal form of names, the digest and
  the epochs of the terminals, and the options. Whether an update was committed comes with its number.
\<close>

record 'w code_env =
  ce_authenticate :: "code_handshake \<Rightarrow> 'w \<Rightarrow> (code_thrown + code_session) \<times> 'w"
  ce_reauthorize :: "code_session \<Rightarrow> 'w \<Rightarrow> (code_thrown + unit) \<times> 'w"
  ce_syncStep1 :: "code_session \<Rightarrow> byte list \<Rightarrow> 'w \<Rightarrow> (code_thrown + code_document_sync) \<times> 'w"
  ce_appendUpdate :: "code_session \<Rightarrow> jstr \<Rightarrow> byte list \<Rightarrow> 'w \<Rightarrow> (code_thrown + bool \<times> int) \<times> 'w"
  ce_position :: "byte list \<Rightarrow> bool"
  ce_nfkc :: "jstr \<Rightarrow> jstr"
  ce_digest :: "jstr \<Rightarrow> jstr"
  ce_epoch :: "nat \<Rightarrow> jstr"
  ce_limits :: code_limits
  ce_maxAwarenessPeers :: nat
  ce_maxActions :: nat
  ce_allowedOrigins :: "jstr set"

section \<open>Messages to a client\<close>

datatype control_code = ControlExpired | ControlNotFound | ControlInvalidMessage | ControlInvalidUpdate
  | ControlStorageError | ControlRateLimited

record code_control =
  co_code :: control_code
  co_message :: jstr
  co_terminal :: bool
  co_requestId :: "jstr option"

datatype code_server_message =
    CodeReady jstr jstr jstr participant
  | CodeStep2 jstr nat bool "byte list" "byte list" int
  | CodeRemoteUpdate jstr jstr "byte list" int
  | CodeUpdateAck jstr jstr bool int
  | CodePresence participant "awareness_wire option"
  | CodeProfileUpdated participant
  | CodeControl code_control

datatype to_client = Message code_server_message | TerminalAck ack | TerminalWire bool jval | TerminalEffect jval

text \<open>\<open>TerminalWire True\<close> is a snapshot, \<open>TerminalWire False\<close> a delta.\<close>

abbreviation terminal_snapshot :: "terminal_state \<Rightarrow> to_client" where
  "terminal_snapshot s \<equiv> TerminalWire True (state_json s)"

abbreviation terminal_delta :: "delta \<Rightarrow> to_client" where
  "terminal_delta d \<equiv> TerminalWire False (delta_json d)"

fun controlFor :: "code_thrown \<Rightarrow> jstr option \<Rightarrow> code_control" where
  "controlFor (ProtocolThrown m) r = \<lparr> co_code = ControlInvalidMessage, co_message = m, co_terminal = False, co_requestId = r \<rparr>"
| "controlFor (CodeServiceThrown c m) r = \<lparr>
     co_code = (case c of CodeExpired \<Rightarrow> ControlExpired | CodeNotFound \<Rightarrow> ControlNotFound
       | CodeInvalidUpdate \<Rightarrow> ControlInvalidUpdate | CodeStorageError \<Rightarrow> ControlStorageError),
     co_message = m, co_terminal = (c = CodeExpired \<or> c = CodeNotFound \<or> c = CodeStorageError), co_requestId = r \<rparr>"
| "controlFor CodeOtherThrown r = \<lparr> co_code = ControlStorageError, co_message = js ''Code sync failed'', co_terminal = True,
     co_requestId = r \<rparr>"

section \<open>The state\<close>

record code_socket =
  so_session :: code_session
  so_multi :: bool
  so_replayed :: bool
  so_scheduled :: bool

record code_presence =
  pr_participant :: participant
  pr_state :: code_awareness

text \<open>
  What is logged: what a socket is sent and answered, the checks of its session, and the reading and
  changing of documents for it.
\<close>

datatype code_effect =
    Emitted jstr to_client
  | Answered jstr code_server_message
  | AccessChecked jstr bool
  | DocumentRead jstr code_session
  | UpdateAppended jstr code_session jstr "byte list" "code_thrown + bool \<times> int"
  | Joined jstr code_session
  | Left jstr

text \<open>
  Sockets are objects of a heap, where they stay; \<open>hb_joined\<close> names those that connected, and
  \<open>hb_open\<close> those of them that are still connected, in the order in which they joined their rooms.
\<close>

record 'w hub =
  hb_heap :: "jstr \<rightharpoonup> code_socket"
  hb_joined :: "jstr list"
  hb_open :: "jstr list"
  hb_awareness :: "jstr \<rightharpoonup> (jstr \<times> code_presence) list"
  hb_rates :: code_scopes
  hb_machines :: "jstr \<rightharpoonup> machine"
  hb_connections :: "jstr \<rightharpoonup> int"
  hb_actionRates :: "jstr \<rightharpoonup> action_rate"
  hb_made :: nat
  hb_now :: int
  hb_world :: 'w
  hb_log :: "code_effect list"

definition new_hub :: "'w \<Rightarrow> int \<Rightarrow> 'w hub" where
  "new_hub w now = \<lparr> hb_heap = Map.empty, hb_joined = [], hb_open = [], hb_awareness = Map.empty, hb_rates = new_code_scopes now,
     hb_machines = Map.empty, hb_connections = Map.empty, hb_actionRates = Map.empty, hb_made = 0, hb_now = now,
     hb_world = w, hb_log = [] \<rparr>"

type_synonym ('w, 'a) code_action = "('w hub, code_thrown, 'a) handler"

definition socket_of :: "'w hub \<Rightarrow> jstr \<Rightarrow> code_socket" where
  "socket_of h s = the (hb_heap h s)"

definition session_of :: "'w hub \<Rightarrow> jstr \<Rightarrow> code_session" where
  "session_of h s = so_session (socket_of h s)"

definition workspace_of :: "'w hub \<Rightarrow> jstr \<Rightarrow> jstr" where
  "workspace_of h s = ss_workspaceId (session_of h s)"

text \<open>The sockets in the room of a workspace.\<close>

definition room :: "jstr \<Rightarrow> 'w hub \<Rightarrow> jstr list" where
  "room ws h = filter (\<lambda>s. workspace_of h s = ws) (hb_open h)"

definition set_socket :: "jstr \<Rightarrow> (code_socket \<Rightarrow> code_socket) \<Rightarrow> ('w, unit) code_action" where
  "set_socket s f = change (\<lambda>h. h\<lparr> hb_heap := (hb_heap h)(s := map_option f (hb_heap h s)) \<rparr>)"

definition note_effect :: "code_effect \<Rightarrow> ('w, unit) code_action" where
  "note_effect e = change (\<lambda>h. h\<lparr> hb_log := hb_log h @ [e] \<rparr>)"

definition is_connected :: "jstr \<Rightarrow> ('w, bool) code_action" where
  "is_connected s = ask (\<lambda>h. s \<in> set (hb_open h))"

text \<open>A message to a socket that is closed goes nowhere.\<close>

definition emit :: "jstr \<Rightarrow> to_client \<Rightarrow> ('w, unit) code_action" where
  "emit s m = obtaining (is_connected s) (\<lambda>ok. if ok then note_effect (Emitted s m) else skip)"

definition code_serve :: "('w \<Rightarrow> (code_thrown + 'a) \<times> 'w) \<Rightarrow> (code_thrown + 'a \<Rightarrow> code_effect) \<Rightarrow> ('w, 'a) code_action" where
  "code_serve op note h = (let (r, w) = op (hb_world h) in (r, h\<lparr> hb_world := w, hb_log := hb_log h @ [note r] \<rparr>))"

text \<open>\<open>send\<close>, with the callback of the client when it gave one.\<close>

definition send_message :: "jstr \<Rightarrow> code_server_message \<Rightarrow> bool \<Rightarrow> ('w, unit) code_action" where
  "send_message s m ack = andThen (emit s (Message m)) (obtaining (is_connected s) (\<lambda>ok.
     if ack \<and> ok then note_effect (Answered s m) else skip))"

section \<open>Checks and broadcasts\<close>

text \<open>\<open>close\<close> is what closing a socket does.\<close>

definition service_reauthorize :: "'w code_env \<Rightarrow> jstr \<Rightarrow> ('w, unit) code_action" where
  "service_reauthorize E s = obtaining (ask (\<lambda>h. session_of h s)) (\<lambda>ss.
     code_serve (ce_reauthorize E ss) (\<lambda>r. AccessChecked s (\<not> isl r)))"

definition reauthorizeSocket :: "'w code_env \<Rightarrow> (jstr \<Rightarrow> ('w, unit) code_action) \<Rightarrow> jstr \<Rightarrow> bool \<Rightarrow> ('w, bool) code_action" where
  "reauthorizeSocket E close s disconnectOnFailure =
     attempt (andThen (service_reauthorize E s) (give True))
       (\<lambda>e. andThen (send_message s (CodeControl (controlFor e None)) False)
         (andThen (if disconnectOnFailure then close s else skip) (give False)))"

definition emitAuthorized :: "'w code_env \<Rightarrow> (jstr \<Rightarrow> ('w, unit) code_action) \<Rightarrow> jstr \<Rightarrow> to_client \<Rightarrow> ('w, unit) code_action" where
  "emitAuthorized E close s m = obtaining (is_connected s) (\<lambda>ok.
     if \<not> ok then skip
     else obtaining (reauthorizeSocket E close s True) (\<lambda>ok. if ok then emit s m else skip))"

text \<open>The sockets that may be sent to, and those that may not.\<close>

fun sort_out :: "'w code_env \<Rightarrow> jstr option \<Rightarrow> jstr list \<Rightarrow> ('w, jstr list \<times> jstr list) code_action" where
  "sort_out E excluded [] = give ([], [])"
| "sort_out E excluded (s # rest) = obtaining (is_connected s) (\<lambda>there.
     if excluded = Some s \<or> \<not> there then sort_out E excluded rest
     else obtaining (reauthorizeSocket E (\<lambda>_. skip) s False) (\<lambda>ok. obtaining (sort_out E excluded rest) (\<lambda>(authorized, revoked).
       give (if ok then (s # authorized, revoked) else (authorized, s # revoked)))))"

definition broadcastAuthorized :: "'w code_env \<Rightarrow> (jstr \<Rightarrow> ('w, unit) code_action) \<Rightarrow> jstr \<Rightarrow> to_client \<Rightarrow> jstr option
    \<Rightarrow> ('w, unit) code_action" where
  "broadcastAuthorized E close ws m excluded = obtaining (ask (room ws)) (\<lambda>sockets.
     obtaining (sort_out E excluded sockets) (\<lambda>(authorized, revoked).
       andThen (each (\<lambda>s. emit s m) authorized) (each close revoked)))"

definition awarenessStateFor :: "code_socket \<Rightarrow> code_awareness option \<Rightarrow> awareness_wire option" where
  "awarenessStateFor k st = map_option (\<lambda>st. if so_multi k then PluralState st else toLegacyCodeAwarenessState st) st"

definition sendAwareness :: "jstr \<Rightarrow> participant \<Rightarrow> code_awareness option \<Rightarrow> ('w, unit) code_action" where
  "sendAwareness s p st = obtaining (ask (\<lambda>h. socket_of h s)) (\<lambda>k.
     send_message s (CodePresence p (awarenessStateFor k st)) False)"

definition broadcastAwareness :: "'w code_env \<Rightarrow> (jstr \<Rightarrow> ('w, unit) code_action) \<Rightarrow> jstr \<Rightarrow> participant \<Rightarrow> code_awareness option
    \<Rightarrow> jstr option \<Rightarrow> ('w, unit) code_action" where
  "broadcastAwareness E close ws p st excluded = obtaining (ask (room ws)) (each (\<lambda>s. obtaining (is_connected s) (\<lambda>there.
     if excluded = Some s \<or> \<not> there then skip
     else obtaining (reauthorizeSocket E close s True) (\<lambda>ok.
       if \<not> ok then skip
       else obtaining (ask (\<lambda>h. so_replayed (socket_of h s))) (\<lambda>replayed.
         if replayed then sendAwareness s p st else skip)))))"

section \<open>Presence\<close>

definition peers_of :: "jstr \<Rightarrow> 'w hub \<Rightarrow> (jstr \<times> code_presence) list" where
  "peers_of ws h = (case hb_awareness h ws of None \<Rightarrow> [] | Some ps \<Rightarrow> ps)"

text \<open>A workspace without presence has no table.\<close>

definition set_peers :: "jstr \<Rightarrow> ((jstr \<times> code_presence) list \<Rightarrow> (jstr \<times> code_presence) list) \<Rightarrow> ('w, unit) code_action" where
  "set_peers ws f = change (\<lambda>h. h\<lparr> hb_awareness := (hb_awareness h)
     (ws := (let ps = f (peers_of ws h) in if ps = [] then None else Some ps)) \<rparr>)"

definition awareness_disconnect :: "'w code_env \<Rightarrow> (jstr \<Rightarrow> ('w, unit) code_action) \<Rightarrow> jstr \<Rightarrow> ('w, unit) code_action" where
  "awareness_disconnect E close s = obtaining (ask (\<lambda>h. (session_of h s, map_of (peers_of (workspace_of h s) h) s))) (\<lambda>(ss, entry).
     andThen (set_peers (ss_workspaceId ss) (filter (\<lambda>(q, p). q \<noteq> s)))
       (if entry = None then skip
        else broadcastAwareness E close (ss_workspaceId ss) (ss_participant ss) None (Some s)))"

section \<open>The terminal\<close>

definition terminal_actor :: "'w hub \<Rightarrow> jstr \<Rightarrow> actor" where
  "terminal_actor h s = participant.extend (ss_participant (session_of h s)) (actor.fields s)"

definition machine_of :: "jstr \<Rightarrow> 'w hub \<Rightarrow> machine" where
  "machine_of ws h = (case hb_machines h ws of None \<Rightarrow> new_machine [] | Some m \<Rightarrow> m)"

definition terminal_event :: "'w code_env \<Rightarrow> jstr \<Rightarrow> event \<Rightarrow> ('w, dispatch_result) code_action" where
  "terminal_event E ws e = obtaining (ask (\<lambda>h. step (ce_digest E) e (machine_of ws h))) (\<lambda>(m, r).
     andThen (change (\<lambda>h. h\<lparr> hb_machines := (hb_machines h)(ws \<mapsto> m) \<rparr>)) (give r))"

definition terminal_connect :: "'w code_env \<Rightarrow> jstr \<Rightarrow> jstr \<Rightarrow> ('w, unit) code_action" where
  "terminal_connect E s ws = andThen
     (change (\<lambda>h. (case hb_machines h ws of Some m \<Rightarrow> h
        | None \<Rightarrow> h\<lparr> hb_machines := (hb_machines h)(ws \<mapsto> new_machine (ce_epoch E (hb_made h))), hb_made := Suc (hb_made h) \<rparr>)))
     (andThen (change (\<lambda>h. h\<lparr> hb_connections := (hb_connections h)
        (ws \<mapsto> (case hb_connections h ws of None \<Rightarrow> 0 | Some n \<Rightarrow> n) + 1) \<rparr>))
     (obtaining (ask (machine_of ws)) (\<lambda>m. emit s (terminal_snapshot (snapshot m)))))"

definition emit_ack :: "jstr \<Rightarrow> jstr \<Rightarrow> jstr \<Rightarrow> terminal_error \<Rightarrow> ('w, unit) code_action" where
  "emit_ack s ws aid err = obtaining (ask (machine_of ws)) (\<lambda>m.
     emit s (TerminalAck (createSharedTerminalAck aid (snapshot m) Rejected (Some err))))"

definition consume_action :: "'w code_env \<Rightarrow> jstr \<Rightarrow> action \<Rightarrow> ('w, bool) code_action" where
  "consume_action E s act = obtaining
     (ask (\<lambda>h. consumeTerminalActionRate (ce_digest E) (hb_actionRates h s) act (hb_now h) (ce_maxActions E))) (\<lambda>(ok, scope).
     andThen (change (\<lambda>h. h\<lparr> hb_actionRates := (hb_actionRates h)(s \<mapsto> scope) \<rparr>)) (give ok))"

text \<open>What one dispatched action sends.\<close>

definition terminal_answer :: "'w code_env \<Rightarrow> (jstr \<Rightarrow> ('w, unit) code_action) \<Rightarrow> jstr \<Rightarrow> jstr \<Rightarrow> dispatch_result \<Rightarrow> ('w, unit) code_action" where
  "terminal_answer E close s ws r = chain
     [emit s (TerminalAck (r_ack r)),
      (case r_delta r of None \<Rightarrow> skip | Some d \<Rightarrow> broadcastAuthorized E close ws (terminal_delta d) None),
      (case r_snapshot r of None \<Rightarrow> skip
       | Some st \<Rightarrow> if r_changed r then broadcastAuthorized E close ws (terminal_snapshot st) None
                    else emit s (terminal_snapshot st)),
      (case r_effect r of None \<Rightarrow> skip
       | Some e \<Rightarrow> emitAuthorized E close (targetSocketId e) (TerminalEffect (toSharedTerminalClientEffect e)))]"

definition terminal_action :: "'w code_env \<Rightarrow> (jstr \<Rightarrow> ('w, unit) code_action) \<Rightarrow> jstr \<Rightarrow> jval \<Rightarrow> ('w, unit) code_action" where
  "terminal_action E close s raw = obtaining (ask (\<lambda>h. workspace_of h s)) (\<lambda>ws. attempt
     (andThen (service_reauthorize E s)
       (case parseSharedTerminalActionEnvelope raw of
          None \<Rightarrow> (case readSharedTerminalActionId raw of None \<Rightarrow> skip | Some aid \<Rightarrow> emit_ack s ws aid ErrInvalidAction)
        | Some act \<Rightarrow> obtaining (consume_action E s act) (\<lambda>ok.
            if \<not> ok then emit_ack s ws (actionId act) ErrRateLimited
            else obtaining (ask (\<lambda>h. terminal_actor h s)) (\<lambda>a.
              obtaining (terminal_event E ws (Dispatched a act)) (terminal_answer E close s ws)))))
     (\<lambda>e. andThen
        (case readSharedTerminalActionId raw of None \<Rightarrow> skip | Some aid \<Rightarrow> emit_ack s ws aid ErrUnauthorized)
        (close s)))"

definition terminal_disconnect :: "'w code_env \<Rightarrow> (jstr \<Rightarrow> ('w, unit) code_action) \<Rightarrow> jstr \<Rightarrow> ('w, unit) code_action" where
  "terminal_disconnect E close s = obtaining (ask (\<lambda>h. workspace_of h s)) (\<lambda>ws. andThen
     (change (\<lambda>h. h\<lparr> hb_actionRates := (hb_actionRates h)(s := None) \<rparr>))
     (obtaining (terminal_event E ws (Disconnected s)) (\<lambda>r. andThen
       (case r_delta r of None \<Rightarrow> skip | Some d \<Rightarrow> broadcastAuthorized E close ws (terminal_delta d) (Some s))
       (change (\<lambda>h. let remaining = max 0 ((case hb_connections h ws of None \<Rightarrow> 1 | Some n \<Rightarrow> n) - 1)
          in if remaining = 0 then h\<lparr> hb_connections := (hb_connections h)(ws := None), hb_machines := (hb_machines h)(ws := None) \<rparr>
             else h\<lparr> hb_connections := (hb_connections h)(ws \<mapsto> remaining) \<rparr>)))))"

definition updateParticipant :: "'w code_env \<Rightarrow> (jstr \<Rightarrow> ('w, unit) code_action) \<Rightarrow> jstr \<Rightarrow> ('w, unit) code_action" where
  "updateParticipant E close s = obtaining (ask (\<lambda>h. (workspace_of h s, hb_machines h (workspace_of h s), terminal_actor h s)))
     (\<lambda>(ws, m, a). case m of None \<Rightarrow> skip
      | Some _ \<Rightarrow> obtaining (terminal_event E ws (ProfileUpdated a)) (\<lambda>r.
          case r_delta r of None \<Rightarrow> skip | Some d \<Rightarrow> broadcastAuthorized E close ws (terminal_delta d) None))"

section \<open>Closing a socket\<close>

text \<open>
  A socket that is closed leaves its room and is no longer found before its handlers run. The number
  is at least that of the open sockets, so it does not run out before they do.
\<close>

fun drop_socket :: "'w code_env \<Rightarrow> nat \<Rightarrow> jstr \<Rightarrow> ('w, unit) code_action" where
  "drop_socket E 0 s = skip"
| "drop_socket E (Suc n) s = obtaining (is_connected s) (\<lambda>there.
     if \<not> there then skip
     else chain [change (\<lambda>h. h\<lparr> hb_open := filter (\<lambda>q. q \<noteq> s) (hb_open h) \<rparr>), note_effect (Left s),
       awareness_disconnect E (drop_socket E n) s, terminal_disconnect E (drop_socket E n) s])"

definition close_socket :: "'w code_env \<Rightarrow> jstr \<Rightarrow> ('w, unit) code_action" where
  "close_socket E s = obtaining (ask (\<lambda>h. length (hb_open h))) (\<lambda>n. drop_socket E n s)"

end
