(* ===== verification/Code_Namespace.thy ===== *)
theory Code_Namespace
  imports Code_Hub
begin

text \<open>
  The namespace of the code workspaces, \<open>attachCodeSyncNamespace\<close> of
  \<open>src/server/code-sync/transport.ts\<close>: admission, the messages of a socket, its end, and the
  runs of the whole. What the ingress guard decided is part of an event. \<open>updateProfile\<close> is the
  service's; it changes the session, so it is here.
\<close>

section \<open>Admission\<close>

definition strip_slash :: "jstr \<Rightarrow> jstr" where
  "strip_slash s = (if s \<noteq> [] \<and> last s = 0x2f then butlast s else s)"

definition code_origin_ok :: "'w code_env \<Rightarrow> jstr option \<Rightarrow> bool" where
  "code_origin_ok E origin \<longleftrightarrow> (case origin of None \<Rightarrow> False
     | Some u \<Rightarrow> strip_slash u \<noteq> [] \<and> strip_slash u \<in> strip_slash ` ce_allowedOrigins E)"

definition code_rate_limited :: "string \<Rightarrow> jstr option \<Rightarrow> code_server_message" where
  "code_rate_limited m r = CodeControl \<lparr> co_code = ControlRateLimited, co_message = js m, co_terminal = False, co_requestId = r \<rparr>"

definition parsed_or_throw :: "'a parsed \<Rightarrow> ('w, 'a) code_action" where
  "parsed_or_throw p = lift (map_sum ProtocolThrown id p)"

definition service_authenticate :: "'w code_env \<Rightarrow> code_handshake \<Rightarrow> ('w, code_session) code_action" where
  "service_authenticate E a h = (let (r, w) = ce_authenticate E a (hb_world h) in (r, h\<lparr> hb_world := w \<rparr>))"

text \<open>The middleware; a refusal is answered to the client and leaves no socket.\<close>

definition admit_code_socket :: "'w code_env \<Rightarrow> jstr \<Rightarrow> jstr option \<Rightarrow> sval \<Rightarrow> ('w, unit) code_action" where
  "admit_code_socket E s origin auth =
     (if \<not> code_origin_ok E origin then throw (ProtocolThrown (js ''Code sync Origin is not allowed''))
      else obtaining (parsed_or_throw (parseCodeSyncHandshakeAuth (ce_nfkc E) auth)) (\<lambda>a.
        obtaining (service_authenticate E a) (\<lambda>ss.
          change (\<lambda>h. h\<lparr> hb_heap := (hb_heap h)
            (s \<mapsto> \<lparr> so_session = ss, so_multi = False, so_replayed = False, so_scheduled = False \<rparr>) \<rparr>))))"

definition connect_code_socket :: "'w code_env \<Rightarrow> jstr \<Rightarrow> ('w, unit) code_action" where
  "connect_code_socket E s = obtaining (ask (\<lambda>h. session_of h s)) (\<lambda>ss. chain
     [change (\<lambda>h. h\<lparr> hb_joined := hb_joined h @ [s], hb_open := hb_open h @ [s] \<rparr>), note_effect (Joined s ss),
      send_message s (CodeReady (ss_workspaceId ss) (ss_documentId ss) (ss_deviceId ss) (ss_participant ss)) False,
      terminal_connect E s (ss_workspaceId ss)])"

section \<open>Messages\<close>

definition replayAwarenessOnce :: "'w code_env \<Rightarrow> jstr \<Rightarrow> ('w, unit) code_action" where
  "replayAwarenessOnce E s = obtaining (ask (\<lambda>h. (so_replayed (socket_of h s), peers_of (workspace_of h s) h))) (\<lambda>(replayed, ps).
     if replayed then skip
     else andThen (set_socket s (\<lambda>k. k\<lparr> so_replayed := True \<rparr>))
       (if ps = [] then skip
        else obtaining (reauthorizeSocket E (close_socket E) s True) (\<lambda>ok.
          if ok then each (\<lambda>(q, p). sendAwareness s (pr_participant p) (Some (pr_state p))) ps else skip)))"

text \<open>Whether the limiter of the workspace allows it.\<close>

definition code_allowed :: "jstr \<Rightarrow> (jstr \<Rightarrow> int \<Rightarrow> code_scopes \<Rightarrow> bool \<times> code_scopes) \<Rightarrow> ('w, bool) code_action" where
  "code_allowed s consume = obtaining (ask (\<lambda>h. consume (workspace_of h s) (hb_now h) (hb_rates h))) (\<lambda>(ok, r).
     andThen (change (\<lambda>h. h\<lparr> hb_rates := r \<rparr>)) (give ok))"

definition updateProfile :: "'w code_env \<Rightarrow> jstr \<Rightarrow> profile \<Rightarrow> ('w, participant) code_action" where
  "updateProfile E s p = andThen (service_reauthorize E s) (andThen
     (set_socket s (\<lambda>k. k\<lparr> so_session := (so_session k)\<lparr> ss_participant := \<lparr> participantId = participantId (ss_participant (so_session k)),
        displayName = p_displayName p, color = p_color p \<rparr> \<rparr> \<rparr>))
     (ask (\<lambda>h. ss_participant (session_of h s))))"

definition put_peer :: "jstr \<Rightarrow> code_presence \<Rightarrow> (jstr \<times> code_presence) list \<Rightarrow> (jstr \<times> code_presence) list" where
  "put_peer s p ps = AList.update s p ps"

definition drop_peer :: "jstr \<Rightarrow> (jstr \<times> code_presence) list \<Rightarrow> (jstr \<times> code_presence) list" where
  "drop_peer s ps = filter (\<lambda>(q, p). q \<noteq> s) ps"

definition handle_profile :: "'w code_env \<Rightarrow> jstr \<Rightarrow> profile \<Rightarrow> bool \<Rightarrow> ('w, unit) code_action" where
  "handle_profile E s p ack = obtaining (code_allowed s (\<lambda>ws. consumeEvent (ce_limits E) ws ProfileRate)) (\<lambda>ok.
     if \<not> ok then send_message s (code_rate_limited ''Code profile update rate limit exceeded'' None) ack
     else obtaining (updateProfile E s p) (\<lambda>identity.
       obtaining (ask (\<lambda>h. (workspace_of h s, map_of (peers_of (workspace_of h s) h) s))) (\<lambda>(ws, current). chain
         [(case current of None \<Rightarrow> skip
           | Some c \<Rightarrow> set_peers ws (put_peer s \<lparr> pr_participant = identity, pr_state = pr_state c \<rparr>)),
          updateParticipant E (close_socket E) s,
          send_message s (CodeProfileUpdated identity) ack,
          (case current of None \<Rightarrow> skip
           | Some c \<Rightarrow> broadcastAwareness E (close_socket E) ws identity (Some (pr_state c)) (Some s))])))"

text \<open>The parts of the answer to a synchronisation request, numbered.\<close>

definition step2_parts :: "jstr \<Rightarrow> code_document_sync \<Rightarrow> (code_server_message \<times> bool) list" where
  "step2_parts r d = map (\<lambda>(i, u). let done = (Suc i = length (ds_updates d))
     in (CodeStep2 r i done u (ds_stateVector d) (ds_sequence d), done)) (enumerate 0 (ds_updates d))"

definition service_syncStep1 :: "'w code_env \<Rightarrow> jstr \<Rightarrow> byte list \<Rightarrow> ('w, code_document_sync) code_action" where
  "service_syncStep1 E s sv = obtaining (ask (\<lambda>h. session_of h s)) (\<lambda>ss.
     code_serve (ce_syncStep1 E ss sv) (\<lambda>r. DocumentRead s ss))"

definition handle_step1 :: "'w code_env \<Rightarrow> jstr \<Rightarrow> jstr \<Rightarrow> byte list \<Rightarrow> bool \<Rightarrow> ('w, unit) code_action" where
  "handle_step1 E s r sv ack = obtaining (code_allowed s (\<lambda>ws. consumeEvent (ce_limits E) ws SyncRate)) (\<lambda>ok.
     if \<not> ok then send_message s (code_rate_limited ''Code sync request rate limit exceeded'' (Some r)) ack
     else obtaining (service_syncStep1 E s sv) (\<lambda>d.
       each (\<lambda>(m, done). send_message s m (ack \<and> done)) (step2_parts r d)))"

definition service_appendUpdate :: "'w code_env \<Rightarrow> jstr \<Rightarrow> jstr \<Rightarrow> byte list \<Rightarrow> ('w, bool \<times> int) code_action" where
  "service_appendUpdate E s i u = obtaining (ask (\<lambda>h. session_of h s)) (\<lambda>ss.
     code_serve (ce_appendUpdate E ss i u) (\<lambda>r. UpdateAppended s ss i u r))"

definition handle_update :: "'w code_env \<Rightarrow> jstr \<Rightarrow> jstr \<Rightarrow> jstr \<Rightarrow> byte list \<Rightarrow> bool \<Rightarrow> ('w, unit) code_action" where
  "handle_update E s r i u ack = obtaining (code_allowed s (\<lambda>ws. consumeUpdate (ce_limits E) ws (int (length u)))) (\<lambda>ok.
     if \<not> ok then send_message s (code_rate_limited ''Code update rate limit exceeded'' (Some r)) ack
     else obtaining (service_appendUpdate E s i u) (\<lambda>(committed, sequence).
       andThen (send_message s (CodeUpdateAck r i committed sequence) ack)
         (if \<not> committed then skip
          else obtaining (ask (\<lambda>h. session_of h s)) (\<lambda>ss. broadcastAuthorized E (close_socket E) (ss_workspaceId ss)
            (Message (CodeRemoteUpdate (participantId (ss_participant ss)) i u sequence)) (Some s)))))"

definition handle_awareness :: "'w code_env \<Rightarrow> jstr \<Rightarrow> code_awareness option \<Rightarrow> bool \<Rightarrow> ('w, unit) code_action" where
  "handle_awareness E s st ack = obtaining (code_allowed s (\<lambda>ws. consumeEvent (ce_limits E) ws AwarenessRate)) (\<lambda>ok.
     if \<not> ok then send_message s (code_rate_limited ''Code awareness rate limit exceeded'' None) ack
     else andThen (service_reauthorize E s) (obtaining (ask (\<lambda>h. (session_of h s, peers_of (workspace_of h s) h))) (\<lambda>(ss, ps).
       if st \<noteq> None \<and> map_of ps s = None \<and> ce_maxAwarenessPeers E \<le> length ps
       then send_message s (code_rate_limited ''Code awareness peer limit reached'' None) ack
       else andThen
         (set_peers (ss_workspaceId ss) (case st of None \<Rightarrow> drop_peer s
            | Some x \<Rightarrow> put_peer s \<lparr> pr_participant = ss_participant ss, pr_state = x \<rparr>))
         (broadcastAwareness E (close_socket E) (ss_workspaceId ss) (ss_participant ss) st (Some s)))))"

definition handle_code_message :: "'w code_env \<Rightarrow> jstr \<Rightarrow> bool \<Rightarrow> code_message \<Rightarrow> ('w, unit) code_action" where
  "handle_code_message E s ack m = (case m of
       CodeCapabilities \<Rightarrow> andThen (set_socket s (\<lambda>k. k\<lparr> so_multi := True \<rparr>)) (replayAwarenessOnce E s)
     | CodeProfileUpdate p \<Rightarrow> andThen (replayAwarenessOnce E s) (handle_profile E s p ack)
     | CodeStep1 r sv \<Rightarrow> andThen (replayAwarenessOnce E s) (handle_step1 E s r sv ack)
     | CodeUpdate r i u \<Rightarrow> andThen (replayAwarenessOnce E s) (handle_update E s r i u ack)
     | CodeAwareness st \<Rightarrow> andThen (replayAwarenessOnce E s) (handle_awareness E s st ack))"

text \<open>The request an error is reported for: known once the message is parsed, of these two kinds only.\<close>

definition request_of :: "code_message parsed \<Rightarrow> jstr option" where
  "request_of p = (case p of Inr (CodeStep1 r sv) \<Rightarrow> Some r | Inr (CodeUpdate r i u) \<Rightarrow> Some r | _ \<Rightarrow> None)"

definition onCodeMessage :: "'w code_env \<Rightarrow> jstr \<Rightarrow> sval \<Rightarrow> bool \<Rightarrow> ('w, unit) code_action" where
  "onCodeMessage E s raw ack = (let p = parseCodeSyncClientMessage (ce_position E) (ce_nfkc E) raw in attempt
     (obtaining (parsed_or_throw p) (handle_code_message E s ack))
     (\<lambda>e. let c = controlFor e (request_of p)
       in andThen (send_message s (CodeControl c) ack) (if co_terminal c then close_socket E s else skip)))"

definition refuse_packet :: "jstr \<Rightarrow> bool \<Rightarrow> ('w, unit) code_action" where
  "refuse_packet s ack = andThen (send_message s (code_rate_limited ''Code sync ingress rate limit exceeded'' None) ack)
     (set_socket s (\<lambda>k. k\<lparr> so_scheduled := True \<rparr>))"

section \<open>Runs\<close>

text \<open>
  An event of the namespace: a client asks to be admitted (refused outright when its address is
  blocked), an admitted socket connects, a packet arrives (allowed by the ingress guard or not), the
  disconnection that a refused packet scheduled, the end of a connection. The world of the service
  and the clock may change between events. Identifiers of sockets are never used again.
\<close>

datatype 'w code_event =
    Asks jstr bool "jstr option" sval
  | Connects jstr
  | Sends jstr bool sval bool
  | Acts jstr bool jval bool
  | Expires jstr
  | Leaves jstr
  | WorldChanges 'w
  | ClockTicks int

definition code_possible :: "'w hub \<Rightarrow> 'w code_event \<Rightarrow> bool" where
  "code_possible h ev = (case ev of
       Asks s blocked origin auth \<Rightarrow> hb_heap h s = None
     | Connects s \<Rightarrow> hb_heap h s \<noteq> None \<and> s \<notin> set (hb_joined h)
     | Sends s allowed raw ack \<Rightarrow> s \<in> set (hb_open h)
     | Acts s allowed raw ack \<Rightarrow> s \<in> set (hb_open h)
     | Expires s \<Rightarrow> s \<in> set (hb_open h) \<and> so_scheduled (socket_of h s)
     | Leaves s \<Rightarrow> s \<in> set (hb_open h)
     | WorldChanges w \<Rightarrow> True
     | ClockTicks t \<Rightarrow> True)"

definition code_handler :: "'w code_env \<Rightarrow> 'w code_event \<Rightarrow> ('w, unit) code_action" where
  "code_handler E ev = (case ev of
       Asks s blocked origin auth \<Rightarrow> if blocked then skip else admit_code_socket E s origin auth
     | Connects s \<Rightarrow> connect_code_socket E s
     | Sends s allowed raw ack \<Rightarrow> if allowed then onCodeMessage E s raw ack else refuse_packet s ack
     | Acts s allowed raw ack \<Rightarrow> if allowed then terminal_action E (close_socket E) s raw else refuse_packet s ack
     | Expires s \<Rightarrow> close_socket E s
     | Leaves s \<Rightarrow> close_socket E s
     | WorldChanges w \<Rightarrow> change (\<lambda>h. h\<lparr> hb_world := w \<rparr>)
     | ClockTicks t \<Rightarrow> change (\<lambda>h. h\<lparr> hb_now := t \<rparr>))"

definition code_run_event :: "'w code_env \<Rightarrow> 'w code_event \<Rightarrow> 'w hub \<Rightarrow> 'w hub" where
  "code_run_event E ev h = snd (code_handler E ev h)"

inductive code_reachable :: "'w code_env \<Rightarrow> 'w hub \<Rightarrow> bool" for E where
  start: "code_reachable E (new_hub w now)"
| event: "code_reachable E h \<Longrightarrow> code_possible h ev \<Longrightarrow> code_reachable E (code_run_event E ev h)"

end
