(* ===== verification/Code_Frame.thy ===== *)
theory Code_Frame
  imports Code_Namespace
begin

text \<open>
  Rules for the handlers of the code namespace: what returns a value (\<open>sure\<close>), what leaves
  everything alone that decides who is connected and what terminals were sent (\<open>still\<close>), and handlers
  that agree on some states (\<open>agree\<close>), with which the number of \<open>drop_socket\<close> is shown not to matter.
\<close>

section \<open>Handlers that return\<close>

definition sure :: "('s \<Rightarrow> bool) \<Rightarrow> ('s, 'e, 'a) handler \<Rightarrow> ('a \<Rightarrow> 's \<Rightarrow> bool) \<Rightarrow> bool" where
  "sure P m Q \<longleftrightarrow> (\<forall>h. P h \<longrightarrow> (\<exists>x h'. m h = (Inr x, h') \<and> Q x h'))"

lemma sureD: "sure P m Q \<Longrightarrow> P h \<Longrightarrow> \<exists>x h'. m h = (Inr x, h') \<and> Q x h'"
  by (simp add: sure_def)

lemma sure_weaken: "sure P m Q \<Longrightarrow> (\<And>h. P' h \<Longrightarrow> P h) \<Longrightarrow> (\<And>x h. Q x h \<Longrightarrow> Q' x h) \<Longrightarrow> sure P' m Q'"
  unfolding sure_def by blast

lemma sure_skip: "(\<And>h. P h \<Longrightarrow> Q () h) \<Longrightarrow> sure P skip Q"
  by (simp add: sure_def skip_def give_def)

lemma sure_give: "(\<And>h. P h \<Longrightarrow> Q x h) \<Longrightarrow> sure P (give x) Q"
  by (simp add: sure_def give_def)

lemma sure_change: "(\<And>h. P h \<Longrightarrow> Q () (f h)) \<Longrightarrow> sure P (change f) Q"
  by (simp add: sure_def change_def)

lemma sure_obtaining: "sure P m Q \<Longrightarrow> (\<And>x. sure (Q x) (k x) R) \<Longrightarrow> sure P (obtaining m k) R"
  unfolding sure_def obtaining_def by fastforce

lemma sure_andThen: "sure P m (\<lambda>_. Q) \<Longrightarrow> sure Q n R \<Longrightarrow> sure P (andThen m n) R"
  unfolding andThen_def by (rule sure_obtaining)

lemma sure_ask: "(\<And>x. sure (\<lambda>h. P h \<and> f h = x) (k x) R) \<Longrightarrow> sure P (obtaining (ask f) k) R"
  by (auto simp: sure_def ask_obtaining)

lemma sure_if: "(b \<Longrightarrow> sure P m Q) \<Longrightarrow> (\<not> b \<Longrightarrow> sure P n Q) \<Longrightarrow> sure P (if b then m else n) Q"
  by simp

lemma sure_chain: "(\<And>m. m \<in> set ms \<Longrightarrow> sure P m (\<lambda>_. P)) \<Longrightarrow> sure P (chain ms) (\<lambda>_. P)"
  by (induction ms) (auto intro: sure_skip sure_andThen)

lemma sure_each: "(\<And>x. x \<in> set xs \<Longrightarrow> sure P (f x) (\<lambda>_. P)) \<Longrightarrow> sure P (each f xs) (\<lambda>_. P)"
  by (induction xs) (auto intro: sure_skip sure_andThen)

lemma ensures_sure: "sure P m Q \<Longrightarrow> ensures P m Q E"
  unfolding sure_def ensures_def by fastforce

section \<open>What terminals were sent\<close>

fun wire_of :: "to_client \<Rightarrow> wire_message list" where
  "wire_of (TerminalWire True w) = [StateMessage w]"
| "wire_of (TerminalWire False w) = [DeltaMessage w]"
| "wire_of _ = []"

fun wire_to :: "jstr \<Rightarrow> code_effect \<Rightarrow> wire_message list" where
  "wire_to s (Emitted q m) = (if q = s then wire_of m else [])"
| "wire_to s _ = []"

definition received :: "jstr \<Rightarrow> code_effect list \<Rightarrow> wire_message list" where
  "received s l = concat (map (wire_to s) l)"

lemma received_simps [simp]: "received s [] = []" "received s (l @ l') = received s l @ received s l'"
  "received s (e # l) = wire_to s e @ received s l"
  by (simp_all add: received_def)

definition places :: "'w hub \<Rightarrow> jstr \<Rightarrow> jstr option" where
  "places h s = map_option (\<lambda>k. ss_workspaceId (so_session k)) (hb_heap h s)"

lemma workspace_places: "places h s = Some ws \<Longrightarrow> workspace_of h s = ws"
  by (auto simp: places_def workspace_of_def session_of_def socket_of_def)

lemma places_dom: "places h s = None \<longleftrightarrow> hb_heap h s = None"
  by (simp add: places_def)

section \<open>Handlers that leave all this alone\<close>

definition unchanged :: "'w hub \<Rightarrow> 'w hub \<Rightarrow> bool" where
  "unchanged h h' \<longleftrightarrow> places h' = places h \<and> hb_joined h' = hb_joined h \<and> hb_open h' = hb_open h
     \<and> hb_machines h' = hb_machines h \<and> hb_connections h' = hb_connections h \<and> hb_made h' = hb_made h
     \<and> (\<forall>s. received s (hb_log h') = received s (hb_log h))"

lemma unchanged_refl [simp]: "unchanged h h"
  by (simp add: unchanged_def)

lemma unchanged_trans: "unchanged h h' \<Longrightarrow> unchanged h' h'' \<Longrightarrow> unchanged h h''"
  by (simp add: unchanged_def)

definition still :: "('w, 'a) code_action \<Rightarrow> bool" where
  "still m \<longleftrightarrow> (\<forall>h. unchanged h (snd (m h)))"

named_theorems still_rules \<open>handlers that leave connections and terminals alone\<close>

lemma stillI: "(\<And>h. unchanged h (snd (m h))) \<Longrightarrow> still m"
  by (simp add: still_def)

lemma still_pure [still_rules]: "still (give x)" "still (throw e)" "still (ask f)" "still (lift r)" "still skip"
  by (simp_all add: still_def give_def throw_def ask_def lift_def skip_def)

lemma still_obtaining [still_rules]: "still m \<Longrightarrow> (\<And>x. still (k x)) \<Longrightarrow> still (obtaining m k)"
  unfolding still_def obtaining_def by (auto split: prod.splits sum.splits) (metis snd_conv unchanged_trans)+

lemma still_andThen [still_rules]: "still m \<Longrightarrow> still n \<Longrightarrow> still (andThen m n)"
  unfolding andThen_def by (rule still_obtaining)

lemma still_attempt [still_rules]: "still m \<Longrightarrow> (\<And>e. still (k e)) \<Longrightarrow> still (attempt m k)"
  unfolding still_def attempt_def by (auto split: prod.splits sum.splits) (metis snd_conv unchanged_trans)+

lemma still_if [still_rules]: "(b \<Longrightarrow> still m) \<Longrightarrow> (\<not> b \<Longrightarrow> still n) \<Longrightarrow> still (if b then m else n)"
  by simp

lemma still_prod [still_rules]: "(\<And>a b. x = (a, b) \<Longrightarrow> still (k a b)) \<Longrightarrow> still (case x of (a, b) \<Rightarrow> k a b)"
  by (cases x) simp

lemma still_option [still_rules]:
  "(x = None \<Longrightarrow> still m) \<Longrightarrow> (\<And>y. x = Some y \<Longrightarrow> still (k y)) \<Longrightarrow> still (case x of None \<Rightarrow> m | Some y \<Rightarrow> k y)"
  by (cases x) simp_all

lemma still_each [still_rules]: "(\<And>x. x \<in> set xs \<Longrightarrow> still (f x)) \<Longrightarrow> still (each f xs)"
  by (induction xs) (simp_all add: still_rules)

lemma still_change: "(\<And>h. unchanged h (f h)) \<Longrightarrow> still (change f)"
  by (simp add: still_def change_def)

lemma still_set_socket [still_rules]:
  assumes "\<And>k. ss_workspaceId (so_session (f k)) = ss_workspaceId (so_session k)"
  shows "still (set_socket s f)"
  unfolding set_socket_def
proof (rule still_change)
  fix h :: "'w hub"
  have "places (h\<lparr> hb_heap := (hb_heap h)(s := map_option f (hb_heap h s)) \<rparr>) = places h"
    by (rule ext) (simp add: places_def option.map_comp comp_def assms)
  then show "unchanged h (h\<lparr> hb_heap := (hb_heap h)(s := map_option f (hb_heap h s)) \<rparr>)"
    by (simp add: unchanged_def)
qed

lemma places_frame: "hb_heap h' = hb_heap h \<Longrightarrow> places h' = places h"
  by (rule ext) (simp add: places_def)

lemma unchanged_frame:
  "hb_heap h' = hb_heap h \<Longrightarrow> hb_joined h' = hb_joined h \<Longrightarrow> hb_open h' = hb_open h \<Longrightarrow> hb_machines h' = hb_machines h
     \<Longrightarrow> hb_connections h' = hb_connections h \<Longrightarrow> hb_made h' = hb_made h
     \<Longrightarrow> (\<And>s. received s (hb_log h') = received s (hb_log h)) \<Longrightarrow> unchanged h h'"
  using places_frame [of h' h] by (simp add: unchanged_def)

lemma still_note [still_rules]: "(\<And>s. wire_to s e = []) \<Longrightarrow> still (note_effect e)"
  unfolding note_effect_def by (intro still_change unchanged_frame) simp_all

lemma still_is_connected [still_rules]: "still (is_connected s)"
  by (simp add: is_connected_def still_rules)

lemma still_emit [still_rules]: "wire_of m = [] \<Longrightarrow> still (emit s m)"
  unfolding emit_def by (intro still_rules) simp

lemma still_send [still_rules]: "still (send_message s m ack)"
  unfolding send_message_def by (intro still_rules) simp_all

lemma still_serve [still_rules]: "(\<And>r s. wire_to s (note r) = []) \<Longrightarrow> still (code_serve op note)"
  by (rule stillI) (auto simp: code_serve_def split_beta intro!: unchanged_frame)

lemma still_service_reauthorize [still_rules]: "still (service_reauthorize E s)"
  unfolding service_reauthorize_def by (intro still_rules) simp

lemma still_set_peers [still_rules]: "still (set_peers ws f)"
  unfolding set_peers_def by (intro still_change unchanged_frame) simp_all

lemma still_sendAwareness [still_rules]: "still (sendAwareness s p st)"
  unfolding sendAwareness_def by (intro still_rules)

lemma still_consume_action [still_rules]: "still (consume_action E s act)"
  unfolding consume_action_def by (intro still_rules still_change unchanged_frame) simp_all

lemma still_emit_ack [still_rules]: "still (emit_ack s ws aid err)"
  unfolding emit_ack_def by (intro still_rules) simp

lemma still_code_allowed [still_rules]: "still (code_allowed s consume)"
  unfolding code_allowed_def by (intro still_rules still_change unchanged_frame) simp_all

lemma still_updateProfile [still_rules]: "still (updateProfile E s p)"
  unfolding updateProfile_def by (intro still_rules) simp

lemma still_service_step1 [still_rules]: "still (service_syncStep1 E s sv)"
  unfolding service_syncStep1_def by (intro still_rules) simp

lemma still_service_append [still_rules]: "still (service_appendUpdate E s i u)"
  unfolding service_appendUpdate_def by (intro still_rules) simp

lemma still_refuse_packet [still_rules]: "still (refuse_packet s ack)"
  unfolding refuse_packet_def by (intro still_rules) simp

lemma still_reauthorize_only [still_rules]: "still (reauthorizeSocket E close s False)"
  unfolding reauthorizeSocket_def by (intro still_rules) simp

lemma still_sort_out [still_rules]: "still (sort_out E excluded xs)"
  by (induction xs) (auto intro!: still_rules)

lemma still_keeps: "still m \<Longrightarrow> (\<And>h h'. unchanged h h' \<Longrightarrow> I h \<Longrightarrow> I h') \<Longrightarrow> keeps I m"
  by (auto simp: still_def keeps_def)

section \<open>Handlers that return a value\<close>

definition returns :: "('s, 'e, 'a) handler \<Rightarrow> bool" where
  "returns m \<longleftrightarrow> (\<forall>h. \<exists>x. fst (m h) = Inr x)"

named_theorems return_rules \<open>handlers that do not throw\<close>

lemma returns_pure [return_rules]: "returns (give x)" "returns (ask f)" "returns skip" "returns (change g)"
  by (simp_all add: returns_def give_def ask_def skip_def change_def)

lemma returns_obtaining [return_rules]: "returns m \<Longrightarrow> (\<And>x. returns (k x)) \<Longrightarrow> returns (obtaining m k)"
  unfolding returns_def obtaining_def by (auto split: prod.splits sum.splits) (metis fst_conv sum.distinct(1))

lemma returns_andThen [return_rules]: "returns m \<Longrightarrow> returns n \<Longrightarrow> returns (andThen m n)"
  unfolding andThen_def by (rule returns_obtaining)

lemma returns_attempt [return_rules]: "(\<And>e. returns (k e)) \<Longrightarrow> returns (attempt m k)"
  unfolding returns_def attempt_def by (auto split: prod.splits sum.splits)

lemma returns_if [return_rules]: "returns m \<Longrightarrow> returns n \<Longrightarrow> returns (if b then m else n)"
  by simp

lemma returns_prod [return_rules]: "(\<And>a b. returns (k a b)) \<Longrightarrow> returns (case x of (a, b) \<Rightarrow> k a b)"
  by (cases x) simp

lemma returns_option [return_rules]:
  "returns m \<Longrightarrow> (\<And>y. returns (k y)) \<Longrightarrow> returns (case x of None \<Rightarrow> m | Some y \<Rightarrow> k y)"
  by (cases x) simp_all

lemma returns_each [return_rules]: "(\<And>x. returns (f x)) \<Longrightarrow> returns (each f xs)"
  by (induction xs) (simp_all add: return_rules)

lemma returns_chain [return_rules]: "list_all returns ms \<Longrightarrow> returns (chain ms)"
  by (induction ms) (simp_all add: return_rules)

lemma returns_emit [return_rules]: "returns (emit s m)" "returns (note_effect e)" "returns (is_connected s)"
    "returns (send_message s c ack)" "returns (set_socket s f)" "returns (set_peers ws g)"
  by (auto simp: emit_def is_connected_def note_effect_def send_message_def set_socket_def set_peers_def intro!: return_rules)

lemma returns_sendAwareness [return_rules]: "returns (sendAwareness s p st)" "returns (emit_ack s ws aid err)"
    "returns (consume_action E s act)" "returns (code_allowed s consume)"
  unfolding sendAwareness_def emit_ack_def consume_action_def code_allowed_def by (intro return_rules)+

lemma returns_reauthorize [return_rules]: "returns (reauthorizeSocket E (\<lambda>_. skip) s b)"
  unfolding reauthorizeSocket_def by (intro return_rules)

lemma returns_reauthorize_with [return_rules]: "(\<And>q. returns (close q)) \<Longrightarrow> returns (reauthorizeSocket E close s b)"
  unfolding reauthorizeSocket_def by (intro return_rules)

lemma returns_sort_out [return_rules]: "returns (sort_out E excluded xs)"
  by (induction xs) (auto intro!: return_rules)

lemma returns_broadcast [return_rules]:
  assumes "\<And>q. returns (close q)"
  shows "returns (broadcastAuthorized E close ws m excluded)" "returns (broadcastAwareness E close ws p st excluded)"
    "returns (emitAuthorized E close s m)"
  unfolding broadcastAuthorized_def broadcastAwareness_def emitAuthorized_def by (intro return_rules assms)+

lemma returns_terminal_event [return_rules]: "returns (terminal_event E ws e)"
  unfolding terminal_event_def by (intro return_rules)

lemma returns_updateParticipant [return_rules]: "(\<And>q. returns (close q)) \<Longrightarrow> returns (updateParticipant E close s)"
  unfolding updateParticipant_def by (intro return_rules)

lemma returns_drop [return_rules]: "returns (drop_socket E n s)"
proof (induction n arbitrary: s)
  case (Suc n)
  then show ?case
    by (auto simp: awareness_disconnect_def terminal_disconnect_def intro!: return_rules)
qed (simp add: return_rules)

lemma returns_close [return_rules]: "returns (close_socket E s)"
  unfolding close_socket_def by (intro return_rules)

lemma still_sure: "still m \<Longrightarrow> returns m \<Longrightarrow> (\<And>h h'. unchanged h h' \<Longrightarrow> I h \<Longrightarrow> I h') \<Longrightarrow> sure I m (\<lambda>_. I)"
  unfolding still_def returns_def sure_def by (metis prod.collapse)

end
