(* ===== verification/Code_Follow.thy ===== *)
theory Code_Follow
  imports Code_Frame
begin

text \<open>
  The terminals of the code namespace composed with their clients: whoever is connected holds the
  current state of the terminal, or an older one and has asked for a new one. The invariant allows for
  sockets about to be closed (\<open>X\<close>), for the workspaces of sockets that are closing (\<open>W\<close>), and says who
  is no longer connected (\<open>R\<close>), how many at most are (\<open>n\<close>) and where each belongs (\<open>V\<close>).
\<close>

section \<open>The invariant\<close>

lemma places_simps [simp]: "places (h\<lparr> hb_machines := x \<rparr>) = places h" "places (h\<lparr> hb_log := l \<rparr>) = places h"
    "places (h\<lparr> hb_open := os \<rparr>) = places h" "places (h\<lparr> hb_connections := cs \<rparr>) = places h"
  by (rule places_frame; simp)+

definition fresh_client :: client where
  "fresh_client = handleConnect new_client"

definition client_of :: "jstr \<Rightarrow> 'w hub \<Rightarrow> client" where
  "client_of s h = fold receive (received s (hb_log h)) fresh_client"

definition up_to_date :: "jstr \<Rightarrow> 'w hub \<Rightarrow> bool" where
  "up_to_date s h \<longleftrightarrow> (let m = machine_of (workspace_of h s) h in in_counter_range m \<longrightarrow> follows (client_of s h) (snapshot m))"

definition sockets_ok :: "'w hub \<Rightarrow> bool" where
  "sockets_ok h \<longleftrightarrow> distinct (hb_open h) \<and> set (hb_open h) \<subseteq> set (hb_joined h) \<and> (\<forall>s \<in> set (hb_joined h). places h s \<noteq> None)
     \<and> (\<forall>s. s \<notin> set (hb_joined h) \<longrightarrow> received s (hb_log h) = [])"

definition counts_ok :: "jstr list \<Rightarrow> 'w hub \<Rightarrow> bool" where
  "counts_ok W h \<longleftrightarrow> (\<forall>ws. hb_connections h ws = (let n = length (room ws h) + count_list W ws in if n = 0 then None else Some (int n))
     \<and> (hb_machines h ws = None \<longleftrightarrow> hb_connections h ws = None))"

definition machines_ok :: "'w hub \<Rightarrow> bool" where
  "machines_ok h \<longleftrightarrow> (\<forall>ws m. hb_machines h ws = Some m \<longrightarrow> machine_ok m)"

definition ok :: "jstr set \<Rightarrow> jstr list \<Rightarrow> jstr set \<Rightarrow> nat \<Rightarrow> (jstr \<Rightarrow> jstr option) \<Rightarrow> 'w hub \<Rightarrow> bool" where
  "ok X W R n V h \<longleftrightarrow> sockets_ok h \<and> counts_ok W h \<and> machines_ok h \<and> places h = V \<and> length (hb_open h) \<le> n
     \<and> set (hb_open h) \<inter> R = {} \<and> (\<forall>s \<in> set (hb_open h) - X. up_to_date s h)"

lemma ok_weaken: "ok X W R n V h \<Longrightarrow> X - R \<subseteq> X' \<Longrightarrow> R' \<subseteq> R \<Longrightarrow> n \<le> n' \<Longrightarrow> ok X' W R' n' V h"
  unfolding ok_def by (auto 0 3)

lemma open_place:
  assumes "sockets_ok h" "s \<in> set (hb_open h)"
  shows "places h s = Some (workspace_of h s)"
proof -
  have "s \<in> set (hb_joined h)" using assms by (auto simp: sockets_ok_def)
  with assms(1) obtain ws where "places h s = Some ws" by (auto simp: sockets_ok_def)
  with workspace_places [OF this] show ?thesis by simp
qed

lemma room_unchanged:
  assumes "sockets_ok h" "places h' = places h" "hb_open h' = hb_open h"
  shows "room ws h' = room ws h" "s \<in> set (hb_open h) \<Longrightarrow> workspace_of h' s = workspace_of h s"
proof -
  show *: "s \<in> set (hb_open h) \<Longrightarrow> workspace_of h' s = workspace_of h s" for s
    using open_place [OF assms(1), of s] workspace_places [of h' s] assms(2) by simp
  show "room ws h' = room ws h" using * assms(3) by (auto simp: room_def intro: filter_cong)
qed

lemma ok_unchanged:
  assumes "unchanged h h'" "ok X W R n V h"
  shows "ok X W R n V h'"
proof -
  have s: "sockets_ok h" using assms(2) by (simp add: ok_def)
  note u = assms(1) [unfolded unchanged_def]
  have "up_to_date s h' \<longleftrightarrow> up_to_date s h" if "s \<in> set (hb_open h)" for s
    using room_unchanged(2) [OF s _ _ that, of h'] u by (simp add: up_to_date_def client_of_def machine_of_def)
  moreover have "counts_ok W h'" using assms(2) room_unchanged(1) [OF s, of h'] u by (simp add: ok_def counts_ok_def)
  ultimately show ?thesis using assms(2) u by (auto simp: ok_def sockets_ok_def machines_ok_def)
qed

lemma sure_still [intro]: "still m \<Longrightarrow> returns m \<Longrightarrow> sure (ok X W R n V) m (\<lambda>_. ok X W R n V)"
  by (rule still_sure) (auto elim: ok_unchanged)

text \<open>A socket that is connected has a machine.\<close>

lemma machine_present:
  assumes "counts_ok W h" "s \<in> set (hb_open h) \<or> workspace_of h s \<in> set W"
  shows "hb_machines h (workspace_of h s) \<noteq> None"
proof -
  let ?ws = "workspace_of h s"
  have "s \<in> set (room ?ws h) \<or> count_list W ?ws \<noteq> 0" using assms(2) by (auto simp: room_def count_list_0_iff)
  then have "length (room ?ws h) + count_list W ?ws \<noteq> 0" by (cases "room ?ws h") auto
  with assms(1) show ?thesis by (auto simp: counts_ok_def Let_def)
qed

section \<open>An event of a machine and what is sent of it\<close>

lemma ok_event:
  assumes "ok X W R n V h" and m: "hb_machines h ws = Some m" and m': "hb_machines h' = (hb_machines h)(ws \<mapsto> advance digest e m)"
    and same: "places h' = places h" "hb_joined h' = hb_joined h" "hb_open h' = hb_open h" "hb_connections h' = hb_connections h"
    and other: "\<And>s. s \<notin> set (room ws h) \<Longrightarrow> received s (hb_log h') = received s (hb_log h)"
    and sent: "\<And>s. s \<in> set (room ws h) - X' \<Longrightarrow> e \<noteq> Disconnected s
      \<and> received s (hb_log h') = received s (hb_log h) @ sent_to digest s e m"
    and "X \<subseteq> X'"
  shows "ok X' W R n V h'"
proof -
  have s: "sockets_ok h" and ok_m: "machine_ok m" using assms(1) m by (auto simp: ok_def machines_ok_def)
  note rooms = room_unchanged [OF s same(1,3)]
  have "up_to_date s h'" if "s \<in> set (hb_open h) - X'" for s
  proof (cases "workspace_of h s = ws")
    case True
    have up: "up_to_date s h" using assms(1) that \<open>X \<subseteq> X'\<close> by (auto simp: ok_def)
    have in_room: "s \<in> set (room ws h) - X'" using True that by (simp add: room_def)
    have m_of: "machine_of ws h = m" "machine_of ws h' = advance digest e m" using m m' by (simp_all add: machine_of_def)
    have c: "client_of s h' = fold receive (sent_to digest s e m) (client_of s h)"
      using sent [OF in_room] by (simp add: client_of_def)
    show ?thesis
    proof (unfold up_to_date_def Let_def, intro impI)
      assume "in_counter_range (machine_of (workspace_of h' s) h')"
      then have range: "in_counter_range (advance digest e m)" using that True rooms(2) [of s] m_of by simp
      then have "follows (client_of s h) (snapshot m)"
        using up True m_of terminal.fits_back [OF ok_m] by (simp add: up_to_date_def)
      from terminal.follows_step [OF ok_m _ range this] sent [OF in_room] c
      show "follows (client_of s h') (snapshot (machine_of (workspace_of h' s) h'))"
        using that True rooms(2) [of s] m_of by simp
    qed
  next
    case False
    then have "s \<notin> set (room ws h)" by (simp add: room_def)
    from other [OF this] have c: "client_of s h' = client_of s h" by (simp add: client_of_def)
    have "up_to_date s h" using assms(1) that \<open>X \<subseteq> X'\<close> by (auto simp: ok_def)
    then show ?thesis using False that rooms(2) [of s] m' c by (simp add: up_to_date_def machine_of_def)
  qed
  moreover have "machines_ok h'"
    using assms(1) m' step_ok [OF ok_m, of digest e] by (auto simp: ok_def machines_ok_def advance_def)
  moreover have "hb_machines h' w = None \<longleftrightarrow> hb_machines h w = None" for w using m m' by simp
  then have "counts_ok W h'" using assms(1) rooms(1) same(4) by (simp add: ok_def counts_ok_def)
  moreover have "sockets_ok h'"
  proof -
    have "received s (hb_log h') = received s (hb_log h)" if "s \<notin> set (hb_joined h)" for s
      using other [of s] that s by (auto simp: room_def sockets_ok_def)
    with s same show ?thesis by (auto simp: sockets_ok_def)
  qed
  ultimately show ?thesis using assms(1) same by (simp add: ok_def)
qed

section \<open>A broadcast\<close>

lemma obtaining_Inr: "m h = (Inr x, h') \<Longrightarrow> obtaining m k h = k x h'"
  by (simp add: obtaining_def)

lemma andThen_Inr: "m h = (Inr (), h') \<Longrightarrow> andThen m n h = n h'"
  by (simp add: andThen_def obtaining_def)

lemma andThen_assoc: "andThen (andThen m n) k = andThen m (andThen n k)"
  by (rule ext) (simp add: andThen_def obtaining_def split: prod.splits sum.splits)

lemma emit_open: "s \<in> set (hb_open h) \<Longrightarrow> emit s m h = (Inr (), h\<lparr> hb_log := hb_log h @ [Emitted s m] \<rparr>)"
  by (simp add: emit_def is_connected_def ask_obtaining note_effect_def change_def)

lemma each_emit:
  "set xs \<subseteq> set (hb_open h) \<Longrightarrow> each (\<lambda>s. emit s m) xs h = (Inr (), h\<lparr> hb_log := hb_log h @ map (\<lambda>s. Emitted s m) xs \<rparr>)"
  by (induction xs arbitrary: h) (simp_all add: skip_def give_def andThen_def obtaining_def emit_open)

lemma received_map: "distinct xs \<Longrightarrow> received s (map (\<lambda>q. Emitted q m) xs) = (if s \<in> set xs then wire_of m else [])"
  by (induction xs) auto

lemma sort_out_splits:
  "sort_out E excluded xs h = (r, h') \<Longrightarrow> \<exists>a v. r = Inr (a, v) \<and> unchanged h h' \<and> set a \<subseteq> set xs \<and> (distinct xs \<longrightarrow> distinct a)
     \<and> set a \<union> set v = {s \<in> set xs. s \<in> set (hb_open h) \<and> excluded \<noteq> Some s}"
proof (induction xs arbitrary: h r h')
  case Nil
  then show ?case by (simp add: give_def)
next
  case (Cons s xs)
  show ?case
  proof (cases "excluded = Some s \<or> s \<notin> set (hb_open h)")
    case True
    with Cons.prems have "sort_out E excluded xs h = (r, h')" by (simp add: is_connected_def ask_obtaining)
    with True show ?thesis by (fastforce dest!: Cons.IH)
  next
    case False
    obtain b h1 where c: "reauthorizeSocket E (\<lambda>_. skip) s False h = (Inr b, h1)"
      using returns_reauthorize [of E s False] by (metis returns_def prod.collapse)
    have u: "unchanged h h1"
      using still_reauthorize_only [of E "\<lambda>_. skip" s] c unfolding still_def by (metis snd_conv)
    obtain r2 h2 where r2: "sort_out E excluded xs h1 = (r2, h2)" by (cases "sort_out E excluded xs h1")
    have "sort_out E excluded (s # xs) h = (map_sum id (\<lambda>(a, v). if b then (s # a, v) else (a, s # v)) r2, h2)"
      using False r2 by (cases r2) (simp_all add: is_connected_def ask_obtaining obtaining_Inr [where m = "reauthorizeSocket E (\<lambda>_. skip) s False", OF c]
        obtaining_def [of "sort_out E excluded xs"] give_def split_beta)
    then have rest: "sort_out E excluded xs h1 = (r2, h')" "r = map_sum id (\<lambda>(a, v). if b then (s # a, v) else (a, s # v)) r2"
      using Cons.prems r2 by simp_all
    from Cons.IH [OF rest(1)] obtain a v where i: "r2 = Inr (a, v)" "unchanged h1 h'" "set a \<subseteq> set xs" "distinct xs \<longrightarrow> distinct a"
      "set a \<union> set v = {s \<in> set xs. s \<in> set (hb_open h1) \<and> excluded \<noteq> Some s}" by blast
    have o: "hb_open h1 = hb_open h" using u by (simp add: unchanged_def)
    show ?thesis
      using i rest(2) False o unchanged_trans [OF u i(2)] by (cases b) auto
  qed
qed

text \<open>What closing a socket is to do: it returns, and the socket is no longer connected.\<close>

definition closer :: "nat \<Rightarrow> (jstr \<Rightarrow> ('w, unit) code_action) \<Rightarrow> bool" where
  "closer n close \<longleftrightarrow> (\<forall>X W R V s. sure (ok X W R n V) (close s) (\<lambda>_. ok X W (insert s R) n V))"

lemma closerD: "closer n close \<Longrightarrow> sure (ok X W R n V) (close s) (\<lambda>_. ok X W (insert s R) n V)"
  by (simp add: closer_def)

lemma closer_keeps: "closer n close \<Longrightarrow> sure (ok X W R n V) (close s) (\<lambda>_. ok X W R n V)"
  by (rule sure_weaken [OF closerD]) (auto elim!: ok_weaken)

lemma close_each: "closer n close \<Longrightarrow> sure (ok X W R n V) (each close xs) (\<lambda>_. ok X W (set xs \<union> R) n V)"
proof (induction xs arbitrary: R)
  case (Cons s xs)
  have "sure (ok X W R n V) (andThen (close s) (each close xs)) (\<lambda>_. ok X W (set xs \<union> insert s R) n V)"
    by (rule sure_andThen [OF closerD Cons.IH]) (rule Cons.prems)+
  then show ?case by simp
qed (auto intro: sure_skip)

lemma broadcast_event:
  assumes ok: "ok X W R n V h" and m: "hb_machines h ws = Some m" and "closer n close"
    and sent: "\<And>s. s \<in> set (room ws h) \<Longrightarrow> excluded \<noteq> Some s \<Longrightarrow> e \<noteq> Disconnected s \<and> sent_to digest s e m = wire_of msg"
    and gone: "\<And>s. excluded = Some s \<Longrightarrow> s \<in> R"
  shows "\<exists>h'. broadcastAuthorized E close ws msg excluded (h\<lparr> hb_machines := (hb_machines h)(ws \<mapsto> advance digest e m) \<rparr>) = (Inr (), h')
    \<and> ok X W R n V h'"
proof -
  let ?h = "h\<lparr> hb_machines := (hb_machines h)(ws \<mapsto> advance digest e m) \<rparr>"
  have s: "sockets_ok h" and out: "set (hb_open h) \<inter> R = {}" using ok by (simp_all add: ok_def)
  have room: "room ws ?h = room ws h" "distinct (room ws h)" "set (room ws h) \<subseteq> set (hb_open h)"
    using s by (auto simp: room_def workspace_of_def session_of_def socket_of_def sockets_ok_def)
  obtain r h1 where so: "sort_out E excluded (room ws h) ?h = (r, h1)" by (cases "sort_out E excluded (room ws h) ?h")
  from sort_out_splits [OF so] room(2) obtain a v where r: "r = Inr (a, v)" and u: "unchanged ?h h1" and "set a \<subseteq> set (room ws h)" "distinct a"
    and all: "set a \<union> set v = {s \<in> set (room ws h). s \<in> set (hb_open ?h) \<and> excluded \<noteq> Some s}" by blast
  let ?h2 = "h1\<lparr> hb_log := hb_log h1 @ map (\<lambda>s. Emitted s msg) a \<rparr>"
  note u = u [unfolded unchanged_def]
  have emits: "each (\<lambda>s. emit s msg) a h1 = (Inr (), ?h2)"
    using \<open>set a \<subseteq> set (room ws h)\<close> room(3) u by (intro each_emit) auto
  have ok2: "ok (X \<union> set v) W R n V ?h2"
  proof (rule ok_event [OF ok m])
    show "hb_machines ?h2 = (hb_machines h)(ws \<mapsto> advance digest e m)" using u by simp
    show "places ?h2 = places h" using u places_frame [of ?h2 h1] places_frame [of ?h h] by simp
    fix q
    have rec: "received q (hb_log ?h2) = received q (hb_log h) @ (if q \<in> set a then wire_of msg else [])"
      using u by (simp add: received_map [OF \<open>distinct a\<close>])
    show "received q (hb_log ?h2) = received q (hb_log h)" if "q \<notin> set (room ws h)"
      using rec that \<open>set a \<subseteq> set (room ws h)\<close> by auto
    show "e \<noteq> Disconnected q \<and> received q (hb_log ?h2) = received q (hb_log h) @ sent_to digest q e m"
      if q: "q \<in> set (room ws h) - (X \<union> set v)"
    proof -
      have "excluded \<noteq> Some q" using q gone out room(3) by auto
      moreover then have "q \<in> set a" using q all room(3) by auto
      ultimately show ?thesis using rec sent [of q] q by simp
    qed
  qed (use u in auto)
  from sureD [OF close_each [OF assms(3)] this, of v] obtain h3
    where "each close v ?h2 = (Inr (), h3)" "ok (X \<union> set v) W (set v \<union> R) n V h3" by auto
  moreover from this(2) have "ok X W R n V h3" by (rule ok_weaken) auto
  ultimately show ?thesis
    using so r emits room(1) by (simp add: broadcastAuthorized_def ask_obtaining 
        obtaining_Inr [where m = "sort_out E excluded (room ws h)", OF so [unfolded r]] andThen_def
        obtaining_Inr [where m = "each (\<lambda>s. emit s msg) a", OF emits])
qed

section \<open>Deltas\<close>

lemma obtaining_then: "obtaining m (\<lambda>x. andThen (f x) n) = andThen (obtaining m f) n"
  by (rule ext) (simp add: andThen_def obtaining_def split: prod.splits sum.splits)

lemma terminal_event_step:
  assumes "hb_machines h ws = Some m"
  shows "terminal_event E ws e h = (Inr (snd (step (ce_digest E) e m)), h\<lparr> hb_machines := (hb_machines h)(ws \<mapsto> advance (ce_digest E) e m) \<rparr>)"
  using assms
  by (simp add: terminal_event_def ask_obtaining machine_of_def split_beta change_then give_def advance_def)

lemma unsent_event:
  assumes "ok X W R n V h" "hb_machines h ws = Some m"
    "\<And>s. s \<in> set (room ws h) \<Longrightarrow> e \<noteq> Disconnected s \<and> sent_to digest s e m = []"
  shows "ok X W R n V (h\<lparr> hb_machines := (hb_machines h)(ws \<mapsto> advance digest e m) \<rparr>)"
  by (rule ok_event [OF assms(1,2), where e = e and digest = digest]) (use assms(3) places_frame in auto)

text \<open>A disconnection or a change of profile sends at most a delta.\<close>

lemma publish_delta:
  assumes "closer n close" "\<And>a act. e \<noteq> Dispatched a act" "\<And>s. e = Disconnected s \<longleftrightarrow> excluded = Some s"
    "\<And>s. excluded = Some s \<Longrightarrow> s \<in> R"
  shows "sure (\<lambda>h. ok X W R n V h \<and> hb_machines h ws \<noteq> None)
    (obtaining (terminal_event E ws e) (\<lambda>r. case r_delta r of None \<Rightarrow> skip
       | Some d \<Rightarrow> broadcastAuthorized E close ws (terminal_delta d) excluded)) (\<lambda>_. ok X W R n V)"
  unfolding sure_def
proof (intro allI impI, elim conjE)
  fix h :: "'a hub"
  assume ok: "ok X W R n V h" and "hb_machines h ws \<noteq> None"
  then obtain m where m: "hb_machines h ws = Some m" by blast
  let ?d = "ce_digest E"
  let ?r = "snd (step ?d e m)"
  let ?h = "h\<lparr> hb_machines := (hb_machines h)(ws \<mapsto> advance ?d e m) \<rparr>"
  have other: "e \<noteq> Disconnected s" if "s \<in> set (room ws h)" for s
    using that ok assms(3,4) by (auto simp: room_def ok_def)
  have sent: "sent_to ?d s e m = (case r_delta ?r of None \<Rightarrow> [] | Some d \<Rightarrow> [DeltaMessage (delta_json d)])"
    if "s \<in> set (room ws h)" for s
    using other [OF that] assms(2) by (cases e) (auto simp: sent_to_def deliveries_def split: option.split)
  have run: "obtaining (terminal_event E ws e) k h = k ?r ?h" for k :: "dispatch_result \<Rightarrow> ('a, unit) code_action"
    by (rule obtaining_Inr) (rule terminal_event_step [OF m])
  show "\<exists>x h'. obtaining (terminal_event E ws e) (\<lambda>r. case r_delta r of None \<Rightarrow> skip
       | Some d \<Rightarrow> broadcastAuthorized E close ws (terminal_delta d) excluded) h = (Inr x, h') \<and> ok X W R n V h'"
  proof (cases "r_delta ?r")
    case None
    with sent other have "ok X W R n V ?h" by (intro unsent_event [OF ok m]) auto
    with None show ?thesis unfolding run by (simp add: skip_def give_def)
  next
    case (Some d)
    have "\<exists>h'. broadcastAuthorized E close ws (terminal_delta d) excluded ?h = (Inr (), h') \<and> ok X W R n V h'"
      by (rule broadcast_event [OF ok m assms(1)]) (use sent other Some assms(4) in auto)
    with Some show ?thesis unfolding run by auto
  qed
qed

section \<open>Closing a socket\<close>

lemma length_removed:
  "distinct xs \<Longrightarrow> s \<in> set xs \<Longrightarrow> length (filter (\<lambda>q. q \<noteq> s \<and> P q) xs) + (if P s then 1 else 0) = length (filter P xs)"
proof (induction xs)
  case (Cons x xs)
  show ?case
  proof (cases "s \<in> set xs")
    case False
    then have "filter (\<lambda>q. q \<noteq> s \<and> P q) xs = filter P xs" by (intro filter_cong) auto
    with False Cons.prems show ?thesis by auto
  qed (use Cons in auto)
qed simp

definition leaving :: "jstr \<Rightarrow> 'w hub \<Rightarrow> 'w hub" where
  "leaving s h = h\<lparr> hb_open := filter (\<lambda>q. q \<noteq> s) (hb_open h) \<rparr>"

lemma leaving_simps [simp]:
  "hb_open (leaving s h) = filter (\<lambda>q. q \<noteq> s) (hb_open h)" "hb_joined (leaving s h) = hb_joined h"
  "hb_machines (leaving s h) = hb_machines h" "hb_connections (leaving s h) = hb_connections h" "hb_log (leaving s h) = hb_log h"
  "places (leaving s h) = places h" "workspace_of (leaving s h) q = workspace_of h q"
  by (simp_all add: leaving_def workspace_of_def session_of_def socket_of_def)

lemma leaving_ok:
  assumes ok: "ok X W R (Suc n) V h" and s: "s \<in> set (hb_open h)"
  shows "ok X (workspace_of h s # W) (insert s R) n V (leaving s h)"
proof -
  have so: "distinct (hb_open h)" using ok by (simp add: ok_def sockets_ok_def)
  have "length (room w h) = length (room w (leaving s h)) + (if workspace_of h s = w then 1 else 0)" for w
    using length_removed [OF so s, of "\<lambda>q. workspace_of h q = w"] by (simp add: room_def conj_commute)
  then have "counts_ok (workspace_of h s # W) (leaving s h)"
    using ok by (simp add: ok_def counts_ok_def)
  moreover have "up_to_date q (leaving s h) = up_to_date q h" for q
    by (simp add: up_to_date_def client_of_def machine_of_def)
  moreover have "length (hb_open (leaving s h)) \<le> n"
    using length_removed [OF so s, of "\<lambda>_. True"] ok by (simp add: ok_def)
  ultimately show ?thesis
    using ok by (auto simp: ok_def sockets_ok_def machines_ok_def)
qed

definition departed :: "jstr \<Rightarrow> 'w hub \<Rightarrow> 'w hub" where
  "departed ws h = (let remaining = max 0 ((case hb_connections h ws of None \<Rightarrow> 1 | Some n \<Rightarrow> n) - 1)
     in if remaining = 0 then h\<lparr> hb_connections := (hb_connections h)(ws := None), hb_machines := (hb_machines h)(ws := None) \<rparr>
        else h\<lparr> hb_connections := (hb_connections h)(ws \<mapsto> remaining) \<rparr>)"

lemma departed_ok:
  assumes ok: "ok X (ws # W) R n V h"
  shows "ok X W R n V (departed ws h)"
proof -
  let ?n = "length (room ws h) + count_list W ws"
  obtain N where N: "N = ?n" by simp
  have "hb_connections h ws = Some (int (Suc N))" using ok N by (simp add: ok_def counts_ok_def Let_def)
  then have d: "departed ws h = (if ?n = 0 then h\<lparr> hb_connections := (hb_connections h)(ws := None), hb_machines := (hb_machines h)(ws := None) \<rparr>
      else h\<lparr> hb_connections := (hb_connections h)(ws \<mapsto> int ?n) \<rparr>)"
    unfolding N [symmetric] by (simp add: departed_def Let_def)
  have same: "hb_open (departed ws h) = hb_open h" "hb_joined (departed ws h) = hb_joined h" "hb_log (departed ws h) = hb_log h"
    "places (departed ws h) = places h" "workspace_of (departed ws h) q = workspace_of h q" for q
    by (auto simp: d workspace_of_def session_of_def socket_of_def)
  have room: "room w (departed ws h) = room w h" for w by (simp add: room_def same)
  have "up_to_date q (departed ws h)" if "q \<in> set (hb_open h) - X" for q
  proof -
    have "workspace_of h q \<noteq> ws \<or> ?n \<noteq> 0" using that by (auto simp: room_def filter_empty_conv)
    then have "machine_of (workspace_of h q) (departed ws h) = machine_of (workspace_of h q) h" by (auto simp: d machine_of_def)
    then show ?thesis using ok that by (auto simp: up_to_date_def client_of_def same ok_def)
  qed
  moreover have "counts_ok W (departed ws h)"
    using ok unfolding counts_ok_def room by (auto simp: d ok_def counts_ok_def Let_def split: if_splits)
  moreover have "machines_ok (departed ws h)" using ok by (auto simp: d ok_def machines_ok_def)
  ultimately show ?thesis using ok by (auto simp: ok_def sockets_ok_def same)
qed

section \<open>What keeps the invariant\<close>

lemma keeps_sure: "keeps I m \<Longrightarrow> returns m \<Longrightarrow> sure I m (\<lambda>_. I)"
  unfolding keeps_def returns_def sure_def by (metis prod.collapse)

lemma sure_keeps: "sure I m (\<lambda>_. I) \<Longrightarrow> keeps I m"
  unfolding keeps_def sure_def by fastforce

lemma still_ok: "still m \<Longrightarrow> keeps (ok X W R n V) m"
  by (rule still_keeps) (auto elim: ok_unchanged)

lemma closer_ok: "closer n close \<Longrightarrow> keeps (ok X W R n V) (close s)"
  by (rule sure_keeps) (rule closer_keeps)

lemma ok_reauthorize: "closer n close \<Longrightarrow> keeps (ok X W R n V) (reauthorizeSocket E close s b)"
  unfolding reauthorizeSocket_def by (intro keep_rules still_ok [OF still_send] still_ok [OF still_service_reauthorize] closer_ok)

lemma ok_broadcastAwareness: "closer n close \<Longrightarrow> keeps (ok X W R n V) (broadcastAwareness E close ws p st excluded)"
  unfolding broadcastAwareness_def
  by (intro keep_rules ok_reauthorize still_ok [OF still_is_connected] still_ok [OF still_sendAwareness])

lemma ok_awareness_disconnect: "closer n close \<Longrightarrow> keeps (ok X W R n V) (awareness_disconnect E close s)"
  unfolding awareness_disconnect_def by (intro keep_rules ok_broadcastAwareness still_ok [OF still_set_peers])

lemma ok_emitAuthorized: "closer n close \<Longrightarrow> wire_of m = [] \<Longrightarrow> keeps (ok X W R n V) (emitAuthorized E close s m)"
  unfolding emitAuthorized_def
  by (intro keep_rules ok_reauthorize still_ok [OF still_is_connected] still_ok [OF still_emit])

lemma ok_broadcast_message: "closer n close \<Longrightarrow> wire_of m = [] \<Longrightarrow> keeps (ok X W R n V) (broadcastAuthorized E close ws m excluded)"
  unfolding broadcastAuthorized_def
  by (intro keep_rules still_ok [OF still_sort_out] still_ok [OF still_emit] closer_ok)

lemma sure_terminal_disconnect:
  assumes "closer n close" "s \<in> R" "V s = Some ws"
  shows "sure (ok X (ws # W) R n V) (terminal_disconnect E close s) (\<lambda>_. ok X W R n V)"
proof -
  have "sure (\<lambda>h. ok X (ws # W) R n V h \<and> hb_machines h ws \<noteq> None)
      (obtaining (terminal_event E ws (Disconnected s)) (\<lambda>r. case r_delta r of None \<Rightarrow> skip
         | Some d \<Rightarrow> broadcastAuthorized E close ws (terminal_delta d) (Some s))) (\<lambda>_. ok X (ws # W) R n V)"
    using assms by (intro publish_delta) auto
  moreover have "hb_machines h ws \<noteq> None" if "ok X (ws # W) R n V h" for h :: "'a hub"
    using that by (auto simp: ok_def counts_ok_def Let_def)
  ultimately have publish: "sure (ok X (ws # W) R n V)
      (obtaining (terminal_event E ws (Disconnected s)) (\<lambda>r. case r_delta r of None \<Rightarrow> skip
         | Some d \<Rightarrow> broadcastAuthorized E close ws (terminal_delta d) (Some s))) (\<lambda>_. ok X (ws # W) R n V)"
    by (auto elim: sure_weaken)
  have "sure (ok X (ws # W) R n V) (change (\<lambda>h. h\<lparr> hb_actionRates := (hb_actionRates h)(s := None) \<rparr>) :: ('a, unit) code_action)
      (\<lambda>_. ok X (ws # W) R n V)"
    by (intro keeps_sure still_ok still_change unchanged_frame return_rules) simp_all
  moreover have "sure (ok X (ws # W) R n V) (change (departed ws)) (\<lambda>_. ok X W R n V)"
    by (rule sure_change) (rule departed_ok)
  ultimately have "sure (ok X (ws # W) R n V) (andThen (change (\<lambda>h. h\<lparr> hb_actionRates := (hb_actionRates h)(s := None) \<rparr>))
      (obtaining (terminal_event E ws (Disconnected s)) (\<lambda>r. andThen (case r_delta r of None \<Rightarrow> skip
         | Some d \<Rightarrow> broadcastAuthorized E close ws (terminal_delta d) (Some s)) (change (departed ws))))) (\<lambda>_. ok X W R n V)"
    unfolding obtaining_then by (intro sure_andThen [OF _ sure_andThen [OF publish]])
  moreover have "workspace_of h s = ws" if "ok X (ws # W) R n V h" for h :: "'a hub"
    using that assms(3) by (intro workspace_places) (simp add: ok_def)
  ultimately show ?thesis
    unfolding terminal_disconnect_def departed_def [abs_def] by (auto simp: sure_def ask_obtaining)
qed

lemma drop_closes: "closer n (drop_socket E n)"
  unfolding closer_def
proof (induction n)
  case 0
  then show ?case by (auto simp: ok_def intro!: sure_skip)
next
  case (Suc n)
  then have close: "closer n (drop_socket E n)" by (simp add: closer_def)
  show ?case
  proof (intro allI)
    fix X W R s and V :: "jstr \<Rightarrow> jstr option"
    show "sure (ok X W R (Suc n) V) (drop_socket E (Suc n) s) (\<lambda>_. ok X W (insert s R) (Suc n) V)"
      unfolding sure_def
    proof (intro allI impI)
      fix h :: "'a hub"
      assume ok: "ok X W R (Suc n) V h"
      show "\<exists>x h'. drop_socket E (Suc n) s h = (Inr x, h') \<and> ok X W (insert s R) (Suc n) V h'"
      proof (cases "s \<in> set (hb_open h)")
        case False
        with ok show ?thesis by (auto simp: is_connected_def ask_obtaining skip_def give_def ok_def)
      next
        case True
        let ?ws = "workspace_of h s"
        have V: "V s = Some ?ws" using ok True open_place [of h s] by (auto simp: ok_def)
        let ?I = "ok X (?ws # W) (insert s R) n V"
        have note_ok: "sure ?I (note_effect (Left s)) (\<lambda>_. ?I)" by (intro keeps_sure still_ok still_rules return_rules) simp
        have aw: "sure ?I (awareness_disconnect E (drop_socket E n) s) (\<lambda>_. ?I)"
          by (intro keeps_sure ok_awareness_disconnect close) (auto simp: awareness_disconnect_def intro!: return_rules)
        have "sure ?I (chain [note_effect (Left s), awareness_disconnect E (drop_socket E n) s, terminal_disconnect E (drop_socket E n) s])
            (\<lambda>_. ok X W (insert s R) n V)"
          unfolding chain.simps
          by (rule sure_andThen [OF note_ok sure_andThen [OF aw sure_andThen [OF sure_terminal_disconnect [where ws = ?ws]]]])
            (auto intro: sure_skip close V)
        from sureD [OF this leaving_ok [OF ok True]] obtain h'
          where "chain [note_effect (Left s), awareness_disconnect E (drop_socket E n) s, terminal_disconnect E (drop_socket E n) s]
              (leaving s h) = (Inr (), h')" "ok X W (insert s R) n V h'" by auto
        moreover from this(2) have "ok X W (insert s R) (Suc n) V h'" by (rule ok_weaken) auto
        ultimately show ?thesis
          using True by (simp add: is_connected_def ask_obtaining change_then leaving_def [abs_def])
      qed
    qed
  qed
qed

lemma close_closes: "closer n (close_socket E)"
  unfolding closer_def
proof (intro allI)
  fix X W R s and V :: "jstr \<Rightarrow> jstr option"
  show "sure (ok X W R n V) (close_socket E s) (\<lambda>_. ok X W (insert s R) n V)"
    unfolding sure_def
  proof (intro allI impI)
    fix h :: "'a hub"
    assume ok: "ok X W R n V h"
    let ?n = "length (hb_open h)"
    have "?n \<le> n" "ok X W R ?n V h" using ok by (auto simp: ok_def)
    with sureD [OF closerD [OF drop_closes], of X W R ?n V h E s]
    show "\<exists>x h'. close_socket E s h = (Inr x, h') \<and> ok X W (insert s R) n V h'"
      by (auto simp: close_socket_def ask_obtaining elim!: ok_weaken)
  qed
qed

section \<open>The handlers of the terminal\<close>

lemma ok_updateParticipant:
  assumes "V s \<noteq> None"
  shows "keeps (ok X W R n V) (updateParticipant E (close_socket E) s)"
  unfolding keeps_def
proof (intro allI impI)
  fix h :: "'a hub"
  obtain ws where ws: "V s = Some ws" using assms by blast
  assume ok: "ok X W R n V h"
  have ws: "workspace_of h s = ws" using ok ws by (intro workspace_places) (simp add: ok_def)
  show "ok X W R n V (snd (updateParticipant E (close_socket E) s h))"
  proof (cases "hb_machines h ws")
    case None
    with ok ws show ?thesis by (simp add: updateParticipant_def ask_obtaining skip_def give_def)
  next
    case (Some m)
    with sureD [OF publish_delta [OF close_closes, of "ProfileUpdated (terminal_actor h s)" None R X W n V ws E E], of h] ok ws
    show ?thesis by (auto simp: updateParticipant_def ask_obtaining)
  qed
qed

lemma skip_then: "andThen skip m = m"
  by (simp add: andThen_def skip_def)

lemma emit_machines: "emit s c (h\<lparr> hb_machines := M \<rparr>) = (Inr (), (snd (emit s c h))\<lparr> hb_machines := M \<rparr>)"
  by (simp add: emit_def is_connected_def ask_obtaining note_effect_def change_def skip_def give_def)

lemma emit_machines_same: "hb_machines (snd (emit s c h)) = hb_machines h" "hb_open (snd (emit s c h)) = hb_open h"
    "places (snd (emit s c h)) = places h"
  by (simp_all add: emit_def is_connected_def ask_obtaining note_effect_def change_def skip_def give_def)

lemma dispatch_deliveries:
  assumes "machine_ok m" "socketId a = s" and r_def: "r = snd (step digest (Dispatched a act) m)"
  shows "r_delta r = None \<or> r_snapshot r = None"
    "\<And>q. sent_to digest q (Dispatched a act) m = (case r_delta r of None \<Rightarrow> [] | Some d \<Rightarrow> [DeltaMessage (delta_json d)])
       @ (case r_snapshot r of None \<Rightarrow> [] | Some st \<Rightarrow> if r_changed r \<or> q = s then [StateMessage (state_json st)] else [])"
proof -
  show sent: "sent_to digest q (Dispatched a act) m = (case r_delta r of None \<Rightarrow> [] | Some d \<Rightarrow> [DeltaMessage (delta_json d)])
       @ (case r_snapshot r of None \<Rightarrow> [] | Some st \<Rightarrow> if r_changed r \<or> q = s then [StateMessage (state_json st)] else [])" for q
    using assms(2) by (auto simp: sent_to_def deliveries_def r_def split: option.splits)
  show "r_delta r = None \<or> r_snapshot r = None"
    using terminal.one_message [OF assms(1), of "Dispatched a act" s digest] unfolding sent
    by (auto split: option.splits)
qed

lemma ok_dispatch:
  assumes ok: "ok X W R n V h" and m: "hb_machines h ws = Some m" and V: "V s = Some ws" and s: "socketId a = s"
  shows "ok X W R n V (snd (obtaining (terminal_event E ws (Dispatched a act)) (terminal_answer E (close_socket E) s ws) h))"
proof -
  let ?d = "ce_digest E"
  let ?e = "Dispatched a act"
  obtain r where r: "r = snd (step ?d ?e m)" by simp
  let ?ack = "TerminalAck (r_ack r)"
  let ?M = "(hb_machines h)(ws \<mapsto> advance ?d ?e m)"
  define h1 where "h1 = snd (emit s ?ack h)"
  have ok_m: "machine_ok m" using ok m by (auto simp: ok_def machines_ok_def)
  note sent = dispatch_deliveries [OF ok_m s, where digest = "?d" and act = act, OF r]
  have k: "keeps (ok X W R n V) (emit s ?ack :: ('a, unit) code_action)" by (intro still_ok still_emit) simp
  have h1: "ok X W R n V h1" "hb_machines h1 = hb_machines h" "hb_open h1 = hb_open h"
    using k ok unfolding keeps_def h1_def by (simp_all add: emit_machines_same)
  have m1: "hb_machines h1 ws = Some m" using h1(2) m by simp
  let ?h1 = "h1\<lparr> hb_machines := (hb_machines h1)(ws \<mapsto> advance ?d ?e m) \<rparr>"
  define tail where "tail = (case r_effect r of None \<Rightarrow> skip
       | Some e \<Rightarrow> emitAuthorized E (close_socket E) (targetSocketId e) (TerminalEffect (toSharedTerminalClientEffect e)))"
  have tail: "keeps (ok X W R n V) (andThen tail skip)"
    unfolding tail_def by (intro keep_rules ok_emitAuthorized close_closes) simp
  have run: "obtaining (terminal_event E ws ?e) (terminal_answer E (close_socket E) s ws) h
      = andThen (case r_delta r of None \<Rightarrow> skip | Some d \<Rightarrow> broadcastAuthorized E (close_socket E) ws (terminal_delta d) None)
         (andThen (case r_snapshot r of None \<Rightarrow> skip
            | Some st \<Rightarrow> if r_changed r then broadcastAuthorized E (close_socket E) ws (terminal_snapshot st) None
                         else emit s (terminal_snapshot st)) (andThen tail skip)) ?h1"
  proof -
    have "obtaining (terminal_event E ws ?e) (terminal_answer E (close_socket E) s ws) h
      = terminal_answer E (close_socket E) s ws r (h\<lparr> hb_machines := ?M \<rparr>)"
      unfolding r by (rule obtaining_Inr) (rule terminal_event_step [OF m])
    then show ?thesis
      unfolding terminal_answer_def chain.simps andThen_Inr [where m = "emit s ?ack", OF emit_machines] tail_def
      by (simp only: h1_def emit_machines_same)
  qed
  show ?thesis
  proof (cases "r_delta r")
    case (Some d)
    then have snap: "r_snapshot r = None" using sent(1) by simp
    have "\<exists>h'. broadcastAuthorized E (close_socket E) ws (terminal_delta d) None ?h1 = (Inr (), h') \<and> ok X W R n V h'"
      by (rule broadcast_event [OF h1(1) m1 close_closes]) (use sent(2) Some snap in auto)
    then obtain h' where "broadcastAuthorized E (close_socket E) ws (terminal_delta d) None ?h1 = (Inr (), h')" "ok X W R n V h'" by blast
    with Some snap tail show ?thesis unfolding run by (simp add: andThen_def [of "broadcastAuthorized _ _ _ _ _"] obtaining_def skip_then keeps_def)
  next
    case None
    show ?thesis
    proof (cases "r_snapshot r")
      case none: None
      with None sent(2) have "ok X W R n V ?h1" by (intro unsent_event [OF h1(1) m1]) auto
      with None none tail show ?thesis unfolding run by (simp add: skip_then keeps_def)
    next
      case (Some st)
      show ?thesis
      proof (cases "r_changed r")
        case True
        have "\<exists>h'. broadcastAuthorized E (close_socket E) ws (terminal_snapshot st) None ?h1 = (Inr (), h') \<and> ok X W R n V h'"
          by (rule broadcast_event [OF h1(1) m1 close_closes]) (use sent(2) Some None True in auto)
        then obtain h' where "broadcastAuthorized E (close_socket E) ws (terminal_snapshot st) None ?h1 = (Inr (), h')" "ok X W R n V h'"
          by blast
        with Some None True tail show ?thesis unfolding run
          by (simp add: andThen_def [of "broadcastAuthorized _ _ _ _ _"] obtaining_def skip_then keeps_def)
      next
        case False
        let ?h2 = "(snd (emit s (terminal_snapshot st) h1))\<lparr> hb_machines := (hb_machines h1)(ws \<mapsto> advance ?d ?e m) \<rparr>"
        have room: "s \<in> set (hb_open h1) \<longleftrightarrow> s \<in> set (room ws h1)"
          using h1(1) V by (auto simp: room_def ok_def dest!: workspace_places)
        have log: "received q (hb_log ?h2) = received q (hb_log h1)
            @ (if q = s \<and> s \<in> set (hb_open h1) then [StateMessage (state_json st)] else [])" for q
          by (simp add: emit_def is_connected_def ask_obtaining note_effect_def change_def skip_def give_def)
        have "ok X W R n V ?h2"
        proof (rule ok_event [OF h1(1) m1, where e = ?e and digest = ?d])
          show "hb_connections ?h2 = hb_connections h1" "hb_joined ?h2 = hb_joined h1"
            by (simp_all add: emit_def is_connected_def ask_obtaining note_effect_def change_def skip_def give_def)
        qed (use log room sent(2) Some None False in \<open>auto simp: emit_machines_same\<close>)
        with Some None False tail show ?thesis unfolding run
          by (simp add: andThen_def [of "emit s (terminal_snapshot st)"] obtaining_def emit_machines skip_then keeps_def)
      qed
    qed
  qed
qed

lemma ensures_still: "still m \<Longrightarrow> (\<And>h h'. unchanged h h' \<Longrightarrow> P h \<Longrightarrow> P h') \<Longrightarrow> ensures P m (\<lambda>_. P) (\<lambda>_. P)"
  unfolding keeps_ensures [symmetric] by (rule still_keeps)

lemma ensures_ok: "keeps (ok X W R n V) m \<Longrightarrow> (\<And>h. P h \<Longrightarrow> ok X W R n V h) \<Longrightarrow> ensures P m (\<lambda>_. ok X W R n V) (\<lambda>_. ok X W R n V)"
  unfolding keeps_ensures by (erule ensures_weaken) auto

lemma ensures_ask: "(\<And>h. P h \<Longrightarrow> f h = x) \<Longrightarrow> ensures P (k x) Q F \<Longrightarrow> ensures P (obtaining (ask f) k) Q F"
  by (simp add: ensures_def ask_obtaining)

lemma ensures_first:
  assumes "still m" "\<And>h h'. unchanged h h' \<Longrightarrow> P h \<Longrightarrow> P h'" "\<And>h. P h \<Longrightarrow> F h" "\<And>x. ensures P (k x) Q (\<lambda>_. F)"
  shows "ensures P (obtaining m k) Q (\<lambda>_. F)"
proof -
  have "ensures P m (\<lambda>_. P) (\<lambda>_. F)"
    by (rule ensures_weaken [OF ensures_still [OF assms(1,2)]]) (auto intro: assms(3))
  from this assms(4) show ?thesis by (rule ensures_obtaining)
qed

lemma ok_terminal_action:
  assumes V: "V s = Some ws"
  shows "ensures (\<lambda>h. ok X W R n V h \<and> hb_machines h ws \<noteq> None) (terminal_action E (close_socket E) s raw)
    (\<lambda>_. ok X W R n V) (\<lambda>_. ok X W R n V)"
proof -
  let ?P = "\<lambda>h :: 'a hub. ok X W R n V h \<and> hb_machines h ws \<noteq> None"
  let ?O = "ok X W R n V :: 'a hub \<Rightarrow> bool"
  have P: "?P h'" if "unchanged h h'" "?P h" for h h'
    using that ok_unchanged [OF that(1)] by (simp add: unchanged_def)
  have ack: "ensures ?P (case readSharedTerminalActionId raw of None \<Rightarrow> skip | Some aid \<Rightarrow> emit_ack s ws aid err) (\<lambda>_. ?O) (\<lambda>_. ?O)" for err
    by (intro ensures_ok keep_rules still_ok [OF still_emit_ack]) simp
  have dispatched: "ensures ?P (obtaining (ask (\<lambda>h. terminal_actor h s)) (\<lambda>a.
      obtaining (terminal_event E ws (Dispatched a act)) (terminal_answer E (close_socket E) s ws))) (\<lambda>_. ?O) (\<lambda>_. ?O)" for act
    unfolding ensures_def ask_obtaining
  proof (intro allI impI, elim conjE)
    fix h :: "'a hub"
    assume ok: "?O h" and "hb_machines h ws \<noteq> None"
    then obtain m where m: "hb_machines h ws = Some m" by blast
    have "socketId (terminal_actor h s) = s" by (simp add: terminal_actor_def participant.defs actor.defs)
    from ok_dispatch [OF ok m V this, of E act]
    show "case obtaining (terminal_event E ws (Dispatched (terminal_actor h s) act)) (terminal_answer E (close_socket E) s ws) h of
        (Inl e, s') \<Rightarrow> ?O s' | (Inr x, s') \<Rightarrow> ?O s'"
      by (auto split: prod.splits sum.splits)
  qed
  have body: "ensures ?P (andThen (service_reauthorize E s)
       (case parseSharedTerminalActionEnvelope raw of
          None \<Rightarrow> (case readSharedTerminalActionId raw of None \<Rightarrow> skip | Some aid \<Rightarrow> emit_ack s ws aid ErrInvalidAction)
        | Some act \<Rightarrow> obtaining (consume_action E s act) (\<lambda>ok.
            if \<not> ok then emit_ack s ws (actionId act) ErrRateLimited
            else obtaining (ask (\<lambda>h. terminal_actor h s)) (\<lambda>a.
              obtaining (terminal_event E ws (Dispatched a act)) (terminal_answer E (close_socket E) s ws))))) (\<lambda>_. ?O) (\<lambda>_. ?O)"
    unfolding andThen_def
  proof (rule ensures_first [OF still_service_reauthorize P], assumption+, blast)
    show "ensures ?P (case parseSharedTerminalActionEnvelope raw of
          None \<Rightarrow> (case readSharedTerminalActionId raw of None \<Rightarrow> skip | Some aid \<Rightarrow> emit_ack s ws aid ErrInvalidAction)
        | Some act \<Rightarrow> obtaining (consume_action E s act) (\<lambda>ok.
            if \<not> ok then emit_ack s ws (actionId act) ErrRateLimited
            else obtaining (ask (\<lambda>h. terminal_actor h s)) (\<lambda>a.
              obtaining (terminal_event E ws (Dispatched a act)) (terminal_answer E (close_socket E) s ws)))) (\<lambda>_. ?O) (\<lambda>_. ?O)"
    proof (cases "parseSharedTerminalActionEnvelope raw")
      case (Some act)
      have limited: "ensures ?P (emit_ack s ws (actionId act) ErrRateLimited) (\<lambda>_. ?O) (\<lambda>_. ?O)"
        by (intro ensures_ok still_ok [OF still_emit_ack]) simp
      have "ensures ?P (obtaining (consume_action E s act) (\<lambda>ok.
            if \<not> ok then emit_ack s ws (actionId act) ErrRateLimited
            else obtaining (ask (\<lambda>h. terminal_actor h s)) (\<lambda>a.
              obtaining (terminal_event E ws (Dispatched a act)) (terminal_answer E (close_socket E) s ws)))) (\<lambda>_. ?O) (\<lambda>_. ?O)"
        by (rule ensures_first [OF still_consume_action P]) (use dispatched limited in auto)
      with Some show ?thesis by simp
    qed (use ack [of ErrInvalidAction] in \<open>simp only: option.case\<close>)
  qed
  have refused: "ensures ?O (andThen (case readSharedTerminalActionId raw of None \<Rightarrow> skip | Some aid \<Rightarrow> emit_ack s ws aid ErrUnauthorized)
      (close_socket E s)) (\<lambda>_. ?O) (\<lambda>_. ?O)"
    unfolding keeps_ensures [symmetric] by (intro keep_rules still_ok [OF still_emit_ack] closer_ok [OF close_closes])
  have "workspace_of h s = ws" if "?P h" for h
    using that V by (intro workspace_places) (simp add: ok_def)
  then show ?thesis
    unfolding terminal_action_def using ensures_attempt [OF body refused] by (rule ensures_ask)
qed

section \<open>The messages of a socket\<close>

lemma ok_replay: "keeps (ok X W R n V) (replayAwarenessOnce E s)"
  unfolding replayAwarenessOnce_def
  by (intro keep_rules ok_reauthorize close_closes still_ok [OF still_set_socket] still_ok [OF still_sendAwareness]) simp

lemmas ok_steps = still_ok [OF still_send] still_ok [OF still_code_allowed] still_ok [OF still_updateProfile]
  still_ok [OF still_set_peers] still_ok [OF still_service_step1] still_ok [OF still_service_append]
  still_ok [OF still_service_reauthorize] ok_broadcastAwareness ok_broadcast_message close_closes

lemma ok_message:
  assumes "V s \<noteq> None"
  shows "keeps (ok X W R n V) (handle_code_message E s ack c)"
proof -
  have "keeps (ok X W R n V) (handle_profile E s p ack)" for p
    unfolding handle_profile_def chain.simps by (intro keep_rules ok_steps ok_updateParticipant) (rule assms)
  moreover have "keeps (ok X W R n V) (handle_step1 E s r sv ack)" for r sv
    unfolding handle_step1_def by (intro keep_rules ok_steps)
  moreover have "keeps (ok X W R n V) (handle_update E s r i u ack)" for r i u
    unfolding handle_update_def by (intro keep_rules ok_steps) simp
  moreover have "keeps (ok X W R n V) (handle_awareness E s st ack)" for st
    unfolding handle_awareness_def by (intro keep_rules ok_steps)
  moreover have "keeps (ok X W R n V) (set_socket s (\<lambda>k. k\<lparr> so_multi := True \<rparr>))"
    by (intro still_ok still_set_socket) simp
  ultimately show ?thesis
    unfolding handle_code_message_def by (cases c) (auto intro!: keeps_andThen ok_replay)
qed

lemma ok_onCodeMessage:
  assumes "V s \<noteq> None"
  shows "keeps (ok X W R n V) (onCodeMessage E s raw ack)"
  unfolding onCodeMessage_def parsed_or_throw_def
  by (intro keep_rules ok_message still_ok [OF still_send] closer_ok [OF close_closes]) (rule assms)

end
