(* ===== verification/Code_Safety.thy ===== *)
theory Code_Safety
  imports Code_Follow
begin

text \<open>
  Who is sent what. What belongs to a workspace goes to a socket only when the latest decision about that
  socket was a grant, and an update only to the other sockets of its workspace, after it was committed and
  after a check made since. A decision is the admission of a socket or a check of its session.
\<close>

section \<open>Rightful messages\<close>

fun decision :: "jstr \<Rightarrow> code_effect \<Rightarrow> bool option" where
  "decision s (AccessChecked q b) = (if q = s then Some b else None)"
| "decision s (Joined q ss) = (if q = s then Some True else None)"
| "decision s _ = None"

fun latest :: "jstr \<Rightarrow> code_effect list \<Rightarrow> bool option" where
  "latest s [] = None"
| "latest s (e # l) = (case latest s l of Some b \<Rightarrow> Some b | None \<Rightarrow> decision s e)"

definition granted :: "jstr \<Rightarrow> code_effect list \<Rightarrow> bool" where
  "granted s l \<longleftrightarrow> latest s l = Some True"

definition member :: "jstr \<Rightarrow> jstr \<Rightarrow> code_effect list \<Rightarrow> bool" where
  "member s ws l \<longleftrightarrow> (\<exists>ss. Joined s ss \<in> set l \<and> ss_workspaceId ss = ws)"

fun rightful :: "code_effect list \<Rightarrow> code_effect \<Rightarrow> bool" where
  "rightful l (Emitted s (Message (CodeRemoteUpdate src i u n))) \<longleftrightarrow>
     (\<exists>c ss l1 l2. l = l1 @ UpdateAppended c ss i u (Inr (True, n)) # l2 \<and> participantId (ss_participant ss) = src
        \<and> c \<noteq> s \<and> member s (ss_workspaceId ss) l \<and> granted s l2)"
| "rightful l (Emitted s (Message (CodePresence p st))) \<longleftrightarrow> granted s l"
| "rightful l (Emitted s (TerminalWire full w)) \<longleftrightarrow> granted s l"
| "rightful l (Emitted s (TerminalEffect e)) \<longleftrightarrow> granted s l"
| "rightful l _ \<longleftrightarrow> True"

definition lawful :: "code_effect list \<Rightarrow> bool" where
  "lawful l \<longleftrightarrow> (\<forall>l1 e l2. l = l1 @ e # l2 \<longrightarrow> rightful l1 e)"

lemma latest_append: "latest s (l @ l') = (case latest s l' of Some b \<Rightarrow> Some b | None \<Rightarrow> latest s l)"
  by (induction l) (auto split: option.splits)

lemma granted_append: "granted s l' \<Longrightarrow> granted s (l @ l')"
  by (simp add: granted_def latest_append)

lemma granted_snoc: "granted s (l @ [e]) \<longleftrightarrow> (case decision s e of Some b \<Rightarrow> b | None \<Rightarrow> granted s l)"
  by (auto simp: granted_def latest_append split: option.splits)

lemma lawful_nil [simp]: "lawful []"
  by (simp add: lawful_def)

lemma lawful_snoc: "lawful (l @ [e]) \<longleftrightarrow> lawful l \<and> rightful l e"
proof (intro iffI conjI)
  assume l: "lawful (l @ [e])"
  show "rightful l e" using l by (simp add: lawful_def)
  show "lawful l" unfolding lawful_def
  proof (intro allI impI)
    fix l1 e' l2 assume "l = l1 @ e' # l2"
    then have "l @ [e] = l1 @ e' # (l2 @ [e])" by simp
    with l show "rightful l1 e'" unfolding lawful_def by blast
  qed
next
  assume l: "lawful l \<and> rightful l e"
  show "lawful (l @ [e])" unfolding lawful_def
  proof (intro allI impI)
    fix l1 e' l2 assume eq: "l @ [e] = l1 @ e' # l2"
    show "rightful l1 e'"
    proof (cases l2 rule: rev_cases)
      case Nil
      with eq l show ?thesis by simp
    next
      case (snoc l3 x)
      with eq have "l = l1 @ e' # l3" by simp
      with l show ?thesis unfolding lawful_def by blast
    qed
  qed
qed

lemma member_append: "member s ws l \<Longrightarrow> member s ws (l @ l')"
  by (auto simp: member_def)

section \<open>Handlers that send nothing of a workspace\<close>

fun calm_effect :: "code_effect \<Rightarrow> bool" where
  "calm_effect (Emitted s (Message (CodeRemoteUpdate src i u n))) = False"
| "calm_effect (Emitted s (Message (CodePresence p st))) = False"
| "calm_effect (Emitted s (TerminalWire full w)) = False"
| "calm_effect (Emitted s (TerminalEffect e)) = False"
| "calm_effect _ = True"

lemma calm_rightful: "calm_effect e \<Longrightarrow> rightful l e"
  by (cases "(l, e)" rule: rightful.cases) auto

lemma lawful_calm: "lawful l \<Longrightarrow> list_all calm_effect l' \<Longrightarrow> lawful (l @ l')"
proof (induction l' rule: rev_induct)
  case (snoc e l')
  then show ?case using lawful_snoc [of "l @ l'" e] by (simp add: calm_rightful)
qed simp

definition later :: "(code_effect \<Rightarrow> bool) \<Rightarrow> 'w hub \<Rightarrow> 'w hub \<Rightarrow> bool" where
  "later P h h' \<longleftrightarrow> places h' = places h \<and> hb_open h' = hb_open h \<and> (\<exists>l. hb_log h' = hb_log h @ l \<and> list_all P l)"

lemma later_refl [simp]: "later P h h"
  by (simp add: later_def)

lemma later_trans: "later P h h' \<Longrightarrow> later P h' h'' \<Longrightarrow> later P h h''"
  by (auto simp: later_def)

lemma later_weaken: "later P h h' \<Longrightarrow> (\<And>e. P e \<Longrightarrow> Q e) \<Longrightarrow> later Q h h'"
  unfolding later_def by (meson list.pred_mono_strong)

definition adds :: "(code_effect \<Rightarrow> bool) \<Rightarrow> ('w, 'a) code_action \<Rightarrow> bool" where
  "adds P m \<longleftrightarrow> (\<forall>h. later P h (snd (m h)))"

named_theorems add_rules \<open>handlers that only add effects of a kind to the log\<close>

lemma adds_pure [add_rules]: "adds P (give x)" "adds P (throw e)" "adds P (ask f)" "adds P (lift r)" "adds P skip"
  by (simp_all add: adds_def give_def throw_def ask_def lift_def skip_def)

lemma adds_obtaining [add_rules]: "adds P m \<Longrightarrow> (\<And>x. adds P (k x)) \<Longrightarrow> adds P (obtaining m k)"
  unfolding adds_def obtaining_def by (auto split: prod.splits sum.splits) (metis snd_conv later_trans)+

lemma adds_andThen [add_rules]: "adds P m \<Longrightarrow> adds P n \<Longrightarrow> adds P (andThen m n)"
  unfolding andThen_def by (rule adds_obtaining)

lemma adds_attempt [add_rules]: "adds P m \<Longrightarrow> (\<And>e. adds P (k e)) \<Longrightarrow> adds P (attempt m k)"
  unfolding adds_def attempt_def by (auto split: prod.splits sum.splits) (metis snd_conv later_trans)+

lemma adds_if [add_rules]: "(b \<Longrightarrow> adds P m) \<Longrightarrow> (\<not> b \<Longrightarrow> adds P n) \<Longrightarrow> adds P (if b then m else n)"
  by simp

lemma adds_prod [add_rules]: "(\<And>a b. x = (a, b) \<Longrightarrow> adds P (k a b)) \<Longrightarrow> adds P (case x of (a, b) \<Rightarrow> k a b)"
  by (cases x) simp

lemma adds_option [add_rules]:
  "(x = None \<Longrightarrow> adds P m) \<Longrightarrow> (\<And>y. x = Some y \<Longrightarrow> adds P (k y)) \<Longrightarrow> adds P (case x of None \<Rightarrow> m | Some y \<Rightarrow> k y)"
  by (cases x) simp_all

lemma adds_each [add_rules]: "(\<And>x. x \<in> set xs \<Longrightarrow> adds P (f x)) \<Longrightarrow> adds P (each f xs)"
  by (induction xs) (simp_all add: add_rules)

lemma later_frame: "hb_heap h' = hb_heap h \<Longrightarrow> hb_open h' = hb_open h \<Longrightarrow> hb_log h' = hb_log h \<Longrightarrow> later P h h'"
  using places_frame [of h' h] by (simp add: later_def)

lemma adds_change: "(\<And>h. hb_heap (f h) = hb_heap h \<and> hb_open (f h) = hb_open h \<and> hb_log (f h) = hb_log h) \<Longrightarrow> adds P (change f)"
  by (simp add: adds_def change_def later_frame)

lemma adds_note [add_rules]: "P e \<Longrightarrow> adds P (note_effect e)"
  by (simp add: adds_def note_effect_def change_def later_def)

lemma adds_set_socket [add_rules]:
  assumes "\<And>k. ss_workspaceId (so_session (f k)) = ss_workspaceId (so_session k)"
  shows "adds P (set_socket s f)"
  unfolding adds_def
proof
  fix h :: "'a hub"
  have "still (set_socket s f :: ('a, unit) code_action)" by (rule still_set_socket) (rule assms)
  then have "unchanged h (snd (set_socket s f h))" by (simp add: still_def)
  then show "later P h (snd (set_socket s f h))" by (simp add: unchanged_def later_def set_socket_def change_def)
qed

lemma adds_is_connected [add_rules]: "adds P (is_connected s)"
  by (simp add: is_connected_def add_rules)

lemma adds_emit [add_rules]: "P (Emitted s c) \<Longrightarrow> adds P (emit s c)"
  unfolding emit_def by (intro add_rules)

lemma adds_send: "P (Emitted s (Message c)) \<Longrightarrow> P (Answered s c) \<Longrightarrow> adds P (send_message s c ack)"
  unfolding send_message_def by (intro add_rules)

lemma adds_serve [add_rules]: "(\<And>r. P (note r)) \<Longrightarrow> adds P (code_serve op note)"
  unfolding adds_def code_serve_def by (auto simp: later_def intro!: places_frame split: prod.splits)

lemma adds_set_peers [add_rules]: "adds P (set_peers ws f)"
  unfolding set_peers_def by (rule adds_change) simp

lemma adds_terminal_event [add_rules]: "adds P (terminal_event E ws e)"
  unfolding terminal_event_def by (intro add_rules adds_change) simp

lemma adds_consume [add_rules]: "adds P (consume_action E s act)" "adds P (code_allowed s consume)"
  unfolding consume_action_def code_allowed_def by (intro add_rules adds_change; simp)+

abbreviation calm :: "('w, 'a) code_action \<Rightarrow> bool" where
  "calm m \<equiv> adds calm_effect m"

lemma calm_handlers:
  "calm (service_reauthorize E s)" "calm (updateProfile E s p)" "calm (service_syncStep1 E s sv)" "calm (service_appendUpdate E s i u)"
  "calm (emit_ack s ws aid err)" "calm (refuse_packet s ack)" "calm (send_message s (CodeControl c) ack)"
  by (auto simp: service_reauthorize_def updateProfile_def service_syncStep1_def service_appendUpdate_def emit_ack_def refuse_packet_def
      code_rate_limited_def intro!: add_rules adds_send)

section \<open>The invariant\<close>

definition lasting_fact :: "(code_effect list \<Rightarrow> bool) \<Rightarrow> bool" where
  "lasting_fact F \<longleftrightarrow> (\<forall>l l'. F l \<longrightarrow> F (l @ l'))"

definition sane :: "(code_effect list \<Rightarrow> bool) \<Rightarrow> 'w hub \<Rightarrow> bool" where
  "sane F h \<longleftrightarrow> distinct (hb_open h) \<and> lawful (hb_log h) \<and> F (hb_log h)
     \<and> (\<forall>s \<in> set (hb_open h). \<exists>ws. places h s = Some ws \<and> member s ws (hb_log h))"

lemma sane_lawful: "sane F h \<Longrightarrow> lawful (hb_log h)"
  by (simp add: sane_def)

lemma sane_member: "sane F h \<Longrightarrow> s \<in> set (hb_open h) \<Longrightarrow> member s (workspace_of h s) (hb_log h)"
  by (auto simp: sane_def dest: workspace_places)

lemma sane_later:
  assumes "sane F h" "lasting_fact F" "later (\<lambda>_. True) h h'" "lawful (hb_log h')"
  shows "sane F h'"
  using assms unfolding sane_def later_def lasting_fact_def by (metis member_append)

lemma sane_calm: "sane F h \<Longrightarrow> lasting_fact F \<Longrightarrow> later calm_effect h h' \<Longrightarrow> sane F h'"
  by (rule sane_later) (auto simp: later_def sane_def intro!: lawful_calm intro: list.pred_mono_strong)

lemma calm_keeps: "lasting_fact F \<Longrightarrow> calm m \<Longrightarrow> keeps (sane F) m"
  unfolding keeps_def adds_def by (blast intro: sane_calm)

text \<open>A message that is rightful when it is sent.\<close>

lemma emit_rightful:
  assumes "sane F h" "lasting_fact F" "rightful (hb_log h) (Emitted s c)"
  shows "sane F (snd (emit s c h))"
proof (cases "s \<in> set (hb_open h)")
  case True
  let ?h = "h\<lparr> hb_log := hb_log h @ [Emitted s c] \<rparr>"
  have "later (\<lambda>_. True) h ?h" using places_frame [of ?h h] by (simp add: later_def)
  then have "sane F ?h" using assms by (rule_tac sane_later) (auto simp: lawful_snoc sane_lawful)
  with True show ?thesis by (simp add: emit_open)
qed (use assms in \<open>simp add: emit_def is_connected_def ask_obtaining skip_def give_def\<close>)

lemma emit_later: "later (\<lambda>e. \<exists>c. e = Emitted s c) h (snd (emit s c h))"
  by (simp add: emit_def is_connected_def ask_obtaining note_effect_def change_def skip_def give_def later_def)

definition good_closer :: "(jstr \<Rightarrow> ('w, unit) code_action) \<Rightarrow> bool" where
  "good_closer close \<longleftrightarrow> (\<forall>s. returns (close s)) \<and> (\<forall>F s. lasting_fact F \<longrightarrow> keeps (sane F) (close s))"

lemma good_closerD: "good_closer close \<Longrightarrow> lasting_fact F \<Longrightarrow> keeps (sane F) (close s)"
  by (simp add: good_closer_def)

section \<open>A check\<close>

definition holding :: "(code_effect list \<Rightarrow> bool) \<Rightarrow> jstr \<Rightarrow> 'w hub \<Rightarrow> bool" where
  "holding F s h \<longleftrightarrow> sane F h \<and> granted s (hb_log h)"

lemma service_reauthorize_run:
  "\<exists>r h'. service_reauthorize E s h = (r, h') \<and> hb_log h' = hb_log h @ [AccessChecked s (\<not> isl r)] \<and> later calm_effect h h'"
proof -
  obtain r w where "ce_reauthorize E (session_of h s) (hb_world h) = (r, w)" by (cases "ce_reauthorize E (session_of h s) (hb_world h)")
  moreover have "later calm_effect h (snd (service_reauthorize E s h))"
    using calm_handlers(1) [of E s] by (simp add: adds_def)
  ultimately show ?thesis by (simp add: service_reauthorize_def ask_obtaining code_serve_def)
qed

lemma returns_run: "returns m \<Longrightarrow> \<exists>x h'. m h = (Inr x, h')"
  unfolding returns_def by (metis prod.collapse)

lemma check_run:
  assumes "lasting_fact F" "good_closer close" "sane F h"
  shows "\<exists>b h'. reauthorizeSocket E close s True h = (Inr b, h') \<and> sane F h' \<and> (b \<longrightarrow> granted s (hb_log h'))"
proof -
  obtain r h1 where run: "service_reauthorize E s h = (r, h1)" "hb_log h1 = hb_log h @ [AccessChecked s (\<not> isl r)]" "later calm_effect h h1"
    using service_reauthorize_run [of E s h] by blast
  have h1: "sane F h1" by (rule sane_calm [OF assms(3,1) run(3)])
  show ?thesis
  proof (cases r)
    case (Inr u)
    with run h1 show ?thesis
      by (intro exI [of _ True] exI [of _ h1])
        (simp add: reauthorizeSocket_def attempt_def andThen_def obtaining_def give_def granted_snoc decision.simps)
  next
    case (Inl e)
    let ?send = "send_message s (CodeControl (controlFor e None)) False"
    let ?m = "andThen ?send (andThen (close s) (give False))"
    have k: "keeps (sane F) ?m"
      by (intro keep_rules calm_keeps [OF assms(1)] calm_handlers good_closerD [OF assms(2,1)])
    obtain h2 where h2: "?send h1 = (Inr (), h2)"
      using returns_run [of ?send h1] returns_emit(4) [of s "CodeControl (controlFor e None)" False] by auto
    obtain h3 where h3: "close s h2 = (Inr (), h3)"
      using returns_run [of "close s" h2] assms(2) by (auto simp: good_closer_def)
    have m: "?m h1 = (Inr False, h3)"
      by (simp add: andThen_Inr [where m = ?send, OF h2] andThen_Inr [where m = "close s", OF h3] give_def)
    have "sane F (snd (?m h1))" using k h1 by (simp add: keeps_def)
    moreover have "reauthorizeSocket E close s True h = ?m h1"
      using run(1) Inl by (simp add: reauthorizeSocket_def attempt_def andThen_def [of "service_reauthorize E s"] obtaining_def [of "service_reauthorize E s"])
    ultimately show ?thesis using m by (intro exI [of _ False] exI [of _ h3]) simp
  qed
qed

text \<open>A check, and what is done when it grants.\<close>

lemma keeps_checked:
  assumes "lasting_fact F" "good_closer close" "\<And>h. sane F h \<Longrightarrow> granted s (hb_log h) \<Longrightarrow> sane F (snd (m h))"
    "\<And>b. k b = (if b then m else skip)"
  shows "keeps (sane F) (obtaining (reauthorizeSocket E close s True) k)"
  unfolding keeps_def
proof (intro allI impI)
  fix h :: "'a hub"
  assume "sane F h"
  from check_run [OF assms(1,2) this, of E s] obtain b h'
    where run: "reauthorizeSocket E close s True h = (Inr b, h')" "sane F h'" "b \<longrightarrow> granted s (hb_log h')" by blast
  then show "sane F (snd (obtaining (reauthorizeSocket E close s True) k h))"
    using assms(3) [of h'] by (simp add: obtaining_Inr [where m = "reauthorizeSocket E close s True", OF run(1)] assms(4) skip_def give_def)
qed

lemma send_presence:
  assumes "sane F h" "lasting_fact F" "granted s (hb_log h)"
  shows "sane F (snd (sendAwareness s p st h))" "granted s (hb_log (snd (sendAwareness s p st h)))"
proof -
  let ?c = "CodePresence p (awarenessStateFor (socket_of h s) st)"
  have run: "sendAwareness s p st h = (Inr (), snd (emit s (Message ?c) h))"
    by (simp add: sendAwareness_def ask_obtaining send_message_def andThen_def obtaining_def emit_def is_connected_def ask_def
        note_effect_def change_def skip_def give_def)
  show "sane F (snd (sendAwareness s p st h))" unfolding run using assms by (simp add: emit_rightful)
  obtain l where l: "hb_log (snd (emit s (Message ?c) h)) = hb_log h @ l" "list_all (\<lambda>e. \<exists>c. e = Emitted s c) l"
    using emit_later [of s h "Message ?c"] by (auto simp: later_def)
  have "latest s l = None" using l(2) by (induction l) auto
  with l(1) assms(3) show "granted s (hb_log (snd (sendAwareness s p st h)))" unfolding run by (simp add: granted_def latest_append)
qed

lemma presence_each:
  assumes "sane F h" "lasting_fact F" "granted s (hb_log h)"
  shows "sane F (snd (each (\<lambda>(q, p). sendAwareness s (pr_participant p) (Some (pr_state p))) ps h))"
  using assms
proof (induction ps arbitrary: h)
  case (Cons x ps)
  obtain q p where x: "x = (q, p)" by (cases x)
  let ?m = "sendAwareness s (pr_participant p) (Some (pr_state p)) :: ('a, unit) code_action"
  obtain h1 where h1: "?m h = (Inr (), h1)"
    using returns_run [OF returns_sendAwareness(1), of s "pr_participant p" "Some (pr_state p)" h] by auto
  have "sane F h1" "granted s (hb_log h1)" using send_presence [OF Cons.prems, of "pr_participant p" "Some (pr_state p)"] h1 by simp_all
  with Cons.IH Cons.prems(2) x show ?case by (simp add: andThen_Inr [where m = ?m, OF h1])
qed (simp add: skip_def give_def)

lemma sane_broadcastAwareness:
  assumes "lasting_fact F" "good_closer close"
  shows "keeps (sane F) (broadcastAwareness E close ws p st excluded)"
proof -
  have c: "keeps (sane F) (obtaining (reauthorizeSocket E close s True) (\<lambda>b. if \<not> b then skip
      else obtaining (ask (\<lambda>h. so_replayed (socket_of h s))) (\<lambda>replayed. if replayed then sendAwareness s p st else skip)))" for s
    by (rule keeps_checked [OF assms, where m = "obtaining (ask (\<lambda>h. so_replayed (socket_of h s))) (\<lambda>replayed. if replayed then sendAwareness s p st else skip)"])
      (auto simp: ask_obtaining skip_def give_def send_presence(1) assms(1))
  show ?thesis
    unfolding broadcastAwareness_def
    by (intro keeps_obtaining [OF keeps_ask keeps_each [OF keeps_obtaining [OF calm_keeps [OF assms(1) adds_is_connected]
        keeps_if [OF keeps_skip c]]]])
qed

lemma sane_awareness_disconnect:
  "lasting_fact F \<Longrightarrow> good_closer close \<Longrightarrow> keeps (sane F) (awareness_disconnect E close s)"
  unfolding awareness_disconnect_def by (intro keep_rules sane_broadcastAwareness calm_keeps adds_set_peers)

lemma sane_emitAuthorized:
  assumes "lasting_fact F" "good_closer close" "\<And>l. granted s l \<Longrightarrow> rightful l (Emitted s c)"
  shows "keeps (sane F) (emitAuthorized E close s c)"
proof -
  have c: "keeps (sane F) (obtaining (reauthorizeSocket E close s True) (\<lambda>b. if b then emit s c else skip))"
    by (rule keeps_checked [OF assms(1,2), where m = "emit s c"]) (auto simp: emit_rightful assms(1,3))
  show ?thesis unfolding emitAuthorized_def
    by (intro keeps_obtaining [OF calm_keeps [OF assms(1) adds_is_connected] keeps_if [OF keeps_skip c]])
qed

section \<open>Broadcasts\<close>

lemma check_only_run:
  "\<exists>b h' l. reauthorizeSocket E (\<lambda>_. skip) s False h = (Inr b, h') \<and> later calm_effect h h' \<and> hb_log h' = hb_log h @ l
     \<and> latest s l = Some b \<and> (\<forall>q. q \<noteq> s \<longrightarrow> latest q l = None)"
proof -
  obtain r h1 where run: "service_reauthorize E s h = (r, h1)" "hb_log h1 = hb_log h @ [AccessChecked s (\<not> isl r)]" "later calm_effect h h1"
    using service_reauthorize_run [of E s h] by blast
  show ?thesis
  proof (cases r)
    case (Inr u)
    with run show ?thesis
      by (intro exI [of _ True] exI [of _ h1] exI [of _ "[AccessChecked s True]"])
        (simp add: reauthorizeSocket_def attempt_def andThen_def obtaining_def give_def)
  next
    case (Inl e)
    let ?c = "Message (CodeControl (controlFor e None))"
    have m: "reauthorizeSocket E (\<lambda>_. skip) s False h = (Inr False, snd (emit s ?c h1))"
      using run(1) Inl
      by (simp add: reauthorizeSocket_def attempt_def andThen_def obtaining_def give_def send_message_def emit_def is_connected_def
          ask_def note_effect_def change_def skip_def)
    obtain l where l: "hb_log (snd (emit s ?c h1)) = hb_log h1 @ l" "list_all (\<lambda>e. \<exists>c. e = Emitted s c) l"
      using emit_later [of s h1 ?c] by (auto simp: later_def)
    have none: "latest q l = None" for q using l(2) by (induction l) auto
    have "later calm_effect h1 (snd (emit s ?c h1))"
      using adds_emit [of calm_effect s ?c] by (simp add: emit_def is_connected_def ask_obtaining note_effect_def change_def
          skip_def give_def later_def)
    with run(3) have "later calm_effect h (snd (emit s ?c h1))" by (rule later_trans)
    with m l run(2) Inl none show ?thesis
      by (intro exI [of _ False] exI [of _ "snd (emit s ?c h1)"] exI [of _ "AccessChecked s False # l"]) simp
  qed
qed

lemma sort_out_checks:
  "distinct xs \<Longrightarrow> \<exists>a v h' l. sort_out E excluded xs h = (Inr (a, v), h') \<and> later calm_effect h h' \<and> hb_log h' = hb_log h @ l
     \<and> (\<forall>s \<in> set a. s \<in> set xs \<and> s \<in> set (hb_open h) \<and> excluded \<noteq> Some s \<and> granted s l) \<and> (\<forall>s. s \<notin> set xs \<longrightarrow> latest s l = None)"
proof (induction xs arbitrary: h)
  case Nil
  show ?case by (intro exI [of _ "[]"] exI [of _ h]) (simp add: give_def)
next
  case (Cons s xs)
  show ?case
  proof (cases "excluded = Some s \<or> s \<notin> set (hb_open h)")
    case True
    then have "sort_out E excluded (s # xs) h = sort_out E excluded xs h" by (auto simp: is_connected_def ask_obtaining)
    with Cons show ?thesis by (metis (no_types, lifting) distinct.simps(2) list.set_intros(2))
  next
    case False
    obtain b h1 l1 where c: "reauthorizeSocket E (\<lambda>_. skip) s False h = (Inr b, h1)" and l1: "later calm_effect h h1" "hb_log h1 = hb_log h @ l1"
      "latest s l1 = Some b" "\<And>q. q \<noteq> s \<Longrightarrow> latest q l1 = None"
      using check_only_run [of E s h] by blast
    obtain a v h' l2 where i: "sort_out E excluded xs h1 = (Inr (a, v), h')" "later calm_effect h1 h'" "hb_log h' = hb_log h1 @ l2"
      "\<forall>s \<in> set a. s \<in> set xs \<and> s \<in> set (hb_open h1) \<and> excluded \<noteq> Some s \<and> granted s l2" "\<forall>s. s \<notin> set xs \<longrightarrow> latest s l2 = None"
      using Cons.IH [of h1] Cons.prems by auto
    have run: "sort_out E excluded (s # xs) h = (Inr (if b then (s # a, v) else (a, s # v)), h')"
      using False by (simp add: is_connected_def ask_obtaining obtaining_Inr [where m = "reauthorizeSocket E (\<lambda>_. skip) s False", OF c]
          obtaining_Inr [where m = "sort_out E excluded xs", OF i(1)] give_def)
    have o: "hb_open h1 = hb_open h" using l1(1) by (simp add: later_def)
    have s: "latest s (l1 @ l2) = Some b" using i(5) Cons.prems l1(3) by (simp add: latest_append)
    have rest: "\<forall>q \<in> set a. q \<in> set (s # xs) \<and> q \<in> set (hb_open h) \<and> excluded \<noteq> Some q \<and> granted q (l1 @ l2)"
      using i(4) o by (auto intro: granted_append)
    have none: "\<forall>q. q \<notin> set (s # xs) \<longrightarrow> latest q (l1 @ l2) = None" using i(5) l1(4) by (auto simp: latest_append)
    have log: "hb_log h' = hb_log h @ (l1 @ l2)" using i(3) l1(2) by simp
    show ?thesis
    proof (cases b)
      case True
      with s False rest have "\<forall>q \<in> set (s # a). q \<in> set (s # xs) \<and> q \<in> set (hb_open h) \<and> excluded \<noteq> Some q \<and> granted q (l1 @ l2)"
        by (simp add: granted_def)
      with run True none log later_trans [OF l1(1) i(2)] show ?thesis
        by (intro exI [of _ "s # a"] exI [of _ v] exI [of _ h'] exI [of _ "l1 @ l2"]) simp
    next
      case b: False
      with run rest none log later_trans [OF l1(1) i(2)] show ?thesis
        by (intro exI [of _ a] exI [of _ "s # v"] exI [of _ h'] exI [of _ "l1 @ l2"]) simp
    qed
  qed
qed

text \<open>What may be broadcast: a message that is rightful for whoever was checked since.\<close>

definition broadcastable :: "jstr \<Rightarrow> jstr option \<Rightarrow> to_client \<Rightarrow> code_effect list \<Rightarrow> bool" where
  "broadcastable ws excluded c l \<longleftrightarrow> (\<forall>s l'. granted s l' \<longrightarrow> excluded \<noteq> Some s \<longrightarrow> member s ws (l @ l') \<longrightarrow> rightful (l @ l') (Emitted s c))"

lemma emit_all:
  assumes "sane F h" "lasting_fact F" "hb_log h = L @ l"
    "\<And>s. s \<in> set a \<Longrightarrow> granted s l \<and> excluded \<noteq> Some s \<and> s \<in> set (hb_open h) \<and> workspace_of h s = ws" "broadcastable ws excluded c L"
  shows "\<exists>h'. each (\<lambda>s. emit s c) a h = (Inr (), h') \<and> sane F h'"
  using assms(1,3,4)
proof (induction a arbitrary: h l)
  case (Cons s a)
  let ?h = "h\<lparr> hb_log := hb_log h @ [Emitted s c] \<rparr>"
  have s: "granted s l" "excluded \<noteq> Some s" "s \<in> set (hb_open h)" "workspace_of h s = ws" using Cons.prems(3) by auto
  have run: "emit s c h = (Inr (), ?h)" by (rule emit_open) (rule s(3))
  have "rightful (hb_log h) (Emitted s c)"
    using assms(5) s sane_member [OF Cons.prems(1) s(3)] Cons.prems(2) by (simp add: broadcastable_def)
  then have "sane F ?h" using emit_rightful [OF Cons.prems(1) assms(2)] run by (metis snd_conv)
  moreover have "granted q (l @ [Emitted s c])" if "granted q l" for q using that by (simp add: granted_snoc)
  moreover have "workspace_of ?h q = workspace_of h q" for q by (simp add: workspace_of_def session_of_def socket_of_def)
  ultimately have "\<exists>h'. each (\<lambda>s. emit s c) a ?h = (Inr (), h') \<and> sane F h'"
    using Cons.prems(2,3) by (intro Cons.IH [where l = "l @ [Emitted s c]"]) auto
  then show ?case by (simp add: andThen_Inr [where m = "emit s c", OF run])
qed (simp add: skip_def give_def)

lemma sane_broadcast:
  assumes "lasting_fact F" "good_closer close" "sane F h" "broadcastable ws excluded c (hb_log h)"
  shows "sane F (snd (broadcastAuthorized E close ws c excluded h))"
proof -
  have "distinct (room ws h)" using assms(3) by (simp add: room_def sane_def)
  then obtain a v h1 l where so: "sort_out E excluded (room ws h) h = (Inr (a, v), h1)" "later calm_effect h h1" "hb_log h1 = hb_log h @ l"
    "\<forall>s \<in> set a. s \<in> set (room ws h) \<and> s \<in> set (hb_open h) \<and> excluded \<noteq> Some s \<and> granted s l"
    using sort_out_checks [of "room ws h" E excluded h] by blast
  have h1: "sane F h1" by (rule sane_calm [OF assms(3,1) so(2)])
  have s: "granted s l \<and> excluded \<noteq> Some s \<and> s \<in> set (hb_open h1) \<and> workspace_of h1 s = ws" if "s \<in> set a" for s
  proof -
    have "s \<in> set (hb_open h)" "workspace_of h s = ws" using so(4) that by (auto simp: room_def)
    moreover then obtain w where "places h s = Some w" using assms(3) by (auto simp: sane_def)
    ultimately show ?thesis using so(2,4) that workspace_places [of h s w] workspace_places [of h1 s w] by (auto simp: later_def)
  qed
  obtain h2 where h2: "each (\<lambda>s. emit s c) a h1 = (Inr (), h2)" "sane F h2"
    using emit_all [OF h1 assms(1) so(3) s assms(4)] by blast
  have "keeps (sane F) (each close v)" by (intro keeps_each good_closerD [OF assms(2,1)])
  then show ?thesis
    using h2(2) by (simp add: broadcastAuthorized_def ask_obtaining obtaining_Inr [where m = "sort_out E excluded (room ws h)", OF so(1)]
        andThen_Inr [where m = "each (\<lambda>s. emit s c) a", OF h2(1)] keeps_def)
qed

lemma sane_broadcast_checked:
  assumes "lasting_fact F" "good_closer close" "\<And>s l. granted s l \<Longrightarrow> rightful l (Emitted s c)"
  shows "keeps (sane F) (broadcastAuthorized E close ws c excluded)"
  unfolding keeps_def
  by (intro allI impI sane_broadcast [OF assms(1,2)]) (auto simp: broadcastable_def assms(3) granted_append)

section \<open>Closing a socket\<close>

lemma sane_terminal_disconnect:
  assumes "lasting_fact F" "good_closer close"
  shows "keeps (sane F) (terminal_disconnect E close s)"
proof -
  have last: "keeps (sane F) (change (departed ws) :: ('a, unit) code_action)" for ws
    by (intro calm_keeps [OF assms(1)] adds_change) (auto simp: departed_def Let_def)
  show ?thesis
    unfolding terminal_disconnect_def
    by (intro keep_rules calm_keeps [OF assms(1) adds_terminal_event] sane_broadcast_checked [OF assms] last [unfolded departed_def [abs_def]]
        calm_keeps [OF assms(1) adds_change]) auto
qed

lemma sane_leaving: "sane F h \<Longrightarrow> sane F (leaving s h)"
  by (auto simp: sane_def)

lemma drop_good: "good_closer (drop_socket E n)"
proof (induction n)
  case 0
  then show ?case by (simp add: good_closer_def keeps_skip return_rules)
next
  case (Suc n)
  have "keeps (sane F) (drop_socket E (Suc n) s)" if F: "lasting_fact F" for F s
  proof -
    have c: "keeps (sane F) (change (leaving s))" by (rule keeps_change) (rule sane_leaving)
    have n: "keeps (sane F) (note_effect (Left s))" by (intro calm_keeps [OF F] adds_note) simp
    show ?thesis
      unfolding drop_socket.simps chain.simps
      by (intro keeps_obtaining keeps_if keeps_andThen keeps_skip calm_keeps [OF F adds_is_connected] c [unfolded leaving_def [abs_def]] n
          sane_awareness_disconnect [OF F Suc.IH] sane_terminal_disconnect [OF F Suc.IH])
  qed
  then show ?case by (simp add: good_closer_def return_rules del: drop_socket.simps)
qed

lemma close_good: "good_closer (close_socket E)"
proof -
  have "keeps (sane F) (close_socket E s)" if "lasting_fact F" for F s
    unfolding close_socket_def by (intro keeps_obtaining keeps_ask good_closerD [OF drop_good that])
  then show ?thesis by (simp add: good_closer_def return_rules)
qed

section \<open>The handlers\<close>

lemma sane_updateParticipant: "lasting_fact F \<Longrightarrow> keeps (sane F) (updateParticipant E (close_socket E) s)"
  unfolding updateParticipant_def
  by (intro keep_rules calm_keeps [OF _ adds_terminal_event] sane_broadcast_checked close_good) auto

lemma sane_replay:
  assumes "lasting_fact F"
  shows "keeps (sane F) (replayAwarenessOnce E s)"
proof -
  have c: "keeps (sane F) (obtaining (reauthorizeSocket E (close_socket E) s True) (\<lambda>b.
      if b then each (\<lambda>(q, p). sendAwareness s (pr_participant p) (Some (pr_state p))) ps else skip))" for ps
    by (rule keeps_checked [OF assms close_good, where m = "each (\<lambda>(q, p). sendAwareness s (pr_participant p) (Some (pr_state p))) ps"])
      (auto intro: presence_each [OF _ assms])
  have mark: "calm (set_socket s (\<lambda>k. k\<lparr> so_replayed := True \<rparr>))" by (rule adds_set_socket) simp
  show ?thesis
    unfolding replayAwarenessOnce_def
    by (intro keeps_obtaining [OF keeps_ask] keeps_prod keeps_if keeps_skip keeps_andThen calm_keeps [OF assms mark] c)
qed

lemmas sane_steps = calm_keeps [OF _ calm_handlers(2)] calm_keeps [OF _ calm_handlers(3)] calm_keeps [OF _ calm_handlers(1)]
  calm_keeps [OF _ adds_consume(2)] calm_keeps [OF _ adds_set_peers] sane_broadcastAwareness [OF _ close_good]
  sane_updateParticipant

lemma sane_send: "lasting_fact F \<Longrightarrow> calm_effect (Emitted s (Message c)) \<Longrightarrow> keeps (sane F) (send_message s c ack)"
  by (intro calm_keeps adds_send) simp_all

lemma sane_handle_profile:
  assumes "lasting_fact F"
  shows "keeps (sane F) (handle_profile E s p ack)"
  unfolding handle_profile_def chain.simps
  by (intro keep_rules sane_steps [OF assms] sane_send [OF assms]) (simp_all add: code_rate_limited_def)

lemma sane_handle_step1:
  assumes "lasting_fact F"
  shows "keeps (sane F) (handle_step1 E s r sv ack)"
proof -
  have parts: "calm_effect (Emitted s (Message m))" if "(m, d) \<in> set (step2_parts r x)" for m d x
    using that by (auto simp: step2_parts_def Let_def)
  show ?thesis
    unfolding handle_step1_def
    by (intro keep_rules sane_steps [OF assms] sane_send [OF assms]) (auto simp: code_rate_limited_def dest: parts)
qed

lemma sane_handle_awareness:
  assumes "lasting_fact F"
  shows "keeps (sane F) (handle_awareness E s st ack)"
  unfolding handle_awareness_def
  by (intro keep_rules sane_steps [OF assms] sane_send [OF assms]) (simp_all add: code_rate_limited_def)

section \<open>Updates\<close>

lemma broadcastable_update:
  assumes "ss_workspaceId ss = ws" "participantId (ss_participant ss) = src"
  shows "broadcastable ws (Some s) (Message (CodeRemoteUpdate src i u n)) (l1 @ UpdateAppended s ss i u (Inr (True, n)) # l2)"
  unfolding broadcastable_def
proof (intro allI impI)
  fix q l'
  assume "granted q l'" "Some s \<noteq> Some q" "member q ws ((l1 @ UpdateAppended s ss i u (Inr (True, n)) # l2) @ l')"
  moreover from this(1) have "granted q (l2 @ l')" by (rule granted_append)
  ultimately show "rightful ((l1 @ UpdateAppended s ss i u (Inr (True, n)) # l2) @ l') (Emitted q (Message (CodeRemoteUpdate src i u n)))"
    unfolding rightful.simps using assms
    by (intro exI [of _ s] exI [of _ ss] exI [of _ l1] exI [of _ "l2 @ l'"]) simp
qed

lemma send_run: "\<exists>h' l. send_message s c ack h = (Inr (), h') \<and> hb_log h' = hb_log h @ l \<and> hb_heap h' = hb_heap h"
  by (auto simp: send_message_def emit_def is_connected_def ask_def note_effect_def change_def skip_def give_def andThen_def obtaining_def)

lemma sane_handle_update:
  assumes F: "lasting_fact F"
  shows "keeps (sane F) (handle_update E s r i u ack)"
proof -
  let ?k = "\<lambda>(committed, sequence). andThen (send_message s (CodeUpdateAck r i committed sequence) ack)
     (if \<not> committed then skip
      else obtaining (ask (\<lambda>h. session_of h s)) (\<lambda>ss. broadcastAuthorized E (close_socket E) (ss_workspaceId ss)
        (Message (CodeRemoteUpdate (participantId (ss_participant ss)) i u sequence)) (Some s)))"
  have "sane F (snd (obtaining (service_appendUpdate E s i u) ?k h))" if h: "sane F h" for h
  proof -
    let ?ss = "session_of h s"
    obtain v w where vw: "ce_appendUpdate E ?ss i u (hb_world h) = (v, w)" by (cases "ce_appendUpdate E ?ss i u (hb_world h)")
    let ?h1 = "h\<lparr> hb_world := w, hb_log := hb_log h @ [UpdateAppended s ?ss i u v] \<rparr>"
    have run: "service_appendUpdate E s i u h = (v, ?h1)" by (simp add: service_appendUpdate_def ask_obtaining code_serve_def vw)
    have h1: "sane F ?h1"
      using calm_keeps [OF F calm_handlers(4), of E s i u] h run by (simp add: keeps_def) (metis snd_conv)
    show ?thesis
    proof (cases v)
      case (Inr x)
      obtain committed n where x: "x = (committed, n)" by (cases x)
      let ?send = "send_message s (CodeUpdateAck r i committed n) ack"
      obtain h2 l where h2: "?send ?h1 = (Inr (), h2)" "hb_log h2 = hb_log ?h1 @ l" "hb_heap h2 = hb_heap ?h1"
        using send_run [of s "CodeUpdateAck r i committed n" ack ?h1] by blast
      have "keeps (sane F) ?send" by (rule sane_send [OF F]) simp
      with h1 h2(1) have s2: "sane F h2" unfolding keeps_def by (metis snd_conv)
      have ss: "session_of h2 s = ?ss" using h2(3) by (simp add: session_of_def socket_of_def)
      have "sane F (snd (broadcastAuthorized E (close_socket E) (ss_workspaceId ?ss)
          (Message (CodeRemoteUpdate (participantId (ss_participant ?ss)) i u n)) (Some s) h2))" if committed
      proof (rule sane_broadcast [OF F close_good s2])
        have "hb_log h2 = hb_log h @ UpdateAppended s ?ss i u (Inr (True, n)) # l" using h2(2) Inr x that by simp
        then show "broadcastable (ss_workspaceId ?ss) (Some s) (Message (CodeRemoteUpdate (participantId (ss_participant ?ss)) i u n)) (hb_log h2)"
          by (simp only: broadcastable_update)
      qed
      moreover have "obtaining (service_appendUpdate E s i u) ?k h = ?k (committed, n) ?h1"
        by (rule obtaining_Inr) (use run Inr x in simp)
      then have "obtaining (service_appendUpdate E s i u) ?k h = (if \<not> committed then skip
          else obtaining (ask (\<lambda>h. session_of h s)) (\<lambda>ss. broadcastAuthorized E (close_socket E) (ss_workspaceId ss)
            (Message (CodeRemoteUpdate (participantId (ss_participant ss)) i u n)) (Some s))) h2"
        by (simp only: prod.case andThen_Inr [where m = ?send, OF h2(1)])
      ultimately show ?thesis using s2 by (simp add: ask_obtaining ss skip_def give_def)
    qed (use h1 run in \<open>simp add: obtaining_def\<close>)
  qed
  then have k: "keeps (sane F) (obtaining (service_appendUpdate E s i u) ?k)" by (simp add: keeps_def)
  show ?thesis
    unfolding handle_update_def
    by (intro keeps_obtaining [OF calm_keeps [OF F adds_consume(2)] keeps_if [OF sane_send [OF F] k]]) (simp add: code_rate_limited_def)
qed

lemma sane_message:
  assumes F: "lasting_fact F"
  shows "keeps (sane F) (handle_code_message E s ack c)"
proof -
  have "keeps (sane F) (set_socket s (\<lambda>k. k\<lparr> so_multi := True \<rparr>))" by (intro calm_keeps [OF F] adds_set_socket) simp
  then show ?thesis
    unfolding handle_code_message_def
    by (cases c) (auto intro!: keeps_andThen sane_replay sane_handle_profile sane_handle_step1 sane_handle_update sane_handle_awareness F)
qed

lemma sane_onCodeMessage:
  assumes F: "lasting_fact F"
  shows "keeps (sane F) (onCodeMessage E s raw ack)"
  unfolding onCodeMessage_def parsed_or_throw_def
  by (intro keep_rules sane_message [OF F] calm_keeps [OF F calm_handlers(7)] good_closerD [OF close_good F])

section \<open>Terminal actions\<close>

lemma sane_terminal_answer:
  assumes F: "lasting_fact F" and h: "sane F h" "granted s (hb_log h)" and r: "r_delta r = None \<or> r_snapshot r = None"
  shows "sane F (snd (terminal_answer E (close_socket E) s ws r h))"
proof -
  let ?ack = "TerminalAck (r_ack r)"
  define h1 where "h1 = snd (emit s ?ack h)"
  have run: "emit s ?ack h = (Inr (), h1)"
    unfolding h1_def by (simp add: emit_def is_connected_def ask_obtaining note_effect_def change_def skip_def give_def)
  have h1: "sane F h1" "granted s (hb_log h1)"
  proof -
    show "sane F h1" using emit_rightful [OF h(1) F, of s ?ack] by (simp add: h1_def)
    show "granted s (hb_log h1)"
      using h(2) unfolding h1_def by (auto simp: emit_def is_connected_def ask_obtaining note_effect_def change_def skip_def give_def granted_snoc)
  qed
  define tail where "tail = andThen (case r_effect r of None \<Rightarrow> skip
       | Some e \<Rightarrow> emitAuthorized E (close_socket E) (targetSocketId e) (TerminalEffect (toSharedTerminalClientEffect e))) (chain [])"
  have tail: "keeps (sane F) tail"
    unfolding tail_def chain.simps by (intro keep_rules sane_emitAuthorized [OF F close_good]) simp
  have delta: "keeps (sane F) (case r_delta r of None \<Rightarrow> skip | Some d \<Rightarrow> broadcastAuthorized E (close_socket E) ws (terminal_delta d) None)"
    by (intro keep_rules sane_broadcast_checked [OF F close_good]) simp
  have full: "keeps (sane F) (broadcastAuthorized E (close_socket E) ws (terminal_snapshot st) None)" for st
    by (intro sane_broadcast_checked [OF F close_good]) simp
  let ?snap = "case r_snapshot r of None \<Rightarrow> skip
       | Some st \<Rightarrow> if r_changed r then broadcastAuthorized E (close_socket E) ws (terminal_snapshot st) None
                    else emit s (terminal_snapshot st)"
  have answer: "terminal_answer E (close_socket E) s ws r h
      = andThen (case r_delta r of None \<Rightarrow> skip | Some d \<Rightarrow> broadcastAuthorized E (close_socket E) ws (terminal_delta d) None)
          (andThen ?snap tail) h1"
    unfolding terminal_answer_def chain.simps(2) andThen_Inr [where m = "emit s ?ack", OF run] tail_def ..
  show ?thesis
  proof (cases "r_snapshot r")
    case None
    then have "keeps (sane F) (andThen ?snap tail)" using tail by (simp add: keeps_andThen keeps_skip)
    from keeps_andThen [OF delta this] h1(1) show ?thesis unfolding answer keeps_def by blast
  next
    case (Some st)
    with r have "r_delta r = None" by simp
    then have answer: "terminal_answer E (close_socket E) s ws r h = andThen ?snap tail h1" unfolding answer by (simp add: skip_then)
    show ?thesis
    proof (cases "r_changed r")
      case True
      with Some have "keeps (sane F) (andThen ?snap tail)" using tail full by (simp add: keeps_andThen)
      with h1(1) show ?thesis unfolding answer keeps_def by blast
    next
      case False
      let ?h2 = "snd (emit s (terminal_snapshot st) h1)"
      have run2: "emit s (terminal_snapshot st) h1 = (Inr (), ?h2)"
        by (simp add: emit_def is_connected_def ask_obtaining note_effect_def change_def skip_def give_def)
      have "sane F ?h2" by (rule emit_rightful [OF h1(1) F]) (use h1(2) in simp)
      with tail False Some show ?thesis
        unfolding answer by (simp add: andThen_Inr [where m = "emit s (terminal_snapshot st)", OF run2] keeps_def)
    qed
  qed
qed

end
