(* ===== verification/Code_Runs.thy ===== *)
theory Code_Runs
  imports Code_Follow
begin

text \<open>
  Runs of the code namespace: the invariant of \<open>Code_Follow\<close> holds in every reachable state, so every
  connected client follows its terminal, the connections are counted exactly, and a workspace has a
  terminal exactly as long as someone is connected to it.
\<close>

section \<open>The identifiers of terminals\<close>

text \<open>\<open>randomUUID\<close> gives identifiers of 36 characters.\<close>

definition uuid_epochs :: "'w code_env \<Rightarrow> bool" where
  "uuid_epochs E \<longleftrightarrow> (\<forall>n. safeIdentifier (ce_epoch E n) \<and> length (ce_epoch E n) \<le> 36)"

definition hub_ok :: "'w hub \<Rightarrow> bool" where
  "hub_ok h \<longleftrightarrow> ok {} [] {} (length (hb_open h)) (places h) h"

lemma hub_ok_iff: "hub_ok h \<longleftrightarrow> sockets_ok h \<and> counts_ok [] h \<and> machines_ok h \<and> (\<forall>s \<in> set (hb_open h). up_to_date s h)"
  by (simp add: hub_ok_def ok_def)

lemma ok_hub: "ok {} [] {} n V h \<Longrightarrow> hub_ok h"
  by (simp add: hub_ok_iff ok_def)

lemma keeps_hub: "(\<And>n V. V s \<noteq> None \<Longrightarrow> keeps (ok {} [] {} n V) m) \<Longrightarrow> hub_ok h \<Longrightarrow> s \<in> set (hb_open h) \<Longrightarrow> hub_ok (snd (m h))"
proof -
  assume m: "\<And>n V. V s \<noteq> None \<Longrightarrow> keeps (ok {} [] {} n V) m" and h: "hub_ok h" and "s \<in> set (hb_open h)"
  then have "places h s \<noteq> None" using open_place [of h s] by (simp add: hub_ok_iff)
  with m [of "places h" "length (hb_open h)"] h show "hub_ok (snd (m h))"
    unfolding keeps_def by (intro ok_hub [of "length (hb_open h)" "places h"]) (simp add: hub_ok_def)
qed

section \<open>Admission and connection\<close>

lemma admit_ok:
  assumes "hub_ok h" "hb_heap h s = None"
  shows "hub_ok (snd (admit_code_socket E s origin auth h))"
proof -
  have u: "hub_ok h'" if "unchanged h h'" for h' using ok_unchanged [OF that] assms(1) unfolding hub_ok_def
    by (metis hub_ok_def ok_hub)
  have place: "hub_ok (g\<lparr> hb_heap := (hb_heap g)(s \<mapsto> k) \<rparr>)" if g: "hub_ok g" "hb_heap g s = None" for g :: "'a hub" and k
  proof -
    let ?g = "g\<lparr> hb_heap := (hb_heap g)(s \<mapsto> k) \<rparr>"
    have s: "s \<notin> set (hb_joined g)" "s \<notin> set (hb_open g)"
      using g places_dom [of g s] unfolding hub_ok_iff sockets_ok_def by blast+
    have ws: "workspace_of ?g q = workspace_of g q" "places ?g q = places g q" if "q \<noteq> s" for q
      using that by (simp_all add: workspace_of_def session_of_def socket_of_def places_def)
    have same: "workspace_of ?g q = workspace_of g q" if "q \<in> set (hb_open g)" for q using that s(2) ws(1) [of q] by metis
    then have "room w ?g = room w g" for w unfolding room_def by (auto intro!: filter_cong)
    moreover have "up_to_date q ?g \<longleftrightarrow> up_to_date q g" if "q \<in> set (hb_open g)" for q
      unfolding up_to_date_def same [OF that] by (simp add: client_of_def machine_of_def)
    moreover have "\<forall>q \<in> set (hb_joined g). places ?g q \<noteq> None"
      using g s ws(2) by (metis hub_ok_iff sockets_ok_def)
    ultimately show ?thesis using g by (simp add: hub_ok_iff counts_ok_def machines_ok_def sockets_ok_def)
  qed
  obtain r w where auth: "service_authenticate E a h = (r a, h\<lparr> hb_world := w a \<rparr>)" for a
    by (simp add: service_authenticate_def split_beta)
  show ?thesis
  proof (cases "code_origin_ok E origin")
    case True
    show ?thesis
    proof (cases "parseCodeSyncHandshakeAuth (ce_nfkc E) auth")
      case (Inr a)
      have "hub_ok (h\<lparr> hb_world := w a \<rparr>)" by (rule u) (simp add: unchanged_frame)
      with place [of "h\<lparr> hb_world := w a \<rparr>"] assms True Inr show ?thesis
        by (cases "r a") (simp_all add: admit_code_socket_def parsed_or_throw_def lift_def obtaining_def auth change_def)
    qed (use assms True in \<open>simp add: admit_code_socket_def parsed_or_throw_def lift_def obtaining_def\<close>)
  qed (use assms in \<open>simp add: admit_code_socket_def throw_def\<close>)
qed

definition joining :: "jstr \<Rightarrow> 'w hub \<Rightarrow> 'w hub" where
  "joining s h = h\<lparr> hb_joined := hb_joined h @ [s], hb_open := hb_open h @ [s] \<rparr>"

definition machine_for :: "'w code_env \<Rightarrow> jstr \<Rightarrow> 'w hub \<Rightarrow> machine" where
  "machine_for E ws h = (case hb_machines h ws of Some m \<Rightarrow> m | None \<Rightarrow> new_machine (ce_epoch E (hb_made h)))"

lemma terminal_connect_run:
  assumes "s \<in> set (hb_open h)"
  shows "\<exists>made. terminal_connect E s ws h = (Inr (), h\<lparr> hb_machines := (hb_machines h)(ws \<mapsto> machine_for E ws h), hb_made := made,
      hb_connections := (hb_connections h)(ws \<mapsto> (case hb_connections h ws of None \<Rightarrow> 0 | Some n \<Rightarrow> n) + 1),
      hb_log := hb_log h @ [Emitted s (terminal_snapshot (snapshot (machine_for E ws h)))] \<rparr>)"
proof (cases "hb_machines h ws")
  case None
  with assms show ?thesis
    by (intro exI [of _ "Suc (hb_made h)"])
      (simp add: terminal_connect_def change_then ask_obtaining emit_open machine_of_def machine_for_def)
next
  case (Some m)
  then have "(hb_machines h)(ws \<mapsto> m) = hb_machines h" by auto
  with Some assms show ?thesis
    by (intro exI [of _ "hb_made h"])
      (simp add: terminal_connect_def change_then ask_obtaining emit_open machine_of_def machine_for_def)
qed

lemma connect_run:
  assumes "hb_heap h s \<noteq> None"
  shows "\<exists>h'. connect_code_socket E s h = (Inr (), h') \<and> places h' = places h \<and> hb_joined h' = hb_joined h @ [s]
    \<and> hb_open h' = hb_open h @ [s] \<and> hb_machines h' = (hb_machines h)(workspace_of h s \<mapsto> machine_for E (workspace_of h s) h)
    \<and> hb_connections h' = (hb_connections h)(workspace_of h s \<mapsto> (case hb_connections h (workspace_of h s) of None \<Rightarrow> 0 | Some n \<Rightarrow> n) + 1)
    \<and> (\<forall>q. received q (hb_log h') = received q (hb_log h)
        @ (if q = s then [StateMessage (state_json (snapshot (machine_for E (workspace_of h s) h)))] else []))"
proof -
  let ?ws = "workspace_of h s"
  let ?ss = "session_of h s"
  define m where "m = andThen (note_effect (Joined s ?ss))
    (send_message s (CodeReady (ss_workspaceId ?ss) (ss_documentId ?ss) (ss_deviceId ?ss) (ss_participant ?ss)) False :: ('a, unit) code_action)"
  have "still m" unfolding m_def by (intro still_rules) simp
  moreover have "returns m" unfolding m_def by (intro return_rules)
  ultimately obtain h1 where h1: "m (joining s h) = (Inr (), h1)" "unchanged (joining s h) h1"
    unfolding still_def returns_def by (metis prod.collapse old.unit.exhaust)
  note u = h1(2) [unfolded unchanged_def]
  have s: "s \<in> set (hb_open h1)" using u by (simp add: joining_def)
  obtain made where t: "terminal_connect E s ?ws h1 = (Inr (), h1\<lparr> hb_machines := (hb_machines h1)(?ws \<mapsto> machine_for E ?ws h1), hb_made := made,
      hb_connections := (hb_connections h1)(?ws \<mapsto> (case hb_connections h1 ?ws of None \<Rightarrow> 0 | Some n \<Rightarrow> n) + 1),
      hb_log := hb_log h1 @ [Emitted s (terminal_snapshot (snapshot (machine_for E ?ws h1)))] \<rparr>)" (is "_ = (_, ?h')")
    using terminal_connect_run [OF s] by blast
  have "connect_code_socket E s h = (Inr (), ?h')"
  proof -
    have "connect_code_socket E s h = andThen m (andThen (terminal_connect E s ?ws) skip) (joining s h)"
      by (simp add: connect_code_socket_def ask_obtaining change_then joining_def m_def workspace_of_def andThen_assoc)
    then show ?thesis by (simp add: andThen_Inr [where m = m, OF h1(1)] andThen_Inr [where m = "terminal_connect E s ?ws", OF t] skip_def give_def)
  qed
  moreover have "machine_for E ?ws h1 = machine_for E ?ws h" using u by (simp add: machine_for_def joining_def cong: option.case_cong)
  moreover have "places (joining s h) = places h" by (rule places_frame) (simp add: joining_def)
  moreover have "places ?h' = places h1" by (rule places_frame) simp
  ultimately show ?thesis using u by (intro exI [of _ ?h']) (simp add: joining_def)
qed

lemma fresh_follows:
  assumes "machine_ok m" "in_counter_range m"
  shows "follows (receive (StateMessage (state_json (snapshot m))) fresh_client) (snapshot m)"
  using state_roundtrip [OF snapshot_wf [OF assms]]
  by (simp add: fresh_client_def handleConnect_def new_client_def handleTerminalState_def follows_def)

lemma connect_ok:
  assumes h: "hub_ok h" and epochs: "uuid_epochs E" and s: "hb_heap h s \<noteq> None" "s \<notin> set (hb_joined h)"
  shows "hub_ok (snd (connect_code_socket E s h))"
proof -
  let ?ws = "workspace_of h s"
  let ?m = "machine_for E ?ws h"
  obtain h' where run: "connect_code_socket E s h = (Inr (), h')" and places: "places h' = places h"
    and joined: "hb_joined h' = hb_joined h @ [s]" "hb_open h' = hb_open h @ [s]" and machines: "hb_machines h' = (hb_machines h)(?ws \<mapsto> ?m)"
    and counts: "hb_connections h' = (hb_connections h)(?ws \<mapsto> (case hb_connections h ?ws of None \<Rightarrow> 0 | Some n \<Rightarrow> n) + 1)"
    and log: "\<And>q. received q (hb_log h') = received q (hb_log h) @ (if q = s then [StateMessage (state_json (snapshot ?m))] else [])"
    using connect_run [OF s(1)] by blast
  have so: "sockets_ok h" and co: "counts_ok [] h" and mo: "machines_ok h" and up: "\<And>q. q \<in> set (hb_open h) \<Longrightarrow> up_to_date q h"
    using h by (simp_all add: hub_ok_iff)
  have "s \<notin> set (hb_open h)" using so s(2) by (auto simp: sockets_ok_def)
  have place: "places h s = Some ?ws" using s(1) by (auto simp: places_def workspace_of_def session_of_def socket_of_def)
  have ws: "workspace_of h' q = workspace_of h q" if "q \<in> set (hb_open h')" for q
  proof -
    have "places h' q = Some (workspace_of h q)" using that joined(2) place places open_place [OF so, of q] by auto
    then show ?thesis by (rule workspace_places)
  qed
  have room: "room w h' = room w h @ (if w = ?ws then [s] else [])" for w
    using ws joined(2) by (auto simp: room_def intro!: filter_cong)
  have "hb_machines h ?ws = None \<Longrightarrow> machine_ok (new_machine (ce_epoch E (hb_made h)))"
    using epochs by (intro new_machine_ok) (simp_all add: uuid_epochs_def)
  then have ok_m: "machine_ok ?m" using mo by (auto simp: machine_for_def machines_ok_def split: option.splits)
  have "up_to_date q h'" if "q \<in> set (hb_open h')" for q
  proof (cases "q = s")
    case True
    have "received s (hb_log h) = []" using so s(2) by (simp add: sockets_ok_def)
    then have "client_of s h' = receive (StateMessage (state_json (snapshot ?m))) fresh_client"
      using log [of s] by (simp add: client_of_def)
    moreover have "machine_of ?ws h' = ?m" using machines by (simp add: machine_of_def)
    ultimately show ?thesis using True ws [OF that] fresh_follows [OF ok_m] by (simp add: up_to_date_def)
  next
    case False
    then have q: "q \<in> set (hb_open h)" using that joined(2) by simp
    have "?m = machine_of ?ws h" if "?ws = workspace_of h q"
      using machine_present [OF co, of q] q that by (auto simp: machine_for_def machine_of_def)
    then have "machine_of (workspace_of h q) h' = machine_of (workspace_of h q) h" using machines by (auto simp: machine_of_def)
    then show ?thesis using up [OF q] ws [OF that] log [of q] False by (simp add: up_to_date_def client_of_def)
  qed
  moreover have "sockets_ok h'"
    using so \<open>s \<notin> set (hb_open h)\<close> joined places place log by (auto simp: sockets_ok_def)
  moreover have "machines_ok h'" using mo machines ok_m by (auto simp: machines_ok_def)
  moreover have "counts_ok [] h'" using co unfolding counts_ok_def room counts machines by (auto simp: Let_def)
  ultimately show ?thesis using run by (simp add: hub_ok_iff)
qed

section \<open>Every reachable state\<close>

lemma ensures_state: "ensures P m (\<lambda>_. Q) (\<lambda>_. Q) \<Longrightarrow> P h \<Longrightarrow> Q (snd (m h))"
  by (cases "m h"; cases "fst (m h)") (auto simp: ensures_def)

lemma close_ok: "keeps (ok X W R n V) (close_socket E s)"
  by (rule closer_ok [OF close_closes])

lemma event_ok:
  assumes "uuid_epochs E" "hub_ok h" "code_possible h ev"
  shows "hub_ok (code_run_event E ev h)"
proof -
  have u: "hub_ok (snd (m h))" if "still m" for m :: "('a, unit) code_action"
    using keeps_def still_ok [OF that, of "{}" "[]" "{}" "length (hb_open h)" "places h"] assms(2) ok_hub unfolding hub_ok_def by metis
  show ?thesis
  proof (cases ev)
    case (Asks s blocked origin auth)
    with assms admit_ok [OF assms(2)] show ?thesis
      by (simp add: code_run_event_def code_handler_def code_possible_def skip_def give_def)
  next
    case (Connects s)
    with assms connect_ok [OF assms(2,1)] show ?thesis
      by (simp add: code_run_event_def code_handler_def code_possible_def)
  next
    case (Sends s allowed raw ack)
    then have "s \<in> set (hb_open h)" using assms(3) by (simp add: code_possible_def)
    from keeps_hub [OF ok_onCodeMessage assms(2) this] u [OF still_refuse_packet] Sends show ?thesis
      by (simp add: code_run_event_def code_handler_def)
  next
    case (Acts s allowed raw ack)
    then have s: "s \<in> set (hb_open h)" using assms(3) by (simp add: code_possible_def)
    have V: "places h s = Some (workspace_of h s)" using s assms(2) by (intro open_place) (simp_all add: hub_ok_iff)
    have "hb_machines h (workspace_of h s) \<noteq> None"
      using s assms(2) by (intro machine_present [where W = "[]"]) (simp_all add: hub_ok_iff)
    with assms(2) have "ok {} [] {} (length (hb_open h)) (places h) (snd (terminal_action E (close_socket E) s raw h))"
      by (intro ensures_state [OF ok_terminal_action [where V = "places h" and n = "length (hb_open h)", OF V]]) (simp add: hub_ok_def)
    then have "hub_ok (snd (terminal_action E (close_socket E) s raw h))" by (rule ok_hub)
    with u [OF still_refuse_packet] Acts show ?thesis by (simp add: code_run_event_def code_handler_def)
  next
    case (Expires s)
    then have "s \<in> set (hb_open h)" using assms(3) by (simp add: code_possible_def)
    from keeps_hub [OF close_ok assms(2) this] Expires show ?thesis by (simp add: code_run_event_def code_handler_def)
  next
    case (Leaves s)
    then have "s \<in> set (hb_open h)" using assms(3) by (simp add: code_possible_def)
    from keeps_hub [OF close_ok assms(2) this] Leaves show ?thesis by (simp add: code_run_event_def code_handler_def)
  next
    case (WorldChanges w)
    with u [of "change (\<lambda>h. h\<lparr> hb_world := w \<rparr>)"] show ?thesis
      by (simp add: code_run_event_def code_handler_def still_change unchanged_frame)
  next
    case (ClockTicks t)
    with u [of "change (\<lambda>h. h\<lparr> hb_now := t \<rparr>)"] show ?thesis
      by (simp add: code_run_event_def code_handler_def still_change unchanged_frame)
  qed
qed

lemma reachable_hub_ok:
  assumes "uuid_epochs E" "code_reachable E h"
  shows "hub_ok h"
  using assms(2)
proof (induction rule: code_reachable.induct)
  case (start w now)
  show ?case by (simp add: hub_ok_iff new_hub_def sockets_ok_def counts_ok_def machines_ok_def room_def Let_def)
qed (simp add: event_ok [OF assms(1)])

text \<open>
  C9. In every reachable state of the code namespace, whatever the service answers and however checks and
  closing sockets are interleaved, a connected client that was given every terminal message it was sent, in
  order, holds the current state of its workspace's terminal, or an older one and has asked for a new one.
\<close>

theorem connected_clients_follow_their_terminal:
  assumes "uuid_epochs E" "code_reachable E h" "s \<in> set (hb_open h)" "in_counter_range (machine_of (workspace_of h s) h)"
  shows "follows (fold receive (received s (hb_log h)) fresh_client) (snapshot (machine_of (workspace_of h s) h))"
  using reachable_hub_ok [OF assms(1,2)] assms(3,4) by (auto simp: hub_ok_iff up_to_date_def client_of_def Let_def)

text \<open>
  C11. The connections of a workspace are counted exactly, although closing one socket may close others in
  the middle of its own end, and a workspace has a terminal exactly as long as a socket is connected to it.
\<close>

theorem terminals_live_while_connected:
  assumes "uuid_epochs E" "code_reachable E h"
  shows "hb_connections h ws = (if room ws h = [] then None else Some (int (length (room ws h))))
    \<and> (hb_machines h ws = None \<longleftrightarrow> room ws h = [])"
  using reachable_hub_ok [OF assms] by (auto simp: hub_ok_iff counts_ok_def Let_def)

section \<open>The theorems applied\<close>

text \<open>A service that grants everything, and a workspace with two sockets.\<close>

definition demo_code_session :: code_session where
  "demo_code_session = \<lparr> ss_shareId = js ''share'', ss_deviceId = js ''device'', ss_roomId = js ''room'', ss_resourceId = js ''res'',
     ss_workspaceId = js ''ws'', ss_documentId = js ''doc'',
     ss_participant = \<lparr> participantId = js ''p'', displayName = js ''P'', color = js ''#112233'' \<rparr> \<rparr>"

definition demo_code_env :: "bool list code_env" where
  "demo_code_env = \<lparr> ce_authenticate = (\<lambda>a w. (Inr demo_code_session, w)),
     ce_reauthorize = (\<lambda>s w. case w of [] \<Rightarrow> (Inr (), []) | b # bs \<Rightarrow> (if b then Inr () else Inl CodeOtherThrown, bs)),
     ce_syncStep1 = (\<lambda>s v w. (Inr \<lparr> ds_updates = [[1]], ds_stateVector = [0], ds_sequence = 0 \<rparr>, w)),
     ce_appendUpdate = (\<lambda>s i u w. (Inr (True, 1), w)), ce_position = (\<lambda>b. True), ce_nfkc = (\<lambda>s. s), ce_digest = (\<lambda>s. s),
     ce_epoch = (\<lambda>n. js ''epoch''), ce_limits = \<lparr> li_awareness = 10, li_profile = 10, li_sync = 10, li_updates = 10,
       li_updateBytes = 1000, li_maximumScopes = 10, li_idleMs = 120000 \<rparr>, ce_maxAwarenessPeers = 128, ce_maxActions = 3000,
     ce_allowedOrigins = {js ''o''} \<rparr>"

definition demo_auth :: sval where
  "demo_auth = sobj [(''shareId'', SStr (replicate 43 0x61)), (''deviceId'', SStr (js ''device''))]"

definition demo_asks :: "jstr \<Rightarrow> bool list code_event" where
  "demo_asks s = Asks s False (Some (js ''o'')) demo_auth"

fun demo_run :: "bool list code_event list \<Rightarrow> bool list hub \<Rightarrow> bool list hub option" where
  "demo_run [] h = Some h"
| "demo_run (e # es) h = (if code_possible h e then demo_run es (code_run_event demo_code_env e h) else None)"

lemma demo_run_reachable: "code_reachable demo_code_env h \<Longrightarrow> demo_run es h = Some h' \<Longrightarrow> code_reachable demo_code_env h'"
  by (induction es arbitrary: h) (auto split: if_splits intro: code_reachable.event)

definition demo_events :: "bool list code_event list" where
  "demo_events = [demo_asks (js ''a''), Connects (js ''a''), demo_asks (js ''b''), Connects (js ''b'')]"

definition demo_connected :: "bool list hub" where
  "demo_connected = the (demo_run demo_events (new_hub [] 0))"

lemma demo_connected_evaluates:
  "case demo_run demo_events (new_hub [] 0) of None \<Rightarrow> False
     | Some h \<Rightarrow> hb_open h = [js ''a'', js ''b''] \<and> workspace_of h (js ''a'') = js ''ws'' \<and> workspace_of h (js ''b'') = js ''ws''
         \<and> in_counter_range (machine_of (js ''ws'') h)"
  by code_simp

lemma demo_connected_facts:
  "code_reachable demo_code_env demo_connected" "hb_open demo_connected = [js ''a'', js ''b'']"
  "workspace_of demo_connected (js ''a'') = js ''ws''" "workspace_of demo_connected (js ''b'') = js ''ws''"
  "in_counter_range (machine_of (js ''ws'') demo_connected)"
  using demo_connected_evaluates demo_run_reachable [OF code_reachable.start [of demo_code_env "[]" 0], of demo_events]
  by (auto simp: demo_connected_def split: option.splits)

lemma demo_epochs: "uuid_epochs demo_code_env"
proof -
  have "safeIdentifier (js ''epoch'') \<and> length (js ''epoch'') \<le> 36" by code_simp
  then show ?thesis by (simp add: uuid_epochs_def demo_code_env_def)
qed

theorem connected_clients_follow_their_terminal_witness:
  "follows (fold receive (received (js ''b'') (hb_log demo_connected)) fresh_client) (snapshot (machine_of (js ''ws'') demo_connected))"
  using connected_clients_follow_their_terminal [OF demo_epochs demo_connected_facts(1), of "js ''b''"]
  by (simp add: demo_connected_facts)

theorem terminals_live_while_connected_witness:
  "hb_connections demo_connected (js ''ws'') = Some 2 \<and> hb_connections demo_connected (js ''other'') = None"
  using terminals_live_while_connected [OF demo_epochs demo_connected_facts(1)]
  by (simp add: room_def demo_connected_facts)

end
