(* ===== verification/Code_Delivery.thy ===== *)
theory Code_Delivery
  imports Code_Safety Code_Runs
begin

text \<open>
  The rules of \<open>Code_Safety\<close> in every reachable state of the code namespace.
\<close>

section \<open>A terminal action\<close>

lemma consume_run:
  "\<exists>b h'. consume_action E s act h = (Inr b, h') \<and> hb_log h' = hb_log h \<and> hb_machines h' = hb_machines h \<and> hb_heap h' = hb_heap h"
  by (simp add: consume_action_def ask_obtaining split_beta change_then give_def)

lemma terminal_event_run:
  "terminal_event E ws e h = (Inr (snd (step (ce_digest E) e (machine_of ws h))),
     h\<lparr> hb_machines := (hb_machines h)(ws \<mapsto> fst (step (ce_digest E) e (machine_of ws h))) \<rparr>)"
  by (simp add: terminal_event_def ask_obtaining split_beta change_then give_def)

lemma attempt_state:
  assumes "I (snd (m h))" "\<And>e. keeps I (k e)"
  shows "I (snd (attempt m k h))"
proof -
  obtain r h' where m: "m h = (r, h')" by (cases "m h")
  with assms show ?thesis by (cases r) (auto simp: attempt_def keeps_def)
qed

lemma sane_dispatch:
  assumes F: "lasting_fact F" and h: "sane F h" "granted s (hb_log h)" "machine_ok (machine_of ws h)"
  shows "sane F (snd (obtaining (ask (\<lambda>h. terminal_actor h s)) (\<lambda>a.
     obtaining (terminal_event E ws (Dispatched a act)) (terminal_answer E (close_socket E) s ws)) h))"
proof -
  let ?a = "terminal_actor h s"
  let ?m = "machine_of ws h"
  obtain r where r: "r = snd (step (ce_digest E) (Dispatched ?a act) ?m)" by simp
  let ?h = "h\<lparr> hb_machines := (hb_machines h)(ws \<mapsto> fst (step (ce_digest E) (Dispatched ?a act) ?m)) \<rparr>"
  have "socketId ?a = s" by (simp add: terminal_actor_def participant.defs actor.defs)
  from dispatch_deliveries(1) [OF h(3) this r] have one: "r_delta r = None \<or> r_snapshot r = None" .
  have "sane F ?h" by (rule sane_calm [OF h(1) F later_frame]) simp_all
  moreover have "granted s (hb_log ?h)" using h(2) by simp
  ultimately have "sane F (snd (terminal_answer E (close_socket E) s ws r ?h))" by (rule sane_terminal_answer [OF F _ _ one])
  moreover have "obtaining (terminal_event E ws (Dispatched ?a act)) (terminal_answer E (close_socket E) s ws) h
      = terminal_answer E (close_socket E) s ws r ?h"
    unfolding r by (rule obtaining_Inr) (rule terminal_event_run)
  ultimately show ?thesis by (simp add: ask_obtaining)
qed

lemma sane_terminal_action:
  fixes h :: "'w hub"
  assumes F: "lasting_fact F" and h: "sane F h" "machine_ok (machine_of (workspace_of h s) h)"
  shows "sane F (snd (terminal_action E (close_socket E) s raw h))"
proof -
  let ?ws = "workspace_of h s"
  have ack: "keeps (sane F) (emit_ack s ?ws aid err :: ('w, unit) code_action)" for aid err by (rule calm_keeps [OF F calm_handlers(5)])
  have refused: "keeps (sane F) (andThen (case readSharedTerminalActionId raw of None \<Rightarrow> skip | Some aid \<Rightarrow> emit_ack s ?ws aid ErrUnauthorized)
      (close_socket E s))"
    by (intro keep_rules ack good_closerD [OF close_good F])
  obtain r h1 where run: "service_reauthorize E s h = (r, h1)" "hb_log h1 = hb_log h @ [AccessChecked s (\<not> isl r)]" "later calm_effect h h1"
    using service_reauthorize_run [of E s h] by blast
  have h1: "sane F h1" by (rule sane_calm [OF h(1) F run(3)])
  have m1: "hb_machines h1 = hb_machines h"
    using still_service_reauthorize [of E s] run(1) by (auto simp: still_def unchanged_def) (metis snd_conv)
  define body where "body = (case parseSharedTerminalActionEnvelope raw of
          None \<Rightarrow> (case readSharedTerminalActionId raw of None \<Rightarrow> skip | Some aid \<Rightarrow> emit_ack s ?ws aid ErrInvalidAction)
        | Some act \<Rightarrow> obtaining (consume_action E s act) (\<lambda>ok.
            if \<not> ok then emit_ack s ?ws (actionId act) ErrRateLimited
            else obtaining (ask (\<lambda>h. terminal_actor h s)) (\<lambda>a.
              obtaining (terminal_event E ?ws (Dispatched a act)) (terminal_answer E (close_socket E) s ?ws))))"
  have body: "sane F (snd (body h1))" if "r = Inr u" for u
  proof (cases "parseSharedTerminalActionEnvelope raw")
    case None
    then have "body = (case readSharedTerminalActionId raw of None \<Rightarrow> skip | Some aid \<Rightarrow> emit_ack s ?ws aid ErrInvalidAction)"
      by (simp add: body_def)
    then have "keeps (sane F) body" by (simp only:) (intro keep_rules ack)
    with h1 show ?thesis by (simp add: keeps_def)
  next
    case (Some act)
    obtain b h2 where h2: "consume_action E s act h1 = (Inr b, h2)" "hb_log h2 = hb_log h1" "hb_machines h2 = hb_machines h1" "hb_heap h2 = hb_heap h1"
      using consume_run [of E s act h1] by blast
    have s2: "sane F h2"
      using calm_keeps [OF F adds_consume(1), of E s act] h1 h2(1) unfolding keeps_def by (metis snd_conv)
    have "granted s (hb_log h2)" using run(2) that h2(2) by (simp add: granted_snoc)
    moreover have "machine_ok (machine_of ?ws h2)" using h(2) m1 h2(3) by (simp add: machine_of_def)
    ultimately have d: "sane F (snd (obtaining (ask (\<lambda>h. terminal_actor h s)) (\<lambda>a.
        obtaining (terminal_event E ?ws (Dispatched a act)) (terminal_answer E (close_socket E) s ?ws)) h2))"
      by (rule sane_dispatch [OF F s2])
    have "body h1 = (if \<not> b then emit_ack s ?ws (actionId act) ErrRateLimited
            else obtaining (ask (\<lambda>h. terminal_actor h s)) (\<lambda>a.
              obtaining (terminal_event E ?ws (Dispatched a act)) (terminal_answer E (close_socket E) s ?ws))) h2"
      unfolding body_def Some option.case by (rule obtaining_Inr) (rule h2(1))
    with d s2 ack [of "actionId act" ErrRateLimited] show ?thesis by (simp add: keeps_def)
  qed
  have "sane F (snd (andThen (service_reauthorize E s) body h))"
    using run h1 body by (cases r) (simp_all add: andThen_def obtaining_def)
  then have "sane F (snd (attempt (andThen (service_reauthorize E s) body)
      (\<lambda>e. andThen (case readSharedTerminalActionId raw of None \<Rightarrow> skip | Some aid \<Rightarrow> emit_ack s ?ws aid ErrUnauthorized) (close_socket E s)) h))"
    by (rule attempt_state) (rule refused)
  then show ?thesis by (simp add: terminal_action_def ask_obtaining body_def)
qed

section \<open>Every event\<close>

definition anything :: "code_effect list \<Rightarrow> bool" where
  "anything l \<longleftrightarrow> True"

lemma lasting_anything [simp]: "lasting_fact anything"
  by (simp add: lasting_fact_def anything_def)

lemma sane_admit:
  assumes "sane anything h" "hb_heap h s = None"
  shows "sane anything (snd (admit_code_socket E s origin auth h))"
proof -
  have place: "sane anything (h\<lparr> hb_world := w, hb_heap := (hb_heap h)(s \<mapsto> k) \<rparr>)" for w k
  proof -
    let ?h = "h\<lparr> hb_world := w, hb_heap := (hb_heap h)(s \<mapsto> k) \<rparr>"
    have "places ?h q = places h q" if "q \<in> set (hb_open h)" for q
    proof -
      have "places h q \<noteq> None" using assms(1) that by (auto simp: sane_def)
      then show ?thesis using assms(2) by (auto simp: places_def)
    qed
    with assms(1) show ?thesis by (auto simp: sane_def)
  qed
  have world: "sane anything (h\<lparr> hb_world := w \<rparr>)" for w
    by (rule sane_calm [OF assms(1) _ later_frame]) simp_all
  obtain r w where auth: "service_authenticate E a h = (r a, h\<lparr> hb_world := w a \<rparr>)" for a
    by (simp add: service_authenticate_def split_beta)
  show ?thesis
  proof (cases "code_origin_ok E origin")
    case True
    show ?thesis
    proof (cases "parseCodeSyncHandshakeAuth (ce_nfkc E) auth")
      case (Inr a)
      with True place world show ?thesis
        by (cases "r a") (simp_all add: admit_code_socket_def parsed_or_throw_def lift_def obtaining_def auth change_def)
    qed (use assms True in \<open>simp add: admit_code_socket_def parsed_or_throw_def lift_def obtaining_def\<close>)
  qed (use assms in \<open>simp add: admit_code_socket_def throw_def\<close>)
qed

lemma sane_connect:
  assumes h: "sane anything h" "hub_ok h" and s: "hb_heap h s \<noteq> None" "s \<notin> set (hb_joined h)"
  shows "sane anything (snd (connect_code_socket E s h))"
proof -
  let ?ss = "session_of h s"
  let ?j = "h\<lparr> hb_joined := hb_joined h @ [s], hb_open := hb_open h @ [s], hb_log := hb_log h @ [Joined s ?ss] \<rparr>"
  have "s \<notin> set (hb_open h)" using h(2) s(2) by (auto simp: hub_ok_iff sockets_ok_def)
  moreover have "places ?j = places h" by (rule places_frame) simp
  moreover have "places h s = Some (ss_workspaceId ?ss)" using s(1) by (auto simp: places_def session_of_def socket_of_def)
  moreover have "member q ws (hb_log ?j)" if "member q ws (hb_log h)" for q ws using member_append [OF that] by simp
  ultimately have j: "sane anything ?j" "granted s (hb_log ?j)"
    using h(1) by (auto simp: sane_def anything_def lawful_snoc granted_snoc) (auto simp: member_def)
  let ?ready = "send_message s (CodeReady (ss_workspaceId ?ss) (ss_documentId ?ss) (ss_deviceId ?ss) (ss_participant ?ss)) False"
  let ?h1 = "?j\<lparr> hb_log := hb_log ?j @ [Emitted s (Message (CodeReady (ss_workspaceId ?ss) (ss_documentId ?ss) (ss_deviceId ?ss) (ss_participant ?ss)))] \<rparr>"
  have ready: "?ready ?j = (Inr (), ?h1)"
    by (simp add: send_message_def andThen_Inr [where m = "emit s _", OF emit_open] is_connected_def ask_obtaining skip_def give_def)
  have h1: "sane anything ?h1" "granted s (hb_log ?h1)"
  proof -
    have "later calm_effect ?j ?h1" using places_frame [of ?h1 ?j] by (simp add: later_def)
    then show "sane anything ?h1" by (rule sane_calm [OF j(1) lasting_anything])
    show "granted s (hb_log ?h1)" using j(2) by (simp add: granted_def latest_append)
  qed
  have open1: "s \<in> set (hb_open ?h1)" by simp
  obtain made where t: "terminal_connect E s (ss_workspaceId ?ss) ?h1 = (Inr (), ?h1\<lparr> hb_machines := (hb_machines ?h1)(ss_workspaceId ?ss \<mapsto> machine_for E (ss_workspaceId ?ss) ?h1), hb_made := made,
      hb_connections := (hb_connections ?h1)(ss_workspaceId ?ss \<mapsto> (case hb_connections ?h1 (ss_workspaceId ?ss) of None \<Rightarrow> 0 | Some n \<Rightarrow> n) + 1),
      hb_log := hb_log ?h1 @ [Emitted s (terminal_snapshot (snapshot (machine_for E (ss_workspaceId ?ss) ?h1)))] \<rparr>)" (is "_ = (_, ?h2)")
    using terminal_connect_run [OF open1] by blast
  have "sane anything ?h2"
  proof (rule sane_later [OF h1(1) lasting_anything])
    show "later (\<lambda>_. True) ?h1 ?h2" using places_frame [of ?h2 ?h1] by (simp add: later_def)
    have "lawful (hb_log ?h1 @ [Emitted s (terminal_snapshot (snapshot (machine_for E (ss_workspaceId ?ss) ?h1)))])"
      unfolding lawful_snoc rightful.simps using sane_lawful [OF h1(1)] h1(2) by (rule conjI)
    moreover have "hb_log ?h2 = hb_log ?h1 @ [Emitted s (terminal_snapshot (snapshot (machine_for E (ss_workspaceId ?ss) ?h1)))]" by simp
    ultimately show "lawful (hb_log ?h2)" by (simp only:)
  qed
  moreover have "connect_code_socket E s h = (Inr (), ?h2)"
  proof -
    have "connect_code_socket E s h = andThen ?ready (andThen (terminal_connect E s (ss_workspaceId ?ss)) skip) ?j"
      by (simp add: connect_code_socket_def ask_obtaining change_then note_effect_def)
    then show ?thesis
      by (simp only: andThen_Inr [where m = ?ready, OF ready] andThen_Inr [where m = "terminal_connect E s (ss_workspaceId ?ss)", OF t] skip_def give_def)
  qed
  ultimately show ?thesis by simp
qed

lemma sane_event:
  assumes h: "sane anything h" "hub_ok h" and p: "code_possible h ev"
  shows "sane anything (code_run_event E ev h)"
proof -
  have c: "sane anything (snd (m h))" if "keeps (sane anything) m" for m :: "('a, unit) code_action"
    using that h(1) by (simp add: keeps_def)
  have refuse: "keeps (sane anything) (refuse_packet s ack)" for s ack by (rule calm_keeps [OF lasting_anything calm_handlers(6)])
  have change: "keeps (sane anything) (change f :: ('a, unit) code_action)" if "\<And>h. hb_heap (f h) = hb_heap h \<and> hb_open (f h) = hb_open h \<and> hb_log (f h) = hb_log h"
    for f :: "'a hub \<Rightarrow> 'a hub"
    by (rule calm_keeps [OF lasting_anything adds_change]) (rule that)
  show ?thesis
  proof (cases ev)
    case (Asks s blocked origin auth)
    with p sane_admit [OF h(1)] h(1) show ?thesis
      by (simp add: code_run_event_def code_handler_def code_possible_def skip_def give_def)
  next
    case (Connects s)
    with p sane_connect [OF h] show ?thesis by (simp add: code_run_event_def code_handler_def code_possible_def)
  next
    case (Sends s allowed raw ack)
    then show ?thesis using c [OF sane_onCodeMessage [OF lasting_anything]] c [OF refuse]
      by (simp add: code_run_event_def code_handler_def)
  next
    case (Acts s allowed raw ack)
    then have s: "s \<in> set (hb_open h)" using p by (simp add: code_possible_def)
    then obtain m where "hb_machines h (workspace_of h s) = Some m"
      using machine_present [of "[]" h s] h(2) by (auto simp: hub_ok_iff)
    then have "machine_ok (machine_of (workspace_of h s) h)" using h(2) by (auto simp: hub_ok_iff machines_ok_def machine_of_def)
    from sane_terminal_action [OF lasting_anything h(1) this] c [OF refuse] Acts show ?thesis
      by (simp add: code_run_event_def code_handler_def)
  next
    case (Expires s)
    then show ?thesis using c [OF good_closerD [OF close_good lasting_anything]] by (simp add: code_run_event_def code_handler_def)
  next
    case (Leaves s)
    then show ?thesis using c [OF good_closerD [OF close_good lasting_anything]] by (simp add: code_run_event_def code_handler_def)
  next
    case (WorldChanges w)
    then show ?thesis using c [OF change] by (simp add: code_run_event_def code_handler_def)
  next
    case (ClockTicks t)
    then show ?thesis using c [OF change] by (simp add: code_run_event_def code_handler_def)
  qed
qed

lemma reachable_sane:
  assumes "uuid_epochs E" "code_reachable E h"
  shows "sane anything h"
  using assms(2)
proof (induction rule: code_reachable.induct)
  case (start w now)
  show ?case by (simp add: sane_def anything_def new_hub_def)
next
  case (event h ev)
  with sane_event [OF event.IH reachable_hub_ok [OF assms(1) event.hyps(1)] event.hyps(2)] show ?case by simp
qed

text \<open>
  C10. What belongs to a workspace reaches only those who may see it, in every run and whatever the service
  answers: presence, terminal states, deltas and effects are sent to a socket only when the latest decision
  about it (its admission or a check of its session) was a grant; and an update is sent only to another
  socket that joined the same workspace, with the identity of the session that made it, after it was
  committed and after a grant made since then.
\<close>

theorem workspace_data_is_sent_rightfully:
  assumes "uuid_epochs E" "code_reachable E h" "hb_log h = l1 @ e # l2"
  shows "rightful l1 e"
  using sane_lawful [OF reachable_sane [OF assms(1,2)]] assms(3) by (auto simp: lawful_def)

section \<open>The theorem applied\<close>

lemma demo_connected_log:
  "case demo_run demo_events (new_hub [] 0) of None \<Rightarrow> False
     | Some h \<Rightarrow> length (hb_log h) = 6 \<and> (case hb_log h ! 5 of Emitted s (TerminalWire full w) \<Rightarrow> s = js ''b'' \<and> full | _ \<Rightarrow> False)"
  by code_simp

theorem workspace_data_is_sent_rightfully_witness:
  "\<exists>w. hb_log demo_connected = take 5 (hb_log demo_connected) @ [Emitted (js ''b'') (TerminalWire True w)]
     \<and> granted (js ''b'') (take 5 (hb_log demo_connected))"
proof -
  have log: "length (hb_log demo_connected) = 6"
      "case hb_log demo_connected ! 5 of Emitted s (TerminalWire full w) \<Rightarrow> s = js ''b'' \<and> full | _ \<Rightarrow> False"
    using demo_connected_log by (auto simp: demo_connected_def split: option.splits)
  then obtain w where w: "hb_log demo_connected ! 5 = Emitted (js ''b'') (TerminalWire True w)"
    by (auto split: code_effect.splits to_client.splits)
  have eq: "hb_log demo_connected = take 5 (hb_log demo_connected) @ Emitted (js ''b'') (TerminalWire True w) # []"
    using id_take_nth_drop [of 5 "hb_log demo_connected"] log(1) w by simp
  from workspace_data_is_sent_rightfully [OF demo_epochs demo_connected_facts(1) eq] eq show ?thesis by auto
qed

end
