(* ===== verification/Code_Presence.thy ===== *)
theory Code_Presence
  imports Code_Runs
begin

text \<open>
  The presence tables of the code namespace: one entry for a socket, of its own workspace and with its
  own identity, and no more entries than there may be.
\<close>

section \<open>The invariant\<close>

definition owner_of :: "'w hub \<Rightarrow> jstr \<Rightarrow> (jstr \<times> jstr) option" where
  "owner_of h s = map_option (\<lambda>k. (ss_workspaceId (so_session k), participantId (ss_participant (so_session k)))) (hb_heap h s)"

definition table_ok :: "nat \<Rightarrow> (jstr \<Rightarrow> (jstr \<times> jstr) option) \<Rightarrow> jstr \<Rightarrow> (jstr \<times> code_presence) list \<Rightarrow> bool" where
  "table_ok mx V ws ps \<longleftrightarrow> distinct (map fst ps) \<and> length ps \<le> mx
     \<and> (\<forall>(s, p) \<in> set ps. V s = Some (ws, participantId (pr_participant p)))"

definition tables_ok :: "nat \<Rightarrow> (jstr \<Rightarrow> (jstr \<times> jstr) option) \<Rightarrow> 'w hub \<Rightarrow> bool" where
  "tables_ok mx V h \<longleftrightarrow> owner_of h = V \<and> (\<forall>ws. table_ok mx V ws (peers_of ws h))"

definition aside :: "('w, 'a) code_action \<Rightarrow> bool" where
  "aside m \<longleftrightarrow> (\<forall>h. hb_awareness (snd (m h)) = hb_awareness h \<and> owner_of (snd (m h)) = owner_of h)"

lemma aside_keeps: "aside m \<Longrightarrow> keeps (tables_ok mx V) m"
  by (simp add: aside_def keeps_def tables_ok_def peers_of_def)

named_theorems aside_rules \<open>handlers that leave the presence tables alone\<close>

lemma aside_pure [aside_rules]: "aside (give x)" "aside (throw e)" "aside (ask f)" "aside (lift r)" "aside skip"
  by (simp_all add: aside_def give_def throw_def ask_def lift_def skip_def)

lemma aside_obtaining [aside_rules]: "aside m \<Longrightarrow> (\<And>x. aside (k x)) \<Longrightarrow> aside (obtaining m k)"
  unfolding aside_def obtaining_def by (auto split: prod.splits sum.splits) (metis snd_conv)+

lemma aside_andThen [aside_rules]: "aside m \<Longrightarrow> aside n \<Longrightarrow> aside (andThen m n)"
  unfolding andThen_def by (rule aside_obtaining)

lemma aside_attempt [aside_rules]: "aside m \<Longrightarrow> (\<And>e. aside (k e)) \<Longrightarrow> aside (attempt m k)"
  unfolding aside_def attempt_def by (auto split: prod.splits sum.splits) (metis snd_conv)+

lemma aside_if [aside_rules]: "aside m \<Longrightarrow> aside n \<Longrightarrow> aside (if b then m else n)"
  by simp

lemma aside_prod [aside_rules]: "(\<And>a b. aside (k a b)) \<Longrightarrow> aside (case x of (a, b) \<Rightarrow> k a b)"
  by (cases x) simp

lemma aside_option [aside_rules]: "aside m \<Longrightarrow> (\<And>y. aside (k y)) \<Longrightarrow> aside (case x of None \<Rightarrow> m | Some y \<Rightarrow> k y)"
  by (cases x) simp_all

lemma aside_each [aside_rules]: "(\<And>x. aside (f x)) \<Longrightarrow> aside (each f xs)"
  by (induction xs) (simp_all add: aside_rules)

lemma owner_frame: "hb_heap h' = hb_heap h \<Longrightarrow> owner_of h' = owner_of h"
  by (rule ext) (simp add: owner_of_def)

lemma aside_change: "(\<And>h. hb_heap (f h) = hb_heap h \<and> hb_awareness (f h) = hb_awareness h) \<Longrightarrow> aside (change f)"
  unfolding aside_def change_def by (auto intro!: owner_frame)

lemma aside_set_socket [aside_rules]:
  assumes "\<And>k. ss_workspaceId (so_session (f k)) = ss_workspaceId (so_session k)
     \<and> participantId (ss_participant (so_session (f k))) = participantId (ss_participant (so_session k))"
  shows "aside (set_socket s f)"
proof -
  have "owner_of (h\<lparr> hb_heap := (hb_heap h)(s := map_option f (hb_heap h s)) \<rparr>) = owner_of h" for h :: "'a hub"
    by (rule ext) (simp add: owner_of_def option.map_comp comp_def assms)
  then show ?thesis by (simp add: set_socket_def aside_def change_def)
qed

lemma aside_emit [aside_rules]: "aside (note_effect e)" "aside (is_connected s)" "aside (emit s c)" "aside (send_message s m ack)"
  by (auto simp: note_effect_def is_connected_def emit_def send_message_def intro!: aside_rules aside_change)

lemma aside_serve [aside_rules]: "aside (code_serve op note)"
  unfolding aside_def code_serve_def by (auto intro!: owner_frame split: prod.splits)

lemma aside_services [aside_rules]: "aside (service_reauthorize E s)" "aside (service_syncStep1 E s sv)" "aside (service_appendUpdate E s i u)"
    "aside (updateProfile E s p)" "aside (sendAwareness s pt st)" "aside (code_allowed s consume)" "aside (consume_action E s act)"
    "aside (emit_ack s ws aid err)" "aside (terminal_event E ws e)"
  unfolding service_reauthorize_def service_syncStep1_def service_appendUpdate_def updateProfile_def sendAwareness_def code_allowed_def
    consume_action_def emit_ack_def terminal_event_def
  by (intro aside_rules aside_change; simp)+

lemma aside_sort_out [aside_rules]: "aside (sort_out E excluded xs)"
  by (induction xs) (auto simp: reauthorizeSocket_def intro!: aside_rules)

section \<open>What changes a table\<close>

lemma peers_set: "peers_of w (snd (set_peers ws f h)) = (if w = ws then f (peers_of ws h) else peers_of w h)"
  by (auto simp: set_peers_def change_def peers_of_def Let_def split: option.splits)

lemma owner_set: "owner_of (snd (set_peers ws f h)) = owner_of h"
  by (rule owner_frame) (simp add: set_peers_def change_def)

lemma set_peers_ok:
  assumes "tables_ok mx V h" "table_ok mx V ws (f (peers_of ws h))"
  shows "tables_ok mx V (snd (set_peers ws f h))"
  using assms by (simp add: tables_ok_def peers_set owner_set)

lemma table_filter: "table_ok mx V ws ps \<Longrightarrow> table_ok mx V ws (filter P ps)"
  unfolding table_ok_def by (auto simp: distinct_map_filter intro: le_trans [OF length_filter_le])

lemma keeps_filter: "keeps (tables_ok mx V) (set_peers ws (filter P))"
  unfolding keeps_def
proof (intro allI impI)
  fix h :: "'a hub"
  assume h: "tables_ok mx V h"
  then have "table_ok mx V ws (peers_of ws h)" by (simp add: tables_ok_def)
  with h show "tables_ok mx V (snd (set_peers ws (filter P) h))" by (intro set_peers_ok table_filter)
qed

lemma keeps_drop: "keeps (tables_ok mx V) (set_peers ws (drop_peer s))"
  unfolding drop_peer_def [abs_def] by (rule keeps_filter)

lemma table_put:
  assumes "table_ok mx V ws ps" "V s = Some (ws, participantId (pr_participant p))" "map_of ps s \<noteq> None \<or> length ps < mx"
  shows "table_ok mx V ws (put_peer s p ps)"
proof -
  have len: "length (AList.update s p ps) = (if s \<in> fst ` set ps then length ps else Suc (length ps))" for ps :: "(jstr \<times> code_presence) list"
    by (induction ps) auto
  have size: "s \<in> fst ` set ps \<or> length ps < mx" using assms(3) by (auto simp: map_of_eq_None_iff)
  have entries: "set (AList.update s p ps) \<subseteq> insert (s, p) (set ps)" for ps :: "(jstr \<times> code_presence) list"
    by (induction ps) auto
  have "\<forall>(q, c) \<in> set (AList.update s p ps). V q = Some (ws, participantId (pr_participant c))"
    using entries [of ps] assms(1,2) unfolding table_ok_def by fast
  moreover have "length (AList.update s p ps) \<le> mx" using size assms(1) by (auto simp: len table_ok_def)
  ultimately show ?thesis
    using assms(1) distinct_update [of ps s p] by (simp add: table_ok_def put_peer_def)
qed

definition table_closer :: "(jstr \<Rightarrow> ('w, unit) code_action) \<Rightarrow> bool" where
  "table_closer close \<longleftrightarrow> (\<forall>mx V s. keeps (tables_ok mx V) (close s))"

lemma table_closerD: "table_closer close \<Longrightarrow> keeps (tables_ok mx V) (close s)"
  by (simp add: table_closer_def)

lemma table_reauthorize: "table_closer close \<Longrightarrow> keeps (tables_ok mx V) (reauthorizeSocket E close s b)"
  unfolding reauthorizeSocket_def
  by (intro keep_rules aside_keeps [OF aside_services(1)] aside_keeps [OF aside_emit(4)]) (rule table_closerD)

lemmas table_steps = aside_keeps [OF aside_emit(1)] aside_keeps [OF aside_emit(2)] aside_keeps [OF aside_emit(3)] aside_keeps [OF aside_emit(4)]
  aside_keeps [OF aside_services(1)] aside_keeps [OF aside_services(2)] aside_keeps [OF aside_services(3)] aside_keeps [OF aside_services(5)]
  aside_keeps [OF aside_services(6)] aside_keeps [OF aside_services(7)] aside_keeps [OF aside_services(8)] aside_keeps [OF aside_services(9)]
  aside_keeps [OF aside_sort_out] table_reauthorize keeps_drop keeps_filter

lemma table_broadcasts:
  assumes "table_closer close"
  shows "keeps (tables_ok mx V) (broadcastAuthorized E close ws m excluded)" "keeps (tables_ok mx V) (broadcastAwareness E close ws p st excluded)"
    "keeps (tables_ok mx V) (emitAuthorized E close s m)"
  unfolding broadcastAuthorized_def broadcastAwareness_def emitAuthorized_def by (intro keep_rules table_steps table_closerD [OF assms] assms)+

lemma keeps_table_change:
  "(\<And>h. hb_heap (f h) = hb_heap h \<and> hb_awareness (f h) = hb_awareness h) \<Longrightarrow> keeps (tables_ok mx V) (change f :: ('w, unit) code_action)"
  by (intro aside_keeps aside_change)

lemma drop_table: "table_closer (drop_socket E n)"
proof (induction n)
  case (Suc n)
  have "keeps (tables_ok mx V) (drop_socket E (Suc n) s)" for mx V s
    unfolding drop_socket.simps chain.simps awareness_disconnect_def terminal_disconnect_def
    by (intro keep_rules table_steps table_broadcasts [OF Suc.IH] keeps_table_change) (auto simp: Let_def)
  then show ?case by (simp add: table_closer_def del: drop_socket.simps)
qed (simp add: table_closer_def keeps_skip)

lemma close_table: "table_closer (close_socket E)"
proof -
  have "keeps (tables_ok mx V) (close_socket E s)" for mx V s
    unfolding close_socket_def by (intro keeps_obtaining keeps_ask table_closerD [OF drop_table])
  then show ?thesis by (simp add: table_closer_def)
qed

section \<open>The handlers\<close>

lemma keeps_ask_pointwise:
  "(\<And>h. I h \<Longrightarrow> I (snd (k (f h) h))) \<Longrightarrow> keeps I (obtaining (ask f) k)"
  by (simp add: keeps_def ask_obtaining)

lemma table_profile:
  assumes "keeps (tables_ok mx V) (updateParticipant E (close_socket E) s)"
  shows "keeps (tables_ok mx V) (handle_profile E s p ack)"
proof -
  let ?T = "tables_ok mx V :: 'a hub \<Rightarrow> bool"
  let ?rest = "\<lambda>identity ws current. chain
         [(case current of None \<Rightarrow> skip
           | Some c \<Rightarrow> set_peers ws (put_peer s \<lparr> pr_participant = identity, pr_state = pr_state c \<rparr>)),
          updateParticipant E (close_socket E) s,
          send_message s (CodeProfileUpdated identity) ack,
          (case current of None \<Rightarrow> skip
           | Some c \<Rightarrow> broadcastAwareness E (close_socket E) ws identity (Some (pr_state c)) (Some s))]"
  have rest: "?T (snd (?rest (ss_participant (session_of h s)) (workspace_of h s) (map_of (peers_of (workspace_of h s) h) s) h))"
    if h: "?T h" for h
  proof -
    let ?ws = "workspace_of h s"
    let ?id = "ss_participant (session_of h s)"
    have tail: "keeps ?T (chain [updateParticipant E (close_socket E) s, send_message s (CodeProfileUpdated ?id) ack,
          (case current of None \<Rightarrow> skip
           | Some c \<Rightarrow> broadcastAwareness E (close_socket E) ?ws ?id (Some (pr_state c)) (Some s))])" for current
      unfolding chain.simps by (intro keep_rules assms table_steps table_broadcasts [OF close_table])
    show ?thesis
    proof (cases "map_of (peers_of ?ws h) s")
      case None
      with tail [of None] h show ?thesis by (simp add: skip_then keeps_def)
    next
      case (Some c)
      let ?put = "set_peers ?ws (put_peer s \<lparr> pr_participant = ?id, pr_state = pr_state c \<rparr>) :: ('a, unit) code_action"
      have t: "table_ok mx V ?ws (peers_of ?ws h)" using h by (simp add: tables_ok_def)
      then have "owner_of h s = Some (?ws, participantId (pr_participant c))"
        using map_of_SomeD [OF Some] h by (auto simp: table_ok_def tables_ok_def)
      then have "V s = Some (?ws, participantId ?id)"
        using h by (auto simp: tables_ok_def owner_of_def session_of_def socket_of_def)
      then have "table_ok mx V ?ws (put_peer s \<lparr> pr_participant = ?id, pr_state = pr_state c \<rparr> (peers_of ?ws h))"
        using t Some by (intro table_put) auto
      then have "?T (snd (?put h))" by (rule set_peers_ok [OF h])
      moreover have "?put h = (Inr (), snd (?put h))" by (simp add: set_peers_def change_def)
      ultimately show ?thesis
        using tail [of "Some c"] Some
        unfolding chain.simps(2) [of "case map_of (peers_of ?ws h) s of None \<Rightarrow> skip | Some c \<Rightarrow> _ c"]
        by (simp add: andThen_Inr [where m = ?put] keeps_def)
    qed
  qed
  have "keeps ?T (obtaining (updateProfile E s p) (\<lambda>identity.
       obtaining (ask (\<lambda>h. (workspace_of h s, map_of (peers_of (workspace_of h s) h) s))) (\<lambda>(ws, current). ?rest identity ws current)))"
    unfolding keeps_def
  proof (intro allI impI)
    fix h :: "'a hub"
    assume h: "?T h"
    obtain r h1 where run: "updateProfile E s p h = (r, h1)" by (cases "updateProfile E s p h")
    have h1: "?T h1" using keepsD [OF aside_keeps [OF aside_services(4)] h run] .
    show "?T (snd (obtaining (updateProfile E s p) (\<lambda>identity.
       obtaining (ask (\<lambda>h. (workspace_of h s, map_of (peers_of (workspace_of h s) h) s))) (\<lambda>(ws, current). ?rest identity ws current)) h))"
    proof (cases r)
      case (Inr x)
      with run have "x = ss_participant (session_of h1 s)"
        by (auto simp: updateProfile_def andThen_def obtaining_def ask_def split: prod.splits sum.splits)
      with rest [OF h1] run Inr show ?thesis
        by (simp only: obtaining_Inr [where m = "updateProfile E s p"] ask_obtaining prod.case)
    qed (use h1 run in \<open>simp add: obtaining_def\<close>)
  qed
  then show ?thesis
    unfolding handle_profile_def by (intro keeps_obtaining [OF aside_keeps [OF aside_services(6)] keeps_if]) (intro table_steps)
qed

lemma table_awareness:
  assumes "V s \<noteq> None"
  shows "keeps (tables_ok (ce_maxAwarenessPeers E) V) (handle_awareness E s st ack)"
proof -
  let ?T = "tables_ok (ce_maxAwarenessPeers E) V :: 'a hub \<Rightarrow> bool"
  have entry: "keeps ?T (obtaining (ask (\<lambda>h. (session_of h s, peers_of (workspace_of h s) h))) (\<lambda>(ss, ps).
       if st \<noteq> None \<and> map_of ps s = None \<and> ce_maxAwarenessPeers E \<le> length ps
       then send_message s (code_rate_limited ''Code awareness peer limit reached'' None) ack
       else andThen
         (set_peers (ss_workspaceId ss) (case st of None \<Rightarrow> drop_peer s
            | Some x \<Rightarrow> put_peer s \<lparr> pr_participant = ss_participant ss, pr_state = x \<rparr>))
         (broadcastAwareness E (close_socket E) (ss_workspaceId ss) (ss_participant ss) st (Some s))))"
  proof (rule keeps_ask_pointwise)
    fix h :: "'a hub"
    assume h: "?T h"
    let ?ss = "session_of h s"
    let ?ws = "ss_workspaceId ?ss"
    let ?ps = "peers_of ?ws h"
    have ws: "workspace_of h s = ?ws" by (simp add: workspace_of_def)
    have V: "V s = Some (?ws, participantId (ss_participant ?ss))"
      using assms h by (auto simp: tables_ok_def owner_of_def session_of_def socket_of_def)
    have send: "keeps ?T (send_message s (code_rate_limited ''Code awareness peer limit reached'' None) ack)" by (intro table_steps)
    have more: "keeps ?T (broadcastAwareness E (close_socket E) ?ws (ss_participant ?ss) st (Some s))"
      by (rule table_broadcasts(2) [OF close_table])
    let ?f = "case st of None \<Rightarrow> drop_peer s | Some x \<Rightarrow> put_peer s \<lparr> pr_participant = ss_participant ?ss, pr_state = x \<rparr>"
    have "?T (snd (andThen (set_peers ?ws ?f) (broadcastAwareness E (close_socket E) ?ws (ss_participant ?ss) st (Some s)) h))"
      if room: "\<not> (st \<noteq> None \<and> map_of ?ps s = None \<and> ce_maxAwarenessPeers E \<le> length ?ps)"
    proof -
      have t: "table_ok (ce_maxAwarenessPeers E) V ?ws ?ps" using h by (simp add: tables_ok_def)
      have "table_ok (ce_maxAwarenessPeers E) V ?ws (?f ?ps)"
      proof (cases st)
        case None
        with table_filter [OF t] show ?thesis by (simp add: drop_peer_def)
      next
        case (Some x)
        with room t V show ?thesis by (auto intro!: table_put)
      qed
      then have "?T (snd (set_peers ?ws ?f h))" by (rule set_peers_ok [OF h])
      moreover have "set_peers ?ws ?f h = (Inr (), snd (set_peers ?ws ?f h))" by (simp add: set_peers_def change_def)
      ultimately show ?thesis using more by (simp add: andThen_Inr [where m = "set_peers ?ws ?f"] keeps_def)
    qed
    with send h show "?T (snd ((case (?ss, peers_of (workspace_of h s) h) of (ss, ps) \<Rightarrow>
       if st \<noteq> None \<and> map_of ps s = None \<and> ce_maxAwarenessPeers E \<le> length ps
       then send_message s (code_rate_limited ''Code awareness peer limit reached'' None) ack
       else andThen
         (set_peers (ss_workspaceId ss) (case st of None \<Rightarrow> drop_peer s
            | Some x \<Rightarrow> put_peer s \<lparr> pr_participant = ss_participant ss, pr_state = x \<rparr>))
         (broadcastAwareness E (close_socket E) (ss_workspaceId ss) (ss_participant ss) st (Some s))) h))"
      unfolding ws by (simp add: keeps_def)
  qed
  show ?thesis
    unfolding handle_awareness_def
    by (intro keeps_obtaining [OF aside_keeps [OF aside_services(6)] keeps_if] keeps_andThen entry) (intro table_steps)+
qed

lemma table_participant: "keeps (tables_ok mx V) (updateParticipant E (close_socket E) s)"
  unfolding updateParticipant_def by (intro keep_rules table_steps table_broadcasts [OF close_table])

lemma table_replay: "keeps (tables_ok mx V) (replayAwarenessOnce E s)"
proof -
  have "keeps (tables_ok mx V) (set_socket s (\<lambda>k. k\<lparr> so_replayed := True \<rparr>))" by (intro aside_keeps aside_set_socket) simp
  then show ?thesis
    unfolding replayAwarenessOnce_def by (intro keep_rules table_steps close_table)
qed

lemma table_message:
  assumes "V s \<noteq> None"
  shows "keeps (tables_ok (ce_maxAwarenessPeers E) V) (handle_code_message E s ack c)"
proof -
  have "keeps (tables_ok mx V) (set_socket s (\<lambda>k. k\<lparr> so_multi := True \<rparr>))" for mx by (intro aside_keeps aside_set_socket) simp
  moreover have "keeps (tables_ok mx V) (handle_step1 E s r sv ack)" "keeps (tables_ok mx V) (handle_update E s r i u ack)" for mx r sv i u
    unfolding handle_step1_def handle_update_def by (intro keep_rules table_steps table_broadcasts [OF close_table])+
  ultimately show ?thesis
    unfolding handle_code_message_def using table_awareness [of V s E, OF assms]
    by (cases c) (auto intro!: keeps_andThen table_replay table_profile table_participant)
qed

lemma table_extended:
  assumes "\<And>q. V q \<noteq> None \<Longrightarrow> V' q = V q" "table_ok mx V ws ps"
  shows "table_ok mx V' ws ps"
proof -
  have "V' q = Some (ws, participantId (pr_participant p))" if "(q, p) \<in> set ps" for q p
    using that assms(1) [of q] assms(2) by (auto simp: table_ok_def)
  then show ?thesis using assms(2) by (auto simp: table_ok_def)
qed

lemma table_event:
  assumes "hub_ok h" "code_possible h ev" "tables_ok (ce_maxAwarenessPeers E) (owner_of h) h"
  shows "tables_ok (ce_maxAwarenessPeers E) (owner_of (code_run_event E ev h)) (code_run_event E ev h)"
proof -
  let ?T = "\<lambda>h :: 'a hub. tables_ok (ce_maxAwarenessPeers E) (owner_of h) h"
  have c: "?T (snd (m h))" if "keeps (tables_ok (ce_maxAwarenessPeers E) (owner_of h)) m" for m :: "('a, unit) code_action"
    using that assms(3) by (auto simp: keeps_def tables_ok_def)
  have refuse: "keeps (tables_ok (ce_maxAwarenessPeers E) (owner_of h)) (refuse_packet s ack)" for s ack
    unfolding refuse_packet_def by (intro aside_keeps aside_rules) simp
  show ?thesis
  proof (cases ev)
    case (Asks s blocked origin auth)
    then have new: "hb_heap h s = None" using assms(2) by (simp add: code_possible_def)
    have "?T (snd (admit_code_socket E s origin auth h))"
    proof -
      have same: "?T g" if "hb_heap g = hb_heap h" "hb_awareness g = hb_awareness h" for g :: "'a hub"
        using assms(3) that owner_frame [of g h] by (simp add: tables_ok_def peers_of_def)
      have place: "?T (g\<lparr> hb_heap := (hb_heap g)(s \<mapsto> k) \<rparr>)" if g: "hb_heap g = hb_heap h" "hb_awareness g = hb_awareness h" for g k
      proof -
        let ?g = "g\<lparr> hb_heap := (hb_heap g)(s \<mapsto> k) \<rparr>"
        have "owner_of ?g q = owner_of h q" if "owner_of h q \<noteq> None" for q
          using that new g by (auto simp: owner_of_def)
        then have "table_ok mx (owner_of ?g) ws ps" if "table_ok mx (owner_of h) ws ps" for mx ws ps
          using that by (rule table_extended)
        moreover have "peers_of ws ?g = peers_of ws h" for ws using g by (simp add: peers_of_def)
        ultimately show ?thesis using assms(3) by (simp add: tables_ok_def)
      qed
      obtain r w where auth: "service_authenticate E a h = (r a, h\<lparr> hb_world := w a \<rparr>)" for a
        by (simp add: service_authenticate_def split_beta)
      show ?thesis
      proof (cases "code_origin_ok E origin")
        case True
        show ?thesis
        proof (cases "parseCodeSyncHandshakeAuth (ce_nfkc E) auth")
          case (Inr a)
          with True place [of "h\<lparr> hb_world := w a \<rparr>"] same [of "h\<lparr> hb_world := w a \<rparr>"] show ?thesis
            by (cases "r a") (simp_all add: admit_code_socket_def parsed_or_throw_def lift_def obtaining_def auth change_def)
        qed (use assms(3) True in \<open>simp add: admit_code_socket_def parsed_or_throw_def lift_def obtaining_def\<close>)
      qed (use assms(3) in \<open>simp add: admit_code_socket_def throw_def\<close>)
    qed
    with Asks assms(3) show ?thesis by (simp add: code_run_event_def code_handler_def skip_def give_def)
  next
    case (Connects s)
    have "aside (connect_code_socket E s)"
      unfolding connect_code_socket_def terminal_connect_def chain.simps
      by (intro aside_rules aside_change) (auto split: option.split)
    from c [OF aside_keeps [OF this]] Connects show ?thesis by (simp add: code_run_event_def code_handler_def)
  next
    case (Sends s allowed raw ack)
    then have s: "owner_of h s \<noteq> None" using assms(1,2) open_place [of h s]
      by (auto simp: code_possible_def hub_ok_iff owner_of_def places_def)
    have m: "keeps (tables_ok (ce_maxAwarenessPeers E) (owner_of h)) (handle_code_message E s ack x)" for x
      by (rule table_message) (rule s)
    have "keeps (tables_ok (ce_maxAwarenessPeers E) (owner_of h)) (onCodeMessage E s raw ack)"
      unfolding onCodeMessage_def parsed_or_throw_def Let_def
      by (intro keeps_attempt keeps_obtaining keeps_lift m keeps_andThen keeps_if keeps_skip aside_keeps [OF aside_emit(4)]
          table_closerD [OF close_table])
    from c [OF this] c [OF refuse] Sends show ?thesis by (simp add: code_run_event_def code_handler_def)
  next
    case (Acts s allowed raw ack)
    have "keeps (tables_ok (ce_maxAwarenessPeers E) (owner_of h)) (terminal_action E (close_socket E) s raw)"
      unfolding terminal_action_def terminal_answer_def chain.simps
      by (intro keep_rules table_steps table_broadcasts [OF close_table] table_closerD [OF close_table])
    from c [OF this] c [OF refuse] Acts show ?thesis by (simp add: code_run_event_def code_handler_def)
  next
    case (Expires s)
    with c [OF table_closerD [OF close_table]] show ?thesis by (simp add: code_run_event_def code_handler_def)
  next
    case (Leaves s)
    with c [OF table_closerD [OF close_table]] show ?thesis by (simp add: code_run_event_def code_handler_def)
  next
    case (WorldChanges w)
    with c [OF keeps_table_change] show ?thesis by (simp add: code_run_event_def code_handler_def)
  next
    case (ClockTicks t)
    with c [OF keeps_table_change] show ?thesis by (simp add: code_run_event_def code_handler_def)
  qed
qed

lemma reachable_tables:
  assumes "uuid_epochs E" "code_reachable E h"
  shows "tables_ok (ce_maxAwarenessPeers E) (owner_of h) h"
  using assms(2)
proof (induction rule: code_reachable.induct)
  case (start w now)
  show ?case by (simp add: tables_ok_def table_ok_def peers_of_def new_hub_def)
next
  case (event h ev)
  from table_event [OF reachable_hub_ok [OF assms(1) event.hyps(1)] event.hyps(2) event.IH] show ?case .
qed

text \<open>
  C12. The presence of a workspace is bounded and nobody can appear as someone else: in every reachable state
  a table has at most as many entries as there may be, at most one for a socket, and each is of a socket
  admitted to that workspace and carries the identity its session was given.
\<close>

theorem code_presence_is_bounded_and_owned:
  assumes "uuid_epochs E" "code_reachable E h"
  shows "distinct (map fst (peers_of ws h)) \<and> length (peers_of ws h) \<le> ce_maxAwarenessPeers E
    \<and> (\<forall>(s, p) \<in> set (peers_of ws h). workspace_of h s = ws
         \<and> participantId (pr_participant p) = participantId (ss_participant (session_of h s)))"
  using reachable_tables [OF assms]
  by (fastforce simp: tables_ok_def table_ok_def owner_of_def workspace_of_def session_of_def socket_of_def)

section \<open>The theorem applied\<close>

text \<open>A socket of the sample run announces the file it is in.\<close>

definition demo_present :: "bool list hub" where
  "demo_present = code_run_event demo_code_env (Sends (js ''a'') True (sobj [(''type'', SStr tag_awareness),
     (''protocolVersion'', SNum (JInt code_protocol_version)), (''state'', sobj [(''target'',
        sobj [(''kind'', SStr (js ''file'')), (''entryId'', SStr (js ''main'')), (''field'', SStr (js ''text''))])])]) False) demo_connected"

lemma demo_present_reachable: "code_reachable demo_code_env demo_present"
  unfolding demo_present_def
  by (rule code_reachable.event [OF demo_connected_facts(1)]) (simp add: code_possible_def demo_connected_facts(2))

theorem code_presence_is_bounded_and_owned_witness:
  "distinct (map fst (peers_of (js ''ws'') demo_present)) \<and> length (peers_of (js ''ws'') demo_present) \<le> 128"
  using code_presence_is_bounded_and_owned [OF demo_epochs demo_present_reachable, of "js ''ws''"]
  by (simp add: demo_code_env_def)

end
