(* ===== verification/Code_Closing.thy ===== *)
theory Code_Closing
  imports Code_Follow
begin

text \<open>
  The number of \<open>drop_socket\<close> does not matter: with at least the number of open sockets it always does the
  same, and closing a socket satisfies the equation without it.
\<close>

section \<open>Handlers that agree\<close>

definition at_most :: "nat \<Rightarrow> 'w hub \<Rightarrow> bool" where
  "at_most k h \<longleftrightarrow> length (hb_open h) \<le> k"

definition agree :: "('s \<Rightarrow> bool) \<Rightarrow> ('s, 'e, 'a) handler \<Rightarrow> ('s, 'e, 'a) handler \<Rightarrow> bool" where
  "agree P m m' \<longleftrightarrow> (\<forall>h. P h \<longrightarrow> m h = m' h \<and> P (snd (m h)))"

named_theorems agree_rules \<open>handlers that agree part by part\<close>

lemma agreeD: "agree P m m' \<Longrightarrow> P h \<Longrightarrow> m h = m' h \<and> P (snd (m' h))"
  unfolding agree_def by metis

lemma agree_same: "keeps P m \<Longrightarrow> agree P m m"
  by (simp add: agree_def keeps_def)

lemma agree_pure [agree_rules]: "agree P (give x) (give x)" "agree P (ask f) (ask f)" "agree P skip skip"
  by (intro agree_same keep_rules)+

lemma agree_obtaining [agree_rules]:
  assumes "agree P m m'" "\<And>x. agree P (k x) (k' x)"
  shows "agree P (obtaining m k) (obtaining m' k')"
  unfolding agree_def
proof (intro allI impI)
  fix h assume "P h"
  with assms(1) have m: "m h = m' h" "P (snd (m h))" by (auto simp: agree_def)
  show "obtaining m k h = obtaining m' k' h \<and> P (snd (obtaining m k h))"
    using m assms(2) by (cases "m' h"; cases "fst (m' h)") (auto simp: obtaining_def agree_def)
qed

lemma agree_andThen [agree_rules]: "agree P m m' \<Longrightarrow> agree P n n' \<Longrightarrow> agree P (andThen m n) (andThen m' n')"
  unfolding andThen_def by (rule agree_obtaining)

lemma agree_attempt [agree_rules]:
  assumes "agree P m m'" "\<And>e. agree P (k e) (k' e)"
  shows "agree P (attempt m k) (attempt m' k')"
  unfolding agree_def
proof (intro allI impI)
  fix h assume "P h"
  with assms(1) have m: "m h = m' h" "P (snd (m h))" by (auto simp: agree_def)
  show "attempt m k h = attempt m' k' h \<and> P (snd (attempt m k h))"
    using m assms(2) by (cases "m' h"; cases "fst (m' h)") (auto simp: attempt_def agree_def)
qed

lemma agree_if [agree_rules]: "agree P m m' \<Longrightarrow> agree P n n' \<Longrightarrow> agree P (if b then m else n) (if b then m' else n')"
  by simp

lemma agree_prod [agree_rules]: "(\<And>a b. agree P (k a b) (k' a b)) \<Longrightarrow> agree P (case x of (a, b) \<Rightarrow> k a b) (case x of (a, b) \<Rightarrow> k' a b)"
  by (cases x) simp

lemma agree_option [agree_rules]:
  "agree P m m' \<Longrightarrow> (\<And>y. agree P (k y) (k' y)) \<Longrightarrow> agree P (case x of None \<Rightarrow> m | Some y \<Rightarrow> k y) (case x of None \<Rightarrow> m' | Some y \<Rightarrow> k' y)"
  by (cases x) simp_all

lemma agree_each [agree_rules]: "(\<And>x. agree P (f x) (f' x)) \<Longrightarrow> agree P (each f xs) (each f' xs)"
  by (induction xs) (simp_all add: agree_rules)

lemma agree_still: "still m \<Longrightarrow> agree (at_most k) m m"
  by (intro agree_same still_keeps) (auto simp: unchanged_def at_most_def)

lemma agree_change: "(\<And>h. hb_open (f h) = hb_open h) \<Longrightarrow> agree (at_most k) (change f) (change f)"
  by (intro agree_same keeps_change) (simp add: at_most_def)

lemma agree_terminal_event: "agree (at_most k) (terminal_event E ws e) (terminal_event E ws e)"
  unfolding terminal_event_def by (intro agree_rules agree_change) simp

section \<open>The end of a socket, with one way of closing or another\<close>

lemma agree_reauthorize:
  assumes "\<And>q. agree (at_most k) (c q) (c' q)"
  shows "agree (at_most k) (reauthorizeSocket E c s b) (reauthorizeSocket E c' s b)"
  unfolding reauthorizeSocket_def
  by (intro agree_rules assms agree_still [OF still_service_reauthorize] agree_still [OF still_send])

lemma agree_broadcasts:
  assumes "\<And>q. agree (at_most k) (c q) (c' q)"
  shows "agree (at_most k) (broadcastAuthorized E c ws m excluded) (broadcastAuthorized E c' ws m excluded)"
    "agree (at_most k) (broadcastAwareness E c ws p st excluded) (broadcastAwareness E c' ws p st excluded)"
proof -
  have emit: "agree (at_most k) (emit s m) (emit s m)" for s
    by (intro agree_same) (auto simp: keeps_def at_most_def emit_def is_connected_def ask_obtaining note_effect_def change_def skip_def give_def)
  show "agree (at_most k) (broadcastAuthorized E c ws m excluded) (broadcastAuthorized E c' ws m excluded)"
    unfolding broadcastAuthorized_def by (intro agree_rules emit assms agree_still [OF still_sort_out])
  show "agree (at_most k) (broadcastAwareness E c ws p st excluded) (broadcastAwareness E c' ws p st excluded)"
    unfolding broadcastAwareness_def
    by (intro agree_rules agree_reauthorize assms agree_still [OF still_is_connected] agree_still [OF still_sendAwareness])
qed

definition ending :: "'w code_env \<Rightarrow> (jstr \<Rightarrow> ('w, unit) code_action) \<Rightarrow> jstr \<Rightarrow> ('w, unit) code_action" where
  "ending E close s = chain [note_effect (Left s), awareness_disconnect E close s, terminal_disconnect E close s]"

lemma agree_ending:
  assumes "\<And>q. agree (at_most k) (c q) (c' q)"
  shows "agree (at_most k) (ending E c s) (ending E c' s)"
proof -
  have note_left: "agree (at_most k) (note_effect (Left s)) (note_effect (Left s))" by (intro agree_still still_note) simp
  have aw: "agree (at_most k) (awareness_disconnect E c s) (awareness_disconnect E c' s)"
    unfolding awareness_disconnect_def by (intro agree_rules agree_broadcasts assms agree_still [OF still_set_peers])
  have departed: "agree (at_most k) (change (departed ws) :: ('a, unit) code_action) (change (departed ws))" for ws
    by (rule agree_change) (simp add: departed_def Let_def)
  have rates: "agree (at_most k) (change (\<lambda>h. h\<lparr> hb_actionRates := (hb_actionRates h)(s := None) \<rparr>) :: ('a, unit) code_action)
      (change (\<lambda>h. h\<lparr> hb_actionRates := (hb_actionRates h)(s := None) \<rparr>))"
    by (rule agree_change) simp
  have "agree (at_most k) (terminal_disconnect E c s) (terminal_disconnect E c' s)"
    unfolding terminal_disconnect_def
    by (intro agree_obtaining agree_andThen agree_option agree_pure rates agree_broadcasts assms agree_terminal_event
        departed [unfolded departed_def [abs_def]])
  with note_left aw show ?thesis unfolding ending_def chain.simps by (intro agree_andThen agree_pure)
qed

section \<open>The number does not matter\<close>

lemma drop_step: "drop_socket E (Suc n) s h = (if s \<in> set (hb_open h) then ending E (drop_socket E n) s (leaving s h) else (Inr (), h))"
  by (simp add: is_connected_def ask_obtaining skip_def give_def change_then ending_def leaving_def)

lemma leaving_at_most: "at_most (Suc k) h \<Longrightarrow> s \<in> set (hb_open h) \<Longrightarrow> at_most k (leaving s h)"
proof -
  assume k: "at_most (Suc k) h" and s: "s \<in> set (hb_open h)"
  have "length (filter (\<lambda>q. q \<noteq> s) (hb_open h)) < length (hb_open h)" by (rule length_filter_less [OF s]) simp
  with k show ?thesis by (simp add: at_most_def)
qed

lemma drop_agree: "k \<le> n \<Longrightarrow> agree (at_most k) (drop_socket E n s) (drop_socket E k s)"
proof (induction k arbitrary: n s)
  case 0
  then show ?case
    by (cases n) (auto simp: agree_def at_most_def skip_def give_def drop_step simp del: drop_socket.simps(2))
next
  case (Suc k)
  then obtain n' where n: "n = Suc n'" "k \<le> n'" by (cases n) auto
  show ?case
    unfolding agree_def
  proof (intro allI impI)
    fix h :: "'a hub"
    assume h: "at_most (Suc k) h"
    show "drop_socket E n s h = drop_socket E (Suc k) s h \<and> at_most (Suc k) (snd (drop_socket E n s h))"
    proof (cases "s \<in> set (hb_open h)")
      case True
      have "agree (at_most k) (ending E (drop_socket E n') s) (ending E (drop_socket E k) s)"
        by (rule agree_ending) (rule Suc.IH [OF n(2)])
      from agreeD [OF this leaving_at_most [OF h True]]
      have "drop_socket E n s h = drop_socket E (Suc k) s h" "at_most k (snd (drop_socket E (Suc k) s h))"
        using True by (simp_all add: n drop_step del: drop_socket.simps)
      then show ?thesis by (simp add: at_most_def)
    qed (use h in \<open>simp add: n drop_step del: drop_socket.simps\<close>)
  qed
qed

text \<open>
  Closing a socket, without the number: a socket that is not connected is left as it is; a connected one
  leaves its room, and then its handlers run, which close other sockets in the same way.
\<close>

theorem closing_equation:
  "close_socket E s h = (if s \<in> set (hb_open h) then ending E (close_socket E) s (leaving s h) else (Inr (), h))"
proof (cases "s \<in> set (hb_open h)")
  case True
  then obtain n where n: "length (hb_open h) = Suc n" by (cases "hb_open h") auto
  have same: "agree (at_most n) (drop_socket E n q) (close_socket E q)" for q
    unfolding agree_def
  proof (intro allI impI)
    fix g :: "'a hub"
    assume g: "at_most n g"
    then have "agree (at_most (length (hb_open g))) (drop_socket E n q) (drop_socket E (length (hb_open g)) q)"
      by (intro drop_agree) (simp add: at_most_def)
    from agreeD [OF this, of g] have "drop_socket E n q g = close_socket E q g"
      "at_most (length (hb_open g)) (snd (close_socket E q g))"
      by (simp_all add: at_most_def close_socket_def ask_obtaining)
    with g show "drop_socket E n q g = close_socket E q g \<and> at_most n (snd (drop_socket E n q g))" by (simp add: at_most_def)
  qed
  have "at_most n (leaving s h)" by (rule leaving_at_most) (use n True in \<open>simp_all add: at_most_def\<close>)
  with agree_ending [OF same] have "ending E (drop_socket E n) s (leaving s h) = ending E (close_socket E) s (leaving s h)"
    by (simp add: agree_def)
  then show ?thesis using True n by (simp add: close_socket_def ask_obtaining drop_step del: drop_socket.simps)
next
  case False
  then show ?thesis
    by (cases "length (hb_open h)") (simp_all add: close_socket_def ask_obtaining drop_step skip_def give_def del: drop_socket.simps(2))
qed

end
