(* ===== verification/Spec2Isabelle.thy ===== *)
theory Spec2Isabelle
  imports Terminal_Properties Packet_Json Socket_Admission Auth_Rate_Limit Sync_Ticket Chunk_Properties Awareness_Registry
    Profile_Codec Sync_Promises Code_Messages Code_Delivery Code_Presence Code_Closing
begin

text \<open>
  A verification library for the server and the shared protocols of this repository, a workspace in
  which tutors, students and guests share boards, code and a terminal.

  \<^bold>\<open>The program.\<close> A Node server authenticates people over HTTP, admits their sockets, and keeps shared
  state. Three families of real-time traffic go through it. Socket.IO connections pass the ingress
  accounting and the admission of \<open>src/server/socketAbuse.ts\<close> and carry, among other things, the
  shared terminal of a code workspace: an authoritative state machine on the server
  (\<open>src/code/terminal/stateMachine.ts\<close>) that publishes deltas (\<open>protocol.ts\<close>) to replicas in the
  browsers. Boards are synchronised over plain WebSockets: a client gets a one-use ticket
  (\<open>sync-ticket.ts\<close>), presents it in a binary frame (\<open>src/board/protocol/codec.ts\<close>), and from then on
  \<open>sync-transport.ts\<close> reads and changes documents for it, checking the access of every
  connection with \<open>sync-service.ts\<close> before everything it does, passes updates and presence
  (\<open>sync-awareness.ts\<close>) to the others on the board, and answers changes of profile
  (\<open>profileControl.ts\<close>). Login is limited by \<open>authRateLimit.ts\<close>.

  \<^bold>\<open>How it is modelled.\<close> Texts are lists of 16-bit code units (\<open>Prelude\<close>), bytes are 8-bit words, values
  from outside are the type of \<open>Wire\<close>; integers the code keeps within the safe range of numbers are
  \<open>int\<close>. Classes are records, methods are functions from the state to the state and an answer, and
  an exception is an error value. Methods that change much and may throw on the way are written
  in the state and error monad of \<open>Handler\<close>, in which an exception keeps the changes made before
  it. Time, random numbers and what a library answers are arguments or parameters; timers and
  callbacks are events of a step relation. Libraries the sources only call (lib0, Yjs, JSON.parse,
  Unicode normalisation, hash functions, the WebSocket library, SQLite) are parameters; what is
  relied on of them are named hypotheses (\<open>lib0_laws\<close>, \<open>text_laws\<close>, \<open>nfkc_laws\<close>, \<open>keys_unique\<close>), which
  ask nothing of lib0 beyond the safe integers, and nothing of JSON about a number that ECMAScript
  does not read back from its own text or about keys in an order that it does not list them in.
  Concrete instances (\<open>base128\<close> in \<open>Board_Library\<close>, the reader of \<open>Json_Reader\<close>) show that they can hold.

  \<^bold>\<open>The theories.\<close>

  \<^item> Shared: \<open>Prelude\<close>, \<open>Wire\<close>, \<open>Json_Text\<close> (what \<open>JSON.stringify\<close> writes and its length in UTF-8), \<open>Utf8\<close>
    (encoder and fatal decoder, with their round trips), \<open>Counted\<close> (counters in a map, as a multiset),
    \<open>Rate_Window\<close> (the locale \<open>fixed_window\<close>: at most twice the limit in any interval of the length of a
    window, interpreted by the traffic buckets, the ingress guard and the limiters of the board
    transport; \<open>forgetful_window\<close>, where some requests clear the counter, interpreted by the login
    limiter, which a successful login resets), \<open>Handler\<close> (the monad, and the rules by which
    handlers keep an invariant).
  \<^item> Shared terminal: \<open>Terminal_Types\<close>, \<open>Terminal_Fingerprint\<close>, \<open>Terminal_Machine\<close> (the class, method by
    method), \<open>Terminal_Protocol\<close>, \<open>Terminal_Replica\<close> (parsers, deltas), \<open>Terminal_Client\<close> (a client and the
    messages one socket receives; locale \<open>delta_source\<close>). \<open>Terminal_Roundtrip\<close>, \<open>Terminal_Soundness\<close>:
    parsers against printers; \<open>Terminal_Invariant\<close>, \<open>Terminal_Handlers\<close>, \<open>Terminal_Safety\<close>, \<open>Terminal_Runs\<close>:
    the invariant of every reachable terminal, one lemma per handler; \<open>Terminal_Properties\<close>.
  \<^item> Sockets: \<open>Packet_Size\<close>, \<open>Packet_Json\<close> (the charge of a packet is the length of its JSON text),
    \<open>Traffic\<close>, \<open>Socket_Ingress\<close>, \<open>Socket_Admission\<close>; \<open>Auth_Rate_Limit\<close> with its database table.
  \<^item> Board protocol: \<open>Board_Frame\<close>, \<open>Board_Decoder\<close>, \<open>Board_Codec\<close> (round trip and canonicity);
    \<open>Board_Chunks\<close>, \<open>Chunk_Reassembly\<close> (locale \<open>reassembly\<close>), \<open>Chunk_Ends\<close> (server and client interpret it),
    \<open>Chunk_Properties\<close>; \<open>Profile_Control\<close>, \<open>Profile_Codec\<close>.
  \<^item> Board server: \<open>Sync_Ticket\<close> (refines a ledger of tokens); \<open>Board_Access\<close> (the checks on the rows of
    the database) and \<open>Board_Policy\<close> (they refine a declarative policy); \<open>Sync_Awareness\<close>,
    \<open>Awareness_Identity\<close>, \<open>Awareness_Registry\<close>; \<open>Sync_Rates\<close>, \<open>Sync_State\<close>, \<open>Sync_Transport\<close>,
    \<open>Sync_Handlers\<close>, \<open>Sync_Events\<close>: the class \<open>BoardSyncTransport\<close> with every method, a heap of
    connections, a log of everything it sends, asks and answers, and the step relation
    \<open>sync_reaches\<close>. \<open>Sync_Security\<close> says which entries of the log are legitimate; \<open>Sync_Sending\<close>,
    \<open>Sync_Checks\<close> (locale \<open>granting_service\<close>) and \<open>Sync_Legitimate\<close> carry that through all handlers and
    events; \<open>Board_Service\<close> makes the access checks the service of the transport, and \<open>Sync_Promises\<close>
    interprets the locale on it. \<open>Sync_Admission\<close>: the counters and identifiers. \<open>Sync_Sample\<close>: one
    history, computed by simplification, to which the theorems are applied.
  \<^item> Code namespace: \<open>Code_Protocol\<close> (\<open>src/code/protocol/codec.ts\<close>) and \<open>Code_Messages\<close> (exactly the well-formed
    messages are accepted); \<open>Code_Rates\<close>, \<open>Code_Hub\<close>, \<open>Code_Namespace\<close>: \<open>src/server/code-sync/transport.ts\<close> with
    \<open>terminalTransport.ts\<close> and \<open>terminalActionRate.ts\<close>, in the monad of \<open>Handler\<close>, with a heap of sockets, a log of
    what is sent, asked and checked, and the runs \<open>code_reachable\<close>. \<open>Code_Frame\<close>: rules for its handlers;
    \<open>Code_Follow\<close>, \<open>Code_Runs\<close>: the interpretation of \<open>delta_source\<close> on the terminal carried through every
    broadcast and every socket that closes in the middle of one; \<open>Code_Safety\<close>, \<open>Code_Delivery\<close>: who is sent
    what; \<open>Code_Presence\<close>: the presence tables; \<open>Code_Closing\<close>: closing a socket needs no fuel.

  \<^bold>\<open>Composition.\<close> The promises of the board transport are about the log of any reachable state, with
  the access checks of the service, documents that answer anything, and a world that others change at
  any time. A synchronisation awaits room in the socket between two frames; it is a task that the
  event \<open>Resume\<close> advances by one segment, so everything else can happen in between. Sets and maps
  are visited in insertion order. The terminal's replica theorem composes the machine, the
  deliveries of the transport and the client's handlers, and
  \<open>connected_clients_follow_their_terminal\<close> puts that into the whole namespace, where a socket that is
  refused is closed in the middle of a broadcast and its end sends deltas of its own.

  \<^bold>\<open>Bounds and fuel.\<close> One definition has fuel: \<open>drop_socket\<close>, which closes a socket and those its end
  closes. The fuel is the number of open sockets, and every call takes a socket away before it calls
  itself, so it cannot run out first: more fuel changes nothing, closing satisfies its equation without
  fuel (\<open>closing_equation\<close>), and it closes the socket and keeps the invariant (\<open>drop_closes\<close>). The other loops are structural, or have a measure (the traversal of
  a packet graph: what is left of its budget), or are \<open>partial_function\<close> in the option type
  (drawing presence identifiers, which ends exactly if a free one is drawn:
  \<open>presence_identifier_is_found\<close>).

  \<^bold>\<open>Not modelled.\<close> The user interface (React components, Konva rendering, Monaco bindings), the HTTP
  routes and the database layer other than the statements named above, media calls, file and asset
  storage, the Python runner and its workers, and the Yjs documents themselves, which are not
  under \<open>src/\<close>. The second code namespace (\<open>src/server/lesson-code-sync/\<close>), a variant of the first for
  lessons. Of \<open>sync-service.ts\<close>: issuing tickets over HTTP, the document cache and compaction.
  Of the clients: what is not needed to state what arrives. Logging and metrics are left out.
\<close>

end
